(* ===== verification/Prelude.thy ===== *)
theory Prelude
  imports Main "HOL-Library.Sublist" "HOL-Library.AList" "HOL-Library.Multiset"
begin

text \<open>
  Shared vocabulary of the development: Python's fallible computations as sums, its dictionaries as
  association lists, its decimal rendering of integers and its substring test, together with the
  generic lemmas on lists that the component theories use.  Every component theory imports this one.

  Conventions.  A Python exception is a value \<open>Inl e\<close>; a normal return is \<open>Inr x\<close>.  A handler
  that runs inside \<open>async with uow\<close> maps a database to \<open>Inl e\<close> (the unit of work rolls back, so the
  caller keeps the old database) or to \<open>Inr\<close> of the committed database.  A \<open>datetime\<close> is an
  \<open>instant\<close>, the number of microseconds since the epoch.  A handler reads the wall clock once: the
  several \<open>datetime.now\<close> calls of one handler are the same instant.
\<close>

named_theorems result_simps \<open>rewrite rules for the error monad\<close>
named_theorems inv_intros \<open>preservation lemmas of component invariants\<close>

section \<open>Instants\<close>

type_synonym instant = int
type_synonym seconds = int

abbreviation usec :: "seconds \<Rightarrow> int" where
  "usec s \<equiv> s * 1000000"

section \<open>Fallible computations\<close>

text \<open>The built-in exceptions the modelled code can meet.\<close>

datatype py_error =
    KeyError string
  | IndexError
  | ValueError
  | IllegalMonthError
  | TypeError
  | AssertionError

definition bindE :: "'e + 'a \<Rightarrow> ('a \<Rightarrow> 'e + 'b) \<Rightarrow> 'e + 'b" where
  "bindE m f = (case m of Inl e \<Rightarrow> Inl e | Inr x \<Rightarrow> f x)"

definition guardE :: "bool \<Rightarrow> 'e \<Rightarrow> 'e + unit" where
  "guardE b e = (if b then Inr () else Inl e)"

definition of_option :: "'e \<Rightarrow> 'a option \<Rightarrow> 'e + 'a" where
  "of_option e x = (case x of None \<Rightarrow> Inl e | Some y \<Rightarrow> Inr y)"

text \<open>Reading a Python list at a non-negative index: \<open>IndexError\<close> past the end.\<close>

definition index_list :: "'e \<Rightarrow> 'a list \<Rightarrow> nat \<Rightarrow> 'e + 'a" where
  "index_list e xs i = (if i < length xs then Inr (xs ! i) else Inl e)"

lemma bindE_simps [simp, result_simps]:
  "bindE (Inl e) f = Inl e"
  "bindE (Inr x) f = f x"
  by (simp_all add: bindE_def)

lemma bindE_eq_Inr [result_simps]: "bindE m f = Inr y \<longleftrightarrow> (\<exists>x. m = Inr x \<and> f x = Inr y)"
  by (cases m) (auto simp: bindE_def)

lemma bindE_eq_Inl [result_simps]:
  "bindE m f = Inl e \<longleftrightarrow> m = Inl e \<or> (\<exists>x. m = Inr x \<and> f x = Inl e)"
  by (cases m) (auto simp: bindE_def)

lemma bindE_assoc: "bindE (bindE m f) g = bindE m (\<lambda>x. bindE (f x) g)"
  by (cases m) simp_all

lemma guardE_eq_Inr [simp, result_simps]: "guardE b e = Inr u \<longleftrightarrow> b"
  by (simp add: guardE_def)

lemma guardE_eq_Inl [simp, result_simps]: "guardE b e = Inl e' \<longleftrightarrow> \<not> b \<and> e' = e"
  by (auto simp: guardE_def)

lemma of_option_eq_Inr [simp, result_simps]: "of_option e x = Inr y \<longleftrightarrow> x = Some y"
  by (cases x) (auto simp: of_option_def)

lemma of_option_eq_Inl [simp, result_simps]: "of_option e x = Inl e' \<longleftrightarrow> x = None \<and> e' = e"
  by (cases x) (auto simp: of_option_def)

lemma index_list_eq_Inr [simp, result_simps]:
  "index_list e xs i = Inr y \<longleftrightarrow> i < length xs \<and> xs ! i = y"
  by (simp add: index_list_def)

lemma index_list_eq_Inl [simp, result_simps]:
  "index_list e xs i = Inl e' \<longleftrightarrow> length xs \<le> i \<and> e' = e"
  by (auto simp: index_list_def)

lemma index_list_in [simp]: "i < length xs \<Longrightarrow> index_list e xs i = Inr (xs ! i)"
  by (simp add: index_list_def)

section \<open>Python values and dictionaries\<close>

text \<open>
  The values a message or a saga context carries: what \<open>json.loads\<close> produces.  A dictionary keeps
  insertion order, so it is an association list without duplicate keys; \<open>AList.update\<close> replaces a
  present key in place and appends a new one, as Python's item assignment does.
\<close>

datatype json =
    JNull
  | JBool bool
  | JInt int
  | JStr string
  | JList "json list"
  | JObj "(string \<times> json) list"

type_synonym dict = "(string \<times> json) list"

abbreviation dget :: "dict \<Rightarrow> string \<Rightarrow> json option" where
  "dget d k \<equiv> map_of d k"

abbreviation dset :: "dict \<Rightarrow> string \<Rightarrow> json \<Rightarrow> dict" where
  "dset d k v \<equiv> AList.update k v d"

text \<open>\<open>d.get(k, default)\<close>.\<close>

definition dget_or :: "dict \<Rightarrow> string \<Rightarrow> json \<Rightarrow> json" where
  "dget_or d k v = (case dget d k of None \<Rightarrow> v | Some w \<Rightarrow> w)"

text \<open>\<open>context.update(result)\<close>: the entries of the second dictionary win.\<close>

definition dupdate :: "dict \<Rightarrow> dict \<Rightarrow> dict" where
  "dupdate d e = fold (\<lambda>(k, v) m. dset m k v) e d"

text \<open>Truth value testing of a Python value.\<close>

fun truthy :: "json \<Rightarrow> bool" where
  "truthy JNull = False"
| "truthy (JBool b) = b"
| "truthy (JInt n) = (n \<noteq> 0)"
| "truthy (JStr s) = (s \<noteq> [])"
| "truthy (JList xs) = (xs \<noteq> [])"
| "truthy (JObj d) = (d \<noteq> [])"

lemma dget_dset [simp]: "dget (dset d k v) k' = (if k' = k then Some v else dget d k')"
  by (simp add: update_conv')

lemma dget_or_dset [simp]:
  "dget_or (dset d k v) k' w = (if k' = k then v else dget_or d k' w)"
  by (simp add: dget_or_def)

lemma dupdate_Nil [simp]: "dupdate d [] = d"
  by (simp add: dupdate_def)

lemma dget_dupdate: "dget (dupdate d e) k = (case map_of (rev e) k of None \<Rightarrow> dget d k | Some v \<Rightarrow> Some v)"
proof (induction e arbitrary: d)
  case Nil
  then show ?case by simp
next
  case (Cons p e)
  obtain k' v' where p: "p = (k', v')" by (cases p)
  have "dupdate d (p # e) = dupdate (dset d k' v') e"
    by (simp add: p dupdate_def)
  then show ?case
    using Cons.IH [of "dset d k' v'"] by (auto simp: p map_add_def split: option.splits)
qed

section \<open>Strings\<close>

text \<open>The test \<open>needle in haystack\<close> on strings.\<close>

fun contains :: "'a list \<Rightarrow> 'a list \<Rightarrow> bool" where
  "contains needle [] = (needle = [])"
| "contains needle (c # cs) = (prefix needle (c # cs) \<or> contains needle cs)"

lemma contains_iff: "contains needle s \<longleftrightarrow> (\<exists>pre post. s = pre @ needle @ post)"
proof (induction s)
  case Nil
  then show ?case by auto
next
  case (Cons c cs)
  show ?case
  proof
    assume "contains needle (c # cs)"
    then consider "prefix needle (c # cs)" | "contains needle cs" by auto
    then show "\<exists>pre post. c # cs = pre @ needle @ post"
    proof cases
      case 1
      then show ?thesis by (metis append_Nil prefixE)
    next
      case 2
      then obtain pre post where "cs = pre @ needle @ post" using Cons.IH by blast
      then have "c # cs = (c # pre) @ needle @ post" by simp
      then show ?thesis by blast
    qed
  next
    assume "\<exists>pre post. c # cs = pre @ needle @ post"
    then obtain pre post where eq: "c # cs = pre @ needle @ post" by blast
    show "contains needle (c # cs)"
    proof (cases pre)
      case Nil
      then have "prefix needle (c # cs)" using eq by (auto simp: prefix_def)
      then show ?thesis by simp
    next
      case (Cons b pre')
      then show ?thesis using eq Cons.IH by auto
    qed
  qed
qed

lemma contains_appendI:
  "contains needle s \<Longrightarrow> contains needle (pre @ s)"
  "contains needle s \<Longrightarrow> contains needle (s @ post)"
  unfolding contains_iff by (metis append_assoc)+

lemma contains_self [simp]: "contains s s"
  unfolding contains_iff by (metis append_Nil append_Nil2)

text \<open>\<open>str.lower\<close> and \<open>str.upper\<close> on ASCII.\<close>

definition lower_char :: "char \<Rightarrow> char" where
  "lower_char c = (if 65 \<le> (of_char c :: nat) \<and> (of_char c :: nat) \<le> 90 then char_of (of_char c + 32 :: nat) else c)"

definition upper_char :: "char \<Rightarrow> char" where
  "upper_char c = (if 97 \<le> (of_char c :: nat) \<and> (of_char c :: nat) \<le> 122 then char_of (of_char c - 32 :: nat) else c)"

abbreviation lower :: "string \<Rightarrow> string" where "lower s \<equiv> map lower_char s"
abbreviation upper :: "string \<Rightarrow> string" where "upper s \<equiv> map upper_char s"

text \<open>Decimal rendering of integers: what an f-string writes for an \<open>int\<close>.\<close>

fun show_nat :: "nat \<Rightarrow> string" where
  "show_nat n =
     (if n < 10 then [char_of (48 + n)] else show_nat (n div 10) @ [char_of (48 + n mod 10)])"

declare show_nat.simps [simp del]

definition show_int :: "int \<Rightarrow> string" where
  "show_int i = (if i < 0 then CHR ''-'' # show_nat (nat (- i)) else show_nat (nat i))"

lemma char_of_digit_inject:
  "m < 10 \<Longrightarrow> n < 10 \<Longrightarrow> (char_of (48 + m :: nat) :: char) = char_of (48 + n) \<longleftrightarrow> m = n"
  by (simp add: char_of_eq_iff take_bit_eq_mod)

lemma show_nat_digits: "c \<in> set (show_nat n) \<Longrightarrow> \<exists>d < 10. c = char_of (48 + d :: nat)"
proof (induction n rule: show_nat.induct)
  case (1 n)
  show ?case
  proof (cases "n < 10")
    case True
    with "1.prems" show ?thesis by (subst (asm) show_nat.simps) auto
  next
    case False
    with "1.prems" have "c \<in> set (show_nat (n div 10)) \<or> c = char_of (48 + n mod 10)"
      by (subst (asm) show_nat.simps) auto
    moreover have "n mod 10 < 10" by simp
    ultimately show ?thesis using "1.IH" [OF False] by blast
  qed
qed

lemma show_nat_not_Nil [simp]: "show_nat n \<noteq> []"
  by (subst show_nat.simps) simp

lemma show_nat_single: "n < 10 \<Longrightarrow> show_nat n = [char_of (48 + n)]"
  by (subst show_nat.simps) simp

lemma show_nat_snoc: "\<not> n < 10 \<Longrightarrow> show_nat n = show_nat (n div 10) @ [char_of (48 + n mod 10)]"
  by (subst show_nat.simps) simp

lemma show_nat_inject [simp]: "show_nat m = show_nat n \<longleftrightarrow> m = n"
proof
  show "show_nat m = show_nat n \<Longrightarrow> m = n"
  proof (induction m arbitrary: n rule: show_nat.induct)
    case (1 m)
    have len: "1 < length (show_nat k)" if "\<not> k < 10" for k
      using that by (simp add: show_nat_snoc)
    show ?case
    proof (cases "m < 10")
      case True
      then have "n < 10"
        using len [of n] arg_cong [OF "1.prems", of length] by (cases "n < 10") (simp_all add: show_nat_single)
      with True show ?thesis
        using "1.prems" by (simp add: show_nat_single char_of_digit_inject del: of_char_of)
    next
      case False
      then have n: "\<not> n < 10"
        using len [of m] arg_cong [OF "1.prems", of length] by (cases "n < 10") (simp_all add: show_nat_single)
      have "show_nat (m div 10) = show_nat (n div 10)" and
        "(char_of (48 + m mod 10 :: nat) :: char) = char_of (48 + n mod 10)"
        using "1.prems" False n by (simp_all add: show_nat_snoc)
      then have "m div 10 = n div 10" and "m mod 10 = n mod 10"
        using "1.IH" [OF False] by (simp_all add: char_of_digit_inject del: of_char_of)
      then show ?thesis by (metis div_mult_mod_eq)
    qed
  qed
qed simp

lemma digit_char_neq:
  "d < 10 \<Longrightarrow> (char_of (48 + d :: nat) :: char) \<noteq> CHR '':''"
  "d < 10 \<Longrightarrow> (char_of (48 + d :: nat) :: char) \<noteq> CHR ''-''"
  by (simp_all add: char_of_eq_iff take_bit_eq_mod)

lemma show_nat_no_sep: "CHR '':'' \<notin> set (show_nat n)" "CHR ''-'' \<notin> set (show_nat n)"
  by (metis show_nat_digits digit_char_neq(1)) (metis show_nat_digits digit_char_neq(2))

lemma show_int_no_colon [simp]: "CHR '':'' \<notin> set (show_int i)"
  by (simp add: show_int_def show_nat_no_sep)

lemma show_int_inject [simp]: "show_int i = show_int j \<longleftrightarrow> i = j"
proof
  assume eq: "show_int i = show_int j"
  have sign: "(i < 0) = (j < 0)"
  proof (rule ccontr)
    assume "(i < 0) \<noteq> (j < 0)"
    then obtain m n where "CHR ''-'' # show_nat m = show_nat n"
      using eq [symmetric] eq unfolding show_int_def by (metis (full_types))
    then have "CHR ''-'' \<in> set (show_nat n)" by (metis list.set_intros(1))
    then show False by (simp add: show_nat_no_sep)
  qed
  then show "i = j" using eq by (auto simp: show_int_def split: if_splits)
qed simp

text \<open>Splitting at a separator neither part contains: the basis of key injectivity.\<close>

lemma append_sep_inject:
  assumes "c \<notin> set xs" and "c \<notin> set xs'" and "xs @ c # ys = xs' @ c # ys'"
  shows "xs = xs' \<and> ys = ys'"
  using assms
proof (induction xs arbitrary: xs')
  case Nil
  then show ?case by (cases xs') auto
next
  case (Cons x xs)
  then show ?case by (cases xs') auto
qed

section \<open>Lists of rows\<close>

text \<open>
  A database table is the list of its rows in insertion order.  \<open>update_where\<close> is an SQL
  \<open>UPDATE ... WHERE\<close>, \<open>List.find\<close> a query for at most one row.
\<close>

definition update_where :: "('r \<Rightarrow> bool) \<Rightarrow> ('r \<Rightarrow> 'r) \<Rightarrow> 'r list \<Rightarrow> 'r list" where
  "update_where P f rows = map (\<lambda>r. if P r then f r else r) rows"

lemma length_update_where [simp]: "length (update_where P f rows) = length rows"
  by (simp add: update_where_def)

lemma update_where_Nil [simp]: "update_where P f [] = []"
  by (simp add: update_where_def)

lemma update_where_Cons [simp]:
  "update_where P f (r # rows) = (if P r then f r else r) # update_where P f rows"
  by (simp add: update_where_def)

lemma update_where_append [simp]:
  "update_where P f (rows @ rows') = update_where P f rows @ update_where P f rows'"
  by (simp add: update_where_def)

lemma set_update_where: "set (update_where P f rows) = (\<lambda>r. if P r then f r else r) ` set rows"
  by (simp add: update_where_def)

lemma map_update_where:
  "(\<And>r. P r \<Longrightarrow> g (f r) = g r) \<Longrightarrow> map g (update_where P f rows) = map g rows"
  by (simp add: update_where_def)

lemma update_where_none: "(\<And>r. r \<in> set rows \<Longrightarrow> \<not> P r) \<Longrightarrow> update_where P f rows = rows"
  by (induction rows) auto

lemma set_map_filter: "set (List.map_filter f xs) = {y. \<exists>x \<in> set xs. f x = Some y}"
  by (induction xs) (auto simp: map_filter_simps split: option.splits)

lemma find_Some_mem: "List.find P xs = Some x \<Longrightarrow> x \<in> set xs \<and> P x"
  by (auto simp: find_Some_iff)

lemma find_None_all: "List.find P xs = None \<longleftrightarrow> (\<forall>x\<in>set xs. \<not> P x)"
  by (auto simp: find_None_iff)

lemma find_append: "List.find P (xs @ ys) =
    (case List.find P xs of None \<Rightarrow> List.find P ys | Some x \<Rightarrow> Some x)"
  by (induction xs) auto

text \<open>A query by a key that is unique in the table.\<close>

lemma find_distinct_key:
  assumes "distinct (map key rows)" and "r \<in> set rows"
  shows "List.find (\<lambda>x. key x = key r) rows = Some r"
  using assms by (induction rows) (auto simp: image_iff)

lemma update_where_key_mem:
  assumes "distinct (map key rows)" and "r \<in> set rows"
  shows "r' \<in> set (update_where (\<lambda>x. key x = key r) f rows) \<longleftrightarrow>
    r' = f r \<or> (r' \<in> set rows \<and> key r' \<noteq> key r)"
  using assms by (induction rows) (auto simp: image_iff set_update_where split: if_splits)

end
