(* ===== verification/Calendar.thy ===== *)
theory Calendar
  imports Prelude
begin

text \<open>
  The part of Python's \<open>datetime.date\<close> and \<open>calendar\<close> that the budget code uses: construction with
  its range checks, comparison, the proleptic Gregorian ordinal and \<open>monthrange\<close>.  The lemmas show
  that the ordinal numbers the valid dates without gaps: it is strictly monotone, and the last day of
  a month is followed by the first day of the next.
\<close>

section \<open>Dates\<close>

datatype date = Date (year: int) (month: int) (day: int)

instantiation date :: linorder
begin

definition less_eq_date :: "date \<Rightarrow> date \<Rightarrow> bool" where
  "less_eq_date a b \<longleftrightarrow> year a < year b \<or>
     year a = year b \<and> (month a < month b \<or> month a = month b \<and> day a \<le> day b)"

definition less_date :: "date \<Rightarrow> date \<Rightarrow> bool" where
  "less_date a b \<longleftrightarrow> year a < year b \<or>
     year a = year b \<and> (month a < month b \<or> month a = month b \<and> day a < day b)"

instance
  by standard (auto simp: less_eq_date_def less_date_def intro: date.expand)

end

lemmas date_order_defs = less_eq_date_def less_date_def

definition isleap :: "int \<Rightarrow> bool" where
  "isleap y \<longleftrightarrow> y mod 4 = 0 \<and> (y mod 100 \<noteq> 0 \<or> y mod 400 = 0)"

definition days_in_month :: "int \<Rightarrow> int \<Rightarrow> int" where
  "days_in_month y m =
     (if m = 2 then (if isleap y then 29 else 28)
      else if m \<in> {4, 6, 9, 11} then 30 else 31)"

text \<open>\<open>calendar.monthrange\<close> raises on a month outside 1..12; only its second component is used.\<close>

definition monthrange_last :: "int \<Rightarrow> int \<Rightarrow> py_error + int" where
  "monthrange_last y m = (if 1 \<le> m \<and> m \<le> 12 then Inr (days_in_month y m) else Inl IllegalMonthError)"

definition valid_date :: "date \<Rightarrow> bool" where
  "valid_date d \<longleftrightarrow> 1 \<le> year d \<and> year d \<le> 9999 \<and> 1 \<le> month d \<and> month d \<le> 12 \<and>
     1 \<le> day d \<and> day d \<le> days_in_month (year d) (month d)"

text \<open>The constructor \<open>date(y, m, d)\<close>.\<close>

definition make_date :: "int \<Rightarrow> int \<Rightarrow> int \<Rightarrow> py_error + date" where
  "make_date y m d = (if valid_date (Date y m d) then Inr (Date y m d) else Inl ValueError)"

definition days_before_year :: "int \<Rightarrow> int" where
  "days_before_year y = (y - 1) * 365 + (y - 1) div 4 - (y - 1) div 100 + (y - 1) div 400"

definition days_before_month :: "int \<Rightarrow> int \<Rightarrow> int" where
  "days_before_month y m = (\<Sum>k\<in>{1..<m}. days_in_month y k)"

definition toordinal :: "date \<Rightarrow> int" where
  "toordinal d = days_before_year (year d) + days_before_month (year d) (month d) + day d"

text \<open>\<open>(a - b).days\<close>.\<close>

definition days_between :: "date \<Rightarrow> date \<Rightarrow> int" where
  "days_between a b = toordinal a - toordinal b"

section \<open>Facts\<close>

lemma make_date_eq_Inr [simp]:
  "make_date y m d = Inr x \<longleftrightarrow> valid_date (Date y m d) \<and> x = Date y m d"
  by (auto simp: make_date_def)

lemma days_in_month_bounds: "28 \<le> days_in_month y m" "days_in_month y m \<le> 31"
  by (simp_all add: days_in_month_def)

lemma days_before_month_Suc: "1 \<le> m \<Longrightarrow> days_before_month y (m + 1) = days_before_month y m + days_in_month y m"
proof -
  assume "1 \<le> m"
  then have "{1..<m + 1} = insert m {1..<m}" by auto
  then show ?thesis by (simp add: days_before_month_def)
qed

lemma days_before_month_1 [simp]: "days_before_month y 1 = 0"
  by (simp add: days_before_month_def)

lemma days_before_month_mono: "m \<le> m' \<Longrightarrow> days_before_month y m \<le> days_before_month y m'"
  unfolding days_before_month_def
  by (rule sum_mono2) (auto intro: order_trans [OF _ days_in_month_bounds(1)])

lemma atLeastLessThan_1_13: "{1..<13::int} = {1, 2, 3, 4, 5, 6, 7, 8, 9, 10, 11, 12}"
  by (auto, presburger)

lemma days_before_month_13: "days_before_month y 13 = (if isleap y then 366 else 365)"
  by (simp add: days_before_month_def atLeastLessThan_1_13 days_in_month_def)

lemma div_step:
  assumes "0 < (k::int)"
  shows "y div k - (y - 1) div k = (if y mod k = 0 then 1 else 0)"
proof -
  have y: "y = k * (y div k) + y mod k" and r: "0 \<le> y mod k" "y mod k < k"
    using assms by simp_all
  show ?thesis
  proof (cases "y mod k = 0")
    case True
    then have "y - 1 = (k - 1) + k * (y div k - 1)" using y by (simp add: algebra_simps)
    then have "(y - 1) div k = y div k - 1"
      using assms int_div_pos_eq [of "y - 1" k "y div k - 1" "k - 1"] by simp
    then show ?thesis using True by simp
  next
    case False
    then have "y - 1 = (y mod k - 1) + k * (y div k)" and "0 \<le> y mod k - 1" and "y mod k - 1 < k"
      using y r by linarith+
    then have "(y - 1) div k = y div k"
      using int_div_pos_eq [of "y - 1" k "y div k" "y mod k - 1"] by simp
    then show ?thesis using False by simp
  qed
qed

lemma days_before_year_Suc: "days_before_year (y + 1) = days_before_year y + days_before_month y 13"
proof -
  have "y mod 100 mod 4 = y mod 4" "y mod 400 mod 100 = y mod 100"
    by (simp_all add: mod_mod_cancel)
  then have "y mod 100 = 0 \<Longrightarrow> y mod 4 = 0" "y mod 400 = 0 \<Longrightarrow> y mod 100 = 0"
    by auto
  moreover have "days_before_year (y + 1) - days_before_year y = 365
      + (y div 4 - (y - 1) div 4) - (y div 100 - (y - 1) div 100) + (y div 400 - (y - 1) div 400)"
    unfolding days_before_year_def by simp
  then have "days_before_year (y + 1) - days_before_year y = 365
      + (if y mod 4 = 0 then 1 else 0) - (if y mod 100 = 0 then 1 else 0) + (if y mod 400 = 0 then 1 else 0)"
    by (simp only: div_step zero_less_numeral)
  ultimately have "days_before_year (y + 1) - days_before_year y = (if isleap y then 366 else 365)"
    unfolding isleap_def by (cases "y mod 4 = 0"; cases "y mod 100 = 0"; cases "y mod 400 = 0"; simp)
  then show ?thesis by (simp add: days_before_month_13 split: if_splits)
qed

lemma days_before_year_mono: "y \<le> y' \<Longrightarrow> days_before_year y \<le> days_before_year y'"
proof (induction y' rule: int_ge_induct)
  case (step i)
  then show ?case using days_before_year_Suc [of i] by (simp add: days_before_month_13 split: if_splits)
qed simp

lemma days_before_month_le_year: "m \<le> 12 \<Longrightarrow> 1 \<le> m \<Longrightarrow>
    days_before_month y m + days_in_month y m \<le> days_before_month y 13"
  using days_before_month_mono [of "m + 1" 13 y] days_before_month_Suc [of m y] by simp

lemma days_before_month_nonneg: "0 \<le> days_before_month y m"
  unfolding days_before_month_def
  by (rule sum_nonneg) (auto intro: order_trans [OF _ days_in_month_bounds(1)])

text \<open>The ordinal is strictly monotone on valid dates.\<close>

lemma toordinal_strict_mono:
  assumes "valid_date a" "valid_date b" "a < b"
  shows "toordinal a < toordinal b"
proof -
  consider "year a < year b" | "year a = year b" "month a < month b"
    | "year a = year b" "month a = month b" "day a < day b"
    using assms(3) by (auto simp: less_date_def)
  then show ?thesis
  proof cases
    case 1
    have "toordinal a \<le> days_before_year (year a + 1)"
      using assms(1) days_before_month_le_year [of "month a" "year a"]
      by (simp add: toordinal_def valid_date_def days_before_year_Suc)
    also have "\<dots> \<le> days_before_year (year b)"
      using 1 by (intro days_before_year_mono) simp
    also have "\<dots> < toordinal b"
      using assms(2) days_before_month_nonneg [of "year b" "month b"]
      by (simp add: toordinal_def valid_date_def)
    finally show ?thesis .
  next
    case 2
    then have "days_before_month (year a) (month a + 1) \<le> days_before_month (year b) (month b)"
      by (auto intro: days_before_month_mono)
    then show ?thesis
      using 2 assms(1,2) days_before_month_Suc [of "month a" "year a"]
      by (simp add: toordinal_def valid_date_def)
  next
    case 3
    then show ?thesis by (simp add: toordinal_def)
  qed
qed

lemma toordinal_le_iff:
  assumes "valid_date a" "valid_date b"
  shows "toordinal a \<le> toordinal b \<longleftrightarrow> a \<le> b"
  using toordinal_strict_mono [of a b] toordinal_strict_mono [of b a] assms
  by (metis leD leI order_le_less)

end
