(* ===== verification/BudgetPeriod.thy ===== *)
theory BudgetPeriod
  imports Calendar
begin

text \<open>
  The shared budget period calculator (\<open>services/shared/domain/domain/budget_period.py\<close>) and the two
  clients that are pure functions over it: the due rule of the scheduled month close
  (\<open>services/budget-service/app/domain/scheduled_close.py\<close>) and the histogram label of the analytics
  service (\<open>services/analytics-service/app/domain/budget_period.py\<close>).  The lemmas show that the budget
  months partition the calendar and that \<open>determine_budget_month\<close> is the inverse of \<open>budget_period\<close>.
\<close>

section \<open>Operations\<close>

definition MIN_START_DAY :: int where "MIN_START_DAY = 1"
definition MAX_START_DAY :: int where "MAX_START_DAY = 28"

definition clamp_start_day :: "int \<Rightarrow> int" where
  "clamp_start_day start_day = max MIN_START_DAY (min MAX_START_DAY start_day)"

definition prev_month :: "int \<Rightarrow> int \<Rightarrow> int \<times> int" where
  "prev_month y m = (if m = 1 then (y - 1, 12) else (y, m - 1))"

definition next_month :: "int \<Rightarrow> int \<Rightarrow> int \<times> int" where
  "next_month y m = (if m = 12 then (y + 1, 1) else (y, m + 1))"

definition budget_period :: "int \<Rightarrow> int \<Rightarrow> int \<Rightarrow> py_error + (date \<times> date)" where
  "budget_period y m start_day =
     (let start_day = clamp_start_day start_day in
      if start_day = 1 then
        bindE (monthrange_last y m) (\<lambda>last.
        bindE (make_date y m 1) (\<lambda>s.
        bindE (make_date y m last) (\<lambda>e. Inr (s, e))))
      else
        (let (prev_y, prev_m) = prev_month y m in
         bindE (make_date prev_y prev_m start_day) (\<lambda>s.
         bindE (make_date y m (start_day - 1)) (\<lambda>e. Inr (s, e)))))"

definition days_remaining_in_period :: "int \<Rightarrow> int \<Rightarrow> date \<Rightarrow> int \<Rightarrow> py_error + int" where
  "days_remaining_in_period y m today start_day =
     bindE (budget_period y m start_day) (\<lambda>(_, end_date). Inr (max 0 (days_between end_date today)))"

definition determine_budget_month :: "date \<Rightarrow> int \<Rightarrow> int \<times> int" where
  "determine_budget_month tx_date start_day =
     (let start_day = clamp_start_day start_day in
      if start_day = 1 then (year tx_date, month tx_date)
      else if start_day \<le> day tx_date then next_month (year tx_date) (month tx_date)
      else (year tx_date, month tx_date))"

text \<open>\<open>is_due_for_scheduled_close\<close>: from day \<open>close_day\<close> of the month after the budget month.\<close>

definition is_due_for_scheduled_close :: "int \<Rightarrow> int \<Rightarrow> date \<Rightarrow> int \<Rightarrow> py_error + bool" where
  "is_due_for_scheduled_close y m today close_day =
     bindE (if m = 12 then make_date (y + 1) 1 close_day else make_date y (m + 1) close_day)
       (\<lambda>earliest_close. Inr (earliest_close \<le> today))"

text \<open>The \<open>"YYYY-MM"\<close> label: the year is printed plainly, the month on two digits.\<close>

definition show_two_digits :: "int \<Rightarrow> string" where
  "show_two_digits n = (if 0 \<le> n \<and> n < 10 then CHR ''0'' # show_int n else show_int n)"

definition histogram_bucket_to_budget_month :: "date \<Rightarrow> int \<Rightarrow> string" where
  "histogram_bucket_to_budget_month bucket_start start_day =
     (let (y, m) = determine_budget_month bucket_start start_day in
      show_int y @ ''-'' @ show_two_digits m)"

section \<open>Properties\<close>

lemma clamp_start_day_range: "1 \<le> clamp_start_day s" "clamp_start_day s \<le> 28"
  by (simp_all add: clamp_start_day_def MIN_START_DAY_def MAX_START_DAY_def)

lemma clamp_start_day_id: "1 \<le> s \<Longrightarrow> s \<le> 28 \<Longrightarrow> clamp_start_day s = s"
  by (simp add: clamp_start_day_def MIN_START_DAY_def MAX_START_DAY_def)

lemma next_prev_month: "1 \<le> m \<Longrightarrow> m \<le> 12 \<Longrightarrow> prev_month y m = (y', m') \<Longrightarrow> next_month y' m' = (y, m)"
  by (auto simp: prev_month_def next_month_def split: if_splits)

lemma day_le_28_valid:
  "1 \<le> y \<Longrightarrow> y \<le> 9999 \<Longrightarrow> 1 \<le> m \<Longrightarrow> m \<le> 12 \<Longrightarrow> 1 \<le> d \<Longrightarrow> d \<le> 28 \<Longrightarrow> valid_date (Date y m d)"
  using days_in_month_bounds(1) [of y m] by (simp add: valid_date_def)

text \<open>The period as a pair of dates, without the construction checks.\<close>

definition period_of :: "int \<Rightarrow> int \<Rightarrow> int \<Rightarrow> date \<times> date" where
  "period_of y m s =
     (if s = 1 then (Date y m 1, Date y m (days_in_month y m))
      else (Date (fst (prev_month y m)) (snd (prev_month y m)) s, Date y m (s - 1)))"

lemma budget_period_eq:
  assumes "2 \<le> y" "y \<le> 9999" "1 \<le> m" "m \<le> 12"
  shows "budget_period y m start_day = Inr (period_of y m (clamp_start_day start_day))"
proof -
  let ?s = "clamp_start_day start_day"
  have s: "1 \<le> ?s" "?s \<le> 28" by (rule clamp_start_day_range)+
  show ?thesis
  proof (cases "?s = 1")
    case True
    have "valid_date (Date y m 1)" "valid_date (Date y m (days_in_month y m))"
      using assms days_in_month_bounds(1) [of y m] by (simp_all add: valid_date_def)
    then show ?thesis
      using assms True by (simp add: budget_period_def period_of_def monthrange_last_def make_date_def)
  next
    case False
    obtain py pm where p: "prev_month y m = (py, pm)" by force
    then have "1 \<le> py" "py \<le> 9999" "1 \<le> pm" "pm \<le> 12"
      using assms by (auto simp: prev_month_def split: if_splits)
    then have "valid_date (Date py pm ?s)" "valid_date (Date y m (?s - 1))"
      using s False assms by (auto intro!: day_le_28_valid)
    then show ?thesis
      using False p by (simp add: budget_period_def period_of_def make_date_def Let_def)
  qed
qed

lemma budget_period_Inr:
  assumes "budget_period y m start_day = Inr (s, e)"
  shows "(s, e) = period_of y m (clamp_start_day start_day)" "valid_date s" "valid_date e"
    "1 \<le> y" "y \<le> 9999" "1 \<le> m" "m \<le> 12"
  using assms
  by (auto simp: budget_period_def period_of_def monthrange_last_def Let_def result_simps
      valid_date_def split: if_splits prod.splits)

lemma period_of_mem_iff:
  assumes "valid_date d" "1 \<le> s" "s \<le> 28" "1 \<le> m" "m \<le> 12"
  shows "fst (period_of y m s) \<le> d \<and> d \<le> snd (period_of y m s) \<longleftrightarrow>
    (if s \<noteq> 1 \<and> s \<le> day d then next_month (year d) (month d) else (year d, month d)) = (y, m)"
  using assms
  by (auto simp: period_of_def prev_month_def next_month_def less_eq_date_def valid_date_def
      split: if_splits)

text \<open>
  C28. A date lies in the inclusive budget period of the month \<open>(y, m)\<close> exactly when
  \<open>determine_budget_month\<close> assigns it to that month, for every start day (clamped or not): the two
  functions of the calculator are inverse to each other.
\<close>

theorem budget_period_contains_iff:
  assumes "valid_date d" and "budget_period y m start_day = Inr (s, e)"
  shows "s \<le> d \<and> d \<le> e \<longleftrightarrow> determine_budget_month d start_day = (y, m)"
proof -
  note p = budget_period_Inr [OF assms(2)]
  have "determine_budget_month d start_day =
      (if clamp_start_day start_day \<noteq> 1 \<and> clamp_start_day start_day \<le> day d
       then next_month (year d) (month d) else (year d, month d))"
    by (simp add: determine_budget_month_def Let_def)
  then show ?thesis
    using period_of_mem_iff [OF assms(1) clamp_start_day_range p(6,7), of y start_day]
    by (simp flip: p(1))
qed

theorem budget_period_contains_iff_witness:
  "budget_period 2026 4 28 = Inr (Date 2026 3 28, Date 2026 4 27) \<and>
   determine_budget_month (Date 2026 3 30) 28 = (2026, 4) \<and>
   (Date 2026 3 28 \<le> Date 2026 3 30 \<and> Date 2026 3 30 \<le> Date 2026 4 27)"
proof -
  have v: "valid_date (Date 2026 3 30)" by (simp add: valid_date_def days_in_month_def)
  have p: "budget_period 2026 4 28 = Inr (Date 2026 3 28, Date 2026 4 27)" by code_simp
  have m: "determine_budget_month (Date 2026 3 30) 28 = (2026, 4)" by code_simp
  show ?thesis using p m budget_period_contains_iff [OF v p] by simp
qed

text \<open>Every month of the years 2 to 9999 has a period, so the previous result is about every date there.\<close>

lemma determine_budget_month_range:
  assumes "valid_date d"
  shows "let (y, m) = determine_budget_month d s in year d \<le> y \<and> y \<le> year d + 1 \<and> 1 \<le> m \<and> m \<le> 12"
  using assms by (auto simp: determine_budget_month_def next_month_def valid_date_def Let_def)

text \<open>
  Consecutive budget periods are adjacent: the day after the end of a budget month is the first day of
  the next one, so with the previous property the periods partition the calendar without gap or overlap.
\<close>

theorem budget_periods_adjacent:
  assumes "budget_period y m start_day = Inr (s, e)"
    and "budget_period (fst (next_month y m)) (snd (next_month y m)) start_day = Inr (s', e')"
  shows "toordinal s' = toordinal e + 1"
proof -
  note p = budget_period_Inr [OF assms(1)] and q = budget_period_Inr [OF assms(2)]
  show ?thesis
  proof (cases "clamp_start_day start_day = 1")
    case True
    then have "e = Date y m (days_in_month y m)" "s' = Date (fst (next_month y m)) (snd (next_month y m)) 1"
      using p(1) q(1) by (simp_all add: period_of_def)
    moreover have "days_before_month y 13 = days_before_month y 12 + days_in_month y 12"
      using days_before_month_Suc [of 12 y] by simp
    ultimately show ?thesis
      using p(6) by (auto simp: toordinal_def next_month_def days_before_month_Suc days_before_year_Suc)
  next
    case False
    have "prev_month (fst (next_month y m)) (snd (next_month y m)) = (y, m)"
      using p(6,7) by (auto simp: prev_month_def next_month_def)
    then have "e = Date y m (clamp_start_day start_day - 1)" "s' = Date y m (clamp_start_day start_day)"
      using False p(1) q(1) by (simp_all add: period_of_def)
    then show ?thesis by (simp add: toordinal_def)
  qed
qed

theorem budget_periods_adjacent_witness:
  "toordinal (Date 2024 2 28) = toordinal (Date 2024 2 27) + 1"
  by (rule budget_periods_adjacent [of 2024 2 28 "Date 2024 1 28" "Date 2024 2 27" _ "Date 2024 3 27"]; code_simp)

text \<open>A budget period has between 28 and 31 days.\<close>

lemma budget_period_length:
  assumes "budget_period y m start_day = Inr (s, e)"
  shows "28 \<le> days_between e s + 1 \<and> days_between e s + 1 \<le> 31"
proof -
  note p = budget_period_Inr [OF assms]
  show ?thesis
  proof (cases "clamp_start_day start_day = 1")
    case True
    then have "days_between e s + 1 = days_in_month y m"
      using p(1) by (simp add: period_of_def days_between_def toordinal_def)
    then show ?thesis using days_in_month_bounds [of y m] by simp
  next
    case False
    obtain py pm where pm: "prev_month y m = (py, pm)" by force
    have "days_before_month py 13 = days_before_month py 12 + days_in_month py 12"
      using days_before_month_Suc [of 12 py] by simp
    moreover have "days_before_month y m = days_before_month y (m - 1) + days_in_month y (m - 1)" if "m \<noteq> 1"
      using that p(6) days_before_month_Suc [of "m - 1" y] by simp
    moreover have "days_before_year y = days_before_year (y - 1) + days_before_month (y - 1) 13"
      using days_before_year_Suc [of "y - 1"] by simp
    ultimately have "days_between e s + 1 = days_in_month py pm"
      using False p(1) pm
      by (auto simp: period_of_def days_between_def toordinal_def prev_month_def split: if_splits)
    then show ?thesis using days_in_month_bounds [of py pm] by simp
  qed
qed

text \<open>
  The days remaining are never negative, are zero exactly from the last day of the period on, and for a
  date inside the period (or after it) are at most 30.
\<close>

theorem days_remaining_bounds:
  assumes "valid_date today" and "budget_period y m start_day = Inr (s, e)"
    and "days_remaining_in_period y m today start_day = Inr n"
  shows "0 \<le> n \<and> (n = 0 \<longleftrightarrow> e \<le> today) \<and> (s \<le> today \<longrightarrow> n \<le> 30)"
proof -
  note p = budget_period_Inr [OF assms(2)]
  have n: "n = max 0 (toordinal e - toordinal today)"
    using assms(2,3) by (simp add: days_remaining_in_period_def days_between_def)
  have "n = 0 \<longleftrightarrow> e \<le> today" using n toordinal_le_iff [OF p(3) assms(1)] by auto
  moreover have "n \<le> 30" if "s \<le> today"
    using n that toordinal_le_iff [OF p(2) assms(1)] budget_period_length [OF assms(2)]
    by (simp add: days_between_def)
  ultimately show ?thesis using n by simp
qed

theorem days_remaining_bounds_witness:
  "days_remaining_in_period 2026 4 (Date 2026 4 26) 28 = Inr 1 \<and> (0::int) \<le> 1 \<and>
   ((1::int) = 0 \<longleftrightarrow> Date 2026 4 27 \<le> Date 2026 4 26)"
proof -
  have v: "valid_date (Date 2026 4 26)" by (simp add: valid_date_def days_in_month_def)
  have p: "budget_period 2026 4 28 = Inr (Date 2026 3 28, Date 2026 4 27)" by code_simp
  have r: "days_remaining_in_period 2026 4 (Date 2026 4 26) 28 = Inr 1"
    by (simp add: days_remaining_in_period_def p days_between_def toordinal_def)
  show ?thesis using r days_remaining_bounds [OF v p r] by simp
qed

text \<open>The scheduled close never fires inside its own budget month (for the standard calendar month).\<close>

lemma scheduled_close_after_period:
  assumes "is_due_for_scheduled_close y m today close_day = Inr True"
    and "budget_period y m 1 = Inr (s, e)"
  shows "e < today"
proof -
  note p = budget_period_Inr [OF assms(2)]
  have "e = Date y m (days_in_month y m)"
    using p(1) by (simp add: period_of_def clamp_start_day_id)
  then show ?thesis
    using assms(1) p(6,7)
    by (auto simp: is_due_for_scheduled_close_def result_simps date_order_defs valid_date_def split: if_splits)
qed

end
