(* ===== verification/Outbox.thy ===== *)
theory Outbox
  imports Prelude
begin

text \<open>
  The transactional outbox of \<open>services/shared/messaging/messaging/outbox.py\<close> and the publisher worker of
  \<open>worker.py\<close>.  The table is the list of its rows in insertion order.  The type parameter is the payload
  the producing service serialises into \<open>payload_json\<close>.  The identifier \<open>str(uuid4())\<close> is a number that no
  row of the table has; \<open>created_at\<close> and \<open>next_attempt_at\<close> take the database default \<open>now()\<close>.

  The first part is the repository, the second the worker's batch loops, the third a step relation for any
  number of concurrent workers that claim rows with \<open>FOR UPDATE SKIP LOCKED\<close> and may crash between
  publishing and committing.
\<close>

section \<open>Rows\<close>

datatype outbox_status = Pending | Failed | Published | Dead

record 'p outbox_row =
  ob_id :: nat
  ob_aggregate_type :: string
  ob_aggregate_id :: string
  ob_event_type :: string
  ob_payload :: 'p
  ob_correlation_id :: "string option"
  ob_status :: outbox_status
  ob_attempts :: nat
  ob_next_attempt_at :: instant
  ob_published_at :: "instant option"
  ob_created_at :: instant

type_synonym 'p outbox = "'p outbox_row list"

definition BACKOFF_BASE_S :: int where "BACKOFF_BASE_S = 5"
definition MAX_BACKOFF_S :: int where "MAX_BACKOFF_S = 300"

definition compute_backoff :: "nat \<Rightarrow> seconds" where
  "compute_backoff attempts = min (2 ^ attempts * BACKOFF_BASE_S) MAX_BACKOFF_S"

section \<open>The repository\<close>

definition fresh_id :: "'p outbox \<Rightarrow> nat" where
  "fresh_id rows = Suc (fold max (map ob_id rows) 0)"

definition ob_build ::
  "'p outbox \<Rightarrow> instant \<Rightarrow> string \<Rightarrow> 'p \<Rightarrow> string option \<Rightarrow> string \<Rightarrow> string \<Rightarrow> 'p outbox_row" where
  "ob_build rows now event_type payload correlation_id aggregate_type aggregate_id =
     \<lparr>ob_id = fresh_id rows, ob_aggregate_type = aggregate_type, ob_aggregate_id = aggregate_id,
      ob_event_type = event_type, ob_payload = payload, ob_correlation_id = correlation_id,
      ob_status = Pending, ob_attempts = 0, ob_next_attempt_at = now, ob_published_at = None,
      ob_created_at = now\<rparr>"

definition ob_add ::
  "instant \<Rightarrow> string \<Rightarrow> 'p \<Rightarrow> string option \<Rightarrow> string \<Rightarrow> string \<Rightarrow> 'p outbox \<Rightarrow> 'p outbox" where
  "ob_add now event_type payload correlation_id aggregate_type aggregate_id rows =
     rows @ [ob_build rows now event_type payload correlation_id aggregate_type aggregate_id]"

text \<open>\<open>add_entries\<close>: several \<open>(event, aggregate_type, aggregate_id)\<close> entries in one flush.\<close>

fun ob_add_entries ::
  "instant \<Rightarrow> (string \<times> 'p \<times> string option \<times> string \<times> string) list \<Rightarrow> 'p outbox \<Rightarrow> 'p outbox" where
  "ob_add_entries now [] rows = rows"
| "ob_add_entries now ((event_type, payload, corr, agg_type, agg_id) # es) rows =
     ob_add_entries now es (ob_add now event_type payload corr agg_type agg_id rows)"

text \<open>\<open>add_batch\<close>: several events of one aggregate.\<close>

definition ob_add_batch ::
  "instant \<Rightarrow> (string \<times> 'p \<times> string option) list \<Rightarrow> string \<Rightarrow> string \<Rightarrow> 'p outbox \<Rightarrow> 'p outbox" where
  "ob_add_batch now events agg_type agg_id rows =
     ob_add_entries now (map (\<lambda>(t, p, c). (t, p, c, agg_type, agg_id)) events) rows"

text \<open>The WHERE clause of \<open>fetch_pending\<close>; rows other transactions hold are skipped.\<close>

definition ob_due :: "instant \<Rightarrow> 'p outbox_row \<Rightarrow> bool" where
  "ob_due now r \<longleftrightarrow> ob_status r \<in> {Pending, Failed} \<and> ob_next_attempt_at r \<le> now"

definition fetch_pending :: "nat set \<Rightarrow> instant \<Rightarrow> nat \<Rightarrow> 'p outbox \<Rightarrow> 'p outbox_row list" where
  "fetch_pending locked now batch_size rows =
     take batch_size (sort_key ob_created_at (filter (\<lambda>r. ob_due now r \<and> ob_id r \<notin> locked) rows))"

definition mark_published :: "instant \<Rightarrow> nat \<Rightarrow> 'p outbox \<Rightarrow> 'p outbox" where
  "mark_published now event_id =
     update_where (\<lambda>r. ob_id r = event_id) (\<lambda>r. r\<lparr>ob_status := Published, ob_published_at := Some now\<rparr>)"

definition mark_failed :: "nat \<Rightarrow> instant \<Rightarrow> 'p outbox \<Rightarrow> 'p outbox" where
  "mark_failed event_id next_attempt_at =
     update_where (\<lambda>r. ob_id r = event_id)
       (\<lambda>r. r\<lparr>ob_status := Failed, ob_attempts := ob_attempts r + 1, ob_next_attempt_at := next_attempt_at\<rparr>)"

definition record_failure ::
  "nat option \<Rightarrow> instant \<Rightarrow> 'p outbox_row \<Rightarrow> 'p outbox \<Rightarrow> 'p outbox \<times> instant option" where
  "record_failure max_attempts now entry rows =
     (if (case max_attempts of None \<Rightarrow> False | Some n \<Rightarrow> ob_attempts entry + 1 \<ge> n)
      then (update_where (\<lambda>r. ob_id r = ob_id entry)
              (\<lambda>r. r\<lparr>ob_status := Dead, ob_attempts := ob_attempts r + 1\<rparr>) rows, None)
      else
        (let next_at = now + usec (compute_backoff (ob_attempts entry))
         in (mark_failed (ob_id entry) next_at rows, Some next_at)))"

definition purge_published :: "instant \<Rightarrow> int \<Rightarrow> 'p outbox \<Rightarrow> 'p outbox \<times> nat" where
  "purge_published now older_than_days rows =
     (let cutoff = now - usec (older_than_days * 86400);
          old = (\<lambda>r. ob_status r = Published \<and>
                   (case ob_published_at r of None \<Rightarrow> False | Some t \<Rightarrow> t < cutoff))
      in (filter (\<lambda>r. \<not> old r) rows, length (filter old rows)))"

section \<open>The publisher worker\<close>

text \<open>
  A message on the exchange: the routing key is the event type, the body the payload.  Whether the broker
  accepts a message is decided outside this code: the parameter \<open>accepts\<close> says for which rows
  \<open>publish_raw\<close> returns normally.
\<close>

type_synonym 'p message = "nat \<times> string \<times> 'p"

definition message_of :: "'p outbox_row \<Rightarrow> 'p message" where
  "message_of r = (ob_id r, ob_event_type r, ob_payload r)"

definition try_publish ::
  "('p outbox_row \<Rightarrow> bool) \<Rightarrow> nat option \<Rightarrow> instant \<Rightarrow> 'p outbox_row \<Rightarrow>
   'p outbox \<times> 'p message list \<Rightarrow> 'p outbox \<times> 'p message list" where
  "try_publish accepts max_attempts now entry st =
     (let (rows, sent) = st in
      if accepts entry
      then (mark_published now (ob_id entry) rows, sent @ [message_of entry])
      else (fst (record_failure max_attempts now entry rows), sent))"

fun process_batch_per_entry ::
  "('p outbox_row \<Rightarrow> bool) \<Rightarrow> nat option \<Rightarrow> instant \<Rightarrow> nat \<Rightarrow>
   'p outbox \<times> 'p message list \<Rightarrow> ('p outbox \<times> 'p message list) \<times> nat" where
  "process_batch_per_entry accepts max_attempts now 0 st = (st, 0)"
| "process_batch_per_entry accepts max_attempts now (Suc n) st =
     (case fetch_pending {} now 1 (fst st) of
        [] \<Rightarrow> (st, 0)
      | entry # _ \<Rightarrow>
          (let (st', processed) =
             process_batch_per_entry accepts max_attempts now n (try_publish accepts max_attempts now entry st)
           in (st', processed + 1)))"

definition process_batch_legacy ::
  "('p outbox_row \<Rightarrow> bool) \<Rightarrow> nat option \<Rightarrow> instant \<Rightarrow> nat \<Rightarrow>
   'p outbox \<times> 'p message list \<Rightarrow> ('p outbox \<times> 'p message list) \<times> nat" where
  "process_batch_legacy accepts max_attempts now batch_size st =
     (let entries = fetch_pending {} now batch_size (fst st) in
      if entries = [] then (st, 0)
      else (fold (try_publish accepts max_attempts now) entries st, length entries))"

definition process_batch ::
  "bool \<Rightarrow> ('p outbox_row \<Rightarrow> bool) \<Rightarrow> nat option \<Rightarrow> instant \<Rightarrow> nat \<Rightarrow>
   'p outbox \<times> 'p message list \<Rightarrow> ('p outbox \<times> 'p message list) \<times> nat" where
  "process_batch commit_per_entry accepts max_attempts now batch_size st =
     (if commit_per_entry then process_batch_per_entry accepts max_attempts now batch_size st
      else process_batch_legacy accepts max_attempts now batch_size st)"

text \<open>
  \<open>_maybe_purge\<close>: at most one purge per interval of the monotonic clock; the second component is
  \<open>_last_purge_monotonic\<close>.
\<close>

definition maybe_purge ::
  "int option \<Rightarrow> int \<Rightarrow> int \<Rightarrow> instant \<Rightarrow> 'p outbox \<times> int option \<Rightarrow> 'p outbox \<times> int option" where
  "maybe_purge purge_after_days purge_interval monotonic_now now st =
     (case purge_after_days of
        None \<Rightarrow> st
      | Some days \<Rightarrow>
          (case snd st of
             Some last_purge \<Rightarrow>
               if monotonic_now - last_purge < purge_interval then st
               else (fst (purge_published now days (fst st)), Some monotonic_now)
           | None \<Rightarrow> (fst (purge_published now days (fst st)), Some monotonic_now)))"

section \<open>Repository facts\<close>

lemma fold_max_ge: "(n :: 'a :: linorder) \<in> set xs \<Longrightarrow> n \<le> fold max xs k" "k \<le> fold max xs k"
  by (induction xs arbitrary: k) (auto intro: order_trans [OF max.cobounded2] order_trans [OF max.cobounded1])

lemma fresh_id_notin: "r \<in> set rows \<Longrightarrow> ob_id r < fresh_id rows"
  by (auto simp: fresh_id_def less_Suc_eq_le intro: fold_max_ge)

definition ids_distinct :: "'p outbox \<Rightarrow> bool" where
  "ids_distinct rows \<longleftrightarrow> distinct (map ob_id rows)"

lemma ids_distinct_add [inv_intros]:
  "ids_distinct rows \<Longrightarrow> ids_distinct (ob_add now t p c at ai rows)"
  by (auto simp: ids_distinct_def ob_add_def ob_build_def dest: fresh_id_notin)

lemma ids_distinct_mark_published [inv_intros]: "ids_distinct rows \<Longrightarrow> ids_distinct (mark_published now i rows)"
  by (simp add: ids_distinct_def mark_published_def map_update_where)

lemma ids_distinct_record_failure [inv_intros]:
  "ids_distinct rows \<Longrightarrow> ids_distinct (fst (record_failure m now e rows))"
  by (simp add: ids_distinct_def record_failure_def mark_failed_def map_update_where Let_def)

lemma ids_distinct_purge [inv_intros]: "ids_distinct rows \<Longrightarrow> ids_distinct (fst (purge_published now d rows))"
  by (simp add: ids_distinct_def purge_published_def Let_def distinct_map_filter)

lemma compute_backoff_range: "5 \<le> compute_backoff n" "compute_backoff n \<le> 300"
proof -
  have "(1::int) \<le> 2 ^ n" by simp
  then show "5 \<le> compute_backoff n" "compute_backoff n \<le> 300"
    by (simp_all add: compute_backoff_def BACKOFF_BASE_S_def MAX_BACKOFF_S_def)
qed

lemma compute_backoff_pos: "0 < usec (compute_backoff n)"
  using compute_backoff_range(1) [of n] by simp

text \<open>
  The retry delay of an outbox row is between 5 and 300 seconds, never decreases with the number of
  attempts, doubles until the cap and stays at the cap from the sixth attempt on.
\<close>

theorem compute_backoff_bounds:
  "5 \<le> compute_backoff n \<and> compute_backoff n \<le> 300 \<and> compute_backoff n \<le> compute_backoff (Suc n) \<and>
   (n < 6 \<longrightarrow> compute_backoff n = 5 * 2 ^ n) \<and> (6 \<le> n \<longrightarrow> compute_backoff n = 300)"
proof -
  have one: "(1::int) \<le> 2 ^ n" by simp
  have small: "(2::int) ^ n \<le> 2 ^ 5" if "n < 6" using that by (intro power_increasing) auto
  have large: "(2::int) ^ 6 \<le> 2 ^ n" if "6 \<le> n" using that by (intro power_increasing) auto
  show ?thesis
    using one small large by (auto simp: compute_backoff_def BACKOFF_BASE_S_def MAX_BACKOFF_S_def min_def)
qed

theorem compute_backoff_bounds_witness:
  "compute_backoff 3 = 40 \<and> compute_backoff 7 = 300"
  using compute_backoff_bounds [of 3] compute_backoff_bounds [of 7] by simp

text \<open>
  \<open>fetch_pending\<close> returns at most \<open>batch_size\<close> rows, every one due and unlocked, in \<open>created_at\<close> order, and no
  due unlocked row that it leaves out is older than one it returns.
\<close>

theorem fetch_pending_spec:
  "length (fetch_pending locked now n rows) \<le> n \<and>
   sorted (map ob_created_at (fetch_pending locked now n rows)) \<and>
   set (fetch_pending locked now n rows) \<subseteq> {r \<in> set rows. ob_due now r \<and> ob_id r \<notin> locked} \<and>
   (\<forall>r\<in>set rows. ob_due now r \<and> ob_id r \<notin> locked \<and> r \<notin> set (fetch_pending locked now n rows) \<longrightarrow>
      (\<forall>f\<in>set (fetch_pending locked now n rows). ob_created_at f \<le> ob_created_at r))"
proof -
  let ?due = "filter (\<lambda>r. ob_due now r \<and> ob_id r \<notin> locked) rows"
  let ?s = "sort_key ob_created_at ?due"
  have f: "fetch_pending locked now n rows = take n ?s" by (simp add: fetch_pending_def)
  have srt: "sorted (map ob_created_at (take n ?s @ drop n ?s))" by simp
  have older: "ob_created_at a \<le> ob_created_at b" if "a \<in> set (take n ?s)" "b \<in> set (drop n ?s)" for a b
    using srt that unfolding map_append sorted_append by auto
  have "r \<in> set (drop n ?s)" if "r \<in> set ?due" "r \<notin> set (take n ?s)" for r
    using that by (metis Un_iff append_take_drop_id set_append set_sort)
  then show ?thesis
    using older by (auto simp: f sorted_append take_map [symmetric] simp flip: take_map
        intro: sorted_wrt_take dest: in_set_takeD)
qed

definition demo_row :: "nat \<Rightarrow> instant \<Rightarrow> string outbox_row" where
  "demo_row i t = \<lparr>ob_id = i, ob_aggregate_type = ''saga'', ob_aggregate_id = ''s'', ob_event_type = ''saga.cmd'',
     ob_payload = ''{}'', ob_correlation_id = None, ob_status = Pending, ob_attempts = 0,
     ob_next_attempt_at = t, ob_published_at = None, ob_created_at = t\<rparr>"

theorem fetch_pending_spec_witness:
  "fetch_pending {2} 10 1 [demo_row 1 3, demo_row 2 1, demo_row 3 2] = [demo_row 3 2] \<and>
   ob_created_at (demo_row 3 2) \<le> ob_created_at (demo_row 1 3)"
proof -
  have f: "fetch_pending {2} 10 1 [demo_row 1 3, demo_row 2 1, demo_row 3 2] = [demo_row 3 2]"
    by (simp add: fetch_pending_def ob_due_def demo_row_def)
  then show ?thesis
    using fetch_pending_spec [of "{2}" 10 1 "[demo_row 1 3, demo_row 2 1, demo_row 3 2]"]
    by (auto simp: ob_due_def demo_row_def)
qed

section \<open>The batch loops\<close>

text \<open>One publication changes only the row it is about, and that row is no longer due.\<close>

definition settled_row :: "('p outbox_row \<Rightarrow> bool) \<Rightarrow> nat option \<Rightarrow> instant \<Rightarrow> 'p outbox_row \<Rightarrow> 'p outbox_row" where
  "settled_row accepts max_attempts now e =
     (if accepts e then e\<lparr>ob_status := Published, ob_published_at := Some now\<rparr>
      else if (case max_attempts of None \<Rightarrow> False | Some n \<Rightarrow> ob_attempts e + 1 \<ge> n)
      then e\<lparr>ob_status := Dead, ob_attempts := ob_attempts e + 1\<rparr>
      else e\<lparr>ob_status := Failed, ob_attempts := ob_attempts e + 1,
             ob_next_attempt_at := now + usec (compute_backoff (ob_attempts e))\<rparr>)"

lemma ob_id_settled_row [simp]: "ob_id (settled_row a m now e) = ob_id e"
  by (simp add: settled_row_def)

lemma settled_row_not_due: "\<not> ob_due now (settled_row accepts m now e)"
  using compute_backoff_pos [of "ob_attempts e"] by (auto simp: settled_row_def ob_due_def)

lemma try_publish_eq:
  assumes "ids_distinct rows" and "e \<in> set rows"
  shows "try_publish accepts m now e (rows, sent) =
    (update_where (\<lambda>r. ob_id r = ob_id e) (\<lambda>r. settled_row accepts m now e) rows,
     sent @ (if accepts e then [message_of e] else []))"
proof -
  have eq: "r = e" if "r \<in> set rows" "ob_id r = ob_id e" for r
    using assms that by (auto simp: ids_distinct_def distinct_map inj_on_def)
  show ?thesis
    by (auto simp: try_publish_def mark_published_def record_failure_def mark_failed_def settled_row_def
        update_where_def Let_def dest: eq split: option.splits)
qed

lemma ids_distinct_try_publish [inv_intros]:
  "ids_distinct (fst st) \<Longrightarrow> ids_distinct (fst (try_publish accepts m now e st))"
  by (cases st) (auto simp: try_publish_def intro: inv_intros)

definition due_rows :: "instant \<Rightarrow> 'p outbox \<Rightarrow> 'p outbox_row list" where
  "due_rows now rows = sort_key ob_created_at (filter (ob_due now) rows)"

lemma fetch_pending_unlocked: "fetch_pending {} now n rows = take n (due_rows now rows)"
  by (simp add: fetch_pending_def due_rows_def)

lemma set_due_rows: "set (due_rows now rows) = {r \<in> set rows. ob_due now r}"
  by (auto simp: due_rows_def)

lemma distinct_due_rows: "ids_distinct rows \<Longrightarrow> distinct (map ob_id (due_rows now rows))"
proof -
  assume "ids_distinct rows"
  then have "distinct (map ob_id (filter (ob_due now) rows))"
    by (simp add: ids_distinct_def distinct_map_filter)
  moreover have "mset (map ob_id (due_rows now rows)) = mset (map ob_id (filter (ob_due now) rows))"
    by (simp add: due_rows_def)
  ultimately show ?thesis by (metis mset_eq_imp_distinct_iff)
qed

text \<open>After the oldest due row is settled, the due rows are the remaining ones.\<close>

lemma due_rows_step:
  assumes "ids_distinct rows" and "due_rows now rows = e # es"
  shows "due_rows now (fst (try_publish accepts m now e (rows, sent))) = es"
proof -
  have e: "e \<in> set rows" using assms(2) set_due_rows [of now rows] by auto
  have flt: "filter (ob_due now) (update_where (\<lambda>r. ob_id r = ob_id e) (\<lambda>r. settled_row accepts m now e) xs) =
      filter (\<lambda>r. ob_id r \<noteq> ob_id e) (filter (ob_due now) xs)" for xs
    by (induction xs) (auto simp: settled_row_not_due)
  have "due_rows now (fst (try_publish accepts m now e (rows, sent))) =
      filter (\<lambda>r. ob_id r \<noteq> ob_id e) (due_rows now rows)"
    by (simp add: due_rows_def try_publish_eq [OF assms(1) e] flt filter_sort)
  also have "\<dots> = filter (\<lambda>r. ob_id r \<noteq> ob_id e) es" using assms(2) by simp
  also have "\<dots> = es"
    using distinct_due_rows [OF assms(1), of now] assms(2) by (intro filter_True) (auto simp: image_iff)
  finally show ?thesis .
qed

lemma per_entry_eq_fold:
  assumes "ids_distinct (fst st)"
  shows "process_batch_per_entry accepts m now n st =
    (fold (try_publish accepts m now) (take n (due_rows now (fst st))) st,
     length (take n (due_rows now (fst st))))"
  using assms
proof (induction n arbitrary: st)
  case 0
  then show ?case by simp
next
  case (Suc n)
  show ?case
  proof (cases "due_rows now (fst st)")
    case Nil
    then show ?thesis by (simp add: fetch_pending_unlocked)
  next
    case (Cons e es)
    let ?st' = "try_publish accepts m now e st"
    have es: "due_rows now (fst ?st') = es"
      using due_rows_step [OF Suc.prems Cons, of accepts m "snd st"] by simp
    have "process_batch_per_entry accepts m now n ?st' =
        (fold (try_publish accepts m now) (take n es) ?st', length (take n es))"
      using Suc.IH [OF ids_distinct_try_publish [OF Suc.prems], of accepts m now e] by (simp add: es)
    then show ?thesis using Cons by (simp add: fetch_pending_unlocked)
  qed
qed

text \<open>
  The two batch loops of the publisher agree: committing after every entry and committing once per batch
  leave the same table, send the same messages in the same order and report the same count, whatever the
  broker accepts and whatever the limit on attempts.
\<close>

theorem per_entry_equals_legacy:
  assumes "ids_distinct rows"
  shows "process_batch_per_entry accepts m now n (rows, sent) =
         process_batch_legacy accepts m now n (rows, sent)"
  using per_entry_eq_fold [of "(rows, sent)" accepts m now n] assms
  by (simp add: process_batch_legacy_def fetch_pending_unlocked Let_def)

theorem per_entry_equals_legacy_witness:
  "process_batch_per_entry (\<lambda>r. ob_id r = 1) None 10 5 ([demo_row 1 3, demo_row 2 1], []) =
   process_batch_legacy (\<lambda>r. ob_id r = 1) None 10 5 ([demo_row 1 3, demo_row 2 1], [])"
  by (rule per_entry_equals_legacy) (simp add: ids_distinct_def demo_row_def)

text \<open>A whole batch settles exactly the rows it fetched.\<close>

lemma fold_try_publish:
  assumes "ids_distinct rows" and "distinct (map ob_id es)" and "set es \<subseteq> set rows"
  shows "fold (try_publish accepts m now) es (rows, sent) =
    (map (\<lambda>r. if r \<in> set es then settled_row accepts m now r else r) rows,
     sent @ map message_of (filter accepts es))"
  using assms
proof (induction es arbitrary: rows sent)
  case Nil
  then show ?case by simp
next
  case (Cons e es)
  let ?rows' = "update_where (\<lambda>r. ob_id r = ob_id e) (\<lambda>r. settled_row accepts m now e) rows"
  have e: "e \<in> set rows" using Cons.prems by simp
  have uniq: "r = r'" if "r \<in> set rows" "r' \<in> set rows" "ob_id r = ob_id r'" for r r'
    using Cons.prems(1) that by (auto simp: ids_distinct_def distinct_map inj_on_def)
  have notin: "ob_id r \<noteq> ob_id e" if "r \<in> set es" for r
    using Cons.prems(2) that by (auto simp: image_iff)
  have "map ob_id ?rows' = map ob_id rows" by (rule map_update_where) simp
  then have d: "ids_distinct ?rows'" using Cons.prems(1) by (simp add: ids_distinct_def)
  have sub: "set es \<subseteq> set ?rows'"
    using Cons.prems(3) notin by (auto simp: set_update_where image_iff)
  have "fold (try_publish accepts m now) es (try_publish accepts m now e (rows, sent)) =
      (map (\<lambda>r. if r \<in> set es then settled_row accepts m now r else r) ?rows',
       (sent @ (if accepts e then [message_of e] else [])) @ map message_of (filter accepts es))"
    using Cons.IH [OF d _ sub] Cons.prems(2) by (simp add: try_publish_eq [OF Cons.prems(1) e])
  moreover have "map (\<lambda>r. if r \<in> set es then settled_row accepts m now r else r) ?rows' =
      map (\<lambda>r. if r \<in> set (e # es) then settled_row accepts m now r else r) rows"
    using e uniq notin [of "settled_row accepts m now e"] notin by (auto simp: update_where_def)
  ultimately show ?case by simp
qed

text \<open>
  When the broker accepts everything, a batch of at least as many entries as there are due rows publishes
  every due row exactly once, in \<open>created_at\<close> order, leaves no row due and touches no other row.
\<close>

theorem process_batch_drains:
  assumes "ids_distinct rows" and "length (due_rows now rows) \<le> n"
  shows "process_batch pe (\<lambda>_. True) m now n (rows, sent) =
     ((map (\<lambda>r. if ob_due now r then r\<lparr>ob_status := Published, ob_published_at := Some now\<rparr> else r) rows,
       sent @ map message_of (due_rows now rows)), length (due_rows now rows))"
proof -
  have "fold (try_publish (\<lambda>_. True) m now) (due_rows now rows) (rows, sent) =
      (map (\<lambda>r. if ob_due now r then r\<lparr>ob_status := Published, ob_published_at := Some now\<rparr> else r) rows,
       sent @ map message_of (due_rows now rows))"
    using fold_try_publish [OF assms(1) distinct_due_rows [OF assms(1)], of now "\<lambda>_. True" m now sent]
    by (auto simp: set_due_rows settled_row_def)
  moreover have "process_batch_per_entry (\<lambda>_. True) m now n (rows, sent) =
      (fold (try_publish (\<lambda>_. True) m now) (due_rows now rows) (rows, sent), length (due_rows now rows))"
    using per_entry_eq_fold [of "(rows, sent)" "\<lambda>_. True" m now n] assms by simp
  moreover have "process_batch_legacy (\<lambda>_. True) m now n (rows, sent) =
      (fold (try_publish (\<lambda>_. True) m now) (due_rows now rows) (rows, sent), length (due_rows now rows))"
    using assms by (auto simp: process_batch_legacy_def fetch_pending_unlocked Let_def)
  ultimately show ?thesis by (simp add: process_batch_def)
qed

theorem process_batch_drains_witness:
  "process_batch True (\<lambda>_. True) None 10 20 ([demo_row 1 3, demo_row 2 1, demo_row 3 50], []) =
     (([(demo_row 1 3)\<lparr>ob_status := Published, ob_published_at := Some 10\<rparr>,
        (demo_row 2 1)\<lparr>ob_status := Published, ob_published_at := Some 10\<rparr>, demo_row 3 50],
       [(2, ''saga.cmd'', ''{}''), (1, ''saga.cmd'', ''{}'')]), 2)"
proof -
  have d: "due_rows 10 [demo_row 1 3, demo_row 2 1, demo_row 3 50] = [demo_row 2 1, demo_row 1 3]"
    by (simp add: due_rows_def ob_due_def demo_row_def)
  have i: "ids_distinct [demo_row 1 3, demo_row 2 1, demo_row 3 50]"
    by (simp add: ids_distinct_def demo_row_def)
  show ?thesis
    using process_batch_drains [OF i, of 10 20 True None "[]"]
    unfolding d by (simp add: ob_due_def message_of_def demo_row_def)
qed

text \<open>Purging removes only rows that were published before the cutoff.\<close>

lemma purge_published_spec:
  "r \<in> set (fst (purge_published now days rows)) \<longleftrightarrow>
   r \<in> set rows \<and> \<not> (ob_status r = Published \<and> (\<exists>t. ob_published_at r = Some t \<and> t < now - usec (days * 86400)))"
  by (auto simp: purge_published_def Let_def split: option.splits)

lemma maybe_purge_subset: "set (fst (maybe_purge d i mt now st)) \<subseteq> set (fst st)"
  by (auto simp: maybe_purge_def purge_published_spec split: option.splits if_splits)

end
