(* ===== verification/OutboxWorkers.thy ===== *)
theory OutboxWorkers
  imports Outbox
begin

text \<open>
  Any number of publisher workers over one outbox table, as an interleaving of atomic steps: a worker claims
  the oldest due row no other transaction has locked (\<open>fetch_pending(batch_size=1)\<close> under
  \<open>FOR UPDATE SKIP LOCKED\<close>), hands the message to the broker, and commits the mark; a failed publication
  commits \<open>record_failure\<close>; producers insert rows, housekeeping purges rows, time passes.  With
  \<open>crashes = True\<close> a worker may also die at any point: its transaction rolls back and its lock goes away,
  but a message it has sent stays sent.  The steps are those of \<open>_process_batch_per_entry\<close> and
  \<open>_try_publish\<close> in \<open>services/shared/messaging/messaging/worker.py\<close>.
\<close>

datatype phase = Claimed | Sent

record 'p osys =
  os_rows :: "'p outbox"
  os_claims :: "nat \<Rightarrow> ('p outbox_row \<times> phase) option"
  os_broker :: "'p message list"
  os_now :: instant

definition locked_ids :: "'p osys \<Rightarrow> nat set" where
  "locked_ids s = {i. \<exists>w e ph. os_claims s w = Some (e, ph) \<and> ob_id e = i}"

definition init_osys :: "instant \<Rightarrow> 'p osys" where
  "init_osys t = \<lparr>os_rows = [], os_claims = (\<lambda>_. None), os_broker = [], os_now = t\<rparr>"

inductive ostep :: "bool \<Rightarrow> nat option \<Rightarrow> 'p osys \<Rightarrow> 'p osys \<Rightarrow> bool" for crashes max_attempts where
  tick: "t \<ge> 0 \<Longrightarrow> ostep crashes max_attempts s (s\<lparr>os_now := os_now s + t\<rparr>)"
| produce: "ob_id r \<notin> ob_id ` set (os_rows s) \<Longrightarrow> ob_id r \<notin> fst ` set (os_broker s) \<Longrightarrow>
    ob_status r = Pending \<Longrightarrow> ob_attempts r = 0 \<Longrightarrow>
    ostep crashes max_attempts s (s\<lparr>os_rows := os_rows s @ [r]\<rparr>)"
| claim: "os_claims s w = None \<Longrightarrow> fetch_pending (locked_ids s) (os_now s) 1 (os_rows s) = [e] \<Longrightarrow>
    ostep crashes max_attempts s (s\<lparr>os_claims := (os_claims s)(w \<mapsto> (e, Claimed))\<rparr>)"
| send: "os_claims s w = Some (e, Claimed) \<Longrightarrow>
    ostep crashes max_attempts s
      (s\<lparr>os_claims := (os_claims s)(w \<mapsto> (e, Sent)), os_broker := os_broker s @ [message_of e]\<rparr>)"
| commit: "os_claims s w = Some (e, Sent) \<Longrightarrow>
    ostep crashes max_attempts s
      (s\<lparr>os_claims := (os_claims s)(w := None), os_rows := mark_published (os_now s) (ob_id e) (os_rows s)\<rparr>)"
| send_fails: "os_claims s w = Some (e, Claimed) \<Longrightarrow>
    ostep crashes max_attempts s
      (s\<lparr>os_claims := (os_claims s)(w := None),
         os_rows := fst (record_failure max_attempts (os_now s) e (os_rows s))\<rparr>)"
| purge: "ostep crashes max_attempts s (s\<lparr>os_rows := fst (purge_published (os_now s) days (os_rows s))\<rparr>)"
| crash: "crashes \<Longrightarrow> ostep crashes max_attempts s (s\<lparr>os_claims := (os_claims s)(w := None)\<rparr>)"

inductive oreach :: "bool \<Rightarrow> nat option \<Rightarrow> 'p osys \<Rightarrow> bool" for crashes max_attempts where
  start: "oreach crashes max_attempts (init_osys t)"
| step: "oreach crashes max_attempts s \<Longrightarrow> ostep crashes max_attempts s s' \<Longrightarrow> oreach crashes max_attempts s'"

section \<open>The invariant\<close>

text \<open>
  Rows have distinct identifiers; a claimed row is in the table exactly as it was read and still waits; two
  workers never hold the same row; a published row and a row whose claim has been sent are on the broker.
  Without crashes, every message on the broker is there once, and belongs to a row that is published (or
  purged) or to the claim that sent it.
\<close>

definition claims_ok :: "'p osys \<Rightarrow> bool" where
  "claims_ok s \<longleftrightarrow>
     (\<forall>w e ph. os_claims s w = Some (e, ph) \<longrightarrow> e \<in> set (os_rows s) \<and> ob_status e \<in> {Pending, Failed}) \<and>
     (\<forall>w w' e e' ph ph'. os_claims s w = Some (e, ph) \<and> os_claims s w' = Some (e', ph') \<and> ob_id e = ob_id e'
        \<longrightarrow> w = w')"

definition delivered_ok :: "'p osys \<Rightarrow> bool" where
  "delivered_ok s \<longleftrightarrow>
     (\<forall>r\<in>set (os_rows s). ob_status r = Published \<longrightarrow> message_of r \<in> set (os_broker s)) \<and>
     (\<forall>w e. os_claims s w = Some (e, Sent) \<longrightarrow> message_of e \<in> set (os_broker s))"

definition once_ok :: "'p osys \<Rightarrow> bool" where
  "once_ok s \<longleftrightarrow> distinct (map fst (os_broker s)) \<and>
     (\<forall>r\<in>set (os_rows s). ob_id r \<in> fst ` set (os_broker s) \<longrightarrow>
        ob_status r = Published \<or> (\<exists>w. os_claims s w = Some (r, Sent)))"

definition oinv :: "bool \<Rightarrow> 'p osys \<Rightarrow> bool" where
  "oinv crashes s \<longleftrightarrow> ids_distinct (os_rows s) \<and> claims_ok s \<and> delivered_ok s \<and> (\<not> crashes \<longrightarrow> once_ok s)"

lemma fetch_pending_one:
  assumes "fetch_pending locked now 1 rows = [e]"
  shows "e \<in> set rows \<and> ob_due now e \<and> ob_id e \<notin> locked"
proof -
  let ?l = "sort_key ob_created_at (filter (\<lambda>r. ob_due now r \<and> ob_id r \<notin> locked) rows)"
  have "e \<in> set (take 1 ?l)" using assms by (simp add: fetch_pending_def)
  then have "e \<in> set ?l" by (rule in_set_takeD)
  then show ?thesis by simp
qed

lemma message_of_update [simp]:
  "message_of (r\<lparr>ob_status := st\<rparr>) = message_of r"
  "message_of (r\<lparr>ob_attempts := a\<rparr>) = message_of r"
  "message_of (r\<lparr>ob_next_attempt_at := t\<rparr>) = message_of r"
  "message_of (r\<lparr>ob_published_at := p\<rparr>) = message_of r"
  by (simp_all add: message_of_def)

lemma fst_message_of [simp]: "fst (message_of r) = ob_id r"
  by (simp add: message_of_def)

lemma ids_distinct_unique:
  "ids_distinct rows \<Longrightarrow> r \<in> set rows \<Longrightarrow> r' \<in> set rows \<Longrightarrow> ob_id r = ob_id r' \<Longrightarrow> r = r'"
  by (auto simp: ids_distinct_def distinct_map inj_on_def)

text \<open>The row update that a worker commits for its own claim.\<close>

lemma mem_mark_published:
  assumes "ids_distinct rows" "e \<in> set rows"
  shows "r \<in> set (mark_published now (ob_id e) rows) \<longleftrightarrow>
    r = e\<lparr>ob_status := Published, ob_published_at := Some now\<rparr> \<or> (r \<in> set rows \<and> ob_id r \<noteq> ob_id e)"
  using update_where_key_mem [of ob_id rows e] assms by (simp add: ids_distinct_def mark_published_def)

lemma mem_record_failure:
  assumes "ids_distinct rows" "e \<in> set rows"
  shows "\<exists>e'. ob_id e' = ob_id e \<and> ob_status e' \<in> {Failed, Dead} \<and>
    (\<forall>r. r \<in> set (fst (record_failure m now e rows)) \<longleftrightarrow> r = e' \<or> (r \<in> set rows \<and> ob_id r \<noteq> ob_id e))"
proof (cases "case m of None \<Rightarrow> False | Some n \<Rightarrow> ob_attempts e + 1 \<ge> n")
  case True
  then show ?thesis
    using update_where_key_mem [of ob_id rows e] assms
    by (intro exI [of _ "e\<lparr>ob_status := Dead, ob_attempts := ob_attempts e + 1\<rparr>"])
      (simp add: ids_distinct_def record_failure_def)
next
  case False
  then show ?thesis
    using update_where_key_mem [of ob_id rows e] assms
    by (intro exI [of _ "e\<lparr>ob_status := Failed, ob_attempts := ob_attempts e + 1,
          ob_next_attempt_at := now + usec (compute_backoff (ob_attempts e))\<rparr>"])
      (simp add: ids_distinct_def record_failure_def mark_failed_def Let_def)
qed

lemma oinv_init: "oinv c (init_osys t)"
  by (simp add: oinv_def init_osys_def ids_distinct_def claims_ok_def delivered_ok_def once_ok_def)

lemma oinv_produce:
  assumes "oinv c s" "ob_id r \<notin> ob_id ` set (os_rows s)" "ob_id r \<notin> fst ` set (os_broker s)" "ob_status r = Pending"
  shows "oinv c (s\<lparr>os_rows := os_rows s @ [r]\<rparr>)"
  using assms by (auto simp: oinv_def ids_distinct_def claims_ok_def delivered_ok_def once_ok_def)

lemma once_ok_transfer:
  assumes "once_ok s" and "os_rows s' = os_rows s" and "os_broker s' = os_broker s"
    and "\<And>w r. os_claims s w = Some (r, Sent) \<Longrightarrow> \<exists>w'. os_claims s' w' = Some (r, Sent)"
  shows "once_ok s'"
  using assms unfolding once_ok_def by metis

lemma oinv_claim:
  assumes "oinv c s" "os_claims s w = None" "fetch_pending (locked_ids s) (os_now s) 1 (os_rows s) = [e]"
  shows "oinv c (s\<lparr>os_claims := (os_claims s)(w \<mapsto> (e, Claimed))\<rparr>)"
proof -
  note e = fetch_pending_one [OF assms(3)]
  have free: "os_claims s w' = Some (e', ph) \<Longrightarrow> ob_id e' \<noteq> ob_id e" for w' e' ph
    using e by (auto simp: locked_ids_def)
  have "claims_ok (s\<lparr>os_claims := (os_claims s)(w \<mapsto> (e, Claimed))\<rparr>)"
    using assms(1) e free by (auto simp: oinv_def claims_ok_def ob_due_def split: if_splits) metis+
  moreover have "once_ok (s\<lparr>os_claims := (os_claims s)(w \<mapsto> (e, Claimed))\<rparr>)" if "once_ok s"
  proof (rule once_ok_transfer [OF that])
    show "\<exists>w''. os_claims (s\<lparr>os_claims := (os_claims s)(w \<mapsto> (e, Claimed))\<rparr>) w'' = Some (r, Sent)"
      if "os_claims s w' = Some (r, Sent)" for w' r
      using that assms(2) by (intro exI [of _ w']) auto
  qed simp_all
  ultimately show ?thesis
    using assms(1) by (auto simp: oinv_def delivered_ok_def)
qed

lemma oinv_send:
  assumes "oinv c s" "os_claims s w = Some (e, Claimed)"
  shows "oinv c (s\<lparr>os_claims := (os_claims s)(w \<mapsto> (e, Sent)), os_broker := os_broker s @ [message_of e]\<rparr>)"
    (is "oinv c ?s'")
proof -
  have cl: "claims_ok s" and e: "e \<in> set (os_rows s)" "ob_status e \<in> {Pending, Failed}"
    using assms by (auto simp: oinv_def claims_ok_def)
  have "claims_ok ?s'"
    using cl assms(2) unfolding claims_ok_def by (auto split: if_splits)
  moreover have "delivered_ok ?s'"
    using assms by (auto simp: oinv_def delivered_ok_def)
  moreover have "once_ok ?s'" if o: "once_ok s"
  proof -
    have "ob_id e \<notin> fst ` set (os_broker s)"
    proof
      assume "ob_id e \<in> fst ` set (os_broker s)"
      then obtain w' where "os_claims s w' = Some (e, Sent)"
        using o e by (auto simp: once_ok_def)
      then have "w' = w" using cl assms(2) by (auto simp: claims_ok_def)
      then show False using assms(2) \<open>os_claims s w' = Some (e, Sent)\<close> by simp
    qed
    moreover have "ob_status r = Published \<or> (\<exists>w''. os_claims ?s' w'' = Some (r, Sent))"
      if r: "r \<in> set (os_rows s)" and b: "ob_id r \<in> fst ` set (os_broker ?s')" for r
    proof (cases "ob_id r = ob_id e")
      case True
      then have "os_claims ?s' w = Some (r, Sent)"
        using r e assms(1) by (auto simp: oinv_def dest: ids_distinct_unique)
      then show ?thesis by blast
    next
      case False
      then have "ob_status r = Published \<or> (\<exists>w'. os_claims s w' = Some (r, Sent))"
        using o r b by (auto simp: once_ok_def image_iff)
      moreover have "os_claims ?s' w' = Some (r, Sent)" if "os_claims s w' = Some (r, Sent)" for w'
        using that assms(2) by auto
      ultimately show ?thesis by blast
    qed
    ultimately show ?thesis
      using o unfolding once_ok_def by simp
  qed
  ultimately show ?thesis using assms(1) by (simp add: oinv_def)
qed

lemma oinv_commit:
  assumes "oinv c s" "os_claims s w = Some (e, Sent)"
  shows "oinv c (s\<lparr>os_claims := (os_claims s)(w := None), os_rows := mark_published (os_now s) (ob_id e) (os_rows s)\<rparr>)"
    (is "oinv c ?s'")
proof -
  have d: "ids_distinct (os_rows s)" and cl: "claims_ok s" and dl: "delivered_ok s" and e: "e \<in> set (os_rows s)"
    using assms by (auto simp: oinv_def claims_ok_def)
  note mem = mem_mark_published [OF d e, of _ "os_now s"]
  have other: "ob_id e' \<noteq> ob_id e" if "w' \<noteq> w" "os_claims s w' = Some (e', ph)" for w' e' ph
    using cl that assms(2) unfolding claims_ok_def by blast
  have "claims_ok ?s'"
    using cl other unfolding claims_ok_def by (auto simp: mem split: if_splits)
  moreover have "delivered_ok ?s'"
    using dl assms(2) unfolding delivered_ok_def by (auto simp: mem split: if_splits)
  moreover have "once_ok ?s'" if o: "once_ok s"
    unfolding once_ok_def
  proof (intro conjI ballI impI)
    show "distinct (map fst (os_broker ?s'))" using o by (simp add: once_ok_def)
    fix r assume r: "r \<in> set (os_rows ?s')" and b: "ob_id r \<in> fst ` set (os_broker ?s')"
    show "ob_status r = Published \<or> (\<exists>w. os_claims ?s' w = Some (r, Sent))"
    proof (cases "ob_id r = ob_id e")
      case True
      then show ?thesis using r by (auto simp: mem)
    next
      case False
      then have rs: "r \<in> set (os_rows s)" using r by (auto simp: mem)
      then consider "ob_status r = Published" | w' where "os_claims s w' = Some (r, Sent)"
        using o b by (auto simp: once_ok_def)
      then show ?thesis
        using False assms(2) by cases (auto intro!: exI)
    qed
  qed
  ultimately show ?thesis using assms(1) by (simp add: oinv_def ids_distinct_mark_published)
qed

lemma oinv_send_fails:
  assumes "oinv c s" "os_claims s w = Some (e, Claimed)"
  shows "oinv c (s\<lparr>os_claims := (os_claims s)(w := None),
      os_rows := fst (record_failure m (os_now s) e (os_rows s))\<rparr>)" (is "oinv c ?s'")
proof -
  have d: "ids_distinct (os_rows s)" and cl: "claims_ok s" and dl: "delivered_ok s"
    and e: "e \<in> set (os_rows s)" "ob_status e \<in> {Pending, Failed}"
    using assms by (auto simp: oinv_def claims_ok_def)
  obtain e' where e': "ob_id e' = ob_id e" "ob_status e' \<in> {Failed, Dead}" and
    mem: "\<And>r. r \<in> set (fst (record_failure m (os_now s) e (os_rows s))) \<longleftrightarrow>
      r = e' \<or> (r \<in> set (os_rows s) \<and> ob_id r \<noteq> ob_id e)"
    using mem_record_failure [OF d e(1), of m "os_now s"] by blast
  have other: "ob_id e'' \<noteq> ob_id e" if "w' \<noteq> w" "os_claims s w' = Some (e'', ph)" for w' e'' ph
    using cl that assms(2) unfolding claims_ok_def by blast
  have "claims_ok ?s'"
    using cl other unfolding claims_ok_def by (auto simp: mem split: if_splits)
  moreover have "delivered_ok ?s'"
    using dl e' unfolding delivered_ok_def by (auto simp: mem split: if_splits)
  moreover have "once_ok ?s'" if o: "once_ok s"
    unfolding once_ok_def
  proof (intro conjI ballI impI)
    show "distinct (map fst (os_broker ?s'))" using o by (simp add: once_ok_def)
    have "ob_id e \<notin> fst ` set (os_broker s)"
    proof
      assume "ob_id e \<in> fst ` set (os_broker s)"
      then obtain w' where w': "os_claims s w' = Some (e, Sent)" using o e by (auto simp: once_ok_def)
      then have "w' = w" using cl assms(2) by (auto simp: claims_ok_def)
      then show False using assms(2) w' by simp
    qed
    moreover fix r assume r: "r \<in> set (os_rows ?s')" and b: "ob_id r \<in> fst ` set (os_broker ?s')"
    ultimately have ne: "ob_id r \<noteq> ob_id e" by (cases "ob_id r = ob_id e") simp_all
    then have "r \<in> set (os_rows s)" using r e' by (auto simp: mem)
    then consider "ob_status r = Published" | w' where "os_claims s w' = Some (r, Sent)"
      using o b by (auto simp: once_ok_def)
    then show "ob_status r = Published \<or> (\<exists>w. os_claims ?s' w = Some (r, Sent))"
      using ne assms(2) by cases (auto intro!: exI)
  qed
  ultimately show ?thesis using assms(1) by (simp add: oinv_def ids_distinct_record_failure)
qed

lemma oinv_purge:
  assumes "oinv c s"
  shows "oinv c (s\<lparr>os_rows := fst (purge_published (os_now s) days (os_rows s))\<rparr>)"
    (is "oinv c ?s'")
proof -
  have cl: "claims_ok s" using assms by (simp add: oinv_def)
  then have "ob_status e \<noteq> Published" if "os_claims s w = Some (e, ph)" for w e ph
    using that unfolding claims_ok_def by fastforce
  then have "claims_ok ?s'"
    using cl unfolding claims_ok_def by (simp add: purge_published_spec)
  then show ?thesis
    using assms ids_distinct_purge [of "os_rows s" "os_now s" days]
    by (auto simp: oinv_def delivered_ok_def once_ok_def purge_published_spec)
qed

lemma oinv_crash:
  assumes "oinv True s"
  shows "oinv True (s\<lparr>os_claims := (os_claims s)(w := None)\<rparr>)"
  using assms unfolding oinv_def claims_ok_def delivered_ok_def by (auto split: if_splits)

lemma ostep_inv: "ostep c m s s' \<Longrightarrow> oinv c s \<Longrightarrow> oinv c s'"
proof (induction rule: ostep.induct)
  case (tick t s)
  then show ?case by (simp add: oinv_def claims_ok_def delivered_ok_def once_ok_def)
next
  case (crash s w)
  then show ?case using oinv_crash [of s w] by simp
qed (auto intro: oinv_produce oinv_claim oinv_send oinv_commit oinv_send_fails oinv_purge)

lemma oreach_inv: "oreach c m s \<Longrightarrow> oinv c s"
  by (induction rule: oreach.induct) (auto intro: oinv_init ostep_inv)

text \<open>
  C3. No event is lost and none is marked too early: in every reachable state of any number of concurrent
  workers, crashes included, a row marked published has its message on the broker, two workers never hold
  the same row, and a row a worker holds is unchanged in the table.
\<close>

theorem published_is_on_broker:
  assumes "oreach crashes max_attempts s"
  shows "(\<forall>r\<in>set (os_rows s). ob_status r = Published \<longrightarrow> message_of r \<in> set (os_broker s)) \<and>
    (\<forall>w w' e ph ph'. os_claims s w = Some (e, ph) \<and> os_claims s w' = Some (e, ph') \<longrightarrow> w = w') \<and>
    (\<forall>w e ph. os_claims s w = Some (e, ph) \<longrightarrow> e \<in> set (os_rows s))"
  using oreach_inv [OF assms] unfolding oinv_def claims_ok_def delivered_ok_def by blast

text \<open>A run used by the witnesses: one row is produced, claimed, sent and committed.\<close>

definition run1 :: "string osys" where
  "run1 = (init_osys 5)\<lparr>os_rows := [demo_row 1 3]\<rparr>"

definition run4 :: "string osys" where
  "run4 = run1\<lparr>os_broker := [message_of (demo_row 1 3)],
     os_rows := [(demo_row 1 3)\<lparr>ob_status := Published, ob_published_at := Some 5\<rparr>]\<rparr>"

lemma oreach_run4: "oreach False None run4"
proof -
  have 1: "oreach False None run1"
    unfolding run1_def
    using oreach.step [OF oreach.start ostep.produce [of "demo_row 1 3" "init_osys 5"]]
    by (simp add: init_osys_def demo_row_def)
  have 2: "oreach False None (run1\<lparr>os_claims := [0 \<mapsto> (demo_row 1 3, Claimed)]\<rparr>)"
    using oreach.step [OF 1 ostep.claim [of run1 0 "demo_row 1 3"]]
    by (simp add: run1_def init_osys_def fetch_pending_def locked_ids_def ob_due_def demo_row_def)
  have 3: "oreach False None (run1\<lparr>os_claims := [0 \<mapsto> (demo_row 1 3, Sent)], os_broker := [message_of (demo_row 1 3)]\<rparr>)"
    using oreach.step [OF 2 ostep.send [of _ 0 "demo_row 1 3"]] by (simp add: run1_def init_osys_def)
  have "mark_published 5 (ob_id (demo_row 1 3)) [demo_row 1 3] =
      [(demo_row 1 3)\<lparr>ob_status := Published, ob_published_at := Some 5\<rparr>]"
    by (simp add: mark_published_def)
  then show ?thesis
    using oreach.step [OF 3 ostep.commit [of _ 0 "demo_row 1 3"]] by (simp add: run4_def run1_def init_osys_def)
qed

theorem published_is_on_broker_witness:
  "message_of ((demo_row 1 3)\<lparr>ob_status := Published, ob_published_at := Some 5\<rparr>) \<in> set (os_broker run4)"
  using published_is_on_broker [OF oreach_run4] by (simp add: run4_def)

text \<open>
  Without crashes the workers publish every event at most once, however many run concurrently: the
  identifiers of the messages on the broker are distinct.
\<close>

theorem no_double_publish:
  assumes "oreach False max_attempts s"
  shows "distinct (map fst (os_broker s))"
  using oreach_inv [OF assms] by (simp add: oinv_def once_ok_def)

theorem no_double_publish_witness: "distinct (map fst (os_broker run4))"
  by (rule no_double_publish [OF oreach_run4])

end
