(* ===== verification/Consumer.thy ===== *)
theory Consumer
  imports Prelude
begin

text \<open>
  The RabbitMQ consumer base class (\<open>services/shared/messaging/messaging/consumer.py\<close>): what happens to one
  delivery, and the retry ladder a message climbs until it is acknowledged or dead-lettered.  The handler of
  the subclass is a parameter that maps the payload and the service state to a result and a new state; so are
  the inbox deduplicator, Python's \<open>str\<close> on a payload value and whether the broker accepts a republication.

  The locale \<open>idempotent_consumer\<close> is the contract the at-least-once delivery of this class asks of a
  handler; the services that dedupe on a key interpret it.
\<close>

section \<open>One delivery\<close>

datatype handler_result = Handled | Poison | HandlerError

datatype outcome =
    Ack
  | NackDLQ \<comment> \<open>\<open>nack(requeue=False)\<close>: dead-lettered\<close>
  | NackRequeue \<comment> \<open>\<open>nack(requeue=True)\<close>: redelivered unchanged\<close>
  | Republish int \<comment> \<open>a copy with this retry count is on the queue, the original is acked\<close>

record delivery =
  dl_body :: "json option" \<comment> \<open>\<open>None\<close>: the body is not JSON\<close>
  dl_retry :: "int option" \<comment> \<open>the \<open>x-retry-count\<close> header\<close>

record 's deduplicator =
  dd_already_processed :: "string \<Rightarrow> string \<Rightarrow> 's \<Rightarrow> bool"
  dd_mark_processed :: "string \<Rightarrow> string \<Rightarrow> 's \<Rightarrow> 's"

definition DEFAULT_MAX_RETRIES :: int where "DEFAULT_MAX_RETRIES = 3"

type_synonym 's handler = "dict \<Rightarrow> 's \<Rightarrow> handler_result \<times> 's"

definition retry_count :: "delivery \<Rightarrow> int" where
  "retry_count m = (case dl_retry m of None \<Rightarrow> 0 | Some n \<Rightarrow> n)"

text \<open>The two exception branches of \<open>_on_message\<close>.\<close>

definition on_failure :: "int \<Rightarrow> bool \<Rightarrow> delivery \<Rightarrow> outcome" where
  "on_failure max_retries republish_ok m =
     (if retry_count m < max_retries
      then (if republish_ok then Republish (retry_count m + 1) else NackRequeue)
      else NackDLQ)"

definition dedup_key :: "(json \<Rightarrow> string) \<Rightarrow> dict \<Rightarrow> (string \<times> string) option" where
  "dedup_key py_str payload =
     (let correlation_id = dget_or payload ''correlation_id'' JNull;
          event_type = py_str (dget_or payload ''event_type'' (JStr ''''))
      in if truthy correlation_id then Some (py_str correlation_id, event_type) else None)"

definition on_message ::
  "(json \<Rightarrow> string) \<Rightarrow> int \<Rightarrow> 's deduplicator option \<Rightarrow> 's handler \<Rightarrow> bool \<Rightarrow> delivery \<Rightarrow> 's \<Rightarrow> outcome \<times> 's" where
  "on_message py_str max_retries dedup handle republish_ok m s =
     (case dl_body m of
        Some (JObj payload) \<Rightarrow>
          (let key = (case dedup of None \<Rightarrow> None
                      | Some dd \<Rightarrow> map_option (\<lambda>k. (dd, k)) (dedup_key py_str payload)) in
           if (case key of None \<Rightarrow> False | Some (dd, c, t) \<Rightarrow> dd_already_processed dd c t s)
           then (Ack, s)
           else
             (case handle payload s of
                (Handled, s') \<Rightarrow>
                  (Ack, (case key of None \<Rightarrow> s' | Some (dd, c, t) \<Rightarrow> dd_mark_processed dd c t s'))
              | (Poison, s') \<Rightarrow> (NackDLQ, s')
              | (HandlerError, s') \<Rightarrow> (on_failure max_retries republish_ok m, s')))
      | _ \<Rightarrow> (NackDLQ, s))"

section \<open>The retry ladder\<close>

text \<open>
  A message together with its republished copies, while the broker accepts republications: the final outcome,
  the state, and the number of deliveries.  It ends because every republication raises the retry count.
\<close>

lemma on_message_Republish:
  "on_message py_str mr dedup handle ok m s = (Republish n, s') \<Longrightarrow> n = retry_count m + 1 \<and> retry_count m < mr"
  by (auto simp: on_message_def on_failure_def Let_def
      split: option.splits json.splits if_splits prod.splits handler_result.splits)

function ladder ::
  "(json \<Rightarrow> string) \<Rightarrow> int \<Rightarrow> 's deduplicator option \<Rightarrow> 's handler \<Rightarrow> delivery \<Rightarrow> 's \<Rightarrow> outcome \<times> 's \<times> nat" where
  "ladder py_str max_retries dedup handle m s =
     (case on_message py_str max_retries dedup handle True m s of
        (Republish n, s') \<Rightarrow>
          (let (out, s'', k) = ladder py_str max_retries dedup handle (m\<lparr>dl_retry := Some n\<rparr>) s'
           in (out, s'', Suc k))
      | (out, s') \<Rightarrow> (out, s', 1))"
  by pat_completeness auto
termination
proof (relation "measure (\<lambda>(py_str, mr, dedup, handle, m, s). nat (mr - retry_count m))", goal_cases)
  case (2 py_str mr dedup handle m s out s' n)
  then show ?case
    using on_message_Republish [of py_str mr dedup handle True m s n s'] by (simp add: retry_count_def)
qed simp

declare ladder.simps [simp del]

lemma on_message_not_requeued: "fst (on_message py_str mr dedup handle True m s) \<noteq> NackRequeue"
  by (auto simp: on_message_def on_failure_def Let_def
      split: option.splits json.splits if_splits prod.splits handler_result.splits)

lemma ladder_settles_aux:
  assumes "ladder py_str mr dedup handle m s = (out, s', k)"
  shows "out \<in> {Ack, NackDLQ} \<and> int k \<le> max 0 (mr - retry_count m) + 1"
  using assms
proof (induction py_str mr dedup handle m s arbitrary: out s' k rule: ladder.induct)
  case (1 py_str mr dedup handle m s)
  obtain o1 s1 where om: "on_message py_str mr dedup handle True m s = (o1, s1)" by force
  show ?case
  proof (cases o1)
    case (Republish n)
    obtain o2 s2 k2 where l: "ladder py_str mr dedup handle (m\<lparr>dl_retry := Some n\<rparr>) s1 = (o2, s2, k2)"
      by (metis prod_cases3)
    have n: "n = retry_count m + 1" "retry_count m < mr"
      using on_message_Republish [OF om [unfolded Republish]] by simp_all
    have "o2 \<in> {Ack, NackDLQ} \<and> int k2 \<le> max 0 (mr - n) + 1"
      using "1.IH" [OF om [symmetric] Republish l] by (simp add: retry_count_def)
    moreover have "out = o2" "k = Suc k2"
      using "1.prems" om Republish l by (simp_all add: ladder.simps [of py_str mr dedup handle m s])
    ultimately show ?thesis using n by auto
  qed (use "1.prems" om on_message_not_requeued [of py_str mr dedup handle m s] in
      \<open>auto simp: ladder.simps [of py_str mr dedup handle m s]\<close>)
qed


text \<open>A handler that always fails is tried \<open>max_retries + 1\<close> times and the message is then dead-lettered.\<close>

lemma ladder_exhausts:
  assumes "dl_body m = Some (JObj p)" "\<And>s. handle p s = (HandlerError, s)" "retry_count m \<le> mr"
  shows "ladder py_str mr None handle m s = (NackDLQ, s, nat (mr - retry_count m) + 1)"
  using assms
proof (induction "nat (mr - retry_count m)" arbitrary: m)
  case 0
  then show ?case
    by (subst ladder.simps) (simp add: on_message_def on_failure_def)
next
  case (Suc n)
  let ?m' = "m\<lparr>dl_retry := Some (retry_count m + 1)\<rparr>"
  have "ladder py_str mr None handle ?m' s = (NackDLQ, s, nat (mr - retry_count ?m') + 1)"
    using Suc.hyps(2) Suc.prems by (intro Suc.hyps(1)) (auto simp: retry_count_def)
  moreover have "on_message py_str mr None handle True m s = (Republish (retry_count m + 1), s)"
    using Suc.hyps(2) Suc.prems by (simp add: on_message_def on_failure_def)
  moreover have "nat (mr - retry_count ?m') + 2 = nat (mr - retry_count m) + 1"
    using Suc.hyps(2) by (simp add: retry_count_def)
  ultimately show ?case by (subst ladder.simps) simp
qed


text \<open>Unparseable bodies, non-object payloads and poison messages are dead-lettered without a retry.\<close>

lemma on_message_poison:
  "(\<forall>p. dl_body m \<noteq> Some (JObj p)) \<Longrightarrow> on_message py_str mr dedup handle ok m s = (NackDLQ, s)"
  by (auto simp: on_message_def split: option.splits json.splits)

lemma on_message_known_duplicate:
  assumes "dl_body m = Some (JObj p)" "dedup_key py_str p = Some (c, t)" "dd_already_processed dd c t s"
  shows "on_message py_str mr (Some dd) handle ok m s = (Ack, s)"
  using assms by (simp add: on_message_def)

section \<open>The contract of a handler under at-least-once delivery\<close>

text \<open>The events that count in a run: the first one of every key that is not known yet.\<close>

fun firsts :: "('ev \<Rightarrow> 'k) \<Rightarrow> 'k set \<Rightarrow> 'ev list \<Rightarrow> 'ev list" where
  "firsts key ks [] = []"
| "firsts key ks (e # es) = (if key e \<in> ks then firsts key ks es else e # firsts key (insert (key e) ks) es)"

text \<open>
  A handler dedupes on a key of its event: a relevant event is recorded, and a recorded key makes the handler do
  nothing.
\<close>

locale keyed_consumer =
  fixes handle :: "'ev \<Rightarrow> 's \<Rightarrow> 's"
    and key :: "'ev \<Rightarrow> 'k"
    and relevant :: "'ev \<Rightarrow> bool"
    and seen :: "'s \<Rightarrow> 'k set"
    and inv :: "'s \<Rightarrow> bool"
  assumes duplicate: "inv s \<Longrightarrow> key e \<in> seen s \<Longrightarrow> handle e s = s"
    and recorded: "inv s \<Longrightarrow> relevant e \<Longrightarrow> key e \<in> seen (handle e s)"
    and kept: "inv s \<Longrightarrow> seen s \<subseteq> seen (handle e s)"
    and inv_handle: "inv s \<Longrightarrow> inv (handle e s)"
begin

lemma inv_run: "inv s \<Longrightarrow> inv (fold handle es s)"
  by (induction es arbitrary: s) (auto intro: inv_handle)

lemma kept_run: "inv s \<Longrightarrow> seen s \<subseteq> seen (fold handle es s)"
proof (induction es arbitrary: s)
  case (Cons e es)
  then show ?case using kept [of s e] Cons.IH [OF inv_handle, of s e] by auto
qed simp

text \<open>An event with the key of an earlier one changes nothing, whatever came in between.\<close>

lemma same_key_absorbed:
  assumes "inv s" and "relevant e" and "key e' = key e"
  shows "handle e' (fold handle es (handle e s)) = fold handle es (handle e s)"
proof (rule duplicate)
  show "inv (fold handle es (handle e s))" by (intro inv_run inv_handle assms)
  show "key e' \<in> seen (fold handle es (handle e s))"
    using recorded [OF assms(1,2)] kept_run [OF inv_handle [OF assms(1)], of e es] assms(3) by auto
qed

lemma run_firsts:
  "inv s \<Longrightarrow> \<forall>e \<in> set es. relevant e \<Longrightarrow> ks \<subseteq> seen s \<Longrightarrow> fold handle es s = fold handle (firsts key ks es) s"
proof (induction es arbitrary: s ks)
  case (Cons e es)
  have "insert (key e) ks \<subseteq> seen (handle e s)"
    using recorded [of s e] kept [of s e] Cons.prems by auto
  then show ?case
    using Cons.IH [OF inv_handle [OF Cons.prems(1)], of "insert (key e) ks" e] Cons.IH [OF Cons.prems(1)]
      duplicate [OF Cons.prems(1), of e] Cons.prems by auto
qed simp

end

text \<open>Events the handler ignores altogether are absorbed too.\<close>

locale idempotent_consumer = keyed_consumer +
  assumes ignored: "inv s \<Longrightarrow> \<not> relevant e \<Longrightarrow> handle e s = s"
begin

lemma handled_twice: "inv s \<Longrightarrow> handle e (handle e s) = handle e s"
  using recorded [of s e] duplicate [of "handle e s" e] ignored [of _ e] inv_handle [of s e]
  by (cases "relevant e") auto

text \<open>A redelivery after any number of other events changes nothing.\<close>

lemma redelivery_absorbed:
  assumes "inv s"
  shows "handle e (fold handle es (handle e s)) = fold handle es (handle e s)"
proof (cases "relevant e")
  case True
  then show ?thesis using same_key_absorbed [OF assms] by blast
next
  case False
  then show ?thesis by (intro ignored inv_run inv_handle assms) auto
qed

end

end
