(* ===== verification/Saga.thy ===== *)
theory Saga
  imports Outbox Consumer
begin

text \<open>
  The saga orchestration engine of saga-service: the aggregate (\<open>app/domain/entities.py\<close>), saga definitions
  (\<open>app/domain/saga_definition.py\<close>), the repository (\<open>app/adapters/outbound/postgres_saga_repository.py\<close>), the
  orchestrator (\<open>app/application/orchestrator.py\<close>) and its two consumers.  A saga definition is a record of
  functions, as the abstract class is; the concrete bank synchronisation saga is in theory \<open>BankSyncSaga\<close>.
  A context is the dictionary the repository keeps as JSON.  Each handler is one database transaction: the
  row lock of \<open>get_by_id(for_update=True)\<close> makes it atomic, and an exception rolls it back.
\<close>

section \<open>The aggregate\<close>

datatype saga_status = SagaStarted | SagaCompensating | SagaCompleted | SagaFailed | SagaTimedOut
datatype step_status = StepPending | StepExecuting | StepSucceeded | StepFailed | StepCompensated

record saga_step =
  st_index :: nat
  st_name :: string
  st_status :: step_status
  st_command_sent_at :: "instant option"
  st_reply_received_at :: "instant option"
  st_compensated_at :: "instant option"
  st_error_detail :: "string option"

record saga =
  sg_id :: string
  sg_type :: string
  sg_correlation_id :: string
  sg_current_step :: nat
  sg_status :: saga_status
  sg_context :: dict
  sg_steps :: "saga_step list"
  sg_error_detail :: "string option"
  sg_started_at :: "instant option"
  sg_completed_at :: "instant option"
  sg_updated_at :: "instant option"

definition is_active :: "saga \<Rightarrow> bool" where
  "is_active sg \<longleftrightarrow> sg_status sg \<in> {SagaStarted, SagaCompensating}"

definition current_step_obj :: "saga \<Rightarrow> saga_step option" where
  "current_step_obj sg =
     (if sg_current_step sg < length (sg_steps sg) then Some (sg_steps sg ! sg_current_step sg) else None)"

definition is_last_step :: "saga \<Rightarrow> bool" where
  "is_last_step sg \<longleftrightarrow> int (sg_current_step sg) \<ge> int (length (sg_steps sg)) - 1"

text \<open>Writing one step of the list in place.\<close>

definition set_step :: "nat \<Rightarrow> (saga_step \<Rightarrow> saga_step) \<Rightarrow> saga \<Rightarrow> saga" where
  "set_step i f sg = sg\<lparr>sg_steps := (sg_steps sg)[i := f (sg_steps sg ! i)]\<rparr>"

section \<open>Definitions and the registry\<close>

record step_definition =
  sd_name :: string
  sd_command_event_type :: string
  sd_compensate_event_type :: "string option"

record saga_definition =
  sd_type :: string
  sd_steps :: "step_definition list"
  sd_build_command :: "nat \<Rightarrow> dict \<Rightarrow> py_error + dict"
  sd_build_compensate_command :: "nat \<Rightarrow> dict \<Rightarrow> py_error + dict option"
  sd_on_reply :: "nat \<Rightarrow> dict \<Rightarrow> dict option \<Rightarrow> py_error + dict"

datatype saga_error =
    DuplicateSaga string
  | SagaNotFound string
  | SagaAlreadyCompleted string
  | SagaStepMismatch string string string
  | UnknownSagaType string
  | SagaPyError py_error

type_synonym registry = "string \<rightharpoonup> saga_definition"

definition registry_register :: "saga_definition \<Rightarrow> registry \<Rightarrow> registry" where
  "registry_register d reg = reg(sd_type d \<mapsto> d)"

definition registry_get :: "registry \<Rightarrow> string \<Rightarrow> saga_error + saga_definition" where
  "registry_get reg saga_type = of_option (UnknownSagaType saga_type) (reg saga_type)"

definition lift_py :: "py_error + 'a \<Rightarrow> saga_error + 'a" where
  "lift_py m = (case m of Inl e \<Rightarrow> Inl (SagaPyError e) | Inr x \<Rightarrow> Inr x)"

lemma lift_py_eq_Inr [simp, result_simps]: "lift_py m = Inr x \<longleftrightarrow> m = Inr x"
  by (auto simp: lift_py_def split: sum.splits)

abbreviation nth_step :: "'a list \<Rightarrow> nat \<Rightarrow> saga_error + 'a" where
  "nth_step xs i \<equiv> index_list (SagaPyError IndexError) xs i"

section \<open>The repository\<close>

record saga_db =
  db_sagas :: "saga list"
  db_outbox :: "dict outbox"

definition repo_save :: "saga \<Rightarrow> saga list \<Rightarrow> saga list" where
  "repo_save sg rows = rows @ [sg]"

text \<open>The step rows come back ordered by \<open>step_index\<close>.\<close>

definition to_entity :: "saga \<Rightarrow> saga" where
  "to_entity sg = sg\<lparr>sg_steps := sort_key st_index (sg_steps sg)\<rparr>"

definition repo_get_by_id :: "string \<Rightarrow> saga list \<Rightarrow> saga option" where
  "repo_get_by_id saga_id rows = map_option to_entity (List.find (\<lambda>r. sg_id r = saga_id) rows)"

definition repo_get_by_correlation_id :: "string \<Rightarrow> saga list \<Rightarrow> saga option" where
  "repo_get_by_correlation_id corr rows =
     map_option to_entity (List.find (\<lambda>r. sg_correlation_id r = corr) rows)"

definition find_stale_ids :: "instant \<Rightarrow> saga list \<Rightarrow> string list" where
  "find_stale_ids older_than rows =
     map sg_id (filter (\<lambda>r. sg_status r \<in> {SagaStarted, SagaCompensating} \<and>
        (case sg_updated_at r of None \<Rightarrow> False | Some t \<Rightarrow> t \<le> older_than)) rows)"

text \<open>One UPDATE of the saga row, then one UPDATE per step, keyed by \<open>step_index\<close>.\<close>

definition update_step_row :: "saga_step \<Rightarrow> saga_step list \<Rightarrow> saga_step list" where
  "update_step_row s =
     update_where (\<lambda>r. st_index r = st_index s)
       (\<lambda>r. r\<lparr>st_status := st_status s, st_command_sent_at := st_command_sent_at s,
              st_reply_received_at := st_reply_received_at s, st_compensated_at := st_compensated_at s,
              st_error_detail := st_error_detail s\<rparr>)"

definition repo_update :: "saga \<Rightarrow> saga list \<Rightarrow> saga list" where
  "repo_update sg =
     update_where (\<lambda>r. sg_id r = sg_id sg)
       (\<lambda>r. r\<lparr>sg_current_step := sg_current_step sg, sg_status := sg_status sg, sg_context := sg_context sg,
              sg_error_detail := sg_error_detail sg, sg_completed_at := sg_completed_at sg,
              sg_updated_at := sg_updated_at sg,
              sg_steps := fold update_step_row (sg_steps sg) (sg_steps r)\<rparr>)"

section \<open>The orchestrator\<close>

definition outbox_command ::
  "instant \<Rightarrow> saga \<Rightarrow> string \<Rightarrow> string \<Rightarrow> dict \<Rightarrow> dict outbox \<Rightarrow> dict outbox" where
  "outbox_command now sg step_name event_type payload ob =
     ob_add now event_type
       (dset (dset (dset (dset payload ''saga_id'' (JStr (sg_id sg))) ''saga_type'' (JStr (sg_type sg)))
          ''step_name'' (JStr step_name)) ''event_type'' (JStr event_type))
       (Some (sg_correlation_id sg)) ''saga'' (sg_id sg) ob"

text \<open>\<open>_outbox_compensation_command\<close> and \<open>_publish_step_command\<close>.\<close>

definition outbox_compensation_command ::
  "instant \<Rightarrow> saga \<Rightarrow> saga_step \<Rightarrow> string \<Rightarrow> dict \<Rightarrow> dict outbox \<Rightarrow> dict outbox" where
  "outbox_compensation_command now sg step compensate_event_type payload ob =
     outbox_command now sg (st_name step) compensate_event_type payload ob"

definition publish_step_command ::
  "saga_definition \<Rightarrow> instant \<Rightarrow> saga \<Rightarrow> nat \<Rightarrow> dict outbox \<Rightarrow> saga_error + dict outbox" where
  "publish_step_command d now sg step_index ob =
     bindE (nth_step (sd_steps d) step_index) (\<lambda>step_def.
     bindE (lift_py (sd_build_command d step_index (sg_context sg))) (\<lambda>payload.
     Inr (outbox_command now sg (sd_name step_def) (sd_command_event_type step_def) payload ob)))"

definition mark_compensated :: "instant \<Rightarrow> nat \<Rightarrow> saga \<Rightarrow> saga" where
  "mark_compensated now k =
     set_step k (\<lambda>s. s\<lparr>st_status := StepCompensated, st_compensated_at := Some now\<rparr>)"

text \<open>\<open>_compensate_previous\<close>: the \<open>while\<close> loop counts the current step down.\<close>

fun compensate_from ::
  "saga_definition \<Rightarrow> instant \<Rightarrow> nat \<Rightarrow> saga \<Rightarrow> dict outbox \<Rightarrow> saga_error + (saga \<times> dict outbox)" where
  "compensate_from d now 0 sg ob =
     Inr (sg\<lparr>sg_current_step := 0, sg_status := SagaFailed, sg_completed_at := Some now\<rparr>, ob)"
| "compensate_from d now (Suc k) sg0 ob =
     (let sg = sg0\<lparr>sg_current_step := k\<rparr> in
      bindE (nth_step (sg_steps sg) k) (\<lambda>step.
      if st_status step \<noteq> StepSucceeded then compensate_from d now k sg ob
      else
        bindE (nth_step (sd_steps d) k) (\<lambda>step_def.
        case sd_compensate_event_type step_def of
          None \<Rightarrow> compensate_from d now k (mark_compensated now k sg) ob
        | Some ct \<Rightarrow>
            bindE (lift_py (sd_build_compensate_command d k (sg_context sg))) (\<lambda>p.
            case p of
              None \<Rightarrow> compensate_from d now k (mark_compensated now k sg) ob
            | Some payload \<Rightarrow> Inr (sg, outbox_compensation_command now sg step ct payload ob)))))"

definition compensate_previous ::
  "saga_definition \<Rightarrow> instant \<Rightarrow> saga \<Rightarrow> dict outbox \<Rightarrow> saga_error + (saga \<times> dict outbox)" where
  "compensate_previous d now sg ob = compensate_from d now (sg_current_step sg) sg ob"

definition begin_compensation ::
  "saga_definition \<Rightarrow> instant \<Rightarrow> string option \<Rightarrow> saga \<Rightarrow> dict outbox \<Rightarrow> saga_error + (saga \<times> dict outbox)" where
  "begin_compensation d now error_message sg ob =
     bindE (nth_step (sg_steps sg) (sg_current_step sg)) (\<lambda>_.
     (let sg1 = set_step (sg_current_step sg) (\<lambda>s. s\<lparr>st_status := StepFailed, st_error_detail := error_message\<rparr>) sg;
          sg2 = sg1\<lparr>sg_status := SagaCompensating, sg_error_detail := error_message\<rparr>
      in compensate_previous d now sg2 ob))"

definition advance ::
  "saga_definition \<Rightarrow> instant \<Rightarrow> dict option \<Rightarrow> saga \<Rightarrow> dict outbox \<Rightarrow> saga_error + (saga \<times> dict outbox)" where
  "advance d now result_data sg ob =
     bindE (nth_step (sg_steps sg) (sg_current_step sg)) (\<lambda>_.
     (let sg1 = set_step (sg_current_step sg) (\<lambda>s. s\<lparr>st_status := StepSucceeded\<rparr>) sg in
      bindE (lift_py (sd_on_reply d (sg_current_step sg) (sg_context sg) result_data)) (\<lambda>ctx.
      (let sg2 = sg1\<lparr>sg_context := ctx\<rparr> in
       if is_last_step sg2 then Inr (sg2\<lparr>sg_status := SagaCompleted, sg_completed_at := Some now\<rparr>, ob)
       else
         (let nxt = sg_current_step sg2 + 1; sg3 = sg2\<lparr>sg_current_step := nxt\<rparr> in
          bindE (nth_step (sg_steps sg3) nxt) (\<lambda>_.
          (let sg4 = set_step nxt (\<lambda>s. s\<lparr>st_status := StepExecuting, st_command_sent_at := Some now\<rparr>) sg3 in
           bindE (publish_step_command d now sg4 nxt ob) (\<lambda>ob'. Inr (sg4, ob')))))))))"

text \<open>
  \<open>start_saga\<close>.  The fresh \<open>uuid4\<close> identifier is the parameter \<open>new_id\<close>; the generated one is replaced when
  a correlation id is given.
\<close>

definition new_steps :: "saga_definition \<Rightarrow> saga_step list" where
  "new_steps d =
     map (\<lambda>(i, sd). \<lparr>st_index = i, st_name = sd_name sd, st_status = StepPending, st_command_sent_at = None,
        st_reply_received_at = None, st_compensated_at = None, st_error_detail = None\<rparr>)
       (enumerate 0 (sd_steps d))"

definition start_saga ::
  "registry \<Rightarrow> string \<Rightarrow> instant \<Rightarrow> string \<Rightarrow> dict \<Rightarrow> string option \<Rightarrow> saga_db \<Rightarrow> saga_error + (saga \<times> saga_db)" where
  "start_saga reg new_id now saga_type context correlation_id db =
     bindE (registry_get reg saga_type) (\<lambda>d.
     (let ident = (case correlation_id of None \<Rightarrow> new_id | Some c \<Rightarrow> if c = '''' then new_id else c);
          sg = \<lparr>sg_id = ident, sg_type = saga_type, sg_correlation_id = ident, sg_current_step = 0,
                sg_status = SagaStarted, sg_context = context, sg_steps = new_steps d, sg_error_detail = None,
                sg_started_at = Some now, sg_completed_at = None, sg_updated_at = Some now\<rparr>
      in
      bindE (guardE (repo_get_by_correlation_id ident (db_sagas db) = None) (DuplicateSaga ident)) (\<lambda>_.
      (let saved = repo_save sg (db_sagas db) in
       bindE (publish_step_command d now sg 0 (db_outbox db)) (\<lambda>ob.
       bindE (nth_step (sg_steps sg) 0) (\<lambda>_.
       (let sg' = set_step 0 (\<lambda>s. s\<lparr>st_status := StepExecuting, st_command_sent_at := Some now\<rparr>) sg
        in Inr (sg', \<lparr>db_sagas = repo_update sg' saved, db_outbox = ob\<rparr>))))))))"

definition check_current_step :: "string \<Rightarrow> string \<Rightarrow> saga \<Rightarrow> saga_error + saga_step" where
  "check_current_step saga_id step_name sg =
     (case current_step_obj sg of
        None \<Rightarrow> Inl (SagaStepMismatch saga_id ''<none>'' step_name)
      | Some s \<Rightarrow> if st_name s \<noteq> step_name then Inl (SagaStepMismatch saga_id (st_name s) step_name) else Inr s)"

definition handle_reply ::
  "registry \<Rightarrow> instant \<Rightarrow> string \<Rightarrow> string \<Rightarrow> bool \<Rightarrow> dict option \<Rightarrow> string option \<Rightarrow> saga_db \<Rightarrow>
   saga_error + (saga \<times> saga_db)" where
  "handle_reply reg now saga_id step_name success result_data error_message db =
     bindE (of_option (SagaNotFound saga_id) (repo_get_by_id saga_id (db_sagas db))) (\<lambda>sg.
     bindE (guardE (sg_status sg = SagaStarted) (SagaAlreadyCompleted saga_id)) (\<lambda>_.
     bindE (registry_get reg (sg_type sg)) (\<lambda>d.
     bindE (check_current_step saga_id step_name sg) (\<lambda>_.
     (let sg1 = (set_step (sg_current_step sg) (\<lambda>s. s\<lparr>st_reply_received_at := Some now\<rparr>) sg)
                  \<lparr>sg_updated_at := Some now\<rparr> in
      bindE (if success then advance d now result_data sg1 (db_outbox db)
             else begin_compensation d now error_message sg1 (db_outbox db)) (\<lambda>(sg2, ob).
      Inr (sg2, \<lparr>db_sagas = repo_update sg2 (db_sagas db), db_outbox = ob\<rparr>)))))))"

definition compensation_failed_detail :: "string \<Rightarrow> string option \<Rightarrow> string" where
  "compensation_failed_detail step_name error_message =
     ''compensation failed: '' @ step_name @
     (case error_message of None \<Rightarrow> '''' | Some e \<Rightarrow> if e = '''' then '''' else '': '' @ e)"

definition handle_compensation_reply ::
  "registry \<Rightarrow> instant \<Rightarrow> string \<Rightarrow> string \<Rightarrow> bool \<Rightarrow> string option \<Rightarrow> saga_db \<Rightarrow> saga_error + (saga \<times> saga_db)" where
  "handle_compensation_reply reg now saga_id step_name success error_message db =
     bindE (of_option (SagaNotFound saga_id) (repo_get_by_id saga_id (db_sagas db))) (\<lambda>sg.
     bindE (guardE (sg_status sg = SagaCompensating) (SagaAlreadyCompleted saga_id)) (\<lambda>_.
     bindE (registry_get reg (sg_type sg)) (\<lambda>d.
     bindE (check_current_step saga_id step_name sg) (\<lambda>_.
     (let sg1 = sg\<lparr>sg_updated_at := Some now\<rparr> in
      bindE
        (if success
         then compensate_previous d now
                (set_step (sg_current_step sg1)
                   (\<lambda>s. s\<lparr>st_compensated_at := Some now, st_status := StepCompensated\<rparr>) sg1) (db_outbox db)
         else Inr ((set_step (sg_current_step sg1)
                      (\<lambda>s. s\<lparr>st_status := StepFailed, st_error_detail := error_message\<rparr>) sg1)
                     \<lparr>sg_status := SagaFailed,
                      sg_error_detail := Some (compensation_failed_detail step_name error_message),
                      sg_completed_at := Some now\<rparr>, db_outbox db)) (\<lambda>(sg2, ob).
      Inr (sg2, \<lparr>db_sagas = repo_update sg2 (db_sagas db), db_outbox = ob\<rparr>)))))))"

section \<open>Timeouts\<close>

definition is_stale :: "saga \<Rightarrow> instant \<Rightarrow> bool" where
  "is_stale sg cutoff \<longleftrightarrow> (case sg_updated_at sg of None \<Rightarrow> True | Some t \<Rightarrow> t \<le> cutoff)"

text \<open>\<open>_has_compensatable_work\<close>: the first succeeded step whose compensation command exists.\<close>

fun has_compensatable_work ::
  "saga_definition \<Rightarrow> dict \<Rightarrow> saga_step list \<Rightarrow> saga_error + bool" where
  "has_compensatable_work d ctx [] = Inr False"
| "has_compensatable_work d ctx (step # steps) =
     (if st_status step \<noteq> StepSucceeded then has_compensatable_work d ctx steps
      else
        bindE (nth_step (sd_steps d) (st_index step)) (\<lambda>step_def.
        if sd_compensate_event_type step_def = None then has_compensatable_work d ctx steps
        else
          bindE (lift_py (sd_build_compensate_command d (st_index step) ctx)) (\<lambda>p.
          if p \<noteq> None then Inr True else has_compensatable_work d ctx steps)))"

text \<open>\<open>max_age\<close> is a whole number of seconds; \<open>total_seconds()\<close> prints it with one decimal.\<close>

definition show_total_seconds :: "seconds \<Rightarrow> string" where
  "show_total_seconds n = show_int n @ ''.0''"

definition handle_stale_execution ::
  "saga_definition \<Rightarrow> instant \<Rightarrow> seconds \<Rightarrow> saga \<Rightarrow> dict outbox \<Rightarrow> saga_error + (saga \<times> dict outbox)" where
  "handle_stale_execution d now max_age sg ob =
     bindE (has_compensatable_work d (sg_context sg) (sg_steps sg)) (\<lambda>work.
     if work
     then begin_compensation d now (Some (''timed out after '' @ show_total_seconds max_age @ ''s; compensating'')) sg ob
     else Inr (sg\<lparr>sg_status := SagaTimedOut,
                  sg_error_detail := Some (''Timed out after '' @ show_total_seconds max_age @ ''s''),
                  sg_completed_at := Some now\<rparr>, ob))"

definition COMPENSATION_REEMIT_MARKER :: string where
  "COMPENSATION_REEMIT_MARKER = ''compensation command re-emitted''"

definition already_reemitted :: "saga \<Rightarrow> bool" where
  "already_reemitted sg \<longleftrightarrow>
     (case sg_error_detail sg of None \<Rightarrow> False | Some e \<Rightarrow> e \<noteq> '''' \<and> contains COMPENSATION_REEMIT_MARKER e)"

definition join_detail :: "string option \<Rightarrow> string \<Rightarrow> string" where
  "join_detail detail note =
     (case detail of None \<Rightarrow> note | Some e \<Rightarrow> if e = '''' then note else e @ ''; '' @ note)"

definition compensation_timed_out :: "instant \<Rightarrow> saga \<Rightarrow> saga" where
  "compensation_timed_out now sg =
     (let sg1 = (if current_step_obj sg = None then sg
                 else set_step (sg_current_step sg)
                        (\<lambda>s. s\<lparr>st_status := StepFailed, st_error_detail := Some ''compensation timed out''\<rparr>) sg)
      in sg1\<lparr>sg_status := SagaFailed,
             sg_error_detail := Some (join_detail (sg_error_detail sg1) ''compensation timed out''),
             sg_completed_at := Some now\<rparr>)"

definition handle_stale_compensation ::
  "saga_definition \<Rightarrow> instant \<Rightarrow> seconds \<Rightarrow> saga \<Rightarrow> dict outbox \<Rightarrow> saga_error + (saga \<times> dict outbox)" where
  "handle_stale_compensation d now max_age sg ob =
     (case current_step_obj sg of
        None \<Rightarrow> Inr (compensation_timed_out now sg, ob)
      | Some step \<Rightarrow>
          bindE (nth_step (sd_steps d) (sg_current_step sg)) (\<lambda>step_def.
          bindE (case sd_compensate_event_type step_def of
                   None \<Rightarrow> Inr None
                 | Some _ \<Rightarrow> lift_py (sd_build_compensate_command d (sg_current_step sg) (sg_context sg))) (\<lambda>payload.
          case (sd_compensate_event_type step_def, payload) of
            (Some ct, Some p) \<Rightarrow>
              if already_reemitted sg then Inr (compensation_timed_out now sg, ob)
              else Inr (sg\<lparr>sg_error_detail := Some (join_detail (sg_error_detail sg)
                             (COMPENSATION_REEMIT_MARKER @ '' after '' @ show_total_seconds max_age @ ''s''))\<rparr>,
                        outbox_compensation_command now sg step ct p ob)
          | _ \<Rightarrow> Inr (compensation_timed_out now sg, ob))))"

text \<open>The loop body for one candidate id, re-loaded under its lock and re-validated.\<close>

definition timeout_one ::
  "registry \<Rightarrow> instant \<Rightarrow> seconds \<Rightarrow> string \<Rightarrow> saga_db \<Rightarrow> saga_error + (saga option \<times> saga_db)" where
  "timeout_one reg now max_age saga_id db =
     (case repo_get_by_id saga_id (db_sagas db) of
        None \<Rightarrow> Inr (None, db)
      | Some sg \<Rightarrow>
          if \<not> is_active sg \<or> \<not> is_stale sg (now - usec max_age) then Inr (None, db)
          else
            bindE (registry_get reg (sg_type sg)) (\<lambda>d.
            bindE (if sg_status sg = SagaCompensating
                   then handle_stale_compensation d now max_age sg (db_outbox db)
                   else handle_stale_execution d now max_age sg (db_outbox db)) (\<lambda>(sg1, ob).
            (let sg2 = sg1\<lparr>sg_updated_at := Some now\<rparr>
             in Inr (Some sg2, \<lparr>db_sagas = repo_update sg2 (db_sagas db), db_outbox = ob\<rparr>)))))"

fun timeout_all ::
  "registry \<Rightarrow> instant \<Rightarrow> seconds \<Rightarrow> string list \<Rightarrow> saga_db \<Rightarrow> saga_error + (saga list \<times> saga_db)" where
  "timeout_all reg now max_age [] db = Inr ([], db)"
| "timeout_all reg now max_age (i # is) db =
     bindE (timeout_one reg now max_age i db) (\<lambda>(h, db1).
     bindE (timeout_all reg now max_age is db1) (\<lambda>(hs, db2).
     Inr ((case h of None \<Rightarrow> hs | Some sg \<Rightarrow> sg # hs), db2)))"

definition check_timeouts ::
  "registry \<Rightarrow> instant \<Rightarrow> seconds \<Rightarrow> saga_db \<Rightarrow> saga_error + (saga list \<times> saga_db)" where
  "check_timeouts reg now max_age db =
     timeout_all reg now max_age (find_stale_ids (now - usec max_age) (db_sagas db)) db"

section \<open>The consumers\<close>

text \<open>\<open>SagaStartConsumer._parse_start_event\<close>; \<open>correlation_id\<close> and \<open>saga_type\<close> are strings or absent.\<close>

definition dreq :: "dict \<Rightarrow> string \<Rightarrow> py_error + json" where
  "dreq d k = of_option (KeyError k) (dget d k)"

definition str_field :: "dict \<Rightarrow> string \<Rightarrow> string option" where
  "str_field d k = (case dget d k of Some (JStr s) \<Rightarrow> Some s | _ \<Rightarrow> None)"

definition parse_start_event :: "dict \<Rightarrow> py_error + (string \<times> dict \<times> string option)" where
  "parse_start_event body =
     (let correlation_id = str_field body ''correlation_id'' in
      if dget_or body ''event_type'' (JStr '''') = JStr ''saga.bank_sync.start'' \<or> dget body ''saga_type'' = Some (JStr ''bank_sync'')
      then
        bindE (dreq body ''connection_id'') (\<lambda>connection_id.
        bindE (dreq body ''user_id'') (\<lambda>user_id.
        bindE (dreq body ''account_id'') (\<lambda>account_id.
        bindE (dreq body ''account_name'') (\<lambda>account_name.
        bindE (dreq body ''bank_account_uid'') (\<lambda>bank_account_uid.
        (let context = [(''connection_id'', connection_id), (''user_id'', user_id), (''account_id'', account_id),
                        (''account_name'', account_name), (''bank_account_uid'', bank_account_uid)];
             date_from = dget_or body ''date_from'' JNull
         in Inr (''bank_sync'', (if truthy date_from then dset context ''date_from'' date_from else context),
                 correlation_id)))))))
      else
        (case str_field body ''saga_type'' of
           None \<Rightarrow> Inl ValueError
         | Some t \<Rightarrow>
             if t = '''' then Inl ValueError
             else Inr (t, (case dget_or body ''context'' (JObj []) of JObj c \<Rightarrow> c | _ \<Rightarrow> []), correlation_id)))"

definition is_domain_error :: "saga_error \<Rightarrow> bool" where
  "is_domain_error e = (case e of SagaPyError _ \<Rightarrow> False | _ \<Rightarrow> True)"

definition start_consumer_handle ::
  "registry \<Rightarrow> string \<Rightarrow> instant \<Rightarrow> dict \<Rightarrow> saga_db \<Rightarrow> handler_result \<times> saga_db" where
  "start_consumer_handle reg new_id now payload db =
     (case parse_start_event payload of
        Inl _ \<Rightarrow> (Poison, db)
      | Inr (saga_type, context, correlation_id) \<Rightarrow>
          (case start_saga reg new_id now saga_type context correlation_id db of
             Inr (_, db') \<Rightarrow> (Handled, db')
           | Inl e \<Rightarrow> (if is_domain_error e
                        then (case e of DuplicateSaga _ \<Rightarrow> (Handled, db) | _ \<Rightarrow> (Poison, db))
                        else (HandlerError, db))))"

record saga_reply =
  rp_saga_id :: "string option"
  rp_step_name :: "string option"
  rp_success :: bool
  rp_error_message :: "string option"
  rp_result_data :: "dict option"
  rp_is_compensation :: bool

definition reply_consumer_handle ::
  "registry \<Rightarrow> instant \<Rightarrow> saga_reply \<Rightarrow> saga_db \<Rightarrow> handler_result \<times> saga_db" where
  "reply_consumer_handle reg now reply db =
     (case (rp_saga_id reply, rp_step_name reply) of
        (Some saga_id, Some step_name) \<Rightarrow>
          if saga_id = '''' \<or> step_name = '''' then (Poison, db)
          else
            (case (if rp_is_compensation reply
                   then handle_compensation_reply reg now saga_id step_name (rp_success reply) (rp_error_message reply) db
                   else handle_reply reg now saga_id step_name (rp_success reply) (rp_result_data reply)
                          (rp_error_message reply) db) of
               Inr (_, db') \<Rightarrow> (Handled, db')
             | Inl e \<Rightarrow> (if is_domain_error e
                          then (case e of SagaAlreadyCompleted _ \<Rightarrow> (Handled, db) | _ \<Rightarrow> (Poison, db))
                          else (HandlerError, db)))
      | _ \<Rightarrow> (Poison, db))"

end
