(* ===== verification/SagaProofs.thy ===== *)
theory SagaProofs
  imports Saga
begin

text \<open>
  Correctness of the saga engine for an arbitrary registry.  \<open>saga_wf\<close> is the invariant of a saga row,
  \<open>emitted_ok\<close> relates a row to the commands that were put in the outbox for it, \<open>sreach\<close> is the set of
  databases the consumers, the timeout worker and the outbox worker can produce together.
\<close>

section \<open>Rows and their replacement\<close>

text \<open>What no handler changes: identity, type and the names and indices of the steps.\<close>

definition same_saga :: "saga \<Rightarrow> saga \<Rightarrow> bool" where
  "same_saga sg sg' \<longleftrightarrow>
     sg_id sg' = sg_id sg \<and> sg_type sg' = sg_type sg \<and> sg_correlation_id sg' = sg_correlation_id sg \<and>
     sg_started_at sg' = sg_started_at sg \<and>
     map st_index (sg_steps sg') = map st_index (sg_steps sg) \<and> map st_name (sg_steps sg') = map st_name (sg_steps sg)"

definition shape_ok :: "saga_definition \<Rightarrow> saga \<Rightarrow> bool" where
  "shape_ok d sg \<longleftrightarrow>
     sg_correlation_id sg = sg_id sg \<and>
     map st_index (sg_steps sg) = [0..<length (sd_steps d)] \<and>
     map st_name (sg_steps sg) = map sd_name (sd_steps d) \<and>
     sg_current_step sg < length (sd_steps d)"

lemma same_saga_refl [simp]: "same_saga sg sg"
  by (simp add: same_saga_def)

lemma same_saga_trans [trans]: "same_saga a b \<Longrightarrow> same_saga b c \<Longrightarrow> same_saga a c"
  by (simp add: same_saga_def)

lemma shape_length: "shape_ok d sg \<Longrightarrow> length (sg_steps sg) = length (sd_steps d)"
  unfolding shape_ok_def by (metis length_map)

lemma shape_index: "shape_ok d sg \<Longrightarrow> i < length (sd_steps d) \<Longrightarrow> st_index (sg_steps sg ! i) = i"
  unfolding shape_ok_def by (metis add_cancel_left_left length_map length_upt nth_map nth_upt minus_nat.diff_0)

lemma shape_ok_same:
  "same_saga sg sg' \<Longrightarrow> shape_ok d sg \<Longrightarrow> sg_current_step sg' < length (sd_steps d) \<Longrightarrow> shape_ok d sg'"
  by (simp add: same_saga_def shape_ok_def)

lemma to_entity_id: "shape_ok d sg \<Longrightarrow> to_entity sg = sg"
  unfolding to_entity_def shape_ok_def by (simp add: sorted_sort_id sort_key_id_if_sorted)

lemma update_step_row_Cons_neq:
  "st_index r \<noteq> st_index s \<Longrightarrow> update_step_row s (r # rs) = r # update_step_row s rs"
  by (simp add: update_step_row_def)

lemma fold_update_step_row_skip:
  "st_index r \<notin> st_index ` set ss \<Longrightarrow> fold update_step_row ss (r # rs) = r # fold update_step_row ss rs"
  by (induction ss arbitrary: rs) (auto simp: update_step_row_Cons_neq)

lemma update_step_row_absent: "st_index s \<notin> st_index ` set rs \<Longrightarrow> update_step_row s rs = rs"
  unfolding update_step_row_def by (rule update_where_none) (metis imageI)

text \<open>Updating every step row of a well-shaped saga replaces the rows.\<close>

lemma fold_update_step_row:
  "map st_index ss = map st_index rs \<Longrightarrow> map st_name ss = map st_name rs \<Longrightarrow> distinct (map st_index rs) \<Longrightarrow>
   fold update_step_row ss rs = ss"
proof (induction ss arbitrary: rs)
  case (Cons s ss)
  then obtain r rs' where rs: "rs = r # rs'" by (cases rs) auto
  have idx: "st_index s = st_index r" "st_name s = st_name r" and tl: "map st_index ss = map st_index rs'"
    using Cons.prems by (auto simp: rs)
  then have notin: "st_index s \<notin> st_index ` set rs'" "st_index s \<notin> st_index ` set ss"
    using Cons.prems(3) by (simp_all add: rs) (metis list.set_map)
  have "update_step_row s rs = s # rs'"
    using idx update_step_row_absent [OF notin(1)] by (simp add: rs update_step_row_def)
  then have "fold update_step_row (s # ss) rs = s # fold update_step_row ss rs'"
    using fold_update_step_row_skip [OF notin(2)] by simp
  then show ?case using Cons.IH [of rs'] Cons.prems tl by (simp add: rs)
qed simp

lemma repo_update_eq:
  assumes "distinct (map sg_id rows)" and "r \<in> set rows" and "shape_ok d r" and "same_saga r sg"
  shows "repo_update sg rows = update_where (\<lambda>x. sg_id x = sg_id sg) (\<lambda>_. sg) rows"
proof -
  have "fold update_step_row (sg_steps sg) (sg_steps r) = sg_steps sg"
    using assms(3,4) by (intro fold_update_step_row) (auto simp: same_saga_def shape_ok_def)
  then have new: "r\<lparr>sg_current_step := sg_current_step sg, sg_status := sg_status sg, sg_context := sg_context sg,
      sg_error_detail := sg_error_detail sg, sg_completed_at := sg_completed_at sg,
      sg_updated_at := sg_updated_at sg, sg_steps := fold update_step_row (sg_steps sg) (sg_steps r)\<rparr> = sg"
    using assms(4) by (simp add: same_saga_def)
  have "x = r" if "x \<in> set rows" "sg_id x = sg_id sg" for x
    using that assms(1,2,4) by (metis distinct_map inj_on_eq_iff same_saga_def)
  then show ?thesis
    unfolding repo_update_def update_where_def using new by (intro map_cong refl) auto
qed

lemma repo_get_eq:
  assumes "distinct (map sg_id rows)" and "r \<in> set rows" and "shape_ok d r"
  shows "repo_get_by_id (sg_id r) rows = Some r"
  using find_distinct_key [OF assms(1,2)] to_entity_id [OF assms(3)] by (simp add: repo_get_by_id_def)

lemma set_step_simps [simp]:
  "sg_id (set_step i f sg) = sg_id sg" "sg_type (set_step i f sg) = sg_type sg"
  "sg_correlation_id (set_step i f sg) = sg_correlation_id sg" "sg_current_step (set_step i f sg) = sg_current_step sg"
  "sg_status (set_step i f sg) = sg_status sg" "sg_context (set_step i f sg) = sg_context sg"
  "sg_error_detail (set_step i f sg) = sg_error_detail sg" "sg_started_at (set_step i f sg) = sg_started_at sg"
  "sg_completed_at (set_step i f sg) = sg_completed_at sg" "sg_updated_at (set_step i f sg) = sg_updated_at sg"
  "length (sg_steps (set_step i f sg)) = length (sg_steps sg)"
  "sg_steps (set_step i f sg) = (sg_steps sg)[i := f (sg_steps sg ! i)]"
  by (simp_all add: set_step_def)

lemma map_set_step:
  "g (f (xs ! i)) = g (xs ! i) \<Longrightarrow> map g (xs[i := f (xs ! i)]) = map g xs"
  by (cases "i < length xs") (auto intro!: nth_equalityI simp: nth_list_update)

lemma same_saga_set_step:
  "same_saga a sg \<Longrightarrow> (\<And>s. st_index (f s) = st_index s) \<Longrightarrow> (\<And>s. st_name (f s) = st_name s) \<Longrightarrow>
   same_saga a (set_step i f sg)"
  by (simp add: same_saga_def map_set_step)

section \<open>The invariant of a saga row\<close>

definition pending_compensation :: "saga_definition \<Rightarrow> saga \<Rightarrow> bool" where
  "pending_compensation d sg \<longleftrightarrow>
     (\<exists>ct p. sd_compensate_event_type (sd_steps d ! sg_current_step sg) = Some ct \<and>
             sd_build_compensate_command d (sg_current_step sg) (sg_context sg) = Inr (Some p))"

definition rollback_reported :: "saga \<Rightarrow> bool" where
  "rollback_reported sg \<longleftrightarrow>
     (\<exists>e. sg_error_detail sg = Some e \<and>
          (contains ''compensation failed: '' e \<or> contains ''compensation timed out'' e))"

abbreviation step_st :: "saga \<Rightarrow> nat \<Rightarrow> step_status" where
  "step_st sg i \<equiv> st_status (sg_steps sg ! i)"

definition in_flight :: "saga_definition \<Rightarrow> saga \<Rightarrow> bool" where
  "in_flight d sg \<longleftrightarrow>
     (\<forall>i < sg_current_step sg. step_st sg i = StepSucceeded) \<and>
     step_st sg (sg_current_step sg) = StepExecuting \<and>
     (\<forall>i < length (sd_steps d). sg_current_step sg < i \<longrightarrow> step_st sg i = StepPending)"

definition undone_from :: "saga_definition \<Rightarrow> nat \<Rightarrow> saga \<Rightarrow> bool" where
  "undone_from d k sg \<longleftrightarrow>
     (\<forall>i < k. step_st sg i = StepSucceeded) \<and>
     (\<forall>i < length (sd_steps d). k \<le> i \<longrightarrow> step_st sg i \<notin> {StepSucceeded, StepExecuting})"

definition nothing_to_undo :: "saga_definition \<Rightarrow> saga \<Rightarrow> bool" where
  "nothing_to_undo d sg \<longleftrightarrow>
     (\<forall>i < sg_current_step sg. sd_compensate_event_type (sd_steps d ! i) = None \<or>
        sd_build_compensate_command d i (sg_context sg) = Inr None)"

definition status_ok :: "saga_definition \<Rightarrow> saga \<Rightarrow> bool" where
  "status_ok d sg =
     (case sg_status sg of
        SagaStarted \<Rightarrow> in_flight d sg \<and> sg_completed_at sg = None
      | SagaCompensating \<Rightarrow> undone_from d (Suc (sg_current_step sg)) sg \<and> pending_compensation d sg \<and>
          sg_completed_at sg = None
      | SagaCompleted \<Rightarrow> (\<forall>i < length (sd_steps d). step_st sg i = StepSucceeded) \<and> sg_completed_at sg \<noteq> None
      | SagaFailed \<Rightarrow> sg_completed_at sg \<noteq> None \<and>
          (undone_from d 0 sg \<or> undone_from d (sg_current_step sg) sg \<and> rollback_reported sg)
      | SagaTimedOut \<Rightarrow> in_flight d sg \<and> nothing_to_undo d sg \<and> sg_completed_at sg \<noteq> None)"

definition saga_wf :: "saga_definition \<Rightarrow> saga \<Rightarrow> bool" where
  "saga_wf d sg \<longleftrightarrow> shape_ok d sg \<and> status_ok d sg"

text \<open>The outbox grows by commands of this saga, of the given event types.\<close>

definition emits :: "string \<Rightarrow> string list \<Rightarrow> dict outbox \<Rightarrow> dict outbox \<Rightarrow> bool" where
  "emits sid tys ob ob' \<longleftrightarrow>
     (\<exists>new. ob' = ob @ new \<and> map ob_event_type new = tys \<and> (\<forall>r \<in> set new. ob_aggregate_id r = sid))"

lemma emits_Nil [simp]: "emits sid [] ob ob"
  by (simp add: emits_def)

lemma emits_outbox_command: "emits (sg_id sg) [ty] ob (outbox_command now sg nm ty p ob)"
  by (simp add: emits_def outbox_command_def ob_add_def ob_build_def)

lemma emits_compensation: "emits (sg_id sg) [ct] ob (outbox_compensation_command now sg step ct p ob)"
  by (simp add: outbox_compensation_command_def emits_outbox_command)

lemma publish_step_command_Inr:
  "publish_step_command d now sg i ob = Inr ob' \<Longrightarrow>
   i < length (sd_steps d) \<and> emits (sg_id sg) [sd_command_event_type (sd_steps d ! i)] ob ob'"
  by (auto simp: publish_step_command_def result_simps emits_outbox_command)

lemma undone_from_mark:
  "undone_from d (Suc k) sg \<Longrightarrow> k < length (sd_steps d) \<Longrightarrow> length (sg_steps sg) = length (sd_steps d) \<Longrightarrow>
   st_status (f (sg_steps sg ! k)) \<notin> {StepSucceeded, StepExecuting} \<Longrightarrow> undone_from d k (set_step k f sg)"
  unfolding undone_from_def by (auto simp: nth_list_update Suc_le_eq)

text \<open>The commands \<open>_compensate_previous\<close> puts in the outbox: at most one, of a step before the current one.\<close>

definition comp_types :: "saga_definition \<Rightarrow> nat \<Rightarrow> string set" where
  "comp_types d j = {ct. \<exists>i < j. sd_compensate_event_type (sd_steps d ! i) = Some ct}"

lemma comp_types_mono: "i \<le> j \<Longrightarrow> comp_types d i \<subseteq> comp_types d j"
  unfolding comp_types_def using less_le_trans by blast

lemma compensate_from_ok:
  assumes "compensate_from d now k sg ob = Inr (sg', ob')"
    and "shape_ok d sg" and "k < length (sd_steps d)" and "undone_from d k sg" and "sg_status sg = SagaCompensating"
    and "sg_completed_at sg = None"
  shows "same_saga sg sg' \<and> shape_ok d sg' \<and> status_ok d sg' \<and> sg_error_detail sg' = sg_error_detail sg \<and>
    sg_context sg' = sg_context sg \<and> sg_updated_at sg' = sg_updated_at sg \<and>
    (sg_status sg' = SagaFailed \<and> undone_from d 0 sg' \<and> emits (sg_id sg) [] ob ob' \<or>
     sg_status sg' = SagaCompensating \<and> sg_current_step sg' < k \<and>
     (\<exists>ct \<in> comp_types d k. emits (sg_id sg) [ct] ob ob'))"
  using assms
proof (induction k arbitrary: sg)
  case 0
  then show ?case
    by (auto simp: same_saga_def shape_ok_def status_ok_def undone_from_def)
next
  case (Suc k)
  let ?sg = "sg\<lparr>sg_current_step := k\<rparr>"
  have len: "length (sg_steps sg) = length (sd_steps d)" using Suc.prems(2) by (rule shape_length)
  have k: "k < length (sd_steps d)" using Suc.prems(3) by simp
  have succ: "step_st sg k = StepSucceeded" using Suc.prems(4) by (simp add: undone_from_def)
  have same: "same_saga sg ?sg" by (simp add: same_saga_def)
  have shape: "shape_ok d ?sg" using Suc.prems(2) k by (simp add: shape_ok_def)
  have mono: "comp_types d k \<subseteq> comp_types d (Suc k)" by (rule comp_types_mono) simp
  let ?m = "mark_compensated now k ?sg"
  have same_m: "same_saga sg ?m" unfolding mark_compensated_def by (intro same_saga_set_step same) simp_all
  have shape_m: "shape_ok d ?m" using shape_ok_same [OF same_m Suc.prems(2)] k by (simp add: mark_compensated_def)
  have undone_m: "undone_from d k ?m" unfolding mark_compensated_def
    by (rule undone_from_mark) (use Suc.prems(4) k len in \<open>auto simp: undone_from_def\<close>)
  have step: ?case if "compensate_from d now k ?m ob = Inr (sg', ob')"
  proof -
    have m: "sg_status ?m = SagaCompensating" "sg_completed_at ?m = None" "sg_error_detail ?m = sg_error_detail sg"
      "sg_context ?m = sg_context sg" "sg_updated_at ?m = sg_updated_at sg" "sg_id ?m = sg_id sg"
      using Suc.prems(5,6) by (simp_all add: mark_compensated_def)
    show ?thesis
      using Suc.IH [OF that shape_m k undone_m m(1,2)] m(3-) same_saga_trans [OF same_m] mono by force
  qed
  show ?case
  proof (cases "sd_compensate_event_type (sd_steps d ! k)")
    case None
    then show ?thesis using Suc.prems(1) len k succ step by (simp add: Let_def)
  next
    case (Some ct)
    obtain p where p: "sd_build_compensate_command d k (sg_context sg) = Inr p"
      using Suc.prems(1) len k succ Some by (auto simp: Let_def result_simps)
    show ?thesis
    proof (cases p)
      case None
      then show ?thesis using Suc.prems(1) len k succ step Some p by (simp add: Let_def lift_py_def)
    next
      case (Some payload)
      have "sg' = ?sg" "ob' = outbox_compensation_command now ?sg (sg_steps sg ! k) ct payload ob"
        using Suc.prems(1) len k succ \<open>sd_compensate_event_type (sd_steps d ! k) = Some ct\<close> p Some
        by (auto simp: Let_def lift_py_def)
      moreover have "status_ok d ?sg"
        using Suc.prems(4-6) p Some \<open>sd_compensate_event_type (sd_steps d ! k) = Some ct\<close>
        by (simp add: status_ok_def undone_from_def pending_compensation_def)
      moreover have "ct \<in> comp_types d (Suc k)"
        using \<open>sd_compensate_event_type (sd_steps d ! k) = Some ct\<close> by (auto simp: comp_types_def)
      ultimately show ?thesis
        using same shape Suc.prems(5) emits_compensation [of ?sg ct ob now "sg_steps sg ! k" payload] by simp blast
    qed
  qed
qed

section \<open>One accepted event\<close>

text \<open>The event types of the commands the outbox holds for a saga, in the order they were added.\<close>

definition cmds :: "string \<Rightarrow> dict outbox \<Rightarrow> string list" where
  "cmds sid ob = map ob_event_type (filter (\<lambda>r. ob_aggregate_id r = sid) ob)"

abbreviation commands_upto :: "saga_definition \<Rightarrow> nat \<Rightarrow> string list" where
  "commands_upto d k \<equiv> map sd_command_event_type (take k (sd_steps d))"

definition rolled_back_with :: "saga_definition \<Rightarrow> nat \<Rightarrow> string list \<Rightarrow> bool" where
  "rolled_back_with d extra tys \<longleftrightarrow>
     (\<exists>j comps. extra \<le> j \<and> j < length (sd_steps d) \<and> tys = commands_upto d (Suc j) @ comps \<and>
        set comps \<subseteq> comp_types d j \<and> length comps + extra \<le> Suc j)"

definition emitted_ok :: "saga_definition \<Rightarrow> saga \<Rightarrow> dict outbox \<Rightarrow> bool" where
  "emitted_ok d sg ob =
     (case sg_status sg of
        SagaStarted \<Rightarrow> cmds (sg_id sg) ob = commands_upto d (Suc (sg_current_step sg))
      | SagaTimedOut \<Rightarrow> cmds (sg_id sg) ob = commands_upto d (Suc (sg_current_step sg))
      | SagaCompleted \<Rightarrow> cmds (sg_id sg) ob = commands_upto d (length (sd_steps d))
      | SagaCompensating \<Rightarrow>
          rolled_back_with d (sg_current_step sg + (if already_reemitted sg then 0 else 1)) (cmds (sg_id sg) ob)
      | SagaFailed \<Rightarrow> rolled_back_with d 0 (cmds (sg_id sg) ob))"

text \<open>How many more events a saga can accept.\<close>

definition saga_fuel :: "saga_definition \<Rightarrow> saga \<Rightarrow> nat" where
  "saga_fuel d sg =
     (case sg_status sg of
        SagaStarted \<Rightarrow> 2 * length (sd_steps d) + 2 + (length (sd_steps d) - sg_current_step sg)
      | SagaCompensating \<Rightarrow> 2 * sg_current_step sg + (if already_reemitted sg then 1 else 2)
      | _ \<Rightarrow> 0)"

definition saga_trans :: "saga_definition \<Rightarrow> saga \<Rightarrow> dict outbox \<Rightarrow> saga \<Rightarrow> dict outbox \<Rightarrow> bool" where
  "saga_trans d sg ob sg' ob' \<longleftrightarrow>
     same_saga sg sg' \<and> saga_wf d sg' \<and> (\<exists>tys. emits (sg_id sg) tys ob ob') \<and>
     (emitted_ok d sg ob \<longrightarrow> emitted_ok d sg' ob') \<and> saga_fuel d sg' < saga_fuel d sg \<and>
     (sg_context sg' = sg_context sg \<or> (\<exists>i res. sd_on_reply d i (sg_context sg) res = Inr (sg_context sg')))"

lemmas wf_defs = saga_wf_def shape_ok_def status_ok_def in_flight_def undone_from_def pending_compensation_def
  nothing_to_undo_def rollback_reported_def

lemma cmds_emits: "emits sid tys ob ob' \<Longrightarrow> cmds sid ob' = cmds sid ob @ tys"
  by (auto simp: emits_def cmds_def)

lemma cmds_emits_other: "emits sid tys ob ob' \<Longrightarrow> sid' \<noteq> sid \<Longrightarrow> cmds sid' ob' = cmds sid' ob"
  by (auto simp: emits_def cmds_def filter_empty_conv)

lemma rolled_back_more:
  assumes "rolled_back_with d e tys" and "e' < e" and "c \<in> comp_types d e"
  shows "rolled_back_with d e' (tys @ [c])"
proof -
  obtain j comps where j: "e \<le> j" "j < length (sd_steps d)" "tys = commands_upto d (Suc j) @ comps"
    "set comps \<subseteq> comp_types d j" "length comps + e \<le> Suc j"
    using assms(1) by (auto simp: rolled_back_with_def)
  then have "set (comps @ [c]) \<subseteq> comp_types d j" "tys @ [c] = commands_upto d (Suc j) @ (comps @ [c])"
    "length (comps @ [c]) + e' \<le> Suc j"
    using assms(2,3) comp_types_mono [OF j(1)] by auto
  then show ?thesis unfolding rolled_back_with_def using assms(2) j(1,2) by (metis less_or_eq_imp_le order_trans)
qed

lemma rolled_back_weaken: "rolled_back_with d e tys \<Longrightarrow> e' \<le> e \<Longrightarrow> rolled_back_with d e' tys"
  unfolding rolled_back_with_def by (metis add_left_mono order_trans)

lemma rolled_back_start:
  "k < length (sd_steps d) \<Longrightarrow> rolled_back_with d 0 (commands_upto d (Suc k))"
  "k < length (sd_steps d) \<Longrightarrow> e \<le> k \<Longrightarrow> c \<in> comp_types d k \<Longrightarrow>
     rolled_back_with d e (commands_upto d (Suc k) @ [c])"
  unfolding rolled_back_with_def by fastforce+

lemma wf_updated_at: "saga_wf d (sg\<lparr>sg_updated_at := t\<rparr>) = saga_wf d sg"
  by (simp add: wf_defs split: saga_status.splits)

lemma trans_updated_at: "saga_trans d sg ob sg' ob' \<Longrightarrow> saga_trans d sg ob (sg'\<lparr>sg_updated_at := t\<rparr>) ob'"
  by (auto simp: saga_trans_def wf_updated_at same_saga_def emitted_ok_def saga_fuel_def already_reemitted_def
      split: saga_status.splits)

text \<open>The current step failed, or its execution went stale: compensation of the earlier steps begins.\<close>

lemma begin_compensation_trans:
  assumes bc: "begin_compensation d now err sg ob = Inr (sg', ob')"
    and wf: "saga_wf d sg" and st: "sg_status sg = SagaStarted"
  shows "saga_trans d sg ob sg' ob'"
proof -
  let ?k = "sg_current_step sg"
  let ?f = "\<lambda>s. s\<lparr>st_status := StepFailed, st_error_detail := err\<rparr>"
  let ?sg = "(set_step ?k ?f sg)\<lparr>sg_status := SagaCompensating, sg_error_detail := err\<rparr>"
  have shape: "shape_ok d sg" and fl: "in_flight d sg" and comp: "sg_completed_at sg = None"
    using wf st by (simp_all add: saga_wf_def status_ok_def)
  have k: "?k < length (sd_steps d)" and len: "length (sg_steps sg) = length (sd_steps d)"
    using shape shape_length by (auto simp: shape_ok_def)
  have cf: "compensate_from d now ?k ?sg ob = Inr (sg', ob')"
    using bc k len by (simp add: begin_compensation_def compensate_previous_def Let_def)
  have same: "same_saga sg ?sg"
    using same_saga_set_step [OF same_saga_refl, of ?f sg ?k] by (simp add: same_saga_def)
  then have shape': "shape_ok d ?sg" using shape_ok_same [OF same shape] k by simp
  have undone: "undone_from d ?k ?sg"
    using fl k len by (auto simp: in_flight_def undone_from_def nth_list_update)
  have "sg_status ?sg = SagaCompensating" and "sg_completed_at ?sg = None" using comp by simp_all
  note res = compensate_from_ok [OF cf shape' k undone this]
  have em: "emitted_ok d sg' ob'" if "emitted_ok d sg ob"
  proof -
    have c: "cmds (sg_id sg) ob = commands_upto d (Suc ?k)" using that st by (simp add: emitted_ok_def)
    have i: "sg_id sg' = sg_id sg" "sg_id ?sg = sg_id sg" using res same by (simp_all add: same_saga_def)
    show ?thesis
      using res c i rolled_back_start [OF k] by (auto simp: emitted_ok_def cmds_emits)
  qed
  have fuel: "saga_fuel d sg' < saga_fuel d sg"
    using res k st comp by (auto simp: saga_fuel_def)
  show ?thesis
    using res em fuel same comp same_saga_trans [OF same] by (auto simp: saga_trans_def saga_wf_def)
qed

lemma advance_trans:
  assumes ad: "advance d now res sg ob = Inr (sg', ob')"
    and wf: "saga_wf d sg" and st: "sg_status sg = SagaStarted"
  shows "saga_trans d sg ob sg' ob'"
proof -
  let ?k = "sg_current_step sg"
  have shape: "shape_ok d sg" and fl: "in_flight d sg" and comp: "sg_completed_at sg = None"
    using wf st by (simp_all add: saga_wf_def status_ok_def)
  have k: "?k < length (sd_steps d)" and len: "length (sg_steps sg) = length (sd_steps d)"
    using shape shape_length by (auto simp: shape_ok_def)
  let ?sg1 = "set_step ?k (\<lambda>s. s\<lparr>st_status := StepSucceeded\<rparr>) sg"
  have same1: "same_saga sg ?sg1" by (rule same_saga_set_step) simp_all
  obtain ctx where ctx: "sd_on_reply d ?k (sg_context sg) res = Inr ctx"
    using ad k len by (auto simp: advance_def Let_def result_simps)
  show ?thesis
  proof (cases "Suc ?k = length (sd_steps d)")
    case True
    then have eq: "sg' = ?sg1\<lparr>sg_context := ctx, sg_status := SagaCompleted, sg_completed_at := Some now\<rparr>" "ob' = ob"
      using ad k len ctx by (auto simp: advance_def Let_def lift_py_def is_last_step_def)
    have "same_saga sg sg'" using same1 by (simp add: eq same_saga_def)
    moreover have "saga_wf d sg'"
      using shape_ok_same [OF \<open>same_saga sg sg'\<close> shape] k True fl len
      by (auto simp: eq saga_wf_def status_ok_def in_flight_def nth_list_update less_Suc_eq)
    moreover have "emitted_ok d sg ob \<longrightarrow> emitted_ok d sg' ob'"
      using st True by (simp add: eq emitted_ok_def)
    moreover have "saga_fuel d sg' < saga_fuel d sg" using st by (simp add: eq saga_fuel_def)
    moreover have "emits (sg_id sg) [] ob ob'" by (simp add: eq)
    moreover have "sg_context sg' = ctx" by (simp add: eq)
    ultimately show ?thesis unfolding saga_trans_def using ctx by blast
  next
    case False
    then have k': "Suc ?k < length (sd_steps d)" using k by simp
    let ?sg2 = "?sg1\<lparr>sg_context := ctx, sg_current_step := Suc ?k\<rparr>"
    let ?sg3 = "set_step (Suc ?k) (\<lambda>s. s\<lparr>st_status := StepExecuting, st_command_sent_at := Some now\<rparr>) ?sg2"
    have eq: "sg' = ?sg3" and pub: "publish_step_command d now ?sg3 (Suc ?k) ob = Inr ob'"
      using ad k k' len ctx by (auto simp: advance_def Let_def lift_py_def is_last_step_def result_simps)
    have em: "emits (sg_id sg) [sd_command_event_type (sd_steps d ! Suc ?k)] ob ob'"
      using publish_step_command_Inr [OF pub] by simp
    have "same_saga sg ?sg2" using same1 by (simp add: same_saga_def)
    then have same: "same_saga sg sg'" unfolding eq by (rule same_saga_set_step) simp_all
    moreover have "saga_wf d sg'"
      using shape_ok_same [OF same shape] k' k fl len st comp
      by (auto simp: eq saga_wf_def status_ok_def in_flight_def nth_list_update less_Suc_eq)
    moreover have "emitted_ok d sg ob \<longrightarrow> emitted_ok d sg' ob'"
      using st k' cmds_emits [OF em] by (simp add: eq emitted_ok_def take_Suc_conv_app_nth)
    moreover have "saga_fuel d sg' < saga_fuel d sg" using st k' by (simp add: eq saga_fuel_def)
    moreover have "sg_context sg' = ctx" by (simp add: eq)
    ultimately show ?thesis unfolding saga_trans_def using em ctx by blast
  qed
qed

text \<open>Time stamps do not matter to the invariant.\<close>

definition touched :: "saga \<Rightarrow> saga \<Rightarrow> bool" where
  "touched sg sg' \<longleftrightarrow>
     same_saga sg sg' \<and> sg_current_step sg' = sg_current_step sg \<and> sg_status sg' = sg_status sg \<and>
     sg_context sg' = sg_context sg \<and> sg_error_detail sg' = sg_error_detail sg \<and>
     sg_completed_at sg' = sg_completed_at sg \<and> map st_status (sg_steps sg') = map st_status (sg_steps sg)"

lemma touched_wf:
  assumes t: "touched sg sg'" and wf: "saga_wf d sg"
  shows "saga_wf d sg'"
proof -
  have shape: "shape_ok d sg" and stat: "status_ok d sg" using wf by (simp_all add: saga_wf_def)
  have same: "same_saga sg sg'" using t by (simp add: touched_def)
  have n: "sg_current_step sg' < length (sd_steps d)" using t shape by (simp add: touched_def shape_ok_def)
  have shape': "shape_ok d sg'" by (rule shape_ok_same [OF same shape n])
  have st: "step_st sg' i = step_st sg i" if "i < length (sd_steps d)" for i
    using t that shape_length [OF shape] shape_length [OF shape'] unfolding touched_def by (metis nth_map)
  have "in_flight d sg' = in_flight d sg" and "nothing_to_undo d sg' = nothing_to_undo d sg"
    and "pending_compensation d sg' = pending_compensation d sg" and "rollback_reported sg' = rollback_reported sg"
    and "undone_from d k sg' = undone_from d k sg" if "k \<le> length (sd_steps d)" for k
    using t st n that
    by (auto simp: touched_def in_flight_def nothing_to_undo_def pending_compensation_def rollback_reported_def undone_from_def)
  note this(1-4) [of 0, simplified] this(5)
  then have "status_ok d sg'"
    using stat t st n by (auto simp: status_ok_def touched_def Suc_le_eq split: saga_status.splits)
  then show ?thesis using shape' by (simp add: saga_wf_def)
qed

lemma touched_trans:
  assumes "touched sg sg1" and "saga_trans d sg1 ob sg' ob'"
  shows "saga_trans d sg ob sg' ob'"
proof -
  have same: "same_saga sg sg1" and id: "sg_id sg1 = sg_id sg" using assms(1) by (auto simp: touched_def same_saga_def)
  have "emitted_ok d sg1 ob = emitted_ok d sg ob" "saga_fuel d sg1 = saga_fuel d sg"
    using assms(1) id
    by (simp_all add: touched_def emitted_ok_def saga_fuel_def already_reemitted_def split: saga_status.splits)
  then show ?thesis
    using assms id same_saga_trans [OF same] by (auto simp: saga_trans_def touched_def)
qed

lemma touched_reply:
  "touched sg ((set_step i (\<lambda>s. s\<lparr>st_reply_received_at := t\<rparr>) sg)\<lparr>sg_updated_at := u\<rparr>)"
  "touched sg (sg\<lparr>sg_updated_at := u\<rparr>)"
  using same_saga_set_step [OF same_saga_refl, of "\<lambda>s. s\<lparr>st_reply_received_at := t\<rparr>" sg i]
  by (simp_all add: touched_def same_saga_def map_set_step)

section \<open>Compensation replies and timeouts\<close>

lemma compensating_facts:
  assumes "saga_wf d sg" and "sg_status sg = SagaCompensating"
  shows "shape_ok d sg" "undone_from d (Suc (sg_current_step sg)) sg" "pending_compensation d sg"
    "sg_completed_at sg = None" "sg_current_step sg < length (sd_steps d)" "length (sg_steps sg) = length (sd_steps d)"
    "sg_current_step sg < length (sg_steps sg)"
  using assms shape_length [of d sg] by (auto simp: saga_wf_def status_ok_def shape_ok_def)

lemma compensated_trans:
  assumes cp: "compensate_previous d now (set_step (sg_current_step sg)
        (\<lambda>s. s\<lparr>st_compensated_at := t, st_status := StepCompensated\<rparr>) sg) ob = Inr (sg', ob')"
    and wf: "saga_wf d sg" and st: "sg_status sg = SagaCompensating"
  shows "saga_trans d sg ob sg' ob'"
proof -
  note cf = compensating_facts [OF wf st]
  let ?k = "sg_current_step sg"
  let ?f = "\<lambda>s. s\<lparr>st_compensated_at := t, st_status := StepCompensated\<rparr>"
  let ?sg = "set_step ?k ?f sg"
  have same: "same_saga sg ?sg" by (rule same_saga_set_step) simp_all
  have shape: "shape_ok d ?sg" using shape_ok_same [OF same cf(1)] cf(5) by simp
  have undone: "undone_from d ?k ?sg" by (rule undone_from_mark) (use cf in simp_all)
  have cfr: "compensate_from d now ?k ?sg ob = Inr (sg', ob')" using cp by (simp add: compensate_previous_def)
  have "sg_status ?sg = SagaCompensating" "sg_completed_at ?sg = None" using st cf by simp_all
  note res = compensate_from_ok [OF cfr shape cf(5) undone this]
  have err: "already_reemitted sg' = already_reemitted sg" using res by (simp add: already_reemitted_def)
  have "emitted_ok d sg' ob'" if "emitted_ok d sg ob"
  proof -
    let ?e = "?k + (if already_reemitted sg then 0 else 1)"
    have c: "rolled_back_with d ?e (cmds (sg_id sg) ob)" using that st by (simp add: emitted_ok_def)
    have i: "sg_id sg' = sg_id sg" using res by (simp add: same_saga_def)
    have mono: "comp_types d ?k \<subseteq> comp_types d ?e" by (rule comp_types_mono) simp
    show ?thesis
      using res i err mono rolled_back_more [OF c] rolled_back_weaken [OF c, of 0]
      by (auto simp: emitted_ok_def cmds_emits)
  qed
  moreover have "saga_fuel d sg' < saga_fuel d sg" using res st err by (auto simp: saga_fuel_def)
  ultimately show ?thesis
    using res same_saga_trans [OF same] by (auto simp: saga_trans_def saga_wf_def)
qed

text \<open>The current compensation is given up: its step and the saga are failed, and the detail says so.\<close>

lemma compensation_given_up_trans:
  assumes wf: "saga_wf d sg" and st: "sg_status sg = SagaCompensating"
    and sg': "sg' = (set_step (sg_current_step sg) f sg)
       \<lparr>sg_status := SagaFailed, sg_error_detail := Some e, sg_completed_at := Some now\<rparr>"
    and f: "\<And>s. st_index (f s) = st_index s" "\<And>s. st_name (f s) = st_name s" "\<And>s. st_status (f s) = StepFailed"
    and e: "contains ''compensation failed: '' e \<or> contains ''compensation timed out'' e"
  shows "saga_trans d sg ob sg' ob"
proof -
  note cf = compensating_facts [OF wf st]
  have "same_saga sg (set_step (sg_current_step sg) f sg)" by (rule same_saga_set_step) (simp_all add: f)
  then have same: "same_saga sg sg'" by (simp add: sg' same_saga_def)
  have shape: "shape_ok d sg'" using shape_ok_same [OF same cf(1)] cf(5) by (simp add: sg')
  have "undone_from d (sg_current_step sg) (set_step (sg_current_step sg) f sg)"
    by (rule undone_from_mark) (use cf f in simp_all)
  then have "status_ok d sg'" using e by (auto simp: sg' status_ok_def undone_from_def rollback_reported_def)
  moreover have "emitted_ok d sg ob \<longrightarrow> emitted_ok d sg' ob"
    using st by (auto simp: emitted_ok_def sg' intro: rolled_back_weaken)
  moreover have "saga_fuel d sg' < saga_fuel d sg" using st by (simp add: saga_fuel_def sg')
  ultimately show ?thesis using same shape by (auto simp: saga_trans_def saga_wf_def sg' intro: emits_Nil)
qed

lemma has_compensatable_work_False:
  "has_compensatable_work d ctx steps = Inr False \<Longrightarrow> s \<in> set steps \<Longrightarrow> st_status s = StepSucceeded \<Longrightarrow>
   sd_compensate_event_type (sd_steps d ! st_index s) = None \<or>
   sd_build_compensate_command d (st_index s) ctx = Inr None"
  by (induction steps) (auto simp: result_simps split: if_splits)

lemma stale_execution_trans:
  assumes h: "handle_stale_execution d now max_age sg ob = Inr (sg', ob')"
    and wf: "saga_wf d sg" and st: "sg_status sg = SagaStarted"
  shows "saga_trans d sg ob sg' ob'"
proof -
  obtain work where w: "has_compensatable_work d (sg_context sg) (sg_steps sg) = Inr work"
    using h by (auto simp: handle_stale_execution_def result_simps)
  show ?thesis
  proof (cases work)
    case True
    then show ?thesis
      using h w begin_compensation_trans [OF _ wf st] by (simp add: handle_stale_execution_def)
  next
    case False
    have shape: "shape_ok d sg" and fl: "in_flight d sg" using wf st by (simp_all add: saga_wf_def status_ok_def)
    have nth: "sg_steps sg ! i \<in> set (sg_steps sg)" "st_index (sg_steps sg ! i) = i"
      if "i < sg_current_step sg" for i
      using that shape shape_index [OF shape] shape_length [OF shape] by (auto simp: shape_ok_def)
    have "nothing_to_undo d sg" unfolding nothing_to_undo_def
    proof (intro allI impI)
      fix i assume i: "i < sg_current_step sg"
      show "sd_compensate_event_type (sd_steps d ! i) = None \<or> sd_build_compensate_command d i (sg_context sg) = Inr None"
        using has_compensatable_work_False [of d "sg_context sg" "sg_steps sg" "sg_steps sg ! i"]
          w False nth [OF i] i fl by (simp add: in_flight_def)
    qed
    then show ?thesis
      using h w False shape fl st
      by (auto simp: handle_stale_execution_def saga_trans_def same_saga_def wf_defs emitted_ok_def
          saga_fuel_def intro: emits_Nil)
  qed
qed

lemma join_detail_suffix: "\<exists>pre. join_detail e msg = pre @ msg"
proof (cases "e = None \<or> e = Some []")
  case True
  then show ?thesis by (auto simp: join_detail_def)
next
  case False
  then obtain x where "e = Some x" "x \<noteq> []" by auto
  then have "join_detail e msg = (x @ ''; '') @ msg" by (simp add: join_detail_def)
  then show ?thesis by blast
qed

lemma contains_join: "contains s msg \<Longrightarrow> contains s (join_detail e msg)"
  using join_detail_suffix [of e msg] contains_appendI(1) by metis

lemma already_reemitted_iff:
  "already_reemitted sg \<longleftrightarrow> (\<exists>e. sg_error_detail sg = Some e \<and> contains COMPENSATION_REEMIT_MARKER e)"
  unfolding already_reemitted_def by (auto simp: COMPENSATION_REEMIT_MARKER_def split: option.splits)

lemma already_reemitted_join:
  "already_reemitted (sg\<lparr>sg_error_detail := Some (join_detail e (COMPENSATION_REEMIT_MARKER @ msg))\<rparr>)"
  unfolding already_reemitted_iff by (auto intro!: contains_join contains_appendI(2))

lemma stale_compensation_trans:
  assumes h: "handle_stale_compensation d now max_age sg ob = Inr (sg', ob')"
    and wf: "saga_wf d sg" and st: "sg_status sg = SagaCompensating"
  shows "saga_trans d sg ob sg' ob'"
proof -
  note cf = compensating_facts [OF wf st]
  let ?k = "sg_current_step sg"
  obtain ct p where cp: "sd_compensate_event_type (sd_steps d ! ?k) = Some ct"
    "sd_build_compensate_command d ?k (sg_context sg) = Inr (Some p)"
    using cf(3) by (auto simp: pending_compensation_def)
  show ?thesis
  proof (cases "already_reemitted sg")
    case True
    then have eq: "sg' = compensation_timed_out now sg" "ob' = ob"
      using h cp cf by (auto simp: handle_stale_compensation_def current_step_obj_def lift_py_def)
    show ?thesis unfolding eq
      by (rule compensation_given_up_trans [OF wf st, where
            f = "\<lambda>s. s\<lparr>st_status := StepFailed, st_error_detail := Some ''compensation timed out''\<rparr>" and
            e = "join_detail (sg_error_detail sg) ''compensation timed out''"])
        (use cf in \<open>auto simp: compensation_timed_out_def current_step_obj_def Let_def contains_join\<close>)
  next
    case False
    let ?e = "Some (join_detail (sg_error_detail sg)
                      (COMPENSATION_REEMIT_MARKER @ '' after '' @ show_total_seconds max_age @ ''s''))"
    have eq: "sg' = sg\<lparr>sg_error_detail := ?e\<rparr>"
      and ob: "ob' = outbox_compensation_command now sg (sg_steps sg ! ?k) ct p ob"
      using h cp cf False by (auto simp: handle_stale_compensation_def current_step_obj_def lift_py_def)
    have em: "emits (sg_id sg) [ct] ob ob'" unfolding ob by (rule emits_compensation)
    have re: "already_reemitted sg'" unfolding eq by (rule already_reemitted_join)
    have "saga_wf d sg'" using cf st by (simp add: eq saga_wf_def status_ok_def shape_ok_def undone_from_def
          pending_compensation_def)
    moreover have "emitted_ok d sg' ob'" if "emitted_ok d sg ob"
    proof -
      have "rolled_back_with d (?k + 1) (cmds (sg_id sg) ob)" using that st False by (simp add: emitted_ok_def)
      then have "rolled_back_with d ?k (cmds (sg_id sg) ob @ [ct])"
        by (rule rolled_back_more) (use cp in \<open>auto simp: comp_types_def\<close>)
      then show ?thesis using st re cmds_emits [OF em] by (simp add: eq emitted_ok_def)
    qed
    moreover have "saga_fuel d sg' < saga_fuel d sg" using st re False by (simp add: eq saga_fuel_def)
    ultimately show ?thesis using em by (auto simp: saga_trans_def eq same_saga_def)
  qed
qed

section \<open>The database\<close>

definition db_ok :: "registry \<Rightarrow> saga_db \<Rightarrow> bool" where
  "db_ok reg db \<longleftrightarrow>
     distinct (map sg_id (db_sagas db)) \<and>
     (\<forall>sg \<in> set (db_sagas db). \<exists>d. reg (sg_type sg) = Some d \<and> saga_wf d sg \<and> emitted_ok d sg (db_outbox db)) \<and>
     (\<forall>r \<in> set (db_outbox db). ob_aggregate_id r \<in> sg_id ` set (db_sagas db))"

text \<open>An event accepted by one saga: its row is replaced, every other row stays.\<close>

definition accepted :: "registry \<Rightarrow> saga \<Rightarrow> saga \<Rightarrow> saga_db \<Rightarrow> saga_db \<Rightarrow> bool" where
  "accepted reg sg sg' db db' \<longleftrightarrow>
     sg \<in> set (db_sagas db) \<and>
     (\<exists>d. reg (sg_type sg) = Some d \<and> saga_trans d sg (db_outbox db) sg' (db_outbox db')) \<and>
     db_sagas db' = update_where (\<lambda>x. sg_id x = sg_id sg) (\<lambda>_. sg') (db_sagas db)"

lemma db_okD:
  assumes "db_ok reg db" and "sg \<in> set (db_sagas db)" and "reg (sg_type sg) = Some d"
  shows "saga_wf d sg" "shape_ok d sg" "emitted_ok d sg (db_outbox db)"
  using assms by (auto simp: db_ok_def saga_wf_def)

lemma db_ok_get:
  assumes "db_ok reg db" and "repo_get_by_id sid (db_sagas db) = Some sg"
  shows "sg \<in> set (db_sagas db) \<and> sg_id sg = sid \<and> (\<exists>d. reg (sg_type sg) = Some d)"
proof -
  obtain r where r: "r \<in> set (db_sagas db)" "sg_id r = sid" "sg = to_entity r"
    using assms(2) by (auto simp: repo_get_by_id_def dest: find_Some_mem)
  then obtain d where d: "reg (sg_type r) = Some d" using assms(1) by (auto simp: db_ok_def)
  then show ?thesis using r to_entity_id [OF db_okD(2) [OF assms(1) r(1) d]] by auto
qed

lemma acceptedI:
  assumes ok: "db_ok reg db" and sg: "sg \<in> set (db_sagas db)" and d: "reg (sg_type sg) = Some d"
    and tr: "saga_trans d sg (db_outbox db) sg' ob'"
  shows "accepted reg sg sg' db \<lparr>db_sagas = repo_update sg' (db_sagas db), db_outbox = ob'\<rparr>"
proof -
  have same: "same_saga sg sg'" using tr by (simp add: saga_trans_def)
  have "repo_update sg' (db_sagas db) = update_where (\<lambda>x. sg_id x = sg_id sg') (\<lambda>_. sg') (db_sagas db)"
    by (rule repo_update_eq [OF _ sg db_okD(2) [OF ok sg d] same]) (use ok in \<open>simp add: db_ok_def\<close>)
  then show ?thesis using sg d tr same by (auto simp: accepted_def same_saga_def)
qed

lemma accepted_mem:
  assumes "accepted reg sg sg' db db'" and "distinct (map sg_id (db_sagas db))"
  shows "x \<in> set (db_sagas db') \<longleftrightarrow> x = sg' \<or> (x \<in> set (db_sagas db) \<and> sg_id x \<noteq> sg_id sg)"
  using assms update_where_key_mem [of sg_id "db_sagas db" sg] by (simp add: accepted_def)

lemma accepted_ids: "accepted reg sg sg' db db' \<Longrightarrow> map sg_id (db_sagas db') = map sg_id (db_sagas db)"
  by (auto simp: accepted_def saga_trans_def same_saga_def intro!: map_update_where)

lemma accepted_db_ok:
  assumes ok: "db_ok reg db" and ac: "accepted reg sg sg' db db'"
  shows "db_ok reg db'"
proof -
  obtain d where d: "reg (sg_type sg) = Some d" "saga_trans d sg (db_outbox db) sg' (db_outbox db')"
    and sg: "sg \<in> set (db_sagas db)" using ac by (auto simp: accepted_def)
  then obtain tys where tys: "emits (sg_id sg) tys (db_outbox db) (db_outbox db')"
    and same: "same_saga sg sg'" and wf: "saga_wf d sg'"
    and em: "emitted_ok d sg (db_outbox db) \<longrightarrow> emitted_ok d sg' (db_outbox db')"
    by (auto simp: saga_trans_def)
  have dist: "distinct (map sg_id (db_sagas db))" using ok by (simp add: db_ok_def)
  have others: "emitted_ok dx x (db_outbox db')"
    if "emitted_ok dx x (db_outbox db)" "sg_id x \<noteq> sg_id sg" for dx x
    using that(1) unfolding emitted_ok_def cmds_emits_other [OF tys that(2)] .
  have ids: "sg_id ` set (db_sagas db') = sg_id ` set (db_sagas db)"
    using accepted_ids [OF ac] by (metis list.set_map)
  have rows: "\<exists>d. reg (sg_type x) = Some d \<and> saga_wf d x \<and> emitted_ok d x (db_outbox db')"
    if "x \<in> set (db_sagas db')" for x
    using that accepted_mem [OF ac dist] ok others d(1) wf em db_okD(3) [OF ok sg d(1)] same
    by (auto simp: db_ok_def same_saga_def)
  have "\<forall>r \<in> set (db_outbox db'). ob_aggregate_id r \<in> sg_id ` set (db_sagas db)"
    using ok tys sg by (auto simp: db_ok_def emits_def)
  then show ?thesis using rows ids dist accepted_ids [OF ac] by (simp add: db_ok_def)
qed

section \<open>The handlers accept at most one event\<close>

lemma check_current_step_Inr:
  "check_current_step sid nm sg = Inr s \<Longrightarrow> current_step_obj sg = Some s \<and> st_name s = nm"
  by (auto simp: check_current_step_def split: option.splits if_splits)

lemma handle_reply_accepted:
  assumes ok: "db_ok reg db"
    and h: "handle_reply reg now sid nm success res err db = Inr (sg', db')"
  shows "\<exists>sg. accepted reg sg sg' db db' \<and> sg_id sg = sid \<and> sg_status sg = SagaStarted \<and>
    (\<exists>s. current_step_obj sg = Some s \<and> st_name s = nm)"
proof -
  obtain sg where get: "repo_get_by_id sid (db_sagas db) = Some sg" and st: "sg_status sg = SagaStarted"
    using h by (auto simp: handle_reply_def result_simps)
  obtain d where d: "reg (sg_type sg) = Some d" and sg: "sg \<in> set (db_sagas db)" "sg_id sg = sid"
    using db_ok_get [OF ok get] by auto
  let ?sg1 = "(set_step (sg_current_step sg) (\<lambda>s. s\<lparr>st_reply_received_at := Some now\<rparr>) sg)\<lparr>sg_updated_at := Some now\<rparr>"
  obtain s ob where s: "check_current_step sid nm sg = Inr s"
    and r: "(if success then advance d now res ?sg1 (db_outbox db)
             else begin_compensation d now err ?sg1 (db_outbox db)) = Inr (sg', ob)"
    and db': "db' = \<lparr>db_sagas = repo_update sg' (db_sagas db), db_outbox = ob\<rparr>"
    using h get st d by (auto simp: handle_reply_def registry_get_def result_simps Let_def)
  have t: "touched sg ?sg1" by (rule touched_reply)
  have wf: "saga_wf d ?sg1" by (rule touched_wf [OF t db_okD(1) [OF ok sg(1) d]])
  have "saga_trans d ?sg1 (db_outbox db) sg' ob"
    using r wf st advance_trans [of d now res ?sg1] begin_compensation_trans [of d now err ?sg1]
    by (auto split: if_splits)
  then have "accepted reg sg sg' db db'"
    unfolding db' by (intro acceptedI [OF ok sg(1) d] touched_trans [OF t])
  then show ?thesis using sg(2) st check_current_step_Inr [OF s] by blast
qed

lemma handle_compensation_reply_accepted:
  assumes ok: "db_ok reg db"
    and h: "handle_compensation_reply reg now sid nm success err db = Inr (sg', db')"
  shows "\<exists>sg. accepted reg sg sg' db db' \<and> sg_id sg = sid \<and> sg_status sg = SagaCompensating \<and>
    (\<exists>s. current_step_obj sg = Some s \<and> st_name s = nm)"
proof -
  obtain sg where get: "repo_get_by_id sid (db_sagas db) = Some sg" and st: "sg_status sg = SagaCompensating"
    using h by (auto simp: handle_compensation_reply_def result_simps)
  obtain d where d: "reg (sg_type sg) = Some d" and sg: "sg \<in> set (db_sagas db)" "sg_id sg = sid"
    using db_ok_get [OF ok get] by auto
  let ?sg1 = "sg\<lparr>sg_updated_at := Some now\<rparr>"
  have t: "touched sg ?sg1" by (rule touched_reply)
  have wf: "saga_wf d ?sg1" by (rule touched_wf [OF t db_okD(1) [OF ok sg(1) d]])
  obtain s ob where s: "check_current_step sid nm sg = Inr s"
    and r: "(if success then compensate_previous d now (set_step (sg_current_step ?sg1)
               (\<lambda>s. s\<lparr>st_compensated_at := Some now, st_status := StepCompensated\<rparr>) ?sg1) (db_outbox db)
             else Inr ((set_step (sg_current_step ?sg1)
                      (\<lambda>s. s\<lparr>st_status := StepFailed, st_error_detail := err\<rparr>) ?sg1)
                     \<lparr>sg_status := SagaFailed, sg_error_detail := Some (compensation_failed_detail nm err),
                      sg_completed_at := Some now\<rparr>, db_outbox db)) = Inr (sg', ob)"
    and db': "db' = \<lparr>db_sagas = repo_update sg' (db_sagas db), db_outbox = ob\<rparr>"
    using h get st d by (auto simp: handle_compensation_reply_def registry_get_def result_simps Let_def)
  have "contains ''compensation failed: '' (compensation_failed_detail nm err)"
    unfolding compensation_failed_detail_def by (rule contains_appendI(2)) simp
  then have failed: "saga_trans d ?sg1 (db_outbox db) ((set_step (sg_current_step ?sg1)
                      (\<lambda>s. s\<lparr>st_status := StepFailed, st_error_detail := err\<rparr>) ?sg1)
                     \<lparr>sg_status := SagaFailed, sg_error_detail := Some (compensation_failed_detail nm err),
                      sg_completed_at := Some now\<rparr>) (db_outbox db)"
    by (intro compensation_given_up_trans [OF wf _ refl]) (use st in simp_all)
  have "saga_trans d ?sg1 (db_outbox db) sg' ob"
  proof (cases success)
    case True
    show ?thesis by (rule compensated_trans [OF _ wf]) (use r True st in auto)
  next
    case False
    then show ?thesis using failed r by auto
  qed
  then have "accepted reg sg sg' db db'"
    unfolding db' by (intro acceptedI [OF ok sg(1) d] touched_trans [OF t])
  then show ?thesis using sg(2) st check_current_step_Inr [OF s] by blast
qed

lemma timeout_one_accepted:
  assumes ok: "db_ok reg db" and h: "timeout_one reg now max_age sid db = Inr (r, db')"
  shows "r = None \<and> db' = db \<or>
    (\<exists>sg sg'. r = Some sg' \<and> accepted reg sg sg' db db' \<and> sg_id sg = sid \<and> is_active sg \<and>
       is_stale sg (now - usec max_age))"
proof (cases "r = None")
  case True
  then show ?thesis using h by (auto simp: timeout_one_def result_simps Let_def split: option.splits if_splits)
next
  case False
  obtain sg where get: "repo_get_by_id sid (db_sagas db) = Some sg"
    and act: "is_active sg" "is_stale sg (now - usec max_age)"
    using h False by (auto simp: timeout_one_def split: option.splits if_splits)
  obtain d where d: "reg (sg_type sg) = Some d" and sg: "sg \<in> set (db_sagas db)" "sg_id sg = sid"
    using db_ok_get [OF ok get] by auto
  obtain sg1 ob where r: "(if sg_status sg = SagaCompensating
        then handle_stale_compensation d now max_age sg (db_outbox db)
        else handle_stale_execution d now max_age sg (db_outbox db)) = Inr (sg1, ob)"
    and eq: "r = Some (sg1\<lparr>sg_updated_at := Some now\<rparr>)"
      "db' = \<lparr>db_sagas = repo_update (sg1\<lparr>sg_updated_at := Some now\<rparr>) (db_sagas db), db_outbox = ob\<rparr>"
    using h get act d by (auto simp: timeout_one_def registry_get_def result_simps Let_def split: if_splits)
  note wf = db_okD(1) [OF ok sg(1) d]
  have "saga_trans d sg (db_outbox db) sg1 ob"
    using r act(1) stale_compensation_trans [OF _ wf] stale_execution_trans [OF _ wf]
    by (auto simp: is_active_def split: if_splits)
  then have "accepted reg sg (sg1\<lparr>sg_updated_at := Some now\<rparr>) db db'"
    unfolding eq by (intro acceptedI [OF ok sg(1) d] trans_updated_at)
  then show ?thesis using eq sg(2) act by blast
qed

section \<open>Starting a saga\<close>

lemma emitted_ok_cmds: "cmds (sg_id sg) ob' = cmds (sg_id sg) ob \<Longrightarrow> emitted_ok d sg ob \<Longrightarrow> emitted_ok d sg ob'"
  unfolding emitted_ok_def by (simp only:)

lemma new_steps_simps [simp]:
  "map st_index (new_steps d) = [0..<length (sd_steps d)]" "map st_name (new_steps d) = map sd_name (sd_steps d)"
  "length (new_steps d) = length (sd_steps d)"
  "i < length (sd_steps d) \<Longrightarrow> st_status (new_steps d ! i) = StepPending"
  by (auto simp: new_steps_def nth_enumerate_eq intro!: nth_equalityI)

text \<open>The identifier a new saga gets.\<close>

definition start_key :: "string \<Rightarrow> string option \<Rightarrow> string" where
  "start_key new_id correlation_id =
     (case correlation_id of None \<Rightarrow> new_id | Some c \<Rightarrow> if c = '''' then new_id else c)"

lemma db_ok_correlation:
  assumes "db_ok reg db"
  shows "repo_get_by_correlation_id c (db_sagas db) = None \<longleftrightarrow> c \<notin> sg_id ` set (db_sagas db)"
proof -
  have "sg_correlation_id sg = sg_id sg" if "sg \<in> set (db_sagas db)" for sg
    using that assms by (auto simp: db_ok_def saga_wf_def shape_ok_def)
  then show ?thesis by (auto simp: repo_get_by_correlation_id_def find_None_all)
qed

lemma start_saga_Inr:
  assumes ok: "db_ok reg db"
    and st: "start_saga reg new_id now ty ctx corr db = Inr (sg', db')"
  shows "db_ok reg db' \<and> start_key new_id corr \<notin> sg_id ` set (db_sagas db) \<and> db_sagas db' = db_sagas db @ [sg'] \<and>
    sg_id sg' = start_key new_id corr \<and> sg_status sg' = SagaStarted \<and> sg_current_step sg' = 0 \<and> sg_type sg' = ty \<and>
    sg_context sg' = ctx \<and> (\<exists>d p. reg ty = Some d \<and> sd_build_command d 0 ctx = Inr p)"
proof -
  let ?id = "start_key new_id corr"
  obtain d where d: "reg ty = Some d" using st by (auto simp: start_saga_def registry_get_def result_simps)
  let ?sg = "\<lparr>sg_id = ?id, sg_type = ty, sg_correlation_id = ?id, sg_current_step = 0,
                sg_status = SagaStarted, sg_context = ctx, sg_steps = new_steps d, sg_error_detail = None,
                sg_started_at = Some now, sg_completed_at = None, sg_updated_at = Some now\<rparr>"
  let ?f = "\<lambda>s. s\<lparr>st_status := StepExecuting, st_command_sent_at := Some now\<rparr>"
  obtain ob where new: "?id \<notin> sg_id ` set (db_sagas db)"
    and pub: "publish_step_command d now ?sg 0 (db_outbox db) = Inr ob"
    and sg': "sg' = set_step 0 ?f ?sg"
    and db': "db' = \<lparr>db_sagas = repo_update sg' (db_sagas db @ [?sg]), db_outbox = ob\<rparr>"
    using st d db_ok_correlation [OF ok, of ?id]
    by (auto simp: start_saga_def registry_get_def result_simps Let_def repo_save_def start_key_def)
  have n: "0 < length (sd_steps d)"
    and em: "emits ?id [sd_command_event_type (sd_steps d ! 0)] (db_outbox db) ob"
    using publish_step_command_Inr [OF pub] by auto
  have same: "same_saga ?sg sg'" unfolding sg' by (rule same_saga_set_step) simp_all
  have shape: "shape_ok d ?sg" using n by (simp add: shape_ok_def)
  have shape': "shape_ok d sg'" by (rule shape_ok_same [OF same shape]) (use n in \<open>simp add: sg'\<close>)
  have dist: "distinct (map sg_id (db_sagas db @ [?sg]))" using ok new by (simp add: db_ok_def)
  have "repo_update sg' (db_sagas db @ [?sg]) = update_where (\<lambda>x. sg_id x = sg_id sg') (\<lambda>_. sg') (db_sagas db @ [?sg])"
    by (rule repo_update_eq [OF dist _ shape same]) simp
  moreover have "update_where (\<lambda>x. sg_id x = ?id) (\<lambda>_. sg') (db_sagas db) = db_sagas db"
    by (rule update_where_none) (use new in \<open>metis imageI\<close>)
  ultimately have rows: "db_sagas db' = db_sagas db @ [sg']" by (simp add: db' sg')
  have wf: "saga_wf d sg'"
    using shape' n by (auto simp: saga_wf_def status_ok_def in_flight_def sg')
  have ids: "sg_id sg' = ?id" "sg_type sg' = ty" "db_outbox db' = ob" by (simp_all add: sg' db')
  have "ob_aggregate_id r \<noteq> ?id" if "r \<in> set (db_outbox db)" for r
    using ok new that unfolding db_ok_def by metis
  then have "cmds ?id (db_outbox db) = []" by (simp add: cmds_def filter_empty_conv)
  then have em': "emitted_ok d sg' ob"
    using cmds_emits [OF em] n by (simp add: emitted_ok_def sg' take_Suc_conv_app_nth)
  have "\<exists>d. reg (sg_type x) = Some d \<and> saga_wf d x \<and> emitted_ok d x ob" if x: "x \<in> set (db_sagas db)" for x
  proof -
    have "sg_id x \<noteq> ?id" using x new by (metis imageI)
    then show ?thesis
      using ok x emitted_ok_cmds [OF cmds_emits_other [OF em, of "sg_id x"]] unfolding db_ok_def by blast
  qed
  moreover have "\<forall>r \<in> set ob. ob_aggregate_id r \<in> insert ?id (sg_id ` set (db_sagas db))"
    using em ok by (auto simp: emits_def db_ok_def)
  ultimately have "db_ok reg db'"
    using wf em' d ok new ids by (auto simp: db_ok_def rows)
  moreover have "\<exists>p. sd_build_command d 0 ctx = Inr p"
    using pub by (auto simp: publish_step_command_def result_simps)
  ultimately show ?thesis using rows new d by (auto simp: sg')
qed

section \<open>Reachable databases\<close>

text \<open>
  What can happen to the database: a delivered start or reply message, a timeout sweep over whatever ids its
  unlocked scan returned, and the outbox worker recording the outcome of a publication.
\<close>

datatype saga_event =
    EvStart string instant dict
  | EvReply instant saga_reply
  | EvSweep instant seconds "string list"
  | EvPublished instant nat
  | EvPublishFailed "nat option" instant "dict outbox_row"

fun apply_event :: "registry \<Rightarrow> saga_event \<Rightarrow> saga_db \<Rightarrow> saga_db" where
  "apply_event reg (EvStart new_id now payload) db = snd (start_consumer_handle reg new_id now payload db)"
| "apply_event reg (EvReply now reply) db = snd (reply_consumer_handle reg now reply db)"
| "apply_event reg (EvSweep now max_age ids) db =
     (case timeout_all reg now max_age ids db of Inl _ \<Rightarrow> db | Inr (_, db') \<Rightarrow> db')"
| "apply_event reg (EvPublished now i) db = db\<lparr>db_outbox := mark_published now i (db_outbox db)\<rparr>"
| "apply_event reg (EvPublishFailed m now e) db = db\<lparr>db_outbox := fst (record_failure m now e (db_outbox db))\<rparr>"

definition empty_db :: saga_db where
  "empty_db = \<lparr>db_sagas = [], db_outbox = []\<rparr>"

inductive sreach :: "registry \<Rightarrow> saga_db \<Rightarrow> bool" for reg where
  init: "sreach reg empty_db"
| step: "sreach reg db \<Longrightarrow> sreach reg (apply_event reg ev db)"

text \<open>Every saga row after some events: untouched, or some steps further.\<close>

definition row_moves :: "registry \<Rightarrow> saga_db \<Rightarrow> saga_db \<Rightarrow> bool" where
  "row_moves reg db db' \<longleftrightarrow>
     (\<forall>sg \<in> set (db_sagas db). sg \<in> set (db_sagas db') \<or>
        (\<exists>sg' d. sg' \<in> set (db_sagas db') \<and> same_saga sg sg' \<and> reg (sg_type sg) = Some d \<and>
           saga_fuel d sg' < saga_fuel d sg))"

lemma row_moves_refl [simp]: "row_moves reg db db"
  by (simp add: row_moves_def)

lemma row_moves_trans:
  assumes ab: "row_moves reg a b" and bc: "row_moves reg b c"
  shows "row_moves reg a c"
  unfolding row_moves_def
proof (rule ballI)
  fix sg assume "sg \<in> set (db_sagas a)"
  then consider "sg \<in> set (db_sagas b)" |
    sg1 d where "sg1 \<in> set (db_sagas b)" "same_saga sg sg1" "reg (sg_type sg) = Some d" "saga_fuel d sg1 < saga_fuel d sg"
    using ab by (auto simp: row_moves_def)
  then show "sg \<in> set (db_sagas c) \<or> (\<exists>sg' d. sg' \<in> set (db_sagas c) \<and> same_saga sg sg' \<and>
      reg (sg_type sg) = Some d \<and> saga_fuel d sg' < saga_fuel d sg)"
  proof cases
    case 1
    then show ?thesis using bc by (auto simp: row_moves_def)
  next
    case 2
    have ty: "sg_type sg1 = sg_type sg" using 2(2) by (simp add: same_saga_def)
    from bc 2(1) consider "sg1 \<in> set (db_sagas c)" |
      sg2 where "sg2 \<in> set (db_sagas c)" "same_saga sg1 sg2" "saga_fuel d sg2 < saga_fuel d sg1"
      using 2(3) by (auto simp: row_moves_def ty)
    then show ?thesis using 2 same_saga_trans less_trans by cases blast+
  qed
qed

lemma accepted_moves:
  assumes "db_ok reg db" and "accepted reg sg sg' db db'"
  shows "row_moves reg db db'"
proof -
  have dist: "distinct (map sg_id (db_sagas db))" using assms(1) by (simp add: db_ok_def)
  have "x = sg" if "x \<in> set (db_sagas db)" "sg_id x = sg_id sg" for x
    using that dist assms(2) by (metis accepted_def distinct_map inj_on_eq_iff)
  then show ?thesis
    using accepted_mem [OF assms(2) dist] assms(2) by (fastforce simp: row_moves_def accepted_def saga_trans_def)
qed

lemma db_ok_outbox:
  assumes "db_ok reg db" and "map (\<lambda>r. (ob_aggregate_id r, ob_event_type r)) ob' =
      map (\<lambda>r. (ob_aggregate_id r, ob_event_type r)) (db_outbox db)"
  shows "db_ok reg (db\<lparr>db_outbox := ob'\<rparr>)"
proof -
  have c: "cmds sid ob = map snd (filter (\<lambda>p. fst p = sid) (map (\<lambda>r. (ob_aggregate_id r, ob_event_type r)) ob))" for sid ob
    by (simp add: cmds_def filter_map o_def)
  have "cmds sid ob' = cmds sid (db_outbox db)" for sid unfolding c assms(2) ..
  moreover have "ob_aggregate_id ` set ob' = ob_aggregate_id ` set (db_outbox db)"
    using arg_cong [OF assms(2), of "\<lambda>l. fst ` set l"] by (simp add: image_image)
  ultimately have "emitted_ok d sg (db_outbox db) \<Longrightarrow> emitted_ok d sg ob'"
    and "\<And>r. r \<in> set ob' \<Longrightarrow> ob_aggregate_id r \<in> ob_aggregate_id ` set (db_outbox db)" for d sg
    using emitted_ok_cmds [of sg ob' "db_outbox db" d] by auto
  then show ?thesis using assms(1) unfolding db_ok_def by fastforce
qed

lemma start_consumer_ok:
  assumes ok: "db_ok reg db"
  shows "db_ok reg (snd (start_consumer_handle reg new_id now payload db)) \<and>
    set (db_sagas db) \<subseteq> set (db_sagas (snd (start_consumer_handle reg new_id now payload db)))"
proof (cases "parse_start_event payload")
  case (Inr res)
  obtain ty ctx corr where res: "res = (ty, ctx, corr)" by (cases res)
  show ?thesis
  proof (cases "start_saga reg new_id now ty ctx corr db")
    case (Inl e)
    then show ?thesis
      using ok \<open>parse_start_event payload = Inr res\<close>
      by (auto simp: start_consumer_handle_def res split: saga_error.splits)
  next
    case (Inr r)
    then obtain sg' db' where st: "start_saga reg new_id now ty ctx corr db = Inr (sg', db')" by (cases r) auto
    then show ?thesis
      using start_saga_Inr [OF ok st] \<open>parse_start_event payload = Inr res\<close>
      by (auto simp: start_consumer_handle_def res)
  qed
qed (simp add: start_consumer_handle_def ok)

lemma reply_consumer_ok:
  assumes ok: "db_ok reg db" and h: "reply_consumer_handle reg now reply db = (r, db')"
  shows "db' = db \<or> (r = Handled \<and> (\<exists>sg sg' s. accepted reg sg sg' db db' \<and> rp_saga_id reply = Some (sg_id sg) \<and>
    current_step_obj sg = Some s \<and> rp_step_name reply = Some (st_name s) \<and>
    sg_status sg = (if rp_is_compensation reply then SagaCompensating else SagaStarted)))"
proof (cases "rp_saga_id reply = None \<or> rp_step_name reply = None \<or> rp_saga_id reply = Some [] \<or> rp_step_name reply = Some []")
  case True
  then show ?thesis using h by (auto simp: reply_consumer_handle_def split: option.splits)
next
  case False
  then obtain sid nm where ids: "rp_saga_id reply = Some sid" "rp_step_name reply = Some nm" "sid \<noteq> []" "nm \<noteq> []" by auto
  let ?h = "if rp_is_compensation reply
                   then handle_compensation_reply reg now sid nm (rp_success reply) (rp_error_message reply) db
                   else handle_reply reg now sid nm (rp_success reply) (rp_result_data reply) (rp_error_message reply) db"
  show ?thesis
  proof (cases ?h)
    case (Inl e)
    then have "db' = db"
      using h ids by (auto simp: reply_consumer_handle_def split: if_splits saga_error.splits)
    then show ?thesis ..
  next
    case (Inr res)
    then obtain sg' db1 where res: "?h = Inr (sg', db1)" by (cases res) auto
    then have eq: "r = Handled" "db' = db1" using h ids by (auto simp: reply_consumer_handle_def)
    show ?thesis
    proof (cases "rp_is_compensation reply")
      case True
      then show ?thesis using res eq ids handle_compensation_reply_accepted [OF ok] by fastforce
    next
      case False
      then show ?thesis using res eq ids handle_reply_accepted [OF ok] by fastforce
    qed
  qed
qed

lemma timeout_all_ok:
  "db_ok reg db \<Longrightarrow> timeout_all reg now max_age ids db = Inr (hs, db') \<Longrightarrow> db_ok reg db' \<and> row_moves reg db db'"
proof (induction ids arbitrary: db hs)
  case (Cons i ids)
  then obtain h db1 hs1 where one: "timeout_one reg now max_age i db = Inr (h, db1)"
    and rest: "timeout_all reg now max_age ids db1 = Inr (hs1, db')"
    by (auto simp: result_simps)
  have "db_ok reg db1 \<and> row_moves reg db db1"
    using timeout_one_accepted [OF Cons.prems(1) one] Cons.prems(1) accepted_db_ok accepted_moves by auto
  then show ?case using Cons.IH [OF _ rest] row_moves_trans by blast
qed simp

lemma map_outbox_key_unchanged [simp]:
  "map (\<lambda>r. (ob_aggregate_id r, ob_event_type r)) (mark_published now i ob) = map (\<lambda>r. (ob_aggregate_id r, ob_event_type r)) ob"
  "map (\<lambda>r. (ob_aggregate_id r, ob_event_type r)) (fst (record_failure m now e ob)) =
     map (\<lambda>r. (ob_aggregate_id r, ob_event_type r)) ob"
  by (simp_all add: mark_published_def record_failure_def mark_failed_def map_update_where Let_def)

lemma apply_event_ok:
  assumes ok: "db_ok reg db"
  shows "db_ok reg (apply_event reg ev db) \<and> row_moves reg db (apply_event reg ev db)"
proof (cases ev)
  case (EvStart new_id now payload)
  then show ?thesis using start_consumer_ok [OF ok, of new_id now payload] by (auto simp: row_moves_def)
next
  case (EvReply now reply)
  obtain r db' where h: "reply_consumer_handle reg now reply db = (r, db')" by fastforce
  then show ?thesis
    using reply_consumer_ok [OF ok h] ok accepted_db_ok accepted_moves by (auto simp: EvReply)
next
  case (EvSweep now max_age ids)
  show ?thesis
  proof (cases "timeout_all reg now max_age ids db")
    case (Inr res)
    then obtain hs db' where "timeout_all reg now max_age ids db = Inr (hs, db')" by (cases res) auto
    then show ?thesis using timeout_all_ok [OF ok] by (simp add: EvSweep)
  qed (simp add: EvSweep ok)
next
  case (EvPublished now i)
  then show ?thesis using db_ok_outbox [OF ok] by (simp add: row_moves_def)
next
  case (EvPublishFailed m now e)
  then show ?thesis using db_ok_outbox [OF ok] by (simp add: row_moves_def)
qed

lemma sreach_ok: "sreach reg db \<Longrightarrow> db_ok reg db"
  by (induction rule: sreach.induct) (simp_all add: apply_event_ok, simp add: db_ok_def empty_db_def)

end
