(* ===== verification/BankSyncSaga.thy ===== *)
theory BankSyncSaga
  imports SagaProofs
begin

text \<open>
  The bank synchronisation saga (\<open>saga-service/app/application/sagas/bank_sync_saga.py\<close>): fetch the bank's
  transactions, import them, mark the connection as synced.  Only the import has a compensation, the roll back
  of exactly the imported ids.
\<close>

section \<open>The definition\<close>

text \<open>Python's \<open>+\<close> on the values a message carries.\<close>

fun py_int :: "json \<Rightarrow> int option" where
  "py_int (JInt n) = Some n"
| "py_int (JBool b) = Some (if b then 1 else 0)"
| "py_int _ = None"

definition py_add :: "json \<Rightarrow> json \<Rightarrow> py_error + json" where
  "py_add a b =
     (case (py_int a, py_int b) of
        (Some m, Some n) \<Rightarrow> Inr (JInt (m + n))
      | _ \<Rightarrow>
          (case (a, b) of
             (JStr s, JStr t) \<Rightarrow> Inr (JStr (s @ t))
           | (JList xs, JList ys) \<Rightarrow> Inr (JList (xs @ ys))
           | _ \<Rightarrow> Inl TypeError))"

definition bank_sync_steps :: "step_definition list" where
  "bank_sync_steps =
     [\<lparr>sd_name = ''fetch_transactions'', sd_command_event_type = ''saga.cmd.bank_fetch_transactions'',
       sd_compensate_event_type = None\<rparr>,
      \<lparr>sd_name = ''import_transactions'', sd_command_event_type = ''saga.cmd.bulk_import_transactions'',
       sd_compensate_event_type = Some ''saga.cmd.rollback_import''\<rparr>,
      \<lparr>sd_name = ''mark_sync_complete'', sd_command_event_type = ''saga.cmd.mark_sync_complete'',
       sd_compensate_event_type = None\<rparr>]"

definition bank_sync_build_command :: "nat \<Rightarrow> dict \<Rightarrow> py_error + dict" where
  "bank_sync_build_command step_index context =
     (if step_index = 0 then
        bindE (dreq context ''connection_id'') (\<lambda>connection_id.
        bindE (dreq context ''user_id'') (\<lambda>user_id.
        bindE (dreq context ''bank_account_uid'') (\<lambda>uid.
        Inr [(''connection_id'', connection_id), (''user_id'', user_id),
             (''date_from'', dget_or context ''date_from'' JNull), (''bank_account_uid'', uid)])))
      else if step_index = 1 then
        bindE (dreq context ''user_id'') (\<lambda>user_id.
        bindE (dreq context ''account_id'') (\<lambda>account_id.
        bindE (dreq context ''account_name'') (\<lambda>account_name.
        bindE (dreq context ''fetched_items'') (\<lambda>items.
        Inr [(''user_id'', user_id), (''account_id'', account_id), (''account_name'', account_name),
             (''items'', items)]))))
      else if step_index = 2 then
        bindE (dreq context ''connection_id'') (\<lambda>connection_id.
        bindE (dreq context ''user_id'') (\<lambda>user_id.
        Inr [(''connection_id'', connection_id), (''user_id'', user_id),
             (''total_fetched'', dget_or context ''total_fetched'' (JInt 0)),
             (''new_imported'', dget_or context ''new_imported'' (JInt 0)),
             (''duplicates_skipped'', dget_or context ''duplicates_skipped'' (JInt 0)),
             (''errors'', dget_or context ''errors'' (JInt 0)),
             (''parse_skipped'', dget_or context ''parse_skipped'' (JInt 0))]))
      else Inr [])"

definition bank_sync_build_compensate_command :: "nat \<Rightarrow> dict \<Rightarrow> py_error + dict option" where
  "bank_sync_build_compensate_command step_index context =
     (if step_index = 1 then
        (let imported_ids = dget_or context ''imported_ids'' (JList []) in
         if \<not> truthy imported_ids then Inr None
         else bindE (dreq context ''user_id'') (\<lambda>user_id.
              Inr (Some [(''user_id'', user_id), (''transaction_ids'', imported_ids)])))
      else Inr None)"

definition bank_sync_on_reply :: "nat \<Rightarrow> dict \<Rightarrow> dict option \<Rightarrow> py_error + dict" where
  "bank_sync_on_reply step_index context result_data =
     (case result_data of
        None \<Rightarrow> Inr context
      | Some res \<Rightarrow>
          if step_index = 0 then
            (let c1 = dset context ''fetched_items'' (dget_or res ''items'' (JList []));
                 c2 = dset c1 ''total_fetched'' (dget_or res ''total_fetched'' (JInt 0));
                 c3 = dset c2 ''parse_skipped'' (dget_or res ''parse_skipped'' (JInt 0))
             in bindE (py_add (dget_or c3 ''errors'' (JInt 0)) (dget_or res ''errors'' (JInt 0))) (\<lambda>e.
                Inr (dset c3 ''errors'' e)))
          else if step_index = 1 then
            (let c1 = dset context ''imported_ids'' (dget_or res ''imported_ids'' (JList []));
                 c2 = dset c1 ''new_imported'' (dget_or res ''imported'' (JInt 0));
                 c3 = dset c2 ''duplicates_skipped'' (dget_or res ''duplicates_skipped'' (JInt 0))
             in bindE (py_add (dget_or c3 ''errors'' (JInt 0)) (dget_or res ''errors'' (JInt 0))) (\<lambda>e.
                Inr (dset c3 ''errors'' e)))
          else Inr context)"

definition bank_sync_definition :: saga_definition where
  "bank_sync_definition =
     \<lparr>sd_type = ''bank_sync'', sd_steps = bank_sync_steps, sd_build_command = bank_sync_build_command,
      sd_build_compensate_command = bank_sync_build_compensate_command, sd_on_reply = bank_sync_on_reply\<rparr>"

text \<open>\<open>get_saga_registry\<close> registers this one definition.\<close>

definition get_saga_registry :: registry where
  "get_saga_registry = registry_register bank_sync_definition (\<lambda>_. None)"

lemma get_saga_registry_bank_sync [simp]: "get_saga_registry ''bank_sync'' = Some bank_sync_definition"
  by (simp add: get_saga_registry_def registry_register_def bank_sync_definition_def)

lemma get_saga_registry_only: "get_saga_registry t = Some d \<Longrightarrow> t = ''bank_sync'' \<and> d = bank_sync_definition"
  by (auto simp: get_saga_registry_def registry_register_def bank_sync_definition_def split: if_splits)

lemma bank_sync_fields [simp]:
  "sd_steps bank_sync_definition = bank_sync_steps"
  "sd_build_command bank_sync_definition = bank_sync_build_command"
  "sd_build_compensate_command bank_sync_definition = bank_sync_build_compensate_command"
  "sd_on_reply bank_sync_definition = bank_sync_on_reply"
  by (simp_all add: bank_sync_definition_def)

end
