(* ===== verification/SagaContract.thy ===== *)
theory SagaContract
  imports BankSyncSaga
begin

text \<open>
  What the engine needs from the saga definitions it runs, as a locale, and what it gives in return: the
  timeout worker never fails and drives every abandoned saga to a terminal status.  The locale is interpreted
  on the registry the service builds.
\<close>

section \<open>Timeout sweeps on one row\<close>

text \<open>How many stale sweeps a saga still needs.\<close>

definition sweep_rank :: "saga \<Rightarrow> nat" where
  "sweep_rank sg =
     (case sg_status sg of
        SagaStarted \<Rightarrow> 3
      | SagaCompensating \<Rightarrow> (if already_reemitted sg then 1 else 2)
      | _ \<Rightarrow> 0)"

lemma sweep_rank_0: "sweep_rank sg = 0 \<longleftrightarrow> \<not> is_active sg"
  by (auto simp: sweep_rank_def is_active_def split: saga_status.splits)

lemma sweep_rank_updated_at [simp]: "sweep_rank (sg\<lparr>sg_updated_at := t\<rparr>) = sweep_rank sg"
  by (simp add: sweep_rank_def already_reemitted_def)

lemma compensate_from_status:
  "compensate_from d now k sg ob = Inr (sg', ob') \<Longrightarrow> sg_status sg' = SagaFailed \<or> sg_status sg' = sg_status sg"
proof (induction k arbitrary: sg)
  case (Suc k)
  then show ?case
    by (fastforce simp: Let_def result_simps mark_compensated_def split: if_splits option.splits)
qed auto

lemma stale_execution_rank:
  "handle_stale_execution d now max_age sg ob = Inr (sg', ob') \<Longrightarrow> sg_status sg = SagaStarted \<Longrightarrow>
   sweep_rank sg' < sweep_rank sg"
  by (auto simp: handle_stale_execution_def begin_compensation_def compensate_previous_def result_simps Let_def
      sweep_rank_def dest!: compensate_from_status split: if_splits)

lemma stale_compensation_rank:
  "handle_stale_compensation d now max_age sg ob = Inr (sg', ob') \<Longrightarrow> sg_status sg = SagaCompensating \<Longrightarrow>
   sweep_rank sg' < sweep_rank sg"
  using already_reemitted_join [where sg = sg and e = "sg_error_detail sg" and
      msg = "'' after '' @ show_total_seconds max_age @ ''s''"]
  by (auto simp: handle_stale_compensation_def result_simps compensation_timed_out_def Let_def sweep_rank_def
      split: if_splits option.splits)

lemma timeout_one_rank:
  assumes ok: "db_ok reg db" and h: "timeout_one reg now max_age (sg_id sg) db = Inr (r, db')"
    and sg: "sg \<in> set (db_sagas db)" and act: "is_active sg" "is_stale sg (now - usec max_age)"
  shows "\<exists>sg'. sg' \<in> set (db_sagas db') \<and> same_saga sg sg' \<and> sweep_rank sg' < sweep_rank sg \<and>
    sg_updated_at sg' = Some now"
proof -
  have dist: "distinct (map sg_id (db_sagas db))" using ok by (simp add: db_ok_def)
  obtain d where d: "reg (sg_type sg) = Some d" using ok sg by (auto simp: db_ok_def)
  have get: "repo_get_by_id (sg_id sg) (db_sagas db) = Some sg"
    by (rule repo_get_eq [OF dist sg db_okD(2) [OF ok sg d]])
  obtain sg1 ob where r: "(if sg_status sg = SagaCompensating
        then handle_stale_compensation d now max_age sg (db_outbox db)
        else handle_stale_execution d now max_age sg (db_outbox db)) = Inr (sg1, ob)"
    and eq: "r = Some (sg1\<lparr>sg_updated_at := Some now\<rparr>)"
    using h get act d by (auto simp: timeout_one_def registry_get_def result_simps Let_def split: if_splits)
  have rank: "sweep_rank sg1 < sweep_rank sg"
    using r act(1) stale_compensation_rank stale_execution_rank by (fastforce simp: is_active_def split: if_splits)
  obtain sg0 where ac: "accepted reg sg0 (sg1\<lparr>sg_updated_at := Some now\<rparr>) db db'" and idq: "sg_id sg0 = sg_id sg"
    using timeout_one_accepted [OF ok h] eq by auto
  have mem: "sg0 \<in> set (db_sagas db)" using ac by (simp add: accepted_def)
  have inj: "inj_on sg_id (set (db_sagas db))" using dist by (simp add: distinct_map)
  have "sg0 = sg" by (rule inj_onD [OF inj idq mem sg])
  then have "same_saga sg (sg1\<lparr>sg_updated_at := Some now\<rparr>)"
    using ac unfolding accepted_def saga_trans_def by blast
  moreover have "sg1\<lparr>sg_updated_at := Some now\<rparr> \<in> set (db_sagas db')" using accepted_mem [OF ac dist] by blast
  ultimately show ?thesis using rank by (intro exI [of _ "sg1\<lparr>sg_updated_at := Some now\<rparr>"]) simp
qed

lemma timeout_one_other:
  assumes ok: "db_ok reg db" and h: "timeout_one reg now max_age sid db = Inr (r, db')"
    and sg: "sg \<in> set (db_sagas db)" "sg_id sg \<noteq> sid"
  shows "sg \<in> set (db_sagas db')"
proof -
  have "distinct (map sg_id (db_sagas db))" using ok by (simp add: db_ok_def)
  then show ?thesis using timeout_one_accepted [OF ok h] sg accepted_mem by auto
qed

lemma timeout_one_db_ok:
  "db_ok reg db \<Longrightarrow> timeout_one reg now max_age sid db = Inr (r, db') \<Longrightarrow> db_ok reg db'"
  using timeout_one_accepted accepted_db_ok by metis

lemma timeout_all_other:
  "db_ok reg db \<Longrightarrow> timeout_all reg now max_age ids db = Inr (hs, db') \<Longrightarrow> sg \<in> set (db_sagas db) \<Longrightarrow>
   sg_id sg \<notin> set ids \<Longrightarrow> sg \<in> set (db_sagas db')"
proof (induction ids arbitrary: db hs)
  case (Cons i ids)
  then obtain h db1 hs1 where "timeout_one reg now max_age i db = Inr (h, db1)"
    and "timeout_all reg now max_age ids db1 = Inr (hs1, db')"
    by (auto simp: result_simps)
  then show ?case using Cons.IH [of db1 hs1] Cons.prems timeout_one_other timeout_one_db_ok
    by (metis list.set_intros)
qed simp

lemma timeout_all_rank:
  "db_ok reg db \<Longrightarrow> timeout_all reg now max_age ids db = Inr (hs, db') \<Longrightarrow> sg \<in> set (db_sagas db) \<Longrightarrow>
   sg_id sg \<in> set ids \<Longrightarrow> distinct ids \<Longrightarrow> is_active sg \<Longrightarrow> is_stale sg (now - usec max_age) \<Longrightarrow>
   \<exists>sg'. sg' \<in> set (db_sagas db') \<and> same_saga sg sg' \<and> sweep_rank sg' < sweep_rank sg \<and>
     sg_updated_at sg' = Some now"
proof (induction ids arbitrary: db hs)
  case (Cons i ids)
  then obtain h db1 hs1 where one: "timeout_one reg now max_age i db = Inr (h, db1)"
    and rest: "timeout_all reg now max_age ids db1 = Inr (hs1, db')"
    by (auto simp: result_simps)
  note ok1 = timeout_one_db_ok [OF Cons.prems(1) one]
  show ?case
  proof (cases "i = sg_id sg")
    case True
    then obtain sg' where sg': "sg' \<in> set (db_sagas db1)" "same_saga sg sg'" "sweep_rank sg' < sweep_rank sg"
      "sg_updated_at sg' = Some now"
      using timeout_one_rank [OF Cons.prems(1) _ Cons.prems(3)] one Cons.prems(6,7) by blast
    moreover have "sg_id sg' \<notin> set ids" using sg'(2) True Cons.prems(5) by (simp add: same_saga_def)
    ultimately show ?thesis using timeout_all_other [OF ok1 rest] by blast
  next
    case False
    then show ?thesis
      using Cons.IH [OF ok1 rest] timeout_one_other [OF Cons.prems(1) one Cons.prems(3)] Cons.prems(4-) by simp
  qed
qed simp

text \<open>
  \<open>quiet n now sg\<close>: at most \<open>n\<close> stale sweeps are left, and an active saga has seen nothing since \<open>now\<close>.
\<close>

definition quiet :: "nat \<Rightarrow> instant \<Rightarrow> saga \<Rightarrow> bool" where
  "quiet n now sg \<longleftrightarrow> sweep_rank sg \<le> n \<and> (is_active sg \<longrightarrow> (\<exists>t. sg_updated_at sg = Some t \<and> t \<le> now))"

lemma quiet_later: "quiet n now sg \<Longrightarrow> now \<le> now' \<Longrightarrow> quiet n now' sg"
  by (auto simp: quiet_def)

section \<open>The contract of a registry\<close>

locale saga_contract =
  fixes reg :: registry
    and ctx_ok :: "saga_definition \<Rightarrow> dict \<Rightarrow> bool"
  assumes started_ctx: "reg t = Some d \<Longrightarrow> sd_build_command d 0 ctx = Inr p \<Longrightarrow> ctx_ok d ctx"
    and replied_ctx: "reg t = Some d \<Longrightarrow> ctx_ok d ctx \<Longrightarrow> sd_on_reply d i ctx res = Inr ctx' \<Longrightarrow> ctx_ok d ctx'"
    and compensation_total: "reg t = Some d \<Longrightarrow> ctx_ok d ctx \<Longrightarrow> \<exists>p. sd_build_compensate_command d i ctx = Inr p"
begin

definition ctxs_ok :: "saga_db \<Rightarrow> bool" where
  "ctxs_ok db \<longleftrightarrow> (\<forall>sg \<in> set (db_sagas db). \<forall>d. reg (sg_type sg) = Some d \<longrightarrow> ctx_ok d (sg_context sg))"

lemma ctxs_accepted:
  assumes "db_ok reg db" and "ctxs_ok db" and "accepted reg sg sg' db db'"
  shows "ctxs_ok db'"
proof -
  have dist: "distinct (map sg_id (db_sagas db))" using assms(1) by (simp add: db_ok_def)
  obtain d where d: "reg (sg_type sg) = Some d" "sg \<in> set (db_sagas db)" "sg_type sg' = sg_type sg"
    "sg_context sg' = sg_context sg \<or> (\<exists>i res. sd_on_reply d i (sg_context sg) res = Inr (sg_context sg'))"
    using assms(3) by (auto simp: accepted_def saga_trans_def same_saga_def)
  have "ctx_ok d (sg_context sg)" using assms(2) d by (simp add: ctxs_ok_def)
  then have "ctx_ok d (sg_context sg')" using d(4) replied_ctx [OF d(1)] by metis
  then show ?thesis using assms(2) d accepted_mem [OF assms(3) dist] by (auto simp: ctxs_ok_def)
qed

lemma ctxs_timeout_all:
  "db_ok reg db \<Longrightarrow> ctxs_ok db \<Longrightarrow> timeout_all reg now max_age ids db = Inr (hs, db') \<Longrightarrow> ctxs_ok db'"
proof (induction ids arbitrary: db hs)
  case (Cons i ids)
  then obtain h db1 hs1 where one: "timeout_one reg now max_age i db = Inr (h, db1)"
    and rest: "timeout_all reg now max_age ids db1 = Inr (hs1, db')"
    by (auto simp: result_simps)
  then have "ctxs_ok db1" using timeout_one_accepted [OF Cons.prems(1) one] ctxs_accepted Cons.prems(1,2) by blast
  then show ?case using Cons.IH [OF timeout_one_db_ok [OF Cons.prems(1) one] _ rest] by blast
qed simp

lemma ctxs_start:
  assumes ok: "db_ok reg db" and cx: "ctxs_ok db"
  shows "ctxs_ok (snd (start_consumer_handle reg new_id now payload db))"
proof -
  have "ctxs_ok db'" if st: "start_saga reg new_id now ty ctx corr db = Inr (sg', db')" for ty ctx corr sg' db'
    using start_saga_Inr [OF ok st] cx started_ctx by (auto simp: ctxs_ok_def)
  then show ?thesis
    using cx by (auto simp: start_consumer_handle_def split: sum.splits saga_error.splits)
qed

lemma ctxs_apply_event: "db_ok reg db \<Longrightarrow> ctxs_ok db \<Longrightarrow> ctxs_ok (apply_event reg ev db)"
proof (cases ev)
  case (EvReply now reply)
  assume ok: "db_ok reg db" and cx: "ctxs_ok db"
  obtain r db' where h: "reply_consumer_handle reg now reply db = (r, db')" by fastforce
  then show ?thesis using reply_consumer_ok [OF ok h] ctxs_accepted [OF ok cx] cx by (auto simp: EvReply)
next
  case (EvSweep now max_age ids)
  assume "db_ok reg db" "ctxs_ok db"
  then show ?thesis using ctxs_timeout_all by (auto simp: EvSweep split: sum.splits)
next
  case (EvStart new_id now payload)
  assume "db_ok reg db" "ctxs_ok db"
  then show ?thesis using ctxs_start by (simp add: EvStart)
qed (simp_all add: ctxs_ok_def)

lemma sreach_ctxs: "sreach reg db \<Longrightarrow> ctxs_ok db"
  by (induction rule: sreach.induct) (auto simp: sreach_ok intro: ctxs_apply_event, simp add: ctxs_ok_def empty_db_def)

text \<open>A sweep never raises.\<close>

lemma has_work_total:
  assumes "reg t = Some d" and "ctx_ok d ctx" and "\<forall>s \<in> set steps. st_index s < length (sd_steps d)"
  shows "\<exists>b. has_compensatable_work d ctx steps = Inr b"
  using assms(3)
proof (induction steps)
  case (Cons s steps)
  then show ?case using compensation_total [OF assms(1,2), of "st_index s"] by (auto simp: lift_py_def)
qed auto

lemma compensate_from_total:
  assumes "reg t = Some d"
  shows "ctx_ok d (sg_context sg) \<Longrightarrow> k \<le> length (sd_steps d) \<Longrightarrow> length (sg_steps sg) = length (sd_steps d) \<Longrightarrow>
    \<exists>sg' ob'. compensate_from d now k sg ob = Inr (sg', ob')"
proof (induction k arbitrary: sg)
  case (Suc k)
  have IH: "\<exists>sg' ob'. compensate_from d now k (sg\<lparr>sg_current_step := k\<rparr>) ob = Inr (sg', ob')"
    "\<exists>sg' ob'. compensate_from d now k (mark_compensated now k (sg\<lparr>sg_current_step := k\<rparr>)) ob = Inr (sg', ob')"
    using Suc.IH Suc.prems by (simp_all add: mark_compensated_def)
  show ?case
    using IH Suc.prems compensation_total [OF assms Suc.prems(1), of k]
    by (auto simp: Let_def lift_py_def split: option.splits)
qed simp

lemma timeout_one_total:
  assumes ok: "db_ok reg db" and cx: "ctxs_ok db"
  shows "\<exists>r db'. timeout_one reg now max_age sid db = Inr (r, db')"
proof (cases "repo_get_by_id sid (db_sagas db)")
  case (Some sg)
  obtain d where d: "reg (sg_type sg) = Some d" and sg: "sg \<in> set (db_sagas db)"
    using db_ok_get [OF ok Some] by auto
  have wf: "saga_wf d sg" and shape: "shape_ok d sg" using db_okD [OF ok sg d] by auto
  have c: "ctx_ok d (sg_context sg)" using cx sg d by (simp add: ctxs_ok_def)
  have len: "length (sg_steps sg) = length (sd_steps d)" "sg_current_step sg < length (sd_steps d)"
    using shape_length [OF shape] shape by (auto simp: shape_ok_def)
  have "st_index s < length (sd_steps d)" if "s \<in> set (sg_steps sg)" for s
    using that shape_index [OF shape] len by (metis in_set_conv_nth)
  then obtain b where "has_compensatable_work d (sg_context sg) (sg_steps sg) = Inr b"
    using has_work_total [OF d c] by blast
  then have "\<exists>sg' ob'. handle_stale_execution d now max_age sg (db_outbox db) = Inr (sg', ob')"
    using compensate_from_total [OF d] c len
    by (auto simp: handle_stale_execution_def begin_compensation_def compensate_previous_def Let_def)
  moreover have "\<exists>sg' ob'. handle_stale_compensation d now max_age sg (db_outbox db) = Inr (sg', ob')"
    if "sg_status sg = SagaCompensating"
    using compensating_facts [OF wf that]
    by (auto simp: handle_stale_compensation_def current_step_obj_def pending_compensation_def lift_py_def)
  ultimately obtain sg1 ob1 where r: "(if sg_status sg = SagaCompensating
        then handle_stale_compensation d now max_age sg (db_outbox db)
        else handle_stale_execution d now max_age sg (db_outbox db)) = Inr (sg1, ob1)" by (metis (full_types))
  have "registry_get reg (sg_type sg) = Inr d" using d by (simp add: registry_get_def)
  then show ?thesis using Some unfolding timeout_one_def by (simp add: r Let_def)
qed (simp add: timeout_one_def)

lemma timeout_all_total:
  "db_ok reg db \<Longrightarrow> ctxs_ok db \<Longrightarrow> \<exists>hs db'. timeout_all reg now max_age ids db = Inr (hs, db')"
proof (induction ids arbitrary: db)
  case (Cons i ids)
  obtain r db1 where one: "timeout_one reg now max_age i db = Inr (r, db1)"
    using timeout_one_total [OF Cons.prems] by blast
  have "ctxs_ok db1" using timeout_one_accepted [OF Cons.prems(1) one] ctxs_accepted Cons.prems by blast
  then show ?case using Cons.IH [OF timeout_one_db_ok [OF Cons.prems(1) one]] one by fastforce
qed simp

text \<open>One sweep brings an abandoned saga closer to the end.\<close>

lemma check_timeouts_progress:
  assumes ok: "db_ok reg db" and cx: "ctxs_ok db" and sg: "sg \<in> set (db_sagas db)"
    and q: "quiet (Suc n) (now - usec max_age) sg"
  shows "\<exists>hs db' sg'. check_timeouts reg now max_age db = Inr (hs, db') \<and> db_ok reg db' \<and> ctxs_ok db' \<and>
    sg' \<in> set (db_sagas db') \<and> same_saga sg sg' \<and> quiet n now sg'"
proof -
  let ?ids = "find_stale_ids (now - usec max_age) (db_sagas db)"
  obtain hs db' where h: "timeout_all reg now max_age ?ids db = Inr (hs, db')"
    using timeout_all_total [OF ok cx] by blast
  have dist: "distinct ?ids" using ok by (auto simp: find_stale_ids_def db_ok_def distinct_map_filter)
  have inj: "inj_on sg_id (set (db_sagas db))" using ok by (simp add: db_ok_def distinct_map)
  have "\<exists>sg'. sg' \<in> set (db_sagas db') \<and> same_saga sg sg' \<and> quiet n now sg'"
  proof (cases "is_active sg")
    case True
    then obtain t where t: "sg_updated_at sg = Some t" "t \<le> now - usec max_age" using q by (auto simp: quiet_def)
    then have "sg_id sg \<in> set ?ids" using sg True by (auto simp: find_stale_ids_def is_active_def)
    then obtain sg' where "sg' \<in> set (db_sagas db')" "same_saga sg sg'" "sweep_rank sg' < sweep_rank sg"
      "sg_updated_at sg' = Some now"
      using timeout_all_rank [OF ok h sg _ dist True] t by (auto simp: is_stale_def)
    then show ?thesis using q by (intro exI [of _ sg']) (auto simp: quiet_def)
  next
    case False
    then have "sg_id sg \<notin> set ?ids"
      using sg inj by (auto simp: find_stale_ids_def is_active_def dest: inj_onD)
    then have "sg \<in> set (db_sagas db')" by (rule timeout_all_other [OF ok h sg])
    then show ?thesis using False sweep_rank_0 [of sg] by (intro exI [of _ sg]) (auto simp: quiet_def)
  qed
  then show ?thesis
    using h timeout_all_ok [OF ok h] ctxs_timeout_all [OF ok cx h] by (auto simp: check_timeouts_def)
qed

end

section \<open>The service's registry keeps the contract\<close>

lemma bank_sync_on_reply_keeps:
  "bank_sync_on_reply i ctx res = Inr ctx' \<Longrightarrow>
   k \<notin> {''fetched_items'', ''total_fetched'', ''parse_skipped'', ''errors'', ''imported_ids'', ''new_imported'',
      ''duplicates_skipped''} \<Longrightarrow> dget ctx' k = dget ctx k"
  by (auto simp: bank_sync_on_reply_def Let_def result_simps split: option.splits if_splits)

interpretation bank: saga_contract get_saga_registry "\<lambda>_ ctx. dget ctx ''user_id'' \<noteq> None"
proof
  fix t d ctx p assume "get_saga_registry t = Some d" "sd_build_command d 0 ctx = Inr p"
  then show "dget ctx ''user_id'' \<noteq> None"
    by (auto dest!: get_saga_registry_only simp: bank_sync_build_command_def result_simps dreq_def)
next
  fix t d ctx i res ctx'
  assume "get_saga_registry t = Some d" "dget ctx ''user_id'' \<noteq> None" "sd_on_reply d i ctx res = Inr ctx'"
  then show "dget ctx' ''user_id'' \<noteq> None"
    using bank_sync_on_reply_keeps [of i ctx res ctx' "''user_id''"] by (auto dest!: get_saga_registry_only)
next
  fix t d ctx i assume "get_saga_registry t = Some d" "dget ctx ''user_id'' \<noteq> None"
  then show "\<exists>p. sd_build_compensate_command d i ctx = Inr p"
    by (auto dest!: get_saga_registry_only simp: bank_sync_build_compensate_command_def Let_def dreq_def of_option_def)
qed

end
