(* ===== verification/SagaProperties.thy ===== *)
theory SagaProperties
  imports SagaContract
begin

text \<open>
  The properties of the saga service over all reachable databases, of any registry where the statement does not
  mention the bank synchronisation saga, and the start consumer as an instance of the contract of an
  idempotent consumer.
\<close>

section \<open>Runs\<close>

abbreviation run_events :: "registry \<Rightarrow> saga_event list \<Rightarrow> saga_db \<Rightarrow> saga_db" where
  "run_events reg evs db \<equiv> fold (apply_event reg) evs db"

lemma sreach_run: "sreach reg db \<Longrightarrow> sreach reg (run_events reg evs db)"
  by (induction evs arbitrary: db) (auto intro: sreach.step)

lemma sreach_moves: "sreach reg db \<Longrightarrow> row_moves reg db (run_events reg evs db)"
proof (induction evs arbitrary: db)
  case (Cons ev evs)
  have "row_moves reg db (apply_event reg ev db)" using apply_event_ok [OF sreach_ok [OF Cons.prems]] by blast
  then show ?case using Cons.IH [OF sreach.step [OF Cons.prems]] row_moves_trans by simp
qed simp

lemma inactive_no_fuel: "\<not> is_active sg \<longleftrightarrow> saga_fuel d sg = 0"
  by (auto simp: is_active_def saga_fuel_def split: saga_status.splits)

lemma sreach_get:
  assumes "sreach reg db" and "sg \<in> set (db_sagas db)"
  shows "repo_get_by_id (sg_id sg) (db_sagas db) = Some sg"
proof -
  have ok: "db_ok reg db" by (rule sreach_ok [OF assms(1)])
  obtain d where d: "reg (sg_type sg) = Some d" using ok assms(2) by (auto simp: db_ok_def)
  show ?thesis by (rule repo_get_eq [OF _ assms(2) db_okD(2) [OF ok assms(2) d]]) (use ok in \<open>simp add: db_ok_def\<close>)
qed

text \<open>How often the events of a run change the row of one saga.\<close>

fun row_changes :: "registry \<Rightarrow> string \<Rightarrow> saga_event list \<Rightarrow> saga_db \<Rightarrow> nat" where
  "row_changes reg sid [] db = 0"
| "row_changes reg sid (ev # evs) db =
     (let db' = apply_event reg ev db in
      (if repo_get_by_id sid (db_sagas db') = repo_get_by_id sid (db_sagas db) then 0 else 1)
      + row_changes reg sid evs db')"

lemma row_changes_fuel:
  "sreach reg db \<Longrightarrow> sg \<in> set (db_sagas db) \<Longrightarrow> reg (sg_type sg) = Some d \<Longrightarrow>
   row_changes reg (sg_id sg) evs db \<le> saga_fuel d sg"
proof (induction evs arbitrary: db sg)
  case (Cons ev evs)
  let ?db = "apply_event reg ev db"
  have r: "sreach reg ?db" by (rule sreach.step [OF Cons.prems(1)])
  have "row_moves reg db ?db" using apply_event_ok [OF sreach_ok [OF Cons.prems(1)]] by blast
  then consider "sg \<in> set (db_sagas ?db)" | sg' where "sg' \<in> set (db_sagas ?db)" "same_saga sg sg'"
    "saga_fuel d sg' < saga_fuel d sg"
    using Cons.prems(2,3) by (fastforce simp: row_moves_def)
  then show ?case
  proof cases
    case 1
    then have "repo_get_by_id (sg_id sg) (db_sagas ?db) = repo_get_by_id (sg_id sg) (db_sagas db)"
      using sreach_get [OF r] sreach_get [OF Cons.prems(1,2)] by metis
    then show ?thesis using Cons.IH [OF r 1 Cons.prems(3)] by (simp add: Let_def)
  next
    case 2
    then have "row_changes reg (sg_id sg) evs ?db \<le> saga_fuel d sg'"
      using Cons.IH [OF r 2(1)] Cons.prems(3) by (simp add: same_saga_def)
    then show ?thesis using 2(3) by (simp add: Let_def)
  qed
qed simp

lemma saga_fuel_bound: "saga_wf d sg \<Longrightarrow> saga_fuel d sg \<le> 3 * length (sd_steps d) + 2"
  by (auto simp: saga_fuel_def saga_wf_def shape_ok_def split: saga_status.splits)

section \<open>A concrete run\<close>

text \<open>A bank synchronisation that fails after the import, is rolled back and ends failed.\<close>

definition demo_payload :: dict where
  "demo_payload =
     [(''event_type'', JStr ''saga.bank_sync.start''), (''correlation_id'', JStr ''c1''), (''connection_id'', JInt 7),
      (''user_id'', JInt 3), (''account_id'', JInt 2), (''account_name'', JStr ''A''), (''bank_account_uid'', JStr ''u'')]"

definition demo_reply :: "string \<Rightarrow> bool \<Rightarrow> dict option \<Rightarrow> bool \<Rightarrow> saga_reply" where
  "demo_reply step ok res undo =
     \<lparr>rp_saga_id = Some ''c1'', rp_step_name = Some step, rp_success = ok, rp_error_message = None,
      rp_result_data = res, rp_is_compensation = undo\<rparr>"

definition demo_events :: "saga_event list" where
  "demo_events =
     [EvStart ''n1'' 10 demo_payload,
      EvReply 20 (demo_reply ''fetch_transactions'' True (Some [(''items'', JList [JInt 1])]) False),
      EvReply 30 (demo_reply ''import_transactions'' True (Some [(''imported_ids'', JList [JInt 9])]) False),
      EvReply 40 (demo_reply ''mark_sync_complete'' False None False),
      EvReply 50 (demo_reply ''import_transactions'' True None True)]"

definition demo_db :: "nat \<Rightarrow> saga_db" where
  "demo_db n = run_events get_saga_registry (take n demo_events) empty_db"

lemma sreach_demo: "sreach get_saga_registry (demo_db n)"
  unfolding demo_db_def by (rule sreach_run) (rule sreach.init)

lemma demo_statuses:
  "map sg_status (db_sagas (demo_db 1)) = [SagaStarted]"
  "map sg_status (db_sagas (demo_db 4)) = [SagaCompensating]"
  "map sg_status (db_sagas (demo_db 5)) = [SagaFailed]"
  by code_simp+

definition demo_saga :: "nat \<Rightarrow> saga" where
  "demo_saga n = hd (db_sagas (demo_db n))"

lemma demo_saga_mem:
  "demo_saga 1 \<in> set (db_sagas (demo_db 1))" "demo_saga 3 \<in> set (db_sagas (demo_db 3))"
  "demo_saga 4 \<in> set (db_sagas (demo_db 4))" "demo_saga 5 \<in> set (db_sagas (demo_db 5))"
  by code_simp+

lemma demo_saga_type:
  "sg_type (demo_saga 1) = ''bank_sync''" "sg_type (demo_saga 3) = ''bank_sync''" "sg_type (demo_saga 5) = ''bank_sync''"
  by code_simp+

section \<open>Properties\<close>

text \<open>
  C2.  In every database the saga service can reach, whatever the registry and the order of start messages,
  replies, compensation replies, timeout sweeps and publications, every saga row is well formed.  A STARTED saga
  has succeeded on all steps before the current one, executes the current one and has not begun the later ones.
  A COMPENSATING saga waits for the compensation of its current step, whose command exists, and all later steps
  are undone.  A COMPLETED saga succeeded on every step.  A FAILED saga either has no step left succeeded or
  executing, or gave up at its current step and says so in its error detail.  A TIMED_OUT saga has nothing to
  undo.  Terminal sagas, and only they, have a completion time.
\<close>

theorem saga_rows_well_formed:
  assumes "sreach reg db" and "sg \<in> set (db_sagas db)"
  shows "\<exists>d. reg (sg_type sg) = Some d \<and> saga_wf d sg \<and> (is_active sg \<longleftrightarrow> sg_completed_at sg = None)"
proof -
  obtain d where d: "reg (sg_type sg) = Some d" "saga_wf d sg"
    using sreach_ok [OF assms(1)] assms(2) by (auto simp: db_ok_def)
  have "is_active sg \<longleftrightarrow> sg_completed_at sg = None"
    using d(2) by (auto simp: saga_wf_def status_ok_def is_active_def split: saga_status.splits)
  then show ?thesis using d by (intro exI [of _ d]) simp
qed

theorem saga_rows_well_formed_witness:
  "\<exists>d. get_saga_registry (sg_type (demo_saga 4)) = Some d \<and> saga_wf d (demo_saga 4) \<and>
     (is_active (demo_saga 4) \<longleftrightarrow> sg_completed_at (demo_saga 4) = None)"
  by (rule saga_rows_well_formed [OF sreach_demo demo_saga_mem(3)])

text \<open>
  C25.  The commands emitted for a saga.  While it is STARTED, or once it TIMED_OUT, the outbox holds for it
  exactly the commands of steps 0 to the current one, in order and once each; once COMPLETED, those of all steps.
  A COMPENSATING or FAILED saga emitted a prefix of the step commands followed by compensation commands of
  earlier steps only; with n steps, never more than 2n commands in all, re-emissions included.
\<close>

theorem saga_commands_emitted:
  assumes "sreach reg db" and "sg \<in> set (db_sagas db)" and "reg (sg_type sg) = Some d"
  shows "emitted_ok d sg (db_outbox db) \<and> length (cmds (sg_id sg) (db_outbox db)) \<le> 2 * length (sd_steps d)"
proof -
  have e: "emitted_ok d sg (db_outbox db)" and wf: "saga_wf d sg"
    using db_okD [OF sreach_ok [OF assms(1)] assms(2,3)] by auto
  have "length (cmds (sg_id sg) (db_outbox db)) \<le> 2 * length (sd_steps d)"
    using e wf unfolding emitted_ok_def rolled_back_with_def saga_wf_def shape_ok_def
    by (auto split: saga_status.splits)
  then show ?thesis using e by blast
qed

theorem saga_commands_emitted_witness:
  "emitted_ok bank_sync_definition (demo_saga 5) (db_outbox (demo_db 5)) \<and>
   length (cmds (sg_id (demo_saga 5)) (db_outbox (demo_db 5))) \<le> 2 * length (sd_steps bank_sync_definition)"
  by (rule saga_commands_emitted [OF sreach_demo demo_saga_mem(4)]) (simp add: demo_saga_type)

text \<open>
  Terminal sagas are never touched again: no reply, duplicate, late compensation reply or timeout sweep,
  in any number and order, changes the row of a COMPLETED, FAILED or TIMED_OUT saga.
\<close>

theorem saga_terminal_absorbing:
  assumes "sreach reg db" and "sg \<in> set (db_sagas db)" and "\<not> is_active sg"
  shows "sg \<in> set (db_sagas (run_events reg evs db))"
proof -
  have "saga_fuel d sg = 0" for d using assms(3) inactive_no_fuel by blast
  then show ?thesis using sreach_moves [OF assms(1), of evs] assms(2) by (auto simp: row_moves_def)
qed

theorem saga_terminal_absorbing_witness:
  "demo_saga 5 \<in> set (db_sagas (run_events get_saga_registry
     (demo_events @ [EvSweep 1000000000000 600 [''c1'']]) (demo_db 5)))"
proof (rule saga_terminal_absorbing [OF sreach_demo demo_saga_mem(4)])
  show "\<not> is_active (demo_saga 5)" by code_simp
qed

text \<open>
  A saga accepts boundedly many events: over any run, the row of a saga with n steps changes at most 3n + 2
  times, so no stream of replies, duplicates and timeouts keeps a saga going forever.
\<close>

theorem saga_changes_bounded:
  assumes "sreach reg db" and "sg \<in> set (db_sagas db)" and "reg (sg_type sg) = Some d"
  shows "row_changes reg (sg_id sg) evs db \<le> 3 * length (sd_steps d) + 2"
  using row_changes_fuel [OF assms] saga_fuel_bound [OF db_okD(1) [OF sreach_ok [OF assms(1)] assms(2,3)]]
  by (rule order_trans)

theorem saga_changes_bounded_witness:
  "row_changes get_saga_registry (sg_id (demo_saga 1)) (demo_events @ demo_events) (demo_db 1) \<le>
   3 * length (sd_steps bank_sync_definition) + 2"
  by (rule saga_changes_bounded [OF sreach_demo demo_saga_mem(1)])
    (simp only: demo_saga_type get_saga_registry_bank_sync)

section \<open>Abandoned sagas\<close>

text \<open>
  C8.  An abandoned bank synchronisation ends.  If no reply arrives any more, three sweeps of the timeout worker,
  each at least \<open>max_age\<close> after the last activity it sees, never raise and leave the saga in a terminal status:
  the first times it out or begins the roll back, the second re-emits the roll back command, the third gives up.
\<close>

theorem abandoned_saga_terminates:
  assumes "sreach get_saga_registry db" and "sg \<in> set (db_sagas db)" and "sg_updated_at sg = Some t"
    and "t \<le> now1 - usec max_age" and "now1 \<le> now2 - usec max_age" and "now2 \<le> now3 - usec max_age"
  shows "\<exists>h1 db1 h2 db2 h3 db3 sg'.
    check_timeouts get_saga_registry now1 max_age db = Inr (h1, db1) \<and>
    check_timeouts get_saga_registry now2 max_age db1 = Inr (h2, db2) \<and>
    check_timeouts get_saga_registry now3 max_age db2 = Inr (h3, db3) \<and>
    sg' \<in> set (db_sagas db3) \<and> sg_id sg' = sg_id sg \<and> \<not> is_active sg'"
proof -
  note ok = sreach_ok [OF assms(1)] and cx = bank.sreach_ctxs [OF assms(1)]
  have "quiet (Suc 2) (now1 - usec max_age) sg"
    using assms(3,4) by (auto simp: quiet_def sweep_rank_def split: saga_status.splits)
  from bank.check_timeouts_progress [OF ok cx assms(2) this]
  obtain h1 db1 sg1 where 1: "check_timeouts get_saga_registry now1 max_age db = Inr (h1, db1)"
    "db_ok get_saga_registry db1" "bank.ctxs_ok db1" "sg1 \<in> set (db_sagas db1)" "same_saga sg sg1" "quiet 2 now1 sg1"
    by blast
  have "quiet (Suc 1) (now2 - usec max_age) sg1" using quiet_later [OF 1(6) assms(5)] by (simp add: numeral_2_eq_2)
  from bank.check_timeouts_progress [OF 1(2,3,4) this]
  obtain h2 db2 sg2 where 2: "check_timeouts get_saga_registry now2 max_age db1 = Inr (h2, db2)"
    "db_ok get_saga_registry db2" "bank.ctxs_ok db2" "sg2 \<in> set (db_sagas db2)" "same_saga sg1 sg2" "quiet 1 now2 sg2"
    by blast
  have "quiet (Suc 0) (now3 - usec max_age) sg2" using quiet_later [OF 2(6) assms(6)] by simp
  from bank.check_timeouts_progress [OF 2(2,3,4) this]
  obtain h3 db3 sg3 where 3: "check_timeouts get_saga_registry now3 max_age db2 = Inr (h3, db3)"
    "sg3 \<in> set (db_sagas db3)" "same_saga sg2 sg3" "quiet 0 now3 sg3"
    by blast
  have "sg_id sg3 = sg_id sg" using 1(5) 2(5) 3(3) by (simp add: same_saga_def)
  moreover have "\<not> is_active sg3" using 3(4) sweep_rank_0 by (simp add: quiet_def)
  ultimately show ?thesis using 1(1) 2(1) 3(1,2) by blast
qed

theorem abandoned_saga_terminates_witness:
  "\<exists>h1 db1 h2 db2 h3 db3 sg'.
    check_timeouts get_saga_registry (30 + usec 600) 600 (demo_db 3) = Inr (h1, db1) \<and>
    check_timeouts get_saga_registry (30 + usec 1200) 600 db1 = Inr (h2, db2) \<and>
    check_timeouts get_saga_registry (30 + usec 1800) 600 db2 = Inr (h3, db3) \<and>
    sg' \<in> set (db_sagas db3) \<and> sg_id sg' = sg_id (demo_saga 3) \<and> \<not> is_active sg'"
proof (rule abandoned_saga_terminates [OF sreach_demo demo_saga_mem(2)])
  show "sg_updated_at (demo_saga 3) = Some 30" by code_simp
qed simp_all

section \<open>Start messages\<close>

text \<open>A delivered start message: the identifier it would be given, the clock and the payload.\<close>

type_synonym start_event = "string \<times> instant \<times> dict"

fun start_handle :: "registry \<Rightarrow> start_event \<Rightarrow> saga_db \<Rightarrow> saga_db" where
  "start_handle reg (new_id, now, payload) db = snd (start_consumer_handle reg new_id now payload db)"

fun start_event_key :: "start_event \<Rightarrow> string" where
  "start_event_key (new_id, now, payload) =
     (case parse_start_event payload of Inl _ \<Rightarrow> new_id | Inr (_, _, corr) \<Rightarrow> start_key new_id corr)"

fun startable :: "registry \<Rightarrow> start_event \<Rightarrow> bool" where
  "startable reg (new_id, now, payload) =
     (case parse_start_event payload of
        Inl _ \<Rightarrow> False
      | Inr (ty, ctx, _) \<Rightarrow>
          (case reg ty of
             None \<Rightarrow> False
           | Some d \<Rightarrow> sd_steps d \<noteq> [] \<and> (case sd_build_command d 0 ctx of Inl _ \<Rightarrow> False | Inr _ \<Rightarrow> True)))"

lemma start_saga_known:
  assumes "db_ok reg db" and "start_key new_id corr \<in> sg_id ` set (db_sagas db)"
  shows "\<exists>e. start_saga reg new_id now ty ctx corr db = Inl e"
  using start_saga_Inr [OF assms(1), of new_id now ty ctx corr] assms(2)
  by (cases "start_saga reg new_id now ty ctx corr db") auto

lemma start_handle_unchanged:
  assumes "\<And>ty ctx corr. parse_start_event payload = Inr (ty, ctx, corr) \<Longrightarrow>
      \<exists>e. start_saga reg new_id now ty ctx corr db = Inl e"
  shows "start_handle reg (new_id, now, payload) db = db"
proof (cases "parse_start_event payload")
  case (Inr res)
  obtain ty ctx corr where res: "res = (ty, ctx, corr)" by (cases res)
  then obtain e where "start_saga reg new_id now ty ctx corr db = Inl e" using assms Inr by blast
  then show ?thesis using Inr by (simp add: start_consumer_handle_def res split: saga_error.splits)
qed (simp add: start_consumer_handle_def)

lemma startable_starts:
  assumes "startable reg (new_id, now, payload)" and "parse_start_event payload = Inr (ty, ctx, corr)"
    and ok: "db_ok reg db" and new: "start_key new_id corr \<notin> sg_id ` set (db_sagas db)"
  shows "\<exists>sg' db'. start_saga reg new_id now ty ctx corr db = Inr (sg', db')"
proof -
  obtain d p where d: "reg ty = Some d" "sd_steps d \<noteq> []" "sd_build_command d 0 ctx = Inr p"
    using assms(1,2) by (auto split: option.splits sum.splits)
  have "repo_get_by_correlation_id (start_key new_id corr) (db_sagas db) = None"
    using db_ok_correlation [OF ok] new by blast
  then show ?thesis
    using d by (auto simp: start_saga_def registry_get_def Let_def start_key_def guardE_def
        publish_step_command_def lift_py_def of_option_def)
qed

interpretation saga_start: idempotent_consumer "start_handle reg" start_event_key "startable reg"
  "\<lambda>db. sg_id ` set (db_sagas db)" "db_ok reg" for reg :: registry
proof
  fix db and e :: start_event
  obtain new_id now payload where e: "e = (new_id, now, payload)" by (cases e)
  assume ok: "db_ok reg db"
  show "db_ok reg (start_handle reg e db)"
    and "sg_id ` set (db_sagas db) \<subseteq> sg_id ` set (db_sagas (start_handle reg e db))"
    using start_consumer_ok [OF ok, of new_id now payload] by (auto simp: e)
  show "start_handle reg e db = db" if "\<not> startable reg e"
    unfolding e
  proof (rule start_handle_unchanged)
    fix ty ctx corr assume p: "parse_start_event payload = Inr (ty, ctx, corr)"
    show "\<exists>e. start_saga reg new_id now ty ctx corr db = Inl e"
    proof (cases "start_saga reg new_id now ty ctx corr db")
      case (Inr r)
      then obtain sg' db' where s: "start_saga reg new_id now ty ctx corr db = Inr (sg', db')" by (cases r) auto
      then have "\<exists>d. reg ty = Some d \<and> sd_steps d \<noteq> []"
        by (auto simp: start_saga_def registry_get_def result_simps Let_def publish_step_command_def)
      then show ?thesis using start_saga_Inr [OF ok s] that p by (auto simp: e)
    qed simp
  qed
  show "start_handle reg e db = db" if "start_event_key e \<in> sg_id ` set (db_sagas db)"
    unfolding e by (rule start_handle_unchanged, rule start_saga_known [OF ok]) (use that in \<open>auto simp: e\<close>)
  show "start_event_key e \<in> sg_id ` set (db_sagas (start_handle reg e db))" if s: "startable reg e"
  proof (cases "start_event_key e \<in> sg_id ` set (db_sagas db)")
    case True
    then show ?thesis using start_consumer_ok [OF ok, of new_id now payload] by (auto simp: e)
  next
    case False
    obtain ty ctx corr where p: "parse_start_event payload = Inr (ty, ctx, corr)"
      using s by (auto simp: e split: sum.splits)
    have "startable reg (new_id, now, payload)" and "start_key new_id corr \<notin> sg_id ` set (db_sagas db)"
      using s False p by (auto simp: e)
    then obtain sg' db' where st: "start_saga reg new_id now ty ctx corr db = Inr (sg', db')"
      using startable_starts [OF _ p ok] by blast
    then show ?thesis using start_saga_Inr [OF ok st] p by (auto simp: e start_consumer_handle_def)
  qed
qed

lemma run_keeps_ids:
  assumes "sreach reg db"
  shows "sg_id ` set (db_sagas db) \<subseteq> sg_id ` set (db_sagas (run_events reg evs db))"
proof
  fix i assume "i \<in> sg_id ` set (db_sagas db)"
  then obtain sg where "sg \<in> set (db_sagas db)" "i = sg_id sg" by blast
  then obtain sg' where "sg' \<in> set (db_sagas (run_events reg evs db))" "sg_id sg' = i"
    using sreach_moves [OF assms, of evs] unfolding row_moves_def same_saga_def by metis
  then show "i \<in> sg_id ` set (db_sagas (run_events reg evs db))" by (metis imageI)
qed

text \<open>
  C26.  A saga is started once.  After a start message that starts a saga, any later start message with the same
  correlation id is acknowledged without effect, whatever start messages, replies, timeouts and publications
  happened in between, even once the saga has ended.
\<close>

theorem saga_started_once:
  assumes "sreach reg db" and "startable reg e" and "start_event_key e' = start_event_key e"
  shows "start_event_key e \<in> sg_id ` set (db_sagas (start_handle reg e db)) \<and>
    start_handle reg e' (run_events reg evs (start_handle reg e db)) = run_events reg evs (start_handle reg e db)"
proof -
  obtain new_id now payload where e: "e = (new_id, now, payload)" by (cases e)
  have r: "sreach reg (start_handle reg e db)"
    using sreach.step [OF assms(1), of "EvStart new_id now payload"] by (simp add: e)
  have k: "start_event_key e \<in> sg_id ` set (db_sagas (start_handle reg e db))"
    by (rule saga_start.recorded [OF sreach_ok [OF assms(1)] assms(2)])
  then have "start_event_key e' \<in> sg_id ` set (db_sagas (run_events reg evs (start_handle reg e db)))"
    using run_keeps_ids [OF r, of evs] assms(3) by auto
  then show ?thesis using k saga_start.duplicate [OF sreach_ok [OF sreach_run [OF r]]] by blast
qed

theorem saga_started_once_witness:
  "start_event_key (''n1'', 10, demo_payload) \<in> sg_id ` set (db_sagas
      (start_handle get_saga_registry (''n1'', 10, demo_payload) empty_db)) \<and>
   start_handle get_saga_registry (''n2'', 99, demo_payload)
     (run_events get_saga_registry (tl demo_events) (start_handle get_saga_registry (''n1'', 10, demo_payload) empty_db)) =
   run_events get_saga_registry (tl demo_events) (start_handle get_saga_registry (''n1'', 10, demo_payload) empty_db)"
proof (rule saga_started_once [OF sreach.init])
  show "startable get_saga_registry (''n1'', 10, demo_payload)" by code_simp
  show "start_event_key (''n2'', 99, demo_payload) = start_event_key (''n1'', 10, demo_payload)" by code_simp
qed

section \<open>Replies\<close>

definition expects_reply :: "saga_db \<Rightarrow> saga_reply \<Rightarrow> bool" where
  "expects_reply db reply \<longleftrightarrow>
     (\<exists>sg s. sg \<in> set (db_sagas db) \<and> rp_saga_id reply = Some (sg_id sg) \<and>
        sg_status sg = (if rp_is_compensation reply then SagaCompensating else SagaStarted) \<and>
        current_step_obj sg = Some s \<and> rp_step_name reply = Some (st_name s))"

text \<open>
  A reply no saga waits for has no effect.  A reply whose saga is unknown, or is not in the status the
  reply belongs to, or is at another step, leaves the database as it is and is never retried: it is acknowledged
  when the saga exists in another status, and dead-lettered otherwise.
\<close>

theorem unexpected_reply_no_effect:
  assumes "sreach reg db" and "\<not> expects_reply db reply"
  shows "reply_consumer_handle reg now reply db =
    (if \<exists>sg nm. sg \<in> set (db_sagas db) \<and> rp_saga_id reply = Some (sg_id sg) \<and> sg_id sg \<noteq> '''' \<and>
          rp_step_name reply = Some nm \<and> nm \<noteq> '''' \<and>
          sg_status sg \<noteq> (if rp_is_compensation reply then SagaCompensating else SagaStarted)
     then Handled else Poison, db)"
proof (cases "rp_saga_id reply = None \<or> rp_step_name reply = None \<or> rp_saga_id reply = Some [] \<or> rp_step_name reply = Some []")
  case True
  then show ?thesis by (auto simp: reply_consumer_handle_def split: option.splits)
next
  case False
  then obtain sid nm where ids: "rp_saga_id reply = Some sid" "rp_step_name reply = Some nm" "sid \<noteq> []" "nm \<noteq> []" by auto
  have ok: "db_ok reg db" by (rule sreach_ok [OF assms(1)])
  show ?thesis
  proof (cases "repo_get_by_id sid (db_sagas db)")
    case None
    then have "sg_id sg \<noteq> sid" if "sg \<in> set (db_sagas db)" for sg using sreach_get [OF assms(1) that] by auto
    then show ?thesis
      using None ids
      by (auto simp: reply_consumer_handle_def handle_reply_def handle_compensation_reply_def of_option_def
          is_domain_error_def)
  next
    case (Some sg)
    then have sg: "sg \<in> set (db_sagas db)" "sg_id sg = sid" and "\<exists>d. reg (sg_type sg) = Some d"
      using db_ok_get [OF ok] by blast+
    then obtain d where d: "registry_get reg (sg_type sg) = Inr d" by (auto simp: registry_get_def of_option_def)
    have uniq: "sg' = sg" if "sg' \<in> set (db_sagas db)" "sg_id sg' = sid" for sg'
      using sreach_get [OF assms(1) that(1)] that(2) Some by simp
    show ?thesis
    proof (cases "sg_status sg = (if rp_is_compensation reply then SagaCompensating else SagaStarted)")
      case True
      then have "check_current_step sid nm sg = Inl (SagaStepMismatch sid
          (case current_step_obj sg of None \<Rightarrow> ''<none>'' | Some s \<Rightarrow> st_name s) nm)"
        using assms(2) sg ids by (auto simp: expects_reply_def check_current_step_def split: option.splits)
      then have h: "reply_consumer_handle reg now reply db = (Poison, db)"
        using Some d True ids
        by (simp add: reply_consumer_handle_def handle_reply_def handle_compensation_reply_def of_option_def
            is_domain_error_def guardE_def)
      have "sg_status sg' = (if rp_is_compensation reply then SagaCompensating else SagaStarted)"
        if "sg' \<in> set (db_sagas db)" "rp_saga_id reply = Some (sg_id sg')" for sg'
        using uniq [OF that(1)] that(2) ids(1) True by simp
      then show ?thesis unfolding h by (subst if_not_P) (blast, rule refl)
    next
      case False
      then show ?thesis
        using Some ids sg
        by (auto simp: reply_consumer_handle_def handle_reply_def handle_compensation_reply_def of_option_def
            is_domain_error_def guardE_def)
    qed
  qed
qed

theorem unexpected_reply_no_effect_witness:
  "reply_consumer_handle get_saga_registry 60 (demo_reply ''import_transactions'' True None True) (demo_db 5) =
    (if \<exists>sg nm. sg \<in> set (db_sagas (demo_db 5)) \<and>
          rp_saga_id (demo_reply ''import_transactions'' True None True) = Some (sg_id sg) \<and> sg_id sg \<noteq> '''' \<and>
          rp_step_name (demo_reply ''import_transactions'' True None True) = Some nm \<and> nm \<noteq> '''' \<and>
          sg_status sg \<noteq> (if rp_is_compensation (demo_reply ''import_transactions'' True None True)
             then SagaCompensating else SagaStarted)
     then Handled else Poison, demo_db 5)"
proof (rule unexpected_reply_no_effect [OF sreach_demo])
  have "list_all (\<lambda>sg. sg_status sg = SagaFailed) (db_sagas (demo_db 5))" by code_simp
  then show "\<not> expects_reply (demo_db 5) (demo_reply ''import_transactions'' True None True)"
    by (auto simp: expects_reply_def list_all_iff split: if_splits)
qed

section \<open>The bank synchronisation saga\<close>

text \<open>A reply an active saga waits for is handled exactly when the orchestrator accepts it.\<close>

definition after_reply :: "instant \<Rightarrow> saga \<Rightarrow> saga" where
  "after_reply now sg =
     (set_step (sg_current_step sg) (\<lambda>s. s\<lparr>st_reply_received_at := Some now\<rparr>) sg)\<lparr>sg_updated_at := Some now\<rparr>"

definition bank_reply :: "string \<Rightarrow> string \<Rightarrow> bool \<Rightarrow> string option \<Rightarrow> dict option \<Rightarrow> saga_reply" where
  "bank_reply sid nm ok err res =
     \<lparr>rp_saga_id = Some sid, rp_step_name = Some nm, rp_success = ok, rp_error_message = err,
      rp_result_data = res, rp_is_compensation = False\<rparr>"

lemma handle_reply_expected:
  assumes "sreach reg db" and "sg \<in> set (db_sagas db)" and "sg_status sg = SagaStarted"
    and "reg (sg_type sg) = Some d" and "current_step_obj sg = Some s" and "st_name s = nm"
  shows "handle_reply reg now (sg_id sg) nm ok res err db =
    bindE (if ok then advance d now res (after_reply now sg) (db_outbox db)
           else begin_compensation d now err (after_reply now sg) (db_outbox db))
      (\<lambda>(sg2, ob). Inr (sg2, \<lparr>db_sagas = repo_update sg2 (db_sagas db), db_outbox = ob\<rparr>))"
  using assms sreach_get [OF assms(1,2)]
  by (simp add: handle_reply_def registry_get_def of_option_def check_current_step_def guardE_def Let_def
      after_reply_def)

lemma lift_py_Inl: "lift_py m = Inl e \<Longrightarrow> \<exists>p. e = SagaPyError p"
  by (auto simp: lift_py_def split: sum.splits)

lemma advance_Inl: "advance d now res sg ob = Inl e \<Longrightarrow> \<exists>p. e = SagaPyError p"
  by (auto simp: advance_def publish_step_command_def Let_def result_simps dest: lift_py_Inl split: if_splits)

lemma advance_next:
  assumes "advance d now res sg ob = Inr (sg', ob')" and "Suc (sg_current_step sg) < length (sg_steps sg)"
  shows "sg_current_step sg' = Suc (sg_current_step sg) \<and> sg_status sg' = sg_status sg \<and>
    sd_on_reply d (sg_current_step sg) (sg_context sg) res = Inr (sg_context sg')"
  using assms by (auto simp: advance_def Let_def result_simps is_last_step_def split: if_splits)

lemma reply_consumer_success:
  assumes "handle_reply reg now sid nm ok res err db = Inr (sg2, db2)" and "sid \<noteq> []" and "nm \<noteq> []"
  shows "reply_consumer_handle reg now (bank_reply sid nm ok err res) db = (Handled, db2)"
  using assms by (simp add: reply_consumer_handle_def bank_reply_def)

lemma reply_consumer_successD:
  assumes "reply_consumer_handle reg now (bank_reply sid nm ok err res) db = (Handled, db2)"
    and "sid \<noteq> []" and "nm \<noteq> []"
    and "\<And>e. handle_reply reg now sid nm ok res err db = Inl e \<Longrightarrow> \<exists>p. e = SagaPyError p"
  shows "\<exists>sg2. handle_reply reg now sid nm ok res err db = Inr (sg2, db2)"
proof (cases "handle_reply reg now sid nm ok res err db")
  case (Inl e)
  then show ?thesis using assms by (auto simp: reply_consumer_handle_def bank_reply_def is_domain_error_def)
next
  case (Inr r)
  then show ?thesis using assms by (cases r) (auto simp: reply_consumer_handle_def bank_reply_def)
qed

lemma repo_update_mem:
  assumes "sreach reg db" and "sg \<in> set (db_sagas db)" and "same_saga sg sg'"
  shows "sg' \<in> set (repo_update sg' (db_sagas db))"
proof -
  have ok: "db_ok reg db" by (rule sreach_ok [OF assms(1)])
  have dist: "distinct (map sg_id (db_sagas db))" using ok by (simp add: db_ok_def)
  obtain d where d: "reg (sg_type sg) = Some d" using ok assms(2) by (auto simp: db_ok_def)
  show ?thesis
    using repo_update_eq [OF dist assms(2) db_okD(2) [OF ok assms(2) d] assms(3)]
      update_where_key_mem [OF dist assms(2)] assms(3) by (simp add: same_saga_def)
qed

lemma bank_sync_steps_nth [simp]:
  "length bank_sync_steps = 3" "sd_name (bank_sync_steps ! Suc 0) = ''import_transactions''"
  "sd_name (bank_sync_steps ! 2) = ''mark_sync_complete''"
  "sd_compensate_event_type (bank_sync_steps ! Suc 0) = Some ''saga.cmd.rollback_import''"
  "sd_command_event_type (bank_sync_steps ! 2) = ''saga.cmd.mark_sync_complete''"
  by (simp_all add: bank_sync_steps_def)

lemma bank_sync_imported_ids:
  "bank_sync_on_reply 1 ctx (Some res) = Inr ctx' \<Longrightarrow>
   dget ctx' ''imported_ids'' = Some (dget_or res ''imported_ids'' (JList []))"
  by (auto simp: bank_sync_on_reply_def Let_def result_simps)

lemma bank_row:
  assumes "sreach get_saga_registry db" and "sg \<in> set (db_sagas db)" and "sg_status sg = SagaStarted"
  shows "get_saga_registry (sg_type sg) = Some bank_sync_definition" "in_flight bank_sync_definition sg"
    "length (sg_steps sg) = 3" "\<And>i. i < 3 \<Longrightarrow> st_name (sg_steps sg ! i) = sd_name (bank_sync_steps ! i)"
proof -
  have ok: "db_ok get_saga_registry db" by (rule sreach_ok [OF assms(1)])
  obtain d where d: "get_saga_registry (sg_type sg) = Some d" using ok assms(2) by (auto simp: db_ok_def)
  have db: "d = bank_sync_definition" using get_saga_registry_only [OF d] by simp
  show "get_saga_registry (sg_type sg) = Some bank_sync_definition" using d db by simp
  have shape: "shape_ok bank_sync_definition sg" and wf: "saga_wf bank_sync_definition sg"
    using db_okD [OF ok assms(2)] d db by auto
  show "in_flight bank_sync_definition sg" using wf assms(3) by (simp add: saga_wf_def status_ok_def)
  show len: "length (sg_steps sg) = 3" using shape_length [OF shape] by simp
  show "st_name (sg_steps sg ! i) = sd_name (bank_sync_steps ! i)" if "i < 3" for i
    using shape that len unfolding shape_ok_def by (metis bank_sync_fields(1) bank_sync_steps_nth(1) nth_map)
qed

lemma map_update_same: "i < length xs \<Longrightarrow> (map f xs)[i := f (xs ! i)] = map f xs"
  by (metis list_update_id nth_map)

definition command_payload :: "saga \<Rightarrow> string \<Rightarrow> string \<Rightarrow> dict \<Rightarrow> dict" where
  "command_payload sg step_name event_type payload =
     dset (dset (dset (dset payload ''saga_id'' (JStr (sg_id sg))) ''saga_type'' (JStr (sg_type sg)))
       ''step_name'' (JStr step_name)) ''event_type'' (JStr event_type)"

lemma outbox_command_row:
  "\<exists>row. outbox_command now sg nm t p ob = ob @ [row] \<and> ob_event_type row = t \<and> ob_payload row = command_payload sg nm t p"
  by (simp add: outbox_command_def ob_add_def ob_build_def command_payload_def)

text \<open>A successful reply to a step that is not the last one: the next command goes out.\<close>

lemma bank_sync_advance:
  assumes r: "sreach get_saga_registry db" and mem: "sg \<in> set (db_sagas db)" and st: "sg_status sg = SagaStarted"
    and id: "sg_id sg \<noteq> []" and i: "sg_current_step sg < 2"
    and h: "reply_consumer_handle get_saga_registry now
           (bank_reply (sg_id sg) (sd_name (bank_sync_steps ! sg_current_step sg)) True None (Some res)) db = (Handled, db1)"
  obtains sg2 payload row where "sreach get_saga_registry db1" and "sg2 \<in> set (db_sagas db1)" and "sg_id sg2 = sg_id sg"
    and "sg_status sg2 = SagaStarted" and "sg_current_step sg2 = Suc (sg_current_step sg)"
    and "bank_sync_on_reply (sg_current_step sg) (sg_context sg) (Some res) = Inr (sg_context sg2)"
    and "bank_sync_build_command (Suc (sg_current_step sg)) (sg_context sg2) = Inr payload"
    and "db_outbox db1 = db_outbox db @ [row]"
    and "ob_payload row = command_payload sg2 (sd_name (bank_sync_steps ! Suc (sg_current_step sg)))
           (sd_command_event_type (bank_sync_steps ! Suc (sg_current_step sg))) payload"
proof -
  let ?d = bank_sync_definition and ?i = "sg_current_step sg" and ?nm = "sd_name (bank_sync_steps ! sg_current_step sg)"
  note row = bank_row [OF r mem st]
  have cur: "current_step_obj sg = Some (sg_steps sg ! ?i)" using row(3) i by (simp add: current_step_obj_def)
  have nm: "st_name (sg_steps sg ! ?i) = ?nm" using row(4) [of ?i] i by simp
  have ne: "?nm \<noteq> []" using i by (auto simp: bank_sync_steps_def nth_Cons split: nat.splits)
  note exp = handle_reply_expected [OF r mem st row(1) cur nm, of now True "Some res" None]
  obtain sg2 where h1: "handle_reply get_saga_registry now (sg_id sg) ?nm True (Some res) None db = Inr (sg2, db1)"
    using reply_consumer_successD [OF h id ne] exp by (auto simp: result_simps dest!: advance_Inl)
  obtain ob where adv: "advance ?d now (Some res) (after_reply now sg) (db_outbox db) = Inr (sg2, ob)"
    and db1: "db1 = \<lparr>db_sagas = repo_update sg2 (db_sagas db), db_outbox = ob\<rparr>"
    using h1 unfolding exp by (auto simp: result_simps)
  have t: "sg_current_step (after_reply now sg) = ?i" "length (sg_steps (after_reply now sg)) = 3"
    "sg_status (after_reply now sg) = SagaStarted" "sg_context (after_reply now sg) = sg_context sg"
    using row(3) st by (simp_all add: after_reply_def)
  then have sg2: "sg_current_step sg2 = Suc ?i" "sg_status sg2 = SagaStarted"
    "bank_sync_on_reply ?i (sg_context sg) (Some res) = Inr (sg_context sg2)"
    using advance_next [OF adv] i by simp_all
  have "\<exists>payload. bank_sync_build_command (Suc ?i) (sg_context sg2) = Inr payload \<and>
      ob = outbox_command now sg2 (sd_name (bank_sync_steps ! Suc ?i)) (sd_command_event_type (bank_sync_steps ! Suc ?i)) payload (db_outbox db)"
    using adv t i
    by (auto simp: advance_def Let_def result_simps is_last_step_def publish_step_command_def lift_py_def split: if_splits sum.splits)
  then obtain payload where p: "bank_sync_build_command (Suc ?i) (sg_context sg2) = Inr payload"
    "ob = outbox_command now sg2 (sd_name (bank_sync_steps ! Suc ?i)) (sd_command_event_type (bank_sync_steps ! Suc ?i)) payload (db_outbox db)"
    by blast
  have r1: "sreach get_saga_registry db1"
    using sreach.step [OF r, of "EvReply now (bank_reply (sg_id sg) ?nm True None (Some res))"] h by simp
  have ac: "accepted get_saga_registry sg sg2 db db1"
    using handle_reply_accepted [OF sreach_ok [OF r] h1] sreach_get [OF r] mem
    by (metis accepted_def option.inject)
  then have same: "same_saga sg sg2" unfolding accepted_def saga_trans_def by blast
  have mem2: "sg2 \<in> set (db_sagas db1)" using repo_update_mem [OF r mem same] by (simp add: db1)
  have id2: "sg_id sg2 = sg_id sg" using same by (simp add: same_saga_def)
  obtain rw where "ob = db_outbox db @ [rw]" "ob_payload rw = command_payload sg2 (sd_name (bank_sync_steps ! Suc ?i))
      (sd_command_event_type (bank_sync_steps ! Suc ?i)) payload"
    using outbox_command_row p(2) by metis
  then show ?thesis using that r1 mem2 id2 sg2 p(1) by (simp add: db1)
qed


text \<open>The compensation that begins when the last step fails after an import.\<close>

lemma bank_sync_begin_compensation:
  assumes "length (sg_steps sg) = 3" and "sg_current_step sg = 2" and "step_st sg (Suc 0) = StepSucceeded"
    and "dget (sg_context sg) ''imported_ids'' = Some ids" and "truthy ids" and "dget (sg_context sg) ''user_id'' = Some u"
  shows "\<exists>sg'. begin_compensation bank_sync_definition now err sg ob =
      Inr (sg', outbox_command now sg' (st_name (sg_steps sg ! Suc 0)) ''saga.cmd.rollback_import''
         [(''user_id'', u), (''transaction_ids'', ids)] ob) \<and>
    sg_status sg' = SagaCompensating \<and> sg_current_step sg' = 1 \<and> same_saga sg sg'"
proof -
  let ?f = "\<lambda>s. s\<lparr>st_status := StepFailed, st_error_detail := err\<rparr>"
  let ?sg = "(set_step 2 ?f sg)\<lparr>sg_status := SagaCompensating, sg_error_detail := err, sg_current_step := 1\<rparr>"
  have two: "(2 :: nat) = Suc (Suc 0)" by simp
  have "begin_compensation bank_sync_definition now err sg ob =
      Inr (?sg, outbox_command now ?sg (st_name (sg_steps sg ! Suc 0)) ''saga.cmd.rollback_import''
         [(''user_id'', u), (''transaction_ids'', ids)] ob)"
    using assms
    by (simp add: begin_compensation_def compensate_previous_def outbox_compensation_command_def Let_def two lift_py_def
        dget_or_def dreq_def bank_sync_build_compensate_command_def of_option_def)
  moreover have "same_saga sg ?sg"
    using same_saga_set_step [OF same_saga_refl, of ?f sg 2] by (simp add: same_saga_def)
  ultimately show ?thesis by (intro exI [of _ ?sg]) simp
qed

lemma bank_sync_last_fails:
  assumes r: "sreach get_saga_registry db" and mem: "sg \<in> set (db_sagas db)" and st: "sg_status sg = SagaStarted"
    and id: "sg_id sg \<noteq> []" and cur: "sg_current_step sg = 2"
    and ids: "dget (sg_context sg) ''imported_ids'' = Some ids" "truthy ids"
    and h: "reply_consumer_handle get_saga_registry now (bank_reply (sg_id sg) ''mark_sync_complete'' False err None) db = (out, db')"
  obtains row sg' u where "out = Handled" and "sreach get_saga_registry db'" and "db_outbox db' = db_outbox db @ [row]"
    and "ob_event_type row = ''saga.cmd.rollback_import''" and "dget (sg_context sg) ''user_id'' = Some u"
    and "ob_payload row = command_payload sg' ''import_transactions'' ''saga.cmd.rollback_import''
           [(''user_id'', u), (''transaction_ids'', ids)]"
    and "sg' \<in> set (db_sagas db')" and "sg_id sg' = sg_id sg" and "sg_status sg' = SagaCompensating" and "sg_current_step sg' = 1"
proof -
  let ?d = bank_sync_definition
  note row = bank_row [OF r mem st]
  have "bank.ctxs_ok db" by (rule bank.sreach_ctxs [OF r])
  then obtain u where u: "dget (sg_context sg) ''user_id'' = Some u"
    using mem row(1) unfolding bank.ctxs_ok_def by (metis not_None_eq)
  have c: "current_step_obj sg = Some (sg_steps sg ! 2)" using row(3) cur by (simp add: current_step_obj_def)
  have nm: "st_name (sg_steps sg ! 2) = ''mark_sync_complete''" "st_name (sg_steps sg ! Suc 0) = ''import_transactions''"
    using row(4) [of 2] row(4) [of 1] by simp_all
  note exp = handle_reply_expected [OF r mem st row(1) c nm(1), of now False None err]
  have succ: "step_st sg (Suc 0) = StepSucceeded" using row(2) cur by (simp add: in_flight_def)
  let ?sg = "after_reply now sg"
  have t: "same_saga sg ?sg" "length (sg_steps ?sg) = 3" "sg_current_step ?sg = 2" "step_st ?sg (Suc 0) = StepSucceeded"
    "sg_context ?sg = sg_context sg" "st_name (sg_steps ?sg ! Suc 0) = ''import_transactions''"
    using touched_reply(1) [where sg = sg and i = "sg_current_step sg" and t = "Some now" and u = "Some now"] row(3) cur succ nm(2)
    by (simp_all add: after_reply_def touched_def set_step_def)
  from bank_sync_begin_compensation [OF t(2-4), of ids u now err "db_outbox db"] ids u t(5,6)
  obtain sg' where bc: "begin_compensation ?d now err ?sg (db_outbox db) = Inr (sg', outbox_command now sg' ''import_transactions''
       ''saga.cmd.rollback_import'' [(''user_id'', u), (''transaction_ids'', ids)] (db_outbox db))"
    and s: "sg_status sg' = SagaCompensating" "sg_current_step sg' = 1" "same_saga ?sg sg'" by auto
  have same: "same_saga sg sg'" by (rule same_saga_trans [OF t(1) s(3)])
  obtain rw where rw: "outbox_command now sg' ''import_transactions'' ''saga.cmd.rollback_import''
      [(''user_id'', u), (''transaction_ids'', ids)] (db_outbox db) = db_outbox db @ [rw]"
    "ob_event_type rw = ''saga.cmd.rollback_import''" "ob_payload rw = command_payload sg' ''import_transactions''
      ''saga.cmd.rollback_import'' [(''user_id'', u), (''transaction_ids'', ids)]"
    using outbox_command_row by blast
  let ?db = "\<lparr>db_sagas = repo_update sg' (db_sagas db), db_outbox = db_outbox db @ [rw]\<rparr>"
  have "handle_reply get_saga_registry now (sg_id sg) ''mark_sync_complete'' False None err db = Inr (sg', ?db)"
    using exp bc rw(1) by simp
  then have "out = Handled" "db' = ?db"
    using reply_consumer_success [of get_saga_registry now "sg_id sg" "''mark_sync_complete''" False None err db] id h by simp_all
  moreover have "sreach get_saga_registry db'"
    using sreach.step [OF r, of "EvReply now (bank_reply (sg_id sg) ''mark_sync_complete'' False err None)"] h by simp
  moreover have "sg' \<in> set (repo_update sg' (db_sagas db))" by (rule repo_update_mem [OF r mem same])
  moreover have "sg_id sg' = sg_id sg" using same by (simp add: same_saga_def)
  ultimately show ?thesis using that [of rw u sg'] rw s u by simp
qed

text \<open>The reply that reports the roll back done ends the saga.\<close>

lemma bank_sync_compensated:
  assumes r: "sreach get_saga_registry db" and mem: "sg \<in> set (db_sagas db)" and st: "sg_status sg = SagaCompensating"
    and id: "sg_id sg \<noteq> []" and cur: "sg_current_step sg = 1"
  obtains sg' db' where "reply_consumer_handle get_saga_registry now \<lparr>rp_saga_id = Some (sg_id sg), rp_step_name = Some ''import_transactions'',
      rp_success = True, rp_error_message = None, rp_result_data = None, rp_is_compensation = True\<rparr> db = (Handled, db')"
    and "sg' \<in> set (db_sagas db')" and "sg_id sg' = sg_id sg" and "sg_status sg' = SagaFailed" and "db_outbox db' = db_outbox db"
proof -
  have ok: "db_ok get_saga_registry db" by (rule sreach_ok [OF r])
  obtain d where d: "get_saga_registry (sg_type sg) = Some d" using ok mem by (auto simp: db_ok_def)
  have d': "d = bank_sync_definition" using get_saga_registry_only [OF d] by simp
  have wf: "saga_wf bank_sync_definition sg" using db_okD(1) [OF ok mem d] by (simp add: d')
  note facts = compensating_facts [OF wf st]
  have len: "length (sg_steps sg) = 3" using facts(6) by simp
  have nm: "st_name (sg_steps sg ! Suc 0) = ''import_transactions''"
  proof -
    have "map st_name (sg_steps sg) = map sd_name bank_sync_steps" using facts(1) by (simp add: shape_ok_def)
    then have "map st_name (sg_steps sg) ! Suc 0 = map sd_name bank_sync_steps ! Suc 0" by simp
    then show ?thesis using len by simp
  qed
  have s0: "st_status (sg_steps sg ! 0) = StepSucceeded" using facts(2) cur by (simp add: undone_from_def)
  let ?f = "\<lambda>s. s\<lparr>st_compensated_at := Some now, st_status := StepCompensated\<rparr>"
  let ?sg = "(mark_compensated now 0 ((set_step 1 ?f (sg\<lparr>sg_updated_at := Some now\<rparr>))\<lparr>sg_current_step := 0\<rparr>))
      \<lparr>sg_current_step := 0, sg_status := SagaFailed, sg_completed_at := Some now\<rparr>"
  have "handle_compensation_reply get_saga_registry now (sg_id sg) ''import_transactions'' True None db =
      Inr (?sg, \<lparr>db_sagas = repo_update ?sg (db_sagas db), db_outbox = db_outbox db\<rparr>)"
    using sreach_get [OF r mem] st d len nm s0 cur
    by (simp add: handle_compensation_reply_def of_option_def guardE_def registry_get_def d' check_current_step_def
        current_step_obj_def compensate_previous_def set_step_def bank_sync_steps_def Let_def)
  moreover have same: "same_saga sg ?sg"
    using len by (simp add: same_saga_def mark_compensated_def set_step_def map_update map_update_same)
  ultimately show ?thesis
    using that [of "\<lparr>db_sagas = repo_update ?sg (db_sagas db), db_outbox = db_outbox db\<rparr>" ?sg] repo_update_mem [OF r mem same] id
    by (simp add: reply_consumer_handle_def mark_compensated_def)
qed

text \<open>
  C7.  A failed bank synchronisation is rolled back exactly.  When the import step reports the imported ids and
  the last step then fails, the orchestrator puts one command in the outbox, the roll back of exactly those ids
  for the user of the saga, and the saga waits for the compensation of its import step.
\<close>

theorem bank_sync_rollback_exact:
  assumes "sreach get_saga_registry db" and "sg \<in> set (db_sagas db)" and "sg_status sg = SagaStarted"
    and "sg_id sg \<noteq> []" and "sg_current_step sg = 1" and "dget res ''imported_ids'' = Some ids" and "truthy ids"
    and "reply_consumer_handle get_saga_registry now1
           (bank_reply (sg_id sg) ''import_transactions'' True None (Some res)) db = (Handled, db1)"
    and "reply_consumer_handle get_saga_registry now2
           (bank_reply (sg_id sg) ''mark_sync_complete'' False err None) db1 = (out, db2)"
  shows "out = Handled \<and>
    (\<exists>row sg'. db_outbox db2 = db_outbox db1 @ [row] \<and> ob_event_type row = ''saga.cmd.rollback_import'' \<and>
       dget (ob_payload row) ''transaction_ids'' = Some ids \<and>
       dget (ob_payload row) ''user_id'' = dget (sg_context sg) ''user_id'' \<and>
       dget (ob_payload row) ''saga_id'' = Some (JStr (sg_id sg)) \<and>
       sg' \<in> set (db_sagas db2) \<and> sg_id sg' = sg_id sg \<and> sg_status sg' = SagaCompensating \<and> sg_current_step sg' = 1)"
proof -
  have cur: "sg_current_step sg < 2" "sd_name (bank_sync_steps ! sg_current_step sg) = ''import_transactions''"
    using assms(5) by simp_all
  obtain sg2 where r1: "sreach get_saga_registry db1" and sg2: "sg2 \<in> set (db_sagas db1)" "sg_id sg2 = sg_id sg"
    "sg_status sg2 = SagaStarted" "sg_current_step sg2 = 2" "bank_sync_on_reply 1 (sg_context sg) (Some res) = Inr (sg_context sg2)"
    using bank_sync_advance [OF assms(1-4) cur(1), of now1 res db1] assms(5,8) cur(2)
    by (metis One_nat_def Suc_1)
  have ctx: "dget (sg_context sg2) ''imported_ids'' = Some ids"
    "dget (sg_context sg2) ''user_id'' = dget (sg_context sg) ''user_id''"
    using bank_sync_imported_ids [OF sg2(5)] bank_sync_on_reply_keeps [OF sg2(5), of "''user_id''"] assms(6)
    by (simp_all add: dget_or_def)
  have id2: "sg_id sg2 \<noteq> []" using sg2(2) assms(4) by simp
  obtain row sg' u where "out = Handled" "db_outbox db2 = db_outbox db1 @ [row]" "ob_event_type row = ''saga.cmd.rollback_import''"
    "dget (sg_context sg2) ''user_id'' = Some u"
    "ob_payload row = command_payload sg' ''import_transactions'' ''saga.cmd.rollback_import'' [(''user_id'', u), (''transaction_ids'', ids)]"
    "sg' \<in> set (db_sagas db2)" "sg_id sg' = sg_id sg2" "sg_status sg' = SagaCompensating" "sg_current_step sg' = 1"
    using assms(9) unfolding sg2(2) [symmetric]
    by (rule bank_sync_last_fails [OF r1 sg2(1,3) id2 sg2(4) ctx(1) assms(7)])
  then show ?thesis using ctx(2) sg2(2) by (auto simp: command_payload_def)
qed

theorem bank_sync_rollback_exact_witness:
  "Handled = Handled \<and>
    (\<exists>row sg'. db_outbox (demo_db 4) = db_outbox (demo_db 3) @ [row] \<and> ob_event_type row = ''saga.cmd.rollback_import'' \<and>
       dget (ob_payload row) ''transaction_ids'' = Some (JList [JInt 9]) \<and>
       dget (ob_payload row) ''user_id'' = dget (sg_context (demo_saga 2)) ''user_id'' \<and>
       dget (ob_payload row) ''saga_id'' = Some (JStr (sg_id (demo_saga 2))) \<and>
       sg' \<in> set (db_sagas (demo_db 4)) \<and> sg_id sg' = sg_id (demo_saga 2) \<and> sg_status sg' = SagaCompensating \<and>
       sg_current_step sg' = 1)"
proof (rule bank_sync_rollback_exact [OF sreach_demo, where res = "[(''imported_ids'', JList [JInt 9])]" and err = None])
  show "demo_saga 2 \<in> set (db_sagas (demo_db 2))" by code_simp
  show "sg_status (demo_saga 2) = SagaStarted" by code_simp
  show "sg_id (demo_saga 2) \<noteq> []" by code_simp
  show "sg_current_step (demo_saga 2) = 1" by code_simp
  show "reply_consumer_handle get_saga_registry 30 (bank_reply (sg_id (demo_saga 2)) ''import_transactions'' True None
          (Some [(''imported_ids'', JList [JInt 9])])) (demo_db 2) = (Handled, demo_db 3)" by code_simp
  show "reply_consumer_handle get_saga_registry 40 (bank_reply (sg_id (demo_saga 2)) ''mark_sync_complete'' False None
          None) (demo_db 3) = (Handled, demo_db 4)" by code_simp
qed simp_all

end
