(* ===== verification/Goals.thy ===== *)
theory Goals
  imports Complex_Main Calendar Outbox Consumer
begin

text \<open>
  goal-service: the goals with their repositories (\<open>app/adapters/outbound/postgres_goal_repository.py\<close>,
  \<open>postgres_goal_allocation_repository.py\<close>), the use cases (\<open>app/application/service.py\<close>) and the handler that
  credits the surplus of a closed budget month (\<open>app/application/budget_month_closed_handler.py\<close>) behind its
  consumer (\<open>app/workers/budget_month_closed_consumer.py\<close>).

  Money.  A NUMERIC(12, 2) column holds an integer number of cents; a finite \<open>Decimal\<close> is a rational number and
  is rounded half away from zero when it is stored, as PostgreSQL does; a value of \<open>10 ^ 10\<close> or more does not fit
  and raises.  The amounts of the request DTOs are rounded to cents by their validators, so they are cents here.
  The account service, which knows the owner of an account, is the parameter \<open>owner\<close>.
\<close>

section \<open>State\<close>

datatype goal_error =
    GoalIntegrityError
  | GoalDataError
  | MultipleResultsFound
  | GoalValueError
  | GoalAssertionError
  | NotAccountOwner
  | AccountNotFoundForGoal int
  | UpstreamServiceUnavailable

datatype stored_goal_status = StoredActive | StoredPaused
datatype goal_status = GoalActive | GoalPaused | GoalCompleted | GoalExpired

record goal_row =
  g_id :: int
  g_name :: "string option"
  g_target :: int
  g_current :: int
  g_target_date :: "date option"
  g_status :: stored_goal_status
  g_account :: int
  g_default :: bool
  g_deleted_at :: "instant option"

record allocation_row =
  al_source_key :: string
  al_goal_id :: int
  al_account_id :: int
  al_amount :: int
  al_correlation_id :: "string option"
  al_applied_at :: instant

record surplus_row =
  us_source_key :: string
  us_account_id :: int
  us_amount :: int
  us_reason :: string
  us_correlation_id :: "string option"
  us_observed_at :: instant

text \<open>The events goal-service publishes; amounts of the first two are cents, those of the last exact decimals.\<close>

datatype goal_event =
    GoalCreatedEvent int int "string option" int int "date option" stored_goal_status
  | GoalUpdatedEvent int int "string option" int int "date option" stored_goal_status
  | GoalDeletedEvent int int
  | GoalReachedEvent int int "string option" rat rat

fun goal_event_type :: "goal_event \<Rightarrow> string" where
  "goal_event_type (GoalCreatedEvent _ _ _ _ _ _ _) = ''goal.created''"
| "goal_event_type (GoalUpdatedEvent _ _ _ _ _ _ _) = ''goal.updated''"
| "goal_event_type (GoalDeletedEvent _ _) = ''goal.deleted''"
| "goal_event_type (GoalReachedEvent _ _ _ _ _) = ''goal.reached''"

record goal_db =
  gd_goals :: "goal_row list"
  gd_allocations :: "allocation_row list"
  gd_unallocated :: "surplus_row list"
  gd_outbox :: "goal_event outbox"

section \<open>Stored amounts\<close>

definition numeric_cents :: "rat \<Rightarrow> int" where
  "numeric_cents x = (if x < 0 then - \<lfloor>- x * 100 + 1 / 2\<rfloor> else \<lfloor>x * 100 + 1 / 2\<rfloor>)"

definition numeric_limit :: int where "numeric_limit = 10 ^ 12"

definition fits :: "int \<Rightarrow> goal_error + int" where
  "fits c = (if \<bar>c\<bar> < numeric_limit then Inr c else Inl GoalDataError)"

abbreviation dec :: "int \<Rightarrow> rat" where
  "dec c \<equiv> of_int c / 100"

section \<open>The repositories\<close>

definition live :: "goal_row \<Rightarrow> bool" where
  "live g \<longleftrightarrow> g_deleted_at g = None"

definition goal_get_by_id :: "int \<Rightarrow> goal_row list \<Rightarrow> goal_row option" where
  "goal_get_by_id goal_id rows = List.find (\<lambda>g. g_id g = goal_id \<and> live g) rows"

definition goal_get_all :: "int option \<Rightarrow> goal_row list \<Rightarrow> goal_row list" where
  "goal_get_all account_id rows =
     rev (sort_key g_id (filter (\<lambda>g. live g \<and> (case account_id of None \<Rightarrow> True | Some a \<Rightarrow> g_account g = a)) rows))"

definition goal_fresh_id :: "goal_row list \<Rightarrow> int" where
  "goal_fresh_id rows = fold max (map g_id rows) 0 + 1"

definition goal_repo_create ::
  "string option \<Rightarrow> int \<Rightarrow> int \<Rightarrow> date option \<Rightarrow> stored_goal_status \<Rightarrow> int \<Rightarrow> goal_row list \<Rightarrow>
   goal_error + (goal_row \<times> goal_row list)" where
  "goal_repo_create name target current target_date status account_id rows =
     bindE (fits target) (\<lambda>_.
     bindE (fits current) (\<lambda>_.
     (let g = \<lparr>g_id = goal_fresh_id rows, g_name = name, g_target = target, g_current = current,
               g_target_date = target_date, g_status = status, g_account = account_id, g_default = False,
               g_deleted_at = None\<rparr>
      in Inr (g, rows @ [g]))))"

definition goal_repo_update :: "goal_row \<Rightarrow> goal_row list \<Rightarrow> goal_error + (goal_row \<times> goal_row list)" where
  "goal_repo_update g rows =
     (case List.find (\<lambda>r. g_id r = g_id g \<and> live r) rows of
        None \<Rightarrow> Inl GoalValueError
      | Some r \<Rightarrow>
          bindE (fits (g_target g)) (\<lambda>_.
          bindE (fits (g_current g)) (\<lambda>_.
          (let r' = r\<lparr>g_name := g_name g, g_target := g_target g, g_current := g_current g,
                       g_target_date := g_target_date g, g_status := g_status g\<rparr>
           in Inr (r', update_where (\<lambda>x. g_id x = g_id g) (\<lambda>_. r') rows)))))"

text \<open>Soft delete; the returned flag is \<open>rowcount == 1\<close>.\<close>

definition goal_repo_delete :: "instant \<Rightarrow> int \<Rightarrow> goal_row list \<Rightarrow> bool \<times> goal_row list" where
  "goal_repo_delete now goal_id rows =
     (length (filter (\<lambda>g. g_id g = goal_id \<and> live g) rows) = 1,
      update_where (\<lambda>g. g_id g = goal_id \<and> live g) (\<lambda>g. g\<lparr>g_deleted_at := Some now, g_default := False\<rparr>) rows)"

definition set_default_savings_goal :: "int \<Rightarrow> int \<Rightarrow> goal_row list \<Rightarrow> goal_row list" where
  "set_default_savings_goal goal_id account_id rows =
     update_where (\<lambda>g. g_id g = goal_id \<and> live g) (\<lambda>g. g\<lparr>g_default := True\<rparr>)
       (update_where (\<lambda>g. g_account g = account_id \<and> g_default g) (\<lambda>g. g\<lparr>g_default := False\<rparr>) rows)"

definition clear_default_savings_goal :: "int \<Rightarrow> goal_row list \<Rightarrow> goal_row list" where
  "clear_default_savings_goal goal_id = update_where (\<lambda>g. g_id g = goal_id) (\<lambda>g. g\<lparr>g_default := False\<rparr>)"

text \<open>\<open>scalar_one_or_none\<close> raises when several rows match.\<close>

definition get_default_savings_goal :: "int \<Rightarrow> goal_row list \<Rightarrow> goal_error + goal_row option" where
  "get_default_savings_goal account_id rows =
     (case filter (\<lambda>g. g_account g = account_id \<and> g_default g \<and> live g) rows of
        [] \<Rightarrow> Inr None
      | [g] \<Rightarrow> Inr (Some g)
      | _ \<Rightarrow> Inl MultipleResultsFound)"

definition increment_current_amount :: "int \<Rightarrow> rat \<Rightarrow> goal_row list \<Rightarrow> goal_error + goal_row list" where
  "increment_current_amount goal_id amount rows =
     (case List.find (\<lambda>g. g_id g = goal_id) rows of
        None \<Rightarrow> Inl GoalValueError
      | Some g \<Rightarrow>
          bindE (fits (numeric_cents (dec (g_current g) + amount))) (\<lambda>c.
          Inr (update_where (\<lambda>x. g_id x = goal_id) (\<lambda>x. x\<lparr>g_current := c\<rparr>) rows)))"

definition allocation_key_exists :: "string \<Rightarrow> allocation_row list \<Rightarrow> bool" where
  "allocation_key_exists source_key rows = list_ex (\<lambda>r. al_source_key r = source_key) rows"

definition unallocated_key_exists :: "string \<Rightarrow> surplus_row list \<Rightarrow> bool" where
  "unallocated_key_exists source_key rows = list_ex (\<lambda>r. us_source_key r = source_key) rows"

text \<open>Inserts with the table constraints: \<open>amount > 0\<close> and the unique keys.\<close>

definition add_allocation ::
  "instant \<Rightarrow> string \<Rightarrow> int \<Rightarrow> int \<Rightarrow> rat \<Rightarrow> string option \<Rightarrow> allocation_row list \<Rightarrow> goal_error + allocation_row list" where
  "add_allocation now source_key goal_id account_id amount correlation_id rows =
     bindE (fits (numeric_cents amount)) (\<lambda>c.
     if c \<le> 0 \<or> list_ex (\<lambda>r. al_source_key r = source_key \<and> al_goal_id r = goal_id) rows then Inl GoalIntegrityError
     else Inr (rows @ [\<lparr>al_source_key = source_key, al_goal_id = goal_id, al_account_id = account_id, al_amount = c,
                        al_correlation_id = correlation_id, al_applied_at = now\<rparr>]))"

definition add_unallocated ::
  "instant \<Rightarrow> string \<Rightarrow> int \<Rightarrow> rat \<Rightarrow> string \<Rightarrow> string option \<Rightarrow> surplus_row list \<Rightarrow> goal_error + surplus_row list" where
  "add_unallocated now source_key account_id amount reason correlation_id rows =
     bindE (fits (numeric_cents amount)) (\<lambda>c.
     if c \<le> 0 \<or> list_ex (\<lambda>r. us_source_key r = source_key) rows then Inl GoalIntegrityError
     else Inr (rows @ [\<lparr>us_source_key = source_key, us_account_id = account_id, us_amount = c, us_reason = reason,
                        us_correlation_id = correlation_id, us_observed_at = now\<rparr>]))"

definition list_for_goal :: "int \<Rightarrow> allocation_row list \<Rightarrow> (int \<times> string \<times> instant) list" where
  "list_for_goal goal_id rows =
     map (\<lambda>r. (al_amount r, al_source_key r, al_applied_at r))
       (rev (sort_key al_applied_at (filter (\<lambda>r. al_goal_id r = goal_id) rows)))"

definition list_for_account :: "int \<Rightarrow> surplus_row list \<Rightarrow> (int \<times> string \<times> instant) list" where
  "list_for_account account_id rows =
     map (\<lambda>r. (us_amount r, us_reason r, us_observed_at r))
       (rev (sort_key us_observed_at (filter (\<lambda>r. us_account_id r = account_id) rows)))"

definition goal_outbox_add :: "instant \<Rightarrow> goal_event \<Rightarrow> int \<Rightarrow> goal_event outbox \<Rightarrow> goal_event outbox" where
  "goal_outbox_add now ev goal_id ob = ob_add now (goal_event_type ev) ev None ''goal'' (show_int goal_id) ob"

section \<open>The entity\<close>

definition effective_status :: "date \<Rightarrow> goal_row \<Rightarrow> goal_status" where
  "effective_status today g =
     (if g_current g \<ge> g_target g \<and> g_target g > 0 then GoalCompleted
      else if (case g_target_date g of None \<Rightarrow> False | Some d \<Rightarrow> d < today) \<and> g_status g \<noteq> StoredPaused then GoalExpired
      else if g_status g = StoredPaused then GoalPaused
      else GoalActive)"

section \<open>The use cases\<close>

type_synonym owner_port = "int \<Rightarrow> goal_error + int"

definition verify_ownership :: "owner_port \<Rightarrow> int \<Rightarrow> int \<Rightarrow> goal_error + int" where
  "verify_ownership owner account_id user_id =
     bindE (owner account_id) (\<lambda>owner_id. if owner_id \<noteq> user_id then Inl NotAccountOwner else Inr owner_id)"

definition get_goal :: "owner_port \<Rightarrow> int \<Rightarrow> int \<Rightarrow> goal_db \<Rightarrow> goal_error + goal_row option" where
  "get_goal owner goal_id user_id db =
     (case goal_get_by_id goal_id (gd_goals db) of
        None \<Rightarrow> Inr None
      | Some g \<Rightarrow> bindE (owner (g_account g)) (\<lambda>owner_id. Inr (if owner_id \<noteq> user_id then None else Some g)))"

definition list_goals :: "owner_port \<Rightarrow> int \<Rightarrow> int \<Rightarrow> goal_db \<Rightarrow> goal_error + goal_row list" where
  "list_goals owner account_id user_id db =
     bindE (verify_ownership owner account_id user_id) (\<lambda>_. Inr (goal_get_all (Some account_id) (gd_goals db)))"

text \<open>\<open>GoalBase\<close>: non-negative amounts in cents.\<close>

record goal_base =
  gb_name :: "string option"
  gb_target :: int
  gb_current :: int
  gb_target_date :: "date option"
  gb_status :: stored_goal_status

definition goal_base_ok :: "goal_base \<Rightarrow> bool" where
  "goal_base_ok b \<longleftrightarrow> 0 \<le> gb_target b \<and> 0 \<le> gb_current b \<and>
     (case gb_name b of None \<Rightarrow> True | Some n \<Rightarrow> length n \<le> 45)"

definition updated_event :: "goal_row \<Rightarrow> int \<Rightarrow> goal_event" where
  "updated_event g owner_id =
     GoalUpdatedEvent (g_id g) owner_id (g_name g) (g_target g) (g_current g) (g_target_date g) (g_status g)"

definition create_goal ::
  "owner_port \<Rightarrow> instant \<Rightarrow> goal_base \<Rightarrow> int \<Rightarrow> int \<Rightarrow> goal_db \<Rightarrow> goal_error + (goal_row \<times> goal_db)" where
  "create_goal owner now b account_id user_id db =
     bindE (verify_ownership owner account_id user_id) (\<lambda>owner_id.
     bindE (goal_repo_create (gb_name b) (gb_target b) (gb_current b) (gb_target_date b) (gb_status b) account_id
              (gd_goals db)) (\<lambda>(g, rows).
     Inr (g, db\<lparr>gd_goals := rows, gd_outbox := goal_outbox_add now
               (GoalCreatedEvent (g_id g) owner_id (g_name g) (g_target g) (g_current g) (g_target_date g) (g_status g))
               (g_id g) (gd_outbox db)\<rparr>)))"

text \<open>The owner check that four use cases share: \<open>None\<close> is the 404 answer.\<close>

definition owned_goal :: "owner_port \<Rightarrow> int \<Rightarrow> int \<Rightarrow> goal_db \<Rightarrow> goal_error + (goal_row \<times> int) option" where
  "owned_goal owner goal_id user_id db =
     (case goal_get_by_id goal_id (gd_goals db) of
        None \<Rightarrow> Inr None
      | Some g \<Rightarrow> bindE (owner (g_account g)) (\<lambda>owner_id. Inr (if owner_id \<noteq> user_id then None else Some (g, owner_id))))"

definition update_goal ::
  "owner_port \<Rightarrow> instant \<Rightarrow> int \<Rightarrow> goal_base \<Rightarrow> int \<Rightarrow> goal_db \<Rightarrow> goal_error + (goal_row option \<times> goal_db)" where
  "update_goal owner now goal_id b user_id db =
     bindE (owned_goal owner goal_id user_id db) (\<lambda>r.
     case r of
       None \<Rightarrow> Inr (None, db)
     | Some (g, owner_id) \<Rightarrow>
         bindE (goal_repo_update (g\<lparr>g_name := gb_name b, g_target := gb_target b, g_current := gb_current b,
                   g_target_date := gb_target_date b, g_status := gb_status b\<rparr>) (gd_goals db)) (\<lambda>(g', rows).
         Inr (Some g', db\<lparr>gd_goals := rows,
                gd_outbox := goal_outbox_add now (updated_event g' owner_id) (g_id g') (gd_outbox db)\<rparr>)))"

definition delete_goal ::
  "owner_port \<Rightarrow> instant \<Rightarrow> int \<Rightarrow> int \<Rightarrow> goal_db \<Rightarrow> goal_error + (bool \<times> goal_db)" where
  "delete_goal owner now goal_id user_id db =
     bindE (owned_goal owner goal_id user_id db) (\<lambda>r.
     case r of
       None \<Rightarrow> Inr (False, db)
     | Some (g, owner_id) \<Rightarrow>
         (let (deleted, rows) = goal_repo_delete now goal_id (gd_goals db) in
          if \<not> deleted then Inr (False, db)
          else Inr (True, db\<lparr>gd_goals := rows,
                 gd_outbox := goal_outbox_add now (GoalDeletedEvent goal_id owner_id) goal_id (gd_outbox db)\<rparr>)))"

definition set_default_goal ::
  "owner_port \<Rightarrow> instant \<Rightarrow> int \<Rightarrow> int \<Rightarrow> goal_db \<Rightarrow> goal_error + (goal_row option \<times> goal_db)" where
  "set_default_goal owner now goal_id user_id db =
     bindE (owned_goal owner goal_id user_id db) (\<lambda>r.
     case r of
       None \<Rightarrow> Inr (None, db)
     | Some (g, owner_id) \<Rightarrow>
         (let rows = set_default_savings_goal goal_id (g_account g) (gd_goals db) in
          bindE (of_option GoalAssertionError (goal_get_by_id goal_id rows)) (\<lambda>g'.
          Inr (Some g', db\<lparr>gd_goals := rows,
                 gd_outbox := goal_outbox_add now (updated_event g' owner_id) (g_id g') (gd_outbox db)\<rparr>))))"

definition clear_default_goal ::
  "owner_port \<Rightarrow> instant \<Rightarrow> int \<Rightarrow> int \<Rightarrow> goal_db \<Rightarrow> goal_error + (goal_row option \<times> goal_db)" where
  "clear_default_goal owner now goal_id user_id db =
     bindE (owned_goal owner goal_id user_id db) (\<lambda>r.
     case r of
       None \<Rightarrow> Inr (None, db)
     | Some (g, owner_id) \<Rightarrow>
         (let rows = clear_default_savings_goal goal_id (gd_goals db) in
          bindE (of_option GoalAssertionError (goal_get_by_id goal_id rows)) (\<lambda>g'.
          Inr (Some g', db\<lparr>gd_goals := rows,
                 gd_outbox := goal_outbox_add now (updated_event g' owner_id) (g_id g') (gd_outbox db)\<rparr>))))"

definition get_allocation_history ::
  "owner_port \<Rightarrow> int \<Rightarrow> int \<Rightarrow> goal_db \<Rightarrow> goal_error + (int \<times> string \<times> instant) list option" where
  "get_allocation_history owner goal_id user_id db =
     bindE (owned_goal owner goal_id user_id db) (\<lambda>r.
     Inr (map_option (\<lambda>_. list_for_goal goal_id (gd_allocations db)) r))"

definition get_unallocated_surplus ::
  "owner_port \<Rightarrow> int \<Rightarrow> int \<Rightarrow> goal_db \<Rightarrow> goal_error + (int \<times> string \<times> instant) list" where
  "get_unallocated_surplus owner account_id user_id db =
     bindE (verify_ownership owner account_id user_id) (\<lambda>_. Inr (list_for_account account_id (gd_unallocated db)))"

section \<open>Crediting the surplus of a closed month\<close>

definition make_budget_month_closed_source_key :: "int \<Rightarrow> int \<Rightarrow> int \<Rightarrow> string" where
  "make_budget_month_closed_source_key account_id yr mon =
     ''budget.month_closed:'' @ show_int account_id @ '':'' @ show_int yr @ '':'' @ show_int mon"

record month_closed_event =
  mc_account_id :: int
  mc_year :: int
  mc_month :: int
  mc_budgeted_amount :: rat
  mc_actual_spent :: rat
  mc_surplus_amount :: rat
  mc_correlation_id :: "string option"

text \<open>What the pydantic model of the event accepts.\<close>

definition month_closed_event_ok :: "month_closed_event \<Rightarrow> bool" where
  "month_closed_event_ok e \<longleftrightarrow> 1 \<le> mc_account_id e \<and> 2020 \<le> mc_year e \<and> 1 \<le> mc_month e \<and> mc_month e \<le> 12 \<and>
     0 \<le> mc_budgeted_amount e \<and> 0 \<le> mc_actual_spent e \<and> 0 \<le> mc_surplus_amount e"

definition mc_source_key :: "month_closed_event \<Rightarrow> string" where
  "mc_source_key e = make_budget_month_closed_source_key (mc_account_id e) (mc_year e) (mc_month e)"

datatype month_closed_status =
    IgnoredZeroSurplus
  | UnallocatedNoDefaultGoal
  | UnallocatedGoalAlreadyComplete
  | Allocated
  | MonthClosedDuplicate

definition already_handled :: "string \<Rightarrow> goal_db \<Rightarrow> bool" where
  "already_handled source_key db \<longleftrightarrow>
     allocation_key_exists source_key (gd_allocations db) \<or> unallocated_key_exists source_key (gd_unallocated db)"

definition is_goal_complete :: "goal_row \<Rightarrow> bool" where
  "is_goal_complete g \<longleftrightarrow> g_current g \<ge> g_target g"

definition month_closed_handle ::
  "instant \<Rightarrow> month_closed_event \<Rightarrow> goal_db \<Rightarrow> goal_error + (month_closed_status \<times> goal_db)" where
  "month_closed_handle now e db =
     (let amount = mc_surplus_amount e; key = mc_source_key e in
      if amount = 0 then Inr (IgnoredZeroSurplus, db)
      else if already_handled key db then Inr (MonthClosedDuplicate, db)
      else
        bindE (get_default_savings_goal (mc_account_id e) (gd_goals db)) (\<lambda>goal.
        case goal of
          None \<Rightarrow>
            bindE (add_unallocated now key (mc_account_id e) amount ''no_default_goal'' (mc_correlation_id e)
                     (gd_unallocated db)) (\<lambda>rows.
            Inr (UnallocatedNoDefaultGoal, db\<lparr>gd_unallocated := rows\<rparr>))
        | Some g \<Rightarrow>
            if is_goal_complete g then
              bindE (add_unallocated now key (mc_account_id e) amount ''goal_already_complete'' (mc_correlation_id e)
                       (gd_unallocated db)) (\<lambda>rows.
              Inr (UnallocatedGoalAlreadyComplete, db\<lparr>gd_unallocated := rows\<rparr>))
            else
              bindE (add_allocation now key (g_id g) (mc_account_id e) amount (mc_correlation_id e)
                       (gd_allocations db)) (\<lambda>allocs.
              bindE (increment_current_amount (g_id g) amount (gd_goals db)) (\<lambda>rows.
              (let target = dec (g_target g); new_current = dec (g_current g) + amount;
                   ob = (if target > 0 \<and> new_current \<ge> target
                         then goal_outbox_add now
                                (GoalReachedEvent (g_id g) (mc_account_id e) (g_name g) target new_current)
                                (g_id g) (gd_outbox db)
                         else gd_outbox db)
               in Inr (Allocated, db\<lparr>gd_goals := rows, gd_allocations := allocs, gd_outbox := ob\<rparr>))))))"

text \<open>
  The consumer: an invalid payload (\<open>None\<close>) is poison, an \<open>IntegrityError\<close> is taken for a lost race and
  acknowledged, anything else takes the retry ladder.
\<close>

definition month_closed_consumer ::
  "instant \<Rightarrow> month_closed_event option \<Rightarrow> goal_db \<Rightarrow> handler_result \<times> goal_db" where
  "month_closed_consumer now payload db =
     (case payload of
        None \<Rightarrow> (Poison, db)
      | Some e \<Rightarrow>
          if \<not> month_closed_event_ok e then (Poison, db)
          else
            (case month_closed_handle now e db of
               Inr (_, db') \<Rightarrow> (Handled, db')
             | Inl err \<Rightarrow> (if err = GoalIntegrityError then (Handled, db) else (HandlerError, db))))"

end
