(* ===== verification/GoalProofs.thy ===== *)
theory GoalProofs
  imports Goals
begin

text \<open>
  Correctness of goal-service: at most one live default goal per account, exactly-once accounting of closed
  months (an instance of the contract of a keyed consumer), and when a goal counts as reached.
\<close>

section \<open>Source keys and amounts\<close>

lemma source_key_inject:
  "make_budget_month_closed_source_key a y m = make_budget_month_closed_source_key a' y' m' \<longleftrightarrow>
   a = a' \<and> y = y' \<and> m = m'"
proof
  assume eq: "make_budget_month_closed_source_key a y m = make_budget_month_closed_source_key a' y' m'"
  let ?c = "CHR '':''"
  have "show_int a @ ?c # (show_int y @ ?c # show_int m) = show_int a' @ ?c # (show_int y' @ ?c # show_int m')"
    using eq by (simp add: make_budget_month_closed_source_key_def)
  from append_sep_inject [OF _ _ this] have "show_int a = show_int a'"
    and rest: "show_int y @ ?c # show_int m = show_int y' @ ?c # show_int m'" by simp_all
  then show "a = a' \<and> y = y' \<and> m = m'"
    using append_sep_inject [OF _ _ rest] by simp
qed simp

lemma numeric_cents_nonneg: "0 \<le> x \<Longrightarrow> 0 \<le> numeric_cents x"
  by (simp add: numeric_cents_def)

lemma numeric_cents_add:
  assumes "0 \<le> c" and "0 \<le> x"
  shows "numeric_cents (dec c + x) = c + numeric_cents x"
proof -
  have "(dec c + x) * 100 + 1 / 2 = of_int c + (x * 100 + 1 / 2)" by (simp add: algebra_simps)
  moreover have "0 \<le> dec c + x" using assms by simp
  ultimately show ?thesis using assms(2) by (simp only: numeric_cents_def floor_add_int [symmetric]) simp
qed

lemma numeric_cents_dec [simp]: "numeric_cents (dec c) = c"
proof -
  have "\<lfloor>of_int n + (1 / 2 :: rat)\<rfloor> = n" for n :: int
    by (simp add: floor_eq_iff)
  from this [of c] this [of "- c"] show ?thesis by (simp add: numeric_cents_def)
qed

lemma numeric_cents_pos_iff:
  assumes "0 \<le> x"
  shows "0 < numeric_cents x \<longleftrightarrow> 1 / 200 \<le> x"
  using assms by (auto simp: numeric_cents_def less_floor_iff zero_less_floor)

lemma numeric_cents_less:
  assumes "0 \<le> x" and "x < of_int n"
  shows "numeric_cents x < 100 * n + 1"
proof -
  have "x * 100 + 1 / 2 < of_int (100 * n + 1)" using assms(2) by simp
  then have "\<lfloor>x * 100 + 1 / 2\<rfloor> < 100 * n + 1" by (simp only: floor_less_iff)
  then show ?thesis using assms(1) by (simp add: numeric_cents_def)
qed

section \<open>The default goal\<close>

definition goals_ok :: "goal_row list \<Rightarrow> bool" where
  "goals_ok rows \<longleftrightarrow>
     distinct (map g_id rows) \<and>
     (\<forall>g \<in> set rows. 0 \<le> g_current g \<and> 0 \<le> g_target g \<and> g_target g < numeric_limit \<and> (g_default g \<longrightarrow> live g)) \<and>
     (\<forall>g \<in> set rows. \<forall>h \<in> set rows. g_default g \<and> g_default h \<and> g_account g = g_account h \<longrightarrow> g = h)"

lemma fits_Inr [simp]: "fits c = Inr c' \<longleftrightarrow> c' = c \<and> \<bar>c\<bar> < numeric_limit"
  by (auto simp: fits_def)

lemma fits_Inl [simp]: "fits c = Inl e \<longleftrightarrow> e = GoalDataError \<and> numeric_limit \<le> \<bar>c\<bar>"
  by (auto simp: fits_def)

text \<open>Rows replaced without touching id, account and default flag, and without reviving a deleted one.\<close>

lemma goals_ok_map:
  assumes ok: "goals_ok rows"
    and f: "\<And>g. g \<in> set rows \<Longrightarrow> g_id (f g) = g_id g \<and> g_account (f g) = g_account g \<and>
      0 \<le> g_current (f g) \<and> 0 \<le> g_target (f g) \<and> g_target (f g) < numeric_limit \<and>
      (g_default (f g) \<longrightarrow> g_default g \<and> live (f g))"
  shows "goals_ok (map f rows)"
proof -
  have m: "map (g_id \<circ> f) rows = map g_id rows" using f by simp
  have "f g = f h" if "g \<in> set rows" "h \<in> set rows" "g_default (f g)" "g_default (f h)"
    "g_account (f g) = g_account (f h)" for g h
    using ok f [OF that(1)] f [OF that(2)] that unfolding goals_ok_def by (metis (no_types, lifting))
  then show ?thesis using ok f unfolding goals_ok_def by (auto simp: m)
qed

lemma goals_ok_unique:
  "goals_ok rows \<Longrightarrow> g \<in> set rows \<Longrightarrow> h \<in> set rows \<Longrightarrow> g_id g = g_id h \<Longrightarrow> g = h"
  unfolding goals_ok_def by (metis distinct_map inj_onD)

lemma goal_get_by_id_Some: "goal_get_by_id i rows = Some g \<Longrightarrow> g \<in> set rows \<and> g_id g = i \<and> live g"
  unfolding goal_get_by_id_def by (auto dest: find_Some_mem)

lemma goal_fresh_id_new: "g \<in> set rows \<Longrightarrow> g_id g < goal_fresh_id rows"
  unfolding goal_fresh_id_def using fold_max_ge(1) [of "g_id g" "map g_id rows" 0] by simp

lemma create_ok:
  assumes "goals_ok rows" and "goal_repo_create n t c td st a rows = Inr (g, rows')" and "0 \<le> t" and "0 \<le> c"
  shows "goals_ok rows'"
  using assms goal_fresh_id_new [of _ rows]
  by (force simp: goal_repo_create_def result_simps Let_def goals_ok_def live_def)

lemma update_ok:
  assumes ok: "goals_ok rows" and u: "goal_repo_update g rows = Inr (g', rows')" and "0 \<le> g_target g" and "0 \<le> g_current g"
  shows "goals_ok rows'"
proof -
  obtain r where r: "List.find (\<lambda>r. g_id r = g_id g \<and> live r) rows = Some r" and fit: "\<bar>g_target g\<bar> < numeric_limit"
    and rows': "rows' = update_where (\<lambda>x. g_id x = g_id g)
       (\<lambda>_. r\<lparr>g_name := g_name g, g_target := g_target g, g_current := g_current g,
              g_target_date := g_target_date g, g_status := g_status g\<rparr>) rows"
    using u by (auto simp: goal_repo_update_def result_simps Let_def split: option.splits)
  have mem: "r \<in> set rows" "g_id r = g_id g" "live r" using find_Some_mem [OF r] by auto
  show ?thesis unfolding rows' update_where_def
  proof (rule goals_ok_map [OF ok], goal_cases)
    case (1 x)
    have "x = r" if "g_id x = g_id g" using goals_ok_unique [OF ok 1 mem(1)] that mem(2) by simp
    then show ?case using assms(3,4) fit mem ok 1 by (auto simp: goals_ok_def live_def)
  qed
qed

lemma delete_ok: "goals_ok rows \<Longrightarrow> goals_ok (snd (goal_repo_delete now i rows))"
  unfolding goal_repo_delete_def snd_conv update_where_def
  by (rule goals_ok_map) (auto simp: goals_ok_def)

lemma clear_default_ok: "goals_ok rows \<Longrightarrow> goals_ok (clear_default_savings_goal i rows)"
  unfolding clear_default_savings_goal_def update_where_def
  by (rule goals_ok_map) (auto simp: goals_ok_def live_def)

lemma set_default_ok:
  assumes ok: "goals_ok rows" and g: "g \<in> set rows" "g_id g = i" "g_account g = a"
  shows "goals_ok (set_default_savings_goal i a rows)"
proof -
  let ?cl = "update_where (\<lambda>g. g_account g = a \<and> g_default g) (\<lambda>g. g\<lparr>g_default := False\<rparr>) rows"
  have ok1: "goals_ok ?cl"
    unfolding update_where_def by (rule goals_ok_map [OF ok]) (use ok in \<open>auto simp: goals_ok_def\<close>)
  have none: "\<not> g_default x" if "x \<in> set ?cl" "g_account x = a" for x
  proof -
    obtain y where "x = (if g_account y = a \<and> g_default y then y\<lparr>g_default := False\<rparr> else y)"
      using \<open>x \<in> set ?cl\<close> unfolding set_update_where by blast
    then show ?thesis using \<open>g_account x = a\<close> by (simp split: if_splits)
  qed
  have acc: "g_account x = a" if "x \<in> set ?cl" "g_id x = i" for x
  proof -
    obtain y where y: "y \<in> set rows" "x = (if g_account y = a \<and> g_default y then y\<lparr>g_default := False\<rparr> else y)"
      using \<open>x \<in> set ?cl\<close> unfolding set_update_where by blast
    then have "y = g" using goals_ok_unique [OF ok y(1) g(1)] g(2) \<open>g_id x = i\<close> by (simp split: if_splits)
    then show ?thesis using y(2) g(3) by simp
  qed
  have cl: "distinct (map g_id ?cl)" "\<And>x. x \<in> set ?cl \<Longrightarrow> 0 \<le> g_current x \<and> 0 \<le> g_target x \<and> g_target x < numeric_limit \<and>
      (g_default x \<longrightarrow> live x)"
    "\<And>x y. x \<in> set ?cl \<Longrightarrow> y \<in> set ?cl \<Longrightarrow> g_default x \<Longrightarrow> g_default y \<Longrightarrow> g_account x = g_account y \<Longrightarrow> x = y"
    using ok1 by (auto simp: goals_ok_def)
  let ?f = "\<lambda>x. if g_id x = i \<and> live x then x\<lparr>g_default := True\<rparr> else x"
  have accf: "g_account (?f x) = g_account x" for x by simp
  have same: "?f x = ?f y" if "x \<in> set ?cl" "y \<in> set ?cl" "g_default (?f x)" "g_default (?f y)"
    "g_account (?f x) = g_account (?f y)" for x y
  proof (cases "g_id x = i \<or> g_id y = i")
    case True
    then have "g_account x = a" "g_account y = a" using acc [OF that(1)] acc [OF that(2)] that(5) unfolding accf by auto
    then have "g_id x = i" "g_id y = i" using none [OF that(1)] none [OF that(2)] that(3,4) by (auto split: if_splits)
    then show ?thesis using goals_ok_unique [OF ok1 that(1,2)] by simp
  next
    case False
    then show ?thesis using that(3,4) that(5) [unfolded accf] cl(3) [OF that(1,2)] by simp
  qed
  have m: "map (g_id \<circ> ?f) ?cl = map g_id ?cl" by simp
  have "goals_ok (map ?f ?cl)"
    unfolding goals_ok_def
  proof (intro conjI ballI impI)
    show "distinct (map g_id (map ?f ?cl))" using cl(1) by (simp only: map_map m)
    fix g h assume "g \<in> set (map ?f ?cl)" "h \<in> set (map ?f ?cl)" "g_default g \<and> g_default h \<and> g_account g = g_account h"
    moreover from this obtain x y where "x \<in> set ?cl" "y \<in> set ?cl" "g = ?f x" "h = ?f y" by auto
    ultimately show "g = h" using same by simp
  qed (use cl(2) in \<open>auto simp: live_def\<close>)
  then show ?thesis by (simp add: set_default_savings_goal_def update_where_def)
qed

section \<open>Handling a closed month\<close>

lemma default_goal_cases:
  assumes ok: "goals_ok rows" and r: "get_default_savings_goal a rows = Inr r"
  shows "(r = None \<and> (\<forall>g \<in> set rows. \<not> (g_account g = a \<and> g_default g \<and> live g))) \<or>
    (\<exists>g \<in> set rows. r = Some g \<and> g_account g = a \<and> g_default g \<and> live g)"
proof -
  let ?F = "filter (\<lambda>g. g_account g = a \<and> g_default g \<and> live g) rows"
  consider "?F = []" | g where "?F = [g]" | g h gs where "?F = g # h # gs" by (metis list.exhaust)
  then show ?thesis
  proof cases
    case 1
    then show ?thesis using r by (auto simp: get_default_savings_goal_def filter_empty_conv)
  next
    case (2 g)
    then have "g \<in> set ?F" by simp
    then have "g \<in> set rows \<and> g_account g = a \<and> g_default g \<and> live g" by simp
    then show ?thesis using r 2 by (auto simp: get_default_savings_goal_def)
  qed (use r in \<open>simp add: get_default_savings_goal_def\<close>)
qed

lemma default_goal_total:
  assumes ok: "goals_ok rows"
  shows "\<exists>r. get_default_savings_goal a rows = Inr r"
proof -
  let ?F = "filter (\<lambda>g. g_account g = a \<and> g_default g \<and> live g) rows"
  have "distinct ?F" using ok by (auto simp: goals_ok_def distinct_map)
  moreover have "x = y" if "x \<in> set ?F" "y \<in> set ?F" for x y
    using that ok unfolding goals_ok_def by auto
  ultimately have "\<not> (\<exists>g h gs. ?F = g # h # gs)"
    by (metis distinct_length_2_or_more list.set_intros(1) list.set_intros(2))
  then show ?thesis by (auto simp: get_default_savings_goal_def split: list.splits)
qed

lemma increment_ok:
  assumes ok: "goals_ok rows" and g: "g \<in> set rows" and a: "0 \<le> amount"
    and inc: "increment_current_amount (g_id g) amount rows = Inr rows'"
  shows "goals_ok rows' \<and> rows' = map (\<lambda>x. if g_id x = g_id g then x\<lparr>g_current := g_current g + numeric_cents amount\<rparr> else x) rows"
proof -
  have cur: "0 \<le> g_current g" using ok g by (simp add: goals_ok_def)
  have f: "List.find (\<lambda>x. g_id x = g_id g) rows = Some g"
    using find_distinct_key [of g_id rows g] g ok by (simp add: goals_ok_def)
  have eq: "rows' = map (\<lambda>x. if g_id x = g_id g then x\<lparr>g_current := g_current g + numeric_cents amount\<rparr> else x) rows"
    using inc numeric_cents_add [OF cur a]
    by (auto simp: increment_current_amount_def f result_simps update_where_def)
  have "goals_ok rows'" unfolding eq
  proof (rule goals_ok_map [OF ok], goal_cases)
    case (1 x)
    then show ?case using ok cur numeric_cents_nonneg [OF a] by (simp add: goals_ok_def live_def)
  qed
  then show ?thesis using eq by simp
qed

text \<open>The successful outcomes of the handler, with their whole effect.\<close>

lemma month_closed_cases:
  assumes ok: "goals_ok (gd_goals db)" and ev: "month_closed_event_ok e"
    and h: "month_closed_handle now e db = Inr (st, db')"
  obtains (unchanged) "db' = db" "mc_surplus_amount e = 0 \<or> already_handled (mc_source_key e) db"
  | (unallocated) r where "\<not> already_handled (mc_source_key e) db"
      "db' = db\<lparr>gd_unallocated := gd_unallocated db @ [r]\<rparr>" "us_source_key r = mc_source_key e"
      "us_account_id r = mc_account_id e" "us_amount r = numeric_cents (mc_surplus_amount e)" "0 < us_amount r"
      "st \<in> {UnallocatedNoDefaultGoal, UnallocatedGoalAlreadyComplete}"
  | (allocated) r g ob where "\<not> already_handled (mc_source_key e) db" "g \<in> set (gd_goals db)" "g_default g" "live g"
      "g_account g = mc_account_id e" "g_current g < g_target g"
      "db' = \<lparr>gd_goals = map (\<lambda>x. if g_id x = g_id g
           then x\<lparr>g_current := g_current g + numeric_cents (mc_surplus_amount e)\<rparr> else x) (gd_goals db),
         gd_allocations = gd_allocations db @ [r], gd_unallocated = gd_unallocated db, gd_outbox = ob\<rparr>"
      "al_source_key r = mc_source_key e" "al_goal_id r = g_id g" "al_amount r = numeric_cents (mc_surplus_amount e)"
      "0 < al_amount r" "st = Allocated"
      "ob = (if dec (g_current g) + mc_surplus_amount e \<ge> dec (g_target g)
             then goal_outbox_add now (GoalReachedEvent (g_id g) (mc_account_id e) (g_name g) (dec (g_target g))
                     (dec (g_current g) + mc_surplus_amount e)) (g_id g) (gd_outbox db)
             else gd_outbox db)"
proof -
  let ?amount = "mc_surplus_amount e"
  let ?key = "mc_source_key e"
  have nn: "0 \<le> ?amount" using ev by (simp add: month_closed_event_ok_def)
  show thesis
  proof (cases "?amount = 0 \<or> already_handled ?key db")
    case True
    then show thesis using h by (intro unchanged) (auto simp: month_closed_handle_def Let_def split: if_splits)
  next
    case False
    obtain r where r: "get_default_savings_goal (mc_account_id e) (gd_goals db) = Inr r"
      using default_goal_total [OF ok] by blast
    show thesis
    proof (cases "\<exists>g. r = Some g \<and> \<not> is_goal_complete g")
      case True
      then obtain g where g: "r = Some g" "\<not> is_goal_complete g" by blast
      have mem: "g \<in> set (gd_goals db)" "g_account g = mc_account_id e" "g_default g" "live g"
        using default_goal_cases [OF ok r] g(1) by auto
      obtain allocs rows where
        al: "add_allocation now ?key (g_id g) (mc_account_id e) ?amount (mc_correlation_id e) (gd_allocations db) = Inr allocs"
        and inc: "increment_current_amount (g_id g) ?amount (gd_goals db) = Inr rows"
        and st: "st = Allocated"
        and db': "db' = db\<lparr>gd_goals := rows, gd_allocations := allocs, gd_outbox :=
            (if dec (g_target g) > 0 \<and> dec (g_current g) + ?amount \<ge> dec (g_target g)
             then goal_outbox_add now (GoalReachedEvent (g_id g) (mc_account_id e) (g_name g) (dec (g_target g))
                     (dec (g_current g) + ?amount)) (g_id g) (gd_outbox db)
             else gd_outbox db)\<rparr>"
        using h r g False by (auto simp: month_closed_handle_def Let_def result_simps)
      have pos: "0 < g_target g" using g(2) ok mem(1) by (auto simp: is_goal_complete_def goals_ok_def)
      let ?r = "\<lparr>al_source_key = ?key, al_goal_id = g_id g, al_account_id = mc_account_id e,
         al_amount = numeric_cents ?amount, al_correlation_id = mc_correlation_id e, al_applied_at = now\<rparr>"
      have allocs: "allocs = gd_allocations db @ [?r]" "0 < numeric_cents ?amount"
        using al by (auto simp: add_allocation_def result_simps split: if_splits)
      have rows: "rows = map (\<lambda>x. if g_id x = g_id g then x\<lparr>g_current := g_current g + numeric_cents ?amount\<rparr> else x)
          (gd_goals db)" using increment_ok [OF ok mem(1) nn inc] by blast
      show thesis
        by (rule allocated [OF _ mem(1,3,4,2), where r = ?r])
          (use False g(2) pos st in \<open>simp_all add: allocs rows db' is_goal_complete_def\<close>)
    next
      case no: False
      obtain reason where "\<exists>rows. add_unallocated now ?key (mc_account_id e) ?amount reason (mc_correlation_id e)
          (gd_unallocated db) = Inr rows \<and> db' = db\<lparr>gd_unallocated := rows\<rparr>"
        "st \<in> {UnallocatedNoDefaultGoal, UnallocatedGoalAlreadyComplete}"
        using h r no False by (cases r) (auto simp: month_closed_handle_def Let_def result_simps split: if_splits)
      then obtain rows where ad: "add_unallocated now ?key (mc_account_id e) ?amount reason (mc_correlation_id e)
          (gd_unallocated db) = Inr rows" and db': "db' = db\<lparr>gd_unallocated := rows\<rparr>"
        and st: "st \<in> {UnallocatedNoDefaultGoal, UnallocatedGoalAlreadyComplete}" by blast
      let ?r = "\<lparr>us_source_key = ?key, us_account_id = mc_account_id e, us_amount = numeric_cents ?amount,
         us_reason = reason, us_correlation_id = mc_correlation_id e, us_observed_at = now\<rparr>"
      have rows: "rows = gd_unallocated db @ [?r]" "0 < numeric_cents ?amount"
        using ad by (auto simp: add_unallocated_def result_simps split: if_splits)
      show thesis
        by (rule unallocated [where r = ?r]) (use False st in \<open>simp_all add: rows db'\<close>)
    qed
  qed
qed

section \<open>Redeliveries of closed months\<close>

type_synonym close_delivery = "instant \<times> month_closed_event"

fun close_handle :: "close_delivery \<Rightarrow> goal_db \<Rightarrow> goal_db" where
  "close_handle (now, e) db = snd (month_closed_consumer now (Some e) db)"

fun close_key :: "close_delivery \<Rightarrow> string" where
  "close_key (now, e) = mc_source_key e"

fun close_cents :: "close_delivery \<Rightarrow> int" where
  "close_cents (now, e) = numeric_cents (mc_surplus_amount e)"

text \<open>A surplus that the NUMERIC(12, 2) columns can hold: at least half a cent, less than five billion.\<close>

fun creditable :: "close_delivery \<Rightarrow> bool" where
  "creditable (now, e) \<longleftrightarrow> month_closed_event_ok e \<and> 1 / 200 \<le> mc_surplus_amount e \<and> mc_surplus_amount e < 5 * 10 ^ 9"

definition closed_keys :: "goal_db \<Rightarrow> string set" where
  "closed_keys db = al_source_key ` set (gd_allocations db) \<union> us_source_key ` set (gd_unallocated db)"

definition close_inv :: "goal_db \<Rightarrow> bool" where
  "close_inv db \<longleftrightarrow> goals_ok (gd_goals db) \<and> (\<forall>g \<in> set (gd_goals db). 2 * g_target g < numeric_limit)"

definition recorded_total :: "goal_db \<Rightarrow> int" where
  "recorded_total db = sum_list (map al_amount (gd_allocations db)) + sum_list (map us_amount (gd_unallocated db))"

lemma already_handled_iff: "already_handled k db \<longleftrightarrow> k \<in> closed_keys db"
  by (auto simp: already_handled_def closed_keys_def allocation_key_exists_def unallocated_key_exists_def list_ex_iff)

lemma close_handle_cases:
  assumes "month_closed_event_ok e"
  shows "close_handle (now, e) db = db \<or>
    (\<exists>st db'. month_closed_handle now e db = Inr (st, db') \<and> close_handle (now, e) db = db')"
  using assms by (auto simp: month_closed_consumer_def split: sum.splits)

lemma close_handle_invalid: "\<not> month_closed_event_ok e \<Longrightarrow> close_handle (now, e) db = db"
  by (simp add: month_closed_consumer_def)

text \<open>Every delivery keeps the invariant and the recorded keys; money is conserved.\<close>

lemma sum_list_current:
  assumes "distinct (map g_id rows)" and "g \<in> set rows"
  shows "sum_list (map g_current (map (\<lambda>x. if g_id x = g_id g then x\<lparr>g_current := g_current g + c\<rparr> else x) rows)) =
    sum_list (map g_current rows) + c"
  using assms
proof (induction rows)
  case (Cons r rows)
  show ?case
  proof (cases "r = g")
    case True
    then have "x \<in> set rows \<Longrightarrow> g_id x \<noteq> g_id g" for x
      using Cons.prems(1) by (metis distinct.simps(2) image_eqI list.set_map list.simps(9))
    then have "map (\<lambda>x. if g_id x = g_id g then x\<lparr>g_current := g_current g + c\<rparr> else x) rows = rows"
      by (intro map_idI) auto
    then show ?thesis using True by simp
  next
    case False
    then have "g_id r \<noteq> g_id g"
      using Cons.prems by (metis distinct.simps(2) image_eqI list.set_map list.simps(9) set_ConsD)
    then show ?thesis using Cons.IH Cons.prems False by simp
  qed
qed simp

lemma close_step:
  assumes inv: "close_inv db"
  shows "close_inv (close_handle d db) \<and> closed_keys db \<subseteq> closed_keys (close_handle d db) \<and>
    (sum_list (map g_current (gd_goals (close_handle d db))) - sum_list (map al_amount (gd_allocations (close_handle d db))) =
     sum_list (map g_current (gd_goals db)) - sum_list (map al_amount (gd_allocations db)))"
proof -
  obtain now e where d: "d = (now, e)" by (cases d)
  have ok: "goals_ok (gd_goals db)" using inv by (simp add: close_inv_def)
  consider "close_handle d db = db" |
    st db' where "month_closed_event_ok e" "month_closed_handle now e db = Inr (st, db')" "close_handle d db = db'"
    using close_handle_cases [of e now db] close_handle_invalid [of e now db] d by blast
  then show ?thesis
  proof cases
    case 2
    from ok 2(1,2) show ?thesis
    proof (cases rule: month_closed_cases)
      case unchanged
      then show ?thesis using 2(3) inv by simp
    next
      case (unallocated r)
      then show ?thesis using 2(3) inv by (auto simp: close_inv_def closed_keys_def)
    next
      case (allocated r g ob)
      let ?f = "\<lambda>x. if g_id x = g_id g then x\<lparr>g_current := g_current g + numeric_cents (mc_surplus_amount e)\<rparr> else x"
      have "0 \<le> g_current g" using ok allocated(2) by (simp add: goals_ok_def)
      then have "goals_ok (map ?f (gd_goals db))"
        using ok allocated(10,11) by (intro goals_ok_map) (auto simp: goals_ok_def live_def)
      moreover have "distinct (map g_id (gd_goals db))" using ok by (simp add: goals_ok_def)
      ultimately show ?thesis
        using 2(3) inv allocated(7,10) sum_list_current [of "gd_goals db" g] allocated(2)
        by (auto simp: close_inv_def closed_keys_def)
    qed
  qed (use inv in simp)
qed

lemma close_duplicate:
  assumes "close_key d \<in> closed_keys db"
  shows "close_handle d db = db"
  using assms by (cases d) (auto simp: month_closed_consumer_def month_closed_handle_def Let_def already_handled_iff)

lemma close_records:
  assumes inv: "close_inv db" and c: "creditable d"
  shows "closed_keys (close_handle d db) = insert (close_key d) (closed_keys db) \<and>
    recorded_total (close_handle d db) = recorded_total db + (if close_key d \<in> closed_keys db then 0 else close_cents d)"
proof (cases "close_key d \<in> closed_keys db")
  case True
  then show ?thesis using close_duplicate [OF True] by (simp add: insert_absorb)
next
  case False
  obtain now e where d: "d = (now, e)" by (cases d)
  have ok: "goals_ok (gd_goals db)" using inv by (simp add: close_inv_def)
  have ev: "month_closed_event_ok e" and amount: "1 / 200 \<le> mc_surplus_amount e" "mc_surplus_amount e < 5 * 10 ^ 9"
    using c by (simp_all add: d)
  have nn: "0 \<le> mc_surplus_amount e" using ev by (simp add: month_closed_event_ok_def)
  let ?c = "numeric_cents (mc_surplus_amount e)"
  have pos: "0 < ?c" using numeric_cents_pos_iff [OF nn] amount(1) by simp
  have bound: "?c \<le> 5 * 10 ^ 11" using numeric_cents_less [OF nn, of "5 * 10 ^ 9"] amount(2) by simp
  have nkey: "\<not> already_handled (mc_source_key e) db" using False by (simp add: d already_handled_iff)
  have "\<exists>st db'. month_closed_handle now e db = Inr (st, db')"
  proof -
    obtain r where r: "get_default_savings_goal (mc_account_id e) (gd_goals db) = Inr r"
      using default_goal_total [OF ok] by blast
    have un: "\<exists>rows. add_unallocated now (mc_source_key e) (mc_account_id e) (mc_surplus_amount e) reason
        (mc_correlation_id e) (gd_unallocated db) = Inr rows" for reason
      using pos bound nkey
      by (simp add: add_unallocated_def fits_def numeric_limit_def already_handled_def unallocated_key_exists_def)
    have "\<exists>rows. increment_current_amount (g_id g) (mc_surplus_amount e) (gd_goals db) = Inr rows"
      and "\<exists>rows. add_allocation now (mc_source_key e) (g_id g) (mc_account_id e) (mc_surplus_amount e)
        (mc_correlation_id e) (gd_allocations db) = Inr rows" if g: "r = Some g" "\<not> is_goal_complete g" for g
    proof -
      have mem: "g \<in> set (gd_goals db)" using default_goal_cases [OF ok r] g(1) by auto
      have f: "List.find (\<lambda>x. g_id x = g_id g) (gd_goals db) = Some g"
        using find_distinct_key [of g_id "gd_goals db" g] mem ok by (simp add: goals_ok_def)
      have "0 \<le> g_current g" "g_current g < g_target g" "2 * g_target g < numeric_limit"
        using mem ok inv g(2) by (auto simp: goals_ok_def close_inv_def is_goal_complete_def)
      then show "\<exists>rows. increment_current_amount (g_id g) (mc_surplus_amount e) (gd_goals db) = Inr rows"
        using pos bound by (simp add: increment_current_amount_def f numeric_cents_add [OF _ nn] fits_def numeric_limit_def)
      show "\<exists>rows. add_allocation now (mc_source_key e) (g_id g) (mc_account_id e) (mc_surplus_amount e)
        (mc_correlation_id e) (gd_allocations db) = Inr rows"
        using pos bound nkey
        by (auto simp: add_allocation_def fits_def numeric_limit_def already_handled_def allocation_key_exists_def list_ex_iff)
    qed
    then show ?thesis
      using r un [of "''no_default_goal''"] un [of "''goal_already_complete''"] nkey amount(1)
      by (cases r) (fastforce simp: month_closed_handle_def Let_def)+
  qed
  then obtain st db' where h: "month_closed_handle now e db = Inr (st, db')" by blast
  then have eq: "close_handle d db = db'" using ev by (simp add: d month_closed_consumer_def)
  from ok ev h show ?thesis
  proof (cases rule: month_closed_cases)
    case unchanged
    then show ?thesis using nkey amount(1) by auto
  qed (use eq False in \<open>auto simp: closed_keys_def recorded_total_def d\<close>)
qed

interpretation closing: keyed_consumer close_handle close_key creditable closed_keys close_inv
proof
  fix db d
  assume inv: "close_inv db"
  show "close_inv (close_handle d db)" and "closed_keys db \<subseteq> closed_keys (close_handle d db)"
    using close_step [OF inv] by auto
  show "close_handle d db = db" if "close_key d \<in> closed_keys db" by (rule close_duplicate [OF that])
  show "close_key d \<in> closed_keys (close_handle d db)" if "creditable d" using close_records [OF inv that] by blast
qed

section \<open>Properties\<close>

text \<open>A database with one default goal, 99.00 of 100.00 saved, and a surplus of 2.50.\<close>

definition demo_goals :: goal_db where
  "demo_goals = \<lparr>gd_goals = [\<lparr>g_id = 1, g_name = None, g_target = 10000, g_current = 9900, g_target_date = None,
     g_status = StoredActive, g_account = 7, g_default = True, g_deleted_at = None\<rparr>],
     gd_allocations = [], gd_unallocated = [], gd_outbox = []\<rparr>"

definition demo_close :: "int \<Rightarrow> rat \<Rightarrow> month_closed_event" where
  "demo_close m a = \<lparr>mc_account_id = 7, mc_year = 2026, mc_month = m, mc_budgeted_amount = 5, mc_actual_spent = 0,
     mc_surplus_amount = a, mc_correlation_id = None\<rparr>"

lemma demo_goals_ok: "goals_ok (gd_goals demo_goals)" "close_inv demo_goals"
  by (simp_all add: demo_goals_def goals_ok_def close_inv_def numeric_limit_def live_def)

lemma demo_close_ok: "1 \<le> m \<Longrightarrow> m \<le> 12 \<Longrightarrow> 0 \<le> a \<Longrightarrow> month_closed_event_ok (demo_close m a)"
  by (simp add: demo_close_def month_closed_event_ok_def)



text \<open>
  A goal is announced as reached exactly when an allocation makes it reach its target.  An allocation of
  a whole number of cents goes to the live default goal of the account, which was below its target; the goal's
  saved amount grows by the surplus, and the outbox gets one goal.reached event if and only if the new amount
  is at or over the target.
\<close>

theorem goal_reached_iff_crossed:
  assumes "goals_ok (gd_goals db)" and "month_closed_event_ok e" and "mc_surplus_amount e = dec c"
    and "month_closed_handle now e db = Inr (Allocated, db')"
  shows "\<exists>g \<in> set (gd_goals db). \<exists>g' \<in> set (gd_goals db').
    g_default g \<and> live g \<and> g_account g = mc_account_id e \<and> g_current g < g_target g \<and>
    g' = g\<lparr>g_current := g_current g + c\<rparr> \<and>
    gd_outbox db' =
      (if g_target g' \<le> g_current g'
       then goal_outbox_add now (GoalReachedEvent (g_id g) (mc_account_id e) (g_name g) (dec (g_target g))
              (dec (g_current g'))) (g_id g) (gd_outbox db)
       else gd_outbox db)"
  using assms(1,2,4)
proof (cases rule: month_closed_cases)
  case (allocated r g ob)
  let ?g' = "g\<lparr>g_current := g_current g + c\<rparr>"
  have amt: "numeric_cents (mc_surplus_amount e) = c" by (simp only: assms(3) numeric_cents_dec)
  have mem: "?g' \<in> set (gd_goals db')" using allocated(2) unfolding allocated(7) amt by force
  have sum: "dec (g_current g) + dec c = dec (g_current g + c)" by (simp add: add_divide_distrib)
  have cmp: "dec (g_target g) \<le> dec (g_current g + c) \<longleftrightarrow> g_target g \<le> g_current g + c"
    by (simp add: divide_le_cancel flip: of_int_add)
  have out: "gd_outbox db' = ob" by (simp add: allocated(7))
  show ?thesis
    by (rule bexI [OF _ allocated(2)], rule bexI [OF _ mem])
      (use allocated(3-6) in \<open>simp add: out allocated(13) assms(3) sum cmp del: of_int_add\<close>)
qed (use assms(4) in \<open>auto simp: month_closed_handle_def Let_def result_simps split: if_splits option.splits\<close>)

theorem goal_reached_iff_crossed_witness:
  "\<exists>g \<in> set (gd_goals demo_goals). \<exists>g' \<in> set (gd_goals (close_handle (5, demo_close 1 (dec 250)) demo_goals)).
    g_default g \<and> live g \<and> g_account g = mc_account_id (demo_close 1 (dec 250)) \<and> g_current g < g_target g \<and>
    g' = g\<lparr>g_current := g_current g + 250\<rparr> \<and>
    gd_outbox (close_handle (5, demo_close 1 (dec 250)) demo_goals) =
      (if g_target g' \<le> g_current g'
       then goal_outbox_add 5 (GoalReachedEvent (g_id g) (mc_account_id (demo_close 1 (dec 250))) (g_name g) (dec (g_target g))
              (dec (g_current g'))) (g_id g) (gd_outbox demo_goals)
       else gd_outbox demo_goals)"
proof (rule goal_reached_iff_crossed [OF demo_goals_ok(1)])
  show "month_closed_event_ok (demo_close 1 (dec 250))" by (rule demo_close_ok) simp_all
  show "month_closed_handle 5 (demo_close 1 (dec 250)) demo_goals =
      Inr (Allocated, close_handle (5, demo_close 1 (dec 250)) demo_goals)"
    by (simp add: month_closed_consumer_def demo_close_ok)
      (simp add: month_closed_handle_def Let_def demo_goals_def demo_close_def already_handled_def allocation_key_exists_def
        unallocated_key_exists_def get_default_savings_goal_def live_def is_goal_complete_def add_allocation_def
        increment_current_amount_def fits_def numeric_limit_def numeric_cents_def)
qed (simp add: demo_close_def)

text \<open>
  A positive surplus below half a cent is lost silently: the stored amount rounds to 0.00, the table
  constraint \<open>amount > 0\<close> raises an \<open>IntegrityError\<close>, the consumer takes it for a lost race with a duplicate
  and acknowledges the message, and no row records the month.
\<close>

theorem tiny_surplus_dropped:
  assumes "goals_ok (gd_goals db)" and "month_closed_event_ok e" and "0 < mc_surplus_amount e"
    and "mc_surplus_amount e < 1 / 200" and "\<not> already_handled (mc_source_key e) db"
  shows "month_closed_consumer now (Some e) db = (Handled, db) \<and>
    month_closed_handle now e db = Inl GoalIntegrityError"
proof -
  have zero: "numeric_cents (mc_surplus_amount e) = 0"
    using numeric_cents_pos_iff [of "mc_surplus_amount e"] numeric_cents_nonneg [of "mc_surplus_amount e"] assms(3,4)
    by linarith
  obtain r where r: "get_default_savings_goal (mc_account_id e) (gd_goals db) = Inr r"
    using default_goal_total [OF assms(1)] by blast
  have "month_closed_handle now e db = Inl GoalIntegrityError"
    using assms(3,5) r zero
    by (cases r) (auto simp: month_closed_handle_def Let_def add_unallocated_def add_allocation_def fits_def numeric_limit_def)
  then show ?thesis using assms(2) by (simp add: month_closed_consumer_def)
qed

theorem tiny_surplus_dropped_witness:
  "month_closed_consumer 5 (Some (demo_close 1 (4 / 10 ^ 17))) demo_goals = (Handled, demo_goals) \<and>
   month_closed_handle 5 (demo_close 1 (4 / 10 ^ 17)) demo_goals = Inl GoalIntegrityError"
proof (rule tiny_surplus_dropped [OF demo_goals_ok(1)])
  show "month_closed_event_ok (demo_close 1 (4 / 10 ^ 17))" by (rule demo_close_ok) simp_all
qed (simp_all add: demo_close_def demo_goals_def already_handled_def allocation_key_exists_def unallocated_key_exists_def)

section \<open>All operations\<close>

text \<open>What can change the goal database: the use cases of the API, with validated bodies, and closed months.\<close>

datatype goal_op =
    OpCreate instant goal_base int int
  | OpUpdate instant int goal_base int
  | OpDelete instant int int
  | OpSetDefault instant int int
  | OpClearDefault instant int int
  | OpMonthClosed instant "month_closed_event option"

definition committed :: "goal_db \<Rightarrow> goal_error + ('a \<times> goal_db) \<Rightarrow> goal_db" where
  "committed db r = (case r of Inl _ \<Rightarrow> db | Inr (_, db') \<Rightarrow> db')"

fun apply_goal_op :: "owner_port \<Rightarrow> goal_op \<Rightarrow> goal_db \<Rightarrow> goal_db" where
  "apply_goal_op owner (OpCreate now b a u) db =
     (if goal_base_ok b then committed db (create_goal owner now b a u db) else db)"
| "apply_goal_op owner (OpUpdate now i b u) db =
     (if goal_base_ok b then committed db (update_goal owner now i b u db) else db)"
| "apply_goal_op owner (OpDelete now i u) db = committed db (delete_goal owner now i u db)"
| "apply_goal_op owner (OpSetDefault now i u) db = committed db (set_default_goal owner now i u db)"
| "apply_goal_op owner (OpClearDefault now i u) db = committed db (clear_default_goal owner now i u db)"
| "apply_goal_op owner (OpMonthClosed now e) db = snd (month_closed_consumer now e db)"

definition empty_goal_db :: goal_db where
  "empty_goal_db = \<lparr>gd_goals = [], gd_allocations = [], gd_unallocated = [], gd_outbox = []\<rparr>"

inductive goal_reach :: "owner_port \<Rightarrow> goal_db \<Rightarrow> bool" for owner where
  goal_init: "goal_reach owner empty_goal_db"
| goal_step: "goal_reach owner db \<Longrightarrow> goal_reach owner (apply_goal_op owner op db)"

lemma owned_goal_Some:
  "owned_goal owner i u db = Inr (Some (g, oid)) \<Longrightarrow> g \<in> set (gd_goals db) \<and> g_id g = i \<and> live g \<and> owner (g_account g) = Inr u"
  by (auto simp: owned_goal_def result_simps dest: goal_get_by_id_Some split: option.splits if_splits)

lemma month_closed_goals_ok:
  assumes ok: "goals_ok (gd_goals db)"
  shows "goals_ok (gd_goals (snd (month_closed_consumer now p db)))"
proof (cases p)
  case (Some e)
  show ?thesis
  proof (cases "month_closed_event_ok e")
    case True
    show ?thesis
    proof (cases "month_closed_handle now e db")
      case (Inr r)
      then obtain st db' where h: "month_closed_handle now e db = Inr (st, db')" by (cases r) auto
      from ok True h have "goals_ok (gd_goals db')"
      proof (cases rule: month_closed_cases)
        case (allocated r g ob)
        have "0 \<le> g_current g" using ok allocated(2) by (simp add: goals_ok_def)
        then show ?thesis
          unfolding allocated(7) goal_db.simps using ok allocated(10,11)
          by (intro goals_ok_map) (auto simp: goals_ok_def live_def)
      qed (use ok in simp_all)
      then show ?thesis using h Some True by (simp add: month_closed_consumer_def)
    qed (use ok Some True in \<open>simp add: month_closed_consumer_def\<close>)
  qed (use ok Some in \<open>simp add: month_closed_consumer_def\<close>)
qed (use ok in \<open>simp add: month_closed_consumer_def\<close>)

lemma apply_goal_op_ok:
  assumes ok: "goals_ok (gd_goals db)"
  shows "goals_ok (gd_goals (apply_goal_op owner op db))"
proof (cases op)
  case (OpCreate now b a u)
  then show ?thesis
    using ok create_ok [OF ok] by (auto simp: committed_def create_goal_def goal_base_ok_def result_simps split: sum.splits)
next
  case (OpUpdate now i b u)
  then show ?thesis
    using ok update_ok [OF ok]
    by (auto simp: committed_def update_goal_def goal_base_ok_def result_simps split: sum.splits option.splits)
next
  case (OpDelete now i u)
  have "goals_ok (gd_goals db')" if r: "delete_goal owner now i u db = Inr (b, db')" for b db'
  proof -
    obtain r where o: "owned_goal owner i u db = Inr r"
      using r by (cases "owned_goal owner i u db") (auto simp: delete_goal_def bindE_def)
    show ?thesis
    proof (cases r)
      case None
      then show ?thesis using r o ok by (simp add: delete_goal_def bindE_def)
    next
      case (Some p)
      then show ?thesis
        using r o ok delete_ok [OF ok, of now i]
        by (cases p) (auto simp: delete_goal_def bindE_def case_prod_beta split: if_splits)
    qed
  qed
  then show ?thesis using ok OpDelete by (auto simp: committed_def split: sum.splits)
next
  case (OpSetDefault now i u)
  then show ?thesis
    using ok set_default_ok [OF ok]
    by (auto simp: committed_def set_default_goal_def result_simps Let_def dest!: owned_goal_Some split: sum.splits option.splits)
next
  case (OpClearDefault now i u)
  then show ?thesis
    using ok clear_default_ok [OF ok]
    by (auto simp: committed_def clear_default_goal_def result_simps Let_def split: sum.splits option.splits)
next
  case (OpMonthClosed now e)
  then show ?thesis using month_closed_goals_ok [OF ok] by simp
qed

lemma goal_reach_ok: "goal_reach owner db \<Longrightarrow> goals_ok (gd_goals db)"
  by (induction rule: goal_reach.induct) (simp_all add: apply_goal_op_ok, simp add: empty_goal_db_def goals_ok_def)

text \<open>
  C29.  Whatever the users do and whatever months are closed, every account has at most one default savings goal,
  that goal is not deleted, and so the query for it never finds several rows; goal ids are unique and saved
  amounts never become negative.
\<close>

theorem default_goal_unique:
  assumes "goal_reach owner db"
  shows "distinct (map g_id (gd_goals db)) \<and>
    (\<forall>g \<in> set (gd_goals db). 0 \<le> g_current g \<and> (g_default g \<longrightarrow> live g)) \<and>
    (\<forall>a. \<exists>r. get_default_savings_goal a (gd_goals db) = Inr r \<and>
       (\<forall>g \<in> set (gd_goals db). g_account g = a \<and> g_default g \<longleftrightarrow> r = Some g))"
proof -
  have ok: "goals_ok (gd_goals db)" by (rule goal_reach_ok [OF assms])
  have "\<exists>r. get_default_savings_goal a (gd_goals db) = Inr r \<and>
       (\<forall>g \<in> set (gd_goals db). g_account g = a \<and> g_default g \<longleftrightarrow> r = Some g)" for a
  proof -
    obtain r where r: "get_default_savings_goal a (gd_goals db) = Inr r" using default_goal_total [OF ok] by blast
    have "g_account g = a \<and> g_default g \<longleftrightarrow> r = Some g" if "g \<in> set (gd_goals db)" for g
      using default_goal_cases [OF ok r] that ok unfolding goals_ok_def by (metis option.distinct(1) option.inject)
    then show ?thesis using r by blast
  qed
  then show ?thesis using ok by (simp add: goals_ok_def)
qed

definition demo_ops :: "goal_op list" where
  "demo_ops =
     (let b = \<lparr>gb_name = None, gb_target = 100, gb_current = 0, gb_target_date = None, gb_status = StoredActive\<rparr> in
      [OpCreate 1 b 7 3, OpCreate 2 b 7 3, OpSetDefault 3 1 3, OpSetDefault 4 2 3])"

definition demo_goal_db :: goal_db where
  "demo_goal_db = fold (apply_goal_op (\<lambda>_. Inr 3)) demo_ops empty_goal_db"

lemma goal_reach_fold: "goal_reach owner db \<Longrightarrow> goal_reach owner (fold (apply_goal_op owner) ops db)"
  by (induction ops arbitrary: db) (auto intro: goal_step)

lemma demo_goal_db_eq: "map (\<lambda>g. (g_id g, g_default g)) (gd_goals demo_goal_db) = [(1, False), (2, True)]"
  by code_simp

theorem default_goal_unique_witness:
  "map (\<lambda>g. (g_id g, g_default g)) (gd_goals demo_goal_db) = [(1, False), (2, True)] \<and>
   distinct (map g_id (gd_goals demo_goal_db))"
  using default_goal_unique [of "\<lambda>_. Inr 3" demo_goal_db] goal_reach_fold [OF goal_init, of "\<lambda>_. Inr 3" demo_ops] demo_goal_db_eq
  unfolding demo_goal_db_def by blast

end
