(* ===== verification/PyFloat.thy ===== *)
theory PyFloat
  imports Complex_Main "HOL-Library.Log_Nat"
begin

text \<open>
  Python's binary floating point on finite values: a \<open>float\<close> is the rational number it denotes, and \<open>fl\<close> rounds
  a rational to the nearest 53-bit one, ties to even, as every float operation does with its exact result.
  Overflow and the subnormal range (magnitudes above \<open>2 ^ 1023\<close> or below \<open>2 ^ -1022\<close>) are outside the amounts of
  money and percentages the program computes with, and are not modelled.
\<close>

definition round_half_even :: "rat \<Rightarrow> int" where
  "round_half_even x =
     (let n = \<lfloor>x\<rfloor>; r = x - of_int n in
      if r < 1 / 2 then n else if r > 1 / 2 then n + 1 else if even n then n else n + 1)"

text \<open>The exponent of a positive rational: the \<open>e\<close> with \<open>2 ^ e \<le> x < 2 ^ (e + 1)\<close>.\<close>

definition pow2 :: "int \<Rightarrow> rat" where
  "pow2 e = (if 0 \<le> e then 2 ^ nat e else 1 / 2 ^ nat (- e))"

definition exponent :: "rat \<Rightarrow> int" where
  "exponent x =
     (let (n, d) = quotient_of x; e = bitlen n - bitlen d in if pow2 e \<le> x then e else e - 1)"

definition fl :: "rat \<Rightarrow> rat" where
  "fl x =
     (if x = 0 then 0
      else
        (let s = pow2 (52 - exponent \<bar>x\<bar>); m = of_int (round_half_even (\<bar>x\<bar> * s)) / s
         in if x < 0 then - m else m))"

text \<open>The operations: division by zero raises, so it is guarded by the caller.\<close>

abbreviation fadd :: "rat \<Rightarrow> rat \<Rightarrow> rat" where "fadd x y \<equiv> fl (x + y)"
abbreviation fsub :: "rat \<Rightarrow> rat \<Rightarrow> rat" where "fsub x y \<equiv> fl (x - y)"
abbreviation fmul :: "rat \<Rightarrow> rat \<Rightarrow> rat" where "fmul x y \<equiv> fl (x * y)"
abbreviation fdiv :: "rat \<Rightarrow> rat \<Rightarrow> rat" where "fdiv x y \<equiv> fl (x / y)"

lemma fl_0 [simp]: "fl 0 = 0"
  by (simp add: fl_def)

lemma fl_minus [simp]: "fl (- x) = - fl x"
  by (simp add: fl_def Let_def)

lemma round_half_even_nonneg: "0 \<le> x \<Longrightarrow> 0 \<le> round_half_even x"
  by (simp add: round_half_even_def Let_def)

lemma pow2_pos [simp]: "0 < pow2 e"
  by (simp add: pow2_def)

lemma fl_nonneg: "0 \<le> x \<Longrightarrow> 0 \<le> fl x"
  using round_half_even_nonneg [of "\<bar>x\<bar> * pow2 (52 - exponent \<bar>x\<bar>)"] pow2_pos [of "52 - exponent \<bar>x\<bar>"]
  by (simp add: fl_def Let_def less_imp_le)

lemma fl_abs: "\<bar>fl x\<bar> = fl \<bar>x\<bar>"
  using fl_nonneg [of x] fl_nonneg [of "- x"] by (cases "0 \<le> x") (auto simp: abs_if)

text \<open>Sums of cents are not exact: the classic example.\<close>

lemma fl_tenth_plus_fifth: "fadd (fl (1 / 10)) (fl (2 / 10)) \<noteq> fl (3 / 10)"
  by code_simp

section \<open>Accuracy and monotonicity\<close>

lemma pow2_powr: "pow2 e = (2::rat) powi e"
  by (simp add: pow2_def power_int_def field_simps)

lemma pow2_add: "pow2 (a + b) = pow2 a * pow2 b"
  by (simp add: pow2_powr power_int_add)

lemma pow2_mono: "a \<le> b \<Longrightarrow> pow2 a \<le> pow2 b"
  by (simp add: pow2_powr power_int_increasing)

lemma bitlen_pow2_bounds:
  assumes "0 < n"
  shows "pow2 (bitlen n - 1) \<le> of_int n" and "of_int n < pow2 (bitlen n)"
proof -
  have b: "2 ^ nat (bitlen n - 1) \<le> n" "n < 2 ^ nat (bitlen n)" using bitlen_bounds [OF assms] by simp_all
  have "1 \<le> bitlen n" using assms by (metis bitlen_eq_zero_iff bitlen_nonneg int_one_le_iff_zero_less not_le order_le_less)
  then have p: "pow2 (bitlen n - 1) = of_int (2 ^ nat (bitlen n - 1))" "pow2 (bitlen n) = of_int (2 ^ nat (bitlen n))"
    by (simp_all add: pow2_def)
  show "pow2 (bitlen n - 1) \<le> of_int n" "of_int n < pow2 (bitlen n)"
    unfolding p by (simp_all only: of_int_le_iff of_int_less_iff b)
qed

lemma exponent_bounds:
  assumes "0 < x"
  shows "pow2 (exponent x) \<le> x" and "x < pow2 (exponent x + 1)"
proof -
  obtain n d where q: "quotient_of x = (n, d)" by fastforce
  have d: "0 < d" using quotient_of_denom_pos [OF q] .
  have x: "x = of_int n / of_int d" using quotient_of_div [OF q] .
  then have n: "0 < n" using assms d by (simp add: zero_less_divide_iff)
  let ?e = "bitlen n - bitlen d"
  have e: "exponent x = (if pow2 ?e \<le> x then ?e else ?e - 1)"
    by (simp add: exponent_def q)
  have "pow2 (?e - 1) * of_int d \<le> pow2 (?e - 1) * pow2 (bitlen d)"
    using bitlen_pow2_bounds(2) [OF d] by (simp add: less_imp_le)
  also have "\<dots> = pow2 (bitlen n - 1)" by (simp add: pow2_add [symmetric])
  also have "\<dots> \<le> of_int n" by (rule bitlen_pow2_bounds(1) [OF n])
  finally have lo: "pow2 (?e - 1) \<le> x" using d by (simp add: x field_simps)
  have "of_int n < pow2 (bitlen n)" by (rule bitlen_pow2_bounds(2) [OF n])
  also have "\<dots> = pow2 (?e + 1) * pow2 (bitlen d - 1)" by (simp add: pow2_add [symmetric])
  also have "\<dots> \<le> pow2 (?e + 1) * of_int d"
    using bitlen_pow2_bounds(1) [OF d] by simp
  finally have hi: "x < pow2 (?e + 1)" using d by (simp add: x field_simps)
  show "pow2 (exponent x) \<le> x" "x < pow2 (exponent x + 1)" using lo hi by (simp_all add: e)
qed

lemma round_half_even_mono: "x \<le> y \<Longrightarrow> round_half_even x \<le> round_half_even y"
proof -
  assume xy: "x \<le> y"
  have f: "\<lfloor>x\<rfloor> \<le> \<lfloor>y\<rfloor>" by (rule floor_mono [OF xy])
  have r: "\<lfloor>z\<rfloor> \<le> round_half_even z \<and> round_half_even z \<le> \<lfloor>z\<rfloor> + 1" for z
    by (simp add: round_half_even_def Let_def)
  show ?thesis
  proof (cases "\<lfloor>x\<rfloor> = \<lfloor>y\<rfloor>")
    case True
    then show ?thesis using xy by (auto simp: round_half_even_def Let_def)
  next
    case False
    then show ?thesis using f r [of x] r [of y] by linarith
  qed
qed

lemma round_half_even_of_int [simp]: "round_half_even (of_int n) = n"
  by (simp add: round_half_even_def)

lemma round_half_even_near: "\<bar>of_int (round_half_even x) - x\<bar> \<le> 1 / 2"
  using floor_correct [of x] by (auto simp: round_half_even_def Let_def)

lemma fl_pos: "0 < x \<Longrightarrow> fl x = of_int (round_half_even (x * pow2 (52 - exponent x))) / pow2 (52 - exponent x)"
  by (simp add: fl_def Let_def)

lemma pow2_52: "pow2 e * pow2 (52 - e) = of_int (2 ^ 52)"
  by (simp add: pow2_add [symmetric]) (simp add: pow2_def)

lemma fl_bounds:
  assumes "0 < x"
  shows "pow2 (exponent x) \<le> fl x" and "fl x \<le> pow2 (exponent x + 1)"
proof -
  let ?e = "exponent x" and ?s = "pow2 (52 - exponent x)"
  have "round_half_even (pow2 ?e * ?s) \<le> round_half_even (x * ?s)"
    using exponent_bounds(1) [OF assms] by (intro round_half_even_mono) simp
  then have "of_int (2 ^ 52) \<le> (of_int (round_half_even (x * ?s)) :: rat)"
    by (simp add: pow2_52 del: of_int_power of_int_numeral)
  then show "pow2 ?e \<le> fl x"
    by (simp add: fl_pos [OF assms] pos_le_divide_eq pow2_52)
  have "pow2 (?e + 1) * ?s = of_int (2 ^ 53)"
    by (simp add: pow2_add [symmetric]) (simp add: pow2_def)
  moreover have "round_half_even (x * ?s) \<le> round_half_even (pow2 (?e + 1) * ?s)"
    using exponent_bounds(2) [OF assms] by (intro round_half_even_mono) simp
  ultimately have "(of_int (round_half_even (x * ?s)) :: rat) \<le> pow2 (?e + 1) * ?s"
    by (simp del: of_int_power of_int_numeral)
  then show "fl x \<le> pow2 (?e + 1)" by (simp add: fl_pos [OF assms] pos_divide_le_eq)
qed

lemma fl_mono_pos: "0 < x \<Longrightarrow> x \<le> y \<Longrightarrow> fl x \<le> fl y"
proof -
  assume x: "0 < x" and xy: "x \<le> y"
  then have y: "0 < y" by simp
  show ?thesis
  proof (cases "exponent x" "exponent y" rule: linorder_cases)
    case equal
    then show ?thesis
      using xy round_half_even_mono [of "x * pow2 (52 - exponent x)" "y * pow2 (52 - exponent x)"]
      by (simp add: fl_pos x y) (rule divide_right_mono, simp_all add: less_imp_le)
  next
    case less
    then show ?thesis
      using fl_bounds(2) [OF x] fl_bounds(1) [OF y] pow2_mono [of "exponent x + 1" "exponent y"] by linarith
  next
    case greater
    then have "pow2 (exponent y + 1) \<le> pow2 (exponent x)" by (intro pow2_mono) simp
    then show ?thesis using exponent_bounds(1) [OF x] exponent_bounds(2) [OF y] xy by linarith
  qed
qed

lemma fl_mono: "x \<le> y \<Longrightarrow> fl x \<le> fl y"
proof -
  assume xy: "x \<le> y"
  consider "0 < x" | "y < 0" | "x \<le> 0" "0 \<le> y" by linarith
  then show ?thesis
  proof cases
    case 2
    then show ?thesis using fl_mono_pos [of "- y" "- x"] xy by simp
  next
    case 3
    then show ?thesis using fl_nonneg [of "- x"] fl_nonneg [of y] by simp
  qed (use xy fl_mono_pos in simp)
qed

text \<open>Integers of at most 53 bits are exact.\<close>

lemma fl_of_int:
  assumes "\<bar>n\<bar> < 2 ^ 53"
  shows "fl (of_int n) = of_int n"
proof -
  have pos: "fl (of_int m) = of_int m" if m: "0 < m" "m < 2 ^ 53" for m
  proof -
    let ?x = "of_int m :: rat"
    have x: "0 < ?x" using m by simp
    have "exponent ?x \<le> 52"
    proof (rule ccontr)
      assume "\<not> exponent ?x \<le> 52"
      then have "pow2 53 \<le> pow2 (exponent ?x)" by (intro pow2_mono) simp
      then have "of_int (2 ^ 53) \<le> ?x"
        using exponent_bounds(1) [OF x] by (simp add: pow2_def del: of_int_power of_int_numeral)
      then show False using m(2) by (simp only: of_int_le_iff)
    qed
    then have p: "pow2 (52 - exponent ?x) = of_int (2 ^ nat (52 - exponent ?x))" by (simp add: pow2_def)
    then have "?x * pow2 (52 - exponent ?x) = of_int (m * 2 ^ nat (52 - exponent ?x))" by simp
    then have "round_half_even (?x * pow2 (52 - exponent ?x)) = m * 2 ^ nat (52 - exponent ?x)"
      by (metis round_half_even_of_int)
    then show ?thesis using p by (simp add: fl_pos [OF x])
  qed
  show ?thesis
  proof (cases n "0 :: int" rule: linorder_cases)
    case less
    then show ?thesis using pos [of "- n"] assms by simp
  qed (use pos [of n] assms in simp_all)
qed

end
