(* ===== verification/PyDecimal.thy ===== *)
theory PyDecimal
  imports PyFloat Prelude Calendar
begin

text \<open>
  Decimal numerals and ISO dates as the services exchange them: \<open>Decimal(s)\<close> on a string, \<open>str\<close> of a
  \<open>Decimal\<close> that was read from a NUMERIC(12, 2) column, and \<open>date.isoformat()\<close>.  A \<open>Decimal\<close> is the rational
  number it denotes.  Strings are ASCII; \<open>NaN\<close> and \<open>Infinity\<close>, which no producer writes and no consumer can
  store, count as malformed.
\<close>

section \<open>Characters\<close>

definition is_digit :: "char \<Rightarrow> bool" where
  "is_digit c \<longleftrightarrow> 48 \<le> (of_char c :: nat) \<and> (of_char c :: nat) \<le> 57"

definition is_space :: "char \<Rightarrow> bool" where
  "is_space c \<longleftrightarrow> (of_char c :: nat) \<in> {9, 10, 11, 12, 13, 28, 29, 30, 31, 32, 133, 160}"

definition strip :: "string \<Rightarrow> string" where
  "strip s = rev (dropWhile is_space (rev (dropWhile is_space s)))"

definition digits_val :: "string \<Rightarrow> nat" where
  "digits_val ds = foldl (\<lambda>n c. 10 * n + (of_char c - 48)) 0 ds"

text \<open>\<open>int(s)\<close> on a non-empty string of digits.\<close>

definition parse_nat :: "string \<Rightarrow> nat option" where
  "parse_nat s = (if s \<noteq> [] \<and> list_all is_digit s then Some (digits_val s) else None)"

text \<open>A sign and the rest.\<close>

fun split_sign :: "string \<Rightarrow> bool \<times> string" where
  "split_sign [] = (False, [])"
| "split_sign (c # s) = (if c = CHR ''-'' then (True, s) else if c = CHR ''+'' then (False, s) else (False, c # s))"

section \<open>Decimal\<close>

definition scale10 :: "int \<Rightarrow> rat" where
  "scale10 e = (if 0 \<le> e then 10 ^ nat e else 1 / 10 ^ nat (- e))"

text \<open>The exponent part: nothing, or \<open>e\<close> or \<open>E\<close> with an optionally signed numeral.\<close>

definition parse_exponent :: "string \<Rightarrow> int option" where
  "parse_exponent s =
     (case s of
        [] \<Rightarrow> Some 0
      | c # r \<Rightarrow>
          if c = CHR ''e'' \<or> c = CHR ''E'' then
            (let (neg, ds) = split_sign r
             in map_option (\<lambda>n. if neg then - int n else int n) (parse_nat ds))
          else None)"

definition parse_decimal :: "string \<Rightarrow> rat option" where
  "parse_decimal s =
     (let (neg, body) = split_sign (filter (\<lambda>c. c \<noteq> CHR ''_'') (strip s));
          ip = takeWhile is_digit body;
          rest = dropWhile is_digit body;
          (fp, rest') = (case rest of
             c # r \<Rightarrow> if c = CHR ''.'' then (takeWhile is_digit r, dropWhile is_digit r) else ([], rest)
           | [] \<Rightarrow> ([], []))
      in if ip = [] \<and> fp = [] then None
         else map_option (\<lambda>e.
           (if neg then - 1 else 1) * of_nat (digits_val (ip @ fp)) * scale10 (e - int (length fp)))
           (parse_exponent rest'))"

text \<open>A numeral of fixed width, padded with zeros.\<close>

definition pad :: "nat \<Rightarrow> nat \<Rightarrow> string" where
  "pad w n = replicate (w - length (show_nat n)) CHR ''0'' @ show_nat n"

definition show_cents :: "int \<Rightarrow> string" where
  "show_cents c =
     (if c < 0 then ''-'' else []) @ show_nat (nat \<bar>c\<bar> div 100) @ ''.'' @ pad 2 (nat \<bar>c\<bar> mod 100)"

section \<open>Floats as decimals\<close>

text \<open>
  \<open>Decimal(str(x))\<close>: \<open>str\<close> writes the shortest decimal that reads back as \<open>x\<close>, and the nearest one of that
  length.  Seventeen significant digits always suffice for a double.
\<close>

function num_digits :: "int \<Rightarrow> int" where
  "num_digits n = (if n < 10 then 1 else 1 + num_digits (n div 10))"
  by pat_completeness auto
termination by (relation "measure nat") auto

declare num_digits.simps [simp del]

definition exponent10 :: "rat \<Rightarrow> int" where
  "exponent10 x =
     (let (n, d) = quotient_of x; e = num_digits n - num_digits d
      in if scale10 e \<le> x then e else e - 1)"

definition decimals_of_length :: "nat \<Rightarrow> rat \<Rightarrow> rat list" where
  "decimals_of_length k x =
     (let s = scale10 (int k - 1 - exponent10 x); y = x * s; lo = of_int \<lfloor>y\<rfloor>; hi = of_int \<lceil>y\<rceil>
      in filter (\<lambda>c. fl c = x) (if y - lo \<le> hi - y then [lo / s, hi / s] else [hi / s, lo / s]))"

fun shortest_decimal :: "nat list \<Rightarrow> rat \<Rightarrow> rat" where
  "shortest_decimal [] x = x"
| "shortest_decimal (k # ks) x = (case decimals_of_length k x of [] \<Rightarrow> shortest_decimal ks x | c # _ \<Rightarrow> c)"

definition repr_decimal :: "rat \<Rightarrow> rat" where
  "repr_decimal x =
     (if x = 0 then 0
      else if x < 0 then - shortest_decimal [1..<18] (- x) else shortest_decimal [1..<18] x)"

text \<open>\<open>round(x, 2)\<close> on a float: the exact value rounded to cents, ties to even, as a float.\<close>

definition round2 :: "rat \<Rightarrow> rat" where
  "round2 x = fl (of_int (round_half_even (x * 100)) / 100)"

lemma fl_shortest_decimal: "fl x = x \<Longrightarrow> fl (shortest_decimal ks x) = x"
proof (induction ks)
  case (Cons k ks)
  show ?case
  proof (cases "decimals_of_length k x")
    case (Cons c cs)
    then have "c \<in> set (decimals_of_length k x)" by simp
    then show ?thesis using Cons by (simp add: decimals_of_length_def Let_def split: if_splits)
  qed (use Cons in simp)
qed simp

text \<open>Reading back what \<open>str\<close> wrote gives the same float.\<close>

lemma fl_repr_decimal: "fl x = x \<Longrightarrow> fl (repr_decimal x) = x"
  using fl_shortest_decimal [of x] fl_shortest_decimal [of "- x"] by (simp add: repr_decimal_def)

section \<open>ISO dates\<close>

definition isoformat :: "date \<Rightarrow> string" where
  "isoformat d = pad 4 (nat (year d)) @ ''-'' @ pad 2 (nat (month d)) @ ''-'' @ pad 2 (nat (day d))"

definition of_isoformat :: "string \<Rightarrow> date option" where
  "of_isoformat s =
     (if length s = 10 \<and> s ! 4 = CHR ''-'' \<and> s ! 7 = CHR ''-'' then
        (case (parse_nat (take 4 s), parse_nat (take 2 (drop 5 s)), parse_nat (drop 8 s)) of
           (Some y, Some m, Some d) \<Rightarrow>
             (case make_date (int y) (int m) (int d) of Inr x \<Rightarrow> Some x | Inl _ \<Rightarrow> None)
         | _ \<Rightarrow> None)
      else None)"

section \<open>Digits\<close>

lemma is_digit_char_of: "d < 10 \<Longrightarrow> is_digit (char_of (48 + d :: nat))"
  by (simp add: is_digit_def take_bit_eq_mod)

lemma of_digit: "d < 10 \<Longrightarrow> of_char (char_of (48 + d :: nat) :: char) - 48 = (d :: nat)"
  by (simp add: take_bit_eq_mod)

lemma digits_val_Nil [simp]: "digits_val [] = 0"
  by (simp add: digits_val_def)

lemma digits_val_snoc [simp]: "digits_val (ds @ [c]) = 10 * digits_val ds + (of_char c - 48)"
  by (simp add: digits_val_def)

lemma digits_val_append: "digits_val (xs @ ys) = digits_val xs * 10 ^ length ys + digits_val ys"
proof (induction ys rule: rev_induct)
  case (snoc y ys)
  then show ?case by (simp add: append_assoc [symmetric] algebra_simps del: append_assoc)
qed simp

lemma digits_val_show_nat [simp]: "digits_val (show_nat n) = n"
proof (induction n rule: show_nat.induct)
  case (1 n)
  show ?case
  proof (cases "n < 10")
    case True
    then show ?thesis using of_digit [of n] by (simp add: show_nat_single digits_val_def del: of_char_of)
  next
    case False
    then show ?thesis using "1.IH" of_digit [of "n mod 10"] by (simp add: show_nat_snoc del: of_char_of)
  qed
qed

lemma show_nat_all_digits: "list_all is_digit (show_nat n)"
  unfolding list_all_iff using show_nat_digits is_digit_char_of by blast

lemma zeros_val [simp]: "digits_val (replicate k CHR ''0'') = 0"
  by (induction k) (simp_all add: replicate_append_same [symmetric])

lemma digits_val_pad [simp]: "digits_val (pad w n) = n"
  by (simp add: pad_def digits_val_append)

lemma pad_all_digits: "list_all is_digit (pad w n)"
  using show_nat_all_digits [of n] by (auto simp: pad_def list_all_iff is_digit_def)

lemma length_show_nat_le: "n < 10 ^ k \<Longrightarrow> 0 < k \<Longrightarrow> length (show_nat n) \<le> k"
proof (induction k arbitrary: n)
  case (Suc k)
  show ?case
  proof (cases "n < 10")
    case True
    then show ?thesis by (simp add: show_nat_single)
  next
    case False
    then have "0 < k" using Suc.prems by (cases k) auto
    then have "length (show_nat (n div 10)) \<le> k" using Suc.prems by (intro Suc.IH) auto
    then show ?thesis using False by (simp add: show_nat_snoc)
  qed
qed simp

lemma length_pad: "n < 10 ^ w \<Longrightarrow> 0 < w \<Longrightarrow> length (pad w n) = w"
  using length_show_nat_le [of n w] by (simp add: pad_def)

lemma parse_nat_pad: "0 < w \<Longrightarrow> parse_nat (pad w n) = Some n"
  using pad_all_digits [of w n] by (simp add: parse_nat_def) (simp add: pad_def)

section \<open>Round trips\<close>

lemma takeWhile_digits:
  assumes "list_all is_digit ds" and "\<not> is_digit c"
  shows "takeWhile is_digit (ds @ c # r) = ds" "dropWhile is_digit (ds @ c # r) = c # r"
  using assms by (induction ds) auto

lemma all_digits_while:
  assumes "list_all is_digit ds"
  shows "takeWhile is_digit ds = ds" "dropWhile is_digit ds = []"
  using assms by (induction ds) auto

lemma numeral_chars:
  assumes "c \<in> set (show_cents n)"
  shows "\<not> is_space c \<and> c \<noteq> CHR ''_''"
proof -
  have "is_digit c \<or> c = CHR ''-'' \<or> c = CHR ''.''"
    using assms show_nat_all_digits [of "nat \<bar>n\<bar> div 100"] pad_all_digits [of 2 "nat \<bar>n\<bar> mod 100"]
    by (auto simp: show_cents_def list_all_iff split: if_splits)
  then show ?thesis by (auto simp: is_digit_def is_space_def)
qed

lemma strip_id: "(\<And>c. c \<in> set s \<Longrightarrow> \<not> is_space c) \<Longrightarrow> strip s = s"
proof -
  have d: "dropWhile is_space t = t" if "\<And>c. c \<in> set t \<Longrightarrow> \<not> is_space c" for t
    using that by (cases t) auto
  assume "\<And>c. c \<in> set s \<Longrightarrow> \<not> is_space c"
  then show ?thesis using d [of s] d [of "rev s"] by (simp add: strip_def)
qed

lemma split_sign_digits: "list_all is_digit ds \<Longrightarrow> ds \<noteq> [] \<Longrightarrow> split_sign (ds @ r) = (False, ds @ r)"
  by (cases ds) (auto simp: is_digit_def)

lemma split_sign_show_cents:
  "split_sign (show_cents c) = (c < 0, show_nat (nat \<bar>c\<bar> div 100) @ ''.'' @ pad 2 (nat \<bar>c\<bar> mod 100))"
  using split_sign_digits [OF show_nat_all_digits show_nat_not_Nil] by (simp add: show_cents_def)

lemma parse_decimal_show_cents: "parse_decimal (show_cents c) = Some (of_int c / 100)"
proof -
  let ?n = "nat \<bar>c\<bar>"
  have s: "filter (\<lambda>c. c \<noteq> CHR ''_'') (strip (show_cents c)) = show_cents c"
    using numeral_chars [of _ c] by (subst strip_id) (auto intro: filter_True)
  have dot: "\<not> is_digit CHR ''.''" by (simp add: is_digit_def)
  have len: "length (pad 2 (?n mod 100)) = 2" by (rule length_pad) auto
  have val: "digits_val (show_nat (?n div 100) @ pad 2 (?n mod 100)) = ?n"
    by (simp add: digits_val_append len)
  have "parse_decimal (show_cents c) = Some ((if c < 0 then - 1 else 1) * of_nat ?n / 100)"
    using len
    by (simp add: parse_decimal_def s split_sign_show_cents takeWhile_digits [OF show_nat_all_digits dot]
        all_digits_while [OF pad_all_digits] val parse_exponent_def scale10_def)
  then show ?thesis by simp
qed

lemma of_isoformat_isoformat:
  assumes "valid_date d"
  shows "of_isoformat (isoformat d) = Some d"
proof -
  have b: "nat (year d) < 10 ^ 4" "nat (month d) < 10 ^ 2" "nat (day d) < 10 ^ 2"
    using assms days_in_month_bounds(2) [of "year d" "month d"] unfolding valid_date_def by auto
  have len: "length (pad 4 (nat (year d))) = 4" "length (pad 2 (nat (month d))) = 2" "length (pad 2 (nat (day d))) = 2"
    using b by (auto intro: length_pad)
  show ?thesis
    using assms len
    by (simp add: of_isoformat_def isoformat_def nth_append parse_nat_pad make_date_def valid_date_def)
qed

end
