(* ===== verification/Projections.thy ===== *)
theory Projections
  imports PyFloat PyDecimal Consumer
begin

text \<open>
  analytics-service, write side: the projectors (\<open>app/application/projections.py\<close>) that turn the events of the
  other services into documents of the Elasticsearch read store, the stores with their Painless scripts
  (\<open>app/adapters/outbound/elasticsearch/*_store.py\<close>, \<open>guarded_upsert.py\<close>), and the consumer
  (\<open>app/workers/projection_consumer.py\<close>).

  A document is a partial function from field names to values; a field that is absent reads as null.  A script maps
  a document to a new one, or to \<open>None\<close> when it sets \<open>ctx.op = 'noop'\<close>.  One update is atomic (Elasticsearch
  retries version conflicts).  The calls to Elasticsearch can fail: \<open>up\<close> says which kinds of call succeed while
  one event is handled.
\<close>

section \<open>Documents\<close>

datatype es_value =
    EsNull
  | EsBool bool
  | EsInt int
  | EsNum rat
  | EsStr string
  | EsVec "rat list"

type_synonym doc = "string \<rightharpoonup> es_value"
type_synonym es_index = "string \<rightharpoonup> doc"
type_synonym script = "doc \<Rightarrow> doc option"

record es_db =
  es_transactions :: es_index
  es_accounts :: es_index
  es_taxonomy :: es_index
  es_goals :: es_index

definition field :: "doc \<Rightarrow> string \<Rightarrow> es_value" where
  "field d k = (case d k of None \<Rightarrow> EsNull | Some v \<Rightarrow> v)"

definition deleted_doc :: "doc \<Rightarrow> bool" where
  "deleted_doc d \<longleftrightarrow> field d ''is_deleted'' = EsBool True"

text \<open>The guard \<open>ts == null || params.event_ts >= ts\<close>; a guard field only ever holds null or an integer.\<close>

definition not_older :: "doc \<Rightarrow> string \<Rightarrow> int \<Rightarrow> bool" where
  "not_older d k event_ts = (case field d k of EsInt ts \<Rightarrow> ts \<le> event_ts | _ \<Rightarrow> True)"

definition put :: "(string \<times> es_value) list \<Rightarrow> doc \<Rightarrow> doc" where
  "put fs d = d ++ map_of fs"

definition es_opt :: "('a \<Rightarrow> es_value) \<Rightarrow> 'a option \<Rightarrow> es_value" where
  "es_opt f x = (case x of None \<Rightarrow> EsNull | Some y \<Rightarrow> f y)"

text \<open>\<open>s or None\<close> on a string.\<close>

definition es_text :: "string \<Rightarrow> es_value" where
  "es_text s = (if s = [] then EsNull else EsStr s)"

text \<open>
  \<open>es.update\<close> with \<open>scripted_upsert\<close>: the script runs on the document, or on the upsert document when there is
  none.  The flag is \<open>result != "noop"\<close>.
\<close>

definition es_update :: "script \<Rightarrow> doc \<Rightarrow> string \<Rightarrow> es_index \<Rightarrow> bool \<times> es_index" where
  "es_update scr upsert doc_id ix =
     (case scr (case ix doc_id of None \<Rightarrow> upsert | Some d \<Rightarrow> d) of
        None \<Rightarrow> (False, ix)
      | Some d \<Rightarrow> (True, ix(doc_id \<mapsto> d)))"

section \<open>The guarded full-state upsert\<close>

definition full_state_script :: "(string \<times> es_value) list \<Rightarrow> int \<Rightarrow> script" where
  "full_state_script fs event_ts d =
     (if deleted_doc d then None
      else if not_older d ''event_ts'' event_ts
      then Some ((put fs d)(''event_ts'' \<mapsto> EsInt event_ts, ''updated_at'' \<mapsto> EsInt event_ts))
      else None)"

definition guarded_full_state_upsert ::
  "string \<Rightarrow> (string \<times> es_value) list \<Rightarrow> int \<Rightarrow> es_index \<Rightarrow> bool \<times> es_index" where
  "guarded_full_state_upsert doc_id fs event_ts ix =
     es_update (full_state_script fs event_ts) [''is_deleted'' \<mapsto> EsBool False] doc_id ix"

section \<open>Events\<close>

record tx_core_event =
  te_transaction_id :: int
  te_account_id :: int
  te_user_id :: int
  te_amount :: string
  te_transaction_type :: string
  te_tx_date :: date
  te_category_id :: "int option"
  te_category :: string
  te_description :: string
  te_subcategory_id :: "int option"
  te_categorization_tier :: "string option"
  te_categorization_confidence :: "string option"

record tx_categorized_event =
  tc_transaction_id :: int
  tc_category_id :: int
  tc_category_name :: string
  tc_subcategory_id :: int
  tc_subcategory_name :: string
  tc_tier :: string
  tc_confidence :: string

text \<open>The names and balances of \<open>account.created\<close> and \<open>account.updated\<close> differ only in the field name.\<close>

record account_event =
  ae_account_id :: int
  ae_user_id :: int
  ae_name :: string
  ae_saldo :: string
  ae_budget_start_day :: int

datatype snapshot_kind = SnapCreated | SnapUpdated | SnapDeleted

record taxonomy_snapshot =
  ts_public_id :: "string option"
  ts_semantic_key :: "string option"
  ts_taxonomy_version :: "int option"
  ts_lifecycle :: "string option"
  ts_deprecated_in_version :: "int option"
  ts_replaced_by_public_id :: "string option"
  ts_description :: "string option"
  ts_name :: string
  ts_category_id :: int

record category_event = taxonomy_snapshot +
  ce_category_type :: string
  ce_display_order :: int

record subcategory_event = taxonomy_snapshot +
  se_subcategory_id :: int
  se_is_default :: bool
  se_parent_public_id :: "string option"
  se_is_fallback :: "bool option"

record goal_state_event =
  ge_goal_id :: int
  ge_user_id :: int
  ge_name :: "string option"
  ge_target_amount :: string
  ge_current_amount :: string
  ge_target_date :: "date option"
  ge_status :: "string option"

datatype payload =
    TransactionCreated tx_core_event
  | TransactionUpdated tx_core_event
  | TransactionCategorized tx_categorized_event
  | TransactionDeleted int
  | AccountCreated account_event
  | AccountUpdated account_event
  | CategorySnapshot snapshot_kind category_event
  | SubCategorySnapshot snapshot_kind subcategory_event
  | GoalCreated goal_state_event
  | GoalUpdated goal_state_event
  | GoalDeleted int

record base_event =
  be_timestamp :: instant
  be_payload :: payload

text \<open>\<open>int(event.timestamp.timestamp() * 1000)\<close>: two roundings, then truncation.\<close>

definition trunc :: "rat \<Rightarrow> int" where
  "trunc x = (if x < 0 then - \<lfloor>- x\<rfloor> else \<lfloor>x\<rfloor>)"

definition event_ts_millis :: "instant \<Rightarrow> int" where
  "event_ts_millis t = trunc (fmul (fdiv (of_int t) 1000000) 1000)"

definition amount_of :: "string \<Rightarrow> rat option" where
  "amount_of raw = map_option fl (parse_decimal raw)"

section \<open>The transaction store\<close>

definition core_fields :: "tx_core_event \<Rightarrow> rat \<Rightarrow> int \<Rightarrow> (string \<times> es_value) list" where
  "core_fields e amount event_ts =
     [(''account_id'', EsInt (te_account_id e)),
      (''user_id'', EsInt (te_user_id e)),
      (''amount'', EsNum amount),
      (''amount_abs'', EsNum \<bar>amount\<bar>),
      (''transaction_type'', EsStr (lower (te_transaction_type e))),
      (''tx_date'', EsStr (isoformat (te_tx_date e))),
      (''description'', EsStr (te_description e)),
      (''core_event_ts'', EsInt event_ts),
      (''updated_at'', EsInt event_ts)]"

definition cat_fields ::
  "es_value \<Rightarrow> es_value \<Rightarrow> es_value \<Rightarrow> es_value \<Rightarrow> es_value \<Rightarrow> es_value \<Rightarrow> (string \<times> es_value) list" where
  "cat_fields category_id category_name subcategory_id subcategory_name tier confidence =
     [(''category_id'', category_id),
      (''category_name'', category_name),
      (''subcategory_id'', subcategory_id),
      (''subcategory_name'', subcategory_name),
      (''categorization_tier'', tier),
      (''categorization_confidence'', confidence)]"

definition core_script :: "(string \<times> es_value) list \<Rightarrow> (string \<times> es_value) list \<Rightarrow> int \<Rightarrow> script" where
  "core_script core cats event_ts d =
     (if deleted_doc d then None
      else if not_older d ''core_event_ts'' event_ts
      then Some (let d' = put core d in
                 if not_older d ''categorization_event_ts'' event_ts then put cats d' else d')
      else None)"

definition categorization_script :: "(string \<times> es_value) list \<Rightarrow> int \<Rightarrow> script" where
  "categorization_script cats event_ts d =
     (if deleted_doc d then None
      else if not_older d ''categorization_event_ts'' event_ts
      then Some ((put cats d)(''categorization_event_ts'' \<mapsto> EsInt event_ts, ''updated_at'' \<mapsto> EsInt event_ts))
      else None)"

definition delete_script :: "int \<Rightarrow> script" where
  "delete_script event_ts d = Some (d(''is_deleted'' \<mapsto> EsBool True, ''updated_at'' \<mapsto> EsInt event_ts))"

definition embedding_script :: "rat list \<Rightarrow> int \<Rightarrow> script" where
  "embedding_script vector event_ts d =
     (if deleted_doc d then None
      else if not_older d ''embedding_event_ts'' event_ts
      then Some (d(''description_vector'' \<mapsto> EsVec vector, ''embedding_event_ts'' \<mapsto> EsInt event_ts))
      else None)"

definition tx_upsert_doc :: "int \<Rightarrow> doc" where
  "tx_upsert_doc transaction_id = [''transaction_id'' \<mapsto> EsInt transaction_id, ''is_deleted'' \<mapsto> EsBool False]"

definition upsert_core :: "tx_core_event \<Rightarrow> rat \<Rightarrow> string option \<Rightarrow> int \<Rightarrow> es_index \<Rightarrow> es_index" where
  "upsert_core e amount subcategory_name event_ts ix =
     snd (es_update
       (core_script (core_fields e amount event_ts)
          (cat_fields (es_opt EsInt (te_category_id e)) (es_text (te_category e)) (es_opt EsInt (te_subcategory_id e))
             (es_opt EsStr subcategory_name) (es_opt EsStr (te_categorization_tier e))
             (es_opt EsStr (te_categorization_confidence e)))
          event_ts)
       (tx_upsert_doc (te_transaction_id e)) (show_int (te_transaction_id e)) ix)"

definition apply_categorization :: "tx_categorized_event \<Rightarrow> int \<Rightarrow> es_index \<Rightarrow> es_index" where
  "apply_categorization e event_ts ix =
     snd (es_update
       (categorization_script
          (cat_fields (EsInt (tc_category_id e)) (es_text (tc_category_name e)) (EsInt (tc_subcategory_id e))
             (es_text (tc_subcategory_name e)) (es_text (tc_tier e)) (es_text (tc_confidence e)))
          event_ts)
       (tx_upsert_doc (tc_transaction_id e)) (show_int (tc_transaction_id e)) ix)"

definition tx_mark_deleted :: "int \<Rightarrow> int \<Rightarrow> es_index \<Rightarrow> es_index" where
  "tx_mark_deleted transaction_id event_ts ix =
     snd (es_update (delete_script event_ts)
       [''transaction_id'' \<mapsto> EsInt transaction_id, ''is_deleted'' \<mapsto> EsBool True, ''updated_at'' \<mapsto> EsInt event_ts]
       (show_int transaction_id) ix)"

definition get_projection :: "int \<Rightarrow> es_index \<Rightarrow> doc option" where
  "get_projection transaction_id ix = map_option (\<lambda>d. d(''description_vector'' := None)) (ix (show_int transaction_id))"

text \<open>No upsert document here: an absent document is left absent.\<close>

definition update_embedding :: "int \<Rightarrow> rat list \<Rightarrow> int \<Rightarrow> es_index \<Rightarrow> es_index" where
  "update_embedding transaction_id vector event_ts ix =
     (case ix (show_int transaction_id) of
        None \<Rightarrow> ix
      | Some d \<Rightarrow> snd (es_update (embedding_script vector event_ts) d (show_int transaction_id) ix))"

section \<open>The account, goal and taxonomy stores\<close>

definition account_fields :: "account_event \<Rightarrow> rat \<Rightarrow> (string \<times> es_value) list" where
  "account_fields e saldo =
     [(''account_id'', EsInt (ae_account_id e)), (''user_id'', EsInt (ae_user_id e)), (''name'', EsStr (ae_name e)),
      (''saldo'', EsNum saldo), (''budget_start_day'', EsInt (ae_budget_start_day e))]"

definition account_upsert :: "account_event \<Rightarrow> rat \<Rightarrow> int \<Rightarrow> es_index \<Rightarrow> es_index" where
  "account_upsert e saldo event_ts ix =
     snd (guarded_full_state_upsert (show_int (ae_account_id e)) (account_fields e saldo) event_ts ix)"

definition goal_fields :: "goal_state_event \<Rightarrow> rat \<Rightarrow> rat \<Rightarrow> (string \<times> es_value) list" where
  "goal_fields e target_amount current_amount =
     [(''goal_id'', EsInt (ge_goal_id e)), (''user_id'', EsInt (ge_user_id e)), (''name'', es_opt EsStr (ge_name e)),
      (''target_amount'', EsNum target_amount), (''current_amount'', EsNum current_amount),
      (''target_date'', es_opt (\<lambda>d. EsStr (isoformat d)) (ge_target_date e)), (''status'', es_opt EsStr (ge_status e)),
      (''is_deleted'', EsBool False)]"

definition goal_upsert :: "goal_state_event \<Rightarrow> rat \<Rightarrow> rat \<Rightarrow> int \<Rightarrow> es_index \<Rightarrow> es_index" where
  "goal_upsert e target_amount current_amount event_ts ix =
     snd (guarded_full_state_upsert (show_int (ge_goal_id e)) (goal_fields e target_amount current_amount) event_ts ix)"

definition goal_mark_deleted :: "int \<Rightarrow> int \<Rightarrow> es_index \<Rightarrow> es_index" where
  "goal_mark_deleted goal_id event_ts ix =
     snd (es_update (delete_script event_ts)
       [''goal_id'' \<mapsto> EsInt goal_id, ''is_deleted'' \<mapsto> EsBool True, ''updated_at'' \<mapsto> EsInt event_ts]
       (show_int goal_id) ix)"

text \<open>The optional fields of a snapshot: those that are not \<open>None\<close>.\<close>

definition optional_fields :: "(string \<times> es_value option) list \<Rightarrow> (string \<times> es_value) list" where
  "optional_fields fs = List.map_filter (\<lambda>(k, v). map_option (Pair k) v) fs"

definition upsert_category :: "category_event \<Rightarrow> bool \<Rightarrow> int \<Rightarrow> es_index \<Rightarrow> bool \<times> es_index" where
  "upsert_category e is_deleted event_ts ix =
     guarded_full_state_upsert (''category:'' @ show_int (ts_category_id e))
       ([(''doc_type'', EsStr ''category''), (''category_id'', EsInt (ts_category_id e)), (''name'', EsStr (ts_name e)),
         (''category_type'', EsStr (ce_category_type e)), (''display_order'', EsInt (ce_display_order e)),
         (''is_deleted'', EsBool is_deleted)] @
        optional_fields
          [(''public_id'', map_option EsStr (ts_public_id e)), (''semantic_key'', map_option EsStr (ts_semantic_key e)),
           (''taxonomy_version'', map_option EsInt (ts_taxonomy_version e)), (''lifecycle'', map_option EsStr (ts_lifecycle e)),
           (''deprecated_in_version'', map_option EsInt (ts_deprecated_in_version e)),
           (''replaced_by_public_id'', map_option EsStr (ts_replaced_by_public_id e)),
           (''description'', map_option EsStr (ts_description e))]) event_ts ix"

definition upsert_subcategory :: "subcategory_event \<Rightarrow> bool \<Rightarrow> int \<Rightarrow> es_index \<Rightarrow> bool \<times> es_index" where
  "upsert_subcategory e is_deleted event_ts ix =
     guarded_full_state_upsert (''subcategory:'' @ show_int (se_subcategory_id e))
       ([(''doc_type'', EsStr ''subcategory''), (''subcategory_id'', EsInt (se_subcategory_id e)),
         (''category_id'', EsInt (ts_category_id e)), (''name'', EsStr (ts_name e)),
         (''is_default'', EsBool (se_is_default e)), (''is_deleted'', EsBool is_deleted)] @
        optional_fields
          [(''public_id'', map_option EsStr (ts_public_id e)), (''semantic_key'', map_option EsStr (ts_semantic_key e)),
           (''parent_public_id'', map_option EsStr (se_parent_public_id e)),
           (''taxonomy_version'', map_option EsInt (ts_taxonomy_version e)), (''lifecycle'', map_option EsStr (ts_lifecycle e)),
           (''deprecated_in_version'', map_option EsInt (ts_deprecated_in_version e)),
           (''replaced_by_public_id'', map_option EsStr (ts_replaced_by_public_id e)),
           (''is_fallback'', map_option EsBool (se_is_fallback e)),
           (''description'', map_option EsStr (ts_description e))]) event_ts ix"

text \<open>The name of a subcategory that is projected and not deleted; the field holds a string.\<close>

definition get_subcategory_name :: "int \<Rightarrow> es_index \<Rightarrow> string option" where
  "get_subcategory_name subcategory_id ix =
     (case ix (''subcategory:'' @ show_int subcategory_id) of
        None \<Rightarrow> None
      | Some d \<Rightarrow>
          if deleted_doc d then None
          else (case field d ''name'' of EsStr n \<Rightarrow> Some n | _ \<Rightarrow> None))"

text \<open>\<open>update_by_query\<close> with a term query: every matching document gets the new name.\<close>

definition propagate :: "string \<Rightarrow> string \<Rightarrow> int \<Rightarrow> string \<Rightarrow> es_index \<Rightarrow> es_index" where
  "propagate target fld entity_id name ix =
     (\<lambda>k. map_option (\<lambda>d. if field d fld = EsInt entity_id then d(target \<mapsto> EsStr name) else d) (ix k))"

definition propagate_category_rename :: "int \<Rightarrow> string \<Rightarrow> es_index \<Rightarrow> es_index" where
  "propagate_category_rename category_id name ix = propagate ''category_name'' ''category_id'' category_id name ix"

definition propagate_subcategory_rename :: "int \<Rightarrow> string \<Rightarrow> es_index \<Rightarrow> es_index" where
  "propagate_subcategory_rename subcategory_id name ix =
     propagate ''subcategory_name'' ''subcategory_id'' subcategory_id name ix"

section \<open>The projectors\<close>

datatype es_call = CallGet | CallUpdate | CallRefresh | CallUpdateByQuery

type_synonym es_up = "es_call \<Rightarrow> bool"

definition tx_created_or_updated :: "es_up \<Rightarrow> tx_core_event \<Rightarrow> int \<Rightarrow> es_db \<Rightarrow> handler_result \<times> es_db" where
  "tx_created_or_updated up e event_ts db =
     (if te_subcategory_id e \<noteq> None \<and> \<not> up CallGet then (HandlerError, db)
      else
        (let subcategory_name =
               (case te_subcategory_id e of None \<Rightarrow> None | Some i \<Rightarrow> get_subcategory_name i (es_taxonomy db))
         in (case amount_of (te_amount e) of
               None \<Rightarrow> (HandlerError, db)
             | Some amount \<Rightarrow>
                 if \<not> up CallUpdate then (HandlerError, db)
                 else (Handled, db\<lparr>es_transactions :=
                        upsert_core e amount subcategory_name event_ts (es_transactions db)\<rparr>))))"

definition tx_categorized :: "es_up \<Rightarrow> tx_categorized_event \<Rightarrow> int \<Rightarrow> es_db \<Rightarrow> handler_result \<times> es_db" where
  "tx_categorized up e event_ts db =
     (if \<not> up CallUpdate then (HandlerError, db)
      else (Handled, db\<lparr>es_transactions := apply_categorization e event_ts (es_transactions db)\<rparr>))"

definition tx_deleted :: "es_up \<Rightarrow> int \<Rightarrow> int \<Rightarrow> es_db \<Rightarrow> handler_result \<times> es_db" where
  "tx_deleted up transaction_id event_ts db =
     (if \<not> up CallUpdate then (HandlerError, db)
      else (Handled, db\<lparr>es_transactions := tx_mark_deleted transaction_id event_ts (es_transactions db)\<rparr>))"

definition account_saved :: "es_up \<Rightarrow> account_event \<Rightarrow> int \<Rightarrow> es_db \<Rightarrow> handler_result \<times> es_db" where
  "account_saved up e event_ts db =
     (case amount_of (ae_saldo e) of
        None \<Rightarrow> (HandlerError, db)
      | Some saldo \<Rightarrow>
          if \<not> up CallUpdate then (HandlerError, db)
          else (Handled, db\<lparr>es_accounts := account_upsert e saldo event_ts (es_accounts db)\<rparr>))"

definition handle_category :: "es_up \<Rightarrow> snapshot_kind \<Rightarrow> category_event \<Rightarrow> int \<Rightarrow> es_db \<Rightarrow> handler_result \<times> es_db" where
  "handle_category up kind e event_ts db =
     (if \<not> up CallUpdate then (HandlerError, db)
      else
        (let (applied, taxonomy) = upsert_category e (kind = SnapDeleted) event_ts (es_taxonomy db);
             db' = db\<lparr>es_taxonomy := taxonomy\<rparr>
         in if applied \<and> kind = SnapUpdated then
              (if up CallRefresh \<and> up CallUpdateByQuery
               then (Handled, db'\<lparr>es_transactions :=
                      propagate_category_rename (ts_category_id e) (ts_name e) (es_transactions db)\<rparr>)
               else (HandlerError, db'))
            else (Handled, db')))"

definition handle_subcategory ::
  "es_up \<Rightarrow> snapshot_kind \<Rightarrow> subcategory_event \<Rightarrow> int \<Rightarrow> es_db \<Rightarrow> handler_result \<times> es_db" where
  "handle_subcategory up kind e event_ts db =
     (if \<not> up CallUpdate then (HandlerError, db)
      else
        (let (applied, taxonomy) = upsert_subcategory e (kind = SnapDeleted) event_ts (es_taxonomy db);
             db' = db\<lparr>es_taxonomy := taxonomy\<rparr>
         in if applied \<and> kind = SnapUpdated then
              (if up CallRefresh \<and> up CallUpdateByQuery
               then (Handled, db'\<lparr>es_transactions :=
                      propagate_subcategory_rename (se_subcategory_id e) (ts_name e) (es_transactions db)\<rparr>)
               else (HandlerError, db'))
            else (Handled, db')))"

definition goal_created_or_updated :: "es_up \<Rightarrow> goal_state_event \<Rightarrow> int \<Rightarrow> es_db \<Rightarrow> handler_result \<times> es_db" where
  "goal_created_or_updated up e event_ts db =
     (case (amount_of (ge_target_amount e), amount_of (ge_current_amount e)) of
        (Some target_amount, Some current_amount) \<Rightarrow>
          if \<not> up CallUpdate then (HandlerError, db)
          else (Handled, db\<lparr>es_goals := goal_upsert e target_amount current_amount event_ts (es_goals db)\<rparr>)
      | _ \<Rightarrow> (HandlerError, db))"

definition goal_deleted :: "es_up \<Rightarrow> int \<Rightarrow> int \<Rightarrow> es_db \<Rightarrow> handler_result \<times> es_db" where
  "goal_deleted up goal_id event_ts db =
     (if \<not> up CallUpdate then (HandlerError, db)
      else (Handled, db\<lparr>es_goals := goal_mark_deleted goal_id event_ts (es_goals db)\<rparr>))"

text \<open>The registry: which handler an event goes to.\<close>

definition project :: "es_up \<Rightarrow> base_event \<Rightarrow> es_db \<Rightarrow> handler_result \<times> es_db" where
  "project up e db =
     (let ts = event_ts_millis (be_timestamp e) in
      case be_payload e of
        TransactionCreated c \<Rightarrow> tx_created_or_updated up c ts db
      | TransactionUpdated c \<Rightarrow> tx_created_or_updated up c ts db
      | TransactionCategorized c \<Rightarrow> tx_categorized up c ts db
      | TransactionDeleted i \<Rightarrow> tx_deleted up i ts db
      | AccountCreated a \<Rightarrow> account_saved up a ts db
      | AccountUpdated a \<Rightarrow> account_saved up a ts db
      | CategorySnapshot k c \<Rightarrow> handle_category up k c ts db
      | SubCategorySnapshot k c \<Rightarrow> handle_subcategory up k c ts db
      | GoalCreated g \<Rightarrow> goal_created_or_updated up g ts db
      | GoalUpdated g \<Rightarrow> goal_created_or_updated up g ts db
      | GoalDeleted i \<Rightarrow> goal_deleted up i ts db)"

section \<open>The consumer\<close>

definition registered_events :: "string list" where
  "registered_events =
     [''transaction.created'', ''transaction.updated'', ''transaction.categorized'', ''transaction.deleted'',
      ''account.created'', ''account.updated'',
      ''category.created'', ''category.updated'', ''category.deleted'',
      ''subcategory.created'', ''subcategory.updated'', ''subcategory.deleted'',
      ''goal.created'', ''goal.updated'', ''goal.deleted'']"

datatype projection_outcome =
    ProjAck
  | ProjDLQ
  | ProjRepublish int
  | ProjUnsettled \<comment> \<open>an exception left the callback: neither acked nor nacked\<close>

definition PROJECTION_MAX_RETRIES :: int where "PROJECTION_MAX_RETRIES = 3"

text \<open>
  \<open>_on_message\<close>.  \<open>validate\<close> is the pydantic validation of the contract class of an event type.  A body that is not
  an object, or whose event type is a list or an object, raises outside the \<open>try\<close> blocks.
\<close>

definition projection_on_message ::
  "(string \<Rightarrow> dict \<Rightarrow> base_event option) \<Rightarrow> es_up \<Rightarrow> bool \<Rightarrow> string \<Rightarrow> delivery \<Rightarrow> es_db \<Rightarrow> projection_outcome \<times> es_db" where
  "projection_on_message validate up republish_ok routing_key m db =
     (case dl_body m of
        None \<Rightarrow> (ProjDLQ, db)
      | Some (JObj body) \<Rightarrow>
          (case dget_or body ''event_type'' (JStr routing_key) of
             JList _ \<Rightarrow> (ProjUnsettled, db)
           | JObj _ \<Rightarrow> (ProjUnsettled, db)
           | JStr event_type \<Rightarrow>
               if event_type \<notin> set registered_events then (ProjAck, db)
               else
                 (case validate event_type body of
                    None \<Rightarrow> (ProjDLQ, db)
                  | Some e \<Rightarrow>
                      (case project up e db of
                         (Handled, db') \<Rightarrow> (ProjAck, db')
                       | (_, db') \<Rightarrow>
                           if retry_count m < PROJECTION_MAX_RETRIES
                           then (if republish_ok then ProjRepublish (retry_count m + 1) else ProjUnsettled, db')
                           else (ProjDLQ, db')))
           | _ \<Rightarrow> (ProjAck, db))
      | Some _ \<Rightarrow> (ProjUnsettled, db))"

end
