(* ===== verification/ProjectionProofs.thy ===== *)
theory ProjectionProofs
  imports Projections
begin

text \<open>
  What the analytics projections promise.  The abstract specification is a last-writer-wins register with a
  tombstone; the locale \<open>lww_projection\<close> states that a stream of deliveries refines such a register and derives
  convergence from it, and the documents of accounts, goals and the core of transactions interpret it.
\<close>

section \<open>The specification: a last-writer-wins register with a tombstone\<close>

datatype 'f reg = RAbsent | RGone | RLive int 'f
datatype 'f reg_event = RPut int 'f | RRemove

fun reg_apply :: "'f reg_event \<Rightarrow> 'f reg \<Rightarrow> 'f reg" where
  "reg_apply RRemove s = RGone"
| "reg_apply (RPut t f) RGone = RGone"
| "reg_apply (RPut t f) RAbsent = RLive t f"
| "reg_apply (RPut t f) (RLive t' f') = (if t' \<le> t then RLive t f else RLive t' f')"

text \<open>What a register holds after a set of events: nothing, the tombstone, or a newest value.\<close>

definition reg_spec :: "'f reg_event set \<Rightarrow> 'f reg \<Rightarrow> bool" where
  "reg_spec E s \<longleftrightarrow>
     (case s of
        RAbsent \<Rightarrow> E = {}
      | RGone \<Rightarrow> RRemove \<in> E
      | RLive t f \<Rightarrow> RRemove \<notin> E \<and> RPut t f \<in> E \<and> (\<forall>t' f'. RPut t' f' \<in> E \<longrightarrow> t' \<le> t))"

definition reg_consistent :: "'f reg_event set \<Rightarrow> bool" where
  "reg_consistent E \<longleftrightarrow> (\<forall>t f f'. RPut t f \<in> E \<and> RPut t f' \<in> E \<longrightarrow> f = f')"

lemma reg_run_spec: "reg_spec (set es) (fold reg_apply es RAbsent)"
proof (induction es rule: rev_induct)
  case Nil
  then show ?case by (simp add: reg_spec_def)
next
  case (snoc e es)
  show ?case
  proof (cases e)
    case RRemove
    then show ?thesis by (simp add: reg_spec_def)
  next
    case (RPut t f)
    show ?thesis
    proof (cases "fold reg_apply es RAbsent")
      case RAbsent
      then show ?thesis using snoc.IH RPut by (auto simp: reg_spec_def)
    next
      case RGone
      then show ?thesis using snoc.IH RPut by (auto simp: reg_spec_def)
    next
      case (RLive t' f')
      show ?thesis
      proof (cases "t' \<le> t")
        case True
        then show ?thesis using snoc.IH RPut RLive by (auto simp: reg_spec_def intro: order_trans)
      next
        case False
        then show ?thesis using snoc.IH RPut RLive by (auto simp: reg_spec_def)
      qed
    qed
  qed
qed

lemma reg_spec_unique:
  assumes "reg_consistent E" "reg_spec E s" "reg_spec E s'"
  shows "s = s'"
proof (cases s)
  case RAbsent
  then show ?thesis using assms(2,3) by (cases s') (auto simp: reg_spec_def)
next
  case RGone
  then show ?thesis using assms(2,3) by (cases s') (auto simp: reg_spec_def)
next
  case (RLive t f)
  then obtain t' f' where s': "s' = RLive t' f'" using assms(2,3) by (cases s') (auto simp: reg_spec_def)
  have a: "RPut t f \<in> E" "\<And>t' f'. RPut t' f' \<in> E \<Longrightarrow> t' \<le> t" using assms(2) RLive by (auto simp: reg_spec_def)
  have b: "RPut t' f' \<in> E" "\<And>u g. RPut u g \<in> E \<Longrightarrow> u \<le> t'" using assms(3) s' by (auto simp: reg_spec_def)
  have "t = t'" using a(2) [OF b(1)] b(2) [OF a(1)] by simp
  then show ?thesis using assms(1) a(1) b(1) RLive s' unfolding reg_consistent_def by blast
qed

section \<open>The interface: a stream of deliveries that refines a register\<close>

locale lww_projection =
  fixes step :: "'e \<Rightarrow> 's \<Rightarrow> 's"
    and view :: "'s \<Rightarrow> 'f reg"
    and ev :: "'e \<Rightarrow> 'f reg_event option"
  assumes refines: "view (step e s) = (case ev e of None \<Rightarrow> view s | Some r \<Rightarrow> reg_apply r (view s))"
begin

lemma run: "view (fold step es s) = fold reg_apply (List.map_filter ev es) (view s)"
  by (induction es arbitrary: s) (auto simp: refines map_filter_simps split: option.splits)

lemma run_spec: "view s = RAbsent \<Longrightarrow> reg_spec {r. \<exists>e \<in> set es. ev e = Some r} (view (fold step es s))"
proof -
  assume "view s = RAbsent"
  moreover have "set (List.map_filter ev es) = {r. \<exists>e \<in> set es. ev e = Some r}"
    by (force simp: map_filter_def)
  ultimately show ?thesis using reg_run_spec [of "List.map_filter ev es"] by (simp add: run)
qed

text \<open>Order and repetition of the deliveries do not matter.\<close>

lemma converges:
  assumes "view s = RAbsent" and "view s' = RAbsent"
    and same: "{r. \<exists>e \<in> set es. ev e = Some r} = {r. \<exists>e \<in> set es'. ev e = Some r}"
    and "reg_consistent {r. \<exists>e \<in> set es. ev e = Some r}"
  shows "view (fold step es s) = view (fold step es' s')"
  using reg_spec_unique [OF assms(4) run_spec [OF assms(1)]] run_spec [OF assms(2), of es'] same by simp

text \<open>A removed entity stays removed.\<close>

lemma gone_absorbing: "view s = RGone \<Longrightarrow> view (fold step es s) = RGone"
proof -
  have "fold reg_apply rs RGone = (RGone :: 'f reg)" for rs
  proof (induction rs)
    case (Cons r rs)
    then show ?case by (cases r) simp_all
  qed simp
  then show "view s = RGone \<Longrightarrow> ?thesis" by (simp add: run)
qed

end

section \<open>Documents as registers\<close>

definition doc_view :: "string \<Rightarrow> string set \<Rightarrow> doc option \<Rightarrow> (string \<rightharpoonup> es_value) reg" where
  "doc_view guard names x =
     (case x of
        None \<Rightarrow> RAbsent
      | Some d \<Rightarrow>
          if deleted_doc d then RGone
          else (case field d guard of EsInt t \<Rightarrow> RLive t (d |` names) | _ \<Rightarrow> RAbsent))"

lemma field_put [simp]: "field (put fs d) k = (case map_of fs k of None \<Rightarrow> field d k | Some v \<Rightarrow> v)"
  by (simp add: field_def put_def map_add_def split: option.splits)

lemma field_upd [simp]: "field (d(k \<mapsto> v)) k' = (if k' = k then v else field d k')"
  by (simp add: field_def)

lemma deleted_upd [simp]: "deleted_doc (d(k \<mapsto> v)) = (if k = ''is_deleted'' then v = EsBool True else deleted_doc d)"
  by (simp add: deleted_doc_def)

lemma deleted_put [simp]:
  "deleted_doc (put fs d) = (case map_of fs ''is_deleted'' of None \<Rightarrow> deleted_doc d | Some v \<Rightarrow> v = EsBool True)"
  by (simp add: deleted_doc_def split: option.splits)

lemma put_restrict: "dom (map_of fs) \<subseteq> names \<Longrightarrow> names \<subseteq> dom (map_of fs) \<Longrightarrow> put fs d |` names = map_of fs"
  by (rule ext) (auto simp: put_def restrict_map_def map_add_def split: option.splits)

text \<open>A guarded put is the register's put, when the written doc is live.\<close>

lemma guarded_put_view:
  assumes scr: "scr = (\<lambda>d. if deleted_doc d then None else if not_older d guard t then Some (w d) else None)"
    and w: "\<And>d. \<not> deleted_doc d \<Longrightarrow> \<not> deleted_doc (w d) \<and> field (w d) guard = EsInt t \<and> w d |` names = f"
    and u: "\<not> deleted_doc u" "field u guard = EsNull"
  shows "doc_view guard names (snd (es_update scr u i ix) i) = reg_apply (RPut t f) (doc_view guard names (ix i))"
proof (cases "ix i")
  case None
  then show ?thesis using u w [of u] by (simp add: es_update_def scr doc_view_def not_older_def)
next
  case (Some d)
  show ?thesis
  proof (cases "deleted_doc d")
    case True
    then show ?thesis using Some by (simp add: es_update_def scr doc_view_def)
  next
    case False
    then show ?thesis
      using Some w [of d] by (cases "field d guard") (auto simp: es_update_def scr doc_view_def not_older_def)
  qed
qed

lemma es_update_other: "j \<noteq> i \<Longrightarrow> snd (es_update scr u i ix) j = ix j"
  by (simp add: es_update_def split: option.splits)

lemma delete_view: "doc_view guard names (snd (es_update (delete_script t) u i ix) i) = RGone"
  by (simp add: es_update_def delete_script_def doc_view_def)

text \<open>Updates that touch neither the guard nor the fields of a view leave it alone.\<close>

lemma unrelated_view:
  assumes keep: "\<And>d d'. scr d = Some d' \<Longrightarrow> deleted_doc d' = deleted_doc d \<and> field d' guard = field d guard \<and> d' |` names = d |` names"
    and u: "\<not> deleted_doc u" "field u guard = EsNull"
  shows "doc_view guard names (snd (es_update scr u i ix) j) = doc_view guard names (ix j)"
proof (cases "j = i")
  case True
  let ?d = "case ix i of None \<Rightarrow> u | Some d \<Rightarrow> d"
  have d: "doc_view guard names (Some ?d) = doc_view guard names (ix i)"
    using u by (cases "ix i") (simp_all add: doc_view_def)
  show ?thesis
  proof (cases "scr ?d")
    case None
    then show ?thesis using True by (simp add: es_update_def)
  next
    case (Some d')
    have "doc_view guard names (Some d') = doc_view guard names (Some ?d)"
      using keep [OF Some] by (simp only: doc_view_def option.case)
    then show ?thesis using True Some d by (simp add: es_update_def)
  qed
qed (simp add: es_update_other)

section \<open>The three views of the read store\<close>

definition empty_es :: es_db where
  "empty_es = \<lparr>es_transactions = Map.empty, es_accounts = Map.empty, es_taxonomy = Map.empty, es_goals = Map.empty\<rparr>"

text \<open>A delivery: an event, and which Elasticsearch calls succeed while it is handled.\<close>

type_synonym proj_delivery = "es_up \<times> base_event"

definition deliver :: "proj_delivery \<Rightarrow> es_db \<Rightarrow> es_db" where
  "deliver x db = snd (project (fst x) (snd x) db)"

text \<open>Whether the handler completes; for the events of the three views this does not depend on the store.\<close>

definition completes :: "proj_delivery \<Rightarrow> bool" where
  "completes x \<longleftrightarrow> fst (project (fst x) (snd x) empty_es) = Handled"

abbreviation millis :: "base_event \<Rightarrow> int" where
  "millis e \<equiv> event_ts_millis (be_timestamp e)"

definition account_names :: "string set" where
  "account_names = {''account_id'', ''user_id'', ''name'', ''saldo'', ''budget_start_day''}"

definition goal_names :: "string set" where
  "goal_names = {''goal_id'', ''user_id'', ''name'', ''target_amount'', ''current_amount'', ''target_date'', ''status'', ''is_deleted''}"

definition core_names :: "string set" where
  "core_names = {''account_id'', ''user_id'', ''amount'', ''amount_abs'', ''transaction_type'', ''tx_date'', ''description''}"

definition account_view :: "int \<Rightarrow> es_db \<Rightarrow> (string \<rightharpoonup> es_value) reg" where
  "account_view i db = doc_view ''event_ts'' account_names (es_accounts db (show_int i))"

definition goal_view :: "int \<Rightarrow> es_db \<Rightarrow> (string \<rightharpoonup> es_value) reg" where
  "goal_view i db = doc_view ''event_ts'' goal_names (es_goals db (show_int i))"

definition tx_core_view :: "int \<Rightarrow> es_db \<Rightarrow> (string \<rightharpoonup> es_value) reg" where
  "tx_core_view i db = doc_view ''core_event_ts'' core_names (es_transactions db (show_int i))"

text \<open>What an event means for the register of an entity.\<close>

definition account_reg :: "int \<Rightarrow> base_event \<Rightarrow> (string \<rightharpoonup> es_value) reg_event option" where
  "account_reg i e =
     (let put_of = (\<lambda>a. if ae_account_id a = i
            then map_option (\<lambda>s. RPut (millis e) (map_of (account_fields a s))) (amount_of (ae_saldo a)) else None)
      in case be_payload e of AccountCreated a \<Rightarrow> put_of a | AccountUpdated a \<Rightarrow> put_of a | _ \<Rightarrow> None)"

definition goal_put :: "int \<Rightarrow> int \<Rightarrow> goal_state_event \<Rightarrow> (string \<rightharpoonup> es_value) reg_event option" where
  "goal_put i t g =
     (case (ge_goal_id g = i, amount_of (ge_target_amount g), amount_of (ge_current_amount g)) of
        (True, Some a, Some b) \<Rightarrow> Some (RPut t (map_of (goal_fields g a b)))
      | _ \<Rightarrow> None)"

definition goal_reg :: "int \<Rightarrow> base_event \<Rightarrow> (string \<rightharpoonup> es_value) reg_event option" where
  "goal_reg i e =
     (case be_payload e of
        GoalCreated g \<Rightarrow> goal_put i (millis e) g
      | GoalUpdated g \<Rightarrow> goal_put i (millis e) g
      | GoalDeleted j \<Rightarrow> if j = i then Some RRemove else None
      | _ \<Rightarrow> None)"

definition tx_put :: "int \<Rightarrow> int \<Rightarrow> tx_core_event \<Rightarrow> (string \<rightharpoonup> es_value) reg_event option" where
  "tx_put i t c =
     (if te_transaction_id c = i
      then map_option (\<lambda>a. RPut t (map_of (core_fields c a t) |` core_names)) (amount_of (te_amount c)) else None)"

definition tx_reg :: "int \<Rightarrow> base_event \<Rightarrow> (string \<rightharpoonup> es_value) reg_event option" where
  "tx_reg i e =
     (case be_payload e of
        TransactionCreated c \<Rightarrow> tx_put i (millis e) c
      | TransactionUpdated c \<Rightarrow> tx_put i (millis e) c
      | TransactionDeleted j \<Rightarrow> if j = i then Some RRemove else None
      | _ \<Rightarrow> None)"

definition effect :: "(base_event \<Rightarrow> 'r option) \<Rightarrow> proj_delivery \<Rightarrow> 'r option" where
  "effect reg x = (if completes x then reg (snd x) else None)"

text \<open>Frames: which index a handler can change.\<close>

lemmas handler_defs = tx_created_or_updated_def tx_categorized_def tx_deleted_def account_saved_def
  handle_category_def handle_subcategory_def goal_created_or_updated_def goal_deleted_def

lemma handler_frames [simp]:
  "es_accounts (snd (tx_created_or_updated up c t db)) = es_accounts db"
  "es_goals (snd (tx_created_or_updated up c t db)) = es_goals db"
  "es_accounts (snd (tx_categorized up k t db)) = es_accounts db"
  "es_goals (snd (tx_categorized up k t db)) = es_goals db"
  "es_accounts (snd (tx_deleted up i t db)) = es_accounts db"
  "es_goals (snd (tx_deleted up i t db)) = es_goals db"
  "es_goals (snd (account_saved up a t db)) = es_goals db"
  "es_transactions (snd (account_saved up a t db)) = es_transactions db"
  "es_accounts (snd (handle_category up sk ce t db)) = es_accounts db"
  "es_goals (snd (handle_category up sk ce t db)) = es_goals db"
  "es_accounts (snd (handle_subcategory up sk se t db)) = es_accounts db"
  "es_goals (snd (handle_subcategory up sk se t db)) = es_goals db"
  "es_accounts (snd (goal_created_or_updated up g t db)) = es_accounts db"
  "es_transactions (snd (goal_created_or_updated up g t db)) = es_transactions db"
  "es_accounts (snd (goal_deleted up i t db)) = es_accounts db"
  "es_transactions (snd (goal_deleted up i t db)) = es_transactions db"
  by (simp_all add: handler_defs Let_def split: option.splits prod.splits)

text \<open>The full-state upsert refines the register's put.\<close>

lemma full_state_view:
  assumes names: "dom (map_of fs) = names" "''event_ts'' \<notin> names" "''updated_at'' \<notin> names"
    and live: "map_of fs ''is_deleted'' = None \<or> map_of fs ''is_deleted'' = Some (EsBool False)"
  shows "doc_view ''event_ts'' names (snd (guarded_full_state_upsert i fs t ix) j) =
    (if j = i then reg_apply (RPut t (map_of fs)) (doc_view ''event_ts'' names (ix j)) else doc_view ''event_ts'' names (ix j))"
proof (cases "j = i")
  case True
  have "doc_view ''event_ts'' names (snd (es_update (full_state_script fs t) [''is_deleted'' \<mapsto> EsBool False] i ix) i) =
    reg_apply (RPut t (map_of fs)) (doc_view ''event_ts'' names (ix i))"
  proof (rule guarded_put_view)
    let ?w = "\<lambda>d. (put fs d)(''event_ts'' \<mapsto> EsInt t, ''updated_at'' \<mapsto> EsInt t)"
    show "full_state_script fs t =
      (\<lambda>d. if deleted_doc d then None else if not_older d ''event_ts'' t then Some (?w d) else None)"
      by (rule ext) (simp add: full_state_script_def)
    fix d :: doc
    assume d: "\<not> deleted_doc d"
    have "put fs d |` names = map_of fs" using names(1) by (intro put_restrict) simp_all
    then show "\<not> deleted_doc (?w d) \<and> field (?w d) ''event_ts'' = EsInt t \<and> ?w d |` names = map_of fs"
      using d live names(2,3) by auto
  qed (simp_all add: deleted_doc_def field_def)
  then show ?thesis using True by (simp add: guarded_full_state_upsert_def)
qed (simp add: guarded_full_state_upsert_def es_update_other)

lemma account_upsert_view:
  "doc_view ''event_ts'' account_names (account_upsert a s t ix j) =
     (if j = show_int (ae_account_id a)
      then reg_apply (RPut t (map_of (account_fields a s))) (doc_view ''event_ts'' account_names (ix j))
      else doc_view ''event_ts'' account_names (ix j))"
  unfolding account_upsert_def
  by (rule full_state_view) (auto simp: account_names_def account_fields_def)

lemma goal_upsert_view:
  "doc_view ''event_ts'' goal_names (goal_upsert g a b t ix j) =
     (if j = show_int (ge_goal_id g)
      then reg_apply (RPut t (map_of (goal_fields g a b))) (doc_view ''event_ts'' goal_names (ix j))
      else doc_view ''event_ts'' goal_names (ix j))"
  unfolding goal_upsert_def
  by (rule full_state_view) (auto simp: goal_names_def goal_fields_def)

lemma goal_mark_deleted_view:
  "doc_view ''event_ts'' goal_names (goal_mark_deleted i t ix j) =
     (if j = show_int i then RGone else doc_view ''event_ts'' goal_names (ix j))"
  by (simp add: goal_mark_deleted_def delete_view es_update_other)

text \<open>The core script refines the register's put; categorizations and renames do not touch the core.\<close>

lemma restrict_put_disjoint: "dom (map_of fs) \<inter> names = {} \<Longrightarrow> put fs d |` names = d |` names"
  by (rule ext) (auto simp: put_def restrict_map_def map_add_def split: option.splits)

lemma dom_cat_fields: "dom (map_of (cat_fields a b c d e f)) =
    {''category_id'', ''category_name'', ''subcategory_id'', ''subcategory_name'', ''categorization_tier'', ''categorization_confidence''}"
  by (auto simp: cat_fields_def)

lemma put_cats_core:
  "put (cat_fields a b c d e f) x |` core_names = x |` core_names"
  "deleted_doc (put (cat_fields a b c d e f) x) = deleted_doc x"
  "field (put (cat_fields a b c d e f) x) ''core_event_ts'' = field x ''core_event_ts''"
  by (rule restrict_put_disjoint, simp add: dom_cat_fields core_names_def) (simp_all add: cat_fields_def)

lemma put_core:
  "put (core_fields c a t) x |` core_names = map_of (core_fields c a t) |` core_names"
  "deleted_doc (put (core_fields c a t) x) = deleted_doc x"
  "field (put (core_fields c a t) x) ''core_event_ts'' = EsInt t"
proof -
  have "core_names \<subseteq> dom (map_of (core_fields c a t))" by (auto simp: core_names_def core_fields_def)
  then show "put (core_fields c a t) x |` core_names = map_of (core_fields c a t) |` core_names"
    by (intro ext) (auto simp: put_def restrict_map_def map_add_def split: option.splits)
qed (simp_all add: core_fields_def)

lemma tx_upsert_doc_facts [simp]:
  "\<not> deleted_doc (tx_upsert_doc i)"
  "field (tx_upsert_doc i) ''core_event_ts'' = EsNull"
  "field (tx_upsert_doc i) ''categorization_event_ts'' = EsNull"
  by (simp_all add: tx_upsert_doc_def deleted_doc_def field_def)

lemma upsert_core_view:
  "doc_view ''core_event_ts'' core_names (upsert_core c a n t ix j) =
     (if j = show_int (te_transaction_id c)
      then reg_apply (RPut t (map_of (core_fields c a t) |` core_names)) (doc_view ''core_event_ts'' core_names (ix j))
      else doc_view ''core_event_ts'' core_names (ix j))"
proof (cases "j = show_int (te_transaction_id c)")
  case True
  show ?thesis
    unfolding upsert_core_def if_P [OF True] unfolding True
    by (rule guarded_put_view [OF ext]) 
      (auto simp: core_script_def put_cats_core put_core Let_def simp del: field_put deleted_put split: if_splits)
qed (simp add: upsert_core_def es_update_other)

lemma apply_categorization_view:
  "doc_view ''core_event_ts'' core_names (apply_categorization c t ix j) = doc_view ''core_event_ts'' core_names (ix j)"
  unfolding apply_categorization_def
proof (rule unrelated_view)
  fix d d'
  assume "categorization_script (cat_fields (EsInt (tc_category_id c)) (es_text (tc_category_name c))
    (EsInt (tc_subcategory_id c)) (es_text (tc_subcategory_name c)) (es_text (tc_tier c)) (es_text (tc_confidence c))) t d = Some d'"
  then show "deleted_doc d' = deleted_doc d \<and> field d' ''core_event_ts'' = field d ''core_event_ts'' \<and> d' |` core_names = d |` core_names"
    using put_cats_core by (auto simp: categorization_script_def core_names_def split: if_splits)
qed simp_all

lemma tx_mark_deleted_view:
  "doc_view ''core_event_ts'' core_names (tx_mark_deleted i t ix j) =
     (if j = show_int i then RGone else doc_view ''core_event_ts'' core_names (ix j))"
  by (simp add: tx_mark_deleted_def delete_view es_update_other)

lemma rename_view:
  "target \<in> {''category_name'', ''subcategory_name''} \<Longrightarrow>
   doc_view ''core_event_ts'' core_names (propagate target fld i n ix j) = doc_view ''core_event_ts'' core_names (ix j)"
proof (cases "ix j")
  case (Some d)
  assume "target \<in> {''category_name'', ''subcategory_name''}"
  then have "doc_view ''core_event_ts'' core_names (Some (d(target \<mapsto> v))) = doc_view ''core_event_ts'' core_names (Some d)" for v
    by (elim insertE emptyE) (simp_all add: doc_view_def core_names_def split: es_value.split)
  then show ?thesis using Some by (simp add: propagate_def)
qed (simp add: propagate_def)

section \<open>The projections refine registers\<close>

interpretation account_lww: lww_projection deliver "account_view i" "effect (account_reg i)" for i
proof
  fix x :: proj_delivery and db
  obtain up e where x: "x = (up, e)" by (cases x)
  have saved: "account_view i (snd (account_saved up a t db)) =
      (case (if fst (account_saved up a t empty_es) = Handled then
               if ae_account_id a = i then map_option (\<lambda>s. RPut t (map_of (account_fields a s))) (amount_of (ae_saldo a)) else None
             else None) of
         None \<Rightarrow> account_view i db | Some r \<Rightarrow> reg_apply r (account_view i db))" for a t
    by (cases "amount_of (ae_saldo a)") (auto simp: account_saved_def account_view_def account_upsert_view)
  show "account_view i (deliver x db) =
      (case effect (account_reg i) x of None \<Rightarrow> account_view i db | Some r \<Rightarrow> reg_apply r (account_view i db))"
  proof (cases "be_payload e")
    case (AccountCreated a)
    then show ?thesis using saved [of a "millis e"]
      by (simp add: x deliver_def effect_def completes_def project_def account_reg_def Let_def)
  next
    case (AccountUpdated a)
    then show ?thesis using saved [of a "millis e"]
      by (simp add: x deliver_def effect_def completes_def project_def account_reg_def Let_def)
  qed (simp_all add: x deliver_def effect_def project_def account_reg_def account_view_def Let_def)
qed

interpretation goal_lww: lww_projection deliver "goal_view i" "effect (goal_reg i)" for i
proof
  fix x :: proj_delivery and db
  obtain up e where x: "x = (up, e)" by (cases x)
  have saved: "goal_view i (snd (goal_created_or_updated up g t db)) =
      (case (if fst (goal_created_or_updated up g t empty_es) = Handled then goal_put i t g else None) of
         None \<Rightarrow> goal_view i db | Some r \<Rightarrow> reg_apply r (goal_view i db))" for g t
    by (cases "amount_of (ge_target_amount g)"; cases "amount_of (ge_current_amount g)"; cases "ge_goal_id g = i")
      (auto simp: goal_created_or_updated_def goal_view_def goal_upsert_view goal_put_def)
  show "goal_view i (deliver x db) =
      (case effect (goal_reg i) x of None \<Rightarrow> goal_view i db | Some r \<Rightarrow> reg_apply r (goal_view i db))"
  proof (cases "be_payload e")
    case (GoalCreated g)
    then show ?thesis using saved [of g "millis e"]
      by (simp add: x deliver_def effect_def completes_def project_def goal_reg_def Let_def)
  next
    case (GoalUpdated g)
    then show ?thesis using saved [of g "millis e"]
      by (simp add: x deliver_def effect_def completes_def project_def goal_reg_def Let_def)
  next
    case (GoalDeleted j)
    then show ?thesis
      by (simp add: x deliver_def effect_def completes_def project_def goal_reg_def Let_def goal_deleted_def
          goal_view_def goal_mark_deleted_view)
  qed (simp_all add: x deliver_def effect_def project_def goal_reg_def goal_view_def Let_def)
qed

lemma rename_handlers_view:
  "tx_core_view i (snd (handle_category up k c t db)) = tx_core_view i db"
  "tx_core_view i (snd (handle_subcategory up k s t db)) = tx_core_view i db"
  by (simp_all add: handle_category_def handle_subcategory_def tx_core_view_def propagate_category_rename_def
      propagate_subcategory_rename_def rename_view Let_def split: prod.splits)

interpretation tx_lww: lww_projection deliver "tx_core_view i" "effect (tx_reg i)" for i
proof
  fix x :: proj_delivery and db
  obtain up e where x: "x = (up, e)" by (cases x)
  have saved: "tx_core_view i (snd (tx_created_or_updated up c t db)) =
      (case (if fst (tx_created_or_updated up c t empty_es) = Handled then tx_put i t c else None) of
         None \<Rightarrow> tx_core_view i db | Some r \<Rightarrow> reg_apply r (tx_core_view i db))" for c t
    by (cases "amount_of (te_amount c)") (auto simp: tx_created_or_updated_def tx_core_view_def upsert_core_view tx_put_def)
  show "tx_core_view i (deliver x db) =
      (case effect (tx_reg i) x of None \<Rightarrow> tx_core_view i db | Some r \<Rightarrow> reg_apply r (tx_core_view i db))"
  proof (cases "be_payload e")
    case (TransactionCreated c)
    then show ?thesis using saved [of c "millis e"]
      by (simp add: x deliver_def effect_def completes_def project_def tx_reg_def Let_def)
  next
    case (TransactionUpdated c)
    then show ?thesis using saved [of c "millis e"]
      by (simp add: x deliver_def effect_def completes_def project_def tx_reg_def Let_def)
  next
    case (TransactionCategorized c)
    then show ?thesis
      by (simp add: x deliver_def effect_def project_def tx_reg_def Let_def tx_categorized_def
          tx_core_view_def apply_categorization_view)
  next
    case (TransactionDeleted j)
    then show ?thesis
      by (simp add: x deliver_def effect_def completes_def project_def tx_reg_def Let_def tx_deleted_def
          tx_core_view_def tx_mark_deleted_view)
  qed (simp_all add: x deliver_def effect_def project_def tx_reg_def Let_def rename_handlers_view, simp_all add: tx_core_view_def)
qed

section \<open>Properties\<close>

text \<open>What an event writes: two events about the same subject at the same millisecond compete.\<close>

datatype subject =
    SubjTransaction int
  | SubjCategorization int
  | SubjAccount int
  | SubjCategory int
  | SubjSubCategory int
  | SubjGoal int
  | SubjDeletion int

fun subject_of :: "payload \<Rightarrow> subject" where
  "subject_of (TransactionCreated c) = SubjTransaction (te_transaction_id c)"
| "subject_of (TransactionUpdated c) = SubjTransaction (te_transaction_id c)"
| "subject_of (TransactionCategorized c) = SubjCategorization (tc_transaction_id c)"
| "subject_of (TransactionDeleted i) = SubjDeletion i"
| "subject_of (AccountCreated a) = SubjAccount (ae_account_id a)"
| "subject_of (AccountUpdated a) = SubjAccount (ae_account_id a)"
| "subject_of (CategorySnapshot k c) = SubjCategory (ts_category_id c)"
| "subject_of (SubCategorySnapshot k s) = SubjSubCategory (se_subcategory_id s)"
| "subject_of (GoalCreated g) = SubjGoal (ge_goal_id g)"
| "subject_of (GoalUpdated g) = SubjGoal (ge_goal_id g)"
| "subject_of (GoalDeleted i) = SubjDeletion i"

text \<open>No two different state events about one subject carry the same millisecond; deletions may.\<close>

definition no_ties :: "base_event set \<Rightarrow> bool" where
  "no_ties E \<longleftrightarrow>
     (\<forall>e \<in> E. \<forall>e' \<in> E. subject_of (be_payload e) = subject_of (be_payload e') \<and> millis e = millis e' \<and>
        \<not> (\<exists>i. subject_of (be_payload e) = SubjDeletion i) \<longrightarrow> e = e')"

definition completed_events :: "proj_delivery list \<Rightarrow> base_event set" where
  "completed_events ds = {e. \<exists>up. (up, e) \<in> set ds \<and> completes (up, e)}"

lemma completed_events_simps [simp]:
  "completed_events [] = {}"
  "completed_events (x # ds) = (if completes x then insert (snd x) (completed_events ds) else completed_events ds)"
  by (simp add: completed_events_def) (cases x, auto simp: completed_events_def)

lemma effects_of_completed:
  "{r. \<exists>x \<in> set ds. effect reg x = Some r} = {r. \<exists>e \<in> completed_events ds. reg e = Some r}"
  by (force simp: effect_def completed_events_def split: if_splits)

lemma reg_put_subject:
  "account_reg i e = Some (RPut t f) \<Longrightarrow> subject_of (be_payload e) = SubjAccount i \<and> millis e = t"
  "goal_reg i e = Some (RPut t f) \<Longrightarrow> subject_of (be_payload e) = SubjGoal i \<and> millis e = t"
  "tx_reg i e = Some (RPut t f) \<Longrightarrow> subject_of (be_payload e) = SubjTransaction i \<and> millis e = t"
  by (auto simp: account_reg_def goal_reg_def goal_put_def tx_reg_def tx_put_def Let_def
      split: payload.splits if_splits option.splits bool.splits)

lemma no_ties_consistent:
  assumes "no_ties E" and subj: "\<And>e t f. reg e = Some (RPut t f) \<Longrightarrow> subject_of (be_payload e) = s \<and> millis e = t"
    and "\<not> (\<exists>i. s = SubjDeletion i)"
  shows "reg_consistent {r. \<exists>e \<in> E. reg e = Some r}"
proof (unfold reg_consistent_def, intro allI impI)
  fix t f f'
  assume "RPut t f \<in> {r. \<exists>e \<in> E. reg e = Some r} \<and> RPut t f' \<in> {r. \<exists>e \<in> E. reg e = Some r}"
  then obtain e e' where e: "e \<in> E" "reg e = Some (RPut t f)" "e' \<in> E" "reg e' = Some (RPut t f')" by blast
  have "e = e'" using assms(1,3) subj [OF e(2)] subj [OF e(4)] e(1,3) unfolding no_ties_def by metis
  then show "f = f'" using e(2,4) by simp
qed


definition demo_goal_event :: "instant \<Rightarrow> int \<Rightarrow> base_event" where
  "demo_goal_event t c =
     \<lparr>be_timestamp = t, be_payload = GoalUpdated
        \<lparr>ge_goal_id = 7, ge_user_id = 3, ge_name = None, ge_target_amount = show_cents 10000, ge_current_amount = show_cents c,
         ge_target_date = None, ge_status = Some ''active''\<rparr>\<rparr>"

lemma demo_goal_completes: "completes (up, demo_goal_event t c) = up CallUpdate"
  by (simp add: completes_def demo_goal_event_def project_def goal_created_or_updated_def amount_of_def
      parse_decimal_show_cents)

lemma demo_millis: "event_ts_millis 1000000 = 1000" "event_ts_millis 2000000 = 2000"
  by code_simp+


text \<open>
  C10. Every delivery refines one step of a last-writer-wins register with a tombstone, for every goal, account and
  transaction core: a completed state event puts its value if it is not older than the present one, a completed
  deletion removes the entity for good, and a failed delivery changes nothing.
\<close>

theorem projections_refine_registers:
  "account_view i (deliver x db) =
     (case effect (account_reg i) x of None \<Rightarrow> account_view i db | Some r \<Rightarrow> reg_apply r (account_view i db)) \<and>
   goal_view i (deliver x db) =
     (case effect (goal_reg i) x of None \<Rightarrow> goal_view i db | Some r \<Rightarrow> reg_apply r (goal_view i db)) \<and>
   tx_core_view i (deliver x db) =
     (case effect (tx_reg i) x of None \<Rightarrow> tx_core_view i db | Some r \<Rightarrow> reg_apply r (tx_core_view i db))"
  by (intro conjI account_lww.refines goal_lww.refines tx_lww.refines)

text \<open>Event order survives the conversion to milliseconds.\<close>

lemma trunc_mono: "x \<le> y \<Longrightarrow> trunc x \<le> trunc y"
  using floor_mono [of x y] floor_mono [of "- y" "- x"] by (auto simp: trunc_def zero_le_floor [of "- x"] intro: order_trans [of _ 0])

text \<open>
  The timestamp guard never reverses two events: \<open>event_ts_millis\<close>, with its two float roundings and the
  truncation, is monotone in the exact time of the event.
\<close>

theorem event_ts_millis_monotone:
  assumes "s \<le> t"
  shows "event_ts_millis s \<le> event_ts_millis t"
proof -
  have "(of_int s :: rat) / 1000000 \<le> of_int t / 1000000" using assms by (simp add: divide_right_mono)
  then have "fdiv (of_int s) 1000000 \<le> fdiv (of_int t) 1000000" by (rule fl_mono)
  then show ?thesis unfolding event_ts_millis_def by (intro trunc_mono fl_mono) simp
qed

theorem event_ts_millis_monotone_witness:
  "event_ts_millis 1000000 \<le> event_ts_millis 2000000 \<and> event_ts_millis 1000000 = 1000 \<and> event_ts_millis 1001000 = 1000"
proof -
  have "event_ts_millis 1001000 = 1000" by code_simp
  then show ?thesis using event_ts_millis_monotone [of 1000000 2000000] demo_millis by simp
qed

section \<open>Categorization and core of one transaction\<close>

text \<open>What a categorization decides, apart from the names, which renames keep up to date.\<close>

definition cat_decision :: "doc \<Rightarrow> es_value list" where
  "cat_decision d = map (field d) [''category_id'', ''subcategory_id'', ''categorization_tier'', ''categorization_confidence'']"

definition holds_decision :: "int \<Rightarrow> int \<Rightarrow> es_value list \<Rightarrow> es_db \<Rightarrow> bool" where
  "holds_decision i T c db \<longleftrightarrow>
     (\<exists>d. es_transactions db (show_int i) = Some d \<and> field d ''categorization_event_ts'' = EsInt T \<and> cat_decision d = c)"

lemma holds_other:
  "es_transactions db' (show_int i) = es_transactions db (show_int i) \<Longrightarrow> holds_decision i T c db \<Longrightarrow> holds_decision i T c db'"
  by (simp add: holds_decision_def)

lemma holds_script:
  assumes "holds_decision i T c db"
    and "\<And>d d'. field d ''categorization_event_ts'' = EsInt T \<Longrightarrow> scr d = Some d' \<Longrightarrow>
      field d' ''categorization_event_ts'' = EsInt T \<and> cat_decision d' = cat_decision d"
  shows "holds_decision i T c (db\<lparr>es_transactions := snd (es_update scr u j (es_transactions db))\<rparr>)"
proof -
  obtain d where d: "es_transactions db (show_int i) = Some d" "field d ''categorization_event_ts'' = EsInt T" "cat_decision d = c"
    using assms(1) by (auto simp: holds_decision_def)
  show ?thesis
  proof (cases "j = show_int i")
    case True
    then show ?thesis
      using d assms(2) [OF d(2)] by (cases "scr d") (simp_all add: holds_decision_def es_update_def)
  next
    case False
    then show ?thesis using d by (simp add: holds_decision_def es_update_other)
  qed
qed

lemma holds_rename:
  assumes "holds_decision i T c db" and t: "target \<in> {''category_name'', ''subcategory_name''}"
  shows "holds_decision i T c (db\<lparr>es_taxonomy := x, es_transactions := propagate target fld j n (es_transactions db)\<rparr>)"
proof -
  obtain d where d: "es_transactions db (show_int i) = Some d" "field d ''categorization_event_ts'' = EsInt T" "cat_decision d = c"
    using assms(1) by (auto simp: holds_decision_def)
  have "field (d(target \<mapsto> v)) ''categorization_event_ts'' = EsInt T \<and> cat_decision (d(target \<mapsto> v)) = c" for v
    using t d(2,3) by (elim insertE emptyE) (simp_all add: cat_decision_def)
  then show ?thesis using d by (simp add: holds_decision_def propagate_def)
qed

lemma core_script_keeps:
  "field d ''categorization_event_ts'' = EsInt T \<Longrightarrow> t < T \<Longrightarrow> core_script (core_fields e a t) cs t d = Some d' \<Longrightarrow>
   field d' ''categorization_event_ts'' = EsInt T \<and> cat_decision d' = cat_decision d"
  by (auto simp: core_script_def not_older_def core_fields_def cat_decision_def split: if_splits)

lemma cat_script_keeps:
  "field d ''categorization_event_ts'' = EsInt T \<Longrightarrow> t < T \<Longrightarrow> categorization_script cs t d = Some d' \<Longrightarrow> False"
  by (auto simp: categorization_script_def not_older_def split: if_splits)

lemma delete_script_keeps:
  "delete_script t d = Some d' \<Longrightarrow> field d ''categorization_event_ts'' = EsInt T \<Longrightarrow>
   field d' ''categorization_event_ts'' = EsInt T \<and> cat_decision d' = cat_decision d"
  by (auto simp: delete_script_def cat_decision_def)

lemma other_doc_holds:
  "j \<noteq> i \<Longrightarrow> holds_decision i T c db \<Longrightarrow>
   holds_decision i T c (db\<lparr>es_transactions := snd (es_update scr u (show_int j) (es_transactions db))\<rparr>)"
  by (rule holds_other) (simp add: es_update_other)

lemma deliver_holds:
  assumes h: "holds_decision i T c db"
    and old: "subject_of (be_payload e) \<in> {SubjTransaction i, SubjCategorization i} \<Longrightarrow> millis e < T"
  shows "holds_decision i T c (deliver (up, e) db)"
proof -
  have core: "holds_decision i T c (snd (tx_created_or_updated up x (millis e) db))"
    if s: "subject_of (be_payload e) = SubjTransaction (te_transaction_id x)" for x
  proof -
    have "holds_decision i T c (db\<lparr>es_transactions := upsert_core x a n (millis e) (es_transactions db)\<rparr>)" for a n
    proof (cases "te_transaction_id x = i")
      case True
      then have "millis e < T" using old s by simp
      then show ?thesis unfolding upsert_core_def
        by (intro holds_script [OF h]) (rule core_script_keeps)
    qed (unfold upsert_core_def, rule other_doc_holds [OF _ h])
    then show ?thesis using h by (simp add: tx_created_or_updated_def Let_def split: option.splits)
  qed
  show ?thesis
  proof (cases "be_payload e")
    case (TransactionCategorized x)
    have "holds_decision i T c (db\<lparr>es_transactions := apply_categorization x (millis e) (es_transactions db)\<rparr>)"
    proof (cases "tc_transaction_id x = i")
      case True
      then have "millis e < T" using old TransactionCategorized by simp
      then show ?thesis unfolding apply_categorization_def
        by (intro holds_script [OF h]) (blast dest: cat_script_keeps)
    qed (unfold apply_categorization_def, rule other_doc_holds [OF _ h])
    then show ?thesis using h TransactionCategorized by (simp add: deliver_def project_def tx_categorized_def)
  next
    case (TransactionDeleted j)
    have "holds_decision i T c (db\<lparr>es_transactions := tx_mark_deleted j (millis e) (es_transactions db)\<rparr>)"
      unfolding tx_mark_deleted_def by (rule holds_script [OF h]) (rule delete_script_keeps)
    then show ?thesis using h TransactionDeleted by (simp add: deliver_def project_def tx_deleted_def)
  next
    case (CategorySnapshot k x)
    then show ?thesis
      using h holds_rename [OF h] holds_other [OF _ h]
      by (simp add: deliver_def project_def handle_category_def propagate_category_rename_def Let_def split: prod.splits)
  next
    case (SubCategorySnapshot k x)
    then show ?thesis
      using h holds_rename [OF h] holds_other [OF _ h]
      by (simp add: deliver_def project_def handle_subcategory_def propagate_subcategory_rename_def Let_def split: prod.splits)
  qed (use core h holds_other [OF _ h] in \<open>simp_all add: deliver_def project_def Let_def\<close>)
qed

text \<open>
  Once a categorization is projected, no sequence of events rolls its decision back that is older, be it
  created or updated events, earlier categorizations, renames or deletions of any entity.
\<close>

theorem categorization_not_rolled_back:
  assumes "holds_decision i T c db"
    and "\<forall>x \<in> set ds. subject_of (be_payload (snd x)) \<in> {SubjTransaction i, SubjCategorization i} \<longrightarrow> millis (snd x) < T"
  shows "holds_decision i T c (fold deliver ds db)"
  using assms
proof (induction ds arbitrary: db)
  case (Cons x ds)
  have "holds_decision i T c (deliver x db)"
    using deliver_holds [OF Cons.prems(1), of "snd x" "fst x"] Cons.prems(2) by simp
  then show ?case using Cons.IH Cons.prems(2) by simp
qed simp

definition demo_categorized :: base_event where
  "demo_categorized = \<lparr>be_timestamp = 2000000, be_payload = TransactionCategorized
     \<lparr>tc_transaction_id = 5, tc_category_id = 20, tc_category_name = ''Food'', tc_subcategory_id = 21, tc_subcategory_name = [],
      tc_tier = ''rule'', tc_confidence = ''high''\<rparr>\<rparr>"

definition demo_created :: "instant \<Rightarrow> base_event" where
  "demo_created t = \<lparr>be_timestamp = t, be_payload = TransactionCreated
     \<lparr>te_transaction_id = 5, te_account_id = 1, te_user_id = 3, te_amount = show_cents (- 4250), te_transaction_type = ''EXPENSE'',
      te_tx_date = Date 2024 5 17, te_category_id = Some 10, te_category = ''Other'', te_description = ''NETTO'',
      te_subcategory_id = None, te_categorization_tier = None, te_categorization_confidence = None\<rparr>\<rparr>"

lemma demo_categorized_first: "holds_decision 5 2000 [EsInt 20, EsInt 21, EsStr ''rule'', EsStr ''high''] (deliver (\<lambda>_. True, demo_categorized) empty_es)"
  by (simp add: holds_decision_def deliver_def demo_categorized_def project_def tx_categorized_def apply_categorization_def
      es_update_def categorization_script_def not_older_def demo_millis empty_es_def cat_decision_def cat_fields_def es_text_def)

theorem categorization_not_rolled_back_witness:
  "holds_decision 5 2000 [EsInt 20, EsInt 21, EsStr ''rule'', EsStr ''high'']
     (fold deliver [(\<lambda>_. True, demo_created 1000000)] (deliver (\<lambda>_. True, demo_categorized) empty_es))"
  by (rule categorization_not_rolled_back [OF demo_categorized_first]) (simp add: demo_created_def demo_millis)

text \<open>
  The converse guard is missing: of a created or updated event and an older categorization of the same new
  transaction, the one that is delivered last decides the category, although the completed events are the same.
  The core event is newer, but it leaves no trace in the guard of the categorization fields.
\<close>

theorem stale_categorization_overwrites:
  assumes "es_transactions db (show_int i) = None"
    and "be_payload ec = TransactionCreated c" "te_transaction_id c = i" "te_category_id c = Some a"
    and "be_payload ek = TransactionCategorized k" "tc_transaction_id k = i"
    and "millis ek < millis ec"
    and "completes (up, ec)" "completes (up, ek)"
  shows "(\<exists>d. es_transactions (fold deliver [(up, ek), (up, ec)] db) (show_int i) = Some d \<and> field d ''category_id'' = EsInt a) \<and>
    (\<exists>d. es_transactions (fold deliver [(up, ec), (up, ek)] db) (show_int i) = Some d \<and>
       field d ''category_id'' = EsInt (tc_category_id k))"
proof -
  have up: "up CallUpdate" using assms(5,9) by (auto simp: completes_def project_def tx_categorized_def split: if_splits)
  obtain am where am: "amount_of (te_amount c) = Some am" and get: "te_subcategory_id c = None \<or> up CallGet"
    using assms(2,8) by (auto simp: completes_def project_def tx_created_or_updated_def Let_def split: if_splits option.splits)
  have dk: "deliver (up, ek) s = s\<lparr>es_transactions := apply_categorization k (millis ek) (es_transactions s)\<rparr>" for s
    using up assms(5) by (simp add: deliver_def project_def tx_categorized_def)
  have dc: "\<exists>n. deliver (up, ec) s = s\<lparr>es_transactions := upsert_core c am n (millis ec) (es_transactions s)\<rparr>" for s
    using up am get assms(2) by (auto simp: deliver_def project_def tx_created_or_updated_def Let_def)
  obtain n where n: "deliver (up, ec) (deliver (up, ek) db) = (deliver (up, ek) db)\<lparr>es_transactions := upsert_core c am n (millis ec) (es_transactions (deliver (up, ek) db))\<rparr>"
    using dc by blast
  obtain n' where n': "deliver (up, ec) db = db\<lparr>es_transactions := upsert_core c am n' (millis ec) (es_transactions db)\<rparr>"
    using dc by blast
  have "\<exists>d. es_transactions (deliver (up, ec) (deliver (up, ek) db)) (show_int i) = Some d \<and> field d ''category_id'' = EsInt a"
    unfolding n unfolding dk using assms by (simp add: upsert_core_def apply_categorization_def es_update_def categorization_script_def core_script_def
        not_older_def core_fields_def cat_fields_def es_opt_def)
  moreover have "\<exists>d. es_transactions (deliver (up, ek) (deliver (up, ec) db)) (show_int i) = Some d \<and>
       field d ''category_id'' = EsInt (tc_category_id k)"
    unfolding dk unfolding n' using assms by (simp add: upsert_core_def apply_categorization_def es_update_def categorization_script_def core_script_def
        not_older_def core_fields_def cat_fields_def es_opt_def)
  ultimately show ?thesis by simp
qed

theorem stale_categorization_overwrites_witness:
  "(\<exists>d. es_transactions (fold deliver [(\<lambda>_. True, demo_categorized), (\<lambda>_. True, demo_created 3000000)] empty_es) (show_int 5) = Some d \<and>
      field d ''category_id'' = EsInt 10) \<and>
   (\<exists>d. es_transactions (fold deliver [(\<lambda>_. True, demo_created 3000000), (\<lambda>_. True, demo_categorized)] empty_es) (show_int 5) = Some d \<and>
      field d ''category_id'' = EsInt 20)"
proof -
  have m: "event_ts_millis 3000000 = 3000" by code_simp
  have "completes (\<lambda>_. True, demo_created 3000000)" "completes (\<lambda>_. True, demo_categorized)"
    by (simp_all add: completes_def demo_created_def demo_categorized_def project_def tx_created_or_updated_def tx_categorized_def
        amount_of_def parse_decimal_show_cents)
  moreover obtain c where "be_payload (demo_created 3000000) = TransactionCreated c" "te_transaction_id c = 5" "te_category_id c = Some 10"
    by (simp add: demo_created_def)
  moreover obtain k where k: "be_payload demo_categorized = TransactionCategorized k" "tc_transaction_id k = 5" "tc_category_id k = 20"
    by (simp add: demo_categorized_def)
  moreover have "millis demo_categorized < millis (demo_created 3000000)" "es_transactions empty_es (show_int 5) = None"
    by (simp_all add: demo_categorized_def demo_created_def demo_millis m empty_es_def)
  ultimately show ?thesis
    using stale_categorization_overwrites [of empty_es 5 "demo_created 3000000" c 10 demo_categorized k "\<lambda>_. True"] by (simp only: simp_thms)
qed

section \<open>The consumer\<close>

text \<open>
  What becomes of a delivery: an unreadable body and an event that fails validation are dead-lettered
  without touching the store, an event type without a projection is acknowledged without touching it, and a
  failing projection is republished with the next retry count until the third retry and dead-lettered then.
\<close>

theorem projection_delivery_outcomes:
  assumes "projection_on_message validate up True rk m db = (out, db')"
  shows "(dl_body m = None \<longrightarrow> out = ProjDLQ \<and> db' = db) \<and>
    (\<forall>body t. dl_body m = Some (JObj body) \<and> dget_or body ''event_type'' (JStr rk) = JStr t \<longrightarrow>
       (t \<notin> set registered_events \<longrightarrow> out = ProjAck \<and> db' = db) \<and>
       (t \<in> set registered_events \<and> validate t body = None \<longrightarrow> out = ProjDLQ \<and> db' = db) \<and>
       (\<forall>e. t \<in> set registered_events \<and> validate t body = Some e \<longrightarrow>
          db' = deliver (up, e) db \<and>
          out = (if fst (project up e db) = Handled then ProjAck
                 else if retry_count m < 3 then ProjRepublish (retry_count m + 1) else ProjDLQ)))"
proof -
  have p: "project up e db = (fst (project up e db), deliver (up, e) db)" for e
    by (simp add: deliver_def)
  show ?thesis
    using assms
    by (auto simp: projection_on_message_def PROJECTION_MAX_RETRIES_def deliver_def
        split: option.splits prod.splits handler_result.splits if_splits)
qed

theorem projection_delivery_outcomes_witness:
  "projection_on_message (\<lambda>_ _. None) (\<lambda>_. True) True ''goal.created'' \<lparr>dl_body = Some (JObj []), dl_retry = None\<rparr> empty_es = (ProjDLQ, empty_es) \<and>
   ProjDLQ = ProjDLQ \<and> empty_es = empty_es"
proof -
  let ?m = "\<lparr>dl_body = Some (JObj []), dl_retry = None\<rparr>"
  obtain out db' where o: "projection_on_message (\<lambda>_ _. None) (\<lambda>_. True) True ''goal.created'' ?m empty_es = (out, db')" by force
  then show ?thesis
    using projection_delivery_outcomes [OF o] by (simp add: dget_or_def registered_events_def)
qed

end
