(* ===== verification/Embedding.thy ===== *)
theory Embedding
  imports ProjectionProofs
begin

text \<open>
  analytics-service, embeddings: the prose of a transaction document (\<open>app/application/embedding_text.py\<close>), the
  projector that embeds it (\<open>app/application/embedding_projection.py\<close>) and its consumer
  (\<open>app/workers/embedding_consumer.py\<close>).  The embedding model is the parameter \<open>embedder\<close>; \<open>None\<close> is a failed call.

  The document type of the transaction index is stated as an invariant that the projections keep; with it the
  prose can always be built.
\<close>

section \<open>The prose\<close>

definition danish_months :: "string list" where
  "danish_months =
     [''januar'', ''februar'', ''marts'', ''april'', ''maj'', ''juni'', ''juli'', ''august'', ''september'', ''oktober'',
      ''november'', ''december'']"

definition danish_month :: "nat \<Rightarrow> string option" where
  "danish_month m = (if 1 \<le> m \<and> m \<le> 12 then Some (danish_months ! (m - 1)) else None)"

text \<open>\<open>s.split("-")\<close>.\<close>

fun split_on :: "char \<Rightarrow> string \<Rightarrow> string list" where
  "split_on c [] = [[]]"
| "split_on c (x # xs) =
     (if x = c then [] # split_on c xs
      else (case split_on c xs of [] \<Rightarrow> [[x]] | w # ws \<Rightarrow> (x # w) # ws))"

text \<open>\<open>source.get(k) or ""\<close> for a field that holds a string or nothing.\<close>

definition str_field :: "doc \<Rightarrow> string \<Rightarrow> string" where
  "str_field d k = (case field d k of EsStr s \<Rightarrow> s | _ \<Rightarrow> [])"

definition join_words :: "string list \<Rightarrow> string" where
  "join_words ws = concat (map2 (@) ([] # replicate (length ws - 1) '' '') ws)"

text \<open>The date phrase; unpacking, \<open>int\<close> and the month table can raise.\<close>

definition date_phrase :: "string \<Rightarrow> string option" where
  "date_phrase s =
     (case split_on CHR ''-'' s of
        [y, m, d] \<Rightarrow>
          (case (parse_nat d, Option.bind (parse_nat m) danish_month) of
             (Some dn, Some mn) \<Rightarrow> Some (''den '' @ show_nat dn @ ''. '' @ mn @ '' '' @ y)
           | _ \<Rightarrow> None)
      | _ \<Rightarrow> None)"

text \<open>\<open>:.2f\<close> of a float rounds its exact value to cents, ties to even.\<close>

definition build_embedding_text :: "doc \<Rightarrow> string option" where
  "build_embedding_text source =
     (let tx_type = str_field source ''transaction_type'';
          income = (tx_type = ''income'' \<or>
                    tx_type = [] \<and> (case field source ''amount'' of EsNum a \<Rightarrow> a > 0 | _ \<Rightarrow> False));
          description = str_field source ''description'';
          tx_date = str_field source ''tx_date'';
          category_name = str_field source ''category_name'';
          subcategory_name = str_field source ''subcategory_name''
      in map_option (\<lambda>date_part.
           join_words
             ([if income then ''Indkomst'' else ''Udgift''] @
              (case field source ''amount'' of
                 EsNum a \<Rightarrow> [''paa '' @ show_cents (round_half_even (\<bar>a\<bar> * 100)) @ '' kr''] | _ \<Rightarrow> []) @
              (if description = [] then [] else [''hos '' @ description]) @
              date_part) @ ''.'' @
           (if category_name = [] then [] else '' Kategori: '' @ category_name @ ''.'') @
           (if subcategory_name = [] then [] else '' Underkategori: '' @ subcategory_name @ ''.''))
         (if tx_date = [] then Some [] else map_option (\<lambda>p. [p]) (date_phrase tx_date)))"

section \<open>The projector and its consumer\<close>

datatype embed_result = Embedded | StaleProjection | EmbedError

definition doc_updated_at :: "doc \<Rightarrow> int" where
  "doc_updated_at d = (case field d ''updated_at'' of EsInt t \<Rightarrow> t | _ \<Rightarrow> 0)"

definition embedding_handle ::
  "(string \<Rightarrow> rat list option) \<Rightarrow> es_up \<Rightarrow> int \<Rightarrow> int \<Rightarrow> es_db \<Rightarrow> embed_result \<times> es_db" where
  "embedding_handle embedder up transaction_id event_ts db =
     (if \<not> up CallGet then (EmbedError, db)
      else
        (case get_projection transaction_id (es_transactions db) of
           None \<Rightarrow> (StaleProjection, db)
         | Some source \<Rightarrow>
             if deleted_doc source then (Embedded, db)
             else if doc_updated_at source < event_ts then (StaleProjection, db)
             else
               (case Option.bind (build_embedding_text source) embedder of
                  None \<Rightarrow> (EmbedError, db)
                | Some vector \<Rightarrow>
                    if \<not> up CallUpdate then (EmbedError, db)
                    else (Embedded, db\<lparr>es_transactions :=
                           update_embedding transaction_id vector (doc_updated_at source) (es_transactions db)\<rparr>))))"

definition embedding_events :: "string list" where
  "embedding_events = [''transaction.created'', ''transaction.updated'', ''transaction.categorized'']"

text \<open>\<open>validate\<close> yields the transaction id and the timestamp of a valid event; the backoff of a stale event only waits.\<close>

definition embedding_on_message ::
  "(string \<Rightarrow> dict \<Rightarrow> (int \<times> instant) option) \<Rightarrow> (string \<Rightarrow> rat list option) \<Rightarrow> es_up \<Rightarrow> bool \<Rightarrow> string \<Rightarrow> delivery \<Rightarrow>
   es_db \<Rightarrow> projection_outcome \<times> es_db" where
  "embedding_on_message validate embedder up republish_ok routing_key m db =
     (case dl_body m of
        None \<Rightarrow> (ProjDLQ, db)
      | Some (JObj body) \<Rightarrow>
          (case dget_or body ''event_type'' (JStr routing_key) of
             JList _ \<Rightarrow> (ProjUnsettled, db)
           | JObj _ \<Rightarrow> (ProjUnsettled, db)
           | JStr event_type \<Rightarrow>
               if event_type \<notin> set embedding_events then (ProjAck, db)
               else
                 (case validate event_type body of
                    None \<Rightarrow> (ProjDLQ, db)
                  | Some (transaction_id, timestamp) \<Rightarrow>
                      (case embedding_handle embedder up transaction_id (event_ts_millis timestamp) db of
                         (Embedded, db') \<Rightarrow> (ProjAck, db')
                       | (_, db') \<Rightarrow>
                           if retry_count m < PROJECTION_MAX_RETRIES
                           then (if republish_ok then ProjRepublish (retry_count m + 1) else ProjUnsettled, db')
                           else (ProjDLQ, db')))
           | _ \<Rightarrow> (ProjAck, db))
      | Some _ \<Rightarrow> (ProjUnsettled, db))"

section \<open>The type of a transaction document\<close>

definition is_time :: "es_value \<Rightarrow> bool" where
  "is_time v = (case v of EsNull \<Rightarrow> True | EsInt _ \<Rightarrow> True | _ \<Rightarrow> False)"

definition is_text :: "es_value \<Rightarrow> bool" where
  "is_text v = (case v of EsNull \<Rightarrow> True | EsStr _ \<Rightarrow> True | _ \<Rightarrow> False)"

definition is_ref :: "es_value \<Rightarrow> bool" where
  "is_ref v = (case v of EsNull \<Rightarrow> True | EsInt _ \<Rightarrow> True | _ \<Rightarrow> False)"

definition is_iso_date :: "string \<Rightarrow> bool" where
  "is_iso_date s = (case of_isoformat s of None \<Rightarrow> False | Some d \<Rightarrow> isoformat d = s)"

lemma is_iso_date_isoformat [simp]: "valid_date d \<Longrightarrow> is_iso_date (isoformat d)"
  by (simp add: is_iso_date_def of_isoformat_isoformat)

lemma is_iso_dateE:
  assumes "is_iso_date s"
  obtains d where "valid_date d" "s = isoformat d"
  using assms by (auto simp: is_iso_date_def of_isoformat_def make_date_def split: option.splits if_splits sum.splits prod.splits)

definition tx_doc_typed :: "doc \<Rightarrow> bool" where
  "tx_doc_typed d \<longleftrightarrow>
     (\<forall>k \<in> {''updated_at'', ''core_event_ts'', ''categorization_event_ts'', ''embedding_event_ts''}. is_time (field d k)) \<and>
     (\<forall>k \<in> {''description'', ''transaction_type'', ''category_name'', ''subcategory_name'', ''categorization_tier'',
             ''categorization_confidence''}. is_text (field d k)) \<and>
     (\<forall>k \<in> {''account_id'', ''user_id'', ''category_id'', ''subcategory_id''}. is_ref (field d k)) \<and>
     (case field d ''amount'' of EsNull \<Rightarrow> True | EsNum _ \<Rightarrow> True | _ \<Rightarrow> False) \<and>
     (case field d ''tx_date'' of EsNull \<Rightarrow> True | EsStr s \<Rightarrow> is_iso_date s | _ \<Rightarrow> False) \<and>
     (case field d ''is_deleted'' of EsBool _ \<Rightarrow> True | _ \<Rightarrow> False)"

definition tx_index_typed :: "es_db \<Rightarrow> bool" where
  "tx_index_typed db \<longleftrightarrow> (\<forall>k d. es_transactions db k = Some d \<longrightarrow> tx_doc_typed d)"

lemma typed_update:
  assumes "tx_index_typed db" and "tx_doc_typed u"
    and "\<And>d d'. tx_doc_typed d \<Longrightarrow> scr d = Some d' \<Longrightarrow> tx_doc_typed d'"
  shows "tx_index_typed (db\<lparr>es_transactions := snd (es_update scr u i (es_transactions db))\<rparr>)"
  using assms by (auto simp: tx_index_typed_def es_update_def split: option.splits if_splits)

lemma typed_put_core:
  "valid_date (te_tx_date e) \<Longrightarrow> tx_doc_typed d \<Longrightarrow> tx_doc_typed (put (core_fields e a t) d)"
  by (simp add: tx_doc_typed_def core_fields_def is_time_def is_text_def is_ref_def)

lemma typed_put_cats:
  assumes "is_ref a" "is_text b" "is_ref c" "is_text e" "is_text f" "is_text g" "tx_doc_typed d"
  shows "tx_doc_typed (put (cat_fields a b c e f g) d)"
  using assms by (simp add: tx_doc_typed_def cat_fields_def)

lemma es_opt_kinds [simp]:
  "is_ref (es_opt EsInt x)" "is_text (es_opt EsStr y)" "is_text (es_text s)" "is_ref (EsInt n)"
  by (auto simp: es_opt_def es_text_def is_ref_def is_text_def split: option.splits)

lemma typed_upd:
  assumes "tx_doc_typed d"
  shows "tx_doc_typed (d(''updated_at'' \<mapsto> EsInt t))" "tx_doc_typed (d(''categorization_event_ts'' \<mapsto> EsInt t))"
    "tx_doc_typed (d(''is_deleted'' \<mapsto> EsBool b))" "tx_doc_typed (d(''category_name'' \<mapsto> EsStr s))"
    "tx_doc_typed (d(''subcategory_name'' \<mapsto> EsStr s))" "tx_doc_typed (d(''embedding_event_ts'' \<mapsto> EsInt t))"
    "tx_doc_typed (d(''description_vector'' \<mapsto> EsVec v))"
  using assms by (simp_all add: tx_doc_typed_def is_time_def is_text_def)

lemma typed_empty: "tx_doc_typed [''transaction_id'' \<mapsto> EsInt i, ''is_deleted'' \<mapsto> EsBool b]"
  by (simp add: tx_doc_typed_def is_time_def is_text_def is_ref_def field_def)

text \<open>Events carry valid dates: their contract classes parse \<open>tx_date\<close> as a date.\<close>

fun payload_dates_ok :: "payload \<Rightarrow> bool" where
  "payload_dates_ok (TransactionCreated c) = valid_date (te_tx_date c)"
| "payload_dates_ok (TransactionUpdated c) = valid_date (te_tx_date c)"
| "payload_dates_ok _ = True"

lemma typed_rename:
  assumes "tx_index_typed db" and t: "target \<in> {''category_name'', ''subcategory_name''}"
  shows "tx_index_typed (db\<lparr>es_taxonomy := x, es_transactions := propagate target fld j n (es_transactions db)\<rparr>)"
proof -
  have u: "tx_doc_typed (d(target \<mapsto> EsStr n))" if "tx_doc_typed d" for d
    using t typed_upd [OF that] by auto
  show ?thesis
    using assms(1) u by (auto simp: tx_index_typed_def propagate_def split: if_splits)
qed

lemma typed_core:
  assumes "tx_index_typed db" and "valid_date (te_tx_date c)"
  shows "tx_index_typed (snd (tx_created_or_updated up c t db))"
proof -
  have "tx_index_typed (db\<lparr>es_transactions := upsert_core c a n t (es_transactions db)\<rparr>)" for a n
    unfolding upsert_core_def
  proof (rule typed_update [OF assms(1)])
    show "tx_doc_typed (tx_upsert_doc (te_transaction_id c))" unfolding tx_upsert_doc_def by (rule typed_empty)
  next
    fix d d'
    assume "tx_doc_typed d" and s: "core_script (core_fields c a t) (cat_fields (es_opt EsInt (te_category_id c)) (es_text (te_category c))
      (es_opt EsInt (te_subcategory_id c)) (es_opt EsStr n) (es_opt EsStr (te_categorization_tier c))
      (es_opt EsStr (te_categorization_confidence c))) t d = Some d'"
    then have "tx_doc_typed (put (core_fields c a t) d)" using assms(2) by (intro typed_put_core)
    then show "tx_doc_typed d'"
      using s by (auto simp: core_script_def Let_def intro: typed_put_cats split: if_splits)
  qed
  then show ?thesis using assms(1) by (simp add: tx_created_or_updated_def Let_def split: option.splits)
qed

lemma deliver_typed:
  assumes "tx_index_typed db" and "payload_dates_ok (be_payload e)"
  shows "tx_index_typed (deliver (up, e) db)"
proof (cases "be_payload e")
  case (TransactionCategorized c)
  have "tx_index_typed (db\<lparr>es_transactions := apply_categorization c (millis e) (es_transactions db)\<rparr>)"
    unfolding apply_categorization_def
  proof (rule typed_update [OF assms(1)])
    show "tx_doc_typed (tx_upsert_doc (tc_transaction_id c))" unfolding tx_upsert_doc_def by (rule typed_empty)
  qed (auto simp: categorization_script_def intro!: typed_upd typed_put_cats split: if_splits)
  then show ?thesis using assms(1) TransactionCategorized by (simp add: deliver_def project_def tx_categorized_def)
next
  case (TransactionDeleted j)
  have "tx_index_typed (db\<lparr>es_transactions := tx_mark_deleted j (millis e) (es_transactions db)\<rparr>)"
    unfolding tx_mark_deleted_def
  proof (rule typed_update [OF assms(1)])
    show "tx_doc_typed [''transaction_id'' \<mapsto> EsInt j, ''is_deleted'' \<mapsto> EsBool True, ''updated_at'' \<mapsto> EsInt (millis e)]"
      by (rule typed_upd(1) [OF typed_empty])
  qed (auto simp: delete_script_def intro!: typed_upd)
  then show ?thesis using assms(1) TransactionDeleted by (simp add: deliver_def project_def tx_deleted_def)
next
  case (CategorySnapshot k c)
  then show ?thesis
    using assms(1) typed_rename [OF assms(1)]
    by (auto simp: deliver_def project_def handle_category_def propagate_category_rename_def Let_def split: prod.splits)
      (simp add: tx_index_typed_def)+
next
  case (SubCategorySnapshot k c)
  then show ?thesis
    using assms(1) typed_rename [OF assms(1)]
    by (auto simp: deliver_def project_def handle_subcategory_def propagate_subcategory_rename_def Let_def split: prod.splits)
      (simp add: tx_index_typed_def)+
qed (use assms typed_core in \<open>auto simp: deliver_def project_def Let_def tx_index_typed_def\<close>)

lemma embedding_typed:
  assumes "tx_index_typed db"
  shows "tx_index_typed (snd (embedding_handle em up i t db))"
proof -
  have "tx_index_typed (db\<lparr>es_transactions := update_embedding i v u (es_transactions db)\<rparr>)" for v u
  proof (cases "es_transactions db (show_int i)")
    case (Some d)
    then have "tx_doc_typed d" using assms by (simp add: tx_index_typed_def)
    then have "tx_index_typed (db\<lparr>es_transactions := snd (es_update (embedding_script v u) d (show_int i) (es_transactions db))\<rparr>)"
      by (rule typed_update [OF assms]) (auto simp: embedding_script_def intro!: typed_upd split: if_splits)
    then show ?thesis using Some by (simp add: update_embedding_def)
  qed (use assms in \<open>simp add: update_embedding_def\<close>)
  then show ?thesis using assms by (auto simp: embedding_handle_def split: option.splits)
qed

section \<open>The prose can always be built\<close>

lemma split_on_none: "c \<notin> set s \<Longrightarrow> split_on c s = [s]"
  by (induction s) auto

lemma split_on_append: "c \<notin> set s \<Longrightarrow> split_on c (s @ c # r) = s # split_on c r"
  by (induction s) auto

lemma pad_no_dash: "CHR ''-'' \<notin> set (pad w n)"
  using pad_all_digits [of w n] by (auto simp: list_all_iff is_digit_def)

lemma date_phrase_isoformat:
  assumes "valid_date d"
  shows "date_phrase (isoformat d) =
    Some (''den '' @ show_nat (nat (day d)) @ ''. '' @ danish_months ! (nat (month d) - 1) @ '' '' @ pad 4 (nat (year d)))"
proof -
  have "split_on CHR ''-'' (isoformat d) = [pad 4 (nat (year d)), pad 2 (nat (month d)), pad 2 (nat (day d))]"
    by (simp add: isoformat_def split_on_append split_on_none pad_no_dash)
  moreover have "danish_month (nat (month d)) = Some (danish_months ! (nat (month d) - 1))"
    using assms by (auto simp: valid_date_def danish_month_def)
  ultimately show ?thesis by (simp add: date_phrase_def parse_nat_pad)
qed

lemma build_embedding_text_total:
  assumes "tx_doc_typed d"
  shows "\<exists>s. build_embedding_text d = Some s"
proof (cases "str_field d ''tx_date'' = []")
  case True
  then show ?thesis by (simp add: build_embedding_text_def Let_def)
next
  case False
  then obtain s where s: "field d ''tx_date'' = EsStr s" by (auto simp: str_field_def split: es_value.splits)
  then have "is_iso_date s" using assms by (simp add: tx_doc_typed_def)
  then obtain x where "valid_date x" "s = isoformat x" by (rule is_iso_dateE)
  then show ?thesis using s by (simp add: build_embedding_text_def str_field_def Let_def date_phrase_isoformat)
qed

lemma typed_without_vector: "tx_doc_typed d \<Longrightarrow> tx_doc_typed (d(''description_vector'' := None))"
  by (simp add: tx_doc_typed_def field_def)

text \<open>What can happen to the transaction index: deliveries to the projection and to the embedding consumer.\<close>

datatype es_op =
    OpProject es_up base_event
  | OpEmbed "string \<Rightarrow> rat list option" es_up int int

fun apply_es_op :: "es_op \<Rightarrow> es_db \<Rightarrow> es_db" where
  "apply_es_op (OpProject up e) db = deliver (up, e) db"
| "apply_es_op (OpEmbed em up i t) db = snd (embedding_handle em up i t db)"

fun es_op_ok :: "es_op \<Rightarrow> bool" where
  "es_op_ok (OpProject up e) = payload_dates_ok (be_payload e)"
| "es_op_ok (OpEmbed em up i t) = True"

lemma run_typed: "list_all es_op_ok ops \<Longrightarrow> tx_index_typed db \<Longrightarrow> tx_index_typed (fold apply_es_op ops db)"
proof (induction ops arbitrary: db)
  case (Cons op ops)
  then show ?case by (cases op) (auto intro: deliver_typed embedding_typed)
qed simp

text \<open>
  C31. The documents of the transaction index are well typed after any interleaving of projections and
  embeddings with their failures: guards hold integers, texts strings and dates ISO dates.  So building the prose
  of a document never raises, and an embedding fails only when Elasticsearch or the model does.
\<close>

theorem transaction_documents_typed:
  assumes "list_all es_op_ok ops" and "db = fold apply_es_op ops empty_es"
  shows "(\<forall>k d. es_transactions db k = Some d \<longrightarrow> tx_doc_typed d) \<and>
    (fst (embedding_handle em (\<lambda>_. True) i t db) = EmbedError \<longrightarrow> (\<exists>s. em s = None))"
proof -
  have "tx_index_typed empty_es" by (simp add: tx_index_typed_def empty_es_def)
  then have ty: "tx_index_typed db" using run_typed assms by simp
  have "\<exists>s. em s = None" if e: "fst (embedding_handle em (\<lambda>_. True) i t db) = EmbedError"
  proof -
    obtain d where d: "es_transactions db (show_int i) = Some d"
      and n: "Option.bind (build_embedding_text (d(''description_vector'' := None))) em = None"
      using e by (auto simp: embedding_handle_def get_projection_def split: option.splits if_splits)
    have "tx_doc_typed (d(''description_vector'' := None))" using ty d by (simp add: tx_index_typed_def typed_without_vector)
    then show ?thesis using n build_embedding_text_total by fastforce
  qed
  then show ?thesis using ty by (simp add: tx_index_typed_def)
qed

theorem transaction_documents_typed_witness:
  "tx_doc_typed (the (es_transactions (fold apply_es_op [OpProject (\<lambda>_. True) (demo_created 1000000)] empty_es) (show_int 5))) \<and>
   list_all es_op_ok [OpProject (\<lambda>_. True) (demo_created 1000000)]"
proof -
  let ?ops = "[OpProject (\<lambda>_. True) (demo_created 1000000)]"
  have ok: "list_all es_op_ok ?ops" by (simp add: demo_created_def valid_date_def days_in_month_def)
  obtain d where d: "es_transactions (fold apply_es_op ?ops empty_es) (show_int 5) = Some d"
    by (simp add: demo_created_def deliver_def project_def tx_created_or_updated_def amount_of_def parse_decimal_show_cents
        upsert_core_def es_update_def core_script_def not_older_def empty_es_def)
  show ?thesis
    using transaction_documents_typed [OF ok refl] d ok by simp
qed

text \<open>
  An embedding that is reported done is fresh: the document is gone, or its vector was computed from a
  state at least as new as the event, and a newer vector is never replaced by an older one.
\<close>

theorem embedding_is_fresh:
  assumes "embedding_handle em up i t db = (Embedded, db')"
  shows "\<exists>d d'. es_transactions db (show_int i) = Some d \<and> es_transactions db' (show_int i) = Some d' \<and>
    (deleted_doc d \<and> d' = d \<or>
     (\<exists>s v. t \<le> doc_updated_at d \<and> build_embedding_text (d(''description_vector'' := None)) = Some s \<and> em s = Some v \<and>
        (if not_older d ''embedding_event_ts'' (doc_updated_at d)
         then field d' ''description_vector'' = EsVec v \<and> field d' ''embedding_event_ts'' = EsInt (doc_updated_at d)
         else d' = d)))"
proof -
  have up: "doc_updated_at (d(''description_vector'' := None)) = doc_updated_at d"
    "deleted_doc (d(''description_vector'' := None)) = deleted_doc d" for d
    by (simp_all add: doc_updated_at_def deleted_doc_def field_def)
  obtain d where d: "es_transactions db (show_int i) = Some d"
    using assms by (auto simp: embedding_handle_def get_projection_def split: if_splits option.splits)
  show ?thesis
  proof (cases "deleted_doc d")
    case True
    then show ?thesis using assms d by (auto simp: embedding_handle_def get_projection_def up split: if_splits)
  next
    case False
    then obtain s v where sv: "t \<le> doc_updated_at d" "build_embedding_text (d(''description_vector'' := None)) = Some s" "em s = Some v"
      and db': "db' = db\<lparr>es_transactions := update_embedding i v (doc_updated_at d) (es_transactions db)\<rparr>"
      using assms d by (auto simp: embedding_handle_def get_projection_def up bind_eq_Some_conv split: if_splits option.splits)
    show ?thesis
      using False sv d by (auto simp: db' update_embedding_def es_update_def embedding_script_def)
  qed
qed

theorem embedding_is_fresh_witness:
  "\<exists>d d'. [''updated_at'' \<mapsto> EsInt 9, ''is_deleted'' \<mapsto> EsBool False] = d \<and> field d' ''description_vector'' = EsVec [1] \<and>
     field d' ''embedding_event_ts'' = EsInt 9"
proof -
  let ?d = "[''updated_at'' \<mapsto> EsInt 9, ''is_deleted'' \<mapsto> EsBool False] :: doc"
  let ?db = "empty_es\<lparr>es_transactions := [show_int 5 \<mapsto> ?d]\<rparr>"
  obtain r db' where h: "embedding_handle (\<lambda>_. Some [1]) (\<lambda>_. True) 5 7 ?db = (r, db')" by fastforce
  have "r = Embedded"
    using h by (auto simp: embedding_handle_def get_projection_def deleted_doc_def field_def doc_updated_at_def
        build_embedding_text_def str_field_def Let_def split: if_splits)
  then show ?thesis
    using embedding_is_fresh [of "\<lambda>_. Some [1]" "\<lambda>_. True" 5 7 ?db db'] h
    by (auto simp: deleted_doc_def field_def not_older_def doc_updated_at_def split: if_splits)
qed

end
