(* ===== verification/MonthlyBudget.thy ===== *)
theory MonthlyBudget
  imports Goals BudgetPeriod PyDecimal
begin

text \<open>
  budget-service: monthly budgets with their repository
  (\<open>app/adapters/outbound/postgres_monthly_budget_repository.py\<close>), the use cases
  (\<open>app/application/monthly_budget_service.py\<close>), the alert rule (\<open>app/domain/budget_alerts.py\<close>), the spending
  read from analytics (\<open>app/adapters/outbound/analytics_port.py\<close>) and the two schedulers
  (\<open>app/workers/month_close_scheduler.py\<close>, \<open>budget_alert_scheduler.py\<close>).

  The entities carry floats, the table cents: a float is stored by way of its shortest decimal, rounded half away
  from zero to cents, and read back as the nearest float.  Other services are parameters: which categories exist,
  their names, and the overview of analytics-service (\<open>None\<close> when it cannot be reached).  The decimal context of 28
  digits is wider than the difference of two shortest decimals of amounts, so decimal subtraction is exact.
\<close>

section \<open>Errors and entities\<close>

datatype budget_error =
    AccountRequiredForMonthlyBudget
  | MonthlyBudgetAlreadyExists int int
  | MonthlyBudgetNotFound
  | CategoryNotFoundForBudgetLine int
  | NoBudgetToCopy int int
  | MonthlyBudgetAlreadyClosed int int
  | BudgetUpstreamUnavailable
  | BudgetValueError
  | BudgetValidationError
  | BudgetIntegrityError
  | BudgetDataError
  | BudgetMultipleResults

fun mapE :: "('a \<Rightarrow> 'e + 'b) \<Rightarrow> 'a list \<Rightarrow> 'e + 'b list" where
  "mapE f [] = Inr []"
| "mapE f (x # xs) = bindE (f x) (\<lambda>y. bindE (mapE f xs) (\<lambda>ys. Inr (y # ys)))"

definition lift_py :: "py_error + 'a \<Rightarrow> budget_error + 'a" where
  "lift_py r = (case r of Inl _ \<Rightarrow> Inl BudgetValueError | Inr x \<Rightarrow> Inr x)"

record budget_line =
  ln_id :: "int option"
  ln_category :: int
  ln_amount :: rat

record monthly_budget =
  mb_id :: "int option"
  mb_month :: int
  mb_year :: int
  mb_account :: int
  mb_user :: int
  mb_lines :: "budget_line list"
  mb_created_at :: "instant option"
  mb_closed_at :: "instant option"

text \<open>The \<open>__post_init__\<close> checks.\<close>

definition make_budget_line :: "int option \<Rightarrow> int \<Rightarrow> rat \<Rightarrow> budget_error + budget_line" where
  "make_budget_line i category_id amount =
     (if amount < 0 \<or> category_id = 0 then Inl BudgetValueError
      else Inr \<lparr>ln_id = i, ln_category = category_id, ln_amount = amount\<rparr>)"

definition make_monthly_budget :: "monthly_budget \<Rightarrow> budget_error + monthly_budget" where
  "make_monthly_budget b =
     (if 1 \<le> mb_month b \<and> mb_month b \<le> 12 \<and> 2000 \<le> mb_year b \<and> mb_year b \<le> 9999 \<and> mb_account b \<noteq> 0
      then Inr b else Inl BudgetValueError)"

definition total_budget :: "monthly_budget \<Rightarrow> rat" where
  "total_budget b = foldl fadd 0 (map ln_amount (mb_lines b))"

section \<open>Tables\<close>

record line_row =
  lr_id :: int
  lr_category :: int
  lr_cents :: int

record mb_row =
  mr_id :: int
  mr_month :: int
  mr_year :: int
  mr_account :: int
  mr_user :: int
  mr_lines :: "line_row list"
  mr_created_at :: instant
  mr_closed_at :: "instant option"

record line_threshold_event =
  lt_account_id :: int
  lt_year :: int
  lt_month :: int
  lt_category_id :: int
  lt_category_name :: string
  lt_budgeted_cents :: int
  lt_spent_cents :: int
  lt_percentage_used :: int
  lt_threshold :: int
  lt_days_remaining :: int

definition line_threshold_event_ok :: "line_threshold_event \<Rightarrow> bool" where
  "line_threshold_event_ok e \<longleftrightarrow> 1 \<le> lt_account_id e \<and> 2020 \<le> lt_year e \<and> 1 \<le> lt_month e \<and> lt_month e \<le> 12 \<and>
     1 \<le> lt_category_id e \<and> 0 \<le> lt_budgeted_cents e \<and> 0 \<le> lt_spent_cents e \<and> 0 \<le> lt_percentage_used e \<and>
     1 \<le> lt_threshold e \<and> lt_threshold e \<le> 100 \<and> 0 \<le> lt_days_remaining e"

definition make_line_threshold_source_key :: "int \<Rightarrow> int \<Rightarrow> int \<Rightarrow> int \<Rightarrow> int \<Rightarrow> string" where
  "make_line_threshold_source_key account_id yr mon category_id threshold =
     ''budget.line_threshold_crossed:'' @ show_int account_id @ '':'' @ show_int yr @ '':'' @ show_int mon @ '':'' @
     show_int category_id @ '':'' @ show_int threshold"

definition lt_source_key :: "line_threshold_event \<Rightarrow> string" where
  "lt_source_key e =
     make_line_threshold_source_key (lt_account_id e) (lt_year e) (lt_month e) (lt_category_id e) (lt_threshold e)"

datatype budget_event =
    MonthClosed month_closed_event
  | LineThresholdCrossed line_threshold_event

text \<open>The two id sequences of the tables are counters: an id is never used twice.\<close>

record budget_db =
  bd_budgets :: "mb_row list"
  bd_next_id :: int
  bd_next_line_id :: int
  bd_outbox :: "budget_event outbox"

section \<open>The repository\<close>

definition mb_to_entity :: "mb_row \<Rightarrow> budget_error + monthly_budget" where
  "mb_to_entity r =
     bindE (mapE (\<lambda>l. make_budget_line (Some (lr_id l)) (lr_category l) (fl (of_int (lr_cents l) / 100))) (mr_lines r)) (\<lambda>ls.
     make_monthly_budget
       \<lparr>mb_id = Some (mr_id r), mb_month = mr_month r, mb_year = mr_year r, mb_account = mr_account r, mb_user = mr_user r,
        mb_lines = ls, mb_created_at = Some (mr_created_at r), mb_closed_at = mr_closed_at r\<rparr>)"

definition one_or_none :: "mb_row list \<Rightarrow> budget_error + monthly_budget option" where
  "one_or_none rows =
     (case rows of
        [] \<Rightarrow> Inr None
      | [r] \<Rightarrow> bindE (mb_to_entity r) (\<lambda>b. Inr (Some b))
      | _ \<Rightarrow> Inl BudgetMultipleResults)"

definition get_by_id_for_account :: "int \<Rightarrow> int \<Rightarrow> int \<Rightarrow> budget_db \<Rightarrow> budget_error + monthly_budget option" where
  "get_by_id_for_account budget_id account_id user_id db =
     one_or_none (filter (\<lambda>r. mr_id r = budget_id \<and> mr_account r = account_id \<and> mr_user r = user_id) (bd_budgets db))"

definition get_by_account_and_period ::
  "int \<Rightarrow> int \<Rightarrow> int \<Rightarrow> int \<Rightarrow> budget_db \<Rightarrow> budget_error + monthly_budget option" where
  "get_by_account_and_period account_id mon yr user_id db =
     one_or_none (filter (\<lambda>r. mr_account r = account_id \<and> mr_month r = mon \<and> mr_year r = yr \<and> mr_user r = user_id)
       (bd_budgets db))"

definition list_open_before_period :: "int \<Rightarrow> int \<Rightarrow> budget_db \<Rightarrow> budget_error + monthly_budget list" where
  "list_open_before_period yr mon db =
     mapE mb_to_entity
       (sort_key mr_year (sort_key mr_month (sort_key mr_id
         (filter (\<lambda>r. mr_closed_at r = None \<and> (mr_year r < yr \<or> mr_year r = yr \<and> mr_month r < mon)) (bd_budgets db)))))"

definition list_open_for_period :: "int \<Rightarrow> int \<Rightarrow> budget_db \<Rightarrow> budget_error + monthly_budget list" where
  "list_open_for_period yr mon db =
     mapE mb_to_entity
       (sort_key mr_id (filter (\<lambda>r. mr_closed_at r = None \<and> mr_year r = yr \<and> mr_month r = mon) (bd_budgets db)))"

text \<open>New line rows: ids from the sequence, amounts in cents, one line per category.\<close>

definition line_rows :: "int \<Rightarrow> budget_line list \<Rightarrow> budget_error + line_row list" where
  "line_rows next_id ls =
     (let cents = map (\<lambda>l. numeric_cents (repr_decimal (ln_amount l))) ls in
      if list_ex (\<lambda>c. \<bar>c\<bar> \<ge> numeric_limit) cents then Inl BudgetDataError
      else if \<not> distinct (map ln_category ls) then Inl BudgetIntegrityError
      else Inr (map2 (\<lambda>i (l, c). \<lparr>lr_id = next_id + int i, lr_category = ln_category l, lr_cents = c\<rparr>)
                  [0..<length ls] (zip ls cents)))"

definition mb_create :: "instant \<Rightarrow> monthly_budget \<Rightarrow> budget_db \<Rightarrow> budget_error + (monthly_budget \<times> budget_db)" where
  "mb_create now b db =
     (if list_ex (\<lambda>r. mr_account r = mb_account b \<and> mr_month r = mb_month b \<and> mr_year r = mb_year b) (bd_budgets db)
      then Inl BudgetIntegrityError
      else
        bindE (line_rows (bd_next_line_id db) (mb_lines b)) (\<lambda>ls.
        (let r = \<lparr>mr_id = bd_next_id db, mr_month = mb_month b, mr_year = mb_year b, mr_account = mb_account b,
                  mr_user = mb_user b, mr_lines = ls, mr_created_at = now, mr_closed_at = None\<rparr>
         in bindE (mb_to_entity r) (\<lambda>e.
            Inr (e, db\<lparr>bd_budgets := bd_budgets db @ [r], bd_next_id := bd_next_id db + 1,
                       bd_next_line_id := bd_next_line_id db + int (length ls)\<rparr>)))))"

definition mb_update :: "monthly_budget \<Rightarrow> budget_db \<Rightarrow> budget_error + (monthly_budget \<times> budget_db)" where
  "mb_update b db =
     (case List.find (\<lambda>r. Some (mr_id r) = mb_id b) (bd_budgets db) of
        None \<Rightarrow> Inl BudgetValueError
      | Some r \<Rightarrow>
          bindE (line_rows (bd_next_line_id db) (mb_lines b)) (\<lambda>ls.
          (let r' = r\<lparr>mr_lines := ls\<rparr> in
           bindE (mb_to_entity r') (\<lambda>e.
           Inr (e, db\<lparr>bd_budgets := update_where (\<lambda>x. mr_id x = mr_id r) (\<lambda>_. r') (bd_budgets db),
                      bd_next_line_id := bd_next_line_id db + int (length ls)\<rparr>)))))"

definition mb_delete :: "int \<Rightarrow> int \<Rightarrow> int \<Rightarrow> budget_db \<Rightarrow> bool \<times> budget_db" where
  "mb_delete budget_id account_id user_id db =
     (let hit = (\<lambda>r. mr_id r = budget_id \<and> mr_account r = account_id \<and> mr_user r = user_id) in
      (list_ex hit (bd_budgets db), db\<lparr>bd_budgets := filter (\<lambda>r. \<not> hit r) (bd_budgets db)\<rparr>))"

definition mark_closed :: "instant \<Rightarrow> int option \<Rightarrow> budget_db \<Rightarrow> bool \<times> budget_db" where
  "mark_closed now budget_id db =
     (let hit = (\<lambda>r. Some (mr_id r) = budget_id \<and> mr_closed_at r = None) in
      (list_ex hit (bd_budgets db),
       db\<lparr>bd_budgets := update_where hit (\<lambda>r. r\<lparr>mr_closed_at := Some now\<rparr>) (bd_budgets db)\<rparr>))"

section \<open>Spending, from analytics-service\<close>

record overview =
  ov_buckets :: "(int option \<times> rat) list"
  ov_total :: rat

type_synonym overview_port = "int \<Rightarrow> date \<Rightarrow> date \<Rightarrow> int \<Rightarrow> overview option"

definition get_expenses_by_category ::
  "overview_port \<Rightarrow> int \<Rightarrow> date \<Rightarrow> date \<Rightarrow> int \<Rightarrow> budget_error + (int \<times> rat) list" where
  "get_expenses_by_category fetch_overview account_id start_date end_date user_id =
     bindE (of_option BudgetUpstreamUnavailable (fetch_overview account_id start_date end_date user_id)) (\<lambda>ov.
     Inr (fold (\<lambda>(c, amount) expenses. case c of None \<Rightarrow> expenses | Some category_id \<Rightarrow> AList.update category_id amount expenses)
            (ov_buckets ov) []))"

definition get_total_expenses :: "overview_port \<Rightarrow> int \<Rightarrow> date \<Rightarrow> date \<Rightarrow> int \<Rightarrow> budget_error + rat" where
  "get_total_expenses fetch_overview account_id start_date end_date user_id =
     bindE (of_option BudgetUpstreamUnavailable (fetch_overview account_id start_date end_date user_id)) (\<lambda>ov.
     Inr (repr_decimal (ov_total ov)))"

section \<open>Queries\<close>

record line_response =
  lp_id :: int
  lp_category :: int
  lp_category_name :: "string option"
  lp_amount :: rat

record mb_response =
  mp_id :: "int option"
  mp_month :: int
  mp_year :: int
  mp_total :: rat
  mp_created_at :: "instant option"
  mp_closed_at :: "instant option"
  mp_lines :: "line_response list"

definition mb_to_response :: "(int \<rightharpoonup> string) \<Rightarrow> monthly_budget \<Rightarrow> mb_response" where
  "mb_to_response category_names b =
     \<lparr>mp_id = mb_id b, mp_month = mb_month b, mp_year = mb_year b, mp_total = round2 (total_budget b),
      mp_created_at = mb_created_at b, mp_closed_at = mb_closed_at b,
      mp_lines = map (\<lambda>l. \<lparr>lp_id = (case ln_id l of None \<Rightarrow> 0 | Some i \<Rightarrow> i), lp_category = ln_category l,
                            lp_category_name = category_names (ln_category l), lp_amount = round2 (ln_amount l)\<rparr>)
                    (mb_lines b)\<rparr>"

definition get_or_none ::
  "(int \<rightharpoonup> string) \<Rightarrow> int \<Rightarrow> int \<Rightarrow> int \<Rightarrow> int \<Rightarrow> budget_db \<Rightarrow> budget_error + mb_response option" where
  "get_or_none category_names account_id mon yr user_id db =
     bindE (get_by_account_and_period account_id mon yr user_id db) (\<lambda>b. Inr (map_option (mb_to_response category_names) b))"

record summary_item =
  si_category :: int
  si_category_name :: string
  si_budget :: rat
  si_spent :: rat
  si_remaining :: rat
  si_percentage :: rat

record summary =
  su_month :: int
  su_year :: int
  su_budget_id :: "int option"
  su_items :: "summary_item list"
  su_total_budget :: rat
  su_total_spent :: rat
  su_total_remaining :: rat
  su_over_budget_count :: nat

definition spent_on :: "(int \<times> rat) list \<Rightarrow> int \<Rightarrow> rat" where
  "spent_on expenses category_id = (case map_of expenses category_id of None \<Rightarrow> 0 | Some s \<Rightarrow> s)"

definition name_or_unknown :: "(int \<rightharpoonup> string) \<Rightarrow> int \<Rightarrow> string" where
  "name_or_unknown names c = (case names c of None \<Rightarrow> ''Ukendt'' | Some n \<Rightarrow> n)"

definition line_item :: "(int \<rightharpoonup> string) \<Rightarrow> (int \<times> rat) list \<Rightarrow> budget_line \<Rightarrow> summary_item" where
  "line_item names expenses l =
     (let spent = spent_on expenses (ln_category l);
          remaining = fsub (ln_amount l) spent;
          pct = (if ln_amount l > 0 then fmul (fdiv spent (ln_amount l)) 100 else 0)
      in \<lparr>si_category = ln_category l, si_category_name = name_or_unknown names (ln_category l),
          si_budget = round2 (ln_amount l), si_spent = round2 spent, si_remaining = round2 remaining, si_percentage = round2 pct\<rparr>)"

definition unbudgeted_item :: "(int \<rightharpoonup> string) \<Rightarrow> int \<times> rat \<Rightarrow> summary_item" where
  "unbudgeted_item names e =
     \<lparr>si_category = fst e, si_category_name = name_or_unknown names (fst e), si_budget = 0, si_spent = round2 (snd e),
      si_remaining = round2 (- snd e), si_percentage = 100\<rparr>"

definition get_summary ::
  "overview_port \<Rightarrow> (int \<rightharpoonup> string) \<Rightarrow> int \<Rightarrow> int \<Rightarrow> int \<Rightarrow> int \<Rightarrow> int \<Rightarrow> budget_db \<Rightarrow> budget_error + summary" where
  "get_summary fetch_overview names account_id mon yr budget_start_day user_id db =
     (if account_id = 0 then Inl AccountRequiredForMonthlyBudget
      else
        bindE (get_by_account_and_period account_id mon yr user_id db) (\<lambda>budget.
        bindE (lift_py (budget_period yr mon budget_start_day)) (\<lambda>(start_date, end_date).
        (let expenses = (case get_expenses_by_category fetch_overview account_id start_date end_date user_id of
                           Inl _ \<Rightarrow> [] | Inr es \<Rightarrow> es);
             ls = (case budget of None \<Rightarrow> [] | Some b \<Rightarrow> mb_lines b);
             budgeted = map ln_category ls;
             others = filter (\<lambda>(c, _). c \<notin> set budgeted) expenses;
             total = foldl fadd 0 (map ln_amount ls);
             spent = foldl fadd 0 (map (\<lambda>l. spent_on expenses (ln_category l)) ls @ map snd others)
         in Inr \<lparr>su_month = mon, su_year = yr, su_budget_id = Option.bind budget mb_id,
                 su_items = map (line_item names expenses) ls @ map (unbudgeted_item names) others,
                 su_total_budget = round2 total, su_total_spent = round2 spent,
                 su_total_remaining = round2 (fsub total spent),
                 su_over_budget_count =
                   length (filter (\<lambda>l. fsub (ln_amount l) (spent_on expenses (ln_category l)) < 0) ls) + length others\<rparr>))))"

section \<open>Commands\<close>

definition validate_categories :: "(int \<Rightarrow> bool) \<Rightarrow> int list \<Rightarrow> budget_error + unit" where
  "validate_categories exists_cat ids =
     (case List.find (\<lambda>c. \<not> exists_cat c) ids of None \<Rightarrow> Inr () | Some c \<Rightarrow> Inl (CategoryNotFoundForBudgetLine c))"

type_synonym line_dto = "int \<times> rat"

definition new_budget :: "int \<Rightarrow> int \<Rightarrow> int \<Rightarrow> int \<Rightarrow> line_dto list \<Rightarrow> budget_error + monthly_budget" where
  "new_budget mon yr account_id user_id dto_lines =
     bindE (mapE (\<lambda>(c, a). make_budget_line None c a) dto_lines) (\<lambda>ls.
     make_monthly_budget
       \<lparr>mb_id = None, mb_month = mon, mb_year = yr, mb_account = account_id, mb_user = user_id, mb_lines = ls,
        mb_created_at = None, mb_closed_at = None\<rparr>)"

definition create_budget ::
  "(int \<Rightarrow> bool) \<Rightarrow> (int \<rightharpoonup> string) \<Rightarrow> instant \<Rightarrow> int \<Rightarrow> int \<Rightarrow> int \<Rightarrow> int \<Rightarrow> line_dto list \<Rightarrow> budget_db \<Rightarrow>
   budget_error + (mb_response \<times> budget_db)" where
  "create_budget exists_cat names now account_id user_id mon yr dto_lines db =
     (if account_id = 0 then Inl AccountRequiredForMonthlyBudget
      else
        bindE (get_by_account_and_period account_id mon yr user_id db) (\<lambda>existing.
        if existing \<noteq> None then Inl (MonthlyBudgetAlreadyExists mon yr)
        else
          bindE (validate_categories exists_cat (map fst dto_lines)) (\<lambda>_.
          bindE (new_budget mon yr account_id user_id dto_lines) (\<lambda>b.
          bindE (mb_create now b db) (\<lambda>(created, db').
          Inr (mb_to_response names created, db'))))))"

definition update_budget ::
  "(int \<Rightarrow> bool) \<Rightarrow> (int \<rightharpoonup> string) \<Rightarrow> int \<Rightarrow> int \<Rightarrow> int \<Rightarrow> line_dto list \<Rightarrow> budget_db \<Rightarrow>
   budget_error + (mb_response \<times> budget_db)" where
  "update_budget exists_cat names budget_id account_id user_id dto_lines db =
     bindE (get_by_id_for_account budget_id account_id user_id db) (\<lambda>existing.
     case existing of
       None \<Rightarrow> Inl MonthlyBudgetNotFound
     | Some b \<Rightarrow>
         bindE (validate_categories exists_cat (map fst dto_lines)) (\<lambda>_.
         bindE (mapE (\<lambda>(c, a). make_budget_line None c a) dto_lines) (\<lambda>ls.
         bindE (mb_update (b\<lparr>mb_lines := ls\<rparr>) db) (\<lambda>(updated, db').
         Inr (mb_to_response names updated, db')))))"

definition delete_budget :: "int \<Rightarrow> int \<Rightarrow> int \<Rightarrow> budget_db \<Rightarrow> bool \<times> budget_db" where
  "delete_budget budget_id account_id user_id db = mb_delete budget_id account_id user_id db"

definition copy_to_month ::
  "(int \<rightharpoonup> string) \<Rightarrow> instant \<Rightarrow> int \<Rightarrow> int \<Rightarrow> int \<Rightarrow> int \<Rightarrow> int \<Rightarrow> int \<Rightarrow> budget_db \<Rightarrow>
   budget_error + (mb_response \<times> budget_db)" where
  "copy_to_month names now account_id user_id source_month source_year target_month target_year db =
     (if account_id = 0 then Inl AccountRequiredForMonthlyBudget
      else
        bindE (get_by_account_and_period account_id source_month source_year user_id db) (\<lambda>source.
        case source of
          None \<Rightarrow> Inl (NoBudgetToCopy source_month source_year)
        | Some src \<Rightarrow>
            if mb_lines src = [] then Inl (NoBudgetToCopy source_month source_year)
            else
              bindE (get_by_account_and_period account_id target_month target_year user_id db) (\<lambda>existing_target.
              if existing_target \<noteq> None then Inl (MonthlyBudgetAlreadyExists target_month target_year)
              else
                bindE (new_budget target_month target_year account_id user_id
                         (map (\<lambda>l. (ln_category l, ln_amount l)) (mb_lines src))) (\<lambda>b.
                bindE (mb_create now b db) (\<lambda>(created, db').
                Inr (mb_to_response names created, db'))))))"

section \<open>Closing a month\<close>

text \<open>
  \<open>close_month\<close> reads first and writes later, in one transaction: \<open>close_read\<close> yields the id of the budget and the
  event, \<open>close_write\<close> is the conditional update with the outbox row.
\<close>

definition close_read ::
  "overview_port \<Rightarrow> int \<Rightarrow> int \<Rightarrow> int \<Rightarrow> int \<Rightarrow> int \<Rightarrow> budget_db \<Rightarrow> budget_error + (int option \<times> month_closed_event)" where
  "close_read fetch_overview account_id yr mon budget_start_day user_id db =
     bindE (get_by_account_and_period account_id mon yr user_id db) (\<lambda>budget.
     case budget of
       None \<Rightarrow> Inl MonthlyBudgetNotFound
     | Some b \<Rightarrow>
         bindE (lift_py (budget_period yr mon budget_start_day)) (\<lambda>(start_date, end_date).
         bindE (get_total_expenses fetch_overview account_id start_date end_date user_id) (\<lambda>spent.
         (let budgeted = repr_decimal (total_budget b);
              surplus = max 0 (budgeted - spent);
              source_key = make_budget_month_closed_source_key account_id yr mon;
              event = \<lparr>mc_account_id = account_id, mc_year = yr, mc_month = mon, mc_budgeted_amount = budgeted,
                       mc_actual_spent = spent, mc_surplus_amount = surplus, mc_correlation_id = Some source_key\<rparr>
          in if month_closed_event_ok event then Inr (mb_id b, event) else Inl BudgetValidationError))))"

definition show_budget_id :: "int option \<Rightarrow> string" where
  "show_budget_id i = (case i of None \<Rightarrow> ''None'' | Some n \<Rightarrow> show_int n)"

definition close_write :: "instant \<Rightarrow> int option \<Rightarrow> month_closed_event \<Rightarrow> budget_db \<Rightarrow> budget_error + budget_db" where
  "close_write now budget_id event db =
     (let (closed, db') = mark_closed now budget_id db in
      if \<not> closed then Inl (MonthlyBudgetAlreadyClosed (mc_month event) (mc_year event))
      else Inr (db'\<lparr>bd_outbox := ob_add now ''budget.month_closed'' (MonthClosed event) (mc_correlation_id event)
                     ''monthly_budget'' (show_budget_id budget_id) (bd_outbox db')\<rparr>))"

definition close_month ::
  "overview_port \<Rightarrow> instant \<Rightarrow> int \<Rightarrow> int \<Rightarrow> int \<Rightarrow> int \<Rightarrow> int \<Rightarrow> budget_db \<Rightarrow> budget_error + budget_db" where
  "close_month fetch_overview now account_id yr mon budget_start_day user_id db =
     bindE (close_read fetch_overview account_id yr mon budget_start_day user_id db) (\<lambda>(budget_id, event).
     close_write now budget_id event db)"

section \<open>Alerts\<close>

record line_crossing =
  lc_category :: int
  lc_budget :: rat
  lc_spent :: rat
  lc_percentage :: int
  lc_threshold :: int

definition pct_used :: "rat \<Rightarrow> rat \<Rightarrow> int" where
  "pct_used spent amount = (let p = fmul (fdiv spent amount) 100 in if p < 0 then - \<lfloor>- p\<rfloor> else \<lfloor>p\<rfloor>)"

definition evaluate_line_crossings :: "budget_line list \<Rightarrow> (int \<times> rat) list \<Rightarrow> int list \<Rightarrow> line_crossing list" where
  "evaluate_line_crossings ls spent_by_category thresholds =
     concat (map (\<lambda>l.
       if ln_amount l \<le> 0 then []
       else
         (let spent = spent_on spent_by_category (ln_category l); percentage = pct_used spent (ln_amount l)
          in map (\<lambda>t. \<lparr>lc_category = ln_category l, lc_budget = ln_amount l, lc_spent = spent, lc_percentage = percentage,
                       lc_threshold = t\<rparr>)
               (filter (\<lambda>t. t \<le> percentage) (sorted_list_of_set (set thresholds)))))
       (sort_key ln_category ls))"

definition crossing_event :: "(int \<rightharpoonup> string) \<Rightarrow> monthly_budget \<Rightarrow> int \<Rightarrow> line_crossing \<Rightarrow> line_threshold_event" where
  "crossing_event names b days_left c =
     \<lparr>lt_account_id = mb_account b, lt_year = mb_year b, lt_month = mb_month b, lt_category_id = lc_category c,
      lt_category_name = (case names (lc_category c) of
          None \<Rightarrow> show_int (lc_category c) | Some n \<Rightarrow> if n = [] then show_int (lc_category c) else n),
      lt_budgeted_cents = round_half_even (lc_budget c * 100), lt_spent_cents = round_half_even (lc_spent c * 100),
      lt_percentage_used = lc_percentage c, lt_threshold = lc_threshold c, lt_days_remaining = days_left\<rparr>"

definition evaluate_alerts ::
  "overview_port \<Rightarrow> (int \<rightharpoonup> string) \<Rightarrow> instant \<Rightarrow> date \<Rightarrow> int list \<Rightarrow> int \<Rightarrow> monthly_budget \<Rightarrow> budget_db \<Rightarrow>
   budget_error + (line_threshold_event list \<times> budget_db)" where
  "evaluate_alerts fetch_overview names now today thresholds budget_start_day b db =
     bindE (lift_py (budget_period (mb_year b) (mb_month b) budget_start_day)) (\<lambda>(start_date, end_date).
     bindE (get_expenses_by_category fetch_overview (mb_account b) start_date end_date (mb_user b)) (\<lambda>expenses.
     (let crossings = evaluate_line_crossings (mb_lines b) expenses thresholds in
      if crossings = [] then Inr ([], db)
      else
        bindE (lift_py (days_remaining_in_period (mb_year b) (mb_month b) today budget_start_day)) (\<lambda>days_left.
        (let events = map (crossing_event names b days_left) crossings in
         if list_all line_threshold_event_ok events
         then Inr (events, db\<lparr>bd_outbox := ob_add_batch now
                (map (\<lambda>e. (''budget.line_threshold_crossed'', LineThresholdCrossed e, None)) events)
                ''monthly_budget'' (show_budget_id (mb_id b)) (bd_outbox db)\<rparr>)
         else Inl BudgetValidationError)))))"

section \<open>The schedulers\<close>

record close_counts =
  cc_due :: nat
  cc_closed :: nat
  cc_skipped :: nat
  cc_failed_upstream :: nat
  cc_failed_unexpected :: nat

fun filterE :: "('a \<Rightarrow> 'e + bool) \<Rightarrow> 'a list \<Rightarrow> 'e + 'a list" where
  "filterE p [] = Inr []"
| "filterE p (x # xs) = bindE (p x) (\<lambda>b. bindE (filterE p xs) (\<lambda>ys. Inr (if b then x # ys else ys)))"

fun is_already_closed :: "budget_error \<Rightarrow> bool" where
  "is_already_closed (MonthlyBudgetAlreadyClosed _ _) = True"
| "is_already_closed _ = False"

definition close_one ::
  "overview_port \<Rightarrow> instant \<Rightarrow> monthly_budget \<Rightarrow> close_counts \<times> budget_db \<Rightarrow> close_counts \<times> budget_db" where
  "close_one fetch_overview now b st =
     (let (counts, db) = st in
      case close_month fetch_overview now (mb_account b) (mb_year b) (mb_month b) 1 (mb_user b) db of
        Inr db' \<Rightarrow> (counts\<lparr>cc_closed := cc_closed counts + 1\<rparr>, db')
      | Inl e \<Rightarrow>
          (if is_already_closed e \<or> e = MonthlyBudgetNotFound
           then (counts\<lparr>cc_skipped := cc_skipped counts + 1\<rparr>, db)
           else if e = BudgetUpstreamUnavailable
           then (counts\<lparr>cc_failed_upstream := cc_failed_upstream counts + 1\<rparr>, db)
           else (counts\<lparr>cc_failed_unexpected := cc_failed_unexpected counts + 1\<rparr>, db)))"

text \<open>One sweep of the month-close scheduler; each budget is closed in a transaction of its own.\<close>

definition close_run_once ::
  "overview_port \<Rightarrow> instant \<Rightarrow> date \<Rightarrow> int \<Rightarrow> budget_db \<Rightarrow> budget_error + (close_counts \<times> budget_db)" where
  "close_run_once fetch_overview now today close_day db =
     bindE (list_open_before_period (year today) (month today) db) (\<lambda>candidates.
     bindE (filterE (\<lambda>b. lift_py (is_due_for_scheduled_close (mb_year b) (mb_month b) today close_day)) candidates) (\<lambda>due.
     Inr (fold (close_one fetch_overview now) due
            (\<lparr>cc_due = length due, cc_closed = 0, cc_skipped = 0, cc_failed_upstream = 0, cc_failed_unexpected = 0\<rparr>, db))))"

record alert_counts =
  ac_budgets :: nat
  ac_events :: nat
  ac_failed_upstream :: nat
  ac_failed_unexpected :: nat

definition alert_one ::
  "overview_port \<Rightarrow> (int \<rightharpoonup> string) \<Rightarrow> instant \<Rightarrow> date \<Rightarrow> int list \<Rightarrow> monthly_budget \<Rightarrow> alert_counts \<times> budget_db \<Rightarrow>
   alert_counts \<times> budget_db" where
  "alert_one fetch_overview names now today thresholds b st =
     (let (counts, db) = st in
      case evaluate_alerts fetch_overview names now today thresholds 1 b db of
        Inr (events, db') \<Rightarrow> (counts\<lparr>ac_events := ac_events counts + length events\<rparr>, db')
      | Inl e \<Rightarrow>
          (if e = BudgetUpstreamUnavailable
           then (counts\<lparr>ac_failed_upstream := ac_failed_upstream counts + 1\<rparr>, db)
           else (counts\<lparr>ac_failed_unexpected := ac_failed_unexpected counts + 1\<rparr>, db)))"

definition alert_run_once ::
  "overview_port \<Rightarrow> (int \<rightharpoonup> string) \<Rightarrow> instant \<Rightarrow> date \<Rightarrow> int list \<Rightarrow> budget_db \<Rightarrow>
   budget_error + (alert_counts \<times> budget_db)" where
  "alert_run_once fetch_overview names now today thresholds db =
     bindE (list_open_for_period (year today) (month today) db) (\<lambda>candidates.
     Inr (fold (alert_one fetch_overview names now today thresholds) candidates
            (\<lparr>ac_budgets = length candidates, ac_events = 0, ac_failed_upstream = 0, ac_failed_unexpected = 0\<rparr>, db)))"

end
