(* ===== verification/MonthlyBudgetProofs.thy ===== *)
theory MonthlyBudgetProofs
  imports MonthlyBudget
begin

text \<open>
  What budget-service promises: the table invariant, that a month is closed at most once even when several closers
  read before either writes, what a closed month announces, which alerts a budget raises, and what a sweep of
  the scheduler does.
\<close>

section \<open>The table invariant\<close>

definition line_rows_ok :: "line_row list \<Rightarrow> bool" where
  "line_rows_ok ls \<longleftrightarrow> distinct (map lr_category ls) \<and> (\<forall>l \<in> set ls. 0 \<le> lr_cents l \<and> lr_cents l < numeric_limit \<and> lr_category l \<noteq> 0)"

definition mb_row_ok :: "mb_row \<Rightarrow> bool" where
  "mb_row_ok r \<longleftrightarrow> 1 \<le> mr_month r \<and> mr_month r \<le> 12 \<and> 2000 \<le> mr_year r \<and> mr_year r \<le> 9999 \<and> mr_account r \<noteq> 0 \<and>
     line_rows_ok (mr_lines r)"

definition mb_key :: "mb_row \<Rightarrow> int \<times> int \<times> int" where
  "mb_key r = (mr_account r, mr_month r, mr_year r)"

lemma mb_key_update [simp]: "mb_key (r\<lparr>mr_lines := ls\<rparr>) = mb_key r" "mb_key (r\<lparr>mr_closed_at := t\<rparr>) = mb_key r"
  by (simp_all add: mb_key_def)

definition budgets_ok :: "budget_db \<Rightarrow> bool" where
  "budgets_ok db \<longleftrightarrow> distinct (map mr_id (bd_budgets db)) \<and> distinct (map mb_key (bd_budgets db)) \<and>
     (\<forall>r \<in> set (bd_budgets db). mb_row_ok r \<and> mr_id r < bd_next_id db)"

text \<open>A row of the table always makes an entity.\<close>

definition entity_of :: "mb_row \<Rightarrow> monthly_budget" where
  "entity_of r =
     \<lparr>mb_id = Some (mr_id r), mb_month = mr_month r, mb_year = mr_year r, mb_account = mr_account r, mb_user = mr_user r,
      mb_lines = map (\<lambda>l. \<lparr>ln_id = Some (lr_id l), ln_category = lr_category l, ln_amount = fl (of_int (lr_cents l) / 100)\<rparr>) (mr_lines r),
      mb_created_at = Some (mr_created_at r), mb_closed_at = mr_closed_at r\<rparr>"

lemma mapE_Inr: "(\<And>x. x \<in> set xs \<Longrightarrow> f x = Inr (g x)) \<Longrightarrow> mapE f xs = Inr (map g xs)"
  by (induction xs) auto

lemma mapE_eq_Inr: "mapE f xs = Inr ys \<longleftrightarrow> length ys = length xs \<and> (\<forall>i < length xs. f (xs ! i) = Inr (ys ! i))"
proof (induction xs arbitrary: ys)
  case (Cons x xs)
  show ?case
    by (cases ys) (auto simp: result_simps Cons.IH less_Suc_eq_0_disj)
qed auto

lemma mb_to_entity_ok: "mb_row_ok r \<Longrightarrow> mb_to_entity r = Inr (entity_of r)"
proof -
  assume ok: "mb_row_ok r"
  have "mapE (\<lambda>l. make_budget_line (Some (lr_id l)) (lr_category l) (fl (of_int (lr_cents l) / 100))) (mr_lines r) =
    Inr (map (\<lambda>l. \<lparr>ln_id = Some (lr_id l), ln_category = lr_category l, ln_amount = fl (of_int (lr_cents l) / 100)\<rparr>) (mr_lines r))"
  proof (rule mapE_Inr)
    fix l assume "l \<in> set (mr_lines r)"
    then have "0 \<le> lr_cents l" "lr_category l \<noteq> 0" using ok by (auto simp: mb_row_ok_def line_rows_ok_def)
    then show "make_budget_line (Some (lr_id l)) (lr_category l) (fl (of_int (lr_cents l) / 100)) =
      Inr \<lparr>ln_id = Some (lr_id l), ln_category = lr_category l, ln_amount = fl (of_int (lr_cents l) / 100)\<rparr>"
      using fl_nonneg [of "of_int (lr_cents l) / 100"] by (simp add: make_budget_line_def)
  qed
  then show ?thesis using ok by (simp add: mb_to_entity_def entity_of_def make_monthly_budget_def mb_row_ok_def)
qed

lemma repr_decimal_nonneg: "0 \<le> x \<Longrightarrow> 0 \<le> repr_decimal x"
proof -
  have pos: "0 < scale10 e" for e by (simp add: scale10_def)
  have d: "0 \<le> c" if c: "c \<in> set (decimals_of_length k x)" and x: "0 \<le> x" for c k
  proof -
    define s where "s = scale10 (int k - 1 - exponent10 x)"
    have s: "0 < s" by (simp add: s_def pos)
    have y: "0 \<le> x * s" using x s by simp
    then have "0 \<le> \<lfloor>x * s\<rfloor>" "0 \<le> \<lceil>x * s\<rceil>" by (simp, linarith)
    moreover have "c = of_int \<lfloor>x * s\<rfloor> / s \<or> c = of_int \<lceil>x * s\<rceil> / s"
      using c unfolding decimals_of_length_def Let_def s_def [symmetric] by (auto split: if_split_asm)
    ultimately show ?thesis using s by auto
  qed
  have "0 \<le> shortest_decimal ks x" if "0 \<le> x" for ks
  proof (induction ks)
    case (Cons k ks)
    then show ?case using d [of _ k] that by (auto split: list.splits)
  qed (use that in simp)
  then show "0 \<le> x \<Longrightarrow> ?thesis" by (simp add: repr_decimal_def)
qed

lemma line_rows_wf:
  assumes "line_rows n ls = Inr rs" and "\<forall>l \<in> set ls. 0 \<le> ln_amount l \<and> ln_category l \<noteq> 0"
  shows "line_rows_ok rs \<and> length rs = length ls \<and> map lr_category rs = map ln_category ls"
proof -
  let ?c = "\<lambda>l. numeric_cents (repr_decimal (ln_amount l))"
  have c: "\<not> list_ex (\<lambda>c. \<bar>c\<bar> \<ge> numeric_limit) (map ?c ls)" and d: "distinct (map ln_category ls)"
    and rs: "rs = map2 (\<lambda>i (l, c). \<lparr>lr_id = n + int i, lr_category = ln_category l, lr_cents = c\<rparr>) [0..<length ls] (zip ls (map ?c ls))"
    using assms(1) unfolding line_rows_def Let_def by (metis sum.distinct(1) sum.inject(2))+
  have lim: "\<bar>?c l\<bar> < numeric_limit" if "l \<in> set ls" for l using c that by (auto simp: list_ex_iff)
  have len: "length rs = length ls" by (simp add: rs)
  have nth: "rs ! i = \<lparr>lr_id = n + int i, lr_category = ln_category (ls ! i), lr_cents = ?c (ls ! i)\<rparr>" if "i < length ls" for i
    using that by (simp add: rs)
  have cats: "map lr_category rs = map ln_category ls"
    by (rule nth_equalityI) (simp_all add: len nth)
  have "0 \<le> lr_cents r \<and> lr_cents r < numeric_limit \<and> lr_category r \<noteq> 0" if "r \<in> set rs" for r
  proof -
    from that have "\<exists>i < length ls. rs ! i = r" by (simp only: in_set_conv_nth len)
    then obtain i where i: "i < length ls" "rs ! i = r" by (elim exE conjE)
    have l: "ls ! i \<in> set ls" using i(1) by simp
    have "0 \<le> repr_decimal (ln_amount (ls ! i))" using assms(2) l by (intro repr_decimal_nonneg) simp
    then have "0 \<le> ?c (ls ! i)" by (simp add: numeric_cents_def)
    then show ?thesis using i nth [OF i(1)] lim [OF l] assms(2) l by auto
  qed
  then show ?thesis using d len cats by (simp add: line_rows_ok_def)
qed

section \<open>How the operations change the table\<close>

lemma make_budget_line_Inr [simp]:
  "make_budget_line i c a = Inr l \<longleftrightarrow> 0 \<le> a \<and> c \<noteq> 0 \<and> l = \<lparr>ln_id = i, ln_category = c, ln_amount = a\<rparr>"
  by (auto simp: make_budget_line_def)

definition lines_nonneg :: "budget_line list \<Rightarrow> bool" where
  "lines_nonneg ls \<longleftrightarrow> (\<forall>l \<in> set ls. 0 \<le> ln_amount l \<and> ln_category l \<noteq> 0)"

lemma dto_lines_nonneg: "mapE (\<lambda>(c, a). make_budget_line None c a) ds = Inr ls \<Longrightarrow> lines_nonneg ls"
  by (induction ds arbitrary: ls) (auto simp: result_simps lines_nonneg_def split: prod.splits)

lemma new_budget_Inr:
  assumes "new_budget mon yr a u ds = Inr b"
  shows "lines_nonneg (mb_lines b) \<and> mb_month b = mon \<and> mb_year b = yr \<and> mb_account b = a \<and> mb_user b = u \<and>
    1 \<le> mon \<and> mon \<le> 12 \<and> 2000 \<le> yr \<and> yr \<le> 9999 \<and> a \<noteq> 0"
  using assms
  by (auto simp: new_budget_def result_simps make_monthly_budget_def dest: dto_lines_nonneg split: if_splits)

lemma mb_create_effect:
  assumes ok: "budgets_ok db" and b: "new_budget mon yr a u ds = Inr b" and c: "mb_create now b db = Inr (e, db')"
  obtains r where "db' = db\<lparr>bd_budgets := bd_budgets db @ [r], bd_next_id := bd_next_id db + 1, bd_next_line_id := bd_next_line_id db'\<rparr>"
    "mr_id r = bd_next_id db" "mr_closed_at r = None" "mb_row_ok r" "mb_key r \<notin> set (map mb_key (bd_budgets db))" "e = entity_of r"
    "mr_account r = a" "mr_month r = mon" "mr_year r = yr" "mr_user r = u"
proof -
  note nb = new_budget_Inr [OF b]
  obtain ls where free: "\<not> list_ex (\<lambda>r. mr_account r = mb_account b \<and> mr_month r = mb_month b \<and> mr_year r = mb_year b) (bd_budgets db)"
    and ls: "line_rows (bd_next_line_id db) (mb_lines b) = Inr ls"
    using c by (auto simp: mb_create_def result_simps split: if_splits)
  let ?r = "\<lparr>mr_id = bd_next_id db, mr_month = mb_month b, mr_year = mb_year b, mr_account = mb_account b,
    mr_user = mb_user b, mr_lines = ls, mr_created_at = now, mr_closed_at = None\<rparr>"
  have "line_rows_ok ls" using line_rows_wf [OF ls] nb by (simp add: lines_nonneg_def)
  then have row: "mb_row_ok ?r" using nb by (simp add: mb_row_ok_def)
  have "db' = db\<lparr>bd_budgets := bd_budgets db @ [?r], bd_next_id := bd_next_id db + 1, bd_next_line_id := bd_next_line_id db + int (length ls)\<rparr>"
    "e = entity_of ?r"
    using c free ls mb_to_entity_ok [OF row] by (simp_all add: mb_create_def Let_def)
  moreover have "mb_key ?r \<notin> set (map mb_key (bd_budgets db))" using free by (auto simp: list_ex_iff mb_key_def)
  ultimately show thesis using row nb by (intro that [of ?r]) simp_all
qed

lemma mb_update_effect:
  assumes ok: "budgets_ok db" and l: "lines_nonneg (mb_lines b)" and c: "mb_update b db = Inr (e, db')"
  obtains r ls where "r \<in> set (bd_budgets db)" "mb_id b = Some (mr_id r)" "line_rows_ok ls"
    "db' = db\<lparr>bd_budgets := update_where (\<lambda>x. mr_id x = mr_id r) (\<lambda>_. r\<lparr>mr_lines := ls\<rparr>) (bd_budgets db), bd_next_line_id := bd_next_line_id db'\<rparr>"
proof -
  obtain r where f: "List.find (\<lambda>r. Some (mr_id r) = mb_id b) (bd_budgets db) = Some r"
    using c by (cases "List.find (\<lambda>r. Some (mr_id r) = mb_id b) (bd_budgets db)") (auto simp: mb_update_def)
  then have r: "r \<in> set (bd_budgets db)" "mb_id b = Some (mr_id r)" using find_Some_mem [OF f] by auto
  obtain ls where ls: "line_rows (bd_next_line_id db) (mb_lines b) = Inr ls"
    using c f by (auto simp: mb_update_def result_simps)
  have "line_rows_ok ls" using line_rows_wf [OF ls] l by (simp add: lines_nonneg_def)
  moreover from this have "mb_row_ok (r\<lparr>mr_lines := ls\<rparr>)" using ok r(1) by (simp add: budgets_ok_def mb_row_ok_def)
  moreover have "db' = db\<lparr>bd_budgets := update_where (\<lambda>x. mr_id x = mr_id r) (\<lambda>_. r\<lparr>mr_lines := ls\<rparr>) (bd_budgets db),
      bd_next_line_id := bd_next_line_id db + int (length ls)\<rparr>"
    using c f ls mb_to_entity_ok [OF calculation(2)] by (simp add: mb_update_def Let_def)
  ultimately show thesis using r by (intro that [of r ls]) simp_all
qed

text \<open>The same rows with the same ids and keys, possibly fewer of them, keep the invariant.\<close>

lemma budgets_ok_map:
  assumes "budgets_ok db" and "bd_next_id db' = bd_next_id db" and "bd_budgets db' = map g (filter P (bd_budgets db))"
    and "\<And>r. r \<in> set (bd_budgets db) \<Longrightarrow> mr_id (g r) = mr_id r \<and> mb_key (g r) = mb_key r \<and> mb_row_ok (g r)"
  shows "budgets_ok db'"
proof -
  have i: "map mr_id (map g (filter P (bd_budgets db))) = map mr_id (filter P (bd_budgets db))"
    and k: "map mb_key (map g (filter P (bd_budgets db))) = map mb_key (filter P (bd_budgets db))"
    using assms(4) by (simp_all del: prod.inject)
  have "distinct (map mr_id (bd_budgets db'))" "distinct (map mb_key (bd_budgets db'))"
    unfolding assms(3) i k using assms(1) by (simp_all add: budgets_ok_def distinct_map_filter)
  then show ?thesis using assms by (auto simp: budgets_ok_def)
qed

lemma mb_update_budgets_ok:
  assumes "budgets_ok db" and "lines_nonneg (mb_lines b)" and "mb_update b db = Inr (e, db')"
  shows "budgets_ok db'"
proof -
  obtain r ls where r: "r \<in> set (bd_budgets db)" "line_rows_ok ls"
    and db': "db' = db\<lparr>bd_budgets := update_where (\<lambda>x. mr_id x = mr_id r) (\<lambda>_. r\<lparr>mr_lines := ls\<rparr>) (bd_budgets db), bd_next_line_id := bd_next_line_id db'\<rparr>"
    using mb_update_effect [OF assms] by metis
  have same: "x = r" if "x \<in> set (bd_budgets db)" "mr_id x = mr_id r" for x
    using assms(1) r(1) that by (auto simp: budgets_ok_def distinct_map inj_on_def)
  show ?thesis
  proof (rule budgets_ok_map [OF assms(1), where P = "\<lambda>_. True" and g = "\<lambda>x. if mr_id x = mr_id r then r\<lparr>mr_lines := ls\<rparr> else x"])
    show "bd_next_id db' = bd_next_id db" by (subst db') simp
    show "bd_budgets db' = map (\<lambda>x. if mr_id x = mr_id r then r\<lparr>mr_lines := ls\<rparr> else x) (filter (\<lambda>_. True) (bd_budgets db))"
      by (subst db') (simp add: update_where_def)
    fix x assume x: "x \<in> set (bd_budgets db)"
    then have "mb_row_ok x" using assms(1) by (simp add: budgets_ok_def)
    then show "mr_id (if mr_id x = mr_id r then r\<lparr>mr_lines := ls\<rparr> else x) = mr_id x \<and>
      mb_key (if mr_id x = mr_id r then r\<lparr>mr_lines := ls\<rparr> else x) = mb_key x \<and>
      mb_row_ok (if mr_id x = mr_id r then r\<lparr>mr_lines := ls\<rparr> else x)"
      using same [OF x] r(2) by (auto simp: mb_row_ok_def)
  qed
qed

lemma mb_create_budgets_ok:
  assumes "budgets_ok db" and "new_budget mon yr a u ds = Inr b" and "mb_create now b db = Inr (e, db')"
  shows "budgets_ok db'"
proof -
  obtain r where r: "db' = db\<lparr>bd_budgets := bd_budgets db @ [r], bd_next_id := bd_next_id db + 1, bd_next_line_id := bd_next_line_id db'\<rparr>"
    "mr_id r = bd_next_id db" "mb_row_ok r" "mb_key r \<notin> set (map mb_key (bd_budgets db))"
    by (rule mb_create_effect [OF assms])
  show ?thesis
    using assms(1) r(2-4) by (subst r(1)) (auto simp: budgets_ok_def)
qed

lemma mb_delete_budgets_ok: "budgets_ok db \<Longrightarrow> budgets_ok (snd (mb_delete i a u db))"
  by (rule budgets_ok_map [where g = "\<lambda>r. r"]) (auto simp: mb_delete_def Let_def budgets_ok_def)

lemma mark_closed_budgets_ok: "budgets_ok db \<Longrightarrow> budgets_ok (snd (mark_closed now i db))"
  by (rule budgets_ok_map [where P = "\<lambda>_. True"
      and g = "\<lambda>r. if Some (mr_id r) = i \<and> mr_closed_at r = None then r\<lparr>mr_closed_at := Some now\<rparr> else r"])
    (auto simp: mark_closed_def Let_def update_where_def budgets_ok_def mb_row_ok_def)

section \<open>A month is closed once\<close>

fun is_month_closed :: "budget_event \<Rightarrow> bool" where
  "is_month_closed (MonthClosed _) = True"
| "is_month_closed _ = False"

text \<open>The closings announced for the budget with this id.\<close>

definition closings :: "int \<Rightarrow> budget_db \<Rightarrow> budget_event list" where
  "closings n db = map ob_payload (filter (\<lambda>x. is_month_closed (ob_payload x) \<and> ob_aggregate_id x = show_int n) (bd_outbox db))"

definition event_key :: "month_closed_event \<Rightarrow> int \<times> int \<times> int" where
  "event_key e = (mc_account_id e, mc_month e, mc_year e)"

definition closings_ok :: "budget_db \<Rightarrow> bool" where
  "closings_ok db \<longleftrightarrow>
     (\<forall>n. length (closings n db) \<le> 1) \<and> (\<forall>n \<ge> bd_next_id db. closings n db = []) \<and>
     (\<forall>r \<in> set (bd_budgets db). (mr_closed_at r = None \<longrightarrow> closings (mr_id r) db = []) \<and>
        (mr_closed_at r \<noteq> None \<longrightarrow> (\<exists>e. closings (mr_id r) db = [MonthClosed e] \<and> event_key e = mb_key r)))"

text \<open>What a closer has read and not yet written.\<close>

type_synonym pending_close = "int option \<times> month_closed_event"

definition pending_ok :: "budget_db \<Rightarrow> pending_close \<Rightarrow> bool" where
  "pending_ok db p \<longleftrightarrow>
     (\<exists>n. fst p = Some n \<and> n < bd_next_id db \<and> (\<forall>r \<in> set (bd_budgets db). mr_id r = n \<longrightarrow> event_key (snd p) = mb_key r))"

definition closers_ok :: "budget_db \<times> pending_close list \<Rightarrow> bool" where
  "closers_ok s \<longleftrightarrow> budgets_ok (fst s) \<and> closings_ok (fst s) \<and> list_all (pending_ok (fst s)) (snd s)"

text \<open>Operations that announce no closing and keep ids, keys and closing times keep the invariant.\<close>

lemma closers_frame:
  assumes ok: "closers_ok (db, ps)" and ok': "budgets_ok db'" and nx: "bd_next_id db \<le> bd_next_id db'"
    and ob: "\<And>n. closings n db' = closings n db"
    and rows: "\<And>r'. r' \<in> set (bd_budgets db') \<Longrightarrow>
      (\<exists>r \<in> set (bd_budgets db). mr_id r' = mr_id r \<and> mb_key r' = mb_key r \<and> mr_closed_at r' = mr_closed_at r) \<or>
      bd_next_id db \<le> mr_id r' \<and> mr_closed_at r' = None"
  shows "closers_ok (db', ps)"
proof -
  have c: "closings_ok db" and p: "list_all (pending_ok db) ps" using ok by (simp_all add: closers_ok_def)
  have "closings_ok db'"
    unfolding closings_ok_def ob
  proof (intro conjI allI ballI impI)
    fix n show "length (closings n db) \<le> 1" using c by (simp add: closings_ok_def)
  next
    fix n assume "bd_next_id db' \<le> n"
    then show "closings n db = []" using c nx by (simp add: closings_ok_def)
  next
    fix r' assume r': "r' \<in> set (bd_budgets db')"
    {
      assume "mr_closed_at r' = None"
      then show "closings (mr_id r') db = []" using rows [OF r'] c by (auto simp: closings_ok_def)
    next
      assume "mr_closed_at r' \<noteq> None"
      then obtain r where "r \<in> set (bd_budgets db)" "mr_id r' = mr_id r" "mb_key r' = mb_key r" "mr_closed_at r \<noteq> None"
        using rows [OF r'] by auto
      then show "\<exists>e. closings (mr_id r') db = [MonthClosed e] \<and> event_key e = mb_key r'"
        using c unfolding closings_ok_def by metis
    }
  qed
  moreover have "pending_ok db' x" if px: "pending_ok db x" for x
  proof -
    obtain n where n: "fst x = Some n" "n < bd_next_id db" "\<And>r. r \<in> set (bd_budgets db) \<Longrightarrow> mr_id r = n \<Longrightarrow> event_key (snd x) = mb_key r"
      using px unfolding pending_ok_def by blast
    have "event_key (snd x) = mb_key r'" if "r' \<in> set (bd_budgets db')" "mr_id r' = n" for r'
      using rows [OF that(1)] n(2,3) that(2) by force
    then show ?thesis using n nx by (auto simp: pending_ok_def)
  qed
  ultimately show ?thesis using ok' p by (auto simp: closers_ok_def list_all_iff)
qed

lemma closings_same_outbox: "bd_outbox db' = bd_outbox db \<Longrightarrow> closings n db' = closings n db"
  by (simp add: closings_def)

lemma create_closers:
  assumes "closers_ok (db, ps)" and "new_budget mon yr a u ds = Inr b" and "mb_create now b db = Inr (e, db')"
  shows "closers_ok (db', ps)"
proof -
  have ok: "budgets_ok db" using assms(1) by (simp add: closers_ok_def)
  obtain r where r: "db' = db\<lparr>bd_budgets := bd_budgets db @ [r], bd_next_id := bd_next_id db + 1, bd_next_line_id := bd_next_line_id db'\<rparr>"
    "mr_id r = bd_next_id db" "mr_closed_at r = None"
    by (rule mb_create_effect [OF ok assms(2,3)])
  have f: "bd_outbox db' = bd_outbox db" "bd_next_id db' = bd_next_id db + 1" "bd_budgets db' = bd_budgets db @ [r]"
    by (subst r(1), simp)+
  show ?thesis
    by (rule closers_frame [OF assms(1) mb_create_budgets_ok [OF ok assms(2,3)]]) (use f r(2,3) closings_same_outbox [OF f(1)] in auto)
qed

lemma update_closers:
  assumes "closers_ok (db, ps)" and "lines_nonneg (mb_lines b)" and "mb_update b db = Inr (e, db')"
  shows "closers_ok (db', ps)"
proof -
  have ok: "budgets_ok db" using assms(1) by (simp add: closers_ok_def)
  obtain r ls where r: "r \<in> set (bd_budgets db)"
    and db': "db' = db\<lparr>bd_budgets := update_where (\<lambda>x. mr_id x = mr_id r) (\<lambda>_. r\<lparr>mr_lines := ls\<rparr>) (bd_budgets db), bd_next_line_id := bd_next_line_id db'\<rparr>"
    using mb_update_effect [OF ok assms(2,3)] by metis
  have f: "bd_outbox db' = bd_outbox db" "bd_next_id db' = bd_next_id db"
    "set (bd_budgets db') = (\<lambda>x. if mr_id x = mr_id r then r\<lparr>mr_lines := ls\<rparr> else x) ` set (bd_budgets db)"
    by (subst db', simp add: set_update_where)+
  show ?thesis
    by (rule closers_frame [OF assms(1) mb_update_budgets_ok [OF ok assms(2,3)]]) (use f r closings_same_outbox [OF f(1)] in auto)
qed

lemma delete_closers: "closers_ok (db, ps) \<Longrightarrow> closers_ok (snd (mb_delete i a u db), ps)"
  by (rule closers_frame [of db ps], assumption, rule mb_delete_budgets_ok)
    (auto simp: closers_ok_def mb_delete_def Let_def closings_def)

text \<open>The conditional update: only an open budget is closed, and with it exactly one event is written.\<close>

lemma write_closers:
  assumes "closers_ok (db, ps)" and p: "(i, ev) \<in> set ps" and w: "close_write now i ev db = Inr db'"
    and sub: "set ps' \<subseteq> set ps"
  shows "closers_ok (db', ps')"
proof -
  have ok: "budgets_ok db" and c: "closings_ok db" and pend: "\<And>x. x \<in> set ps \<Longrightarrow> pending_ok db x"
    using assms(1) by (auto simp: closers_ok_def list_all_iff)
  obtain n where i: "i = Some n" and key: "\<And>r. r \<in> set (bd_budgets db) \<Longrightarrow> mr_id r = n \<Longrightarrow> event_key ev = mb_key r"
    using pend [OF p] by (auto simp: pending_ok_def)
  let ?hit = "\<lambda>r. mr_id r = n \<and> mr_closed_at r = None"
  have ex: "list_ex ?hit (bd_budgets db)"
    and db': "db' = (snd (mark_closed now i db))\<lparr>bd_outbox := ob_add now ''budget.month_closed'' (MonthClosed ev) (mc_correlation_id ev)
      ''monthly_budget'' (show_int n) (bd_outbox db)\<rparr>"
    using w by (auto simp: close_write_def mark_closed_def Let_def i show_budget_id_def split: if_splits)
  obtain r0 where r0: "r0 \<in> set (bd_budgets db)" "mr_id r0 = n" "mr_closed_at r0 = None" using ex by (auto simp: list_ex_iff)
  have none: "closings n db = []" using c r0 by (auto simp: closings_ok_def)
  have cl: "closings m db' = closings m db @ (if m = n then [MonthClosed ev] else [])" for m
    by (simp add: db' closings_def ob_add_def ob_build_def eq_commute)
  have rows: "set (bd_budgets db') = (\<lambda>r. if ?hit r then r\<lparr>mr_closed_at := Some now\<rparr> else r) ` set (bd_budgets db)"
    by (simp add: db' mark_closed_def Let_def i set_update_where)
  have nxt: "bd_next_id db' = bd_next_id db" by (simp add: db' mark_closed_def Let_def)
  have ok': "budgets_ok db'" using mark_closed_budgets_ok [OF ok, of now i] by (simp add: db' budgets_ok_def)
  have uniq: "r = r0" if "r \<in> set (bd_budgets db)" "mr_id r = n" for r
    using ok r0 that by (auto simp: budgets_ok_def distinct_map inj_on_def)
  have "closings_ok db'"
    unfolding closings_ok_def cl nxt
  proof (intro conjI allI ballI impI)
    fix m show "length (closings m db @ (if m = n then [MonthClosed ev] else [])) \<le> 1"
      using c none by (simp add: closings_ok_def)
  next
    fix m assume m: "bd_next_id db \<le> m"
    moreover have "n < bd_next_id db" using r0 ok by (auto simp: budgets_ok_def)
    ultimately show "closings m db @ (if m = n then [MonthClosed ev] else []) = []" using c by (simp add: closings_ok_def)
  next
    fix r' assume "r' \<in> set (bd_budgets db')"
    then obtain r where r: "r \<in> set (bd_budgets db)" "r' = (if ?hit r then r\<lparr>mr_closed_at := Some now\<rparr> else r)"
      by (auto simp: rows)
    have "mr_id r' = mr_id r" using r(2) by (cases "?hit r") simp_all
    then have n_iff: "mr_id r' = n \<Longrightarrow> r = r0" using uniq [OF r(1)] by simp
    {
      assume opn: "mr_closed_at r' = None"
      then have nh: "\<not> ?hit r" using r(2) by (cases "?hit r") simp_all
      then have eq: "r' = r" using r(2) by (simp only: if_False)
      have "mr_id r' \<noteq> n" using nh opn unfolding eq by simp
      then show "closings (mr_id r') db @ (if mr_id r' = n then [MonthClosed ev] else []) = []"
        using c r(1) opn unfolding eq closings_ok_def by simp
    next
      assume cls: "mr_closed_at r' \<noteq> None"
      show "\<exists>e. closings (mr_id r') db @ (if mr_id r' = n then [MonthClosed ev] else []) = [MonthClosed e] \<and> event_key e = mb_key r'"
      proof (cases "mr_id r' = n")
        case True
        have "mb_key r' = mb_key r" using r(2) by (cases "?hit r") simp_all
        then have "event_key ev = mb_key r'" using key [OF r0(1,2)] n_iff [OF True] by simp
        then show ?thesis using True none by simp
      next
        case False
        then have eq: "r' = r" using r(2) by (cases "?hit r") simp_all
        obtain e where "closings (mr_id r) db = [MonthClosed e]" "event_key e = mb_key r"
          using c r(1) cls unfolding eq closings_ok_def by blast
        then show ?thesis using False unfolding eq by simp
      qed
    }
  qed
  moreover have "pending_ok db' x" if "x \<in> set ps" for x
    using pend [OF that] by (force simp: pending_ok_def nxt rows)
  ultimately show ?thesis using sub ok' by (auto simp: closers_ok_def list_all_iff)
qed

section \<open>Interleaved use cases\<close>

text \<open>
  The requests of the API and the schedulers, with what the other services answer; a close is two operations, so
  that several closers can read before one of them writes.
\<close>

datatype budget_op =
    BCreate "int \<Rightarrow> bool" "int \<rightharpoonup> string" instant int int int int "line_dto list"
  | BUpdate "int \<Rightarrow> bool" "int \<rightharpoonup> string" int int int "line_dto list"
  | BDelete int int int
  | BCopy "int \<rightharpoonup> string" instant int int int int int int
  | BAlerts overview_port "int \<rightharpoonup> string" instant date "int list" int monthly_budget
  | BCloseRead overview_port int int int int int
  | BCloseWrite instant nat

definition keep_or :: "budget_db \<Rightarrow> budget_error + ('a \<times> budget_db) \<Rightarrow> budget_db" where
  "keep_or db r = (case r of Inl _ \<Rightarrow> db | Inr (_, db') \<Rightarrow> db')"

fun apply_budget_op :: "budget_op \<Rightarrow> budget_db \<times> pending_close list \<Rightarrow> budget_db \<times> pending_close list" where
  "apply_budget_op (BCreate ex names now a u m y ls) (db, ps) = (keep_or db (create_budget ex names now a u m y ls db), ps)"
| "apply_budget_op (BUpdate ex names i a u ls) (db, ps) = (keep_or db (update_budget ex names i a u ls db), ps)"
| "apply_budget_op (BDelete i a u) (db, ps) = (snd (delete_budget i a u db), ps)"
| "apply_budget_op (BCopy names now a u sm sy tm ty) (db, ps) = (keep_or db (copy_to_month names now a u sm sy tm ty db), ps)"
| "apply_budget_op (BAlerts ov names now today ts sd b) (db, ps) = (keep_or db (evaluate_alerts ov names now today ts sd b db), ps)"
| "apply_budget_op (BCloseRead ov a y m sd u) (db, ps) =
     (db, (case close_read ov a y m sd u db of Inl _ \<Rightarrow> ps | Inr p \<Rightarrow> ps @ [p]))"
| "apply_budget_op (BCloseWrite now k) (db, ps) =
     (if k < length ps
      then ((case close_write now (fst (ps ! k)) (snd (ps ! k)) db of Inl _ \<Rightarrow> db | Inr db' \<Rightarrow> db'), take k ps @ drop (Suc k) ps)
      else (db, ps))"

definition empty_budget_db :: budget_db where
  "empty_budget_db = \<lparr>bd_budgets = [], bd_next_id = 1, bd_next_line_id = 1, bd_outbox = []\<rparr>"

inductive budget_reach :: "budget_db \<times> pending_close list \<Rightarrow> bool" where
  budget_init: "budget_reach (empty_budget_db, [])"
| budget_step: "budget_reach s \<Longrightarrow> budget_reach (apply_budget_op op s)"

lemma get_by_account_and_period_Inr:
  assumes "budgets_ok db"
  shows "\<exists>x. get_by_account_and_period a m y u db = Inr x \<and>
    (case x of None \<Rightarrow> \<forall>r \<in> set (bd_budgets db). mr_user r = u \<longrightarrow> mb_key r \<noteq> (a, m, y)
     | Some b \<Rightarrow> \<exists>r \<in> set (bd_budgets db). b = entity_of r \<and> mr_user r = u \<and> mb_key r = (a, m, y))"
proof -
  let ?P = "\<lambda>r. mr_account r = a \<and> mr_month r = m \<and> mr_year r = y \<and> mr_user r = u"
  have d: "distinct (map mb_key (filter ?P (bd_budgets db)))" using assms by (simp add: budgets_ok_def distinct_map_filter)
  have P: "mb_key r = (a, m, y) \<and> mr_user r = u" "r \<in> set (bd_budgets db)" "mb_row_ok r"
    if "r \<in> set (filter ?P (bd_budgets db))" for r
    using that assms by (auto simp: mb_key_def budgets_ok_def)
  show ?thesis
  proof (cases "filter ?P (bd_budgets db)")
    case Nil
    then have "\<forall>r \<in> set (bd_budgets db). \<not> ?P r" by (simp add: filter_empty_conv)
    then show ?thesis using Nil by (auto simp: get_by_account_and_period_def one_or_none_def mb_key_def)
  next
    case (Cons r rs)
    have "rs = []"
    proof (cases rs)
      case (Cons r' rs')
      then have "mb_key r = mb_key r'" using P(1) [of r] P(1) [of r'] \<open>filter ?P (bd_budgets db) = r # rs\<close> by simp
      then show ?thesis using d Cons \<open>filter ?P (bd_budgets db) = r # rs\<close> by simp
    qed simp
    then show ?thesis
      using Cons P [of r] mb_to_entity_ok [of r] by (auto simp: get_by_account_and_period_def one_or_none_def)
  qed
qed

lemma close_read_pending:
  assumes ok: "budgets_ok db" and r: "close_read ov a y m sd u db = Inr p"
  shows "pending_ok db p"
proof -
  obtain b where b: "get_by_account_and_period a m y u db = Inr (Some b)"
    using r get_by_account_and_period_Inr [OF ok, of a m y u] by (auto simp: close_read_def split: option.splits)
  then obtain row where row: "row \<in> set (bd_budgets db)" "b = entity_of row" "mb_key row = (a, m, y)"
    using get_by_account_and_period_Inr [OF ok, of a m y u] by auto
  have p: "fst p = mb_id b" "event_key (snd p) = (a, m, y)"
    using r b by (auto simp: close_read_def result_simps Let_def event_key_def split: prod.splits if_splits)
  have "event_key (snd p) = mb_key r'" if "r' \<in> set (bd_budgets db)" "mr_id r' = mr_id row" for r'
  proof -
    have "r' = row" using ok row(1) that by (auto simp: budgets_ok_def distinct_map inj_on_def)
    then show ?thesis using row(3) p(2) by simp
  qed
  moreover have "fst p = Some (mr_id row)" using p(1) row(2) by (simp add: entity_of_def)
  moreover have "mr_id row < bd_next_id db" using ok row(1) by (simp add: budgets_ok_def)
  ultimately show ?thesis unfolding pending_ok_def by blast
qed

lemma ob_add_batch_closings:
  "\<forall>e \<in> set es. \<not> is_month_closed (fst (snd e)) \<Longrightarrow>
   closings n (db\<lparr>bd_outbox := ob_add_batch now es t i ob\<rparr>) = closings n (db\<lparr>bd_outbox := ob\<rparr>)"
  unfolding ob_add_batch_def
proof (induction es arbitrary: ob)
  case (Cons e es)
  obtain a b c where e: "e = (a, b, c)" by (cases e)
  have "closings n (db\<lparr>bd_outbox := ob_add now a b c t i ob\<rparr>) = closings n (db\<lparr>bd_outbox := ob\<rparr>)"
    using Cons.prems e by (simp add: closings_def ob_add_def ob_build_def)
  then show ?case using Cons e by simp
qed simp

lemma alerts_closers:
  assumes "closers_ok (db, ps)" and "evaluate_alerts ov names now today ts sd b db = Inr (es, db')"
  shows "closers_ok (db', ps)"
proof -
  consider "db' = db" | es where "db' = db\<lparr>bd_outbox := ob_add_batch now
      (map (\<lambda>e. (''budget.line_threshold_crossed'', LineThresholdCrossed e, None)) es) ''monthly_budget'' (show_budget_id (mb_id b)) (bd_outbox db)\<rparr>"
    using assms(2) by (auto simp: evaluate_alerts_def result_simps Let_def simp del: map_map split: if_splits prod.splits)
  then show ?thesis
  proof cases
    case (2 es)
    show ?thesis
    proof (rule closers_frame [OF assms(1)])
      show "budgets_ok db'" using assms(1) by (simp add: 2 closers_ok_def budgets_ok_def)
      fix n show "closings n db' = closings n db"
        by (subst 2, subst ob_add_batch_closings) auto
    qed (auto simp: 2)
  qed (use assms(1) in simp)
qed

lemma closers_step:
  assumes "closers_ok s"
  shows "closers_ok (apply_budget_op op s)"
proof -
  obtain db ps where s: "s = (db, ps)" by (cases s)
  have ok: "closers_ok (db, ps)" using assms s by simp
  then have b: "budgets_ok db" by (simp add: closers_ok_def)
  show ?thesis
  proof (cases op)
    case (BCreate ex names now a u m y ls)
    have "closers_ok (db', ps)" if "create_budget ex names now a u m y ls db = Inr (r, db')" for r db'
      using that create_closers [OF ok] by (auto simp: create_budget_def result_simps split: if_splits)
    then show ?thesis using ok BCreate s by (auto simp: keep_or_def split: sum.splits)
  next
    case (BUpdate ex names i a u ls)
    have "closers_ok (db', ps)" if up: "update_budget ex names i a u ls db = Inr (r, db')" for r db'
    proof -
      obtain bu xs e where "mapE (\<lambda>(c, a). make_budget_line None c a) ls = Inr xs" "mb_update (bu\<lparr>mb_lines := xs\<rparr>) db = Inr (e, db')"
        using up by (auto simp: update_budget_def result_simps split: option.splits)
      then show ?thesis using update_closers [OF ok, of "bu\<lparr>mb_lines := xs\<rparr>"] dto_lines_nonneg by simp
    qed
    then show ?thesis using ok BUpdate s by (auto simp: keep_or_def split: sum.splits)
  next
    case (BDelete i a u)
    then show ?thesis using s delete_closers [OF ok] by (simp add: delete_budget_def)
  next
    case (BCopy names now a u sm sy tm ty)
    have "closers_ok (db', ps)" if "copy_to_month names now a u sm sy tm ty db = Inr (r, db')" for r db'
      using that create_closers [OF ok] by (auto simp: copy_to_month_def result_simps split: if_splits option.splits)
    then show ?thesis using ok BCopy s by (auto simp: keep_or_def split: sum.splits)
  next
    case (BAlerts ov names now today ts sd bu)
    then show ?thesis using ok s alerts_closers [OF ok] by (auto simp: keep_or_def split: sum.splits)
  next
    case (BCloseRead ov a y m sd u)
    then show ?thesis
      using ok s close_read_pending [OF b] by (auto simp: closers_ok_def split: sum.splits)
  next
    case (BCloseWrite now k)
    have sub: "set (take k ps @ drop (Suc k) ps) \<subseteq> set ps" by (auto dest: in_set_takeD in_set_dropD)
    have drop: "closers_ok (db, take k ps @ drop (Suc k) ps)" using ok sub by (auto simp: closers_ok_def list_all_iff)
    have "closers_ok (db', take k ps @ drop (Suc k) ps)"
      if "k < length ps" "close_write now (fst (ps ! k)) (snd (ps ! k)) db = Inr db'" for db'
      using write_closers [OF ok _ that(2) sub] that(1) by simp
    then show ?thesis using ok drop BCloseWrite s by (auto split: sum.splits)
  qed
qed

lemma budget_reach_ok: "budget_reach s \<Longrightarrow> closers_ok s"
proof (induction rule: budget_reach.induct)
  case budget_init
  then show ?case by (simp add: closers_ok_def budgets_ok_def closings_ok_def closings_def empty_budget_db_def)
qed (rule closers_step)

text \<open>
  C11. A budget month is closed once: whatever users and schedulers do, and however the reads and writes of several
  closers interleave, a closed budget has exactly one month-closed event in the outbox, with its own account,
  month and year, and an open one has none; no budget id ever announces two closings.
\<close>

theorem month_closed_once:
  assumes "budget_reach (db, ps)"
  shows "(\<forall>n. length (closings n db) \<le> 1) \<and>
    (\<forall>r \<in> set (bd_budgets db). (mr_closed_at r = None \<longrightarrow> closings (mr_id r) db = []) \<and>
       (mr_closed_at r \<noteq> None \<longrightarrow> (\<exists>e. closings (mr_id r) db = [MonthClosed e] \<and> event_key e = mb_key r)))"
  using budget_reach_ok [OF assms] unfolding closers_ok_def closings_ok_def by simp

text \<open>
  The tables of budget-service stay well formed: at most one budget per account and month, unique ids, valid
  months, one line per category, and no negative or oversized amount; so reading a row never raises.
\<close>

theorem budget_tables_well_formed:
  assumes "budget_reach (db, ps)"
  shows "distinct (map mr_id (bd_budgets db)) \<and> distinct (map mb_key (bd_budgets db)) \<and>
    (\<forall>r \<in> set (bd_budgets db). mb_row_ok r \<and> mb_to_entity r = Inr (entity_of r))"
  using budget_reach_ok [OF assms] mb_to_entity_ok by (auto simp: closers_ok_def budgets_ok_def)

definition demo_budget_ops :: "budget_op list" where
  "demo_budget_ops =
     (let ov = (\<lambda>_ _ _ _. Some \<lparr>ov_buckets = [], ov_total = 0\<rparr>) in
      [BCreate (\<lambda>_. True) Map.empty 5 7 3 4 2024 [],
       BCloseRead ov 7 2024 4 1 3, BCloseRead ov 7 2024 4 1 3, BCloseWrite 8 1, BCloseWrite 9 0])"

definition demo_budget_run :: "budget_db \<times> pending_close list" where
  "demo_budget_run = fold apply_budget_op demo_budget_ops (empty_budget_db, [])"

lemma budget_reach_fold: "budget_reach s \<Longrightarrow> budget_reach (fold apply_budget_op ops s)"
  by (induction ops arbitrary: s) (simp_all add: budget_step del: split_paired_All)

lemma demo_budget_run_reach: "budget_reach (fst demo_budget_run, snd demo_budget_run)"
  unfolding demo_budget_run_def prod.collapse by (rule budget_reach_fold [OF budget_init])

lemma demo_budget_run_eq:
  "map (\<lambda>r. (mr_id r, mr_closed_at r)) (bd_budgets (fst demo_budget_run)) = [(1, Some 8)]"
  "map (\<lambda>r. (mr_account r, mr_year r, mr_month r, mr_user r)) (bd_budgets (fst demo_budget_run)) = [(7, 2024, 4, 3)]"
  "map (\<lambda>r. length (mr_lines r)) (bd_budgets (fst demo_budget_run)) = [0]"
  by code_simp+

theorem month_closed_once_witness:
  "map (\<lambda>r. (mr_id r, mr_closed_at r)) (bd_budgets (fst demo_budget_run)) = [(1, Some 8)] \<and>
   (\<exists>e. closings 1 (fst demo_budget_run) = [MonthClosed e])"
proof -
  obtain r where r: "bd_budgets (fst demo_budget_run) = [r]" "mr_id r = 1" "mr_closed_at r = Some 8"
    using demo_budget_run_eq(1) by auto
  then show ?thesis
    using month_closed_once [OF demo_budget_run_reach] demo_budget_run_eq(1) by auto
qed

theorem budget_tables_well_formed_witness:
  "\<exists>r. bd_budgets (fst demo_budget_run) = [r] \<and> mr_id r = 1 \<and> mb_row_ok r"
  using budget_tables_well_formed [OF demo_budget_run_reach] demo_budget_run_eq(1) by (auto simp: map_eq_Cons_conv)

section \<open>What closing a month announces\<close>

definition closing_event :: "mb_row \<Rightarrow> overview \<Rightarrow> month_closed_event" where
  "closing_event r v =
     (let budgeted = repr_decimal (foldl fadd 0 (map (\<lambda>l. fl (of_int (lr_cents l) / 100)) (mr_lines r)));
          spent = repr_decimal (ov_total v)
      in \<lparr>mc_account_id = mr_account r, mc_year = mr_year r, mc_month = mr_month r, mc_budgeted_amount = budgeted,
          mc_actual_spent = spent, mc_surplus_amount = max 0 (budgeted - spent),
          mc_correlation_id = Some (make_budget_month_closed_source_key (mr_account r) (mr_year r) (mr_month r))\<rparr>)"

lemma get_by_key:
  assumes ok: "budgets_ok db" and r: "r \<in> set (bd_budgets db)"
  shows "get_by_account_and_period (mr_account r) (mr_month r) (mr_year r) (mr_user r) db = Inr (Some (entity_of r))"
proof -
  obtain x where x: "get_by_account_and_period (mr_account r) (mr_month r) (mr_year r) (mr_user r) db = Inr x"
    and c: "case x of None \<Rightarrow> \<forall>r' \<in> set (bd_budgets db). mr_user r' = mr_user r \<longrightarrow> mb_key r' \<noteq> mb_key r
     | Some b \<Rightarrow> \<exists>r' \<in> set (bd_budgets db). b = entity_of r' \<and> mr_user r' = mr_user r \<and> mb_key r' = mb_key r"
    using get_by_account_and_period_Inr [OF ok, of "mr_account r" "mr_month r" "mr_year r" "mr_user r"]
    unfolding mb_key_def [of r, symmetric] by blast
  obtain b where b: "x = Some b" using c r by (cases x) auto
  then obtain r' where r': "r' \<in> set (bd_budgets db)" "b = entity_of r'" "mb_key r' = mb_key r" using c by auto
  have "r' = r" using ok r r'(1,3) by (auto simp: budgets_ok_def distinct_map inj_on_def)
  then show ?thesis using x b r'(2) by simp
qed

lemma total_entity: "total_budget (entity_of r) = foldl fadd 0 (map (\<lambda>l. fl (of_int (lr_cents l) / 100)) (mr_lines r))"
  by (simp add: total_budget_def entity_of_def comp_def)

lemma close_month_eq:
  assumes ok: "budgets_ok db" and "r \<in> set (bd_budgets db)"
    and "budget_period (mr_year r) (mr_month r) sd = Inr (s, e)"
  shows "close_month ov now (mr_account r) (mr_year r) (mr_month r) sd (mr_user r) db =
    (case ov (mr_account r) s e (mr_user r) of
       None \<Rightarrow> Inl BudgetUpstreamUnavailable
     | Some v \<Rightarrow>
         if \<not> month_closed_event_ok (closing_event r v) then Inl BudgetValidationError
         else if mr_closed_at r \<noteq> None then Inl (MonthlyBudgetAlreadyClosed (mr_month r) (mr_year r))
         else Inr (db\<lparr>bd_budgets := update_where (\<lambda>x. mr_id x = mr_id r) (\<lambda>x. x\<lparr>mr_closed_at := Some now\<rparr>) (bd_budgets db),
                bd_outbox := ob_add now ''budget.month_closed'' (MonthClosed (closing_event r v))
                  (mc_correlation_id (closing_event r v)) ''monthly_budget'' (show_int (mr_id r)) (bd_outbox db)\<rparr>))"
proof -
  have only: "x = r" if "x \<in> set (bd_budgets db)" "mr_id x = mr_id r" for x
    using ok assms(2) that by (auto simp: budgets_ok_def distinct_map inj_on_def)
  have hit: "list_ex (\<lambda>x. mr_id x = mr_id r \<and> mr_closed_at x = None) (bd_budgets db) \<longleftrightarrow> mr_closed_at r = None"
    using only assms(2) unfolding list_ex_iff by blast
  have upd: "update_where (\<lambda>x. mr_id x = mr_id r \<and> mr_closed_at x = None) f (bd_budgets db) =
      update_where (\<lambda>x. mr_id x = mr_id r) f (bd_budgets db)" if "mr_closed_at r = None" for f
    unfolding update_where_def using only that by (intro map_cong refl) (metis (full_types))
  have read: "close_read ov (mr_account r) (mr_year r) (mr_month r) sd (mr_user r) db =
      (case ov (mr_account r) s e (mr_user r) of
         None \<Rightarrow> Inl BudgetUpstreamUnavailable
       | Some v \<Rightarrow> if month_closed_event_ok (closing_event r v) then Inr (Some (mr_id r), closing_event r v) else Inl BudgetValidationError)"
    using assms(3) get_by_key [OF ok assms(2)]
    by (cases "ov (mr_account r) s e (mr_user r)")
      (simp_all add: close_read_def lift_py_def get_total_expenses_def of_option_def closing_event_def total_entity Let_def,
       simp add: entity_of_def)
  have wr: "close_write now (Some (mr_id r)) (closing_event r v) db =
      (if mr_closed_at r \<noteq> None then Inl (MonthlyBudgetAlreadyClosed (mr_month r) (mr_year r))
       else Inr (db\<lparr>bd_budgets := update_where (\<lambda>x. mr_id x = mr_id r) (\<lambda>x. x\<lparr>mr_closed_at := Some now\<rparr>) (bd_budgets db),
              bd_outbox := ob_add now ''budget.month_closed'' (MonthClosed (closing_event r v))
                (mc_correlation_id (closing_event r v)) ''monthly_budget'' (show_int (mr_id r)) (bd_outbox db)\<rparr>))" for v
    using hit upd by (simp add: close_write_def mark_closed_def Let_def show_budget_id_def closing_event_def)
  show ?thesis
    unfolding close_month_def read
    by (cases "ov (mr_account r) s e (mr_user r)") (simp_all add: wr)
qed

text \<open>
  C32. The outcome of closing an existing budget, on every branch: nothing happens when analytics-service cannot be
  reached, when the event would be invalid (as for every year before 2020) or when the budget is closed already;
  otherwise the row is closed and the announced surplus is what the budget leaves after all spending, never
  negative.
\<close>

theorem close_month_outcome:
  assumes "budget_reach (db, ps)" and "r \<in> set (bd_budgets db)"
    and "budget_period (mr_year r) (mr_month r) sd = Inr (s, e)"
  shows "close_month ov now (mr_account r) (mr_year r) (mr_month r) sd (mr_user r) db =
    (case ov (mr_account r) s e (mr_user r) of
       None \<Rightarrow> Inl BudgetUpstreamUnavailable
     | Some v \<Rightarrow>
         if \<not> month_closed_event_ok (closing_event r v) then Inl BudgetValidationError
         else if mr_closed_at r \<noteq> None then Inl (MonthlyBudgetAlreadyClosed (mr_month r) (mr_year r))
         else Inr (db\<lparr>bd_budgets := update_where (\<lambda>x. mr_id x = mr_id r) (\<lambda>x. x\<lparr>mr_closed_at := Some now\<rparr>) (bd_budgets db),
                bd_outbox := ob_add now ''budget.month_closed'' (MonthClosed (closing_event r v))
                  (mc_correlation_id (closing_event r v)) ''monthly_budget'' (show_int (mr_id r)) (bd_outbox db)\<rparr>))"
  using budget_reach_ok [OF assms(1)] assms(2,3) by (intro close_month_eq) (simp_all add: closers_ok_def)

theorem close_month_outcome_witness:
  "close_month (\<lambda>_ _ _ _. Some \<lparr>ov_buckets = [], ov_total = 0\<rparr>) 10 7 2024 4 1 3 (fst demo_budget_run) =
     Inl (MonthlyBudgetAlreadyClosed 4 2024) \<and>
   close_month (\<lambda>_ _ _ _. None) 10 7 2024 4 1 3 (fst demo_budget_run) = Inl BudgetUpstreamUnavailable"
proof -
  obtain r where r: "r \<in> set (bd_budgets (fst demo_budget_run))" "mr_closed_at r = Some 8" "mr_account r = 7" "mr_year r = 2024"
    "mr_month r = 4" "mr_user r = 3" "mr_lines r = []"
    using demo_budget_run_eq by (auto simp: map_eq_Cons_conv)
  have p: "budget_period 2024 4 1 = Inr (Date 2024 4 1, Date 2024 4 30)" by code_simp
  have ok: "month_closed_event_ok (closing_event r \<lparr>ov_buckets = [], ov_total = 0\<rparr>)"
    using r by (simp add: closing_event_def month_closed_event_ok_def repr_decimal_def Let_def)
  show ?thesis
    using close_month_outcome [OF demo_budget_run_reach r(1), of 1 "Date 2024 4 1" "Date 2024 4 30"] r p ok by simp
qed

section \<open>Alerts\<close>

lemma sorted_wrt_concat:
  assumes "\<And>x. x \<in> set xs \<Longrightarrow> sorted_wrt R (f x)"
    and "sorted_wrt (\<lambda>x y. \<forall>a \<in> set (f x). \<forall>b \<in> set (f y). R a b) xs"
  shows "sorted_wrt R (concat (map f xs))"
  using assms by (induction xs) (auto simp: sorted_wrt_append)

definition crossing_of :: "(int \<times> rat) list \<Rightarrow> budget_line \<Rightarrow> int \<Rightarrow> line_crossing" where
  "crossing_of spent_by_category l t =
     \<lparr>lc_category = ln_category l, lc_budget = ln_amount l, lc_spent = spent_on spent_by_category (ln_category l),
      lc_percentage = pct_used (spent_on spent_by_category (ln_category l)) (ln_amount l), lc_threshold = t\<rparr>"

lemma evaluate_alt:
  "evaluate_line_crossings ls sp ts = concat (map (\<lambda>l. if ln_amount l \<le> 0 then [] else
     map (crossing_of sp l) (filter (\<lambda>t. t \<le> pct_used (spent_on sp (ln_category l)) (ln_amount l)) (sorted_list_of_set (set ts))))
     (sort_key ln_category ls))"
proof -
  have c: "crossing_of sp l = (\<lambda>t. \<lparr>lc_category = ln_category l, lc_budget = ln_amount l, lc_spent = spent_on sp (ln_category l),
      lc_percentage = pct_used (spent_on sp (ln_category l)) (ln_amount l), lc_threshold = t\<rparr>)" for l
    by (rule ext) (simp add: crossing_of_def)
  show ?thesis unfolding evaluate_line_crossings_def Let_def c ..
qed

text \<open>A line that is spent in full is at 100 per cent, in spite of the float roundings.\<close>

lemma overspent_percentage: "0 < a \<Longrightarrow> a \<le> s \<Longrightarrow> 100 \<le> pct_used s a"
proof -
  assume "0 < a" "a \<le> s"
  then have "1 \<le> s / a" by simp
  then have "fl 1 \<le> fdiv s a" by (rule fl_mono)
  moreover have one: "fl 1 = 1" "fl 100 = 100" using fl_of_int [of 1] fl_of_int [of 100] by simp_all
  ultimately have "fl 100 \<le> fmul (fdiv s a) 100" by (intro fl_mono) simp
  then show ?thesis by (simp add: pct_used_def Let_def one le_floor_iff)
qed

text \<open>
  The alerts of a budget are exact: there is one crossing for every line with a positive amount and every
  configured threshold its floored percentage reaches, and no other; they come in the order of category and
  threshold without repetition; and a line that is spent in full always crosses the threshold 100.
\<close>

theorem line_crossings_exact:
  assumes "distinct (map ln_category ls)"
  shows "set (evaluate_line_crossings ls sp ts) =
      {crossing_of sp l t | l t. l \<in> set ls \<and> 0 < ln_amount l \<and> t \<in> set ts \<and>
         t \<le> pct_used (spent_on sp (ln_category l)) (ln_amount l)} \<and>
    sorted_wrt (\<lambda>c d. lc_category c < lc_category d \<or> lc_category c = lc_category d \<and> lc_threshold c < lc_threshold d)
      (evaluate_line_crossings ls sp ts) \<and>
    (\<forall>l \<in> set ls. 0 < ln_amount l \<and> ln_amount l \<le> spent_on sp (ln_category l) \<and> 100 \<in> set ts \<longrightarrow>
       crossing_of sp l 100 \<in> set (evaluate_line_crossings ls sp ts))"
proof -
  have members: "set (evaluate_line_crossings ls sp ts) =
      {crossing_of sp l t | l t. l \<in> set ls \<and> 0 < ln_amount l \<and> t \<in> set ts \<and>
         t \<le> pct_used (spent_on sp (ln_category l)) (ln_amount l)}"
    by (auto simp: evaluate_alt not_le)
  have strict: "sorted_wrt (\<lambda>l l'. ln_category l < ln_category l') (sort_key ln_category ls)"
  proof -
    have "sorted (map ln_category (sort_key ln_category ls))" "distinct (map ln_category (sort_key ln_category ls))"
      using assms by (simp_all add: distinct_map)
    then show ?thesis using strict_sorted_iff sorted_wrt_map by blast
  qed
  have "sorted_wrt (\<lambda>c d. lc_category c < lc_category d \<or> lc_category c = lc_category d \<and> lc_threshold c < lc_threshold d)
      (evaluate_line_crossings ls sp ts)"
    unfolding evaluate_alt
  proof (rule sorted_wrt_concat)
    fix l :: budget_line
    have "sorted_wrt (<) (filter (\<lambda>t. t \<le> pct_used (spent_on sp (ln_category l)) (ln_amount l)) (sorted_list_of_set (set ts)))"
      by (intro sorted_wrt_filter strict_sorted_list_of_set)
    then show "sorted_wrt (\<lambda>c d. lc_category c < lc_category d \<or> lc_category c = lc_category d \<and> lc_threshold c < lc_threshold d)
        (if ln_amount l \<le> 0 then [] else map (crossing_of sp l)
          (filter (\<lambda>t. t \<le> pct_used (spent_on sp (ln_category l)) (ln_amount l)) (sorted_list_of_set (set ts))))"
      by (simp add: sorted_wrt_map crossing_of_def)
  qed (rule sorted_wrt_mono_rel [OF _ strict], simp add: crossing_of_def)
  moreover have "crossing_of sp l 100 \<in> set (evaluate_line_crossings ls sp ts)"
    if "l \<in> set ls" "0 < ln_amount l" "ln_amount l \<le> spent_on sp (ln_category l)" "100 \<in> set ts" for l
    unfolding members using that overspent_percentage [OF that(2,3)] by blast
  ultimately show ?thesis using members by blast
qed

theorem line_crossings_exact_witness:
  "crossing_of [(10, 50)] \<lparr>ln_id = None, ln_category = 10, ln_amount = 40\<rparr> 100 \<in>
     set (evaluate_line_crossings [\<lparr>ln_id = None, ln_category = 10, ln_amount = 40\<rparr>] [(10, 50)] [80, 100])"
proof -
  let ?l = "\<lparr>ln_id = None, ln_category = 10, ln_amount = 40\<rparr> :: budget_line"
  have "distinct (map ln_category [?l])" by simp
  from conjunct2 [OF conjunct2 [OF line_crossings_exact [OF this, of "[(10, 50)]" "[80, 100]"]]]
  show ?thesis by (simp add: spent_on_def)
qed

text \<open>At exactly the share of a lower threshold the floored percentage can miss it: 4.52 of 5.65 is 80 per cent.\<close>

lemma exact_share_missed:
  "evaluate_line_crossings [\<lparr>ln_id = None, ln_category = 10, ln_amount = fl (565 / 100)\<rparr>] [(10, fl (452 / 100))] [80] = []"
proof -
  have "pct_used (fl (452 / 100)) (fl (565 / 100)) = 79" "\<not> fl (565 / 100) \<le> 0" by code_simp+
  then show ?thesis by (simp add: evaluate_line_crossings_def spent_on_def Let_def)
qed

section \<open>A sweep of the month-close scheduler\<close>

text \<open>Spending that analytics-service can always answer and that makes valid events.\<close>

definition spending_ok :: "overview_port \<Rightarrow> bool" where
  "spending_ok ov \<longleftrightarrow> (\<forall>a s e u. \<exists>v. ov a s e u = Some v \<and> 0 \<le> ov_total v)"

lemma foldl_fadd_nonneg: "0 \<le> a \<Longrightarrow> \<forall>x \<in> set xs. 0 \<le> x \<Longrightarrow> 0 \<le> foldl fadd a xs"
  by (induction xs arbitrary: a) (simp_all add: fl_nonneg)

lemma closing_event_valid:
  assumes "mb_row_ok r" and "1 \<le> mr_account r" and "2020 \<le> mr_year r" and "0 \<le> ov_total v"
  shows "month_closed_event_ok (closing_event r v)"
proof -
  have "0 \<le> foldl fadd 0 (map (\<lambda>l. fl (of_int (lr_cents l) / 100)) (mr_lines r))"
    using assms(1) by (intro foldl_fadd_nonneg) (auto simp: mb_row_ok_def line_rows_ok_def intro!: fl_nonneg)
  then show ?thesis
    using assms by (simp add: closing_event_def month_closed_event_ok_def mb_row_ok_def repr_decimal_nonneg Let_def)
qed

lemma period_exists: "mb_row_ok r \<Longrightarrow> \<exists>s e. budget_period (mr_year r) (mr_month r) sd = Inr (s, e)"
  using budget_period_eq [of "mr_year r" "mr_month r" sd]
  by (cases "period_of (mr_year r) (mr_month r) (clamp_start_day sd)") (auto simp: mb_row_ok_def)

abbreviation close_row :: "instant \<Rightarrow> mb_row \<Rightarrow> mb_row" where
  "close_row now r \<equiv> r\<lparr>mr_closed_at := Some now\<rparr>"

lemma close_one_open:
  assumes ok: "budgets_ok db" and sp: "spending_ok ov" and r: "r \<in> set (bd_budgets db)" "mr_closed_at r = None"
    and v: "1 \<le> mr_account r" "2020 \<le> mr_year r"
  obtains db' where "close_one ov now (entity_of r) (counts, db) = (counts\<lparr>cc_closed := cc_closed counts + 1\<rparr>, db')"
    "budgets_ok db'" "bd_budgets db' = update_where (\<lambda>x. mr_id x = mr_id r) (close_row now) (bd_budgets db)"
proof -
  have row: "mb_row_ok r" using ok r(1) by (simp add: budgets_ok_def)
  obtain s e where p: "budget_period (mr_year r) (mr_month r) 1 = Inr (s, e)" using period_exists [OF row] by blast
  obtain w where w: "ov (mr_account r) s e (mr_user r) = Some w" "0 \<le> ov_total w" using sp unfolding spending_ok_def by blast
  let ?db = "db\<lparr>bd_budgets := update_where (\<lambda>x. mr_id x = mr_id r) (close_row now) (bd_budgets db),
    bd_outbox := ob_add now ''budget.month_closed'' (MonthClosed (closing_event r w))
      (mc_correlation_id (closing_event r w)) ''monthly_budget'' (show_int (mr_id r)) (bd_outbox db)\<rparr>"
  have "close_month ov now (mr_account r) (mr_year r) (mr_month r) 1 (mr_user r) db = Inr ?db"
    using close_month_eq [OF ok r(1) p, of ov now] w(1) r(2) closing_event_valid [OF row v w(2)] by simp
  then have "close_one ov now (entity_of r) (counts, db) = (counts\<lparr>cc_closed := cc_closed counts + 1\<rparr>, ?db)"
    by (simp add: close_one_def entity_of_def)
  moreover have "budgets_ok ?db"
    by (rule budgets_ok_map [OF ok, where P = "\<lambda>_. True" and g = "\<lambda>x. if mr_id x = mr_id r then close_row now x else x"])
      (use ok in \<open>auto simp: update_where_def budgets_ok_def mb_row_ok_def\<close>)
  ultimately show thesis by (rule that) simp
qed

lemma close_all:
  assumes "budgets_ok db" and "spending_ok ov" and "distinct (map mr_id rs)"
    and "\<And>r. r \<in> set rs \<Longrightarrow> r \<in> set (bd_budgets db) \<and> mr_closed_at r = None \<and> 1 \<le> mr_account r \<and> 2020 \<le> mr_year r"
  shows "\<exists>db'. fold (close_one ov now) (map entity_of rs) (counts, db) =
      (counts\<lparr>cc_closed := cc_closed counts + length rs\<rparr>, db') \<and>
    bd_budgets db' = map (\<lambda>r. if mr_id r \<in> mr_id ` set rs then close_row now r else r) (bd_budgets db)"
  using assms
proof (induction rs arbitrary: db counts)
  case (Cons r rs)
  obtain db1 where one: "close_one ov now (entity_of r) (counts, db) = (counts\<lparr>cc_closed := cc_closed counts + 1\<rparr>, db1)"
    and ok1: "budgets_ok db1" and b1: "bd_budgets db1 = update_where (\<lambda>x. mr_id x = mr_id r) (close_row now) (bd_budgets db)"
    using close_one_open [OF Cons.prems(1,2), of r now counts] Cons.prems(4) [of r] by auto
  have "r' \<in> set (bd_budgets db1) \<and> mr_closed_at r' = None \<and> 1 \<le> mr_account r' \<and> 2020 \<le> mr_year r'" if r': "r' \<in> set rs" for r'
  proof -
    have "mr_id r' \<noteq> mr_id r" using Cons.prems(3) r' by (auto simp: image_iff)
    then show ?thesis using Cons.prems(4) [of r'] r' unfolding b1 set_update_where by force
  qed
  then obtain db2 where two: "fold (close_one ov now) (map entity_of rs) (counts\<lparr>cc_closed := cc_closed counts + 1\<rparr>, db1) =
      (counts\<lparr>cc_closed := cc_closed counts + 1 + length rs\<rparr>, db2)"
    and b2: "bd_budgets db2 = map (\<lambda>r. if mr_id r \<in> mr_id ` set rs then close_row now r else r) (bd_budgets db1)"
    using Cons.IH [OF ok1 Cons.prems(2), of "counts\<lparr>cc_closed := cc_closed counts + 1\<rparr>"] Cons.prems(3) by auto
  have "bd_budgets db2 = map (\<lambda>x. if mr_id x \<in> mr_id ` set (r # rs) then close_row now x else x) (bd_budgets db)"
    unfolding b2 b1 update_where_def by simp
  then show ?case using one two by simp
qed simp

lemma filterE_Inr: "(\<And>x. x \<in> set xs \<Longrightarrow> p x = Inr (q x)) \<Longrightarrow> filterE p xs = Inr (filter q xs)"
  by (induction xs) auto

text \<open>The due rule is decided for every budget of a past month.\<close>

definition row_due :: "date \<Rightarrow> int \<Rightarrow> mb_row \<Rightarrow> bool" where
  "row_due today close_day r \<longleftrightarrow> (case is_due_for_scheduled_close (mr_year r) (mr_month r) today close_day of Inr b \<Rightarrow> b | Inl _ \<Rightarrow> False)"

lemma due_decided:
  assumes "mb_row_ok r" and "mr_year r < year today \<or> mr_year r = year today \<and> mr_month r < month today"
    and "valid_date today" and "1 \<le> close_day" "close_day \<le> 28"
  shows "lift_py (is_due_for_scheduled_close (mr_year r) (mr_month r) today close_day) = Inr (row_due today close_day r)"
proof -
  have "\<exists>d. (if mr_month r = 12 then make_date (mr_year r + 1) 1 close_day else make_date (mr_year r) (mr_month r + 1) close_day) = Inr d"
    using assms day_le_28_valid [of "mr_year r + 1" 1 close_day] day_le_28_valid [of "mr_year r" "mr_month r + 1" close_day]
    by (auto simp: mb_row_ok_def valid_date_def)
  then obtain d where "(if mr_month r = 12 then make_date (mr_year r + 1) 1 close_day else make_date (mr_year r) (mr_month r + 1) close_day) = Inr d"
    by blast
  then show ?thesis by (simp only: is_due_for_scheduled_close_def row_due_def lift_py_def bindE_simps sum.case)
qed

text \<open>A due month lies in the past.\<close>

lemma row_due_past:
  "row_due today close_day r \<Longrightarrow> mr_year r < year today \<or> mr_year r = year today \<and> mr_month r < month today"
  by (auto simp: row_due_def is_due_for_scheduled_close_def make_date_def less_eq_date_def split: if_splits)

text \<open>
  A sweep of the month-close scheduler never raises, and while analytics-service answers it closes every budget
  that is due: it counts as many closed as due, and afterwards no due budget is open.
\<close>

theorem sweep_closes_all_due:
  assumes "budget_reach (db, ps)" and "spending_ok ov" and "valid_date today" and "1 \<le> close_day" "close_day \<le> 28"
    and "\<forall>r \<in> set (bd_budgets db). 1 \<le> mr_account r \<and> 2020 \<le> mr_year r"
  shows "\<exists>counts db'. close_run_once ov now today close_day db = Inr (counts, db') \<and>
    cc_closed counts = cc_due counts \<and> cc_skipped counts = 0 \<and> cc_failed_upstream counts = 0 \<and> cc_failed_unexpected counts = 0 \<and>
    (\<forall>r \<in> set (bd_budgets db'). row_due today close_day r \<longrightarrow> mr_closed_at r \<noteq> None)"
proof -
  have ok: "budgets_ok db" using budget_reach_ok [OF assms(1)] by (simp add: closers_ok_def)
  let ?past = "\<lambda>r. mr_closed_at r = None \<and> (mr_year r < year today \<or> mr_year r = year today \<and> mr_month r < month today)"
  define rs where "rs = sort_key mr_year (sort_key mr_month (sort_key mr_id (filter ?past (bd_budgets db))))"
  have set_rs: "set rs = set (filter ?past (bd_budgets db))" by (simp add: rs_def)
  have dist: "distinct (map mr_id rs)"
    using ok unfolding rs_def budgets_ok_def by (auto simp: distinct_map intro: inj_on_subset)
  have rows: "mb_row_ok r" if "r \<in> set rs" for r using that ok set_rs by (auto simp: budgets_ok_def)
  have cand: "list_open_before_period (year today) (month today) db = Inr (map entity_of rs)"
    unfolding list_open_before_period_def rs_def [symmetric] using mb_to_entity_ok rows by (intro mapE_Inr) blast
  let ?due = "filter (row_due today close_day) rs"
  have "filterE (\<lambda>b. lift_py (is_due_for_scheduled_close (mb_year b) (mb_month b) today close_day)) (map entity_of rs) =
      Inr (map entity_of ?due)"
  proof -
    have "filterE (\<lambda>b. lift_py (is_due_for_scheduled_close (mb_year b) (mb_month b) today close_day)) (map entity_of xs) =
      Inr (map entity_of (filter (row_due today close_day) xs))" if "set xs \<subseteq> set rs" for xs
      using that
    proof (induction xs)
      case (Cons r xs)
      then have "lift_py (is_due_for_scheduled_close (mr_year r) (mr_month r) today close_day) = Inr (row_due today close_day r)"
        using set_rs rows [of r] assms(3-5) by (intro due_decided) auto
      then show ?case using Cons by (simp add: entity_of_def)
    qed simp
    then show ?thesis by simp
  qed
  then have run: "close_run_once ov now today close_day db = Inr (fold (close_one ov now) (map entity_of ?due)
      (\<lparr>cc_due = length ?due, cc_closed = 0, cc_skipped = 0, cc_failed_upstream = 0, cc_failed_unexpected = 0\<rparr>, db))"
    by (simp add: close_run_once_def cand)
  have due_rows: "r \<in> set (bd_budgets db) \<and> mr_closed_at r = None \<and> 1 \<le> mr_account r \<and> 2020 \<le> mr_year r" if "r \<in> set ?due" for r
    using that set_rs assms(6) by auto
  have "distinct (map mr_id ?due)" using dist by (rule distinct_map_filter)
  from close_all [OF ok assms(2) this due_rows]
  obtain db' where f: "fold (close_one ov now) (map entity_of ?due)
      (\<lparr>cc_due = length ?due, cc_closed = 0, cc_skipped = 0, cc_failed_upstream = 0, cc_failed_unexpected = 0\<rparr>, db) =
      (\<lparr>cc_due = length ?due, cc_closed = 0, cc_skipped = 0, cc_failed_upstream = 0, cc_failed_unexpected = 0\<rparr>
        \<lparr>cc_closed := cc_closed \<lparr>cc_due = length ?due, cc_closed = 0, cc_skipped = 0, cc_failed_upstream = 0, cc_failed_unexpected = 0\<rparr> + length ?due\<rparr>, db')"
    and b: "bd_budgets db' = map (\<lambda>r. if mr_id r \<in> mr_id ` set ?due then close_row now r else r) (bd_budgets db)"
    by blast
  have "mr_closed_at r' \<noteq> None" if r': "r' \<in> set (bd_budgets db')" and due: "row_due today close_day r'" for r'
  proof -
    obtain r where r: "r \<in> set (bd_budgets db)" "r' = (if mr_id r \<in> mr_id ` set ?due then close_row now r else r)"
      using r' by (auto simp: b)
    show ?thesis
    proof (cases "mr_id r \<in> mr_id ` set ?due")
      case False
      then have "r' = r" "r \<notin> set ?due" using r(2) by auto
      then show ?thesis using due row_due_past [OF due] set_rs r(1) by auto
    qed (use r(2) in simp)
  qed
  then show ?thesis using run f by auto
qed

definition demo_open :: "budget_db \<times> pending_close list" where
  "demo_open = apply_budget_op (BCreate (\<lambda>_. True) Map.empty 5 7 3 4 2024 []) (empty_budget_db, [])"

lemma demo_open_eq:
  "map (\<lambda>r. (mr_id r, mr_closed_at r)) (bd_budgets (fst demo_open)) = [(1, None)]"
  "map (\<lambda>r. (mr_account r, mr_year r, mr_month r, mr_user r)) (bd_budgets (fst demo_open)) = [(7, 2024, 4, 3)]"
  by code_simp+

theorem sweep_closes_all_due_witness:
  "list_all (row_due (Date 2024 5 7) 7) (bd_budgets (fst demo_open)) \<and>
   (\<exists>counts db'. close_run_once (\<lambda>_ _ _ _. Some \<lparr>ov_buckets = [], ov_total = 25\<rparr>) 9 (Date 2024 5 7) 7 (fst demo_open) = Inr (counts, db') \<and>
      cc_closed counts = cc_due counts \<and> filter (\<lambda>r. row_due (Date 2024 5 7) 7 r \<and> mr_closed_at r = None) (bd_budgets db') = [])"
proof -
  have reach: "budget_reach (fst demo_open, snd demo_open)"
    unfolding demo_open_def prod.collapse by (rule budget_step [OF budget_init])
  have d: "is_due_for_scheduled_close 2024 4 (Date 2024 5 7) 7 = Inr True" "valid_date (Date 2024 5 7)" by code_simp+
  have rows: "\<forall>r \<in> set (bd_budgets (fst demo_open)). mr_account r = 7 \<and> mr_year r = 2024 \<and> mr_month r = 4"
    using demo_open_eq(2) by (auto simp: map_eq_Cons_conv)
  show ?thesis
    using sweep_closes_all_due [OF reach, of "\<lambda>_ _ _ _. Some \<lparr>ov_buckets = [], ov_total = 25\<rparr>" "Date 2024 5 7" 7 9] rows d
    by (auto simp: spending_ok_def row_due_def list_all_iff filter_empty_conv)
qed

end
