(* ===== verification/Notifications.thy ===== *)
theory Notifications
  imports MonthlyBudget Projections
begin

unbundle bit_operations_syntax

text \<open>
  notification-service: the rules (\<open>app/domain/rules.py\<close>), the Danish messages (\<open>app/domain/messages.py\<close>), the feed
  with its repository (\<open>app/adapters/outbound/postgres_notification_repository.py\<close>), the service that turns an
  event into at most one notification (\<open>app/application/service.py\<close>), the owner lookup
  (\<open>app/adapters/outbound/account_adapter.py\<close>), the UUIDv7 layout (\<open>app/domain/ids.py\<close>) and the consumer
  (\<open>app/workers/notification_consumer.py\<close>).

  Texts are UTF-8 byte strings, so a Danish letter is two characters here.  The primary key of a row is taken
  from a counter: the random bits of a UUID are assumed not to collide.
\<close>

section \<open>Entities\<close>

datatype notification_type =
    BankSyncCompletedType
  | GoalReachedType
  | BudgetMonthClosedType
  | BudgetThresholdCrossedType

record notification_content =
  nc_type :: notification_type
  nc_title :: string
  nc_body :: string

record notification =
  nt_id :: nat
  nt_user :: int
  nt_type :: notification_type
  nt_title :: string
  nt_body :: string
  nt_source_key :: string
  nt_created_at :: instant
  nt_read_at :: "instant option"
  nt_dismissed_at :: "instant option"

definition is_read :: "notification \<Rightarrow> bool" where
  "is_read n \<longleftrightarrow> nt_read_at n \<noteq> None"

definition is_dismissed :: "notification \<Rightarrow> bool" where
  "is_dismissed n \<longleftrightarrow> nt_dismissed_at n \<noteq> None"

section \<open>UUIDv7\<close>

text \<open>The two random numbers are arguments.\<close>

definition uuid7 :: "int \<Rightarrow> int \<Rightarrow> int \<Rightarrow> int" where
  "uuid7 timestamp_ms random_a random_b =
     (let ts = timestamp_ms AND (push_bit 48 1 - 1);
          rand_a = random_a AND (push_bit 12 1 - 1);
          rand_b = random_b AND (push_bit 62 1 - 1)
      in push_bit 80 ts OR push_bit 76 7 OR push_bit 64 rand_a OR push_bit 62 2 OR rand_b)"

section \<open>Rules and messages\<close>

definition should_notify_bank_sync :: "bool \<Rightarrow> int \<Rightarrow> int \<Rightarrow> int \<Rightarrow> bool" where
  "should_notify_bank_sync scheduled new_imported errors parse_skipped =
     (if \<not> scheduled then True else new_imported > 0 \<or> errors > 0 \<or> parse_skipped > 0)"

definition aa :: string where "aa = [CHR 0xC3, CHR 0xA5]"
definition ae :: string where "ae = [CHR 0xC3, CHR 0xA6]"

definition months_da :: "string list" where
  "months_da =
     [[], ''januar'', ''februar'', ''marts'', ''april'', ''maj'', ''juni'', ''juli'', ''august'', ''september'', ''oktober'',
      ''november'', ''december'']"

text \<open>The \<open>:,.2f\<close> format groups the integer digits by threes; the swap gives dots for groups and a comma for decimals.\<close>

fun group_rev :: "string \<Rightarrow> string" where
  "group_rev (a # b # c # d # r) = a # b # c # CHR ''.'' # group_rev (d # r)"
| "group_rev s = s"

definition grouped :: "nat \<Rightarrow> string" where
  "grouped n = rev (group_rev (rev (show_nat n)))"

definition format_amount :: "rat \<Rightarrow> string" where
  "format_amount amount =
     (let q = numeric_cents amount; c = nat \<bar>q\<bar>
      in (if q < 0 then ''-'' else []) @ grouped (c div 100) @ '','' @ pad 2 (c mod 100))"

definition month_name :: "int \<Rightarrow> string" where
  "month_name m = (if 1 \<le> m \<and> m \<le> 12 then months_da ! nat m else show_int m)"

definition transaction_word :: "int \<Rightarrow> string" where
  "transaction_word n = (if n = 1 then ''transaktion'' else ''transaktioner'')"

definition days_left_phrase :: "int \<Rightarrow> string" where
  "days_left_phrase n =
     (if n \<le> 0 then ''ingen dage tilbage'' else if n = 1 then ''1 dag tilbage'' else show_int n @ '' dage tilbage'')"

definition build_bank_sync_completed :: "int \<Rightarrow> int \<Rightarrow> notification_content" where
  "build_bank_sync_completed new_imported errors =
     \<lparr>nc_type = BankSyncCompletedType, nc_title = ''Banksynkronisering f'' @ ae @ ''rdig'',
      nc_body =
        (if new_imported = 0
         then ''Din bank er synkroniseret '' @ [CHR 0xE2, CHR 0x80, CHR 0x93] @ '' ingen nye transaktioner.''
         else show_int new_imported @ '' '' @ transaction_word new_imported @ '' blev importeret.'') @
        (if errors > 0 then '' '' @ show_int errors @ '' '' @ transaction_word errors @ '' kunne ikke behandles.'' else [])\<rparr>"

definition build_goal_reached :: "string option \<Rightarrow> rat \<Rightarrow> notification_content" where
  "build_goal_reached goal_name target_amount =
     (let amount = format_amount target_amount; named = (case goal_name of None \<Rightarrow> [] | Some n \<Rightarrow> n)
      in \<lparr>nc_type = GoalReachedType, nc_title = ''M'' @ aa @ ''l n'' @ aa @ ''et! '' @ [CHR 0xF0, CHR 0x9F, CHR 0x8E, CHR 0x89],
          nc_body =
            (if named \<noteq> []
             then ''Du har n'' @ aa @ ''et dit m'' @ aa @ ''l '' @ [CHR 0xE2, CHR 0x80, CHR 0x9C] @ named @
                  [CHR 0xE2, CHR 0x80, CHR 0x9D] @ '' p'' @ aa @ '' '' @ amount @ '' kr. Flot klaret!''
             else ''Du har n'' @ aa @ ''et dit sparem'' @ aa @ ''l p'' @ aa @ '' '' @ amount @ '' kr. Flot klaret!'')\<rparr>)"

definition build_budget_line_threshold_crossed :: "string \<Rightarrow> int \<Rightarrow> int \<Rightarrow> int \<Rightarrow> notification_content" where
  "build_budget_line_threshold_crossed category_name percentage_used threshold days_remaining =
     \<lparr>nc_type = BudgetThresholdCrossedType,
      nc_title = (if threshold \<ge> 100 then ''Budget overskredet'' else ''Budget-advarsel''),
      nc_body = show_int percentage_used @ ''% af '' @ category_name @ '' brugt, '' @ days_left_phrase days_remaining @ ''.''\<rparr>"

definition build_budget_month_closed :: "int \<Rightarrow> int \<Rightarrow> rat \<Rightarrow> notification_content" where
  "build_budget_month_closed yr mon surplus_amount =
     (let period = month_name mon @ '' '' @ show_int yr
      in \<lparr>nc_type = BudgetMonthClosedType, nc_title = ''M'' @ aa @ ''ned lukket'',
          nc_body =
            (if surplus_amount > 0
             then period @ '' er gjort op med et overskud p'' @ aa @ '' '' @ format_amount surplus_amount @ '' kr.''
             else period @ '' er gjort op. Der var intet overskud denne m'' @ aa @ ''ned.'')\<rparr>)"

section \<open>The feed\<close>

record notification_db =
  nd_rows :: "notification list"
  nd_next :: nat
  nd_emails :: "(int \<times> string \<times> string) list"

datatype notification_error = NotifIntegrityError | NotifDataError | NotifValueError | OwnerUnavailable | OwnerAuthError

definition notif_add ::
  "instant \<Rightarrow> int \<Rightarrow> notification_content \<Rightarrow> string \<Rightarrow> notification_db \<Rightarrow> notification_error + (nat \<times> notification_db)" where
  "notif_add now user_id content source_key db =
     (if length source_key > 200 then Inl NotifDataError
      else if list_ex (\<lambda>n. nt_source_key n = source_key) (nd_rows db) then Inl NotifIntegrityError
      else Inr (nd_next db,
        db\<lparr>nd_rows := nd_rows db @ [\<lparr>nt_id = nd_next db, nt_user = user_id, nt_type = nc_type content, nt_title = nc_title content,
             nt_body = nc_body content, nt_source_key = source_key, nt_created_at = now, nt_read_at = None,
             nt_dismissed_at = None\<rparr>],
           nd_next := nd_next db + 1\<rparr>))"

definition source_key_exists :: "string \<Rightarrow> notification_db \<Rightarrow> bool" where
  "source_key_exists source_key db = list_ex (\<lambda>n. nt_source_key n = source_key) (nd_rows db)"

definition list_for_user :: "int \<Rightarrow> bool \<Rightarrow> nat \<Rightarrow> nat \<Rightarrow> notification_db \<Rightarrow> notification list" where
  "list_for_user user_id unread_only limit offset db =
     take limit (drop offset (rev (sort_key nt_created_at (sort_key nt_id
       (filter (\<lambda>n. nt_user n = user_id \<and> nt_dismissed_at n = None \<and> (unread_only \<longrightarrow> nt_read_at n = None)) (nd_rows db))))))"

definition unread_count :: "int \<Rightarrow> notification_db \<Rightarrow> nat" where
  "unread_count user_id db =
     length (filter (\<lambda>n. nt_user n = user_id \<and> nt_read_at n = None \<and> nt_dismissed_at n = None) (nd_rows db))"

definition mark_read :: "instant \<Rightarrow> nat \<Rightarrow> int \<Rightarrow> notification_db \<Rightarrow> bool \<times> notification_db" where
  "mark_read now notification_id user_id db =
     (let hit = (\<lambda>n. nt_id n = notification_id \<and> nt_user n = user_id \<and> nt_dismissed_at n = None) in
      (list_ex hit (nd_rows db),
       db\<lparr>nd_rows := update_where hit
            (\<lambda>n. n\<lparr>nt_read_at := (case nt_read_at n of None \<Rightarrow> Some now | Some t \<Rightarrow> Some t)\<rparr>) (nd_rows db)\<rparr>))"

definition mark_all_read :: "instant \<Rightarrow> int \<Rightarrow> notification_db \<Rightarrow> nat \<times> notification_db" where
  "mark_all_read now user_id db =
     (let hit = (\<lambda>n. nt_user n = user_id \<and> nt_read_at n = None \<and> nt_dismissed_at n = None) in
      (length (filter hit (nd_rows db)),
       db\<lparr>nd_rows := update_where hit (\<lambda>n. n\<lparr>nt_read_at := Some now\<rparr>) (nd_rows db)\<rparr>))"

definition dismiss :: "instant \<Rightarrow> nat \<Rightarrow> int \<Rightarrow> notification_db \<Rightarrow> bool \<times> notification_db" where
  "dismiss now notification_id user_id db =
     (let hit = (\<lambda>n. nt_id n = notification_id \<and> nt_user n = user_id \<and> nt_dismissed_at n = None) in
      (list_ex hit (nd_rows db),
       db\<lparr>nd_rows := update_where hit (\<lambda>n. n\<lparr>nt_dismissed_at := Some now\<rparr>) (nd_rows db)\<rparr>))"

section \<open>The owner of an account\<close>

text \<open>\<open>None\<close>: the request failed; otherwise the status code and the user id of the body.\<close>

type_synonym owner_http = "int \<Rightarrow> (int \<times> int) option"

datatype owner_reply = OwnerIs int | AccountNotFound | OwnerFailed notification_error

definition get_owner_user_id :: "owner_http \<Rightarrow> int \<Rightarrow> owner_reply" where
  "get_owner_user_id http account_id =
     (case http account_id of
        None \<Rightarrow> OwnerFailed OwnerUnavailable
      | Some (status, user_id) \<Rightarrow>
          if status = 200 then OwnerIs user_id
          else if status = 404 then AccountNotFound
          else if status = 401 \<or> status = 403 then OwnerFailed OwnerAuthError
          else OwnerFailed OwnerUnavailable)"

section \<open>The service\<close>

record bank_sync_event =
  bs_connection_id :: string
  bs_user_id :: int
  bs_new_imported :: int
  bs_errors :: int
  bs_parse_skipped :: int
  bs_scheduled :: bool
  bs_correlation_id :: string

record goal_reached_event =
  gr_goal_id :: int
  gr_account_id :: int
  gr_name :: "string option"
  gr_target_amount :: string

datatype trigger_event =
    BankSyncCompleted bank_sync_event
  | GoalUpdatedTrigger goal_state_event
  | GoalReachedTrigger goal_reached_event
  | MonthClosedTrigger month_closed_event
  | ThresholdTrigger line_threshold_event

datatype notify_status =
    Created nat
  | DuplicateNotification
  | IgnoredNotReached
  | IgnoredQuietSync
  | OwnerGone

text \<open>The surroundings of one delivery: the clock, the account service and whether the email goes out.\<close>

record notify_env =
  ne_now :: instant
  ne_http :: owner_http
  ne_email_ok :: bool

definition notify_create ::
  "notify_env \<Rightarrow> int \<Rightarrow> notification_content \<Rightarrow> string \<Rightarrow> notification_db \<Rightarrow>
   notification_error + (notify_status \<times> notification_db)" where
  "notify_create env user_id content source_key db =
     (if source_key_exists source_key db then Inr (DuplicateNotification, db)
      else
        bindE (notif_add (ne_now env) user_id content source_key db) (\<lambda>(i, db').
        Inr (Created i,
             (if ne_email_ok env then db'\<lparr>nd_emails := nd_emails db' @ [(user_id, nc_title content, nc_body content)]\<rparr> else db'))))"

text \<open>The account-scoped events resolve the owner first; an unknown account drops the event.\<close>

definition notify_owner ::
  "notify_env \<Rightarrow> int \<Rightarrow> notification_content \<Rightarrow> string \<Rightarrow> notification_db \<Rightarrow>
   notification_error + (notify_status \<times> notification_db)" where
  "notify_owner env account_id content source_key db =
     (case get_owner_user_id (ne_http env) account_id of
        AccountNotFound \<Rightarrow> Inr (OwnerGone, db)
      | OwnerFailed e \<Rightarrow> Inl e
      | OwnerIs user_id \<Rightarrow> notify_create env user_id content source_key db)"

definition handle_bank_sync_completed ::
  "notify_env \<Rightarrow> bank_sync_event \<Rightarrow> notification_db \<Rightarrow> notification_error + (notify_status \<times> notification_db)" where
  "handle_bank_sync_completed env e db =
     (if \<not> should_notify_bank_sync (bs_scheduled e) (bs_new_imported e) (bs_errors e) (bs_parse_skipped e)
      then Inr (IgnoredQuietSync, db)
      else notify_create env (bs_user_id e) (build_bank_sync_completed (bs_new_imported e) (bs_errors e))
             (''bank.sync.completed:'' @ bs_connection_id e @ '':'' @ bs_correlation_id e) db)"

definition handle_goal_updated ::
  "notify_env \<Rightarrow> goal_state_event \<Rightarrow> notification_db \<Rightarrow> notification_error + (notify_status \<times> notification_db)" where
  "handle_goal_updated env e db =
     bindE (of_option NotifValueError (parse_decimal (ge_target_amount e))) (\<lambda>target.
     bindE (of_option NotifValueError (parse_decimal (ge_current_amount e))) (\<lambda>current.
     if target \<le> 0 \<or> current < target then Inr (IgnoredNotReached, db)
     else notify_create env (ge_user_id e) (build_goal_reached (ge_name e) target) (''goal.reached:'' @ show_int (ge_goal_id e)) db))"

definition handle_goal_reached ::
  "notify_env \<Rightarrow> goal_reached_event \<Rightarrow> notification_db \<Rightarrow> notification_error + (notify_status \<times> notification_db)" where
  "handle_goal_reached env e db =
     bindE (of_option NotifValueError (parse_decimal (gr_target_amount e))) (\<lambda>target.
     notify_owner env (gr_account_id e) (build_goal_reached (gr_name e) target) (''goal.reached:'' @ show_int (gr_goal_id e)) db)"

definition handle_budget_month_closed ::
  "notify_env \<Rightarrow> month_closed_event \<Rightarrow> notification_db \<Rightarrow> notification_error + (notify_status \<times> notification_db)" where
  "handle_budget_month_closed env e db =
     notify_owner env (mc_account_id e) (build_budget_month_closed (mc_year e) (mc_month e) (mc_surplus_amount e))
       (mc_source_key e) db"

definition handle_budget_line_threshold_crossed ::
  "notify_env \<Rightarrow> line_threshold_event \<Rightarrow> notification_db \<Rightarrow> notification_error + (notify_status \<times> notification_db)" where
  "handle_budget_line_threshold_crossed env e db =
     notify_owner env (lt_account_id e)
       (build_budget_line_threshold_crossed (lt_category_name e) (lt_percentage_used e) (lt_threshold e) (lt_days_remaining e))
       (lt_source_key e) db"

section \<open>The consumer\<close>

definition notify_dispatch ::
  "notify_env \<Rightarrow> trigger_event \<Rightarrow> notification_db \<Rightarrow> notification_error + (notify_status \<times> notification_db)" where
  "notify_dispatch env ev db =
     (case ev of
        BankSyncCompleted e \<Rightarrow> handle_bank_sync_completed env e db
      | GoalUpdatedTrigger e \<Rightarrow> handle_goal_updated env e db
      | GoalReachedTrigger e \<Rightarrow> handle_goal_reached env e db
      | MonthClosedTrigger e \<Rightarrow> handle_budget_month_closed env e db
      | ThresholdTrigger e \<Rightarrow> handle_budget_line_threshold_crossed env e db)"

text \<open>\<open>None\<close>: an unexpected event type or a payload that fails validation.\<close>

definition notification_consumer ::
  "notify_env \<Rightarrow> trigger_event option \<Rightarrow> notification_db \<Rightarrow> handler_result \<times> notification_db" where
  "notification_consumer env payload db =
     (case payload of
        None \<Rightarrow> (Poison, db)
      | Some ev \<Rightarrow>
          (case notify_dispatch env ev db of
             Inr (_, db') \<Rightarrow> (Handled, db')
           | Inl e \<Rightarrow> (if e = NotifIntegrityError then (Handled, db) else (HandlerError, db))))"

end
