(* ===== verification/NotificationProofs.thy ===== *)
theory NotificationProofs
  imports Notifications
begin

unbundle bit_operations_syntax

text \<open>
  What notification-service promises: identifiers with the layout of a UUIDv7 that sort by time, amounts that can be
  read back from the Danish format, and one notification per source key whatever is redelivered.
\<close>

section \<open>Identifiers\<close>

lemma push_bit_or_add:
  assumes "0 \<le> b" and "b < 2 ^ n"
  shows "push_bit n a OR b = push_bit n a + (b :: int)"
proof -
  have "take_bit n b = b" using assms by (simp add: take_bit_eq_mod)
  then have "bit b k \<Longrightarrow> k < n" for k by (metis bit_take_bit_iff)
  then have "push_bit n a AND b = 0" by (intro bit_eqI) (auto simp: bit_simps not_le [symmetric])
  then show ?thesis by (simp add: disjunctive_add_eq_or)
qed

lemma and_mask: "a AND (push_bit n 1 - 1) = take_bit n (a :: int)"
  by (simp add: take_bit_eq_mask mask_eq_exp_minus_1 push_bit_eq_mult)

lemma uuid7_sum:
  "uuid7 t a b = take_bit 48 t * 2 ^ 80 + 7 * 2 ^ 76 + take_bit 12 a * 2 ^ 64 + 2 * 2 ^ 62 + take_bit 62 b"
proof -
  have r: "0 \<le> take_bit n (x :: int)" "take_bit n x < 2 ^ n" for n x by simp_all
  have 1: "push_bit 62 2 OR take_bit 62 b = push_bit 62 2 + take_bit 62 b"
    by (rule push_bit_or_add) (rule r)+
  have "push_bit 62 2 + take_bit 62 b < 2 ^ 64" "0 \<le> push_bit 62 2 + take_bit 62 b"
    using r [of 62 b] by (simp_all add: push_bit_eq_mult)
  then have 2: "push_bit 64 (take_bit 12 a) OR (push_bit 62 2 + take_bit 62 b) = push_bit 64 (take_bit 12 a) + (push_bit 62 2 + take_bit 62 b)"
    by (intro push_bit_or_add)
  let ?lo = "push_bit 64 (take_bit 12 a) + (push_bit 62 2 + take_bit 62 b)"
  have lo: "0 \<le> ?lo" "?lo < 2 ^ 76"
    using r [of 62 b] r [of 12 a] by (simp_all add: push_bit_eq_mult)
  then have 3: "push_bit 76 7 OR ?lo = push_bit 76 7 + ?lo"
    by (intro push_bit_or_add)
  have "0 \<le> push_bit 76 7 + ?lo" "push_bit 76 7 + ?lo < 2 ^ 80"
    using lo by (simp_all add: push_bit_eq_mult)
  then have 4: "push_bit 80 (take_bit 48 t) OR (push_bit 76 7 + ?lo) = push_bit 80 (take_bit 48 t) + (push_bit 76 7 + ?lo)"
    by (intro push_bit_or_add)
  show ?thesis
    unfolding uuid7_def Let_def and_mask or.assoc 1 2 3 4 by (simp add: push_bit_eq_mult)
qed

text \<open>
  An identifier is a 128-bit number with version 7 and variant 2 in the fields of RFC 9562, and identifiers of
  different milliseconds (within the 48-bit range) sort by time whatever the random bits are.
\<close>

theorem uuid7_layout:
  assumes "0 \<le> t" and "t < t'" and "t' < 2 ^ 48"
  shows "0 \<le> uuid7 t a b \<and> uuid7 t a b < 2 ^ 128 \<and> (uuid7 t a b div 2 ^ 76) mod 16 = 7 \<and>
    (uuid7 t a b div 2 ^ 62) mod 4 = 2 \<and> uuid7 t a b div 2 ^ 80 = t \<and> uuid7 t a b < uuid7 t' a' b'"
proof -
  have r: "0 \<le> take_bit 12 a" "take_bit 12 a < 4096" "0 \<le> take_bit 62 b" "take_bit 62 b < 4611686018427387904"
    "0 \<le> take_bit 12 a'" "0 \<le> take_bit 62 b'"
    using take_bit_int_less_exp [of 12 a] take_bit_int_less_exp [of 62 b] by simp_all
  have t: "take_bit 48 t = t" "take_bit 48 t' = t'" using assms by (simp_all add: take_bit_int_eq_self)
  let ?u = "uuid7 t a b"
  have u: "?u = t * 2 ^ 80 + 7 * 2 ^ 76 + take_bit 12 a * 2 ^ 64 + 2 * 2 ^ 62 + take_bit 62 b"
    unfolding uuid7_sum t ..
  have "?u div 2 ^ 76 = t * 16 + 7"
    by (rule int_div_pos_eq [where r = "take_bit 12 a * 2 ^ 64 + 2 * 2 ^ 62 + take_bit 62 b"]) (use r u in simp_all)
  moreover have "?u div 2 ^ 62 = t * 2 ^ 18 + 7 * 2 ^ 14 + take_bit 12 a * 4 + 2"
    by (rule int_div_pos_eq [where r = "take_bit 62 b"]) (use r u in simp_all)
  moreover have "(t * 2 ^ 18 + 7 * 2 ^ 14 + take_bit 12 a * 4 + 2) mod 4 = 2"
  proof -
    have "(2 + 4 * k) mod 4 = (2 :: int)" for k by presburger
    from this [of "t * 2 ^ 16 + 7 * 2 ^ 12 + take_bit 12 a"] show ?thesis by (simp add: algebra_simps)
  qed
  moreover have "(t * 16 + 7) mod 16 = 7" by presburger
  moreover have "?u div 2 ^ 80 = t"
    by (rule int_div_pos_eq [where r = "7 * 2 ^ 76 + take_bit 12 a * 2 ^ 64 + 2 * 2 ^ 62 + take_bit 62 b"]) (use r u in simp_all)
  moreover have "?u < uuid7 t' a' b'"
  proof -
    have gen: "t * K + c < t' * K + c'" if "c < K" "0 \<le> c'" "0 < K" for K c c' :: int
    proof -
      have "(t + 1) * K \<le> t' * K" using assms(2) that(3) by (intro mult_right_mono) simp_all
      then show ?thesis using that by (simp add: algebra_simps)
    qed
    have "7 * 2 ^ 76 + take_bit 12 a * 2 ^ 64 + 2 * 2 ^ 62 + take_bit 62 b < (2 ^ 80 :: int)"
      "0 \<le> 7 * 2 ^ 76 + take_bit 12 a' * 2 ^ 64 + 2 * 2 ^ 62 + take_bit 62 b'"
      using r by simp_all
    from gen [OF this] show ?thesis unfolding uuid7_sum t by simp
  qed
  moreover have "0 \<le> ?u" "?u < 2 ^ 128" using r assms unfolding u by simp_all
  ultimately show ?thesis by simp
qed

theorem uuid7_layout_witness:
  "uuid7 1700000000000 5 9 < uuid7 1700000000001 0 0 \<and> uuid7 1700000000000 5 9 div 2 ^ 80 = 1700000000000"
  using uuid7_layout [of 1700000000000 1700000000001 5 9 0 0] by simp

section \<open>Amounts\<close>

lemma group_rev_filter: "CHR ''.'' \<notin> set s \<Longrightarrow> filter (\<lambda>c. c \<noteq> CHR ''.'') (group_rev s) = s"
  by (induction s rule: group_rev.induct) auto

lemma show_nat_no_punct: "CHR ''.'' \<notin> set (show_nat n)" "CHR '','' \<notin> set (show_nat n)"
  using show_nat_all_digits [of n] by (auto simp: list_all_iff is_digit_def)

lemma grouped_filter: "filter (\<lambda>c. c \<noteq> CHR ''.'') (grouped n) = show_nat n"
  by (simp add: grouped_def rev_filter [symmetric] group_rev_filter show_nat_no_punct)

lemma set_group_rev: "set (group_rev s) \<subseteq> insert (CHR ''.'') (set s)"
  by (induction s rule: group_rev.induct) auto

text \<open>Reading a Danish amount: drop the group dots, and the comma is the decimal point.\<close>

definition read_danish :: "string \<Rightarrow> rat option" where
  "read_danish s = parse_decimal (map (\<lambda>c. if c = CHR '','' then CHR ''.'' else c) (filter (\<lambda>c. c \<noteq> CHR ''.'') s))"

lemma map_comma_id: "CHR '','' \<notin> set s \<Longrightarrow> map (\<lambda>c. if c = CHR '','' then CHR ''.'' else c) s = s"
  by (induction s) auto

lemma pad_no_punct: "CHR ''.'' \<notin> set (pad w n)" "CHR '','' \<notin> set (pad w n)"
  using pad_all_digits [of w n] by (auto simp: list_all_iff is_digit_def)

text \<open>
  The Danish money format loses nothing but what rounding to cents loses: without its group dots and with a
  decimal point for the comma, it reads back as the amount rounded half away from zero to cents.
\<close>

theorem format_amount_roundtrip:
  "read_danish (format_amount x) = Some (of_int (numeric_cents x) / 100)"
proof -
  let ?q = "numeric_cents x"
  have "filter (\<lambda>c. c \<noteq> CHR ''.'') (format_amount x) =
      (if ?q < 0 then ''-'' else []) @ show_nat (nat \<bar>?q\<bar> div 100) @ '','' @ pad 2 (nat \<bar>?q\<bar> mod 100)"
    using pad_no_punct(1) [of 2 "nat \<bar>?q\<bar> mod 100"]
    by (simp add: format_amount_def grouped_filter Let_def filter_id_conv) (metis (no_types, lifting) filter_True)
  then have "map (\<lambda>c. if c = CHR '','' then CHR ''.'' else c) (filter (\<lambda>c. c \<noteq> CHR ''.'') (format_amount x)) = show_cents ?q"
    by (simp add: show_cents_def map_comma_id show_nat_no_punct pad_no_punct)
  then show ?thesis by (simp add: read_danish_def parse_decimal_show_cents)
qed

section \<open>One notification per source key\<close>

fun trigger_key :: "trigger_event \<Rightarrow> string" where
  "trigger_key (BankSyncCompleted e) = ''bank.sync.completed:'' @ bs_connection_id e @ '':'' @ bs_correlation_id e"
| "trigger_key (GoalUpdatedTrigger e) = ''goal.reached:'' @ show_int (ge_goal_id e)"
| "trigger_key (GoalReachedTrigger e) = ''goal.reached:'' @ show_int (gr_goal_id e)"
| "trigger_key (MonthClosedTrigger e) = mc_source_key e"
| "trigger_key (ThresholdTrigger e) = lt_source_key e"

text \<open>Who is to be notified of an event, and how; \<open>None\<close> when nobody is, or when the owner cannot be found out.\<close>

definition to_owner :: "notify_env \<Rightarrow> int \<Rightarrow> notification_content \<Rightarrow> (int \<times> notification_content) option" where
  "to_owner env account_id content =
     (case get_owner_user_id (ne_http env) account_id of OwnerIs u \<Rightarrow> Some (u, content) | _ \<Rightarrow> None)"

fun wanted :: "notify_env \<Rightarrow> trigger_event \<Rightarrow> (int \<times> notification_content) option" where
  "wanted env (BankSyncCompleted e) =
     (if should_notify_bank_sync (bs_scheduled e) (bs_new_imported e) (bs_errors e) (bs_parse_skipped e)
      then Some (bs_user_id e, build_bank_sync_completed (bs_new_imported e) (bs_errors e)) else None)"
| "wanted env (GoalUpdatedTrigger e) =
     (case (parse_decimal (ge_target_amount e), parse_decimal (ge_current_amount e)) of
        (Some target, Some current) \<Rightarrow>
          if target \<le> 0 \<or> current < target then None else Some (ge_user_id e, build_goal_reached (ge_name e) target)
      | _ \<Rightarrow> None)"
| "wanted env (GoalReachedTrigger e) =
     (case parse_decimal (gr_target_amount e) of
        None \<Rightarrow> None | Some target \<Rightarrow> to_owner env (gr_account_id e) (build_goal_reached (gr_name e) target))"
| "wanted env (MonthClosedTrigger e) =
     to_owner env (mc_account_id e) (build_budget_month_closed (mc_year e) (mc_month e) (mc_surplus_amount e))"
| "wanted env (ThresholdTrigger e) =
     to_owner env (lt_account_id e)
       (build_budget_line_threshold_crossed (lt_category_name e) (lt_percentage_used e) (lt_threshold e) (lt_days_remaining e))"

type_synonym trigger_delivery = "notify_env \<times> trigger_event"

definition notify :: "trigger_delivery \<Rightarrow> notification_db \<Rightarrow> notification_db" where
  "notify x db = snd (notification_consumer (fst x) (Some (snd x)) db)"

definition notify_key :: "trigger_delivery \<Rightarrow> string" where
  "notify_key x = trigger_key (snd x)"

definition deliverable :: "trigger_delivery \<Rightarrow> bool" where
  "deliverable x \<longleftrightarrow> wanted (fst x) (snd x) \<noteq> None \<and> length (notify_key x) \<le> 200"

definition feed_keys :: "notification_db \<Rightarrow> string set" where
  "feed_keys db = nt_source_key ` set (nd_rows db)"

definition new_row :: "trigger_delivery \<Rightarrow> nat \<Rightarrow> notification" where
  "new_row x i =
     (case wanted (fst x) (snd x) of
        Some (u, c) \<Rightarrow> \<lparr>nt_id = i, nt_user = u, nt_type = nc_type c, nt_title = nc_title c, nt_body = nc_body c,
          nt_source_key = notify_key x, nt_created_at = ne_now (fst x), nt_read_at = None, nt_dismissed_at = None\<rparr>
      | None \<Rightarrow> undefined)"

text \<open>What one delivery does to the feed.\<close>

lemma notify_create_effect:
  "snd (case notify_create env u c k db of
          Inr (_, db') \<Rightarrow> (Handled, db') | Inl e \<Rightarrow> (if e = NotifIntegrityError then (Handled, db) else (HandlerError, db))) =
   (if k \<in> feed_keys db \<or> 200 < length k then db
    else db\<lparr>nd_rows := nd_rows db @ [\<lparr>nt_id = nd_next db, nt_user = u, nt_type = nc_type c, nt_title = nc_title c, nt_body = nc_body c,
          nt_source_key = k, nt_created_at = ne_now env, nt_read_at = None, nt_dismissed_at = None\<rparr>],
        nd_next := nd_next db + 1,
        nd_emails := (if ne_email_ok env then nd_emails db @ [(u, nc_title c, nc_body c)] else nd_emails db)\<rparr>)"
proof -
  have k: "source_key_exists k db \<longleftrightarrow> k \<in> feed_keys db" "list_ex (\<lambda>n. nt_source_key n = k) (nd_rows db) \<longleftrightarrow> k \<in> feed_keys db"
    by (auto simp: source_key_exists_def feed_keys_def list_ex_iff)
  show ?thesis by (simp add: notify_create_def notif_add_def k)
qed

lemma notify_owner_effect:
  "snd (case notify_owner env a c k db of
          Inr (_, db') \<Rightarrow> (Handled, db') | Inl e \<Rightarrow> (if e = NotifIntegrityError then (Handled, db) else (HandlerError, db))) =
   (case to_owner env a c of None \<Rightarrow> db
    | Some (u, c) \<Rightarrow> snd (case notify_create env u c k db of
          Inr (_, db') \<Rightarrow> (Handled, db') | Inl e \<Rightarrow> (if e = NotifIntegrityError then (Handled, db) else (HandlerError, db))))"
  by (cases "get_owner_user_id (ne_http env) a") (simp_all add: notify_owner_def to_owner_def)

lemma notify_effect:
  "notify x db = (if deliverable x \<and> notify_key x \<notin> feed_keys db
     then db\<lparr>nd_rows := nd_rows db @ [new_row x (nd_next db)], nd_next := nd_next db + 1, nd_emails := nd_emails (notify x db)\<rparr>
     else db)"
proof -
  obtain env ev where x: "x = (env, ev)" by (cases x)
  have "notify x db = (case wanted env ev of None \<Rightarrow> db
    | Some (u, c) \<Rightarrow> snd (case notify_create env u c (trigger_key ev) db of
          Inr (_, db') \<Rightarrow> (Handled, db') | Inl e \<Rightarrow> (if e = NotifIntegrityError then (Handled, db) else (HandlerError, db))))"
  proof (cases ev)
    case (BankSyncCompleted e)
    then show ?thesis by (simp add: x notify_def notification_consumer_def notify_dispatch_def handle_bank_sync_completed_def cong: option.case_cong)
  next
    case (GoalUpdatedTrigger e)
    then show ?thesis
      by (cases "parse_decimal (ge_target_amount e)"; cases "parse_decimal (ge_current_amount e)")
        (simp_all add: x notify_def notification_consumer_def notify_dispatch_def handle_goal_updated_def of_option_def cong: option.case_cong)
  next
    case (GoalReachedTrigger e)
    then show ?thesis
      by (cases "parse_decimal (gr_target_amount e)")
        (simp_all add: x notify_def notification_consumer_def notify_dispatch_def handle_goal_reached_def of_option_def notify_owner_effect cong: option.case_cong)
  next
    case (MonthClosedTrigger e)
    then show ?thesis
      by (simp add: x notify_def notification_consumer_def notify_dispatch_def handle_budget_month_closed_def notify_owner_effect cong: option.case_cong)
  next
    case (ThresholdTrigger e)
    then show ?thesis
      by (simp add: x notify_def notification_consumer_def notify_dispatch_def handle_budget_line_threshold_crossed_def notify_owner_effect cong: option.case_cong)
  qed
  then show ?thesis
    by (cases "wanted env ev") (auto simp: notify_create_effect deliverable_def notify_key_def new_row_def x)
qed

lemma notify_keys: "feed_keys (notify x db) = (if deliverable x then insert (notify_key x) (feed_keys db) else feed_keys db)"
proof (cases "deliverable x \<and> notify_key x \<notin> feed_keys db")
  case True
  then have "nd_rows (notify x db) = nd_rows db @ [new_row x (nd_next db)]" by (subst notify_effect) simp
  moreover have "nt_source_key (new_row x i) = notify_key x" for i
    using True by (auto simp: new_row_def deliverable_def)
  ultimately show ?thesis using True by (simp add: feed_keys_def)
next
  case False
  then have "notify x db = db" by (subst notify_effect) auto
  then show ?thesis using False by auto
qed

interpretation feed: idempotent_consumer notify notify_key deliverable feed_keys "\<lambda>_. True"
proof
  show "notify x db = db" if "notify_key x \<in> feed_keys db" for x db using that by (subst notify_effect) simp
  show "notify x db = db" if "\<not> deliverable x" for x db using that by (subst notify_effect) simp
qed (auto simp: notify_keys)

section \<open>The feed under all operations\<close>

datatype feed_op =
    FeedEvent trigger_delivery
  | FeedMarkRead instant nat int
  | FeedMarkAllRead instant int
  | FeedDismiss instant nat int

fun apply_feed_op :: "feed_op \<Rightarrow> notification_db \<Rightarrow> notification_db" where
  "apply_feed_op (FeedEvent x) db = notify x db"
| "apply_feed_op (FeedMarkRead now i u) db = snd (mark_read now i u db)"
| "apply_feed_op (FeedMarkAllRead now u) db = snd (mark_all_read now u db)"
| "apply_feed_op (FeedDismiss now i u) db = snd (dismiss now i u db)"

fun feed_event :: "feed_op \<Rightarrow> trigger_delivery option" where
  "feed_event (FeedEvent x) = (if deliverable x then Some x else None)"
| "feed_event _ = None"

abbreviation row_keys :: "notification_db \<Rightarrow> string list" where
  "row_keys db \<equiv> map nt_source_key (nd_rows db)"

lemma feed_op_keys:
  "row_keys (apply_feed_op p db) =
     row_keys db @ (case feed_event p of None \<Rightarrow> [] | Some x \<Rightarrow> if notify_key x \<in> feed_keys db then [] else [notify_key x])"
proof (cases p)
  case (FeedEvent x)
  show ?thesis
  proof (cases "deliverable x \<and> notify_key x \<notin> feed_keys db")
    case True
    then have "nd_rows (notify x db) = nd_rows db @ [new_row x (nd_next db)]" by (subst notify_effect) simp
    moreover have "nt_source_key (new_row x i) = notify_key x" for i
      using True by (auto simp: new_row_def deliverable_def)
    ultimately show ?thesis using True FeedEvent by simp
  next
    case False
    then have "notify x db = db" by (subst notify_effect) auto
    then show ?thesis using False FeedEvent by auto
  qed
qed (simp_all add: mark_read_def mark_all_read_def dismiss_def Let_def map_update_where)

text \<open>
  C12. Users are notified exactly once: whatever events are delivered and redelivered and whatever users read or
  dismiss in between, the feed grows by exactly one row for the first deliverable event of every source key that
  it does not know yet, in that order.  So a stateless producer may announce a crossed budget line at every tick,
  and a goal that both its paths report as reached is announced once.
\<close>

theorem notified_exactly_once:
  "row_keys (fold apply_feed_op ps db) =
     row_keys db @ map notify_key (firsts notify_key (feed_keys db) (List.map_filter feed_event ps))"
proof (induction ps arbitrary: db)
  case (Cons p ps)
  have keys: "feed_keys (apply_feed_op p db) =
      (case feed_event p of None \<Rightarrow> feed_keys db | Some x \<Rightarrow> insert (notify_key x) (feed_keys db))"
  proof -
    have "feed_keys (apply_feed_op p db) = set (row_keys (apply_feed_op p db))" by (simp add: feed_keys_def)
    also have "\<dots> = feed_keys db \<union>
        set (case feed_event p of None \<Rightarrow> [] | Some x \<Rightarrow> if notify_key x \<in> feed_keys db then [] else [notify_key x])"
      by (simp only: feed_op_keys) (simp add: feed_keys_def)
    also have "\<dots> = (case feed_event p of None \<Rightarrow> feed_keys db | Some x \<Rightarrow> insert (notify_key x) (feed_keys db))"
      by (cases "feed_event p") auto
    finally show ?thesis .
  qed
  show ?case
    using Cons.IH [of "apply_feed_op p db"] keys
    by (cases "feed_event p") (auto simp: feed_op_keys map_filter_simps insert_absorb)
qed (simp add: map_filter_simps)

end
