(* ===== verification/Transactions.thy ===== *)
theory Transactions
  imports Notifications BankSyncSaga
begin

text \<open>
  transaction-service: the transaction table with its repository
  (\<open>app/adapters/outbound/postgres_transaction_repository.py\<close>), the use cases (\<open>app/application/service.py\<close>), the
  consumer of the saga commands (\<open>app/workers/saga_command_consumer.py\<close>), the consumer of categorizations
  (\<open>app/workers/categorized_consumer.py\<close>) and the consumer that keeps the local copy of the taxonomy
  (\<open>app/workers/taxonomy_sync_consumer.py\<close>).

  Amounts are \<open>Numeric(12, 2)\<close>, so a row holds cents.  Rows are never removed, a delete stamps \<open>deleted_at\<close>;
  primary keys come from a counter.  The answer of categorization-service is a parameter, one function for its
  single and its batch endpoint.  The columns nobody reads (\<open>updated_at\<close>) are left out.  A character is one of
  the first 256 code points, so the lengths that columns and validators bound are lengths of strings here.
\<close>

section \<open>Entities\<close>

datatype transaction_type = Income | Expense

fun tt_value :: "transaction_type \<Rightarrow> string" where
  "tt_value Income = ''income''"
| "tt_value Expense = ''expense''"

datatype direction = Incoming | Outgoing

fun direction_of :: "transaction_type \<Rightarrow> direction" where
  "direction_of Income = Incoming"
| "direction_of Expense = Outgoing"

record tx_row =
  tx_id :: int
  tx_user :: int
  tx_account :: int
  tx_account_name :: string
  tx_category_id :: "int option"
  tx_category_name :: "string option"
  tx_amount :: int
  tx_type :: transaction_type
  tx_description :: "string option"
  tx_date :: date
  tx_external_id :: "string option"
  tx_currency :: string
  tx_subcategory_id :: "int option"
  tx_subcategory_name :: "string option"
  tx_tier :: "string option"
  tx_confidence :: "string option"
  tx_deleted_at :: "instant option"
  tx_created_at :: instant

definition tx_live :: "tx_row \<Rightarrow> bool" where
  "tx_live r \<longleftrightarrow> tx_deleted_at r = None"

record planned_row =
  pl_id :: int
  pl_user :: int
  pl_account :: int
  pl_account_name :: string
  pl_category_id :: "int option"
  pl_category_name :: "string option"
  pl_amount :: int
  pl_type :: transaction_type
  pl_description :: "string option"
  pl_recurrence :: string
  pl_next_execution :: date
  pl_active :: bool
  pl_created_at :: instant

record category_copy =
  cc_name :: string
  cc_type :: string
  cc_identity :: dict

record subcategory_copy =
  sc_name :: string
  sc_category_id :: int
  sc_is_default :: bool
  sc_parent_public_id :: json
  sc_is_fallback :: json
  sc_identity :: dict

section \<open>Events\<close>

record tx_corrected_event =
  co_transaction_id :: int
  co_account_id :: int
  co_user_id :: int
  co_description :: string
  co_category_id :: int
  co_category_name :: string
  co_subcategory_id :: "int option"
  co_subcategory_name :: "string option"
  co_previous_category_id :: "int option"
  co_previous_subcategory_id :: "int option"

text \<open>The fields a created or updated event has beyond the common ones: the account name and, in turn, the
  external id with the currency and the previous amount with the previous category.\<close>

datatype tx_event =
    TransactionCreatedEvent tx_core_event string "string option" string
  | TransactionUpdatedEvent tx_core_event string string string
  | TransactionDeletedEvent int int int string
  | TransactionCategoryCorrectedEvent tx_corrected_event

fun tx_event_type :: "tx_event \<Rightarrow> string" where
  "tx_event_type (TransactionCreatedEvent _ _ _ _) = ''transaction.created''"
| "tx_event_type (TransactionUpdatedEvent _ _ _ _) = ''transaction.updated''"
| "tx_event_type (TransactionDeletedEvent _ _ _ _) = ''transaction.deleted''"
| "tx_event_type (TransactionCategoryCorrectedEvent _) = ''transaction.category_corrected''"

section \<open>The database\<close>

record tx_db =
  td_rows :: "tx_row list"
  td_next :: int
  td_planned :: "planned_row list"
  td_next_planned :: int
  td_categories :: "(int \<times> category_copy) list"
  td_subcategories :: "(int \<times> subcategory_copy) list"
  td_outbox :: "tx_event outbox"
  td_processed :: "(string \<times> string) list"

datatype tx_error =
    TransactionNotFound int
  | PlannedTransactionNotFound int
  | SubcategoryNotFound int
  | SubcategoryMismatch int "int option"
  | CSVImportError
  | TxValidationError
  | TxIntegrityError
  | TxDataError
  | TxDbDown
  | TxPyError py_error

section \<open>The transaction repository\<close>

definition tx_get :: "int \<Rightarrow> int \<Rightarrow> tx_db \<Rightarrow> tx_row option" where
  "tx_get transaction_id user_id db =
     List.find (\<lambda>r. tx_id r = transaction_id \<and> tx_user r = user_id \<and> tx_live r) (td_rows db)"

definition opt_len :: "nat \<Rightarrow> string option \<Rightarrow> bool" where
  "opt_len n s = (case s of None \<Rightarrow> True | Some t \<Rightarrow> length t \<le> n)"

text \<open>What the column types accept, and the partial unique index on the account and the external id.\<close>

definition columns_fit :: "tx_row \<Rightarrow> bool" where
  "columns_fit r \<longleftrightarrow>
     length (tx_account_name r) \<le> 100 \<and> opt_len 100 (tx_category_name r) \<and> \<bar>tx_amount r\<bar> < 10 ^ 12 \<and>
     opt_len 500 (tx_description r) \<and> opt_len 128 (tx_external_id r) \<and> length (tx_currency r) \<le> 3 \<and>
     opt_len 100 (tx_subcategory_name r) \<and> opt_len 20 (tx_tier r) \<and> opt_len 10 (tx_confidence r)"

definition ext_key :: "tx_row \<Rightarrow> (int \<times> string) option" where
  "ext_key r = (if tx_live r then map_option (Pair (tx_account r)) (tx_external_id r) else None)"

definition ext_taken :: "(int \<times> string) option \<Rightarrow> tx_row list \<Rightarrow> bool" where
  "ext_taken k rows \<longleftrightarrow> k \<noteq> None \<and> list_ex (\<lambda>r. ext_key r = k) rows"

definition tx_insert :: "tx_row \<Rightarrow> tx_db \<Rightarrow> tx_error + (tx_row \<times> tx_db)" where
  "tx_insert r db =
     (let r' = r\<lparr>tx_id := td_next db\<rparr> in
      bindE (guardE (columns_fit r') TxDataError) (\<lambda>_.
      bindE (guardE (\<not> ext_taken (ext_key r') (td_rows db)) TxIntegrityError) (\<lambda>_.
      Inr (r', db\<lparr>td_rows := td_rows db @ [r'], td_next := td_next db + 1\<rparr>))))"

record tx_filters =
  fi_account :: "int option"
  fi_category :: "int option"
  fi_start :: "date option"
  fi_end :: "date option"
  fi_type :: "transaction_type option"

definition filter_clauses :: "int \<Rightarrow> tx_filters \<Rightarrow> tx_row \<Rightarrow> bool" where
  "filter_clauses user_id f r \<longleftrightarrow>
     tx_user r = user_id \<and> tx_live r \<and>
     (case fi_account f of None \<Rightarrow> True | Some a \<Rightarrow> tx_account r = a) \<and>
     (case fi_category f of None \<Rightarrow> True | Some c \<Rightarrow> tx_category_id r = Some c) \<and>
     (case fi_start f of None \<Rightarrow> True | Some d \<Rightarrow> d \<le> tx_date r) \<and>
     (case fi_end f of None \<Rightarrow> True | Some d \<Rightarrow> tx_date r \<le> d) \<and>
     (case fi_type f of None \<Rightarrow> True | Some t \<Rightarrow> tx_type r = t)"

definition find_filtered :: "int \<Rightarrow> tx_filters \<Rightarrow> nat \<Rightarrow> nat \<Rightarrow> tx_db \<Rightarrow> tx_row list" where
  "find_filtered user_id f skip limit db =
     take limit (drop skip (rev (sort_key tx_date (sort_key tx_id (filter (filter_clauses user_id f) (td_rows db))))))"

definition count_filtered :: "int \<Rightarrow> tx_filters \<Rightarrow> tx_db \<Rightarrow> nat" where
  "count_filtered user_id f db = length (filter (filter_clauses user_id f) (td_rows db))"

definition tx_delete :: "instant \<Rightarrow> int \<Rightarrow> int \<Rightarrow> tx_db \<Rightarrow> bool \<times> tx_db" where
  "tx_delete now transaction_id user_id db =
     (let hit = (\<lambda>r. tx_id r = transaction_id \<and> tx_user r = user_id \<and> tx_live r) in
      (list_ex hit (td_rows db),
       db\<lparr>td_rows := update_where hit (\<lambda>r. r\<lparr>tx_deleted_at := Some now\<rparr>) (td_rows db)\<rparr>))"

text \<open>
  The keyword arguments of \<open>update\<close>: an absent key is \<open>None\<close>, an explicit null is \<open>Some None\<close>.  A null in a
  column that forbids it raises at the flush.
\<close>

record tx_fields =
  uf_account_id :: "int option option"
  uf_account_name :: "string option option"
  uf_category_id :: "int option option"
  uf_category_name :: "string option option"
  uf_subcategory_id :: "int option option"
  uf_amount :: "int option option"
  uf_type :: "transaction_type option option"
  uf_description :: "string option option"
  uf_date :: "date option option"
  uf_tier :: "string option option"
  uf_subcategory_name :: "string option option"

definition set_or :: "'a \<Rightarrow> 'a option \<Rightarrow> 'a" where
  "set_or old v = (case v of None \<Rightarrow> old | Some x \<Rightarrow> x)"

definition set_not_null :: "'a \<Rightarrow> 'a option option \<Rightarrow> tx_error + 'a" where
  "set_not_null old v = (case v of None \<Rightarrow> Inr old | Some None \<Rightarrow> Inl TxIntegrityError | Some (Some x) \<Rightarrow> Inr x)"

definition apply_fields :: "tx_fields \<Rightarrow> tx_row \<Rightarrow> tx_error + tx_row" where
  "apply_fields f r =
     bindE (set_not_null (tx_account r) (uf_account_id f)) (\<lambda>account.
     bindE (set_not_null (tx_account_name r) (uf_account_name f)) (\<lambda>account_name.
     bindE (set_not_null (tx_amount r) (uf_amount f)) (\<lambda>amount.
     bindE (set_not_null (tx_type r) (uf_type f)) (\<lambda>ttype.
     bindE (set_not_null (tx_date r) (uf_date f)) (\<lambda>dt.
     Inr (r\<lparr>tx_account := account, tx_account_name := account_name, tx_amount := amount, tx_type := ttype, tx_date := dt,
            tx_category_id := set_or (tx_category_id r) (uf_category_id f),
            tx_category_name := set_or (tx_category_name r) (uf_category_name f),
            tx_subcategory_id := set_or (tx_subcategory_id r) (uf_subcategory_id f),
            tx_subcategory_name := set_or (tx_subcategory_name r) (uf_subcategory_name f),
            tx_description := set_or (tx_description r) (uf_description f),
            tx_tier := set_or (tx_tier r) (uf_tier f)\<rparr>))))))"

definition tx_update :: "int \<Rightarrow> int \<Rightarrow> tx_fields \<Rightarrow> tx_db \<Rightarrow> tx_error + (tx_row \<times> tx_db)" where
  "tx_update transaction_id user_id f db =
     bindE (of_option (TransactionNotFound transaction_id) (tx_get transaction_id user_id db)) (\<lambda>r.
     bindE (apply_fields f r) (\<lambda>r'.
     bindE (guardE (columns_fit r') TxDataError) (\<lambda>_.
     bindE (guardE (\<not> ext_taken (ext_key r') (filter (\<lambda>q. tx_id q \<noteq> transaction_id) (td_rows db))) TxIntegrityError) (\<lambda>_.
     Inr (r', db\<lparr>td_rows := update_where (\<lambda>q. tx_id q = transaction_id) (\<lambda>_. r') (td_rows db)\<rparr>)))))"

text \<open>The batch lookups run over chunks of the keys.\<close>

type_synonym dedup_key = "int \<times> date \<times> int \<times> string option"

definition row_key :: "tx_row \<Rightarrow> dedup_key" where
  "row_key r = (tx_account r, tx_date r, tx_amount r, tx_description r)"

definition DEDUP_CHUNK_SIZE :: nat where "DEDUP_CHUNK_SIZE = 500"

function chunks :: "nat \<Rightarrow> 'a list \<Rightarrow> 'a list list" where
  "chunks n xs = (if n = 0 \<or> xs = [] then [] else take n xs # chunks n (drop n xs))"
  by pat_completeness auto
termination by (relation "measure (\<lambda>(n, xs). length xs)") auto

declare chunks.simps [simp del]

definition find_existing_dedup_keys :: "int \<Rightarrow> dedup_key list \<Rightarrow> bool \<Rightarrow> tx_db \<Rightarrow> dedup_key set" where
  "find_existing_dedup_keys user_id ks only_missing_external_id db =
     (if ks = [] then {}
      else
        (let triples = remdups (map (\<lambda>(a, d, c, _). (a, d, c)) ks);
             candidates = concat (map (\<lambda>chunk.
               map row_key (filter (\<lambda>r. tx_user r = user_id \<and> tx_live r \<and> (tx_account r, tx_date r, tx_amount r) \<in> set chunk \<and>
                 (only_missing_external_id \<longrightarrow> tx_external_id r = None)) (td_rows db))) (chunks DEDUP_CHUNK_SIZE triples))
         in set candidates \<inter> set ks))"

definition find_existing_external_ids :: "int \<Rightarrow> (int \<times> string) list \<Rightarrow> tx_db \<Rightarrow> (int \<times> string) set" where
  "find_existing_external_ids user_id ks db =
     (if ks = [] then {}
      else set (concat (map (\<lambda>chunk.
        List.map_filter (\<lambda>r. case tx_external_id r of
            Some x \<Rightarrow> if tx_user r = user_id \<and> tx_live r \<and> (tx_account r, x) \<in> set chunk then Some (tx_account r, x) else None
          | None \<Rightarrow> None) (td_rows db)) (chunks DEDUP_CHUNK_SIZE (remdups ks)))))"

text \<open>The rows of a batch are inserted by one flush: one bad row fails them all.\<close>

fun bulk_create :: "tx_row list \<Rightarrow> tx_db \<Rightarrow> tx_error + (tx_row list \<times> tx_db)" where
  "bulk_create [] db = Inr ([], db)"
| "bulk_create (r # rs) db =
     bindE (tx_insert r db) (\<lambda>(r', db').
     bindE (bulk_create rs db') (\<lambda>(created, db''). Inr (r' # created, db'')))"

section \<open>Names from the local copy of the taxonomy\<close>

definition resolve_category_name :: "tx_db \<Rightarrow> int option \<Rightarrow> string option \<Rightarrow> string option" where
  "resolve_category_name db category_id fallback =
     (case category_id of None \<Rightarrow> fallback
      | Some c \<Rightarrow> (case map_of (td_categories db) c of None \<Rightarrow> fallback | Some k \<Rightarrow> Some (cc_name k)))"

definition resolve_subcategory_name :: "tx_db \<Rightarrow> int option \<Rightarrow> string option" where
  "resolve_subcategory_name db subcategory_id =
     (case subcategory_id of None \<Rightarrow> None | Some s \<Rightarrow> map_option sc_name (map_of (td_subcategories db) s))"

definition resolve_names :: "tx_db \<Rightarrow> tx_row \<Rightarrow> tx_row" where
  "resolve_names db r =
     r\<lparr>tx_category_name := (case tx_category_id r of None \<Rightarrow> tx_category_name r
         | Some c \<Rightarrow> (case map_of (td_categories db) c of None \<Rightarrow> tx_category_name r | Some k \<Rightarrow> Some (cc_name k))),
       tx_subcategory_name := (case tx_subcategory_id r of None \<Rightarrow> tx_subcategory_name r
         | Some s \<Rightarrow> (case map_of (td_subcategories db) s of None \<Rightarrow> tx_subcategory_name r | Some k \<Rightarrow> Some (sc_name k)))\<rparr>"

section \<open>Events of a row\<close>

definition or_empty :: "string option \<Rightarrow> string" where
  "or_empty s = (case s of None \<Rightarrow> [] | Some t \<Rightarrow> t)"

definition core_event :: "tx_row \<Rightarrow> tx_core_event" where
  "core_event r =
     \<lparr>te_transaction_id = tx_id r, te_account_id = tx_account r, te_user_id = tx_user r, te_amount = show_cents (tx_amount r),
      te_transaction_type = tt_value (tx_type r), te_tx_date = tx_date r, te_category_id = tx_category_id r,
      te_category = or_empty (tx_category_name r), te_description = or_empty (tx_description r),
      te_subcategory_id = tx_subcategory_id r, te_categorization_tier = tx_tier r,
      te_categorization_confidence = tx_confidence r\<rparr>"

definition created_event :: "tx_row \<Rightarrow> tx_event" where
  "created_event r = TransactionCreatedEvent (core_event r) (tx_account_name r) (tx_external_id r) (tx_currency r)"

definition tx_outbox_add :: "instant \<Rightarrow> tx_event \<Rightarrow> int \<Rightarrow> tx_db \<Rightarrow> tx_db" where
  "tx_outbox_add now ev transaction_id db =
     db\<lparr>td_outbox := ob_add now (tx_event_type ev) ev None ''transaction'' (show_int transaction_id) (td_outbox db)\<rparr>"

definition tx_outbox_add_batch :: "instant \<Rightarrow> tx_row list \<Rightarrow> tx_db \<Rightarrow> tx_db" where
  "tx_outbox_add_batch now created db =
     db\<lparr>td_outbox := ob_add_entries now
          (map (\<lambda>r. (''transaction.created'', created_event r, None, ''transaction'', show_int (tx_id r))) created) (td_outbox db)\<rparr>"

section \<open>The categorizer\<close>

record cat_result =
  cr_category_id :: int
  cr_subcategory_id :: int
  cr_tier :: string
  cr_confidence :: string

text \<open>\<open>None\<close>: no client is wired in.  The amounts go out as floats.\<close>

type_synonym cat_client = "((string \<times> rat \<times> direction) list \<Rightarrow> cat_result option list) option"

definition needs_category :: "string option \<Rightarrow> bool" where
  "needs_category tier \<longleftrightarrow> (case tier of None \<Rightarrow> True | Some t \<Rightarrow> t = [] \<or> t = ''fallback'')"

text \<open>The caller's parent category wins over the categorizer's.\<close>

definition accept_category :: "cat_result \<Rightarrow> tx_row \<Rightarrow> tx_row" where
  "accept_category c r =
     (let r' = (if tx_category_id r = None
                then r\<lparr>tx_category_id := Some (cr_category_id c), tx_subcategory_id := Some (cr_subcategory_id c)\<rparr>
                else if tx_category_id r = Some (cr_category_id c) then r\<lparr>tx_subcategory_id := Some (cr_subcategory_id c)\<rparr>
                else r)
      in r'\<lparr>tx_tier := Some (cr_tier c), tx_confidence := Some (cr_confidence c)\<rparr>)"

definition cat_request :: "tx_row \<Rightarrow> string \<times> rat \<times> direction" where
  "cat_request r = (or_empty (tx_description r), fl (dec (tx_amount r)), direction_of (tx_type r))"

fun enrich :: "tx_row list \<Rightarrow> cat_result option list \<Rightarrow> tx_row list" where
  "enrich [] cs = []"
| "enrich (r # rs) cs =
     (if needs_category (tx_tier r)
      then (case cs of
              [] \<Rightarrow> r # enrich rs []
            | None # cs' \<Rightarrow> r # enrich rs cs'
            | Some c # cs' \<Rightarrow> accept_category c r # enrich rs cs')
      else r # enrich rs cs)"

section \<open>Use cases\<close>

record create_dto =
  cd_account_id :: int
  cd_account_name :: string
  cd_category_id :: "int option"
  cd_category_name :: "string option"
  cd_amount :: int
  cd_type :: transaction_type
  cd_description :: "string option"
  cd_date :: date
  cd_subcategory_id :: "int option"
  cd_tier :: "string option"
  cd_confidence :: "string option"

record bulk_item = create_dto +
  bi_external_id :: "string option"
  bi_currency :: string

definition draft_row :: "instant \<Rightarrow> int \<Rightarrow> ('a create_dto_scheme) \<Rightarrow> tx_row" where
  "draft_row now user_id d =
     \<lparr>tx_id = 0, tx_user = user_id, tx_account = cd_account_id d, tx_account_name = cd_account_name d,
      tx_category_id = cd_category_id d, tx_category_name = cd_category_name d, tx_amount = cd_amount d, tx_type = cd_type d,
      tx_description = cd_description d, tx_date = cd_date d, tx_external_id = None, tx_currency = ''DKK'',
      tx_subcategory_id = cd_subcategory_id d, tx_subcategory_name = None, tx_tier = cd_tier d, tx_confidence = cd_confidence d,
      tx_deleted_at = None, tx_created_at = now\<rparr>"

definition create_transaction ::
  "cat_client \<Rightarrow> instant \<Rightarrow> int \<Rightarrow> create_dto \<Rightarrow> tx_db \<Rightarrow> tx_error + (tx_row \<times> tx_db)" where
  "create_transaction client now user_id dto db =
     (let r = draft_row now user_id dto;
          already_categorized = (tx_tier r \<noteq> None \<and> tx_tier r \<noteq> Some ''fallback'');
          r1 = (case client of
                  Some f \<Rightarrow>
                    if already_categorized then r
                    else (case f [cat_request r] of Some c # _ \<Rightarrow> accept_category c r | _ \<Rightarrow> r)
                | None \<Rightarrow> r);
          r2 = r1\<lparr>tx_category_name := resolve_category_name db (tx_category_id r1) (tx_category_name r1),
                 tx_subcategory_name := resolve_subcategory_name db (tx_subcategory_id r1)\<rparr>
      in bindE (tx_insert r2 db) (\<lambda>(r', db').
         Inr (r', tx_outbox_add now (created_event r') (tx_id r') db')))"

definition get_transaction :: "int \<Rightarrow> int \<Rightarrow> tx_db \<Rightarrow> tx_error + tx_row" where
  "get_transaction transaction_id user_id db = of_option (TransactionNotFound transaction_id) (tx_get transaction_id user_id db)"

definition list_transactions :: "int \<Rightarrow> tx_filters \<Rightarrow> nat \<Rightarrow> nat \<Rightarrow> tx_db \<Rightarrow> nat \<times> tx_row list" where
  "list_transactions user_id f skip limit db = (count_filtered user_id f db, find_filtered user_id f skip limit db)"

definition no_fields :: "tx_fields \<Rightarrow> bool" where
  "no_fields f \<longleftrightarrow>
     uf_account_id f = None \<and> uf_account_name f = None \<and> uf_category_id f = None \<and> uf_category_name f = None \<and>
     uf_subcategory_id f = None \<and> uf_amount f = None \<and> uf_type f = None \<and> uf_description f = None \<and> uf_date f = None"

definition is_category_correction :: "tx_fields \<Rightarrow> bool" where
  "is_category_correction f \<longleftrightarrow> uf_category_id f \<noteq> None \<or> uf_category_name f \<noteq> None \<or> uf_subcategory_id f \<noteq> None"

text \<open>The first adjustment of the fields: a manual edit pins the tier, a new parent category drops the old subcategory.\<close>

definition pin_manual :: "tx_db \<Rightarrow> tx_row \<Rightarrow> tx_fields \<Rightarrow> tx_fields" where
  "pin_manual db existing f =
     (if is_category_correction f
      then
        (let f1 = f\<lparr>uf_tier := Some (Some ''manual'')\<rparr> in
         case uf_category_id f1 of
           Some cid \<Rightarrow>
             if cid \<noteq> tx_category_id existing
             then f1\<lparr>uf_subcategory_id := (case uf_subcategory_id f1 of None \<Rightarrow> Some None | v \<Rightarrow> v),
                     uf_subcategory_name := (case uf_subcategory_name f1 of None \<Rightarrow> Some None | v \<Rightarrow> v),
                     uf_category_name := Some (resolve_category_name db cid (set_or None (uf_category_name f1)))\<rparr>
             else f1
         | None \<Rightarrow> f1)
      else f)"

definition check_subcategory :: "tx_db \<Rightarrow> tx_row \<Rightarrow> tx_fields \<Rightarrow> tx_error + tx_fields" where
  "check_subcategory db existing f =
     (case uf_subcategory_id f of
        Some (Some s) \<Rightarrow>
          bindE (of_option (SubcategoryNotFound s) (map_of (td_subcategories db) s)) (\<lambda>sub.
          (let effective = set_or (tx_category_id existing) (uf_category_id f) in
           if Some (sc_category_id sub) \<noteq> effective then Inl (SubcategoryMismatch s effective)
           else Inr (f\<lparr>uf_subcategory_name := Some (Some (sc_name sub))\<rparr>)))
      | Some None \<Rightarrow> Inr (f\<lparr>uf_subcategory_name := Some None\<rparr>)
      | None \<Rightarrow> Inr f)"

definition corrected_event :: "tx_row \<Rightarrow> tx_row \<Rightarrow> int \<Rightarrow> tx_event" where
  "corrected_event existing r c =
     TransactionCategoryCorrectedEvent
       \<lparr>co_transaction_id = tx_id r, co_account_id = tx_account r, co_user_id = tx_user r,
        co_description = or_empty (tx_description r), co_category_id = c, co_category_name = or_empty (tx_category_name r),
        co_subcategory_id = tx_subcategory_id r, co_subcategory_name = tx_subcategory_name r,
        co_previous_category_id = tx_category_id existing, co_previous_subcategory_id = tx_subcategory_id existing\<rparr>"

definition update_transaction ::
  "instant \<Rightarrow> int \<Rightarrow> int \<Rightarrow> tx_fields \<Rightarrow> tx_db \<Rightarrow> tx_error + (tx_row \<times> tx_db)" where
  "update_transaction now transaction_id user_id f db =
     bindE (of_option (TransactionNotFound transaction_id) (tx_get transaction_id user_id db)) (\<lambda>existing.
     if no_fields f then Inr (existing, db)
     else
       bindE (check_subcategory db existing (pin_manual db existing f)) (\<lambda>f'.
       bindE (tx_update transaction_id user_id f' db) (\<lambda>(r, db1).
       (let db2 = tx_outbox_add now (TransactionUpdatedEvent (core_event r) (show_cents (tx_amount existing))
                    (or_empty (tx_category_name existing)) (tx_account_name r)) (tx_id r) db1
        in Inr (r, (case tx_category_id r of
                      Some c \<Rightarrow> if is_category_correction f then tx_outbox_add now (corrected_event existing r c) (tx_id r) db2 else db2
                    | None \<Rightarrow> db2))))))"

definition delete_transaction :: "instant \<Rightarrow> int \<Rightarrow> int \<Rightarrow> tx_db \<Rightarrow> tx_error + tx_db" where
  "delete_transaction now transaction_id user_id db =
     bindE (of_option (TransactionNotFound transaction_id) (tx_get transaction_id user_id db)) (\<lambda>r.
     (let (deleted, db') = tx_delete now transaction_id user_id db in
      bindE (guardE deleted (TransactionNotFound transaction_id)) (\<lambda>_.
      Inr (tx_outbox_add now (TransactionDeletedEvent transaction_id (tx_account r) user_id (show_cents (tx_amount r)))
             transaction_id db'))))"

section \<open>Imports\<close>

definition item_key :: "bulk_item \<Rightarrow> dedup_key" where
  "item_key it = (cd_account_id it, cd_date it, cd_amount it, cd_description it)"

definition item_ext :: "bulk_item \<Rightarrow> string option" where
  "item_ext it = (case bi_external_id it of Some [] \<Rightarrow> None | x \<Rightarrow> x)"

definition item_row :: "instant \<Rightarrow> int \<Rightarrow> bulk_item \<Rightarrow> tx_row" where
  "item_row now user_id it = (draft_row now user_id it)\<lparr>tx_external_id := bi_external_id it, tx_currency := bi_currency it\<rparr>"

text \<open>What the lookups before the loop found, and the state of the loop.\<close>

record known_keys =
  kk_existing_ext :: "(int \<times> string) set"
  kk_legacy :: "dedup_key set"
  kk_existing :: "dedup_key set"

record bulk_loop =
  bl_rows :: "bulk_item list"
  bl_duplicates :: nat
  bl_seen_ext :: "(int \<times> string) set"
  bl_seen :: "dedup_key set"

definition lookup_keys :: "int \<Rightarrow> bool \<Rightarrow> bulk_item list \<Rightarrow> tx_db \<Rightarrow> known_keys" where
  "lookup_keys user_id skip_duplicates items db =
     (if skip_duplicates \<and> items \<noteq> []
      then
        (let ext_items = filter (\<lambda>it. item_ext it \<noteq> None) items;
             plain_items = filter (\<lambda>it. item_ext it = None) items
         in \<lparr>kk_existing_ext = find_existing_external_ids user_id
               (map (\<lambda>it. (cd_account_id it, the (item_ext it))) ext_items) db,
             kk_legacy = find_existing_dedup_keys user_id (map item_key ext_items) True db,
             kk_existing = find_existing_dedup_keys user_id (map item_key plain_items) False db\<rparr>)
      else \<lparr>kk_existing_ext = {}, kk_legacy = {}, kk_existing = {}\<rparr>)"

definition bulk_step :: "bool \<Rightarrow> known_keys \<Rightarrow> bulk_item \<Rightarrow> bulk_loop \<Rightarrow> bulk_loop" where
  "bulk_step skip_duplicates known it st =
     (if \<not> skip_duplicates then st\<lparr>bl_rows := bl_rows st @ [it]\<rparr>
      else
        (case item_ext it of
           Some x \<Rightarrow>
             (let k = (cd_account_id it, x) in
              if k \<in> kk_existing_ext known \<or> k \<in> bl_seen_ext st \<or> item_key it \<in> kk_legacy known
              then st\<lparr>bl_duplicates := bl_duplicates st + 1\<rparr>
              else st\<lparr>bl_rows := bl_rows st @ [it], bl_seen_ext := insert k (bl_seen_ext st)\<rparr>)
         | None \<Rightarrow>
             (let k = item_key it in
              if k \<in> kk_existing known \<or> k \<in> bl_seen st
              then st\<lparr>bl_duplicates := bl_duplicates st + 1\<rparr>
              else st\<lparr>bl_rows := bl_rows st @ [it], bl_seen := insert k (bl_seen st)\<rparr>)))"

record bulk_result =
  br_imported :: nat
  br_duplicates :: nat
  br_errors :: nat
  br_imported_ids :: "int list"

definition bulk_dedup :: "int \<Rightarrow> bool \<Rightarrow> bulk_item list \<Rightarrow> tx_db \<Rightarrow> bulk_loop" where
  "bulk_dedup user_id skip_duplicates items db =
     fold (bulk_step skip_duplicates (lookup_keys user_id skip_duplicates items db)) items
       \<lparr>bl_rows = [], bl_duplicates = 0, bl_seen_ext = {}, bl_seen = {}\<rparr>"

definition bulk_enrich :: "cat_client \<Rightarrow> tx_row list \<Rightarrow> tx_row list" where
  "bulk_enrich client rows =
     (let uncategorized = filter (\<lambda>r. needs_category (tx_tier r)) rows in
      case client of
        None \<Rightarrow> rows
      | Some f \<Rightarrow> if uncategorized = [] then rows else enrich rows (f (map cat_request uncategorized)))"

definition bulk_import ::
  "cat_client \<Rightarrow> instant \<Rightarrow> int \<Rightarrow> bool \<Rightarrow> bulk_item list \<Rightarrow> tx_db \<Rightarrow> tx_error + (bulk_result \<times> tx_db)" where
  "bulk_import client now user_id skip_duplicates items db =
     (let st = bulk_dedup user_id skip_duplicates items db;
          rows = map (resolve_names db) (bulk_enrich client (map (item_row now user_id) (bl_rows st)))
      in if rows = []
         then Inr (\<lparr>br_imported = 0, br_duplicates = bl_duplicates st, br_errors = 0, br_imported_ids = []\<rparr>, db)
         else bindE (bulk_create rows db) (\<lambda>(created, db').
              Inr (\<lparr>br_imported = length created, br_duplicates = bl_duplicates st, br_errors = 0,
                     br_imported_ids = map tx_id created\<rparr>,
                   tx_outbox_add_batch now created db')))"

text \<open>The rows a CSV parser returned, after the format of the file was accepted.\<close>

fun csv_dedup :: "dedup_key set \<Rightarrow> bulk_item list \<Rightarrow> dedup_key set \<Rightarrow> bulk_item list \<times> nat" where
  "csv_dedup existing [] seen = ([], 0)"
| "csv_dedup existing (it # items) seen =
     (if item_key it \<in> existing \<or> item_key it \<in> seen
      then (let (rows, n) = csv_dedup existing items seen in (rows, n + 1))
      else (let (rows, n) = csv_dedup existing items (insert (item_key it) seen) in (it # rows, n)))"

definition import_csv_rows :: "instant \<Rightarrow> int \<Rightarrow> bulk_item list \<Rightarrow> tx_db \<Rightarrow> tx_error + ((nat \<times> nat) \<times> tx_db)" where
  "import_csv_rows now user_id items db =
     (if items = [] then Inr ((0, 0), db)
      else
        (let existing = find_existing_dedup_keys user_id (map item_key items) False db;
             (rows, duplicates) = csv_dedup existing items {}
         in if rows = [] then Inr ((0, duplicates), db)
            else bindE (bulk_create (map (item_row now user_id) rows) db) (\<lambda>(created, db').
                 Inr ((length created, duplicates), tx_outbox_add_batch now created db'))))"

section \<open>Planned transactions\<close>

record planned_dto =
  pd_account_id :: int
  pd_account_name :: string
  pd_category_id :: "int option"
  pd_category_name :: "string option"
  pd_amount :: int
  pd_type :: transaction_type
  pd_description :: "string option"
  pd_recurrence :: string
  pd_next_execution :: date

record planned_fields =
  pf_amount :: "int option"
  pf_description :: "string option"
  pf_recurrence :: "string option"
  pf_next_execution :: "date option"
  pf_active :: "bool option"

definition create_planned :: "instant \<Rightarrow> int \<Rightarrow> planned_dto \<Rightarrow> tx_db \<Rightarrow> planned_row \<times> tx_db" where
  "create_planned now user_id d db =
     (let p = \<lparr>pl_id = td_next_planned db, pl_user = user_id, pl_account = pd_account_id d, pl_account_name = pd_account_name d,
               pl_category_id = pd_category_id d, pl_category_name = pd_category_name d, pl_amount = pd_amount d,
               pl_type = pd_type d, pl_description = pd_description d, pl_recurrence = pd_recurrence d,
               pl_next_execution = pd_next_execution d, pl_active = True, pl_created_at = now\<rparr>
      in (p, db\<lparr>td_planned := td_planned db @ [p], td_next_planned := td_next_planned db + 1\<rparr>))"

definition planned_find :: "int \<Rightarrow> int \<Rightarrow> tx_db \<Rightarrow> planned_row option" where
  "planned_find planned_id user_id db = List.find (\<lambda>p. pl_id p = planned_id \<and> pl_user p = user_id) (td_planned db)"

definition list_planned :: "int \<Rightarrow> bool \<Rightarrow> tx_db \<Rightarrow> planned_row list" where
  "list_planned user_id active_only db =
     sort_key pl_next_execution (filter (\<lambda>p. pl_user p = user_id \<and> (active_only \<longrightarrow> pl_active p)) (td_planned db))"

text \<open>The repository skips the fields that are null, so a null changes nothing.\<close>

definition apply_planned :: "planned_fields \<Rightarrow> planned_row \<Rightarrow> planned_row" where
  "apply_planned f p =
     p\<lparr>pl_amount := set_or (pl_amount p) (pf_amount f),
       pl_description := (case pf_description f of None \<Rightarrow> pl_description p | Some d \<Rightarrow> Some d),
       pl_recurrence := set_or (pl_recurrence p) (pf_recurrence f),
       pl_next_execution := set_or (pl_next_execution p) (pf_next_execution f),
       pl_active := set_or (pl_active p) (pf_active f)\<rparr>"

definition planned_write :: "int \<Rightarrow> int \<Rightarrow> (planned_row \<Rightarrow> planned_row) \<Rightarrow> tx_db \<Rightarrow> tx_error + tx_db" where
  "planned_write planned_id user_id change db =
     bindE (of_option (PlannedTransactionNotFound planned_id) (planned_find planned_id user_id db)) (\<lambda>_.
     Inr (db\<lparr>td_planned := update_where (\<lambda>p. pl_id p = planned_id \<and> pl_user p = user_id) change (td_planned db)\<rparr>))"

definition update_planned :: "int \<Rightarrow> int \<Rightarrow> planned_fields \<Rightarrow> tx_db \<Rightarrow> tx_error + tx_db" where
  "update_planned planned_id user_id f db = planned_write planned_id user_id (apply_planned f) db"

definition deactivate_planned :: "int \<Rightarrow> int \<Rightarrow> tx_db \<Rightarrow> tx_error + tx_db" where
  "deactivate_planned planned_id user_id db = planned_write planned_id user_id (\<lambda>p. p\<lparr>pl_active := False\<rparr>) db"

end
