(* ===== verification/TransactionWorkers.thy ===== *)
theory TransactionWorkers
  imports Transactions Embedding
begin

text \<open>
  The workers of transaction-service: the consumer of the saga commands (\<open>app/workers/saga_command_consumer.py\<close>),
  the consumer of categorizations (\<open>app/workers/categorized_consumer.py\<close>), the consumer that keeps the copy of the
  taxonomy (\<open>app/workers/taxonomy_sync_consumer.py\<close>) and the reading of the retry header
  (\<open>app/workers/retry_headers.py\<close>).

  The database may be down for a chunk of an import or for one deletion, and the broker may refuse a
  publication: these are the arguments of a delivery.
\<close>

section \<open>The retry header\<close>

text \<open>The values AMQP can carry in a header, as far as the reader tells them apart.\<close>

datatype amqp_float = Finite rat | NaN | Infinite

datatype amqp_value =
    ABool bool
  | AInt int
  | AFloat amqp_float
  | AText string
  | AOther

text \<open>\<open>int(s)\<close> on a string or on bytes: blanks, a sign, digits with single underscores between them.\<close>

definition int_of_text :: "string \<Rightarrow> int option" where
  "int_of_text s =
     (let (neg, t) = split_sign (strip s); parts = split_on CHR ''_'' t
      in if list_all (\<lambda>p. p \<noteq> [] \<and> list_all is_digit p) parts
         then Some (if neg then - int (digits_val (concat parts)) else int (digits_val (concat parts)))
         else None)"

text \<open>\<open>None\<close>: the conversion of an infinity raises \<open>OverflowError\<close>, which the reader does not catch.\<close>

definition header_retry_count :: "amqp_value option \<Rightarrow> int option" where
  "header_retry_count h =
     (case h of
        None \<Rightarrow> Some 0
      | Some (ABool _) \<Rightarrow> Some 0
      | Some (AInt n) \<Rightarrow> Some n
      | Some (AFloat (Finite x)) \<Rightarrow> Some (if x < 0 then \<lceil>x\<rceil> else \<lfloor>x\<rfloor>)
      | Some (AFloat NaN) \<Rightarrow> Some 0
      | Some (AFloat Infinite) \<Rightarrow> None
      | Some (AText s) \<Rightarrow> Some (case int_of_text s of None \<Rightarrow> 0 | Some n \<Rightarrow> n)
      | Some AOther \<Rightarrow> Some 0)"

section \<open>The items of an import command\<close>

definition AMOUNT_MIN :: rat where "AMOUNT_MIN = 1 / 100"
definition AMOUNT_MAX :: rat where "AMOUNT_MAX = 999999999999 / 100"

definition tx_req :: "dict \<Rightarrow> string \<Rightarrow> tx_error + json" where
  "tx_req d k = of_option (TxPyError (KeyError k)) (dget d k)"

definition tx_decimal :: "json \<Rightarrow> tx_error + rat" where
  "tx_decimal v =
     (case v of
        JStr s \<Rightarrow> of_option TxValidationError (parse_decimal s)
      | _ \<Rightarrow> (case py_int v of Some n \<Rightarrow> Inr (rat_of_int n) | None \<Rightarrow> Inl (TxPyError TypeError)))"

text \<open>The integer, text and date fields a validator accepts; dates are the ISO strings the producer writes.\<close>

definition valid_int :: "json \<Rightarrow> tx_error + int" where
  "valid_int v =
     (case v of JStr s \<Rightarrow> of_option TxValidationError (int_of_text s) | _ \<Rightarrow> of_option TxValidationError (py_int v))"

fun valid_text :: "json \<Rightarrow> tx_error + string" where
  "valid_text (JStr s) = Inr s"
| "valid_text _ = Inl TxValidationError"

fun valid_text_option :: "json \<Rightarrow> tx_error + string option" where
  "valid_text_option (JStr s) = Inr (Some s)"
| "valid_text_option JNull = Inr None"
| "valid_text_option _ = Inl TxValidationError"

definition valid_iso_date :: "json \<Rightarrow> tx_error + date" where
  "valid_iso_date v = bindE (valid_text v) (\<lambda>s. of_option TxValidationError (of_isoformat s))"

definition valid_type :: "json \<Rightarrow> tx_error + transaction_type" where
  "valid_type v =
     (if v = JStr ''income'' then Inr Income else if v = JStr ''expense'' then Inr Expense else Inl TxValidationError)"

text \<open>\<open>(item.get("external_id") or "").strip() or None\<close>.\<close>

definition clean_external_id :: "json \<Rightarrow> tx_error + string option" where
  "clean_external_id v =
     (if \<not> truthy v then Inr None
      else (case v of JStr s \<Rightarrow> Inr (if strip s = [] then None else Some (strip s)) | _ \<Rightarrow> Inl (TxPyError TypeError)))"

definition whole_cents :: "rat \<Rightarrow> bool" where
  "whole_cents x \<longleftrightarrow> of_int \<lfloor>x * 100\<rfloor> = x * 100"

definition make_bulk_item ::
  "json \<Rightarrow> json \<Rightarrow> rat \<Rightarrow> json \<Rightarrow> json \<Rightarrow> json \<Rightarrow> string option \<Rightarrow> json \<Rightarrow> tx_error + bulk_item" where
  "make_bulk_item account_id account_name amount ttype dt description external_id currency =
     bindE (valid_int account_id) (\<lambda>a.
     bindE (valid_text account_name) (\<lambda>nm.
     bindE (valid_type ttype) (\<lambda>t.
     bindE (valid_iso_date dt) (\<lambda>d.
     bindE (valid_text_option description) (\<lambda>ds.
     bindE (valid_text currency) (\<lambda>cu.
     bindE (guardE (a > 0 \<and> length nm \<le> 100 \<and> AMOUNT_MIN \<le> amount \<and> amount \<le> AMOUNT_MAX \<and> whole_cents amount \<and>
                    opt_len 500 ds \<and> opt_len 128 external_id \<and> length cu = 3) TxValidationError) (\<lambda>_.
     Inr \<lparr>cd_account_id = a, cd_account_name = nm, cd_category_id = None, cd_category_name = None, cd_amount = \<lfloor>amount * 100\<rfloor>,
          cd_type = t, cd_description = ds, cd_date = d, cd_subcategory_id = None, cd_tier = None, cd_confidence = None,
          bi_external_id = external_id, bi_currency = cu\<rparr>)))))))"

definition item_of_json :: "json \<Rightarrow> json \<Rightarrow> json \<Rightarrow> tx_error + bulk_item" where
  "item_of_json account_id account_name v =
     (case v of
        JObj item \<Rightarrow>
          bindE (bindE (tx_req item ''amount'') tx_decimal) (\<lambda>amount.
          bindE (tx_req item ''transaction_type'') (\<lambda>ttype.
          bindE (tx_req item ''date'') (\<lambda>dt.
          bindE (clean_external_id (dget_or item ''external_id'' JNull)) (\<lambda>ext.
          (let cur = dget_or item ''currency'' JNull in
           make_bulk_item account_id account_name amount ttype dt (dget_or item ''description'' (JStr []))
             ext (if truthy cur then cur else JStr ''DKK''))))))
      | _ \<Rightarrow> Inl (TxPyError TypeError))"

section \<open>The import command\<close>

definition BULK_IMPORT_CHUNK_SIZE :: nat where "BULK_IMPORT_CHUNK_SIZE = 500"
definition SAGA_MAX_RETRIES :: int where "SAGA_MAX_RETRIES = 3"

fun mapE_tx :: "('a \<Rightarrow> tx_error + 'b) \<Rightarrow> 'a list \<Rightarrow> tx_error + 'b list" where
  "mapE_tx f [] = Inr []"
| "mapE_tx f (x # xs) = bindE (f x) (\<lambda>y. bindE (mapE_tx f xs) (\<lambda>ys. Inr (y # ys)))"

definition add_result :: "bulk_result \<Rightarrow> bulk_result \<Rightarrow> bulk_result" where
  "add_result a b =
     \<lparr>br_imported = br_imported a + br_imported b, br_duplicates = br_duplicates a + br_duplicates b,
      br_errors = br_errors a + br_errors b, br_imported_ids = br_imported_ids a @ br_imported_ids b\<rparr>"

definition no_result :: bulk_result where
  "no_result = \<lparr>br_imported = 0, br_duplicates = 0, br_errors = 0, br_imported_ids = []\<rparr>"

text \<open>Every chunk commits in a transaction of its own: an exception keeps the chunks before it.\<close>

fun import_chunks ::
  "bool list \<Rightarrow> instant \<Rightarrow> int \<Rightarrow> bulk_item list list \<Rightarrow> bulk_result \<Rightarrow> tx_db \<Rightarrow> (tx_error + bulk_result) \<times> tx_db" where
  "import_chunks up now user_id [] acc db = (Inr acc, db)"
| "import_chunks [] now user_id (c # cs) acc db = (Inl TxDbDown, db)"
| "import_chunks (u # up) now user_id (c # cs) acc db =
     (if \<not> u then (Inl TxDbDown, db)
      else
        (case bulk_import None now user_id True c db of
           Inl e \<Rightarrow> (Inl e, db)
         | Inr (res, db') \<Rightarrow> import_chunks up now user_id cs (add_result acc res) db'))"

definition result_data :: "bulk_result \<Rightarrow> dict" where
  "result_data res =
     [(''imported'', JInt (int (br_imported res))), (''duplicates_skipped'', JInt (int (br_duplicates res))),
      (''errors'', JInt (int (br_errors res))), (''imported_ids'', JList (map JInt (br_imported_ids res)))]"

record command_reply =
  cr_success :: bool
  cr_error_message :: "string option"
  cr_result_data :: "dict option"
  cr_is_compensation :: bool

definition command_items :: "dict \<Rightarrow> tx_error + (json \<times> bulk_item list)" where
  "command_items body =
     bindE (tx_req body ''user_id'') (\<lambda>user_id.
     bindE (tx_req body ''account_id'') (\<lambda>account_id.
     bindE (tx_req body ''account_name'') (\<lambda>account_name.
     case dget_or body ''items'' (JList []) of
       JList items_raw \<Rightarrow> bindE (mapE_tx (item_of_json account_id account_name) items_raw) (\<lambda>items. Inr (user_id, items))
     | _ \<Rightarrow> Inl (TxPyError TypeError))))"

definition handle_bulk_import ::
  "bool list \<Rightarrow> instant \<Rightarrow> dict \<Rightarrow> tx_db \<Rightarrow> (tx_error + command_reply) \<times> tx_db" where
  "handle_bulk_import up now body db =
     (case command_items body of
        Inl e \<Rightarrow> (Inl e, db)
      | Inr (user_id, items) \<Rightarrow>
          (let ok = (\<lambda>res. \<lparr>cr_success = True, cr_error_message = None, cr_result_data = Some (result_data res),
                            cr_is_compensation = False\<rparr>) in
           if items = [] then (Inr (ok no_result), db)
           else
             (case user_id of
                JInt u \<Rightarrow>
                  (case import_chunks up now u (chunks BULK_IMPORT_CHUNK_SIZE items) no_result db of
                     (Inl e, db') \<Rightarrow> (Inl e, db')
                   | (Inr res, db') \<Rightarrow> (Inr (ok res), db'))
              | _ \<Rightarrow> (Inl TxDataError, db))))"

section \<open>The roll back command\<close>

text \<open>One deletion: whether it failed, and the database.  An absent row counts as rolled back.\<close>

definition rollback_one :: "instant \<Rightarrow> json \<Rightarrow> bool \<Rightarrow> json \<Rightarrow> tx_db \<Rightarrow> bool \<times> tx_db" where
  "rollback_one now user_id up tid db =
     (case (user_id, tid) of
        (JInt u, JInt i) \<Rightarrow>
          if \<not> up then (True, db)
          else (case delete_transaction now i u db of
                  Inr db' \<Rightarrow> (False, db')
                | Inl (TransactionNotFound _) \<Rightarrow> (False, db)
                | Inl _ \<Rightarrow> (True, db))
      | _ \<Rightarrow> (True, db))"

fun rollback_all :: "instant \<Rightarrow> json \<Rightarrow> bool list \<Rightarrow> json list \<Rightarrow> tx_db \<Rightarrow> json list \<times> tx_db" where
  "rollback_all now user_id up [] db = ([], db)"
| "rollback_all now user_id up (t # ts) db =
     (let (bad, db1) = rollback_one now user_id (up \<noteq> [] \<and> hd up) t db;
          (failed, db2) = rollback_all now user_id (tl up) ts db1
      in (if bad then t # failed else failed, db2))"

definition handle_rollback_import ::
  "(json \<Rightarrow> string) \<Rightarrow> bool list \<Rightarrow> instant \<Rightarrow> dict \<Rightarrow> tx_db \<Rightarrow> (tx_error + command_reply) \<times> tx_db" where
  "handle_rollback_import py_str up now body db =
     (let ok = \<lparr>cr_success = True, cr_error_message = None, cr_result_data = None, cr_is_compensation = True\<rparr> in
      case tx_req body ''user_id'' of
        Inl e \<Rightarrow> (Inl e, db)
      | Inr user_id \<Rightarrow>
          (let ids = dget_or body ''transaction_ids'' (JList []) in
           if \<not> truthy ids then (Inr ok, db)
           else
             (case ids of
                JList ts \<Rightarrow>
                  (let (failed, db') = rollback_all now user_id up ts db in
                   if failed = [] then (Inr ok, db')
                   else (Inr \<lparr>cr_success = False,
                              cr_error_message = Some (''Failed to roll back transactions: '' @ py_str (JList failed)),
                              cr_result_data = None, cr_is_compensation = True\<rparr>, db'))
              | _ \<Rightarrow> (Inl (TxPyError TypeError), db))))"

section \<open>The consumer of saga commands\<close>

datatype command_outcome =
    CommandDeadLetter
  | CommandReplied saga_reply
  | CommandRepublished int
  | CommandUnsettled \<comment> \<open>an exception leaves the callback: the broker delivers the message again\<close>

definition text_of :: "json \<Rightarrow> string option" where
  "text_of v = (case v of JStr s \<Rightarrow> Some s | _ \<Rightarrow> None)"

definition publish_reply :: "json \<Rightarrow> json \<Rightarrow> command_reply \<Rightarrow> saga_reply" where
  "publish_reply saga_id step_name r =
     \<lparr>rp_saga_id = text_of saga_id, rp_step_name = text_of step_name, rp_success = cr_success r,
      rp_error_message = cr_error_message r, rp_result_data = cr_result_data r, rp_is_compensation = cr_is_compensation r\<rparr>"

text \<open>The surroundings of a delivery: the clock, the database, whether the reply and whether a publication of the
  exception handler reach the broker, and the rendering of values and exceptions.\<close>

record command_env =
  ce_now :: instant
  ce_up :: "bool list"
  ce_reply_ok :: bool
  ce_again_ok :: bool
  ce_str :: "json \<Rightarrow> string"
  ce_error :: "tx_error option \<Rightarrow> string"

definition command_failed ::
  "command_env \<Rightarrow> amqp_value option \<Rightarrow> json \<Rightarrow> json \<Rightarrow> tx_error option \<Rightarrow> command_outcome" where
  "command_failed env hdr saga_id step_name err =
     (case header_retry_count hdr of
        None \<Rightarrow> CommandUnsettled
      | Some retries \<Rightarrow>
          if \<not> ce_again_ok env then CommandUnsettled
          else if retries \<ge> SAGA_MAX_RETRIES
          then CommandReplied (publish_reply saga_id step_name
                 \<lparr>cr_success = False, cr_error_message = Some (ce_error env err), cr_result_data = None, cr_is_compensation = False\<rparr>)
          else CommandRepublished (retries + 1))"

definition tx_saga_on_message ::
  "command_env \<Rightarrow> amqp_value option \<Rightarrow> json option \<Rightarrow> tx_db \<Rightarrow> command_outcome \<times> tx_db" where
  "tx_saga_on_message env hdr msg db =
     (case msg of
        Some (JObj body) \<Rightarrow>
          (let event_type = dget_or body ''event_type'' (JStr []); saga_id = dget_or body ''saga_id'' (JStr []);
               step_name = dget_or body ''step_name'' (JStr []);
               run = (\<lambda>(r, db').
                 case r of
                   Inr reply \<Rightarrow> if ce_reply_ok env then (CommandReplied (publish_reply saga_id step_name reply), db')
                                else (command_failed env hdr saga_id step_name None, db')
                 | Inl e \<Rightarrow> (command_failed env hdr saga_id step_name (Some e), db'))
           in if event_type = JStr ''saga.cmd.bulk_import_transactions''
              then run (handle_bulk_import (ce_up env) (ce_now env) body db)
              else if event_type = JStr ''saga.cmd.rollback_import''
              then run (handle_rollback_import (ce_str env) (ce_up env) (ce_now env) body db)
              else (CommandDeadLetter, db))
      | None \<Rightarrow> (CommandDeadLetter, db)
      | _ \<Rightarrow> (CommandUnsettled, db))"

section \<open>The consumer of categorizations\<close>

text \<open>The payload with the defaults of its \<open>get\<close> calls filled in; an absent or zero id is \<open>None\<close>.\<close>

record categorized_payload =
  cp_message_id :: string
  cp_transaction_id :: "int option"
  cp_category_id :: "int option"
  cp_category_name :: string
  cp_subcategory_id :: "int option"
  cp_subcategory_name :: string
  cp_tier :: string
  cp_confidence :: string

definition CATEGORIZED_QUEUE :: string where "CATEGORIZED_QUEUE = ''transaction_service.transaction_categorized''"
definition TAXONOMY_QUEUE :: string where "TAXONOMY_QUEUE = ''transaction_service.taxonomy_sync''"

definition tx_is_duplicate :: "string \<Rightarrow> string \<Rightarrow> tx_db \<Rightarrow> bool" where
  "tx_is_duplicate queue message_id db \<longleftrightarrow> (message_id, queue) \<in> set (td_processed db)"

definition lookup_parent_name :: "tx_db \<Rightarrow> int option \<Rightarrow> string option" where
  "lookup_parent_name db category_id =
     (case category_id of None \<Rightarrow> None | Some c \<Rightarrow> map_option cc_name (map_of (td_categories db) c))"

definition non_empty :: "string option \<Rightarrow> string option" where
  "non_empty s = (case s of Some [] \<Rightarrow> None | _ \<Rightarrow> s)"

definition categorized_row :: "categorized_payload \<Rightarrow> string option \<Rightarrow> tx_row \<Rightarrow> tx_row" where
  "categorized_row p parent_name tx =
     (let new_sub_name = non_empty (Some (cp_subcategory_name p));
          target = (case non_empty parent_name of None \<Rightarrow> tx_category_name tx | n \<Rightarrow> n)
      in
      if tx_tier tx = Some ''manual'' then tx
      else if tx_subcategory_id tx = cp_subcategory_id p \<and> tx_tier tx = Some (cp_tier p) \<and>
              tx_confidence tx = Some (cp_confidence p) \<and> tx_category_name tx = target \<and>
              (new_sub_name = None \<or> tx_subcategory_name tx = new_sub_name) \<and>
              (cp_category_id p = None \<or> tx_category_id tx = cp_category_id p)
      then tx
      else tx\<lparr>tx_subcategory_id := cp_subcategory_id p, tx_tier := Some (cp_tier p), tx_confidence := Some (cp_confidence p),
              tx_category_id := (case cp_category_id p of None \<Rightarrow> tx_category_id tx | c \<Rightarrow> c),
              tx_category_name := target,
              tx_subcategory_name := (case new_sub_name of None \<Rightarrow> tx_subcategory_name tx | n \<Rightarrow> n)\<rparr>)"

text \<open>The update and the inbox row commit together; a value that does not fit its column raises.\<close>

definition categorized_handle :: "bool \<Rightarrow> categorized_payload \<Rightarrow> tx_db \<Rightarrow> handler_result \<times> tx_db" where
  "categorized_handle up p db =
     (case cp_transaction_id p of
        None \<Rightarrow> (Poison, db)
      | Some i \<Rightarrow>
          if \<not> up then (HandlerError, db)
          else if cp_message_id p \<noteq> [] \<and> tx_is_duplicate CATEGORIZED_QUEUE (cp_message_id p) db then (Handled, db)
          else
            (case List.find (\<lambda>r. tx_id r = i) (td_rows db) of
               None \<Rightarrow> (HandlerError, db)
             | Some tx \<Rightarrow>
                 if tx_deleted_at tx \<noteq> None then (Handled, db)
                 else
                   (let parent = (case non_empty (Some (cp_category_name p)) of
                                    None \<Rightarrow> lookup_parent_name db (cp_category_id p) | n \<Rightarrow> n);
                        tx' = categorized_row p parent tx
                    in if \<not> columns_fit tx' \<or> length (cp_message_id p) > 36 then (HandlerError, db)
                       else (Handled,
                         db\<lparr>td_rows := update_where (\<lambda>r. tx_id r = i) (\<lambda>_. tx') (td_rows db),
                            td_processed := td_processed db @
                              (if cp_message_id p = [] then [] else [(cp_message_id p, CATEGORIZED_QUEUE)])\<rparr>))))"

text \<open>The wait before an event of an unknown transaction is delivered again; a negative count gives a fraction.\<close>

definition stale_backoff :: "amqp_value option \<Rightarrow> rat option" where
  "stale_backoff hdr =
     (case header_retry_count hdr of
        None \<Rightarrow> None
      | Some n \<Rightarrow> if n < 5 then Some (if n < 0 then 1 / 2 ^ nat (- n) else 2 ^ nat n) else None)"

section \<open>The copy of the taxonomy\<close>

definition identity_names :: "string list" where
  "identity_names =
     [''public_id'', ''semantic_key'', ''taxonomy_version'', ''lifecycle'', ''deprecated_in_version'', ''replaced_by_public_id'']"

definition apply_identity :: "dict \<Rightarrow> dict \<Rightarrow> dict" where
  "apply_identity body ident =
     fold (\<lambda>k d. case dget body k of None \<Rightarrow> d | Some v \<Rightarrow> dset d k v) identity_names ident"

definition fresh_identity :: "dict \<Rightarrow> dict" where
  "fresh_identity body = map (\<lambda>k. (k, dget_or body k JNull)) identity_names"

text \<open>The unique columns: no other row may hold the same value, nulls apart.\<close>

definition identity_unique :: "int \<Rightarrow> dict \<Rightarrow> (int \<times> dict) list \<Rightarrow> bool" where
  "identity_unique ident_id ident others \<longleftrightarrow>
     list_all (\<lambda>k. dget_or ident k JNull = JNull \<or>
       list_all (\<lambda>(j, other). j = ident_id \<or> dget_or other k JNull \<noteq> dget_or ident k JNull) others)
       [''public_id'', ''semantic_key'']"

definition short_text :: "nat \<Rightarrow> json \<Rightarrow> tx_error + string" where
  "short_text n v = (case v of JStr s \<Rightarrow> if length s \<le> n then Inr s else Inl TxDataError | _ \<Rightarrow> Inl TxDataError)"

text \<open>The types of the identity columns are not checked here: the dictionaries keep what the event carried.\<close>

definition upsert_category_copy :: "dict \<Rightarrow> tx_db \<Rightarrow> tx_error + tx_db" where
  "upsert_category_copy body db =
     bindE (tx_req body ''category_id'') (\<lambda>c.
     bindE (of_option TxDataError (py_int c)) (\<lambda>category_id.
     bindE (bindE (tx_req body ''name'') (short_text 45)) (\<lambda>nm.
     bindE (bindE (tx_req body ''category_type'') (short_text 20)) (\<lambda>ty.
     (let ident = (case map_of (td_categories db) category_id of
                     None \<Rightarrow> fresh_identity body | Some k \<Rightarrow> apply_identity body (cc_identity k)) in
      bindE (guardE (identity_unique category_id ident (map (\<lambda>(j, k). (j, cc_identity k)) (td_categories db))) TxIntegrityError) (\<lambda>_.
      Inr (db\<lparr>td_categories := AList.update category_id \<lparr>cc_name = nm, cc_type = ty, cc_identity = ident\<rparr>
                (td_categories db)\<rparr>)))))))"

definition delete_category_copy :: "dict \<Rightarrow> tx_db \<Rightarrow> tx_error + tx_db" where
  "delete_category_copy body db =
     bindE (tx_req body ''category_id'') (\<lambda>c.
     bindE (of_option TxDataError (py_int c)) (\<lambda>category_id.
     Inr (db\<lparr>td_categories := AList.delete category_id (td_categories db)\<rparr>)))"

definition upsert_subcategory_copy :: "dict \<Rightarrow> tx_db \<Rightarrow> tx_error + tx_db" where
  "upsert_subcategory_copy body db =
     bindE (tx_req body ''subcategory_id'') (\<lambda>s.
     bindE (of_option TxDataError (py_int s)) (\<lambda>subcategory_id.
     bindE (bindE (tx_req body ''name'') (short_text 100)) (\<lambda>nm.
     bindE (tx_req body ''category_id'') (\<lambda>c.
     bindE (of_option TxDataError (py_int c)) (\<lambda>category_id.
     (let old = map_of (td_subcategories db) subcategory_id;
          ident = (case old of None \<Rightarrow> fresh_identity body | Some k \<Rightarrow> apply_identity body (sc_identity k)) in
      bindE (guardE (identity_unique subcategory_id ident (map (\<lambda>(j, k). (j, sc_identity k)) (td_subcategories db))) TxIntegrityError) (\<lambda>_.
      Inr (db\<lparr>td_subcategories := AList.update subcategory_id
                \<lparr>sc_name = nm, sc_category_id = category_id, sc_is_default = truthy (dget_or body ''is_default'' (JBool True)),
                 sc_parent_public_id = dget_or body ''parent_public_id'' (case old of None \<Rightarrow> JNull | Some k \<Rightarrow> sc_parent_public_id k),
                 sc_is_fallback = dget_or body ''is_fallback'' (case old of None \<Rightarrow> JNull | Some k \<Rightarrow> sc_is_fallback k),
                 sc_identity = ident\<rparr> (td_subcategories db)\<rparr>))))))))"

definition delete_subcategory_copy :: "dict \<Rightarrow> tx_db \<Rightarrow> tx_error + tx_db" where
  "delete_subcategory_copy body db =
     bindE (tx_req body ''subcategory_id'') (\<lambda>s.
     bindE (of_option TxDataError (py_int s)) (\<lambda>subcategory_id.
     Inr (db\<lparr>td_subcategories := AList.delete subcategory_id (td_subcategories db)\<rparr>)))"

text \<open>\<open>None\<close>: no handler for the event type.\<close>

definition taxonomy_dispatch :: "string \<Rightarrow> dict \<Rightarrow> tx_db \<Rightarrow> (tx_error + tx_db) option" where
  "taxonomy_dispatch event_type body db =
     (if event_type \<in> {''category.created'', ''category.updated''} then Some (upsert_category_copy body db)
      else if event_type = ''category.deleted'' then Some (delete_category_copy body db)
      else if event_type \<in> {''subcategory.created'', ''subcategory.updated''} then Some (upsert_subcategory_copy body db)
      else if event_type = ''subcategory.deleted'' then Some (delete_subcategory_copy body db)
      else None)"

definition taxonomy_handle :: "string \<Rightarrow> string \<Rightarrow> dict \<Rightarrow> tx_db \<Rightarrow> handler_result \<times> tx_db" where
  "taxonomy_handle message_id event_type body db =
     (if message_id \<noteq> [] \<and> tx_is_duplicate TAXONOMY_QUEUE message_id db then (Handled, db)
      else
        (case taxonomy_dispatch event_type body db of
           None \<Rightarrow> (Handled, db)
         | Some (Inl e) \<Rightarrow> (HandlerError, db)
         | Some (Inr db') \<Rightarrow>
             if length message_id > 36 then (HandlerError, db)
             else (Handled, db'\<lparr>td_processed := td_processed db' @ (if message_id = [] then [] else [(message_id, TAXONOMY_QUEUE)])\<rparr>)))"

end
