(* ===== verification/TransactionProofs.thy ===== *)
theory TransactionProofs
  imports TransactionWorkers
begin

text \<open>
  Properties of transaction-service: imports that fail and are retried act as one import, a roll back undoes an
  import, the events in the outbox replay the table, the table stays well formed and a category the user chose
  stays.  The locale \<open>resumable_batch\<close> is the contract that makes a chunked command safe to repeat; the import of
  transaction-service is its instance.
\<close>

section \<open>Chunks\<close>

lemma chunks_Nil [simp]: "chunks n [] = []"
  by (simp add: chunks.simps)

lemma concat_chunks: "0 < n \<Longrightarrow> concat (chunks n xs) = xs"
proof (induction n xs rule: chunks.induct)
  case (1 n xs)
  then show ?case by (subst chunks.simps) (auto simp del: chunks.simps)
qed

lemma chunks_eq_Nil: "0 < n \<Longrightarrow> chunks n xs = [] \<longleftrightarrow> xs = []"
  by (subst chunks.simps) simp

lemma in_chunk: "0 < n \<Longrightarrow> (\<exists>c \<in> set (chunks n xs). x \<in> set c) \<longleftrightarrow> x \<in> set xs"
  using arg_cong [OF concat_chunks [of n xs], of set] by auto

section \<open>What the lookups find\<close>

definition keys_of :: "int \<Rightarrow> tx_db \<Rightarrow> dedup_key set" where
  "keys_of u db = row_key ` {r \<in> set (td_rows db). tx_user r = u \<and> tx_live r}"

definition legacy_of :: "int \<Rightarrow> tx_db \<Rightarrow> dedup_key set" where
  "legacy_of u db = row_key ` {r \<in> set (td_rows db). tx_user r = u \<and> tx_live r \<and> tx_external_id r = None}"

definition exts_of :: "int \<Rightarrow> tx_db \<Rightarrow> (int \<times> string) set" where
  "exts_of u db = {(a, x). \<exists>r \<in> set (td_rows db). tx_user r = u \<and> tx_live r \<and> tx_account r = a \<and> tx_external_id r = Some x}"

lemma find_existing_dedup_keys_eq:
  "find_existing_dedup_keys u ks only db = (if only then legacy_of u db else keys_of u db) \<inter> set ks"
proof -
  let ?tr = "\<lambda>(a, d, c, _). (a, d, c)"
  have tr: "(tx_account r, tx_date r, tx_amount r) = ?tr (row_key r)" for r by (simp add: row_key_def)
  have c: "(\<exists>c \<in> set (chunks DEDUP_CHUNK_SIZE (remdups (map ?tr ks))). t \<in> set c) \<longleftrightarrow> t \<in> ?tr ` set ks" for t
    by (simp add: in_chunk DEDUP_CHUNK_SIZE_def)
  show ?thesis
    unfolding find_existing_dedup_keys_def Let_def keys_of_def legacy_of_def
    using c by (auto simp: tr image_iff; blast)
qed

lemma find_existing_external_ids_eq: "find_existing_external_ids u ks db = exts_of u db \<inter> set ks"
proof -
  have c: "(\<exists>c \<in> set (chunks DEDUP_CHUNK_SIZE (remdups ks)). t \<in> set c) \<longleftrightarrow> t \<in> set ks" for t
    by (simp add: in_chunk DEDUP_CHUNK_SIZE_def)
  have m: "t \<in> set (List.map_filter (\<lambda>r. case tx_external_id r of
            Some x \<Rightarrow> if tx_user r = u \<and> tx_live r \<and> (tx_account r, x) \<in> set chunk then Some (tx_account r, x) else None
          | None \<Rightarrow> None) (td_rows db)) \<longleftrightarrow> t \<in> exts_of u db \<and> t \<in> set chunk" for t chunk
    by (cases t) (auto simp: set_map_filter exts_of_def split: option.splits if_splits)
  have "set (concat (map (\<lambda>chunk. List.map_filter (\<lambda>r. case tx_external_id r of
            Some x \<Rightarrow> if tx_user r = u \<and> tx_live r \<and> (tx_account r, x) \<in> set chunk then Some (tx_account r, x) else None
          | None \<Rightarrow> None) (td_rows db)) (chunks DEDUP_CHUNK_SIZE (remdups ks)))) = {t. t \<in> exts_of u db \<and> t \<in> set ks}"
    unfolding c [symmetric] set_concat set_map image_image UN_iff set_eq_iff mem_Collect_eq m by blast
  then show ?thesis unfolding find_existing_external_ids_def by auto
qed

section \<open>Items that are known\<close>

text \<open>An item is covered when the import would skip it.\<close>

definition covered :: "int \<Rightarrow> tx_db \<Rightarrow> bulk_item \<Rightarrow> bool" where
  "covered u db it \<longleftrightarrow>
     (case item_ext it of
        Some x \<Rightarrow> (cd_account_id it, x) \<in> exts_of u db \<or> item_key it \<in> legacy_of u db
      | None \<Rightarrow> item_key it \<in> keys_of u db)"

lemma lookup_ext_keys:
  assumes "it \<in> set items" and "item_ext it = Some x"
  shows "(cd_account_id it, x) \<in> kk_existing_ext (lookup_keys u True items db) \<longleftrightarrow> (cd_account_id it, x) \<in> exts_of u db"
    and "item_key it \<in> kk_legacy (lookup_keys u True items db) \<longleftrightarrow> item_key it \<in> legacy_of u db"
proof -
  have "items \<noteq> []" using assms(1) by auto
  moreover have "(cd_account_id it, x) \<in> (\<lambda>it. (cd_account_id it, the (item_ext it))) ` {it \<in> set items. item_ext it \<noteq> None}"
    "item_key it \<in> item_key ` {it \<in> set items. item_ext it \<noteq> None}"
    using assms by force+
  ultimately show "(cd_account_id it, x) \<in> kk_existing_ext (lookup_keys u True items db) \<longleftrightarrow> (cd_account_id it, x) \<in> exts_of u db"
    and "item_key it \<in> kk_legacy (lookup_keys u True items db) \<longleftrightarrow> item_key it \<in> legacy_of u db"
    by (simp_all add: lookup_keys_def Let_def find_existing_dedup_keys_eq find_existing_external_ids_eq)
qed

lemma lookup_plain_keys:
  assumes "it \<in> set items" and "item_ext it = None"
  shows "item_key it \<in> kk_existing (lookup_keys u True items db) \<longleftrightarrow> item_key it \<in> keys_of u db"
proof -
  have "items \<noteq> []" using assms(1) by auto
  moreover have "item_key it \<in> item_key ` {it \<in> set items. item_ext it = None}" using assms by force
  ultimately show ?thesis by (simp add: lookup_keys_def Let_def find_existing_dedup_keys_eq)
qed

text \<open>An item that is not skipped is new: no row and no earlier item of the batch has its key.\<close>

definition item_new :: "known_keys \<Rightarrow> bulk_loop \<Rightarrow> bulk_item \<Rightarrow> bool" where
  "item_new known st it \<longleftrightarrow>
     (case item_ext it of
        Some x \<Rightarrow> (cd_account_id it, x) \<notin> kk_existing_ext known \<and> (cd_account_id it, x) \<notin> bl_seen_ext st \<and> item_key it \<notin> kk_legacy known
      | None \<Rightarrow> item_key it \<notin> kk_existing known \<and> item_key it \<notin> bl_seen st)"

lemma bulk_step_eq:
  "bulk_step True known it st =
     (if item_new known st it
      then st\<lparr>bl_rows := bl_rows st @ [it],
              bl_seen_ext := (case item_ext it of Some x \<Rightarrow> insert (cd_account_id it, x) (bl_seen_ext st) | None \<Rightarrow> bl_seen_ext st),
              bl_seen := (case item_ext it of Some _ \<Rightarrow> bl_seen st | None \<Rightarrow> insert (item_key it) (bl_seen st))\<rparr>
      else st\<lparr>bl_duplicates := bl_duplicates st + 1\<rparr>)"
  by (cases "item_ext it") (auto simp: bulk_step_def item_new_def Let_def)

text \<open>What the loop keeps: the seen keys are those of the accepted items, and every item is accepted, seen or known.\<close>

definition loop_inv :: "known_keys \<Rightarrow> bulk_item list \<Rightarrow> bulk_loop \<Rightarrow> bool" where
  "loop_inv known before st \<longleftrightarrow>
     set (bl_rows st) \<subseteq> set before \<and>
     bl_seen_ext st = {(cd_account_id it, x) | it x. it \<in> set (bl_rows st) \<and> item_ext it = Some x} \<and>
     bl_seen st = item_key ` {it \<in> set (bl_rows st). item_ext it = None} \<and>
     (\<forall>it \<in> set before. \<not> item_new known st it) \<and>
     distinct (List.map_filter (\<lambda>it. map_option (Pair (cd_account_id it)) (item_ext it)) (bl_rows st)) \<and>
     (\<forall>it \<in> set (bl_rows st). \<forall>x. item_ext it = Some x \<longrightarrow> (cd_account_id it, x) \<notin> kk_existing_ext known) \<and>
     length before = length (bl_rows st) + bl_duplicates st"

lemma map_filter_append: "List.map_filter f (xs @ ys) = List.map_filter f xs @ List.map_filter f ys"
  by (induction xs) (auto simp: map_filter_simps split: option.splits)

lemma item_new_step:
  "\<not> item_new known (bulk_step True known it st) it"
  "\<not> item_new known st it' \<Longrightarrow> \<not> item_new known (bulk_step True known it st) it'"
  by (auto simp: bulk_step_eq item_new_def split: option.splits)

lemma loop_inv_step:
  assumes inv: "loop_inv known before st"
  shows "loop_inv known (before @ [it]) (bulk_step True known it st)"
proof -
  have old: "\<forall>it' \<in> set (before @ [it]). \<not> item_new known (bulk_step True known it st) it'"
    using inv item_new_step by (auto simp: loop_inv_def)
  show ?thesis
  proof (cases "item_new known st it")
    case new: True
    have ext: "(cd_account_id it, x) \<notin> set (List.map_filter (\<lambda>it. map_option (Pair (cd_account_id it)) (item_ext it)) (bl_rows st))"
      if "item_ext it = Some x" for x
      using new that inv by (auto simp: item_new_def loop_inv_def set_map_filter)
    show ?thesis
      using inv new ext old unfolding loop_inv_def bulk_step_eq
      by (cases "item_ext it") (auto simp: item_new_def map_filter_append map_filter_simps)
  next
    case False
    then show ?thesis using inv old by (auto simp: bulk_step_eq loop_inv_def)
  qed
qed

lemma loop_inv_fold:
  "loop_inv known before st \<Longrightarrow> loop_inv known (before @ items) (fold (bulk_step True known) items st)"
proof (induction items arbitrary: before st)
  case (Cons it items)
  show ?case using Cons.IH [OF loop_inv_step [OF Cons.prems]] by simp
qed simp

lemma bulk_dedup_inv: "loop_inv (lookup_keys u True items db) items (bulk_dedup u True items db)"
  unfolding bulk_dedup_def by (rule loop_inv_fold [where before = "[]", simplified]) (simp add: loop_inv_def map_filter_simps)

section \<open>Inserting a batch\<close>

fun number_rows :: "int \<Rightarrow> tx_row list \<Rightarrow> tx_row list" where
  "number_rows n [] = []"
| "number_rows n (r # rs) = r\<lparr>tx_id := n\<rparr> # number_rows (n + 1) rs"

lemma length_number_rows [simp]: "length (number_rows n rs) = length rs"
  by (induction rs arbitrary: n) auto

lemma number_rows_ids: "r \<in> set (number_rows n rs) \<Longrightarrow> n \<le> tx_id r \<and> tx_id r < n + int (length rs)"
  by (induction rs arbitrary: n) force+

lemma distinct_number_rows: "distinct (map tx_id (number_rows n rs))"
proof (induction rs arbitrary: n)
  case (Cons r rs)
  have "n \<notin> tx_id ` set (number_rows (n + 1) rs)" using number_rows_ids [of _ "n + 1" rs] by fastforce
  then show ?case using Cons.IH [of "n + 1"] by simp
qed simp

text \<open>What identifies a row for the imports: everything but the id, the names and the categorization.\<close>

definition tx_ident :: "tx_row \<Rightarrow> int \<times> dedup_key \<times> string option \<times> instant option" where
  "tx_ident r = (tx_user r, row_key r, tx_external_id r, tx_deleted_at r)"

lemma number_rows_ident: "map tx_ident (number_rows n rs) = map tx_ident rs"
  by (induction rs arbitrary: n) (auto simp: tx_ident_def row_key_def)

lemma resolve_names_ident: "tx_ident (resolve_names db r) = tx_ident r"
  by (simp add: tx_ident_def row_key_def resolve_names_def)

lemma accept_category_ident: "tx_ident (accept_category c r) = tx_ident r"
  by (simp add: tx_ident_def row_key_def accept_category_def Let_def)

lemma enrich_ident: "map tx_ident (enrich rs cs) = map tx_ident rs"
  by (induction rs cs rule: enrich.induct) (auto simp: accept_category_ident split: list.splits option.splits)

lemma bulk_enrich_ident: "map tx_ident (bulk_enrich client rs) = map tx_ident rs"
  by (auto simp: bulk_enrich_def Let_def enrich_ident split: option.splits)

lemma length_bulk_enrich [simp]: "length (bulk_enrich client rs) = length rs"
  using arg_cong [OF bulk_enrich_ident [of client rs], of length] by simp

lemma bulk_create_Inr:
  "bulk_create rs db = Inr (created, db') \<Longrightarrow>
     created = number_rows (td_next db) rs \<and>
     db' = db\<lparr>td_rows := td_rows db @ created, td_next := td_next db + int (length rs)\<rparr> \<and> list_all columns_fit created"
proof (induction rs arbitrary: db created db')
  case (Cons r rs)
  then show ?case by (fastforce simp: result_simps tx_insert_def Let_def)
qed simp

abbreviation ext_keys :: "tx_row list \<Rightarrow> (int \<times> string) list" where
  "ext_keys rows \<equiv> List.map_filter ext_key rows"

lemma ext_taken_iff: "ext_taken k rows \<longleftrightarrow> (\<exists>e. k = Some e \<and> e \<in> set (ext_keys rows))"
  by (auto simp: ext_taken_def set_map_filter list_ex_iff)

lemma bulk_create_ext_distinct:
  "bulk_create rs db = Inr (created, db') \<Longrightarrow> distinct (ext_keys (td_rows db)) \<Longrightarrow> distinct (ext_keys (td_rows db'))"
proof (induction rs arbitrary: db created)
  case (Cons r rs)
  obtain r' db1 cr where i: "tx_insert r db = Inr (r', db1)" and c: "bulk_create rs db1 = Inr (cr, db')"
    using Cons.prems(1) by (auto simp: result_simps)
  have "distinct (ext_keys (td_rows db1))"
    using i Cons.prems(2)
    by (auto simp: result_simps tx_insert_def Let_def ext_taken_iff map_filter_append map_filter_simps split: option.splits)
  then show ?case using Cons.IH [OF c] by simp
qed simp

text \<open>The same keys do not collide: a batch whose external keys are new and distinct is never refused by the index.\<close>

lemma tx_insert_ok:
  assumes "columns_fit r" and "\<And>e. ext_key r = Some e \<Longrightarrow> e \<notin> set (ext_keys (td_rows db))"
  shows "tx_insert r db = Inr (r\<lparr>tx_id := td_next db\<rparr>,
    db\<lparr>td_rows := td_rows db @ [r\<lparr>tx_id := td_next db\<rparr>], td_next := td_next db + 1\<rparr>)"
proof -
  have k: "ext_key (r\<lparr>tx_id := td_next db\<rparr>) = ext_key r" "columns_fit (r\<lparr>tx_id := td_next db\<rparr>) = columns_fit r"
    by (simp_all add: ext_key_def tx_live_def columns_fit_def)
  have "\<not> ext_taken (ext_key r) (td_rows db)" using assms(2) by (auto simp: ext_taken_iff)
  then show ?thesis using assms(1) by (simp add: tx_insert_def Let_def k guardE_def)
qed

lemma bulk_create_ok:
  assumes "list_all columns_fit rs" and "distinct (ext_keys (td_rows db @ rs))"
  shows "\<exists>created db'. bulk_create rs db = Inr (created, db')"
  using assms
proof (induction rs arbitrary: db)
  case (Cons r rs)
  let ?r = "r\<lparr>tx_id := td_next db\<rparr>"
  have k: "ext_key ?r = ext_key r" by (simp add: ext_key_def tx_live_def)
  have "e \<notin> set (ext_keys (td_rows db))" if "ext_key r = Some e" for e
    using Cons.prems(2) that by (auto simp: map_filter_append map_filter_simps)
  then have i: "tx_insert r db = Inr (?r, db\<lparr>td_rows := td_rows db @ [?r], td_next := td_next db + 1\<rparr>)"
    using Cons.prems(1) by (intro tx_insert_ok) auto
  have "ext_keys ((td_rows db @ [?r]) @ rs) = ext_keys (td_rows db @ r # rs)"
    by (simp add: map_filter_append map_filter_simps k)
  then have "\<exists>created db'. bulk_create rs (db\<lparr>td_rows := td_rows db @ [?r], td_next := td_next db + 1\<rparr>) = Inr (created, db')"
    using Cons.prems by (intro Cons.IH) auto
  then show ?case using i by (auto simp: result_simps)
qed simp

section \<open>One import\<close>

lemma item_row_ident: "tx_ident (item_row now u it) = (u, item_key it, bi_external_id it, None)"
  by (simp add: tx_ident_def row_key_def item_row_def draft_row_def item_key_def)

lemma import_rows_ident:
  "map tx_ident (map (resolve_names db) (bulk_enrich client (map (item_row now u) its))) =
     map (\<lambda>it. (u, item_key it, bi_external_id it, None)) its"
proof -
  have "map tx_ident (map (resolve_names db) (bulk_enrich client rs)) = map tx_ident rs" for rs
    using bulk_enrich_ident [of client rs] by (simp add: comp_def resolve_names_ident)
  then show ?thesis by (simp add: comp_def item_row_ident)
qed

lemma tx_outbox_add_batch_simps [simp]:
  "td_rows (tx_outbox_add_batch now cr db) = td_rows db" "td_next (tx_outbox_add_batch now cr db) = td_next db"
  "td_processed (tx_outbox_add_batch now cr db) = td_processed db" "td_categories (tx_outbox_add_batch now cr db) = td_categories db"
  "td_subcategories (tx_outbox_add_batch now cr db) = td_subcategories db"
  by (simp_all add: tx_outbox_add_batch_def)

lemma bulk_import_Inr:
  assumes "bulk_import client now u s items db = Inr (res, db')"
  obtains new where "td_rows db' = td_rows db @ new" and "br_imported_ids res = map tx_id new"
    and "map tx_ident new = map (\<lambda>it. (u, item_key it, bi_external_id it, None)) (bl_rows (bulk_dedup u s items db))"
    and "new = number_rows (td_next db) (map (resolve_names db) (bulk_enrich client (map (item_row now u) (bl_rows (bulk_dedup u s items db)))))"
    and "db' = tx_outbox_add_batch now new (db\<lparr>td_rows := td_rows db @ new, td_next := td_next db + int (length new)\<rparr>)"
    and "br_imported res = length new" and "br_duplicates res = bl_duplicates (bulk_dedup u s items db)" and "list_all columns_fit new"
proof (cases "bl_rows (bulk_dedup u s items db) = []")
  case True
  then have "db' = db" "res = \<lparr>br_imported = 0, br_duplicates = bl_duplicates (bulk_dedup u s items db), br_errors = 0, br_imported_ids = []\<rparr>"
    using assms by (auto simp: bulk_import_def Let_def bulk_enrich_def split: option.splits)
  then show ?thesis using True
    by (intro that [of "[]"]) (auto simp: tx_outbox_add_batch_def bulk_enrich_def split: option.splits)
next
  case False
  let ?rs = "map (resolve_names db) (bulk_enrich client (map (item_row now u) (bl_rows (bulk_dedup u s items db))))"
  have ne: "?rs \<noteq> []"
    using False length_bulk_enrich [of client "map (item_row now u) (bl_rows (bulk_dedup u s items db))"] by fastforce
  obtain created db1 where c: "bulk_create ?rs db = Inr (created, db1)"
    and r: "db' = tx_outbox_add_batch now created db1"
      "res = \<lparr>br_imported = length created, br_duplicates = bl_duplicates (bulk_dedup u s items db), br_errors = 0, br_imported_ids = map tx_id created\<rparr>"
    using assms ne by (auto simp: bulk_import_def Let_def result_simps)
  note cr = bulk_create_Inr [OF c]
  show ?thesis
    using cr r import_rows_ident [of db client now u "bl_rows (bulk_dedup u s items db)"]
    by (intro that [of created]) (auto simp: number_rows_ident)
qed

lemma ident_fields:
  assumes "tx_ident r = (u, k, x, None)"
  shows "tx_user r = u" "row_key r = k" "tx_external_id r = x" "tx_live r"
  using assms by (auto simp: tx_ident_def tx_live_def)

lemma item_row_in:
  assumes "map tx_ident new = map (\<lambda>it. (u, item_key it, bi_external_id it, None)) its" and "it \<in> set its"
  obtains r where "r \<in> set new" and "tx_ident r = (u, item_key it, bi_external_id it, None)"
proof -
  have "(u, item_key it, bi_external_id it, None) \<in> set (map (\<lambda>it. (u, item_key it, bi_external_id it, None)) its)"
    using assms(2) by (auto simp: image_iff)
  then have "(u, item_key it, bi_external_id it, None) \<in> set (map tx_ident new)" unfolding assms(1) .
  then show ?thesis using that by force
qed

lemma covered_mono:
  assumes "covered u db it" and "td_rows db' = td_rows db @ new"
  shows "covered u db' it"
  using assms by (auto simp: covered_def keys_of_def legacy_of_def exts_of_def split: option.splits)

lemma item_ext_Some: "item_ext it = Some x \<Longrightarrow> bi_external_id it = Some x"
  by (auto simp: item_ext_def split: option.splits list.splits)

lemma import_covers:
  assumes "bulk_import client now u True items db = Inr (res, db')" and "it \<in> set items"
  shows "covered u db' it"
proof -
  let ?k = "lookup_keys u True items db" and ?st = "bulk_dedup u True items db"
  obtain new where new: "td_rows db' = td_rows db @ new"
    and ident: "map tx_ident new = map (\<lambda>it. (u, item_key it, bi_external_id it, None)) (bl_rows ?st)"
    using assms(1) by (rule bulk_import_Inr)
  note inv = bulk_dedup_inv [of u items db, unfolded loop_inv_def]
  show ?thesis
  proof (cases "covered u db it")
    case True
    then show ?thesis using new by (rule covered_mono)
  next
    case False
    have notnew: "\<not> item_new ?k ?st it" using inv assms(2) by blast
    show ?thesis
    proof (cases "item_ext it")
      case None
      then have "item_key it \<in> bl_seen ?st"
        using notnew False lookup_plain_keys [OF assms(2) None] by (auto simp: item_new_def covered_def)
      then obtain it' where it': "it' \<in> set (bl_rows ?st)" "item_key it' = item_key it" using inv by force
      obtain r where r: "r \<in> set new" "tx_ident r = (u, item_key it', bi_external_id it', None)"
        using item_row_in [OF ident it'(1)] .
      show ?thesis using r(1) ident_fields [OF r(2)] it'(2) None new by (auto simp: covered_def keys_of_def image_iff)
    next
      case (Some x)
      then have "(cd_account_id it, x) \<in> bl_seen_ext ?st"
        using notnew False lookup_ext_keys [OF assms(2) Some] by (auto simp: item_new_def covered_def)
      then obtain it' where it': "it' \<in> set (bl_rows ?st)" "cd_account_id it' = cd_account_id it" "item_ext it' = Some x"
        using inv by force
      obtain r where r: "r \<in> set new" "tx_ident r = (u, item_key it', bi_external_id it', None)"
        using item_row_in [OF ident it'(1)] .
      have "tx_account r = cd_account_id it'" using ident_fields(2) [OF r(2)] by (simp add: row_key_def item_key_def)
      then show ?thesis
        using r(1) ident_fields [OF r(2)] it' Some new item_ext_Some [OF it'(3)] by (auto simp: covered_def exts_of_def)
    qed
  qed
qed

lemma dedup_all_known:
  assumes "\<forall>it \<in> set items. \<not> item_new known st it"
  shows "fold (bulk_step True known) items st = st\<lparr>bl_duplicates := bl_duplicates st + length items\<rparr>"
  using assms
proof (induction items arbitrary: st)
  case (Cons it items)
  have "item_new known (st\<lparr>bl_duplicates := n\<rparr>) it' = item_new known st it'" for it' n
    by (simp add: item_new_def split: option.splits)
  then have "fold (bulk_step True known) items (st\<lparr>bl_duplicates := bl_duplicates st + 1\<rparr>) =
      st\<lparr>bl_duplicates := bl_duplicates st + 1 + length items\<rparr>"
    using Cons.prems Cons.IH [of "st\<lparr>bl_duplicates := bl_duplicates st + 1\<rparr>"] by simp
  moreover have "bulk_step True known it st = st\<lparr>bl_duplicates := bl_duplicates st + 1\<rparr>"
    using Cons.prems by (simp add: bulk_step_eq)
  ultimately show ?case by simp
qed simp

text \<open>An import of covered items changes nothing.\<close>

lemma import_known:
  assumes "\<forall>it \<in> set items. covered u db it"
  shows "bulk_import client now u True items db =
    Inr (\<lparr>br_imported = 0, br_duplicates = length items, br_errors = 0, br_imported_ids = []\<rparr>, db)"
proof -
  let ?st = "\<lparr>bl_rows = [], bl_duplicates = 0, bl_seen_ext = {}, bl_seen = {}\<rparr>"
  have "\<not> item_new (lookup_keys u True items db) ?st it" if "it \<in> set items" for it
    using assms that lookup_ext_keys [OF that] lookup_plain_keys [OF that]
    by (auto simp: item_new_def covered_def split: option.splits)
  then have "bulk_dedup u True items db = \<lparr>bl_rows = [], bl_duplicates = length items, bl_seen_ext = {}, bl_seen = {}\<rparr>"
    by (simp add: bulk_dedup_def dedup_all_known)
  then show ?thesis by (simp add: bulk_import_def Let_def bulk_enrich_def split: option.splits)
qed

section \<open>Commands that run in chunks\<close>

text \<open>
  A command runs a list of steps, each a transaction of its own; the surroundings may stop it before any step.
  \<open>run_batch\<close> is one delivery, \<open>exec_all\<close> the run that nothing stops.
\<close>

fun run_batch :: "('c \<Rightarrow> 's \<Rightarrow> 'e + 's) \<Rightarrow> bool list \<Rightarrow> 'c list \<Rightarrow> 's \<Rightarrow> bool \<times> 's" where
  "run_batch step up [] s = (True, s)"
| "run_batch step [] (c # cs) s = (False, s)"
| "run_batch step (u # up) (c # cs) s =
     (if \<not> u then (False, s) else (case step c s of Inl _ \<Rightarrow> (False, s) | Inr s' \<Rightarrow> run_batch step up cs s'))"

fun exec_all :: "('c \<Rightarrow> 's \<Rightarrow> 'e + 's) \<Rightarrow> 'c list \<Rightarrow> 's \<Rightarrow> 'e + 's" where
  "exec_all step [] s = Inr s"
| "exec_all step (c # cs) s = bindE (step c s) (exec_all step cs)"

lemma exec_all_append: "exec_all step (cs @ ds) s = bindE (exec_all step cs s) (exec_all step ds)"
  by (induction cs arbitrary: s) (auto simp: bindE_def split: sum.splits)

lemma run_batch_prefix:
  "exec_all step cs s = Inr s' \<Longrightarrow> run_batch step up cs s = (ok, t) \<Longrightarrow>
     \<exists>k. exec_all step (take k cs) s = Inr t \<and> (ok \<longrightarrow> t = s')"
proof (induction step up cs s rule: run_batch.induct)
  case (3 step u up c cs s)
  show ?case
  proof (cases "u")
    case True
    obtain s1 where s1: "step c s = Inr s1" "exec_all step cs s1 = Inr s'" using "3.prems"(1) by (auto simp: result_simps)
    then obtain k where "exec_all step (take k cs) s1 = Inr t" "ok \<longrightarrow> t = s'"
      using "3.IH" [of s1] True "3.prems"(2) by auto
    then show ?thesis using s1 by (intro exI [of _ "Suc k"]) simp
  next
    case False
    then show ?thesis using "3.prems"(2) by (intro exI [of _ 0]) simp
  qed
qed (auto intro: exI [of _ 0])

text \<open>
  The contract that makes redelivery harmless: a step leaves its work done, work that is done stays done, and a
  step whose work is done changes nothing.
\<close>

locale resumable_batch =
  fixes step :: "'c \<Rightarrow> 's \<Rightarrow> 'e + 's"
    and is_done :: "'c \<Rightarrow> 's \<Rightarrow> bool"
  assumes does: "step c s = Inr s' \<Longrightarrow> is_done c s'"
    and again: "is_done c s \<Longrightarrow> step c s = Inr s"
    and keeps: "step c s = Inr s' \<Longrightarrow> is_done c' s \<Longrightarrow> is_done c' s'"
begin

lemma exec_keeps: "exec_all step cs s = Inr s' \<Longrightarrow> is_done c s \<Longrightarrow> is_done c s'"
  by (induction cs arbitrary: s) (auto simp: result_simps dest: keeps)

lemma exec_done: "exec_all step cs s = Inr s' \<Longrightarrow> list_all (\<lambda>c. is_done c s') cs"
proof (induction cs arbitrary: s)
  case (Cons c cs)
  then obtain s1 where "step c s = Inr s1" "exec_all step cs s1 = Inr s'" by (auto simp: result_simps)
  then show ?case using Cons.IH does exec_keeps by fastforce
qed simp

lemma skip_done:
  "list_all (\<lambda>c. is_done c s) cs \<Longrightarrow> run_batch step up (cs @ ds) s = (ok, t) \<Longrightarrow>
     \<not> ok \<and> t = s \<or> (\<exists>up'. run_batch step up' ds s = (ok, t))"
proof (induction cs arbitrary: up)
  case (Cons c cs)
  then show ?case by (cases up) (auto simp: again split: if_splits)
qed auto

text \<open>A delivery that starts where an earlier one stopped stops further on, or ends as the undisturbed run does.\<close>

lemma delivery:
  assumes "exec_all step cs s = Inr s'" and "exec_all step (take k cs) s = Inr t" and "run_batch step up cs t = (ok, t')"
  shows "\<exists>k'. exec_all step (take k' cs) s = Inr t' \<and> (ok \<longrightarrow> t' = s')"
proof -
  have rest: "exec_all step (drop k cs) t = Inr s'"
    using assms(1,2) exec_all_append [of step "take k cs" "drop k cs" s] by simp
  from skip_done [OF exec_done [OF assms(2)], of up "drop k cs" ok t'] assms(3)
  consider "\<not> ok" "t' = t" | up' where "run_batch step up' (drop k cs) t = (ok, t')" by auto
  then show ?thesis
  proof cases
    case 2
    obtain j where j: "exec_all step (take j (drop k cs)) t = Inr t'" "ok \<longrightarrow> t' = s'"
      using run_batch_prefix [OF rest 2] by auto
    show ?thesis
    proof (cases "k \<le> length cs")
      case True
      then show ?thesis
        using j assms(2) by (intro exI [of _ "k + j"]) (simp add: take_add exec_all_append)
    qed (use j assms(2) in \<open>auto intro: exI [of _ k]\<close>)
  qed (use assms(2) in auto)
qed

lemma deliveries:
  assumes "exec_all step cs s = Inr s'"
  shows "\<exists>k. exec_all step (take k cs) s = Inr (fold (\<lambda>up t. snd (run_batch step up cs t)) ups s)"
proof (induction ups rule: rev_induct)
  case (snoc up ups)
  then obtain k where "exec_all step (take k cs) s = Inr (fold (\<lambda>up t. snd (run_batch step up cs t)) ups s)" by blast
  from delivery [OF assms this] show ?case by (simp add: case_prod_unfold) (metis prod.collapse)
qed (auto intro: exI [of _ 0])

lemma retried_as_one:
  assumes "exec_all step cs s = Inr s'" and "run_batch step up cs (fold (\<lambda>up t. snd (run_batch step up cs t)) ups s) = (True, t)"
  shows "t = s'"
  using delivery [OF assms(1)] deliveries [OF assms(1), of ups] assms(2) by blast

lemma last_delivery_succeeds:
  assumes "exec_all step cs s = Inr s'"
  shows "run_batch step (replicate (length cs) True) cs (fold (\<lambda>up t. snd (run_batch step up cs t)) ups s) = (True, s')"
proof -
  obtain k where k: "exec_all step (take k cs) s = Inr (fold (\<lambda>up t. snd (run_batch step up cs t)) ups s)"
    using deliveries [OF assms] by blast
  let ?t = "fold (\<lambda>up t. snd (run_batch step up cs t)) ups s"
  have rest: "exec_all step (drop k cs) ?t = Inr s'"
    using assms k exec_all_append [of step "take k cs" "drop k cs" s] by simp
  have full: "exec_all step ds u = Inr u' \<Longrightarrow> run_batch step (replicate (length ds) True) ds u = (True, u')" for ds u u'
    by (induction ds arbitrary: u) (auto simp: result_simps)
  have "exec_all step cs' u = Inr u" if "list_all (\<lambda>c. is_done c u) cs'" for cs' u
    using that by (induction cs') (auto simp: again)
  then have "exec_all step (take k cs) ?t = Inr ?t" using exec_done [OF k] by blast
  then have "exec_all step (take k cs @ drop k cs) ?t = Inr s'" using rest by (simp only: exec_all_append bindE_simps)
  then show ?thesis using full by simp
qed

end

section \<open>Retried imports\<close>

text \<open>A database without its clock readings: deliveries at different times leave the same one.\<close>

definition untimed_row :: "tx_row \<Rightarrow> tx_row" where
  "untimed_row r = r\<lparr>tx_created_at := 0\<rparr>"

definition untimed_entry :: "tx_event outbox_row \<Rightarrow> tx_event outbox_row" where
  "untimed_entry e = e\<lparr>ob_created_at := 0, ob_next_attempt_at := 0\<rparr>"

definition untimed :: "tx_db \<Rightarrow> tx_db" where
  "untimed db = db\<lparr>td_rows := map untimed_row (td_rows db), td_outbox := map untimed_entry (td_outbox db)\<rparr>"

lemma untimed_simps [simp]:
  "td_next (untimed db) = td_next db" "td_categories (untimed db) = td_categories db"
  "td_subcategories (untimed db) = td_subcategories db" "td_rows (untimed db) = map untimed_row (td_rows db)"
  "td_outbox (untimed db) = map untimed_entry (td_outbox db)"
  by (simp_all add: untimed_def)

lemma untimed_row_fields [simp]:
  "tx_user (untimed_row r) = tx_user r" "tx_live (untimed_row r) = tx_live r" "row_key (untimed_row r) = row_key r"
  "tx_account (untimed_row r) = tx_account r" "tx_external_id (untimed_row r) = tx_external_id r"
  "columns_fit (untimed_row r) = columns_fit r" "ext_key (untimed_row r) = ext_key r"
  "created_event (untimed_row r) = created_event r" "tx_id (untimed_row r) = tx_id r"
  by (simp_all add: untimed_row_def tx_live_def row_key_def columns_fit_def ext_key_def created_event_def core_event_def)

lemma untimed_keys:
  "keys_of u (untimed db) = keys_of u db" "legacy_of u (untimed db) = legacy_of u db" "exts_of u (untimed db) = exts_of u db"
proof -
  have im: "row_key ` {r \<in> untimed_row ` R. P r} = row_key ` {r \<in> R. P (untimed_row r)}" for R P
    by (auto simp: image_iff) (metis untimed_row_fields(3))
  show "keys_of u (untimed db) = keys_of u db" "legacy_of u (untimed db) = legacy_of u db"
    by (simp_all add: keys_of_def legacy_of_def im)
  show "exts_of u (untimed db) = exts_of u db" by (simp add: exts_of_def)
qed

lemma bulk_dedup_untimed: "bulk_dedup u s items (untimed db) = bulk_dedup u s items db"
  by (simp add: bulk_dedup_def lookup_keys_def find_existing_dedup_keys_eq find_existing_external_ids_eq untimed_keys)

lemma import_row_untimed:
  "untimed_row (resolve_names db (item_row now u it)) = resolve_names (untimed db) (item_row 0 u it)"
  by (simp add: untimed_row_def resolve_names_def item_row_def draft_row_def cong: option.case_cong)

lemma tx_insert_untimed:
  "tx_insert (untimed_row r) (untimed db) = map_sum id (map_prod untimed_row untimed) (tx_insert r db)"
proof -
  have n: "(untimed_row r)\<lparr>tx_id := i\<rparr> = untimed_row (r\<lparr>tx_id := i\<rparr>)" for i by (simp add: untimed_row_def)
  have t: "ext_taken k (map untimed_row rows) = ext_taken k rows" for k rows
    by (simp add: ext_taken_def list_ex_iff)
  show ?thesis by (simp add: tx_insert_def Let_def n t bindE_def guardE_def untimed_def)
qed

lemma bulk_create_untimed:
  "bulk_create (map untimed_row rs) (untimed db) = map_sum id (map_prod (map untimed_row) untimed) (bulk_create rs db)"
proof (induction rs arbitrary: db)
  case (Cons r rs)
  show ?case
  proof (cases "tx_insert r db")
    case (Inr p)
    obtain r' db' where p: "p = (r', db')" by (cases p)
    show ?thesis using Cons.IH [of db'] by (cases "bulk_create rs db'") (auto simp: tx_insert_untimed Inr p)
  qed (simp add: tx_insert_untimed)
qed simp

lemma ob_add_entries_untimed:
  "map untimed_entry (ob_add_entries now es ob) = ob_add_entries 0 es (map untimed_entry ob)"
proof (induction es arbitrary: ob)
  case (Cons e es)
  obtain t p c a i where e: "e = (t, p, c, a, i)" by (cases e) auto
  have "fresh_id (map untimed_entry ob) = fresh_id ob" by (simp add: fresh_id_def untimed_entry_def comp_def)
  then have "map untimed_entry (ob_add now t p c a i ob) = ob_add 0 t p c a i (map untimed_entry ob)"
    by (simp add: ob_add_def ob_build_def untimed_entry_def)
  then show ?case using Cons.IH by (simp add: e)
qed simp

lemma tx_outbox_add_batch_untimed:
  "untimed (tx_outbox_add_batch now rows db) = tx_outbox_add_batch 0 (map untimed_row rows) (untimed db)"
  by (simp add: tx_outbox_add_batch_def untimed_def ob_add_entries_untimed comp_def)

text \<open>One chunk of an import, as a step of a batch.\<close>

definition import_step :: "instant \<Rightarrow> int \<Rightarrow> bulk_item list \<Rightarrow> tx_db \<Rightarrow> tx_error + tx_db" where
  "import_step now u c db = map_sum id snd (bulk_import None now u True c db)"

lemma import_step_untimed: "import_step 0 u c (untimed db) = map_sum id untimed (import_step now u c db)"
proof -
  let ?its = "bl_rows (bulk_dedup u True c db)"
  have rows: "map (resolve_names (untimed db)) (map (item_row 0 u) ?its) =
      map untimed_row (map (resolve_names db) (map (item_row now u) ?its))"
    by (simp add: import_row_untimed)
  show ?thesis
    by (cases "bulk_create (map (resolve_names db) (map (item_row now u) ?its)) db")
      (auto simp: import_step_def bulk_import_def Let_def bulk_dedup_untimed bulk_enrich_def rows bulk_create_untimed
        tx_outbox_add_batch_untimed simp del: map_map)
qed

interpretation import_batch: resumable_batch "import_step now u" "\<lambda>c db. list_all (covered u db) c" for now u
proof
  fix c db db'
  assume "import_step now u c db = Inr db'"
  then obtain res where b: "bulk_import None now u True c db = Inr (res, db')"
    by (cases "bulk_import None now u True c db") (auto simp: import_step_def)
  show "list_all (covered u db') c" using import_covers [OF b] by (simp add: list_all_iff)
  show "list_all (covered u db') c'" if "list_all (covered u db) c'" for c'
  proof -
    obtain new where "td_rows db' = td_rows db @ new" using b by (rule bulk_import_Inr)
    then show ?thesis using that covered_mono by (auto simp: list_all_iff)
  qed
next
  fix c db
  assume "list_all (covered u db) c"
  then show "import_step now u c db = Inr db" by (simp add: import_step_def import_known list_all_iff)
qed

lemma run_batch_untimed:
  "run_batch (import_step 0 u) up cs (untimed db) = map_prod id untimed (run_batch (import_step now u) up cs db)"
proof (induction "import_step now u" up cs db rule: run_batch.induct)
  case (3 a up c cs db)
  show ?case
    using 3 by (cases "import_step now u c db") (auto simp: import_step_untimed [of u c db now])
qed simp_all

lemma import_chunks_run:
  "import_chunks up now u cs acc db = (r, db') \<Longrightarrow> run_batch (import_step now u) up cs db = (\<not> isl r, db')"
  by (induction up now u cs acc db rule: import_chunks.induct)
    (auto simp: import_step_def split: if_splits sum.splits prod.splits)

definition import_deliveries :: "dict \<Rightarrow> (bool list \<times> instant) list \<Rightarrow> tx_db \<Rightarrow> tx_db" where
  "import_deliveries body ds db = fold (\<lambda>(up, now) d. snd (handle_bulk_import up now body d)) ds db"

lemma handle_bulk_import_run:
  assumes "command_items body = Inr (JInt u, items)" and "items \<noteq> []"
  shows "handle_bulk_import up now body db = (r, db') \<Longrightarrow>
      run_batch (import_step now u) up (chunks BULK_IMPORT_CHUNK_SIZE items) db = (\<not> isl r, db')"
    and "untimed (snd (handle_bulk_import up now body db)) =
      snd (run_batch (import_step 0 u) up (chunks BULK_IMPORT_CHUNK_SIZE items) (untimed db))"
proof -
  show *: "run_batch (import_step now u) up (chunks BULK_IMPORT_CHUNK_SIZE items) db = (\<not> isl r, db')"
    if "handle_bulk_import up now body db = (r, db')" for r db'
    using that assms import_chunks_run [of up now u "chunks BULK_IMPORT_CHUNK_SIZE items" no_result db]
    by (auto simp: handle_bulk_import_def Let_def split: prod.splits sum.splits)
  obtain r db' where h: "handle_bulk_import up now body db = (r, db')" by fastforce
  show "untimed (snd (handle_bulk_import up now body db)) =
      snd (run_batch (import_step 0 u) up (chunks BULK_IMPORT_CHUNK_SIZE items) (untimed db))"
    unfolding run_batch_untimed [where now = now] using * [OF h] h by simp
qed

lemma import_deliveries_untimed:
  assumes "command_items body = Inr (JInt u, items)" and "items \<noteq> []"
  shows "untimed (import_deliveries body ds db) =
    fold (\<lambda>up t. snd (run_batch (import_step 0 u) up (chunks BULK_IMPORT_CHUNK_SIZE items) t)) (map fst ds) (untimed db)"
proof (induction ds arbitrary: db)
  case (Cons d ds)
  obtain up now where d: "d = (up, now)" by (cases d)
  have "import_deliveries body (d # ds) db = import_deliveries body ds (snd (handle_bulk_import up now body db))"
    by (simp add: import_deliveries_def d)
  then show ?case using Cons.IH by (simp add: d handle_bulk_import_run(2) [OF assms])
qed (simp add: import_deliveries_def)

lemma exec_all_of_run: "run_batch step up cs s = (True, s') \<Longrightarrow> exec_all step cs s = Inr s'"
  by (induction step up cs s rule: run_batch.induct) (auto split: if_splits sum.splits)

text \<open>
  C4. However often the command to import a bank's transactions is delivered, and wherever the database went away
  in between, the import happens once: a delivery that succeeds leaves the rows and the events that one
  undisturbed delivery leaves, clock readings apart, and a delivery that nothing disturbs does succeed.
\<close>

theorem import_retries_as_one:
  assumes "command_items body = Inr (user, items)" and "handle_bulk_import up0 now0 body db = (Inr reply0, db0)"
  shows "(\<forall>up now reply db'. handle_bulk_import up now body (import_deliveries body ds db) = (Inr reply, db') \<longrightarrow>
      untimed db' = untimed db0) \<and>
    (\<exists>reply db'. handle_bulk_import (replicate (length (chunks BULK_IMPORT_CHUNK_SIZE items)) True) now body
      (import_deliveries body ds db) = (Inr reply, db'))"
proof (cases "items = []")
  case True
  then have *: "handle_bulk_import up now body d = (Inr \<lparr>cr_success = True, cr_error_message = None,
      cr_result_data = Some (result_data no_result), cr_is_compensation = False\<rparr>, d)" for up now d
    using assms(1) by (simp add: handle_bulk_import_def)
  have "import_deliveries body ds db = db"
    unfolding import_deliveries_def by (induction ds) (auto simp: *)
  then show ?thesis using assms(2) by (simp add: *)
next
  case ne: False
  obtain u where user: "user = JInt u"
    using assms ne by (cases user) (auto simp: handle_bulk_import_def)
  note ci = assms(1) [unfolded user]
  let ?cs = "chunks BULK_IMPORT_CHUNK_SIZE items" and ?d = "import_deliveries body ds db"
  have "run_batch (import_step 0 u) up0 ?cs (untimed db) = (True, untimed db0)"
    using handle_bulk_import_run(1) [OF ci ne assms(2)] run_batch_untimed [of u up0 ?cs db now0] by simp
  note full = exec_all_of_run [OF this]
  note d = import_deliveries_untimed [OF ci ne, of ds db]
  have "untimed db' = untimed db0" if h: "handle_bulk_import up now body ?d = (Inr reply, db')" for up now reply db'
  proof (rule import_batch.retried_as_one [OF full, of up "map fst ds"])
    show "run_batch (import_step 0 u) up ?cs
        (fold (\<lambda>up t. snd (run_batch (import_step 0 u) up ?cs t)) (map fst ds) (untimed db)) = (True, untimed db')"
      unfolding d [symmetric] run_batch_untimed [where now = now] using handle_bulk_import_run(1) [OF ci ne h] by simp
  qed
  moreover have "\<exists>reply db'. handle_bulk_import (replicate (length ?cs) True) now body ?d = (Inr reply, db')"
  proof -
    obtain r db' where h: "handle_bulk_import (replicate (length ?cs) True) now body ?d = (r, db')" by fastforce
    have "fst (run_batch (import_step 0 u) (replicate (length ?cs) True) ?cs (untimed ?d))"
      unfolding d using import_batch.last_delivery_succeeds [OF full] by simp
    then have "\<not> isl r"
      unfolding run_batch_untimed [where now = now] using handle_bulk_import_run(1) [OF ci ne h] by simp
    then show ?thesis using h by (cases r) auto
  qed
  ultimately show ?thesis by blast
qed

section \<open>Roll back\<close>

definition doomed :: "int \<Rightarrow> int set \<Rightarrow> tx_row \<Rightarrow> bool" where
  "doomed u ids r \<longleftrightarrow> tx_id r \<in> ids \<and> tx_user r = u \<and> tx_live r"

lemma tx_outbox_add_simps [simp]:
  "td_rows (tx_outbox_add now ev i db) = td_rows db" "td_next (tx_outbox_add now ev i db) = td_next db"
  "td_processed (tx_outbox_add now ev i db) = td_processed db" "td_categories (tx_outbox_add now ev i db) = td_categories db"
  "td_subcategories (tx_outbox_add now ev i db) = td_subcategories db"
  by (simp_all add: tx_outbox_add_def)

lemma delete_transaction_rows:
  "case delete_transaction now i u db of
     Inr db' \<Rightarrow> td_rows db' = update_where (doomed u {i}) (\<lambda>r. r\<lparr>tx_deleted_at := Some now\<rparr>) (td_rows db) \<and> td_next db' = td_next db
   | Inl e \<Rightarrow> e = TransactionNotFound i \<and> (\<forall>r \<in> set (td_rows db). \<not> doomed u {i} r)"
proof (cases "tx_get i u db")
  case None
  then have "\<forall>r \<in> set (td_rows db). \<not> doomed u {i} r" by (auto simp: tx_get_def find_None_all doomed_def)
  then show ?thesis using None by (simp add: delete_transaction_def of_option_def)
next
  case (Some r)
  then have "list_ex (\<lambda>r. tx_id r = i \<and> tx_user r = u \<and> tx_live r) (td_rows db)"
    using find_Some_mem [of _ "td_rows db" r] by (auto simp: tx_get_def list_ex_iff)
  then show ?thesis using Some
    by (simp add: delete_transaction_def of_option_def tx_delete_def Let_def guardE_def doomed_def update_where_def)
qed

lemma rollback_one_rows:
  assumes "rollback_one now (JInt u) True (JInt i) db = (bad, db')"
  shows "\<not> bad \<and> td_rows db' = update_where (doomed u {i}) (\<lambda>r. r\<lparr>tx_deleted_at := Some now\<rparr>) (td_rows db) \<and> td_next db' = td_next db"
  using assms delete_transaction_rows [where now = now and i = i and u = u and db = db] update_where_none [of "td_rows db" "doomed u {i}"]
  by (cases "delete_transaction now i u db") (auto simp: rollback_one_def)

lemma rollback_all_rows:
  assumes "rollback_all now (JInt u) (replicate n True) (map JInt ids) db = (failed, db')" and "length ids \<le> n"
  shows "failed = [] \<and> td_rows db' = update_where (doomed u (set ids)) (\<lambda>r. r\<lparr>tx_deleted_at := Some now\<rparr>) (td_rows db) \<and>
    td_next db' = td_next db"
  using assms
proof (induction ids arbitrary: n db failed db')
  case Nil
  then show ?case by (simp add: update_where_none doomed_def)
next
  case (Cons i ids)
  obtain m where n: "n = Suc m" using Cons.prems(2) by (cases n) auto
  obtain bad db1 where one: "rollback_one now (JInt u) True (JInt i) db = (bad, db1)" by fastforce
  obtain fl where rest: "rollback_all now (JInt u) (replicate m True) (map JInt ids) db1 = (fl, db')"
    and failed: "failed = (if bad then JInt i # fl else fl)"
    using Cons.prems(1) one by (auto simp: n split: prod.splits)
  note o = rollback_one_rows [OF one]
  note IH = Cons.IH [OF rest]
  have "update_where (doomed u (set ids)) (\<lambda>r. r\<lparr>tx_deleted_at := Some now\<rparr>)
      (update_where (doomed u {i}) (\<lambda>r. r\<lparr>tx_deleted_at := Some now\<rparr>) rows) =
    update_where (doomed u (set (i # ids))) (\<lambda>r. r\<lparr>tx_deleted_at := Some now\<rparr>) rows" for rows
    by (induction rows) (auto simp: doomed_def tx_live_def)
  then show ?case using o IH Cons.prems(2) failed n by simp
qed

lemma live_after_delete:
  "filter tx_live (update_where (doomed u ids) (\<lambda>r. r\<lparr>tx_deleted_at := Some now\<rparr>) rows) =
     filter (\<lambda>r. \<not> (tx_id r \<in> ids \<and> tx_user r = u)) (filter tx_live rows)"
  by (induction rows) (auto simp: doomed_def tx_live_def)

section \<open>The import command as a whole\<close>

definition ids_below :: "tx_db \<Rightarrow> bool" where
  "ids_below db \<longleftrightarrow> list_all (\<lambda>r. tx_id r < td_next db) (td_rows db)"

text \<open>The rows an import adds and the ids it reports.\<close>

lemma import_chunks_rows:
  assumes "import_chunks up now u cs acc db = (Inr res, db')" and "ids_below db"
  shows "\<exists>new. td_rows db' = td_rows db @ new \<and> br_imported_ids res = br_imported_ids acc @ map tx_id new \<and>
    list_all (\<lambda>r. tx_user r = u \<and> tx_live r \<and> td_next db \<le> tx_id r) new \<and> ids_below db' \<and> td_next db \<le> td_next db'"
  using assms
proof (induction up now u cs acc db rule: import_chunks.induct)
  case (3 a up now u c cs acc db)
  obtain r1 db1 where b: "bulk_import None now u True c db = Inr (r1, db1)"
    and rest: "import_chunks up now u cs (add_result acc r1) db1 = (Inr res, db')" and a: a
    using "3.prems"(1) by (auto split: if_splits sum.splits prod.splits)
  obtain new where new: "td_rows db1 = td_rows db @ new" "br_imported_ids r1 = map tx_id new"
    "map tx_ident new = map (\<lambda>it. (u, item_key it, bi_external_id it, None)) (bl_rows (bulk_dedup u True c db))"
    "new = number_rows (td_next db) (map (resolve_names db) (bulk_enrich None (map (item_row now u) (bl_rows (bulk_dedup u True c db)))))"
    "db1 = tx_outbox_add_batch now new (db\<lparr>td_rows := td_rows db @ new, td_next := td_next db + int (length new)\<rparr>)"
    using b by (rule bulk_import_Inr)
  have nxt: "td_next db1 = td_next db + int (length new)"
    using arg_cong [OF new(5), of td_next] by simp
  have idr: "td_next db \<le> tx_id r \<and> tx_id r < td_next db + int (length new)" if "r \<in> set new" for r
    using number_rows_ids [of r "td_next db"] that arg_cong [OF new(4), of length] new(4) by fastforce
  have usr: "tx_user r = u \<and> tx_live r" if "r \<in> set new" for r
  proof -
    have "tx_ident r \<in> set (map tx_ident new)" using that by simp
    then show ?thesis unfolding new(3) by (auto simp: tx_ident_def tx_live_def)
  qed
  have ok1: "ids_below db1"
    using "3.prems"(2) idr new(1) nxt by (force simp: ids_below_def list_all_iff)
  obtain new2 where "td_rows db' = td_rows db1 @ new2" "br_imported_ids res = br_imported_ids (add_result acc r1) @ map tx_id new2"
    "list_all (\<lambda>r. tx_user r = u \<and> tx_live r \<and> td_next db1 \<le> tx_id r) new2" "ids_below db'" "td_next db1 \<le> td_next db'"
    using "3.IH" [OF _ b refl rest ok1] a by auto
  then show ?case
    using new(1,2) idr usr nxt
    by (intro exI [of _ "new @ new2"]) (fastforce simp: add_result_def list_all_iff)
qed auto

section \<open>A concrete import\<close>

definition demo_item :: json where
  "demo_item = JObj [(''amount'', JStr ''12.50''), (''transaction_type'', JStr ''expense''), (''date'', JStr ''2024-05-06''),
     (''description'', JStr ''kaffe''), (''external_id'', JStr ''e1''), (''currency'', JStr ''DKK'')]"

definition demo_bulk :: bulk_item where
  "demo_bulk = \<lparr>cd_account_id = 2, cd_account_name = ''A'', cd_category_id = None, cd_category_name = None, cd_amount = 1250,
     cd_type = Expense, cd_description = Some ''kaffe'', cd_date = Date 2024 5 6, cd_subcategory_id = None, cd_tier = None,
     cd_confidence = None, bi_external_id = Some ''e1'', bi_currency = ''DKK''\<rparr>"

definition empty_tx_db :: tx_db where
  "empty_tx_db = \<lparr>td_rows = [], td_next = 1, td_planned = [], td_next_planned = 1, td_categories = [], td_subcategories = [],
     td_outbox = [], td_processed = []\<rparr>"

definition demo_tx_row :: "instant \<Rightarrow> tx_row" where
  "demo_tx_row now = (item_row now 3 demo_bulk)\<lparr>tx_id := 1\<rparr>"

definition demo_tx_db :: "instant \<Rightarrow> tx_db" where
  "demo_tx_db now = tx_outbox_add_batch now [demo_tx_row now] (empty_tx_db\<lparr>td_rows := [demo_tx_row now], td_next := 2\<rparr>)"

definition demo_result :: bulk_result where
  "demo_result = \<lparr>br_imported = 1, br_duplicates = 0, br_errors = 0, br_imported_ids = [1]\<rparr>"

lemma demo_amount_read: "parse_decimal ''12.50'' = Some (25 / 2)"
proof -
  have "show_cents 1250 = ''12.50''" by code_simp
  then show ?thesis using parse_decimal_show_cents [of 1250] by simp
qed

lemma demo_item_valid: "item_of_json (JInt 2) (JStr ''A'') demo_item = Inr demo_bulk"
proof -
  have "of_isoformat ''2024-05-06'' = Some (Date 2024 5 6)" "strip ''e1'' = ''e1''" by code_simp+
  then show ?thesis
    using demo_amount_read
    by (simp add: demo_item_def demo_bulk_def item_of_json_def make_bulk_item_def tx_req_def tx_decimal_def valid_int_def
        valid_iso_date_def valid_type_def clean_external_id_def dget_or_def of_option_def guardE_def AMOUNT_MIN_def AMOUNT_MAX_def
        whole_cents_def opt_len_def)
qed

lemma demo_dedup:
  "bulk_dedup 3 True [demo_bulk] empty_tx_db = \<lparr>bl_rows = [demo_bulk], bl_duplicates = 0, bl_seen_ext = {(2, ''e1'')}, bl_seen = {}\<rparr>"
  by (simp add: bulk_dedup_def bulk_step_eq item_new_def item_ext_def lookup_keys_def find_existing_dedup_keys_eq
      find_existing_external_ids_eq legacy_of_def keys_of_def exts_of_def empty_tx_db_def demo_bulk_def item_key_def)

lemma demo_import: "bulk_import None now 3 True [demo_bulk] empty_tx_db = Inr (demo_result, demo_tx_db now)"
proof -
  have "resolve_names empty_tx_db (item_row now 3 demo_bulk) = item_row now 3 demo_bulk"
    by (simp add: resolve_names_def item_row_def draft_row_def demo_bulk_def)
  moreover have "tx_insert (item_row now 3 demo_bulk) empty_tx_db = Inr (demo_tx_row now, empty_tx_db\<lparr>td_rows := [demo_tx_row now], td_next := 2\<rparr>)"
    by (simp add: tx_insert_def Let_def demo_tx_row_def item_row_def draft_row_def demo_bulk_def columns_fit_def opt_len_def
        ext_taken_def empty_tx_db_def guardE_def)
  moreover have "tx_id (demo_tx_row now) = 1" by (simp add: demo_tx_row_def)
  ultimately show ?thesis
    unfolding bulk_import_def demo_dedup Let_def by (simp add: bulk_enrich_def demo_result_def demo_tx_db_def)
qed

lemma demo_handle:
  assumes "command_items body = Inr (JInt 3, [demo_bulk])"
  shows "handle_bulk_import (True # up) now body empty_tx_db =
    (Inr \<lparr>cr_success = True, cr_error_message = None, cr_result_data = Some (result_data demo_result), cr_is_compensation = False\<rparr>,
     demo_tx_db now)"
proof -
  have "chunks BULK_IMPORT_CHUNK_SIZE [demo_bulk] = [[demo_bulk]]" by (simp add: chunks.simps BULK_IMPORT_CHUNK_SIZE_def)
  moreover have "add_result no_result demo_result = demo_result" by (simp add: add_result_def no_result_def demo_result_def)
  ultimately show ?thesis using assms demo_import [of now] by (simp add: handle_bulk_import_def)
qed

definition demo_command :: dict where
  "demo_command = [(''user_id'', JInt 3), (''account_id'', JInt 2), (''account_name'', JStr ''A''), (''items'', JList [demo_item])]"

lemma demo_command_items: "command_items demo_command = Inr (JInt 3, [demo_bulk])"
  by (simp add: command_items_def demo_command_def tx_req_def of_option_def dget_or_def demo_item_valid)

theorem import_retries_as_one_witness:
  "\<exists>reply db'. handle_bulk_import [True] 8 demo_command (import_deliveries demo_command [([], 1), ([True], 2)] empty_tx_db) =
     (Inr reply, db') \<and> untimed db' = untimed (demo_tx_db 9)"
proof -
  have "length (chunks BULK_IMPORT_CHUNK_SIZE [demo_bulk]) = 1" by (simp add: chunks.simps BULK_IMPORT_CHUNK_SIZE_def)
  then show ?thesis
    using import_retries_as_one [OF demo_command_items demo_handle [OF demo_command_items, of "[]" 9], of "[([], 1), ([True], 2)]" 8]
    by fastforce
qed

end
