(* ===== verification/BankSyncFlow.thy ===== *)
theory BankSyncFlow
  imports TransactionProofs SagaProperties
begin

text \<open>
  The bank synchronisation across services: the orchestrator of saga-service and the saga commands of
  transaction-service together.
\<close>

section \<open>What transaction-service does with a command\<close>

abbreviation live_rows :: "tx_db \<Rightarrow> tx_row list" where
  "live_rows db \<equiv> filter tx_live (td_rows db)"

lemma command_items_user: "command_items body = Inr (us, items) \<Longrightarrow> dget body ''user_id'' = Some us"
  by (cases "dget_or body ''items'' (JList [])") (auto simp: command_items_def tx_req_def result_simps)

lemma import_command_effect:
  assumes "tx_saga_on_message env hdr (Some (JObj body)) tdb = (CommandReplied reply, tdb')" and "rp_success reply"
    and "dget body ''event_type'' = Some (JStr ''saga.cmd.bulk_import_transactions'')" and "ids_below tdb"
    and "dget body ''user_id'' = Some (JInt u)"
  obtains new res where "rp_result_data reply = Some res" and "dget res ''imported_ids'' = Some (JList (map JInt (map tx_id new)))"
    and "td_rows tdb' = td_rows tdb @ new" and "list_all (\<lambda>r. tx_user r = u \<and> tx_live r \<and> td_next tdb \<le> tx_id r) new"
    and "rp_saga_id reply = text_of (dget_or body ''saga_id'' (JStr []))"
    and "rp_step_name reply = text_of (dget_or body ''step_name'' (JStr []))"
    and "rp_error_message reply = None" and "\<not> rp_is_compensation reply" and "ids_below tdb'"
proof -
  obtain r where h: "handle_bulk_import (ce_up env) (ce_now env) body tdb = (Inr r, tdb')"
    and reply: "reply = publish_reply (dget_or body ''saga_id'' (JStr [])) (dget_or body ''step_name'' (JStr [])) r"
    using assms(1-3)
    by (auto simp: tx_saga_on_message_def dget_or_def command_failed_def publish_reply_def Let_def
        split: prod.splits sum.splits if_splits option.splits)
  obtain us items where "command_items body = Inr (us, items)"
    using h by (cases "command_items body") (auto simp: handle_bulk_import_def)
  then have ci: "command_items body = Inr (JInt u, items)" using command_items_user assms(5) by fastforce
  have "\<exists>res. r = \<lparr>cr_success = True, cr_error_message = None, cr_result_data = Some (result_data res), cr_is_compensation = False\<rparr> \<and>
      (\<exists>new. td_rows tdb' = td_rows tdb @ new \<and> br_imported_ids res = map tx_id new \<and>
        list_all (\<lambda>r. tx_user r = u \<and> tx_live r \<and> td_next tdb \<le> tx_id r) new \<and> ids_below tdb')"
  proof (cases "items = []")
    case True
    then show ?thesis using h ci assms(4) by (intro exI [of _ no_result]) (auto simp: handle_bulk_import_def no_result_def)
  next
    case False
    then obtain res where ic: "import_chunks (ce_up env) (ce_now env) u (chunks BULK_IMPORT_CHUNK_SIZE items) no_result tdb = (Inr res, tdb')"
      and r: "r = \<lparr>cr_success = True, cr_error_message = None, cr_result_data = Some (result_data res), cr_is_compensation = False\<rparr>"
      using h ci by (auto simp: handle_bulk_import_def split: prod.splits sum.splits)
    show ?thesis
      using import_chunks_rows [OF ic assms(4)] by (intro exI [of _ res] conjI r) (auto simp: no_result_def)
  qed
  then obtain res new where "r = \<lparr>cr_success = True, cr_error_message = None, cr_result_data = Some (result_data res), cr_is_compensation = False\<rparr>"
    "td_rows tdb' = td_rows tdb @ new" "br_imported_ids res = map tx_id new"
    "list_all (\<lambda>r. tx_user r = u \<and> tx_live r \<and> td_next tdb \<le> tx_id r) new" "ids_below tdb'" by blast
  then show ?thesis using that [of "result_data res" new] by (simp add: reply publish_reply_def result_data_def)
qed

lemma rollback_command_effect:
  assumes "dget body ''event_type'' = Some (JStr ''saga.cmd.rollback_import'')" and "dget body ''user_id'' = Some (JInt u)"
    and "dget body ''transaction_ids'' = Some (JList (map JInt ids))" and "ids \<noteq> []"
    and "ce_up env = replicate n True" and "length ids \<le> n" and "ce_reply_ok env"
  obtains tdb' where "tx_saga_on_message env hdr (Some (JObj body)) tdb = (CommandReplied
      \<lparr>rp_saga_id = text_of (dget_or body ''saga_id'' (JStr [])), rp_step_name = text_of (dget_or body ''step_name'' (JStr [])),
       rp_success = True, rp_error_message = None, rp_result_data = None, rp_is_compensation = True\<rparr>, tdb')"
    and "live_rows tdb' = filter (\<lambda>r. \<not> (tx_id r \<in> set ids \<and> tx_user r = u)) (live_rows tdb)"
proof -
  obtain failed tdb' where ra: "rollback_all (ce_now env) (JInt u) (replicate n True) (map JInt ids) tdb = (failed, tdb')" by fastforce
  note rows = rollback_all_rows [OF ra assms(6)]
  have "handle_rollback_import (ce_str env) (ce_up env) (ce_now env) body tdb =
      (Inr \<lparr>cr_success = True, cr_error_message = None, cr_result_data = None, cr_is_compensation = True\<rparr>, tdb')"
    using assms(2-5) ra rows by (simp add: handle_rollback_import_def tx_req_def of_option_def dget_or_def)
  then show ?thesis
    using that [of tdb'] assms(1,7) rows live_after_delete
    by (simp add: tx_saga_on_message_def dget_or_def publish_reply_def)
qed

section \<open>A synchronisation that fails\<close>

lemma command_payload_get:
  "dget (command_payload sg nm t p) ''event_type'' = Some (JStr t)" "dget (command_payload sg nm t p) ''step_name'' = Some (JStr nm)"
  "dget (command_payload sg nm t p) ''saga_id'' = Some (JStr (sg_id sg))"
  "k \<notin> {''event_type'', ''step_name'', ''saga_type'', ''saga_id''} \<Longrightarrow> dget (command_payload sg nm t p) k = dget p k"
  by (auto simp: command_payload_def)

lemma import_command_user:
  "bank_sync_build_command (Suc 0) ctx = Inr p \<Longrightarrow> dget p ''user_id'' = dget ctx ''user_id''"
  by (auto simp: bank_sync_build_command_def dreq_def result_simps)

text \<open>
  The first two steps of a synchronisation: the saga waits for its last step, its context holds the ids of exactly the
  transactions the import added.
\<close>

lemma sync_imported:
  assumes "sreach get_saga_registry db" and "sg \<in> set (db_sagas db)" and "sg_status sg = SagaStarted" and "sg_id sg \<noteq> []"
    and "sg_current_step sg = 0" and "dget (sg_context sg) ''user_id'' = Some (JInt u)" and "ids_below tdb"
    and fetch: "reply_consumer_handle get_saga_registry now0 (bank_reply (sg_id sg) ''fetch_transactions'' True None (Some fetched)) db
      = (Handled, db1)"
    and import: "tx_saga_on_message env1 hdr1 (Some (JObj (ob_payload (last (db_outbox db1))))) tdb = (CommandReplied rep, tdb1)"
      "rp_success rep"
    and replied: "reply_consumer_handle get_saga_registry now1 rep db1 = (Handled, db2)"
  obtains sg2 new where "sreach get_saga_registry db2" and "sg2 \<in> set (db_sagas db2)" and "sg_id sg2 = sg_id sg"
    and "sg_status sg2 = SagaStarted" and "sg_current_step sg2 = 2"
    and "dget (sg_context sg2) ''imported_ids'' = Some (JList (map JInt (map tx_id new)))"
    and "dget (sg_context sg2) ''user_id'' = Some (JInt u)"
    and "td_rows tdb1 = td_rows tdb @ new" and "list_all (\<lambda>r. tx_user r = u \<and> tx_live r \<and> td_next tdb \<le> tx_id r) new"
proof -
  have s0: "sd_name (bank_sync_steps ! sg_current_step sg) = ''fetch_transactions''" "sg_current_step sg < 2"
    using assms(5) by (simp_all add: bank_sync_steps_def)
  obtain sg1 payload row1 where r1: "sreach get_saga_registry db1" and sg1: "sg1 \<in> set (db_sagas db1)" "sg_id sg1 = sg_id sg"
    "sg_status sg1 = SagaStarted" "sg_current_step sg1 = 1" "bank_sync_on_reply 0 (sg_context sg) (Some fetched) = Inr (sg_context sg1)"
    and p1: "bank_sync_build_command (Suc 0) (sg_context sg1) = Inr payload" "db_outbox db1 = db_outbox db @ [row1]"
      "ob_payload row1 = command_payload sg1 ''import_transactions'' ''saga.cmd.bulk_import_transactions'' payload"
    using fetch unfolding s0(1) [symmetric]
    by (rule bank_sync_advance [OF assms(1-4) s0(2)], intro that) (use assms(5) in \<open>simp_all add: bank_sync_steps_def\<close>)
  have u1: "dget (sg_context sg1) ''user_id'' = Some (JInt u)"
    using bank_sync_on_reply_keeps [OF sg1(5), of "''user_id''"] assms(6) by simp
  let ?body = "ob_payload row1"
  have body: "dget ?body ''event_type'' = Some (JStr ''saga.cmd.bulk_import_transactions'')" "dget ?body ''user_id'' = Some (JInt u)"
    "dget_or ?body ''saga_id'' (JStr []) = JStr (sg_id sg)" "dget_or ?body ''step_name'' (JStr []) = JStr ''import_transactions''"
    using import_command_user [OF p1(1)] u1 sg1(2) by (simp_all add: p1(3) command_payload_get dget_or_def)
  have msg: "tx_saga_on_message env1 hdr1 (Some (JObj ?body)) tdb = (CommandReplied rep, tdb1)" using import(1) p1(2) by simp
  obtain new res where rep: "rp_result_data rep = Some res" "dget res ''imported_ids'' = Some (JList (map JInt (map tx_id new)))"
    "td_rows tdb1 = td_rows tdb @ new" "list_all (\<lambda>r. tx_user r = u \<and> tx_live r \<and> td_next tdb \<le> tx_id r) new"
    "rp_saga_id rep = Some (sg_id sg)" "rp_step_name rep = Some ''import_transactions''" "rp_error_message rep = None"
    "\<not> rp_is_compensation rep"
    by (rule import_command_effect [OF msg import(2) body(1) assms(7) body(2)], rule that)
      (use body(3,4) in \<open>simp_all add: text_of_def\<close>)
  have bank: "rep = bank_reply (sg_id sg1) (sd_name (bank_sync_steps ! sg_current_step sg1)) True None (Some res)"
    using rep import(2) sg1(2,4) by (simp add: bank_reply_def)
  have id1: "sg_id sg1 \<noteq> []" "sg_current_step sg1 < 2" using sg1(2,4) assms(4) by simp_all
  obtain sg2 where r2: "sreach get_saga_registry db2" and sg2: "sg2 \<in> set (db_sagas db2)" "sg_id sg2 = sg_id sg"
    "sg_status sg2 = SagaStarted" "sg_current_step sg2 = 2" "bank_sync_on_reply 1 (sg_context sg1) (Some res) = Inr (sg_context sg2)"
    using replied unfolding bank
    by (rule bank_sync_advance [OF r1 sg1(1,3) id1], intro that) (use sg1(2,4) in simp_all)
  have ctx: "dget (sg_context sg2) ''imported_ids'' = Some (JList (map JInt (map tx_id new)))"
    "dget (sg_context sg2) ''user_id'' = Some (JInt u)"
    using bank_sync_imported_ids [OF sg2(5)] bank_sync_on_reply_keeps [OF sg2(5), of "''user_id''"] rep(2) u1
    by (simp_all add: dget_or_def)
  show thesis by (rule that [OF r2 sg2(1-4) ctx rep(3,4)])
qed


section \<open>A concrete run\<close>

definition demo_env :: command_env where
  "demo_env = \<lparr>ce_now = 25, ce_up = [True], ce_reply_ok = True, ce_again_ok = True, ce_str = (\<lambda>_. []), ce_error = (\<lambda>_. [])\<rparr>"

definition flow_db1 :: saga_db where
  "flow_db1 = snd (reply_consumer_handle get_saga_registry 20 (bank_reply (sg_id (demo_saga 1)) ''fetch_transactions'' True None
     (Some [(''items'', JList [demo_item])])) (demo_db 1))"

definition flow_reply :: saga_reply where
  "flow_reply = bank_reply (sg_id (demo_saga 1)) ''import_transactions'' True None (Some (result_data demo_result))"

definition flow_db2 :: saga_db where
  "flow_db2 = snd (reply_consumer_handle get_saga_registry 30 flow_reply flow_db1)"

definition flow_db3 :: saga_db where
  "flow_db3 = snd (reply_consumer_handle get_saga_registry 40 (bank_reply (sg_id (demo_saga 1)) ''mark_sync_complete'' False None None) flow_db2)"

lemma flow_facts:
  "sg_status (demo_saga 1) = SagaStarted" "sg_id (demo_saga 1) \<noteq> []" "sg_current_step (demo_saga 1) = 0"
  "dget (sg_context (demo_saga 1)) ''user_id'' = Some (JInt 3)"
  by code_simp+

lemma flow_body:
  "ob_payload (last (db_outbox flow_db1)) = command_payload (demo_saga 1) ''import_transactions'' ''saga.cmd.bulk_import_transactions''
     demo_command"
  "fst (reply_consumer_handle get_saga_registry 20 (bank_reply (sg_id (demo_saga 1)) ''fetch_transactions'' True None
     (Some [(''items'', JList [demo_item])])) (demo_db 1)) = Handled"
  by code_simp+

lemma flow_tx:
  "tx_saga_on_message demo_env None (Some (JObj (ob_payload (last (db_outbox flow_db1))))) empty_tx_db =
     (CommandReplied flow_reply, demo_tx_db 25)"
proof -
  let ?b = "command_payload (demo_saga 1) ''import_transactions'' ''saga.cmd.bulk_import_transactions'' demo_command"
  have "command_items ?b = Inr (JInt 3, [demo_bulk])"
    by (simp add: command_items_def tx_req_def of_option_def dget_or_def command_payload_get)
      (simp add: demo_command_def demo_item_valid)
  note h = demo_handle [OF this, of "[]" 25, unfolded One_nat_def]
  show ?thesis unfolding flow_body(1)
    by (simp add: tx_saga_on_message_def dget_or_def command_payload_get demo_env_def h flow_reply_def bank_reply_def
        publish_reply_def text_of_def)
qed


end
