(* ===== verification/TransactionTable.thy ===== *)
theory TransactionTable
  imports TransactionProofs
begin

text \<open>
  The transaction table under all operations of transaction-service in any order: it stays well formed, the
  events of the outbox replay it, and a category the user chose is never replaced by the categorizer.
\<close>

section \<open>Operations\<close>

datatype tx_op =
    OpCreate cat_client instant int create_dto
  | OpUpdate instant int int tx_fields
  | OpDelete instant int int
  | OpBulk cat_client instant int bool "bulk_item list"
  | OpCsv instant int "bulk_item list"
  | OpSaga command_env "amqp_value option" "json option"
  | OpCategorized bool categorized_payload
  | OpTaxonomy string string dict
  | OpPlan instant int planned_dto
  | OpReplan int int planned_fields
  | OpUnplan int int

definition committed :: "tx_db \<Rightarrow> ('r \<Rightarrow> tx_db) \<Rightarrow> tx_error + 'r \<Rightarrow> tx_db" where
  "committed db f res = (case res of Inl _ \<Rightarrow> db | Inr x \<Rightarrow> f x)"

text \<open>An exception rolls back; the request of an update has neither a tier nor a subcategory name.\<close>

fun apply_tx_op :: "tx_op \<Rightarrow> tx_db \<Rightarrow> tx_db" where
  "apply_tx_op (OpCreate client now u d) db = committed db snd (create_transaction client now u d db)"
| "apply_tx_op (OpUpdate now i u f) db =
     committed db snd (update_transaction now i u (f\<lparr>uf_tier := None, uf_subcategory_name := None\<rparr>) db)"
| "apply_tx_op (OpDelete now i u) db = committed db id (delete_transaction now i u db)"
| "apply_tx_op (OpBulk client now u s items) db = committed db snd (bulk_import client now u s items db)"
| "apply_tx_op (OpCsv now u items) db = committed db snd (import_csv_rows now u items db)"
| "apply_tx_op (OpSaga env hdr msg) db = snd (tx_saga_on_message env hdr msg db)"
| "apply_tx_op (OpCategorized up p) db = snd (categorized_handle up p db)"
| "apply_tx_op (OpTaxonomy mid t body) db = snd (taxonomy_handle mid t body db)"
| "apply_tx_op (OpPlan now u d) db = snd (create_planned now u d db)"
| "apply_tx_op (OpReplan i u f) db = committed db id (update_planned i u f db)"
| "apply_tx_op (OpUnplan i u) db = committed db id (deactivate_planned i u db)"

section \<open>Single rows\<close>

definition table_ok :: "tx_db \<Rightarrow> bool" where
  "table_ok db \<longleftrightarrow> distinct (map tx_id (td_rows db)) \<and> ids_below db \<and> distinct (ext_keys (td_rows db)) \<and> list_all columns_fit (td_rows db)"

text \<open>What an event says of a transaction, and the table read the same way.\<close>

type_synonym core_view = "int \<times> int \<times> string \<times> string \<times> date \<times> string"

definition event_view :: "tx_core_event \<Rightarrow> core_view" where
  "event_view e = (te_user_id e, te_account_id e, te_amount e, te_transaction_type e, te_tx_date e, te_description e)"

definition table_view :: "tx_row list \<Rightarrow> int \<rightharpoonup> core_view" where
  "table_view rows i =
     (case List.find (\<lambda>r. tx_id r = i) rows of
        Some r \<Rightarrow> if tx_live r then Some (event_view (core_event r)) else None
      | None \<Rightarrow> None)"

fun replay_event :: "tx_event \<Rightarrow> (int \<rightharpoonup> core_view) \<Rightarrow> (int \<rightharpoonup> core_view)" where
  "replay_event (TransactionCreatedEvent e _ _ _) m = m(te_transaction_id e \<mapsto> event_view e)"
| "replay_event (TransactionUpdatedEvent e _ _ _) m = m(te_transaction_id e \<mapsto> event_view e)"
| "replay_event (TransactionDeletedEvent i _ _ _) m = m(i := None)"
| "replay_event (TransactionCategoryCorrectedEvent _) m = m"

definition replayed :: "tx_db \<Rightarrow> int \<rightharpoonup> core_view" where
  "replayed db = fold replay_event (map ob_payload (td_outbox db)) Map.empty"

definition consistent :: "tx_db \<Rightarrow> bool" where
  "consistent db \<longleftrightarrow> table_ok db \<and> replayed db = table_view (td_rows db)"

text \<open>A write replaces the row with its id.\<close>

definition write_row :: "tx_row \<Rightarrow> tx_row list \<Rightarrow> tx_row list" where
  "write_row r = update_where (\<lambda>q. tx_id q = tx_id r) (\<lambda>_. r)"

lemma write_row_split:
  assumes "distinct (map tx_id rows)" and "r \<in> set rows" and "tx_id r' = tx_id r"
  obtains as bs where "rows = as @ r # bs" and "write_row r' rows = as @ r' # bs"
    and "filter (\<lambda>q. tx_id q \<noteq> tx_id r) rows = as @ bs"
proof -
  obtain as bs where s: "rows = as @ r # bs" using split_list [OF assms(2)] by blast
  have ab: "\<forall>q \<in> set as \<union> set bs. tx_id q \<noteq> tx_id r" using assms(1) s by (auto simp: image_iff)
  then have "write_row r' rows = as @ r' # bs" using assms(3) s by (auto simp: write_row_def update_where_none)
  moreover have "filter (\<lambda>q. tx_id q \<noteq> tx_id r) rows = as @ bs" using ab s by (auto simp: filter_id_conv)
  ultimately show ?thesis using that s by blast
qed

lemma map_filter_Cons: "List.map_filter f (x # xs) = (case f x of None \<Rightarrow> [] | Some y \<Rightarrow> [y]) @ List.map_filter f xs"
  by (simp add: map_filter_simps split: option.splits)

lemma table_ok_write:
  assumes ok: "table_ok db" and r: "r \<in> set (td_rows db)" "tx_id r' = tx_id r" "columns_fit r'"
    and ext: "ext_key r' = ext_key r \<or> \<not> ext_taken (ext_key r') (filter (\<lambda>q. tx_id q \<noteq> tx_id r) (td_rows db))"
    and db': "td_rows db' = write_row r' (td_rows db)" "td_next db' = td_next db"
  shows "table_ok db'"
proof -
  obtain as bs where s: "td_rows db = as @ r # bs" "td_rows db' = as @ r' # bs"
    "filter (\<lambda>q. tx_id q \<noteq> tx_id r) (td_rows db) = as @ bs"
    using write_row_split [of "td_rows db" r r'] ok r db' by (metis table_ok_def)
  have "distinct (ext_keys (as @ r' # bs))"
    using ok ext s(1,3)
    by (cases "ext_key r'"; cases "ext_key r") (auto simp: table_ok_def map_filter_append map_filter_Cons ext_taken_iff)
  then show ?thesis using ok s(1,2) r db'(2) by (auto simp: table_ok_def ids_below_def)
qed

lemma find_write:
  "List.find (\<lambda>q. tx_id q = i) (write_row r rows) =
     (if i = tx_id r \<and> tx_id r \<in> tx_id ` set rows then Some r else List.find (\<lambda>q. tx_id q = i) rows)"
  by (induction rows) (auto simp: write_row_def)

lemma table_view_write:
  "tx_id r \<in> tx_id ` set rows \<Longrightarrow>
     table_view (write_row r rows) = (table_view rows)(tx_id r := (if tx_live r then Some (event_view (core_event r)) else None))"
  by (auto simp: table_view_def find_write fun_eq_iff)

text \<open>A deletion is a write.\<close>

lemma delete_is_write:
  assumes "distinct (map tx_id rows)" and "r \<in> set rows" and "doomed u {i} r"
  shows "update_where (doomed u {i}) (\<lambda>r. r\<lparr>tx_deleted_at := Some now\<rparr>) rows = write_row (r\<lparr>tx_deleted_at := Some now\<rparr>) rows"
proof -
  obtain as bs where s: "rows = as @ r # bs" "write_row (r\<lparr>tx_deleted_at := Some now\<rparr>) rows = as @ r\<lparr>tx_deleted_at := Some now\<rparr> # bs"
    by (rule write_row_split [OF assms(1,2), of "r\<lparr>tx_deleted_at := Some now\<rparr>"]) (simp, rule that)
  have "\<forall>q \<in> set as \<union> set bs. \<not> doomed u {i} q"
    using assms(1,3) s(1) by (auto simp: doomed_def image_iff)
  then show ?thesis using assms(3) s by (simp add: update_where_none)
qed

lemma replayed_add: "replayed (tx_outbox_add now ev i db) = replay_event ev (replayed db)"
  by (simp add: replayed_def tx_outbox_add_def ob_add_def ob_build_def)

lemma ob_add_entries_payloads: "map ob_payload (ob_add_entries now es ob) = map ob_payload ob @ map (\<lambda>(_, p, _). p) es"
  by (induction now es ob rule: ob_add_entries.induct) (auto simp: ob_add_def ob_build_def)

lemma replayed_add_batch: "replayed (tx_outbox_add_batch now rows db) = fold replay_event (map created_event rows) (replayed db)"
  by (simp add: replayed_def tx_outbox_add_batch_def ob_add_entries_payloads comp_def)

lemma replayed_rows [simp]:
  "replayed (db\<lparr>td_rows := rs\<rparr>) = replayed db" "replayed (db\<lparr>td_rows := rs, td_next := n\<rparr>) = replayed db"
  "replayed (db\<lparr>td_rows := rs, td_processed := ps\<rparr>) = replayed db"
  by (simp_all add: replayed_def)

section \<open>Rows that are added\<close>

lemma find_id_append:
  "List.find (\<lambda>q. tx_id q = i) (xs @ ys) =
     (if i \<in> tx_id ` set xs then List.find (\<lambda>q. tx_id q = i) xs else List.find (\<lambda>q. tx_id q = i) ys)"
  by (induction xs) auto

lemma find_id_fresh: "i \<notin> tx_id ` set rows \<Longrightarrow> List.find (\<lambda>q. tx_id q = i) rows = None"
  by (auto simp: find_None_all)

lemma replay_created:
  assumes "distinct (map tx_id new)" and "tx_id ` set new \<inter> tx_id ` set rows = {}" and "list_all tx_live new"
  shows "fold replay_event (map created_event new) (table_view rows) = table_view (rows @ new)"
  using assms
proof (induction new arbitrary: rows)
  case (Cons r new)
  have "replay_event (created_event r) (table_view rows) = table_view (rows @ [r])"
    using Cons.prems by (auto simp: created_event_def core_event_def table_view_def find_id_append find_id_fresh fun_eq_iff event_view_def)
  then show ?case using Cons.IH [of "rows @ [r]"] Cons.prems by auto
qed simp

lemma consistent_created:
  assumes "consistent db" and "bulk_create rs db = Inr (created, db')" and "list_all tx_live rs"
  shows "consistent (tx_outbox_add_batch now created db')"
proof -
  note c = bulk_create_Inr [OF assms(2)]
  have ids: "td_next db \<le> tx_id r \<and> tx_id r < td_next db + int (length rs)" if "r \<in> set created" for r
    using number_rows_ids that c by blast
  have live: "list_all tx_live created"
    using number_rows_ident [of "td_next db" rs] assms(3) c
    by (metis (no_types, lifting) list_all_length map_eq_imp_length_eq nth_map snd_conv tx_ident_def tx_live_def)
  have dis: "distinct (map tx_id created)" using c distinct_number_rows by simp
  have below: "ids_below db" "distinct (map tx_id (td_rows db))" using assms(1) by (simp_all add: consistent_def table_ok_def)
  have new: "tx_id ` set created \<inter> tx_id ` set (td_rows db) = {}"
    using ids below(1) by (fastforce simp: ids_below_def list_all_iff)
  have "replayed db' = table_view (td_rows db)" using c assms(1) by (simp add: consistent_def)
  then have "replayed (tx_outbox_add_batch now created db') = table_view (td_rows db')"
    using replay_created [OF dis new live] c by (simp add: replayed_add_batch)
  moreover have "distinct (ext_keys (td_rows db'))"
    using bulk_create_ext_distinct [OF assms(2)] assms(1) by (simp add: consistent_def table_ok_def)
  moreover have "distinct (map tx_id (td_rows db'))" "list_all columns_fit (td_rows db')"
    using c dis new below(2) assms(1) by (auto simp: consistent_def table_ok_def)
  moreover have "ids_below db'"
    using c ids below(1) by (fastforce simp: ids_below_def list_all_iff)
  ultimately show ?thesis by (simp add: consistent_def table_ok_def ids_below_def)
qed

lemma consistent_frame:
  assumes "consistent db" and "td_rows db' = td_rows db" and "td_next db' = td_next db" and "td_outbox db' = td_outbox db"
  shows "consistent db'"
  using assms by (simp add: consistent_def table_ok_def ids_below_def replayed_def)

lemma consistent_insert:
  assumes "consistent db" and "tx_insert r db = Inr (r', db')" and "tx_live r"
  shows "consistent (tx_outbox_add now (created_event r') (tx_id r') db')"
proof -
  have "bulk_create [r] db = Inr ([r'], db')" using assms(2) by simp
  from consistent_created [OF assms(1) this, of now] assms(3) have "consistent (tx_outbox_add_batch now [r'] db')" by simp
  moreover have "td_outbox (tx_outbox_add_batch now [r'] db') = td_outbox (tx_outbox_add now (created_event r') (tx_id r') db')"
    by (simp add: tx_outbox_add_batch_def tx_outbox_add_def created_event_def)
  ultimately show ?thesis by (auto intro: consistent_frame)
qed

section \<open>Every operation keeps the table consistent\<close>

lemma create_consistent:
  assumes "consistent db" and "create_transaction client now u d db = Inr (r, db')"
  shows "consistent db'"
proof -
  obtain q r' db1 where i: "tx_insert q db = Inr (r', db1)" and live: "tx_live q"
    and db': "db' = tx_outbox_add now (created_event r') (tx_id r') db1"
    using assms(2)
    by (auto simp: create_transaction_def Let_def result_simps tx_live_def draft_row_def accept_category_def
        split: option.splits list.splits if_splits)
  show ?thesis unfolding db' by (rule consistent_insert [OF assms(1) i live])
qed

lemma import_rows_live:
  "list_all tx_live (map (resolve_names db) (bulk_enrich client (map (item_row now u) its)))"
proof -
  have "list_all (\<lambda>t. snd (snd (snd t)) = None) (map tx_ident (map (resolve_names db) (bulk_enrich client (map (item_row now u) its))))"
    unfolding import_rows_ident by (simp add: list_all_iff)
  then show ?thesis by (simp add: list_all_iff tx_ident_def tx_live_def)
qed

lemma bulk_consistent:
  assumes "consistent db" and "bulk_import client now u s items db = Inr (res, db')"
  shows "consistent db'"
proof -
  let ?rs = "map (resolve_names db) (bulk_enrich client (map (item_row now u) (bl_rows (bulk_dedup u s items db))))"
  from assms(2) consider "db' = db" | created db1 where "bulk_create ?rs db = Inr (created, db1)" "db' = tx_outbox_add_batch now created db1"
    by (auto simp: bulk_import_def Let_def result_simps split: if_splits)
  then show ?thesis using assms(1) consistent_created import_rows_live by cases auto
qed

lemma csv_consistent:
  assumes "consistent db" and "import_csv_rows now u items db = Inr (res, db')"
  shows "consistent db'"
proof -
  from assms(2) consider "db' = db" | its created db1 where
    "bulk_create (map (item_row now u) its) db = Inr (created, db1)" "db' = tx_outbox_add_batch now created db1"
    by (auto simp: import_csv_rows_def Let_def result_simps split: if_splits prod.splits)
  then show ?thesis
  proof cases
    case 2
    have "list_all tx_live (map (item_row now u) its)"
      by (simp add: list_all_iff tx_live_def item_row_def draft_row_def)
    then show ?thesis using consistent_created [OF assms(1) 2(1)] 2(2) by simp
  qed (use assms(1) in simp)
qed

lemma apply_fields_keeps:
  "apply_fields f r = Inr r' \<Longrightarrow> tx_id r' = tx_id r \<and> tx_user r' = tx_user r \<and> tx_deleted_at r' = tx_deleted_at r"
  by (auto simp: apply_fields_def result_simps)

lemma tx_get_Some: "tx_get i u db = Some r \<Longrightarrow> r \<in> set (td_rows db) \<and> tx_id r = i \<and> tx_user r = u \<and> tx_live r"
  unfolding tx_get_def by (drule find_Some_mem) simp

lemma tx_update_Inr:
  assumes "tx_update i u f db = Inr (r', db')"
  obtains r where "r \<in> set (td_rows db)" and "tx_id r = i" and "tx_user r = u" and "tx_live r" and "apply_fields f r = Inr r'"
    and "tx_id r' = i" and "tx_live r'" and "columns_fit r'"
    and "\<not> ext_taken (ext_key r') (filter (\<lambda>q. tx_id q \<noteq> i) (td_rows db))"
    and "db' = db\<lparr>td_rows := write_row r' (td_rows db)\<rparr>"
proof -
  obtain r where get: "tx_get i u db = Some r" and ap: "apply_fields f r = Inr r'" and "columns_fit r'"
    "\<not> ext_taken (ext_key r') (filter (\<lambda>q. tx_id q \<noteq> i) (td_rows db))"
    "db' = db\<lparr>td_rows := update_where (\<lambda>q. tx_id q = i) (\<lambda>_. r') (td_rows db)\<rparr>"
    using assms by (auto simp: tx_update_def result_simps)
  then show ?thesis
    using that [of r] tx_get_Some [OF get] apply_fields_keeps [OF ap] by (simp add: write_row_def tx_live_def)
qed

lemma update_consistent:
  assumes ok: "consistent db" and h: "update_transaction now i u f db = Inr (r, db')"
  shows "consistent db'"
proof (cases "no_fields f")
  case True
  then show ?thesis using ok h by (auto simp: update_transaction_def result_simps)
next
  case False
  obtain existing f' db1 where up: "tx_update i u f' db = Inr (r, db1)"
    and db': "db' = (let db2 = tx_outbox_add now (TransactionUpdatedEvent (core_event r) (show_cents (tx_amount existing))
                    (or_empty (tx_category_name existing)) (tx_account_name r)) (tx_id r) db1
        in (case tx_category_id r of
              Some c \<Rightarrow> if is_category_correction f then tx_outbox_add now (corrected_event existing r c) (tx_id r) db2 else db2
            | None \<Rightarrow> db2))"
    using h False by (auto simp: update_transaction_def result_simps Let_def)
  obtain q where q: "q \<in> set (td_rows db)" "tx_id q = i" "tx_id r = i" "tx_live r" "columns_fit r"
    "\<not> ext_taken (ext_key r) (filter (\<lambda>q. tx_id q \<noteq> i) (td_rows db))" "db1 = db\<lparr>td_rows := write_row r (td_rows db)\<rparr>"
    using tx_update_Inr [OF up] by metis
  have rows: "td_rows db' = write_row r (td_rows db)" "td_next db' = td_next db"
    by (simp_all add: db' q(7) Let_def split: option.splits)
  have "table_ok db'"
    by (rule table_ok_write [OF _ q(1) _ q(5) _ rows]) (use ok q in \<open>simp_all add: consistent_def\<close>)
  moreover have "replayed db' = (replayed db)(i \<mapsto> event_view (core_event r))"
    by (auto simp: db' q(7) Let_def replayed_add corrected_event_def core_event_def q(3) split: option.splits)
  moreover have "table_view (td_rows db') = (table_view (td_rows db))(i \<mapsto> event_view (core_event r))"
    unfolding rows using table_view_write [of r "td_rows db"] q by (auto simp: image_iff)
  ultimately show ?thesis using ok by (simp add: consistent_def)
qed

lemma delete_consistent:
  assumes ok: "consistent db" and h: "delete_transaction now i u db = Inr db'"
  shows "consistent db'"
proof -
  obtain r where get: "tx_get i u db = Some r"
    and db': "db' = tx_outbox_add now (TransactionDeletedEvent i (tx_account r) u (show_cents (tx_amount r))) i (snd (tx_delete now i u db))"
    using h by (cases "tx_delete now i u db") (auto simp: delete_transaction_def result_simps)
  note r = tx_get_Some [OF get]
  let ?r = "r\<lparr>tx_deleted_at := Some now\<rparr>"
  have d: "doomed u {i} r" using r by (simp add: doomed_def)
  have "distinct (map tx_id (td_rows db))" using ok by (simp add: consistent_def table_ok_def)
  note w = delete_is_write [OF this _ d, of now]
  have rows: "td_rows db' = write_row ?r (td_rows db)" "td_next db' = td_next db"
    using delete_transaction_rows [where now = now and i = i and u = u and db = db] h w r by simp_all
  have "columns_fit ?r" using ok r by (auto simp: consistent_def table_ok_def list_all_iff columns_fit_def)
  then have "table_ok db'"
    by (intro table_ok_write [OF _ conjunct1 [OF r] _ _ _ rows]) (use ok in \<open>simp_all add: consistent_def ext_key_def tx_live_def ext_taken_def\<close>)
  moreover have "table_view (td_rows db') = (table_view (td_rows db))(i := None)"
    unfolding rows using table_view_write [of ?r "td_rows db"] r by (auto simp: image_iff tx_live_def)
  moreover have "replayed db' = (replayed db)(i := None)"
    by (simp add: db' replayed_add tx_delete_def Let_def)
  ultimately show ?thesis using ok by (simp add: consistent_def)
qed

lemma chunks_consistent:
  "consistent db \<Longrightarrow> consistent (snd (import_chunks up now u cs acc db))"
  by (induction up now u cs acc db rule: import_chunks.induct) (auto simp: bulk_consistent split: sum.splits prod.splits)

lemma rollback_consistent: "consistent db \<Longrightarrow> consistent (snd (rollback_all now u up ts db))"
proof (induction ts arbitrary: up db)
  case (Cons t ts)
  have "consistent (snd (rollback_one now u (up \<noteq> [] \<and> hd up) t db))"
    using Cons.prems by (auto simp: rollback_one_def delete_consistent split: json.splits sum.splits tx_error.splits)
  note IH = Cons.IH [OF this, of "tl up"]
  show ?case using IH
    by (cases "rollback_one now u (up \<noteq> [] \<and> hd up) t db")
      (simp add: case_prod_unfold Let_def)
qed simp

lemma saga_consistent:
  assumes "consistent db"
  shows "consistent (snd (tx_saga_on_message env hdr msg db))"
proof -
  have "consistent (snd (handle_bulk_import up now body db))" for up now body
    using assms chunks_consistent [OF assms]
    by (auto simp: handle_bulk_import_def Let_def split: sum.splits prod.splits json.splits) (metis snd_conv)+
  moreover have "consistent (snd (handle_rollback_import str up now body db))" for str up now body
    using assms rollback_consistent [OF assms]
    by (auto simp: handle_rollback_import_def Let_def split: sum.splits prod.splits json.splits) (metis snd_conv)+
  ultimately show ?thesis
    using assms by (auto simp: tx_saga_on_message_def Let_def split: option.splits json.splits prod.splits sum.splits) (metis snd_conv)+
qed

text \<open>A categorization touches no core field.\<close>

lemma categorized_row_keeps:
  "tx_id (categorized_row p n r) = tx_id r" "tx_deleted_at (categorized_row p n r) = tx_deleted_at r"
  "ext_key (categorized_row p n r) = ext_key r" "event_view (core_event (categorized_row p n r)) = event_view (core_event r)"
  "tx_user (categorized_row p n r) = tx_user r"
  by (simp_all add: categorized_row_def Let_def event_view_def core_event_def)
    (auto simp: categorized_row_def Let_def ext_key_def tx_live_def)

lemma categorized_cases:
  obtains "snd (categorized_handle up p db) = db"
  | r i n where "cp_transaction_id p = Some i" and "r \<in> set (td_rows db)" and "tx_id r = i" and "tx_live r"
      and "columns_fit (categorized_row p n r)" and "td_rows (snd (categorized_handle up p db)) = write_row (categorized_row p n r) (td_rows db)"
      and "td_next (snd (categorized_handle up p db)) = td_next db" and "td_outbox (snd (categorized_handle up p db)) = td_outbox db"
proof (cases "cp_transaction_id p")
  case None
  then show ?thesis using that(1) by (simp add: categorized_handle_def)
next
  case (Some i)
  show ?thesis
  proof (cases "List.find (\<lambda>r. tx_id r = i) (td_rows db)")
    case None
    then show ?thesis using that(1) Some by (simp add: categorized_handle_def)
  next
    case row: (Some r)
    note mem = find_Some_mem [OF row]
    define n where "n = (case non_empty (Some (cp_category_name p)) of
                                    None \<Rightarrow> lookup_parent_name db (cp_category_id p) | n \<Rightarrow> n)"
    show ?thesis
    proof (cases "snd (categorized_handle up p db) = db")
      case False
      then show ?thesis
        using Some row mem that(2) [OF Some, of r n]
        by (simp add: categorized_handle_def Let_def n_def [symmetric] write_row_def categorized_row_keeps tx_live_def split: if_splits)
    qed (rule that(1))
  qed
qed

lemma categorized_consistent:
  assumes ok: "consistent db"
  shows "consistent (snd (categorized_handle up p db))"
proof (cases rule: categorized_cases [of up p db])
  case (2 r i n)
  let ?r = "categorized_row p n r"
  have "table_ok (snd (categorized_handle up p db))"
    by (rule table_ok_write [OF _ 2(2) _ 2(5) _ 2(6,7)]) (use ok in \<open>simp_all add: consistent_def categorized_row_keeps\<close>)
  moreover have "table_view (write_row ?r (td_rows db)) = table_view (td_rows db)"
  proof -
    have "distinct (map tx_id (td_rows db))" using ok by (simp add: consistent_def table_ok_def)
    then have "List.find (\<lambda>q. tx_id q = i) (td_rows db) = Some r" using 2(2,3) by (metis find_distinct_key)
    then have "table_view (td_rows db) i = Some (event_view (core_event r))" using 2(4) by (simp add: table_view_def)
    then show ?thesis
      using table_view_write [of ?r "td_rows db"] 2(2,3,4) by (auto simp: categorized_row_keeps tx_live_def fun_upd_idem)
  qed
  moreover have "replayed (snd (categorized_handle up p db)) = replayed db" using 2(8) by (simp add: replayed_def)
  ultimately show ?thesis using ok 2(6) by (simp add: consistent_def)
qed (use ok in simp)

definition same_table :: "tx_db \<Rightarrow> tx_db \<Rightarrow> bool" where
  "same_table db db' \<longleftrightarrow> td_rows db' = td_rows db \<and> td_next db' = td_next db \<and> td_outbox db' = td_outbox db"

lemma copy_frames:
  "upsert_category_copy body db = Inr db' \<Longrightarrow> same_table db db'"
  "delete_category_copy body db = Inr db' \<Longrightarrow> same_table db db'"
  "upsert_subcategory_copy body db = Inr db' \<Longrightarrow> same_table db db'"
  "delete_subcategory_copy body db = Inr db' \<Longrightarrow> same_table db db'"
  unfolding upsert_category_copy_def delete_category_copy_def upsert_subcategory_copy_def delete_subcategory_copy_def same_table_def Let_def
  by (clarsimp simp only: bindE_eq_Inr guardE_eq_Inr sum.inject, simp)+

lemma taxonomy_frame: "same_table db (snd (taxonomy_handle mid t body db))"
proof -
  have "same_table db db'" if "taxonomy_dispatch t body db = Some (Inr db')" for db'
    using that copy_frames [of body db db'] by (auto simp: taxonomy_dispatch_def split: if_splits)
  note d = this
  show ?thesis
  proof (cases "taxonomy_dispatch t body db")
    case (Some res)
    show ?thesis
    proof (cases res)
      case (Inr db')
      then show ?thesis using d [of db'] Some by (simp add: taxonomy_handle_def same_table_def)
    qed (simp add: taxonomy_handle_def same_table_def Some)
  qed (simp add: taxonomy_handle_def same_table_def)
qed

lemma planned_frame: "planned_write i u f db = Inr db' \<Longrightarrow> same_table db db'"
  by (auto simp: planned_write_def result_simps same_table_def)

lemma same_table_consistent: "consistent db \<Longrightarrow> same_table db db' \<Longrightarrow> consistent db'"
  unfolding same_table_def by (blast intro: consistent_frame)

lemma committed_snd: "Q db \<Longrightarrow> (\<And>r db'. res = Inr (r, db') \<Longrightarrow> Q db') \<Longrightarrow> Q (committed db snd res)"
  by (cases res) (auto simp: committed_def)

lemma committed_id: "Q db \<Longrightarrow> (\<And>db'. res = Inr db' \<Longrightarrow> Q db') \<Longrightarrow> Q (committed db id res)"
  by (cases res) (auto simp: committed_def)

lemmas committed_op = committed_snd [where Q = consistent] committed_id [where Q = consistent]

lemma apply_tx_op_consistent:
  assumes ok: "consistent db"
  shows "consistent (apply_tx_op p db)"
proof (cases p)
  case (OpPlan now u d)
  have "same_table db (snd (create_planned now u d db))" by (simp add: same_table_def create_planned_def Let_def)
  then show ?thesis using same_table_consistent [OF ok] OpPlan by simp
next
  case (OpCreate client now u d)
  show ?thesis unfolding OpCreate apply_tx_op.simps by (rule committed_op(1) [OF ok create_consistent [OF ok]])
next
  case (OpUpdate now i u f)
  show ?thesis unfolding OpUpdate apply_tx_op.simps by (rule committed_op(1) [OF ok update_consistent [OF ok]])
next
  case (OpDelete now i u)
  show ?thesis unfolding OpDelete apply_tx_op.simps by (rule committed_op(2) [OF ok delete_consistent [OF ok]])
next
  case (OpBulk client now u s items)
  show ?thesis unfolding OpBulk apply_tx_op.simps by (rule committed_op(1) [OF ok bulk_consistent [OF ok]])
next
  case (OpCsv now u items)
  show ?thesis unfolding OpCsv apply_tx_op.simps by (rule committed_op(1) [OF ok csv_consistent [OF ok]])
next
  case (OpReplan i u f)
  show ?thesis unfolding OpReplan apply_tx_op.simps update_planned_def
    by (rule committed_op(2) [OF ok same_table_consistent [OF ok planned_frame]])
next
  case (OpUnplan i u)
  show ?thesis unfolding OpUnplan apply_tx_op.simps deactivate_planned_def
    by (rule committed_op(2) [OF ok same_table_consistent [OF ok planned_frame]])
qed (simp_all add: saga_consistent [OF ok] categorized_consistent [OF ok] same_table_consistent [OF ok taxonomy_frame])

lemma run_consistent: "consistent db \<Longrightarrow> consistent (fold apply_tx_op ps db)"
  by (induction ps arbitrary: db) (auto simp: apply_tx_op_consistent)

lemma consistent_empty: "consistent empty_tx_db"
  by (simp add: consistent_def table_ok_def ids_below_def replayed_def table_view_def empty_tx_db_def map_filter_simps fun_eq_iff)



section \<open>The user's choice\<close>

definition category_of :: "tx_row \<Rightarrow> int option \<times> string option \<times> int option \<times> string option \<times> string option" where
  "category_of r = (tx_category_id r, tx_category_name r, tx_subcategory_id r, tx_subcategory_name r, tx_tier r)"

definition holds_choice :: "int \<Rightarrow> int option \<times> string option \<times> int option \<times> string option \<times> string option \<Rightarrow> tx_row list \<Rightarrow> bool" where
  "holds_choice i c rows \<longleftrightarrow> (\<exists>r \<in> set rows. tx_id r = i \<and> category_of r = c)"

fun corrects :: "int \<Rightarrow> tx_op \<Rightarrow> bool" where
  "corrects i (OpUpdate now j u f) \<longleftrightarrow> j = i \<and> is_category_correction f"
| "corrects i _ \<longleftrightarrow> False"

lemma holds_choice_append: "holds_choice i c rows \<Longrightarrow> holds_choice i c (rows @ new)"
  by (auto simp: holds_choice_def)

lemma holds_choice_write:
  assumes "holds_choice i c rows" and "distinct (map tx_id rows)" and "r \<in> set rows" and "tx_id r' = tx_id r"
    and "tx_id r = i \<Longrightarrow> category_of r = c \<Longrightarrow> category_of r' = c"
  shows "holds_choice i c (write_row r' rows)"
proof -
  obtain as bs where s: "rows = as @ r # bs" "write_row r' rows = as @ r' # bs"
    using write_row_split [OF assms(2-4)] by blast
  then show ?thesis using assms(1,4,5) by (auto simp: holds_choice_def)
qed

lemma delete_holds:
  assumes "holds_choice i c (td_rows db)"
  shows "holds_choice i c (update_where P (\<lambda>r. r\<lparr>tx_deleted_at := t\<rparr>) (td_rows db))"
proof -
  obtain r where "r \<in> set (td_rows db)" "tx_id r = i" "category_of r = c" using assms by (auto simp: holds_choice_def)
  then show ?thesis
    unfolding holds_choice_def
    by (intro bexI [of _ "if P r then r\<lparr>tx_deleted_at := t\<rparr> else r"]) (auto simp: set_update_where category_of_def)
qed

lemma delete_op_holds:
  "holds_choice i c (td_rows db) \<Longrightarrow> delete_transaction now j u db = Inr db' \<Longrightarrow> holds_choice i c (td_rows db')"
  using delete_transaction_rows [where now = now and i = j and u = u and db = db] delete_holds by simp

lemma no_correction_keeps:
  assumes "\<not> is_category_correction f" and "uf_tier f = None" and "uf_subcategory_name f = None"
    and "check_subcategory db e (pin_manual db e f) = Inr f'" and "apply_fields f' r = Inr r'"
  shows "category_of r' = category_of r"
  using assms
  by (auto simp: is_category_correction_def pin_manual_def check_subcategory_def apply_fields_def result_simps set_or_def category_of_def)

lemma update_holds:
  assumes ok: "consistent db" and hc: "holds_choice i c (td_rows db)" and nc: "\<not> (j = i \<and> is_category_correction f)"
    and f: "uf_tier f = None" "uf_subcategory_name f = None" and h: "update_transaction now j u f db = Inr (r, db')"
  shows "holds_choice i c (td_rows db')"
proof (cases "no_fields f")
  case True
  then show ?thesis using hc h by (auto simp: update_transaction_def result_simps)
next
  case False
  obtain existing f' db1 where cs: "check_subcategory db existing (pin_manual db existing f) = Inr f'"
    and up: "tx_update j u f' db = Inr (r, db1)" and rows: "td_rows db' = td_rows db1"
    using h False by (auto simp: update_transaction_def result_simps Let_def split: option.splits)
  obtain q where q: "q \<in> set (td_rows db)" "tx_id q = j" "apply_fields f' q = Inr r" "tx_id r = j" "db1 = db\<lparr>td_rows := write_row r (td_rows db)\<rparr>"
    using tx_update_Inr [OF up] by metis
  have "distinct (map tx_id (td_rows db))" using ok by (simp add: consistent_def table_ok_def)
  moreover have "category_of r = c" if "tx_id q = i" "category_of q = c"
    using no_correction_keeps [OF _ f cs q(3)] nc that q(2) by simp
  ultimately show ?thesis unfolding rows using holds_choice_write [OF hc _ q(1)] q(2,4,5) by simp
qed

lemma chunks_holds:
  "holds_choice i c (td_rows db) \<Longrightarrow> holds_choice i c (td_rows (snd (import_chunks up now u cs acc db)))"
proof (induction up now u cs acc db rule: import_chunks.induct)
  case (3 a up now u ch cs acc db)
  show ?case
  proof (cases "bulk_import None now u True ch db")
    case (Inr p)
    obtain res db1 where p: "p = (res, db1)" by (cases p)
    obtain new where "td_rows db1 = td_rows db @ new" using Inr [unfolded p] by (rule bulk_import_Inr)
    then have "holds_choice i c (td_rows db1)" using "3.prems" by (simp add: holds_choice_append)
    then show ?thesis using "3.IH" [OF _ Inr p [symmetric]] "3.prems" by (simp add: Inr p)
  qed (use "3.prems" in simp)
qed simp_all

lemma rollback_holds: "holds_choice i c (td_rows db) \<Longrightarrow> holds_choice i c (td_rows (snd (rollback_all now u up ts db)))"
proof (induction ts arbitrary: up db)
  case (Cons t ts)
  have "holds_choice i c (td_rows (snd (rollback_one now u (up \<noteq> [] \<and> hd up) t db)))"
    using Cons.prems by (auto simp: rollback_one_def delete_op_holds split: json.splits sum.splits tx_error.splits)
  note IH = Cons.IH [OF this, of "tl up"]
  show ?case using IH by (cases "rollback_one now u (up \<noteq> [] \<and> hd up) t db") (simp add: case_prod_unfold Let_def)
qed simp

lemma saga_holds:
  assumes "holds_choice i c (td_rows db)"
  shows "holds_choice i c (td_rows (snd (tx_saga_on_message env hdr msg db)))"
proof -
  have "holds_choice i c (td_rows (snd (handle_bulk_import up now body db)))" for up now body
    using assms chunks_holds [OF assms]
    by (auto simp: handle_bulk_import_def Let_def split: sum.splits prod.splits json.splits) (metis snd_conv)+
  moreover have "holds_choice i c (td_rows (snd (handle_rollback_import str up now body db)))" for str up now body
    using assms rollback_holds [OF assms]
    by (auto simp: handle_rollback_import_def Let_def split: sum.splits prod.splits json.splits) (metis snd_conv)+
  ultimately show ?thesis
    using assms by (auto simp: tx_saga_on_message_def Let_def split: option.splits json.splits prod.splits sum.splits) (metis snd_conv)+
qed

lemma categorized_holds:
  assumes ok: "consistent db" and hc: "holds_choice i c (td_rows db)" and man: "snd (snd (snd (snd c))) = Some ''manual''"
  shows "holds_choice i c (td_rows (snd (categorized_handle up p db)))"
proof (cases rule: categorized_cases [of up p db])
  case (2 r j n)
  have "distinct (map tx_id (td_rows db))" using ok by (simp add: consistent_def table_ok_def)
  moreover have "category_of (categorized_row p n r) = c" if "category_of r = c"
    using that man by (auto simp: category_of_def categorized_row_def Let_def)
  ultimately show ?thesis unfolding 2(6) by (intro holds_choice_write [OF hc _ 2(2)]) (simp_all add: categorized_row_keeps)
qed (use hc in simp)

lemmas committed_choice = committed_snd [where Q = "\<lambda>db. holds_choice i c (td_rows db)"] committed_id [where Q = "\<lambda>db. holds_choice i c (td_rows db)"]
  for i c

lemma same_table_holds: "holds_choice i c (td_rows db) \<Longrightarrow> same_table db db' \<Longrightarrow> holds_choice i c (td_rows db')"
  by (simp add: same_table_def)

lemma create_holds:
  "holds_choice i c (td_rows db) \<Longrightarrow> create_transaction client now u d db = Inr (r, db') \<Longrightarrow> holds_choice i c (td_rows db')"
  by (auto simp: create_transaction_def tx_insert_def Let_def result_simps holds_choice_append)

lemma csv_holds:
  "holds_choice i c (td_rows db) \<Longrightarrow> import_csv_rows now u items db = Inr (res, db') \<Longrightarrow> holds_choice i c (td_rows db')"
  by (auto simp: import_csv_rows_def Let_def result_simps holds_choice_append split: if_splits prod.splits dest!: bulk_create_Inr)

lemma bulk_holds:
  assumes "holds_choice i c (td_rows db)" and "bulk_import client now u s items db = Inr (res, db')"
  shows "holds_choice i c (td_rows db')"
proof -
  obtain new where "td_rows db' = td_rows db @ new" using assms(2) by (rule bulk_import_Inr)
  then show ?thesis using assms(1) by (simp add: holds_choice_append)
qed

lemma apply_tx_op_holds:
  assumes ok: "consistent db" and hc: "holds_choice i c (td_rows db)" and man: "snd (snd (snd (snd c))) = Some ''manual''"
    and nc: "\<not> corrects i p"
  shows "holds_choice i c (td_rows (apply_tx_op p db))"
proof (cases p)
  case (OpPlan now u d)
  have "same_table db (snd (create_planned now u d db))" by (simp add: same_table_def create_planned_def Let_def)
  then show ?thesis using same_table_holds [OF hc] OpPlan by simp
next
  case (OpCreate client now u d)
  show ?thesis unfolding OpCreate apply_tx_op.simps by (rule committed_choice(1) [OF hc create_holds [OF hc]])
next
  case (OpUpdate now j u f)
  show ?thesis unfolding OpUpdate apply_tx_op.simps
    by (rule committed_choice(1) [OF hc update_holds [OF ok hc]]) (use nc in \<open>simp_all add: OpUpdate is_category_correction_def\<close>)
next
  case (OpDelete now j u)
  show ?thesis unfolding OpDelete apply_tx_op.simps by (rule committed_choice(2) [OF hc delete_op_holds [OF hc]])
next
  case (OpBulk client now u s items)
  show ?thesis unfolding OpBulk apply_tx_op.simps by (rule committed_choice(1) [OF hc bulk_holds [OF hc]])
next
  case (OpCsv now u items)
  show ?thesis unfolding OpCsv apply_tx_op.simps by (rule committed_choice(1) [OF hc csv_holds [OF hc]])
next
  case (OpReplan j u f)
  show ?thesis unfolding OpReplan apply_tx_op.simps update_planned_def
    by (rule committed_choice(2) [OF hc same_table_holds [OF hc planned_frame]])
next
  case (OpUnplan j u)
  show ?thesis unfolding OpUnplan apply_tx_op.simps deactivate_planned_def
    by (rule committed_choice(2) [OF hc same_table_holds [OF hc planned_frame]])
qed (simp_all add: saga_holds [OF hc] categorized_holds [OF ok hc man] same_table_holds [OF hc taxonomy_frame])


definition demo_manual :: create_dto where
  "demo_manual = \<lparr>cd_account_id = 2, cd_account_name = ''A'', cd_category_id = Some 5, cd_category_name = Some ''Mad'', cd_amount = 1250,
     cd_type = Expense, cd_description = Some ''kaffe'', cd_date = Date 2024 5 6, cd_subcategory_id = None,
     cd_tier = Some ''manual'', cd_confidence = None\<rparr>"

definition demo_categorized :: categorized_payload where
  "demo_categorized = \<lparr>cp_message_id = ''m1'', cp_transaction_id = Some 1, cp_category_id = Some 6, cp_category_name = ''Bolig'',
     cp_subcategory_id = Some 61, cp_subcategory_name = ''Husleje'', cp_tier = ''rule'', cp_confidence = ''high''\<rparr>"

lemma demo_manual_rows:
  "td_rows (fold apply_tx_op [OpCreate None 1 3 demo_manual] empty_tx_db) = [(draft_row 1 3 demo_manual)\<lparr>tx_id := 1\<rparr>]"
  by (simp add: create_transaction_def Let_def tx_insert_def committed_def demo_manual_def draft_row_def empty_tx_db_def guardE_def
      columns_fit_def opt_len_def ext_taken_def ext_key_def resolve_category_name_def resolve_subcategory_name_def)


section \<open>An item the import refuses\<close>

lemma mapE_tx_Inr: "mapE_tx f xs = Inr ys \<Longrightarrow> x \<in> set xs \<Longrightarrow> \<exists>y. f x = Inr y"
  by (induction xs arbitrary: ys) (auto simp: result_simps)

lemma zero_amount_refused:
  assumes "dget item ''amount'' = Some (JStr s)" and "parse_decimal s = Some 0"
  shows "item_of_json a nm (JObj item) \<noteq> Inr it"
proof
  assume "item_of_json a nm (JObj item) = Inr it"
  then obtain ty dt ds ex cu where "make_bulk_item a nm 0 ty dt ds ex cu = Inr it"
    using assms by (auto simp: item_of_json_def tx_req_def tx_decimal_def result_simps Let_def)
  then show False by (auto simp: make_bulk_item_def result_simps AMOUNT_MIN_def)
qed

text \<open>
  C33. One transaction with the amount zero makes every import of its batch fail: the command is tried again until
  the retries are used up and then answered with a failure, nothing of the batch is imported, and the saga fails.
\<close>

theorem zero_amount_fails_import:
  assumes "dget body ''event_type'' = Some (JStr ''saga.cmd.bulk_import_transactions'')" and "dget body ''items'' = Some (JList items)"
    and "JObj item \<in> set items" and "dget item ''amount'' = Some (JStr s)" and "parse_decimal s = Some 0"
    and "header_retry_count hdr = Some n" and "ce_again_ok env"
  shows "if n < SAGA_MAX_RETRIES then tx_saga_on_message env hdr (Some (JObj body)) db = (CommandRepublished (n + 1), db)
    else \<exists>reply. tx_saga_on_message env hdr (Some (JObj body)) db = (CommandReplied reply, db) \<and> \<not> rp_success reply"
proof -
  have "\<exists>e. command_items body = Inl e"
  proof (cases "command_items body")
    case (Inr p)
    then obtain a nm its where "mapE_tx (item_of_json a nm) items = Inr its"
      using assms(2) by (auto simp: command_items_def dget_or_def result_simps)
    from mapE_tx_Inr [OF this assms(3)] obtain it where "item_of_json a nm (JObj item) = Inr it" ..
    then show ?thesis using zero_amount_refused [OF assms(4,5)] by simp
  qed auto
  then obtain e where "handle_bulk_import (ce_up env) (ce_now env) body db = (Inl e, db)"
    by (auto simp: handle_bulk_import_def)
  then show ?thesis using assms(1,6,7) by (auto simp: tx_saga_on_message_def dget_or_def command_failed_def publish_reply_def)
qed

theorem zero_amount_fails_import_witness:
  "\<exists>reply. tx_saga_on_message
      \<lparr>ce_now = 5, ce_up = [True], ce_reply_ok = True, ce_again_ok = True, ce_str = (\<lambda>_. []), ce_error = (\<lambda>_. ''invalid'')\<rparr> (Some (AInt 3))
      (Some (JObj [(''event_type'', JStr ''saga.cmd.bulk_import_transactions''), (''user_id'', JInt 3), (''account_id'', JInt 2),
        (''account_name'', JStr ''A''), (''items'', JList [demo_item, JObj [(''amount'', JStr ''0.00'')]])])) empty_tx_db =
      (CommandReplied reply, empty_tx_db) \<and> \<not> rp_success reply"
proof -
  have "show_cents 0 = ''0.00''" by code_simp
  then have z: "parse_decimal ''0.00'' = Some 0" using parse_decimal_show_cents [of 0] by simp
  show ?thesis
    using zero_amount_fails_import [of
        "[(''event_type'', JStr ''saga.cmd.bulk_import_transactions''), (''user_id'', JInt 3), (''account_id'', JInt 2),
          (''account_name'', JStr ''A''), (''items'', JList [demo_item, JObj [(''amount'', JStr ''0.00'')]])]"
        "[demo_item, JObj [(''amount'', JStr ''0.00'')]]" "[(''amount'', JStr ''0.00'')]" "''0.00''" "Some (AInt 3)" 3
        "\<lparr>ce_now = 5, ce_up = [True], ce_reply_ok = True, ce_again_ok = True, ce_str = (\<lambda>_. []), ce_error = (\<lambda>_. ''invalid'')\<rparr>" empty_tx_db] z
    by (simp add: header_retry_count_def SAGA_MAX_RETRIES_def)
qed

end
