(* ===== verification/BankClient.thy ===== *)
theory BankClient
  imports TransactionWorkers
begin

text \<open>
  banking-service's client of the bank interface (\<open>app/adapters/outbound/enable_banking_client.py\<close>): the reading of
  one transaction, of a page and of all pages, with the decimals and dates of Python's library it uses.

  The bank interface itself is a parameter: a function from the account, the first date and the continuation key to
  the decoded page, \<open>None\<close> where the request fails.  JSON numbers with a fraction do not occur in the modelled
  values; the interface writes amounts as strings.
\<close>

section \<open>Decimals with their digits\<close>

text \<open>
  \<open>decimal.Decimal\<close> keeps the sign, the digits and the exponent it was written with, and \<open>str\<close> shows them.  The
  arithmetic rounds to the 28 digits of the default context; its bounds on exponents are not modelled.
\<close>

datatype py_dec =
    DFin bool nat int
  | DInf bool
  | DNaN bool \<comment> \<open>the flag: it signals\<close>

fun dec_val :: "py_dec \<Rightarrow> rat option" where
  "dec_val (DFin neg c e) = Some ((if neg then - 1 else 1) * of_nat c * scale10 e)"
| "dec_val _ = None"

definition special_dec :: "bool \<Rightarrow> string \<Rightarrow> py_dec option" where
  "special_dec neg body =
     (let b = lower body in
      if b = ''inf'' \<or> b = ''infinity'' then Some (DInf neg)
      else if take 3 b = ''nan'' \<and> list_all is_digit (drop 3 b) then Some (DNaN False)
      else if take 4 b = ''snan'' \<and> list_all is_digit (drop 4 b) then Some (DNaN True)
      else None)"

definition parse_dec :: "string \<Rightarrow> py_dec option" where
  "parse_dec s =
     (let (neg, body) = split_sign (filter (\<lambda>c. c \<noteq> CHR ''_'') (strip s));
          ip = takeWhile is_digit body;
          rest = dropWhile is_digit body;
          (fp, rest') = (case rest of
             c # r \<Rightarrow> if c = CHR ''.'' then (takeWhile is_digit r, dropWhile is_digit r) else ([], rest)
           | [] \<Rightarrow> ([], []))
      in if ip = [] \<and> fp = [] then special_dec neg body
         else map_option (\<lambda>e. DFin neg (digits_val (ip @ fp)) (e - int (length fp))) (parse_exponent rest'))"

definition dec_prec :: nat where "dec_prec = 28"

text \<open>Rounding to the precision of the context, half to even.\<close>

definition dec_fix :: "nat \<Rightarrow> int \<Rightarrow> nat \<times> int" where
  "dec_fix c e =
     (let n = length (show_nat c) in
      if n \<le> dec_prec then (c, e)
      else
        (let k = n - dec_prec; q = nat (round_half_even (of_nat c / 10 ^ k)) in
         if q = 10 ^ dec_prec then (10 ^ (dec_prec - 1), e + int k + 1) else (q, e + int k)))"

text \<open>\<open>abs(d)\<close> and \<open>-d\<close>; a signalling NaN raises.\<close>

fun dec_abs :: "py_dec \<Rightarrow> py_dec option" where
  "dec_abs (DFin neg c e) = (let (c', e') = dec_fix c e in Some (DFin False c' e'))"
| "dec_abs (DInf neg) = Some (DInf False)"
| "dec_abs (DNaN s) = (if s then None else Some (DNaN False))"

fun dec_neg :: "py_dec \<Rightarrow> py_dec option" where
  "dec_neg (DFin neg c e) = (let (c', e') = dec_fix c e in Some (DFin (\<not> neg \<and> c' \<noteq> 0) c' e'))"
| "dec_neg (DInf neg) = Some (DInf (\<not> neg))"
| "dec_neg (DNaN s) = (if s then None else Some (DNaN False))"

text \<open>\<open>d >= 0\<close>: comparing a NaN raises.\<close>

fun dec_nonneg :: "py_dec \<Rightarrow> bool option" where
  "dec_nonneg (DFin neg c e) = Some (\<not> neg \<or> c = 0)"
| "dec_nonneg (DInf neg) = Some (\<not> neg)"
| "dec_nonneg (DNaN s) = None"

text \<open>\<open>str(d)\<close>: plain notation for a non-positive exponent that is not too small, scientific notation otherwise.\<close>

definition show_exp :: "int \<Rightarrow> string" where
  "show_exp x = ''E'' @ (if x < 0 then ''-'' else ''+'') @ show_nat (nat \<bar>x\<bar>)"

definition dec_digits :: "string \<Rightarrow> int \<Rightarrow> string" where
  "dec_digits ds dot =
     (if dot \<le> 0 then ''0.'' @ replicate (nat (- dot)) CHR ''0'' @ ds
      else if int (length ds) \<le> dot then ds @ replicate (nat dot - length ds) CHR ''0''
      else take (nat dot) ds @ ''.'' @ drop (nat dot) ds)"

fun dec_str :: "py_dec \<Rightarrow> string" where
  "dec_str (DFin neg c e) =
     (let ds = show_nat c; left = e + int (length ds);
          dot = (if e \<le> 0 \<and> left > - 6 then left else 1)
      in (if neg then ''-'' else []) @ dec_digits ds dot @ (if left = dot then [] else show_exp (left - dot)))"
| "dec_str (DInf neg) = (if neg then ''-Infinity'' else ''Infinity'')"
| "dec_str (DNaN s) = (if s then ''sNaN'' else ''NaN'')"

section \<open>Dates\<close>

text \<open>
  \<open>date.fromisoformat\<close> of Python 3.11: besides \<open>YYYY-MM-DD\<close> it takes \<open>YYYYMMDD\<close> and the week dates, with and
  without separators and with the day of the week left out.
\<close>

definition weekday :: "date \<Rightarrow> int" where
  "weekday d = (toordinal d + 6) mod 7"

definition date_near :: "int \<Rightarrow> int \<Rightarrow> date option" where
  "date_near y n =
     (case List.find (\<lambda>(y', m). days_before_year y' + days_before_month y' m < n \<and>
                        n \<le> days_before_year y' + days_before_month y' m + days_in_month y' m)
            (List.product [y - 1, y, y + 1] [1, 2, 3, 4, 5, 6, 7, 8, 9, 10, 11, 12]) of
        None \<Rightarrow> None
      | Some (y', m) \<Rightarrow>
          (case make_date y' m (n - days_before_year y' - days_before_month y' m) of Inr d \<Rightarrow> Some d | Inl _ \<Rightarrow> None))"

definition iso_week_date :: "int \<Rightarrow> int \<Rightarrow> int \<Rightarrow> date option" where
  "iso_week_date y w d =
     (case make_date y 1 1 of
        Inl _ \<Rightarrow> None
      | Inr jan1 \<Rightarrow>
          (let first = weekday jan1; long = (first = 3 \<or> first = 2 \<and> isleap y);
               monday = toordinal jan1 - first + (if first > 3 then 7 else 0)
           in if 1 \<le> w \<and> (w \<le> 52 \<or> w = 53 \<and> long) \<and> 1 \<le> d \<and> d \<le> 7
              then date_near y (monday + 7 * (w - 1) + (d - 1)) else None))"

definition week_form :: "string \<Rightarrow> string \<Rightarrow> string \<Rightarrow> date option" where
  "week_form y w d =
     (case (parse_nat y, parse_nat w, parse_nat d) of
        (Some y', Some w', Some d') \<Rightarrow> iso_week_date (int y') (int w') (int d')
      | _ \<Rightarrow> None)"

definition date_fromisoformat :: "string \<Rightarrow> date option" where
  "date_fromisoformat s =
     (if length s = 10 \<and> s ! 4 = CHR ''-'' \<and> s ! 5 = CHR ''W'' \<and> s ! 8 = CHR ''-''
      then week_form (take 4 s) (take 2 (drop 6 s)) (drop 9 s)
      else if length s = 10 then of_isoformat s
      else if length s = 8 \<and> s ! 4 = CHR ''-'' \<and> s ! 5 = CHR ''W'' then week_form (take 4 s) (drop 6 s) ''1''
      else if length s = 8 \<and> s ! 4 = CHR ''W'' then week_form (take 4 s) (take 2 (drop 5 s)) (drop 7 s)
      else if length s = 7 \<and> s ! 4 = CHR ''W'' then week_form (take 4 s) (drop 5 s) ''1''
      else if length s = 8 then of_isoformat (take 4 s @ ''-'' @ take 2 (drop 4 s) @ ''-'' @ drop 6 s)
      else None)"

section \<open>One transaction\<close>

text \<open>\<open>Unparseable\<close> is a \<open>ValueError\<close>, which skips one transaction; any other exception ends the whole fetch.\<close>

datatype bank_read_error = Unparseable | ReadCrash

record bank_transaction =
  bt_transaction_id :: json
  bt_amount :: py_dec
  bt_currency :: json
  bt_description :: string
  bt_date :: date
  bt_creditor_name :: json
  bt_debtor_name :: json
  bt_status :: json
  bt_raw :: dict

definition json_or :: "json \<Rightarrow> json \<Rightarrow> json" where
  "json_or a b = (if truthy a then a else b)"

text \<open>\<open>v.get(k, default)\<close> and \<open>v.strip()\<close> on a value that may have another type.\<close>

definition get_of :: "json \<Rightarrow> string \<Rightarrow> json \<Rightarrow> bank_read_error + json" where
  "get_of v k dflt = (case v of JObj d \<Rightarrow> Inr (dget_or d k dflt) | _ \<Rightarrow> Inl ReadCrash)"

definition strip_of :: "json \<Rightarrow> bank_read_error + string" where
  "strip_of v = (case v of JStr s \<Rightarrow> Inr (strip s) | _ \<Rightarrow> Inl ReadCrash)"

text \<open>\<open>str.isdigit\<close> counts the superscripts of Latin-1 as well.\<close>

definition isdigit_char :: "char \<Rightarrow> bool" where
  "isdigit_char c \<longleftrightarrow> is_digit c \<or> (of_char c :: nat) \<in> {178, 179, 185}"

definition is_reference_number :: "string \<Rightarrow> bool" where
  "is_reference_number s =
     (let t = strip s in
      if t = [] then True
      else (let digit_count = length (filter isdigit_char t) in
            length t > 8 \<and> fl (of_nat digit_count / of_nat (length t)) > fl (3 / 5)))"

definition amount_of :: "json \<Rightarrow> bank_read_error + py_dec" where
  "amount_of v =
     (case v of
        JStr s \<Rightarrow> of_option Unparseable (parse_dec s)
      | JInt n \<Rightarrow> Inr (DFin (n < 0) (nat \<bar>n\<bar>) 0)
      | _ \<Rightarrow> Inl Unparseable)"

definition party_name :: "dict \<Rightarrow> string \<Rightarrow> string \<Rightarrow> bank_read_error + json" where
  "party_name raw flat nested =
     (let v = dget_or raw flat (JStr []) in
      if truthy v then Inr v
      else get_of (json_or (dget_or raw nested JNull) (JObj [])) ''name'' (JStr []))"

text \<open>\<open>(v or [""])[0]\<close> and \<open>" ".join(v or [])\<close>: a string is the sequence of its characters, a dictionary that of its keys.\<close>

definition first_of :: "json \<Rightarrow> bank_read_error + json" where
  "first_of v =
     (if \<not> truthy v then Inr (JStr [])
      else (case v of JList (x # _) \<Rightarrow> Inr x | JStr (c # _) \<Rightarrow> Inr (JStr [c]) | _ \<Rightarrow> Inl ReadCrash))"

fun join_words :: "string list \<Rightarrow> string" where
  "join_words [] = []"
| "join_words [w] = w"
| "join_words (w # ws) = w @ '' '' @ join_words ws"

fun texts_of :: "json list \<Rightarrow> bank_read_error + string list" where
  "texts_of [] = Inr []"
| "texts_of (v # vs) =
     (case v of JStr s \<Rightarrow> bindE (texts_of vs) (\<lambda>ss. Inr (s # ss)) | _ \<Rightarrow> Inl ReadCrash)"

definition join_of :: "json \<Rightarrow> bank_read_error + json" where
  "join_of v =
     (if \<not> truthy v then Inr (JStr [])
      else (case v of
              JList xs \<Rightarrow> bindE (texts_of xs) (\<lambda>ss. Inr (JStr (join_words ss)))
            | JStr s \<Rightarrow> Inr (JStr (join_words (map (\<lambda>c. [c]) s)))
            | JObj d \<Rightarrow> Inr (JStr (join_words (map fst d)))
            | _ \<Rightarrow> Inl ReadCrash))"

text \<open>\<open>next((c.strip() for c in candidates if c and c.strip()), "")\<close>.\<close>

fun first_text :: "json list \<Rightarrow> bank_read_error + string" where
  "first_text [] = Inr []"
| "first_text (v # vs) =
     (if \<not> truthy v then first_text vs
      else bindE (strip_of v) (\<lambda>s. if s = [] then first_text vs else Inr s))"

definition choose_description :: "string \<Rightarrow> string \<Rightarrow> string" where
  "choose_description human_name remittance =
     (if human_name \<noteq> [] \<and> (remittance = [] \<or> is_reference_number remittance) then human_name
      else if remittance \<noteq> [] then remittance
      else if human_name \<noteq> [] then human_name
      else ''Ukendt'')"

definition booking_date_of :: "dict \<Rightarrow> bank_read_error + date" where
  "booking_date_of raw =
     (let v = json_or (dget_or raw ''booking_date'' JNull) (dget_or raw ''value_date'' JNull) in
      if \<not> truthy v then Inl Unparseable
      else (case v of JStr s \<Rightarrow> of_option Unparseable (date_fromisoformat s) | _ \<Rightarrow> Inl ReadCrash))"

definition signed_amount :: "dict \<Rightarrow> py_dec \<Rightarrow> bank_read_error + py_dec" where
  "signed_amount raw amount =
     (if dget_or raw ''credit_debit_indicator'' JNull = JStr ''DBIT''
      then bindE (of_option ReadCrash (dec_abs amount)) (\<lambda>a. of_option ReadCrash (dec_neg a))
      else Inr amount)"

definition parse_transaction :: "json \<Rightarrow> bank_read_error + bank_transaction" where
  "parse_transaction v =
     (case v of
        JObj raw \<Rightarrow>
          (let amount_data = dget_or raw ''transaction_amount'' (JObj []) in
           bindE (get_of amount_data ''amount'' (JStr ''0'')) (\<lambda>amount_str.
           bindE (get_of amount_data ''currency'' JNull) (\<lambda>cur.
           bindE (amount_of amount_str) (\<lambda>amount.
           bindE (signed_amount raw amount) (\<lambda>signed.
           bindE (party_name raw ''creditor_name'' ''creditor'') (\<lambda>creditor.
           bindE (party_name raw ''debtor_name'' ''debtor'') (\<lambda>debtor.
           bindE (bindE (strip_of creditor) (\<lambda>c. if c \<noteq> [] then Inr c else strip_of debtor)) (\<lambda>human_name.
           bindE (first_of (dget_or raw ''remittance_information_unstructured_array'' JNull)) (\<lambda>second.
           bindE (join_of (dget_or raw ''remittance_information'' JNull)) (\<lambda>third.
           bindE (first_text [dget_or raw ''remittance_information_unstructured'' (JStr []), second, third]) (\<lambda>remittance.
           bindE (booking_date_of raw) (\<lambda>dt.
           Inr \<lparr>bt_transaction_id = json_or (json_or (dget_or raw ''entry_reference'' JNull) (dget_or raw ''transaction_id'' JNull)) (JStr []),
                bt_amount = signed, bt_currency = json_or cur (JStr ''DKK''),
                bt_description = choose_description human_name remittance, bt_date = dt,
                bt_creditor_name = creditor, bt_debtor_name = debtor, bt_status = dget_or raw ''status'' (JStr []),
                bt_raw = raw\<rparr>))))))))))))
      | _ \<Rightarrow> Inl ReadCrash)"

section \<open>Pages\<close>

fun parse_batch :: "json list \<Rightarrow> bank_read_error + (bank_transaction list \<times> nat)" where
  "parse_batch [] = Inr ([], 0)"
| "parse_batch (raw # raws) =
     (case parse_transaction raw of
        Inl ReadCrash \<Rightarrow> Inl ReadCrash
      | Inl Unparseable \<Rightarrow> bindE (parse_batch raws) (\<lambda>(ts, n). Inr (ts, n + 1))
      | Inr t \<Rightarrow> bindE (parse_batch raws) (\<lambda>(ts, n). Inr (t # ts, n)))"

type_synonym bank_api = "json \<Rightarrow> json option"

datatype fetch_error = BankApiUnavailable | FetchCrash

text \<open>One page: its transactions, how many were skipped, and the next continuation key.\<close>

definition read_page :: "json \<Rightarrow> fetch_error + (bank_transaction list \<times> nat \<times> json)" where
  "read_page data =
     (case data of
        JObj d \<Rightarrow>
          (case dget_or d ''transactions'' (JList []) of
             JList raws \<Rightarrow>
               (case parse_batch raws of
                  Inl _ \<Rightarrow> Inl FetchCrash
                | Inr (ts, n) \<Rightarrow> Inr (ts, n, dget_or d ''continuation_key'' JNull))
           | JStr [] \<Rightarrow> Inr ([], 0, dget_or d ''continuation_key'' JNull)
           | JObj [] \<Rightarrow> Inr ([], 0, dget_or d ''continuation_key'' JNull)
           | _ \<Rightarrow> Inl FetchCrash)
      | _ \<Rightarrow> Inl FetchCrash)"

function get_pages ::
  "bank_api \<Rightarrow> nat \<Rightarrow> nat \<Rightarrow> json \<Rightarrow> bank_transaction list \<Rightarrow> nat \<Rightarrow> fetch_error + (bank_transaction list \<times> nat)" where
  "get_pages api max_tx_pages pages_fetched continuation_key all_transactions total_skipped =
     (case api continuation_key of
        None \<Rightarrow> Inl BankApiUnavailable
      | Some data \<Rightarrow>
          (case read_page data of
             Inl e \<Rightarrow> Inl e
           | Inr (batch, skipped, key) \<Rightarrow>
               if \<not> truthy key \<or> pages_fetched + 1 \<ge> max_tx_pages
               then Inr (all_transactions @ batch, total_skipped + skipped)
               else get_pages api max_tx_pages (pages_fetched + 1) key (all_transactions @ batch) (total_skipped + skipped)))"
  by pat_completeness auto
termination by (relation "measure (\<lambda>(api, m, p, k, ts, n). m - p)") auto

declare get_pages.simps [simp del]

text \<open>The arguments of a fetch: without a first date the window is the ninety days before today.\<close>

definition get_transactions ::
  "(json \<Rightarrow> json \<Rightarrow> bank_api) \<Rightarrow> nat \<Rightarrow> date \<Rightarrow> json \<Rightarrow> json \<Rightarrow> fetch_error + (bank_transaction list \<times> nat)" where
  "get_transactions api max_tx_pages ninety_days_ago account_uid date_from =
     get_pages (api account_uid (if date_from = JNull then JStr (isoformat ninety_days_ago) else date_from)) max_tx_pages 0 JNull [] 0"

section \<open>The items of the saga reply\<close>

text \<open>\<open>None\<close>: the preparation of this transaction raised and counts as an error.\<close>

definition item_for_saga :: "bank_transaction \<Rightarrow> json option" where
  "item_for_saga t =
     (case dec_nonneg (bt_amount t) of
        None \<Rightarrow> None
      | Some nonneg \<Rightarrow>
          (case dec_abs (bt_amount t) of
             None \<Rightarrow> None
           | Some a \<Rightarrow>
               (case json_or (bt_transaction_id t) (JStr []) of
                  JStr i \<Rightarrow>
                    Some (JObj [(''amount'', JStr (dec_str a)),
                                (''transaction_type'', JStr (if nonneg then ''income'' else ''expense'')),
                                (''date'', JStr (isoformat (bt_date t))),
                                (''description'', JStr (bt_description t)),
                                (''external_id'', if strip i = [] then JNull else JStr (strip i)),
                                (''currency'', json_or (bt_currency t) (JStr ''DKK''))])
                | _ \<Rightarrow> None)))"

definition fetch_result :: "bank_transaction list \<Rightarrow> nat \<Rightarrow> dict" where
  "fetch_result transactions parse_skipped =
     [(''items'', JList (List.map_filter item_for_saga transactions)),
      (''total_fetched'', JInt (int (length transactions))),
      (''parse_skipped'', JInt (int parse_skipped)),
      (''errors'', JInt (int (length (filter (\<lambda>t. item_for_saga t = None) transactions))))]"

end
