(* ===== verification/Banking.thy ===== *)
theory Banking
  imports BankClient
begin

text \<open>
  banking-service: the connections to banks with their repository
  (\<open>app/adapters/outbound/postgres_bank_connection_repository.py\<close>), the pending authorizations, the copy of the
  accounts, the use cases (\<open>app/application/service.py\<close>) and the scheduler of synchronisations
  (\<open>app/workers/sync_scheduler.py\<close>).

  A use case that commits more than once is split at its transactions: starting a synchronisation is a small state
  machine whose steps other callers can interleave with.  The answers of the account service, of the saga status
  interface and of the bank are parameters.  Connection ids are the canonical text of a UUID, and a random id is
  an argument of the operation that draws it.
\<close>

section \<open>Entities\<close>

datatype sync_trigger = Manual | Scheduled

fun trigger_value :: "sync_trigger \<Rightarrow> string" where
  "trigger_value Manual = ''manual''"
| "trigger_value Scheduled = ''scheduled''"

record bank_connection =
  bc_id :: string
  bc_account :: int
  bc_user :: int
  bc_session_id :: string
  bc_bank_name :: string
  bc_bank_country :: string
  bc_uid :: string
  bc_iban :: "string option"
  bc_status :: string
  bc_expires_at :: "instant option"
  bc_last_synced_at :: "instant option"
  bc_sync_saga_id :: "string option"
  bc_sync_started_at :: "instant option"
  bc_sync_trigger :: "string option"
  bc_created_at :: instant

definition is_sync_due :: "instant \<Rightarrow> int \<Rightarrow> bank_connection \<Rightarrow> bool" where
  "is_sync_due now every_hours c =
     (case bc_last_synced_at c of None \<Rightarrow> True | Some t \<Rightarrow> now - t \<ge> 3600 * every_hours)"

definition sync_claim_is_stale :: "instant \<Rightarrow> seconds \<Rightarrow> bank_connection \<Rightarrow> bool" where
  "sync_claim_is_stale now ttl c = (case bc_sync_started_at c of None \<Rightarrow> True | Some t \<Rightarrow> now - t > ttl)"

definition conn_is_active :: "bank_connection \<Rightarrow> bool" where
  "conn_is_active c \<longleftrightarrow> bc_status c = ''active''"

definition is_expired_at :: "instant \<Rightarrow> bank_connection \<Rightarrow> bool" where
  "is_expired_at now c = (case bc_expires_at c of None \<Rightarrow> False | Some t \<Rightarrow> now > t)"

record pending_auth =
  pa_state :: string
  pa_account :: int
  pa_user :: int
  pa_expires_at :: instant
  pa_consumed_at :: "instant option"

section \<open>Events\<close>

record connection_event =
  be_connection_id :: string
  be_account_id :: int
  be_user_id :: int
  be_bank_name :: string
  be_iban :: "string option"

record sync_start_event =
  ss_correlation_id :: string
  ss_connection_id :: string
  ss_user_id :: int
  ss_account_id :: int
  ss_account_name :: string
  ss_bank_account_uid :: string
  ss_date_from :: "string option"

record sync_completed_event =
  se_connection_id :: string
  se_account_id :: int
  se_user_id :: int
  se_total_fetched :: int
  se_new_imported :: int
  se_duplicates_skipped :: int
  se_errors :: int
  se_parse_skipped :: int
  se_trigger :: sync_trigger
  se_correlation_id :: string

datatype bank_event =
    BankConnectionCreatedEvent connection_event string
  | BankConnectionDisconnectedEvent connection_event
  | BankSyncSagaStartEvent sync_start_event
  | BankSyncCompletedEvent sync_completed_event

fun bank_event_type :: "bank_event \<Rightarrow> string" where
  "bank_event_type (BankConnectionCreatedEvent _ _) = ''bank.connection.created''"
| "bank_event_type (BankConnectionDisconnectedEvent _) = ''bank.connection.disconnected''"
| "bank_event_type (BankSyncSagaStartEvent _) = ''saga.bank_sync.start''"
| "bank_event_type (BankSyncCompletedEvent _) = ''bank.sync.completed''"

section \<open>The database\<close>

record bank_db =
  bd_connections :: "bank_connection list"
  bd_pending :: "pending_auth list"
  bd_accounts :: "(int \<times> (int \<times> string)) list"
  bd_outbox :: "bank_event outbox"
  bd_processed :: "(string \<times> string) list"

datatype bank_error =
    BankConnectionNotFound string
  | BankConnectionInactive string string
  | BankConsentExpired string "instant option"
  | BankAccountNotOwned int
  | ProjectionIntegrityError int
  | PendingAuthorizationNotFound string
  | BankAuthorizationError
  | BankFetchError fetch_error
  | MultipleResultsFound
  | BankIntegrityError
  | BankDataError
  | BankPyError py_error

definition bank_outbox_add :: "instant \<Rightarrow> bank_event \<Rightarrow> string option \<Rightarrow> string \<Rightarrow> bank_db \<Rightarrow> bank_db" where
  "bank_outbox_add now ev correlation_id connection_id db =
     db\<lparr>bd_outbox := ob_add now (bank_event_type ev) ev correlation_id ''bank_connection'' connection_id (bd_outbox db)\<rparr>"

section \<open>The connection repository\<close>

definition conn_get :: "string \<Rightarrow> bank_db \<Rightarrow> bank_connection option" where
  "conn_get connection_id db = List.find (\<lambda>c. bc_id c = connection_id) (bd_connections db)"

text \<open>An \<open>UPDATE\<close> with its row count.\<close>

definition conn_update :: "(bank_connection \<Rightarrow> bool) \<Rightarrow> (bank_connection \<Rightarrow> bank_connection) \<Rightarrow> bank_db \<Rightarrow> nat \<times> bank_db" where
  "conn_update hit change db =
     (length (filter hit (bd_connections db)), db\<lparr>bd_connections := update_where hit change (bd_connections db)\<rparr>)"

definition conn_columns_fit :: "bank_connection \<Rightarrow> bool" where
  "conn_columns_fit c \<longleftrightarrow>
     length (bc_session_id c) \<le> 200 \<and> length (bc_bank_name c) \<le> 100 \<and> length (bc_bank_country c) \<le> 5 \<and>
     length (bc_uid c) \<le> 200 \<and> opt_len 50 (bc_iban c)"

definition conn_save :: "bank_connection \<Rightarrow> bank_db \<Rightarrow> bank_error + bank_db" where
  "conn_save c db =
     bindE (guardE (conn_columns_fit c) BankDataError) (\<lambda>_.
     bindE (guardE (bc_status c \<in> {''active'', ''inactive'', ''disconnected''} \<and> conn_get (bc_id c) db = None) BankIntegrityError) (\<lambda>_.
     Inr (db\<lparr>bd_connections := bd_connections db @ [c]\<rparr>)))"

definition get_active_by_uid :: "string \<Rightarrow> int \<Rightarrow> bank_db \<Rightarrow> bank_error + bank_connection option" where
  "get_active_by_uid uid account_id db =
     (case filter (\<lambda>c. bc_uid c = uid \<and> bc_account c = account_id \<and> bc_status c \<noteq> ''disconnected'') (bd_connections db) of
        [] \<Rightarrow> Inr None
      | [c] \<Rightarrow> Inr (Some c)
      | _ \<Rightarrow> Inl MultipleResultsFound)"

definition list_by_account :: "int \<Rightarrow> bank_db \<Rightarrow> bank_connection list" where
  "list_by_account account_id db = filter (\<lambda>c. bc_account c = account_id) (bd_connections db)"

definition update_status :: "string \<Rightarrow> string \<Rightarrow> bank_db \<Rightarrow> bank_db" where
  "update_status connection_id status db =
     snd (conn_update (\<lambda>c. bc_id c = connection_id) (\<lambda>c. c\<lparr>bc_status := status\<rparr>) db)"

definition update_last_synced :: "string \<Rightarrow> instant \<Rightarrow> bank_db \<Rightarrow> bank_db" where
  "update_last_synced connection_id synced_at db =
     snd (conn_update (\<lambda>c. bc_id c = connection_id) (\<lambda>c. c\<lparr>bc_last_synced_at := Some synced_at\<rparr>) db)"

definition update_consent :: "string \<Rightarrow> string \<Rightarrow> instant option \<Rightarrow> bank_db \<Rightarrow> bank_db" where
  "update_consent connection_id session_id expires_at db =
     snd (conn_update (\<lambda>c. bc_id c = connection_id) (\<lambda>c. c\<lparr>bc_session_id := session_id, bc_expires_at := expires_at\<rparr>) db)"

definition list_active_synced_before :: "instant \<Rightarrow> bank_db \<Rightarrow> bank_connection list" where
  "list_active_synced_before cutoff db =
     filter (\<lambda>c. bc_status c = ''active'' \<and> (case bc_last_synced_at c of None \<Rightarrow> True | Some t \<Rightarrow> t < cutoff)) (bd_connections db)"

definition claim_free :: "instant \<Rightarrow> seconds \<Rightarrow> bank_connection \<Rightarrow> bool" where
  "claim_free now ttl c = (case bc_sync_started_at c of None \<Rightarrow> True | Some t \<Rightarrow> t < now - ttl)"

definition set_claim :: "string \<Rightarrow> instant \<Rightarrow> sync_trigger \<Rightarrow> bank_connection \<Rightarrow> bank_connection" where
  "set_claim saga_id now trigger c =
     c\<lparr>bc_sync_saga_id := Some saga_id, bc_sync_started_at := Some now, bc_sync_trigger := Some (trigger_value trigger)\<rparr>"

definition try_claim_sync ::
  "string \<Rightarrow> string \<Rightarrow> instant \<Rightarrow> seconds \<Rightarrow> sync_trigger \<Rightarrow> bank_db \<Rightarrow> bool \<times> bank_db" where
  "try_claim_sync connection_id saga_id now ttl trigger db =
     (let (n, db') = conn_update (\<lambda>c. bc_id c = connection_id \<and> claim_free now ttl c) (set_claim saga_id now trigger) db
      in (n = 1, db'))"

definition steal_sync_claim ::
  "string \<Rightarrow> string \<Rightarrow> string \<Rightarrow> instant \<Rightarrow> sync_trigger \<Rightarrow> bank_db \<Rightarrow> bool \<times> bank_db" where
  "steal_sync_claim connection_id old_saga_id new_saga_id now trigger db =
     (let (n, db') = conn_update (\<lambda>c. bc_id c = connection_id \<and> bc_sync_saga_id c = Some old_saga_id)
                       (set_claim new_saga_id now trigger) db
      in (n = 1, db'))"

definition escalate_trigger_to_manual :: "string \<Rightarrow> string \<Rightarrow> bank_db \<Rightarrow> bool \<times> bank_db" where
  "escalate_trigger_to_manual connection_id saga_id db =
     (let (n, db') = conn_update (\<lambda>c. bc_id c = connection_id \<and> bc_sync_saga_id c = Some saga_id)
                       (\<lambda>c. c\<lparr>bc_sync_trigger := Some (trigger_value Manual)\<rparr>) db
      in (n = 1, db'))"

section \<open>Pending authorizations\<close>

definition pending_save :: "string \<Rightarrow> int \<Rightarrow> int \<Rightarrow> instant \<Rightarrow> bank_db \<Rightarrow> bank_error + bank_db" where
  "pending_save state account_id user_id expires_at db =
     bindE (guardE (length state \<le> 100) BankDataError) (\<lambda>_.
     bindE (guardE (state \<notin> pa_state ` set (bd_pending db)) BankIntegrityError) (\<lambda>_.
     Inr (db\<lparr>bd_pending := bd_pending db @
       [\<lparr>pa_state = state, pa_account = account_id, pa_user = user_id, pa_expires_at = expires_at, pa_consumed_at = None\<rparr>]\<rparr>)))"

definition pending_open :: "instant \<Rightarrow> string \<Rightarrow> pending_auth \<Rightarrow> bool" where
  "pending_open now state p \<longleftrightarrow> pa_state p = state \<and> pa_consumed_at p = None \<and> pa_expires_at p > now"

definition pending_consume :: "instant \<Rightarrow> string \<Rightarrow> bank_db \<Rightarrow> (int \<times> int) option \<times> bank_db" where
  "pending_consume now state db =
     (map_option (\<lambda>p. (pa_account p, pa_user p)) (List.find (pending_open now state) (bd_pending db)),
      db\<lparr>bd_pending := update_where (pending_open now state) (\<lambda>p. p\<lparr>pa_consumed_at := Some now\<rparr>) (bd_pending db)\<rparr>)"

definition cleanup_expired :: "instant \<Rightarrow> bank_db \<Rightarrow> bank_db" where
  "cleanup_expired now db =
     db\<lparr>bd_pending := filter (\<lambda>p. \<not> (pa_expires_at p < now \<or>
       (case pa_consumed_at p of None \<Rightarrow> False | Some t \<Rightarrow> t < now - 24 * 3600))) (bd_pending db)\<rparr>"

section \<open>The copy of the accounts\<close>

definition get_projection :: "int \<Rightarrow> bank_db \<Rightarrow> (int \<times> string) option" where
  "get_projection account_id db = map_of (bd_accounts db) account_id"

definition account_upsert :: "int \<Rightarrow> int \<Rightarrow> string \<Rightarrow> bank_db \<Rightarrow> bank_error + bank_db" where
  "account_upsert account_id user_id account_name db =
     bindE (guardE (length account_name \<le> 200) BankDataError) (\<lambda>_.
     Inr (db\<lparr>bd_accounts := AList.update account_id (user_id, account_name) (bd_accounts db)\<rparr>))"

text \<open>
  The surroundings of a call: the clock, the account service (\<open>None\<close>: unreachable, otherwise the status code and the
  payload), the rendering of a JSON value by \<open>str\<close>, and the status interface of saga-service (\<open>None\<close>: unknown).
\<close>

record bank_env =
  bv_now :: instant
  bv_account_http :: "int \<Rightarrow> (int \<times> dict) option"
  bv_str :: "json \<Rightarrow> string"
  bv_saga_status :: "string \<Rightarrow> string option"

definition get_account_info :: "bank_env \<Rightarrow> int \<Rightarrow> bank_error + (int \<times> string)" where
  "get_account_info env account_id =
     (case bv_account_http env account_id of
        None \<Rightarrow> Inl (BankAccountNotOwned account_id)
      | Some (status_code, payload) \<Rightarrow>
          if status_code \<noteq> 200 then Inl (BankAccountNotOwned account_id)
          else
            bindE (of_option (BankPyError (KeyError ''user_id'')) (dget payload ''user_id'')) (\<lambda>u.
            bindE (case u of
                     JStr s \<Rightarrow> of_option (BankPyError ValueError) (int_of_text s)
                   | _ \<Rightarrow> of_option (BankPyError TypeError) (py_int u)) (\<lambda>user_id.
            (let v = dget_or payload ''account_name'' JNull in
             Inr (user_id, case json_or v (JStr ''Account'') of JStr s \<Rightarrow> s | w \<Rightarrow> bv_str env w)))))"

section \<open>Access and names\<close>

definition verify_account_access :: "bank_env \<Rightarrow> int \<Rightarrow> int \<Rightarrow> bank_db \<Rightarrow> bank_error + unit" where
  "verify_account_access env account_id user_id db =
     (case get_projection account_id db of
        Some (owner_id, _) \<Rightarrow> guardE (owner_id = user_id) (BankAccountNotOwned account_id)
      | None \<Rightarrow> bindE (get_account_info env account_id) (\<lambda>(owner_id, _).
                guardE (owner_id = user_id) (BankAccountNotOwned account_id)))"

definition resolve_account_name :: "bank_env \<Rightarrow> int \<Rightarrow> bank_db \<Rightarrow> bank_error + (string \<times> bank_db)" where
  "resolve_account_name env account_id db =
     (case get_projection account_id db of
        Some (_, account_name) \<Rightarrow> Inr (account_name, db)
      | None \<Rightarrow>
          bindE (get_account_info env account_id) (\<lambda>(user_id, account_name).
          bindE (account_upsert account_id user_id account_name db) (\<lambda>db'. Inr (account_name, db'))))"

section \<open>Connecting\<close>

definition PENDING_AUTH_TTL_MINUTES :: int where "PENDING_AUTH_TTL_MINUTES = 15"
definition SYNC_CLAIM_TTL_SECONDS :: seconds where "SYNC_CLAIM_TTL_SECONDS = 600"

definition start_connect ::
  "bank_env \<Rightarrow> bank_error + string \<Rightarrow> int \<Rightarrow> int \<Rightarrow> bank_db \<Rightarrow> bank_error + bank_db" where
  "start_connect env authorization account_id user_id db =
     bindE (verify_account_access env account_id user_id db) (\<lambda>_.
     bindE authorization (\<lambda>state.
     pending_save state account_id user_id (bv_now env + 60 * PENDING_AUTH_TTL_MINUTES) db))"

text \<open>The session the bank answered with: its accounts are pairs of uid and IBAN, the expiry is the parsed \<open>valid_until\<close>.\<close>

record eb_session =
  eb_session_id :: string
  eb_valid_until :: "instant option"
  eb_bank_name :: string
  eb_bank_country :: string
  eb_accounts :: "(string \<times> string) list"

record connected =
  cn_id :: string
  cn_uid :: string
  cn_iban :: string
  cn_status :: string

text \<open>One account of the session; the id is drawn for it.\<close>

definition connect_account ::
  "instant \<Rightarrow> int \<Rightarrow> int \<Rightarrow> eb_session \<Rightarrow> string \<Rightarrow> string \<times> string \<Rightarrow> bank_db \<Rightarrow> bank_error + (connected \<times> bank_db)" where
  "connect_account now account_id user_id session drawn_id bank_account db =
     (let (uid, iban) = bank_account in
      bindE (get_active_by_uid uid account_id db) (\<lambda>existing.
      bindE (case existing of
               Some c \<Rightarrow>
                 bindE (guardE (length (eb_session_id session) \<le> 200) BankDataError) (\<lambda>_.
                 Inr (bc_id c, ''reconnected'', bc_bank_name c,
                      update_consent (bc_id c) (eb_session_id session) (eb_valid_until session) (update_status (bc_id c) ''active'' db)))
             | None \<Rightarrow>
                 (let c = \<lparr>bc_id = drawn_id, bc_account = account_id, bc_user = user_id, bc_session_id = eb_session_id session,
                           bc_bank_name = eb_bank_name session, bc_bank_country = eb_bank_country session, bc_uid = uid,
                           bc_iban = Some iban, bc_status = ''active'', bc_expires_at = eb_valid_until session,
                           bc_last_synced_at = None, bc_sync_saga_id = None, bc_sync_started_at = None,
                           bc_sync_trigger = None, bc_created_at = now\<rparr>
                  in bindE (conn_save c db) (\<lambda>db'. Inr (drawn_id, ''new'', eb_bank_name session, db')))) (\<lambda>(connection_id, status, bank_name, db1).
      Inr (\<lparr>cn_id = connection_id, cn_uid = uid, cn_iban = iban, cn_status = status\<rparr>,
           bank_outbox_add now (BankConnectionCreatedEvent
             \<lparr>be_connection_id = connection_id, be_account_id = account_id, be_user_id = user_id, be_bank_name = bank_name,
              be_iban = (if iban = [] then None else Some iban)\<rparr> status) None connection_id db1))))"

fun connect_accounts ::
  "instant \<Rightarrow> int \<Rightarrow> int \<Rightarrow> eb_session \<Rightarrow> (string \<times> string \<times> string) list \<Rightarrow> bank_db \<Rightarrow> bank_error + (connected list \<times> bank_db)" where
  "connect_accounts now account_id user_id session [] db = Inr ([], db)"
| "connect_accounts now account_id user_id session ((drawn_id, bank_account) # rest) db =
     bindE (connect_account now account_id user_id session drawn_id bank_account db) (\<lambda>(c, db').
     bindE (connect_accounts now account_id user_id session rest db') (\<lambda>(cs, db''). Inr (c # cs, db'')))"

text \<open>The authorization is used up in a transaction of its own, before the bank is asked for the session.\<close>

definition complete_connect ::
  "instant \<Rightarrow> string list \<Rightarrow> bank_error + eb_session \<Rightarrow> string \<Rightarrow> bank_db \<Rightarrow> (bank_error + connected list) \<times> bank_db" where
  "complete_connect now drawn_ids session_result state db =
     (case pending_consume now state (cleanup_expired now db) of
        (None, _) \<Rightarrow> (Inl (PendingAuthorizationNotFound state), db)
      | (Some (account_id, user_id), db1) \<Rightarrow>
          (case bindE session_result (\<lambda>session.
                  connect_accounts now account_id user_id session (zip drawn_ids (eb_accounts session)) db1) of
             Inl e \<Rightarrow> (Inl e, db1)
           | Inr (created, db2) \<Rightarrow> (Inr created, db2)))"

definition list_connections :: "bank_env \<Rightarrow> int \<Rightarrow> int \<Rightarrow> bank_db \<Rightarrow> bank_error + bank_connection list" where
  "list_connections env account_id user_id db =
     bindE (verify_account_access env account_id user_id db) (\<lambda>_. Inr (list_by_account account_id db))"

text \<open>A failing deletion of the remote session is logged and ignored, so its outcome is no argument.\<close>

definition disconnect :: "instant \<Rightarrow> string \<Rightarrow> int \<Rightarrow> bank_db \<Rightarrow> bank_error + (bool \<times> bank_db)" where
  "disconnect now connection_id user_id db =
     (case conn_get connection_id db of
        None \<Rightarrow> Inr (False, db)
      | Some c \<Rightarrow>
          if bc_user c \<noteq> user_id then Inl (BankAccountNotOwned (bc_account c))
          else Inr (True,
            bank_outbox_add now (BankConnectionDisconnectedEvent
              \<lparr>be_connection_id = connection_id, be_account_id = bc_account c, be_user_id = bc_user c,
               be_bank_name = bc_bank_name c, be_iban = bc_iban c\<rparr>) None connection_id
              (update_status connection_id ''disconnected'' db)))"

section \<open>Starting a synchronisation\<close>

record sync_call =
  sc_connection_id :: string
  sc_user_id :: int
  sc_date_from :: "string option"
  sc_trigger :: sync_trigger
  sc_saga_id :: string

definition add_sync_start_event :: "instant \<Rightarrow> sync_call \<Rightarrow> bank_connection \<Rightarrow> string \<Rightarrow> bank_db \<Rightarrow> bank_db" where
  "add_sync_start_event now call c account_name db =
     bank_outbox_add now (BankSyncSagaStartEvent
       \<lparr>ss_correlation_id = sc_saga_id call, ss_connection_id = sc_connection_id call, ss_user_id = sc_user_id call,
        ss_account_id = bc_account c, ss_account_name = account_name, ss_bank_account_uid = bc_uid c,
        ss_date_from = sc_date_from call\<rparr>) (Some (sc_saga_id call)) (sc_connection_id call) db"

definition open_sync :: "bank_env \<Rightarrow> sync_call \<Rightarrow> bank_db \<Rightarrow> bank_error + (bank_connection \<times> string \<times> bank_db)" where
  "open_sync env call db =
     bindE (of_option (BankConnectionNotFound (sc_connection_id call)) (conn_get (sc_connection_id call) db)) (\<lambda>c.
     bindE (guardE (conn_is_active c) (BankConnectionInactive (sc_connection_id call) (bc_status c))) (\<lambda>_.
     bindE (guardE (bc_user c = sc_user_id call) (BankAccountNotOwned (bc_account c))) (\<lambda>_.
     bindE (guardE (\<not> is_expired_at (bv_now env) c) (BankConsentExpired (sc_connection_id call) (bc_expires_at c))) (\<lambda>_.
     (case resolve_account_name env (bc_account c) db of
        Inl (BankAccountNotOwned _) \<Rightarrow> Inl (ProjectionIntegrityError (bc_account c))
      | Inl e \<Rightarrow> Inl e
      | Inr (account_name, db') \<Rightarrow> Inr (c, account_name, db'))))))"

text \<open>Where a call stands: before the transaction it names.  The time is the one the call took before its first claim.\<close>

datatype sync_pc =
    AtOpen
  | AtClaim bank_connection string instant
  | AtConflict bank_connection string instant
  | AtRetry bank_connection string instant
  | AtSteal bank_connection string instant string
  | AtWinner string
  | AtDefer string
  | Returned string bool
  | Raised bank_error

definition TERMINAL_SAGA_STATUSES :: "string list" where
  "TERMINAL_SAGA_STATUSES = [''completed'', ''failed'', ''timed_out'']"

definition current_claim :: "string \<Rightarrow> bank_db \<Rightarrow> string option" where
  "current_claim connection_id db = (case conn_get connection_id db of None \<Rightarrow> None | Some c \<Rightarrow> bc_sync_saga_id c)"

text \<open>A claim and the event that starts the saga commit together; a lost claim rolls back.\<close>

definition claim_or ::
  "sync_pc \<Rightarrow> instant \<Rightarrow> sync_call \<Rightarrow> bank_connection \<Rightarrow> string \<Rightarrow> bool \<times> bank_db \<Rightarrow> bank_db \<Rightarrow> sync_pc \<times> bank_db" where
  "claim_or lost now call c account_name attempt db =
     (if fst attempt then (Returned (sc_saga_id call) False, add_sync_start_event now call c account_name (snd attempt))
      else (lost, db))"

definition defer_to_running_saga :: "sync_call \<Rightarrow> string \<Rightarrow> bank_db \<Rightarrow> sync_pc \<times> bank_db" where
  "defer_to_running_saga call winner db =
     (Returned winner True,
      if sc_trigger call = Manual then snd (escalate_trigger_to_manual (sc_connection_id call) winner db) else db)"

fun sync_step :: "bank_env \<Rightarrow> sync_call \<Rightarrow> sync_pc \<Rightarrow> bank_db \<Rightarrow> sync_pc \<times> bank_db" where
  "sync_step env call AtOpen db =
     (case open_sync env call db of
        Inl e \<Rightarrow> (Raised e, db)
      | Inr (c, account_name, db') \<Rightarrow> (AtClaim c account_name (bv_now env), db'))"
| "sync_step env call (AtClaim c account_name now) db =
     claim_or (AtConflict c account_name now) now call c account_name
       (try_claim_sync (sc_connection_id call) (sc_saga_id call) now SYNC_CLAIM_TTL_SECONDS (sc_trigger call) db) db"
| "sync_step env call (AtConflict c account_name now) db =
     (case current_claim (sc_connection_id call) db of
        None \<Rightarrow> (AtRetry c account_name now, db)
      | Some existing \<Rightarrow>
          (case bv_saga_status env existing of
             Some status \<Rightarrow> (if status \<in> set TERMINAL_SAGA_STATUSES then AtSteal c account_name now existing else AtDefer existing, db)
           | None \<Rightarrow> (AtDefer existing, db)))"
| "sync_step env call (AtRetry c account_name now) db =
     claim_or (AtWinner (sc_saga_id call)) now call c account_name
       (try_claim_sync (sc_connection_id call) (sc_saga_id call) now SYNC_CLAIM_TTL_SECONDS (sc_trigger call) db) db"
| "sync_step env call (AtSteal c account_name now old) db =
     claim_or (AtWinner old) now call c account_name
       (steal_sync_claim (sc_connection_id call) old (sc_saga_id call) now (sc_trigger call) db) db"
| "sync_step env call (AtWinner dflt) db =
     (AtDefer (case current_claim (sc_connection_id call) db of
                 Some w \<Rightarrow> if w = [] then dflt else w | None \<Rightarrow> dflt), db)"
| "sync_step env call (AtDefer winner) db = defer_to_running_saga call winner db"
| "sync_step env call (Returned saga_id already) db = (Returned saga_id already, db)"
| "sync_step env call (Raised e) db = (Raised e, db)"

text \<open>A call that nobody interleaves with.\<close>

fun pc_rank :: "sync_pc \<Rightarrow> nat" where
  "pc_rank AtOpen = 6"
| "pc_rank (AtClaim _ _ _) = 5"
| "pc_rank (AtConflict _ _ _) = 4"
| "pc_rank (AtRetry _ _ _) = 3"
| "pc_rank (AtSteal _ _ _ _) = 3"
| "pc_rank (AtWinner _) = 2"
| "pc_rank (AtDefer _) = 1"
| "pc_rank (Returned _ _) = 0"
| "pc_rank (Raised _) = 0"

lemma sync_step_rank: "0 < pc_rank pc \<Longrightarrow> pc_rank (fst (sync_step env call pc db)) < pc_rank pc"
  by (cases pc) (auto simp: claim_or_def defer_to_running_saga_def split: sum.splits option.splits)

function sync_from :: "bank_env \<Rightarrow> sync_call \<Rightarrow> sync_pc \<Rightarrow> bank_db \<Rightarrow> sync_pc \<times> bank_db" where
  "sync_from env call pc db =
     (if pc_rank pc = 0 then (pc, db) else sync_from env call (fst (sync_step env call pc db)) (snd (sync_step env call pc db)))"
  by pat_completeness auto
termination by (relation "measure (\<lambda>(env, call, pc, db). pc_rank pc)") (auto simp: sync_step_rank case_prod_beta)

declare sync_from.simps [simp del]

definition start_sync_saga :: "bank_env \<Rightarrow> sync_call \<Rightarrow> bank_db \<Rightarrow> (bank_error + (string \<times> bool)) \<times> bank_db" where
  "start_sync_saga env call db =
     (case sync_from env call AtOpen db of
        (Returned saga_id already, db') \<Rightarrow> (Inr (saga_id, already), db')
      | (Raised e, db') \<Rightarrow> (Inl e, db')
      | (_, db') \<Rightarrow> (Inl (BankPyError AssertionError), db')) \<comment> \<open>never: a run ends returned or raised\<close>"

section \<open>The scheduler\<close>

record sync_counts =
  sy_due :: nat
  sy_started :: nat
  sy_already_running :: nat
  sy_consent_expired :: nat
  sy_failed :: nat

text \<open>One due connection, in a session of its own; the scheduler has no token for the status interface.\<close>

definition sweep_one :: "bank_env \<Rightarrow> string \<Rightarrow> bank_connection \<Rightarrow> sync_counts \<times> bank_db \<Rightarrow> sync_counts \<times> bank_db" where
  "sweep_one env drawn_id c st =
     (let (counts, db) = st in
      if is_expired_at (bv_now env) c then (counts\<lparr>sy_consent_expired := sy_consent_expired counts + 1\<rparr>, db)
      else
        (case start_sync_saga (env\<lparr>bv_saga_status := (\<lambda>_. None)\<rparr>)
                \<lparr>sc_connection_id = bc_id c, sc_user_id = bc_user c, sc_date_from = None, sc_trigger = Scheduled,
                 sc_saga_id = drawn_id\<rparr> db of
           (Inr (_, already_running), db') \<Rightarrow>
             (if already_running then counts\<lparr>sy_already_running := sy_already_running counts + 1\<rparr>
              else counts\<lparr>sy_started := sy_started counts + 1\<rparr>, db')
         | (Inl (BankConsentExpired _ _), db') \<Rightarrow> (counts\<lparr>sy_consent_expired := sy_consent_expired counts + 1\<rparr>, db')
         | (Inl _, db') \<Rightarrow> (counts\<lparr>sy_failed := sy_failed counts + 1\<rparr>, db')))"

definition sync_run_once :: "bank_env \<Rightarrow> int \<Rightarrow> string list \<Rightarrow> bank_db \<Rightarrow> sync_counts \<times> bank_db" where
  "sync_run_once env every_hours drawn_ids db =
     (let candidates = list_active_synced_before (bv_now env - 3600 * every_hours) db;
          due = filter (is_sync_due (bv_now env) every_hours) candidates
      in fold (\<lambda>(drawn_id, c). sweep_one env drawn_id c) (zip drawn_ids due)
           (\<lparr>sy_due = length due, sy_started = 0, sy_already_running = 0, sy_consent_expired = 0, sy_failed = 0\<rparr>, db))"

end
