(* ===== verification/BankWorkers.thy ===== *)
theory BankWorkers
  imports Banking
begin

text \<open>
  The workers of banking-service: the consumer of the saga commands (\<open>app/workers/saga_command_consumer.py\<close>) and the
  consumer that keeps the copy of the accounts (\<open>app/consumers/account_projection_consumer.py\<close>).

  The command that marks a synchronisation complete reads and commits in one database transaction; two deliveries
  of it can overlap, so it is also given as a read and a write.
\<close>

section \<open>Identities\<close>

text \<open>\<open>UUID(text)\<close>: braces and dashes are dropped, 32 hexadecimal digits remain.  A reader gets the text with the id.\<close>

definition is_hex :: "char \<Rightarrow> bool" where
  "is_hex c \<longleftrightarrow> is_digit c \<or> 97 \<le> (of_char c :: nat) \<and> (of_char c :: nat) \<le> 102"

definition uuid_of :: "string \<Rightarrow> string option" where
  "uuid_of text =
     (let brace = (\<lambda>c. c = CHR ''{'' \<or> c = CHR ''}'');
          h = lower (filter (\<lambda>c. c \<noteq> CHR ''-'') (rev (dropWhile brace (rev (dropWhile brace text)))))
      in if length h = 32 \<and> list_all is_hex h
         then Some (take 8 h @ ''-'' @ take 4 (drop 8 h) @ ''-'' @ take 4 (drop 12 h) @ ''-'' @ take 4 (drop 16 h) @ ''-'' @ drop 20 h)
         else None)"

definition connection_id_of :: "json \<Rightarrow> bank_error + (string \<times> string)" where
  "connection_id_of v =
     (case v of
        JStr s \<Rightarrow> bindE (of_option (BankPyError ValueError) (uuid_of s)) (\<lambda>i. Inr (s, i))
      | _ \<Rightarrow> Inl (BankPyError TypeError))"

definition parse_sync_trigger :: "string option \<Rightarrow> sync_trigger" where
  "parse_sync_trigger raw = (if raw = Some ''scheduled'' then Scheduled else Manual)"

definition step_key :: "string \<Rightarrow> string \<Rightarrow> string" where
  "step_key saga_id step_name = saga_id @ '':'' @ step_name"

definition inbox_key_or_none :: "dict \<Rightarrow> string option" where
  "inbox_key_or_none body =
     (case (dget_or body ''saga_id'' JNull, dget_or body ''step_name'' JNull) of
        (JStr saga_id, JStr step_name) \<Rightarrow> if saga_id = [] \<or> step_name = [] then None else Some (step_key saga_id step_name)
      | _ \<Rightarrow> None)"

section \<open>Fetching\<close>

record bank_reply_data =
  rd_success :: bool
  rd_error_message :: "string option"
  rd_result_data :: "dict option"

text \<open>The dash of the message is a long one in the source.\<close>

definition consent_message :: "(instant \<Rightarrow> string) \<Rightarrow> instant \<Rightarrow> string" where
  "consent_message show_time t = ''Bank consent expired at '' @ show_time t @ '' - reconsent required''"

definition reject_if_consent_expired ::
  "(instant \<Rightarrow> string) \<Rightarrow> instant \<Rightarrow> json \<Rightarrow> bank_db \<Rightarrow> bank_error + bank_reply_data option" where
  "reject_if_consent_expired show_time now connection_id db =
     bindE (connection_id_of connection_id) (\<lambda>(_, i).
     Inr (case conn_get i db of
            None \<Rightarrow> None
          | Some c \<Rightarrow>
              (case bc_expires_at c of
                 None \<Rightarrow> None
               | Some t \<Rightarrow>
                   if t > now then None
                   else Some \<lparr>rd_success = False, rd_error_message = Some (consent_message show_time t), rd_result_data = None\<rparr>)))"

text \<open>The bank as the consumer sees it: the interface, the page limit and the first date of the default window.\<close>

record bank_client =
  cl_api :: "json \<Rightarrow> json \<Rightarrow> bank_api"
  cl_max_tx_pages :: nat
  cl_ninety_days_ago :: date

definition handle_fetch_transactions ::
  "(instant \<Rightarrow> string) \<Rightarrow> bank_client \<Rightarrow> instant \<Rightarrow> dict \<Rightarrow> bank_db \<Rightarrow> bank_error + bank_reply_data" where
  "handle_fetch_transactions show_time client now body db =
     bindE (of_option (BankPyError (KeyError ''connection_id'')) (dget body ''connection_id'')) (\<lambda>connection_id.
     bindE (reject_if_consent_expired show_time now connection_id db) (\<lambda>expired.
     case expired of
       Some reply \<Rightarrow> Inr reply
     | None \<Rightarrow>
         (case get_transactions (cl_api client) (cl_max_tx_pages client) (cl_ninety_days_ago client)
                 (dget_or body ''bank_account_uid'' (JStr [])) (dget_or body ''date_from'' JNull) of
            Inl e \<Rightarrow> Inl (BankFetchError e)
          | Inr (transactions, parse_skipped) \<Rightarrow>
              Inr \<lparr>rd_success = True, rd_error_message = None, rd_result_data = Some (fetch_result transactions parse_skipped)\<rparr>)))"

section \<open>Completing a synchronisation\<close>

definition BANK_QUEUE :: string where "BANK_QUEUE = ''banking_service.saga_commands''"

definition bank_is_duplicate :: "string \<Rightarrow> string \<Rightarrow> bank_db \<Rightarrow> bool" where
  "bank_is_duplicate queue key db \<longleftrightarrow> (key, queue) \<in> set (bd_processed db)"

definition bank_int :: "json \<Rightarrow> bank_error + int" where
  "bank_int v = (case valid_int v of Inl _ \<Rightarrow> Inl BankDataError | Inr n \<Rightarrow> Inr n)"

text \<open>The claim is ours only while it still names this saga; then its trigger is read before it is released.\<close>

definition own_claim :: "dict \<Rightarrow> bank_connection \<Rightarrow> bool" where
  "own_claim body c =
     (case dget_or body ''saga_id'' (JStr []) of JStr s \<Rightarrow> s \<noteq> [] \<and> bc_sync_saga_id c = Some s | _ \<Rightarrow> False)"

definition release_claim :: "bank_connection \<Rightarrow> bank_connection" where
  "release_claim c = c\<lparr>bc_sync_saga_id := None, bc_sync_started_at := None, bc_sync_trigger := None\<rparr>"

definition completed_event :: "dict \<Rightarrow> string \<Rightarrow> json \<Rightarrow> bank_connection \<Rightarrow> string \<Rightarrow> bank_error + sync_completed_event" where
  "completed_event body connection_text user_id c correlation_id =
     bindE (bank_int user_id) (\<lambda>u.
     bindE (bank_int (dget_or body ''total_fetched'' (JInt 0))) (\<lambda>total.
     bindE (bank_int (dget_or body ''new_imported'' (JInt 0))) (\<lambda>new.
     bindE (bank_int (dget_or body ''duplicates_skipped'' (JInt 0))) (\<lambda>dup.
     bindE (bank_int (dget_or body ''errors'' (JInt 0))) (\<lambda>err.
     bindE (bank_int (dget_or body ''parse_skipped'' (JInt 0))) (\<lambda>skip.
     Inr \<lparr>se_connection_id = connection_text, se_account_id = bc_account c, se_user_id = u, se_total_fetched = total,
          se_new_imported = new, se_duplicates_skipped = dup, se_errors = err, se_parse_skipped = skip,
          se_trigger = (if own_claim body c then parse_sync_trigger (bc_sync_trigger c) else Manual),
          se_correlation_id = correlation_id\<rparr>))))))"

text \<open>What the read finds: a duplicate, no connection, or the connection as it is loaded.\<close>

datatype mark_read = MarkDuplicate | MarkNoConnection | MarkLoaded string string bank_connection

definition load_connection :: "json \<Rightarrow> bank_db \<Rightarrow> bank_error + mark_read" where
  "load_connection connection_id db =
     bindE (connection_id_of connection_id) (\<lambda>(text, i).
     Inr (case conn_get i db of None \<Rightarrow> MarkNoConnection | Some c \<Rightarrow> MarkLoaded text i c))"

definition mark_load :: "dict \<Rightarrow> bank_db \<Rightarrow> bank_error + (json \<times> mark_read)" where
  "mark_load body db =
     bindE (of_option (BankPyError (KeyError ''connection_id'')) (dget body ''connection_id'')) (\<lambda>connection_id.
     bindE (of_option (BankPyError (KeyError ''user_id'')) (dget body ''user_id'')) (\<lambda>user_id.
     bindE (case inbox_key_or_none body of
              Some k \<Rightarrow> if bank_is_duplicate BANK_QUEUE k db then Inr MarkDuplicate else load_connection connection_id db
            | None \<Rightarrow> load_connection connection_id db) (\<lambda>loaded.
     Inr (user_id, loaded))))"

text \<open>
  The flush and the commit: the loaded connection's changed columns, the event and the inbox row, all or nothing.  An
  inbox row another delivery committed in the meantime rolls everything back and counts as success.
\<close>

definition mark_change :: "instant \<Rightarrow> bool \<Rightarrow> bank_connection \<Rightarrow> bank_connection" where
  "mark_change now own c = (let c' = c\<lparr>bc_last_synced_at := Some now\<rparr> in if own then release_claim c' else c')"

definition mark_effect :: "instant \<Rightarrow> string \<Rightarrow> string \<Rightarrow> bool \<Rightarrow> sync_completed_event \<Rightarrow> bank_db \<Rightarrow> bank_db" where
  "mark_effect now text i own ev db =
     bank_outbox_add now (BankSyncCompletedEvent ev) (Some (se_correlation_id ev)) text
       (snd (conn_update (\<lambda>q. bc_id q = i) (mark_change now own) db))"

definition mark_commit ::
  "instant \<Rightarrow> string \<Rightarrow> dict \<Rightarrow> json \<times> mark_read \<Rightarrow> bank_db \<Rightarrow> (bank_error + bank_reply_data) \<times> bank_db" where
  "mark_commit now correlation_id body loaded db =
     (let ok = Inr \<lparr>rd_success = True, rd_error_message = None, rd_result_data = None\<rparr> in
      case loaded of
        (user_id, MarkLoaded text i c) \<Rightarrow>
          (case completed_event body text user_id c correlation_id of
             Inl e \<Rightarrow> (Inl e, db)
           | Inr ev \<Rightarrow>
               (case inbox_key_or_none body of
                  None \<Rightarrow> (ok, mark_effect now text i (own_claim body c) ev db)
                | Some k \<Rightarrow>
                    if length k > 255 then (Inl BankDataError, db)
                    else if bank_is_duplicate BANK_QUEUE k db then (ok, db)
                    else (ok, (mark_effect now text i (own_claim body c) ev db)
                               \<lparr>bd_processed := bd_processed db @ [(k, BANK_QUEUE)]\<rparr>)))
      | _ \<Rightarrow> (ok, db))"

definition handle_mark_sync_complete ::
  "instant \<Rightarrow> string \<Rightarrow> dict \<Rightarrow> bank_db \<Rightarrow> (bank_error + bank_reply_data) \<times> bank_db" where
  "handle_mark_sync_complete now correlation_id body db =
     (case mark_load body db of
        Inl e \<Rightarrow> (Inl e, db)
      | Inr loaded \<Rightarrow> mark_commit now correlation_id body loaded db)"

section \<open>The consumer of saga commands\<close>

definition BANK_MAX_RETRIES :: int where "BANK_MAX_RETRIES = 3"

text \<open>The header as this consumer reads it: bytes are converted, every other value is compared as it is.\<close>

datatype retry_header =
    RHInt int
  | RHBool bool
  | RHFloat amqp_float
  | RHBytes string
  | RHOther

text \<open>Whether the retries are used up, and the header of the next attempt; \<open>None\<close>: reading or comparing raises.\<close>

definition next_attempt :: "retry_header option \<Rightarrow> (bool \<times> retry_header) option" where
  "next_attempt h =
     (let counted = (\<lambda>n. Some (n \<ge> BANK_MAX_RETRIES, RHInt (n + 1))) in
      case h of
        None \<Rightarrow> counted 0
      | Some (RHInt n) \<Rightarrow> counted n
      | Some (RHBool b) \<Rightarrow> counted (if b then 1 else 0)
      | Some (RHBytes s) \<Rightarrow> (case int_of_text s of None \<Rightarrow> None | Some n \<Rightarrow> counted n)
      | Some (RHFloat (Finite x)) \<Rightarrow> Some (x \<ge> of_int BANK_MAX_RETRIES, RHFloat (Finite (fl (x + 1))))
      | Some (RHFloat NaN) \<Rightarrow> Some (False, RHFloat NaN)
      | Some (RHFloat Infinite) \<Rightarrow> Some (True, RHFloat Infinite)
      | Some RHOther \<Rightarrow> None)"

datatype bank_outcome =
    BankDeadLetter
  | BankReplied saga_reply
  | BankRepublished retry_header
  | BankUnsettled

record bank_delivery =
  dl_now :: instant
  dl_correlation_id :: string
  dl_client :: bank_client
  dl_reply_ok :: bool
  dl_again_ok :: bool
  dl_iso :: "instant \<Rightarrow> string"
  dl_error :: "bank_error option \<Rightarrow> string"

definition bank_publish_reply :: "json \<Rightarrow> json \<Rightarrow> bank_reply_data \<Rightarrow> saga_reply" where
  "bank_publish_reply saga_id step_name r =
     \<lparr>rp_saga_id = text_of saga_id, rp_step_name = text_of step_name, rp_success = rd_success r,
      rp_error_message = rd_error_message r, rp_result_data = rd_result_data r, rp_is_compensation = False\<rparr>"

definition bank_command_failed ::
  "bank_delivery \<Rightarrow> retry_header option \<Rightarrow> json \<Rightarrow> json \<Rightarrow> bank_error option \<Rightarrow> bank_outcome" where
  "bank_command_failed dl hdr saga_id step_name err =
     (case next_attempt hdr of
        None \<Rightarrow> BankUnsettled
      | Some (used_up, next_header) \<Rightarrow>
          if \<not> dl_again_ok dl then BankUnsettled
          else if used_up
          then BankReplied (bank_publish_reply saga_id step_name
                 \<lparr>rd_success = False, rd_error_message = Some (dl_error dl err), rd_result_data = None\<rparr>)
          else BankRepublished next_header)"

definition bank_saga_on_message ::
  "bank_delivery \<Rightarrow> retry_header option \<Rightarrow> json option \<Rightarrow> bank_db \<Rightarrow> bank_outcome \<times> bank_db" where
  "bank_saga_on_message dl hdr msg db =
     (case msg of
        Some (JObj body) \<Rightarrow>
          (let event_type = dget_or body ''event_type'' (JStr []); saga_id = dget_or body ''saga_id'' (JStr []);
               step_name = dget_or body ''step_name'' (JStr []);
               run = (\<lambda>(r, db').
                 case r of
                   Inr reply \<Rightarrow> if dl_reply_ok dl then (BankReplied (bank_publish_reply saga_id step_name reply), db')
                                else (bank_command_failed dl hdr saga_id step_name None, db')
                 | Inl e \<Rightarrow> (bank_command_failed dl hdr saga_id step_name (Some e), db'))
           in if event_type = JStr ''saga.cmd.bank_fetch_transactions''
              then run (handle_fetch_transactions (dl_iso dl) (dl_client dl) (dl_now dl) body db, db)
              else if event_type = JStr ''saga.cmd.mark_sync_complete''
              then run (handle_mark_sync_complete (dl_now dl) (dl_correlation_id dl) body db)
              else (BankDeadLetter, db))
      | None \<Rightarrow> (BankDeadLetter, db)
      | _ \<Rightarrow> (BankUnsettled, db))"

section \<open>The copy of the accounts\<close>

definition ACCOUNT_SYNC_QUEUE :: string where "ACCOUNT_SYNC_QUEUE = ''banking.account_sync''"

definition account_of_payload :: "dict \<Rightarrow> (int \<times> int \<times> string) option" where
  "account_of_payload payload =
     (case (dget payload ''account_id'', dget payload ''user_id'',
            json_or (dget_or payload ''account_name'' JNull) (dget_or payload ''name'' (JStr ''Unknown''))) of
        (Some (JInt a), Some (JInt u), JStr nm) \<Rightarrow> Some (a, u, nm)
      | _ \<Rightarrow> None)"

definition account_projection_handle :: "dict \<Rightarrow> bank_db \<Rightarrow> handler_result \<times> bank_db" where
  "account_projection_handle payload db =
     (let correlation_id = (case dget_or payload ''correlation_id'' (JStr []) of JStr s \<Rightarrow> s | _ \<Rightarrow> []) in
      if correlation_id \<noteq> [] \<and> bank_is_duplicate ACCOUNT_SYNC_QUEUE correlation_id db then (Handled, db)
      else
        (case account_of_payload payload of
           None \<Rightarrow> (HandlerError, db)
         | Some (a, u, nm) \<Rightarrow>
             (case account_upsert a u nm db of
                Inl _ \<Rightarrow> (HandlerError, db)
              | Inr db' \<Rightarrow>
                  if length correlation_id > 255 then (HandlerError, db)
                  else (Handled, db'\<lparr>bd_processed := bd_processed db' @
                         (if correlation_id = [] then [] else [(correlation_id, ACCOUNT_SYNC_QUEUE)])\<rparr>))))"

end
