(* ===== verification/BankClientProofs.thy ===== *)
theory BankClientProofs
  imports BankWorkers
begin

text \<open>
  What the bank client hands on: a decimal survives its text, a transaction the bank reported arrives in
  transaction-service as it was, and a fetch reads a bounded number of pages.
\<close>

section \<open>The text of a decimal\<close>

definition numeral_text :: "bool \<Rightarrow> string \<Rightarrow> string \<Rightarrow> int option \<Rightarrow> string" where
  "numeral_text neg ip fp x =
     (if neg then ''-'' else []) @ ip @ (if fp = [] then [] else CHR ''.'' # fp) @ (case x of None \<Rightarrow> [] | Some e \<Rightarrow> show_exp e)"

definition exp_part :: "int option \<Rightarrow> int" where
  "exp_part x = (case x of None \<Rightarrow> 0 | Some e \<Rightarrow> e)"

lemma parse_exponent_show_exp: "parse_exponent (show_exp e) = Some e"
  by (auto simp: parse_exponent_def show_exp_def parse_nat_def show_nat_all_digits)

lemma not_digit: "\<not> is_digit CHR ''.''" "\<not> is_digit CHR ''E''"
  by (simp_all add: is_digit_def)

lemma numeral_text_chars:
  assumes "c \<in> set (numeral_text neg ip fp x)" and "list_all is_digit ip" and "list_all is_digit fp"
  shows "\<not> is_space c \<and> c \<noteq> CHR ''_''"
proof -
  have "is_digit c \<or> c \<in> {CHR ''-'', CHR ''.'', CHR ''E'', CHR ''+''}"
    using assms show_nat_all_digits
    by (auto simp: numeral_text_def show_exp_def list_all_iff split: if_splits option.splits)
  then show ?thesis by (auto simp: is_digit_def is_space_def)
qed

lemma parse_numeral:
  assumes "list_all is_digit ip" and "ip \<noteq> []" and "list_all is_digit fp"
  shows "parse_dec (numeral_text neg ip fp x) = Some (DFin neg (digits_val (ip @ fp)) (exp_part x - int (length fp)))"
proof -
  let ?tail = "(if fp = [] then [] else CHR ''.'' # fp) @ (case x of None \<Rightarrow> [] | Some e \<Rightarrow> show_exp e)"
  have s: "filter (\<lambda>c. c \<noteq> CHR ''_'') (strip (numeral_text neg ip fp x)) = numeral_text neg ip fp x"
    using numeral_text_chars [OF _ assms(1,3)] by (subst strip_id) (auto intro: filter_True)
  have sg: "split_sign (numeral_text neg ip fp x) = (neg, ip @ ?tail)"
    using split_sign_digits [OF assms(1,2)] by (simp add: numeral_text_def)
  have "show_exp e = CHR ''E'' # tl (show_exp e)" for e by (simp add: show_exp_def)
  then have w: "takeWhile is_digit (ds @ show_exp e) = ds" "dropWhile is_digit (ds @ show_exp e) = show_exp e"
    if "list_all is_digit ds" for ds e
    using takeWhile_digits [OF that not_digit(2), of "tl (show_exp e)"] by metis+
  have E: "show_exp e \<noteq> []" "hd (show_exp e) = CHR ''E''" for e by (simp_all add: show_exp_def)
  have ex: "(case show_exp e of [] \<Rightarrow> (a, b) | c # r \<Rightarrow> if c = CHR ''.'' then f r else g) = g" for e a b f g
    by (simp add: show_exp_def)
  show ?thesis
  proof (cases "fp = []")
    case True
    then show ?thesis unfolding parse_dec_def s sg using assms(2)
      by (cases x) (simp_all add: all_digits_while [OF assms(1)] w [OF assms(1)] ex parse_exponent_show_exp exp_part_def
          parse_exponent_def [of "[]"])
  next
    case False
    then show ?thesis unfolding parse_dec_def s sg using assms(2)
      by (cases x) (simp_all add: takeWhile_digits [OF assms(1) not_digit(1)] all_digits_while [OF assms(3)] w [OF assms(3)]
          parse_exponent_show_exp exp_part_def parse_exponent_def [of "[]"])
  qed
qed

lemma digits_val_zero [simp]: "digits_val (CHR ''0'' # ds) = digits_val ds"
  by (simp add: digits_val_def)

lemma dec_str_numeral:
  obtains ip fp x where "dec_str (DFin neg c e) = numeral_text neg ip fp x" and "list_all is_digit ip" and "ip \<noteq> []"
    and "list_all is_digit fp" and "digits_val (ip @ fp) = c" and "exp_part x - int (length fp) = e"
proof -
  let ?ds = "show_nat c"
  let ?left = "e + int (length ?ds)"
  note ds = show_nat_all_digits [of c] show_nat_not_Nil [of c]
  have sub: "list_all is_digit (take n ?ds)" "list_all is_digit (drop n ?ds)" for n
    using ds(1) by (auto simp: list_all_iff dest: in_set_takeD in_set_dropD)
  consider (small) "e \<le> 0" "?left > - 6" "?left \<le> 0" | (point) "e < 0" "?left > 0" | (whole) "e = 0"
    | (sci) "\<not> (e \<le> 0 \<and> ?left > - 6)" by linarith
  then show thesis
  proof cases
    case small
    have "dec_str (DFin neg c e) = numeral_text neg ''0'' (replicate (nat (- ?left)) CHR ''0'' @ ?ds) None"
      using small by (simp add: dec_digits_def numeral_text_def Let_def)
    then show thesis
      by (rule that) (use small ds in \<open>auto simp: list_all_iff is_digit_def exp_part_def digits_val_append\<close>)
  next
    case point
    have n: "nat ?left < length ?ds" using point by linarith
    have "dec_str (DFin neg c e) = numeral_text neg (take (nat ?left) ?ds) (drop (nat ?left) ?ds) None"
      using point n by (simp add: dec_digits_def numeral_text_def Let_def)
    then show thesis
      by (rule that) (use point n sub in \<open>auto simp: exp_part_def\<close>)
  next
    case whole
    have "dec_str (DFin neg c e) = numeral_text neg ?ds [] None"
      using whole ds(2) by (simp add: dec_digits_def numeral_text_def Let_def)
    then show thesis by (rule that) (use whole ds in \<open>auto simp: exp_part_def\<close>)
  next
    case sci
    show thesis
    proof (cases "length ?ds = 1")
      case True
      then have "dec_str (DFin neg c e) = numeral_text neg ?ds [] (if e = 0 then None else Some e)"
        using sci by (auto simp: dec_digits_def numeral_text_def Let_def)
      then show thesis by (rule that) (use ds in \<open>auto simp: exp_part_def\<close>)
    next
      case False
      then have l: "1 < length ?ds" using ds(2) by (cases "length ?ds") auto
      have "dec_str (DFin neg c e) = numeral_text neg (take 1 ?ds) (drop 1 ?ds)
          (if ?left = 1 then None else Some (?left - 1))"
        using sci l by (auto simp: dec_digits_def numeral_text_def Let_def)
      then show thesis by (rule that) (use l sub in \<open>auto simp: exp_part_def simp del: One_nat_def\<close>)
    qed
  qed
qed

lemma parse_dec_dec_str: "parse_dec (dec_str (DFin neg c e)) = Some (DFin neg c e)"
proof -
  obtain ip fp x where "dec_str (DFin neg c e) = numeral_text neg ip fp x" "list_all is_digit ip" "ip \<noteq> []"
    "list_all is_digit fp" "digits_val (ip @ fp) = c" "exp_part x - int (length fp) = e"
    by (rule dec_str_numeral)
  then show ?thesis by (simp add: parse_numeral)
qed

text \<open>The readers of transaction-service, which keep only the value, agree with the one that keeps the digits.\<close>

lemma parse_decimal_dec: "parse_dec s = Some (DFin neg c e) \<Longrightarrow> parse_decimal s = dec_val (DFin neg c e)"
  by (auto simp: parse_dec_def parse_decimal_def special_dec_def Let_def case_prod_beta split: if_splits)

lemma parse_decimal_dec_str: "parse_decimal (dec_str (DFin neg c e)) = dec_val (DFin neg c e)"
  by (rule parse_decimal_dec) (rule parse_dec_dec_str)

section \<open>From the bank to transaction-service\<close>

lemma dropWhile_hd: "dropWhile P xs = [] \<or> \<not> P (hd (dropWhile P xs))"
  by (induction xs) auto

lemma strip_strip [simp]: "strip (strip s) = strip s"
proof -
  let ?u = "dropWhile is_space s"
  let ?t = "dropWhile is_space (rev ?u)"
  have fix_hd: "dropWhile is_space xs = xs" if "xs = [] \<or> \<not> is_space (hd xs)" for xs
    using that by (cases xs) auto
  obtain pre where u: "rev ?u = pre @ ?t" using takeWhile_dropWhile_id [of is_space "rev ?u"] by metis
  have "?t = [] \<or> last ?t = last (rev ?u)" using u by (metis last_appendR)
  then have "rev ?t = [] \<or> \<not> is_space (hd (rev ?t))"
    using dropWhile_hd [of is_space s] by (auto simp: hd_rev last_rev dest: set_dropWhileD)
  then have "dropWhile is_space (rev ?t) = rev ?t" by (rule fix_hd)
  moreover have "dropWhile is_space ?t = ?t" by (rule fix_hd) (rule dropWhile_hd)
  ultimately show ?thesis by (simp add: strip_def)
qed

lemma of_isoformat_valid: "of_isoformat s = Some d \<Longrightarrow> valid_date d"
  by (auto simp: of_isoformat_def split: if_splits option.splits sum.splits)

lemma date_near_valid: "date_near y n = Some d \<Longrightarrow> valid_date d"
  by (auto simp: date_near_def split: option.splits sum.splits)

lemma week_form_valid: "week_form y w k = Some d \<Longrightarrow> valid_date d"
  by (auto simp: week_form_def iso_week_date_def Let_def dest: date_near_valid split: option.splits sum.splits if_splits)

lemma date_fromisoformat_valid: "date_fromisoformat s = Some d \<Longrightarrow> valid_date d"
  unfolding date_fromisoformat_def by (auto dest: of_isoformat_valid week_form_valid split: if_splits)

lemma booking_date_valid: "booking_date_of raw = Inr d \<Longrightarrow> valid_date d"
  by (auto simp: booking_date_of_def Let_def dest: date_fromisoformat_valid split: if_splits json.splits)

lemma parse_transaction_date: "parse_transaction v = Inr t \<Longrightarrow> valid_date (bt_date t)"
  by (cases v) (auto simp: parse_transaction_def Let_def bindE_eq_Inr dest!: booking_date_valid)

lemma dec_fix_small: "c < 10 ^ 28 \<Longrightarrow> dec_fix c e = (c, e)"
  using length_show_nat_le [of c 28] by (simp add: dec_fix_def dec_prec_def)

definition import_bounds :: "int \<Rightarrow> string \<Rightarrow> rat \<Rightarrow> bank_transaction \<Rightarrow> string \<Rightarrow> string \<Rightarrow> bool" where
  "import_bounds a nm x t i cu \<longleftrightarrow>
     a > 0 \<and> length nm \<le> 100 \<and> AMOUNT_MIN \<le> x \<and> x \<le> AMOUNT_MAX \<and> whole_cents x \<and> length (bt_description t) \<le> 500 \<and>
     length (strip i) \<le> 128 \<and> length cu = 3"

text \<open>
  C21. A transaction the bank reported reaches the import as it was: banking-service reads it from the JSON of the bank,
  writes its amount as text, its date and its identity into the reply, and transaction-service reads from that exactly
  the absolute amount in cents, the direction, the date, the description, the external id and the currency.  It is
  refused precisely when a bound of the import is violated: an amount that is zero, too large or not whole cents, a
  long description or id, or a currency that has not three letters.
\<close>

theorem fetched_item_imported:
  assumes "parse_transaction raw = Inr t" and "item_for_saga t = Some v"
    and "bt_amount t = DFin neg c e" and "c < 10 ^ 28" and "bt_transaction_id t = JStr i" and "bt_currency t = JStr cu" and "cu \<noteq> []"
  defines "x \<equiv> of_nat c * scale10 e"
  shows "item_of_json (JInt a) (JStr nm) v =
    (if import_bounds a nm x t i cu
     then Inr \<lparr>cd_account_id = a, cd_account_name = nm, cd_category_id = None, cd_category_name = None, cd_amount = \<lfloor>x * 100\<rfloor>,
               cd_type = (if neg \<and> c \<noteq> 0 then Expense else Income), cd_description = Some (bt_description t),
               cd_date = bt_date t, cd_subcategory_id = None, cd_tier = None, cd_confidence = None,
               bi_external_id = (if strip i = [] then None else Some (strip i)), bi_currency = cu\<rparr>
     else Inl TxValidationError)"
proof -
  have i: "json_or (JStr i) (JStr []) = JStr i" "json_or (JStr cu) (JStr ''DKK'') = JStr cu"
    using assms(7) by (simp_all add: json_or_def)
  have v: "v = JObj [(''amount'', JStr (dec_str (DFin False c e))),
      (''transaction_type'', JStr (if neg \<and> c \<noteq> 0 then ''expense'' else ''income'')), (''date'', JStr (isoformat (bt_date t))),
      (''description'', JStr (bt_description t)), (''external_id'', if strip i = [] then JNull else JStr (strip i)),
      (''currency'', JStr cu)]"
    using assms(2,3,5,6) by (auto simp: item_for_saga_def dec_fix_small [OF assms(4)] i simp del: dec_str.simps)
  have amount: "parse_decimal (dec_str (DFin False c e)) = Some x"
    using parse_decimal_dec_str [of False c e] by (simp add: x_def del: dec_str.simps)
  have date: "valid_iso_date (JStr (isoformat (bt_date t))) = Inr (bt_date t)"
    using of_isoformat_isoformat [OF parse_transaction_date [OF assms(1)]] by (simp add: valid_iso_date_def of_option_def)
  have ext: "clean_external_id (if strip i = [] then JNull else JStr (strip i)) = Inr (if strip i = [] then None else Some (strip i))"
    by (simp add: clean_external_id_def)
  have type: "valid_type (JStr ''expense'') = Inr Expense" "valid_type (JStr ''income'') = Inr Income"
    by (simp_all add: valid_type_def)
  show ?thesis unfolding v item_of_json_def
    by (simp add: tx_req_def of_option_def tx_decimal_def amount ext dget_or_def make_bulk_item_def date type valid_int_def
        opt_len_def guardE_def import_bounds_def assms(7) del: dec_str.simps)
qed

definition demo_raw :: json where
  "demo_raw = JObj [(''transaction_amount'', JObj [(''amount'', JStr ''125.50''), (''currency'', JStr ''DKK'')]),
     (''credit_debit_indicator'', JStr ''DBIT''), (''creditor'', JObj [(''name'', JStr ''Netto'')]),
     (''booking_date'', JStr ''2026-07-01''), (''entry_reference'', JStr '' ref-1 '')]"

definition demo_bank_tx :: bank_transaction where
  "demo_bank_tx = \<lparr>bt_transaction_id = JStr '' ref-1 '', bt_amount = DFin True 12550 (- 2), bt_currency = JStr ''DKK'',
     bt_description = ''Netto'', bt_date = Date 2026 7 1, bt_creditor_name = JStr ''Netto'',
     bt_debtor_name = JStr [], bt_status = JStr [], bt_raw = (case demo_raw of JObj d \<Rightarrow> d | _ \<Rightarrow> [])\<rparr>"

lemma demo_facts:
  "parse_dec ''125.50'' = Some (DFin False 12550 (- 2))" "date_fromisoformat ''2026-07-01'' = Some (Date 2026 7 1)"
  "choose_description ''Netto'' [] = ''Netto''" "strip ''Netto'' = ''Netto''" "strip '' ref-1 '' = ''ref-1''"
  by code_simp+

lemma demo_fix: "dec_fix 12550 (- 2) = (12550, - 2)"
  by (rule dec_fix_small) simp

lemma demo_parse: "parse_transaction demo_raw = Inr demo_bank_tx"
  by (simp add: parse_transaction_def demo_raw_def demo_bank_tx_def get_of_def dget_or_def amount_of_def of_option_def demo_facts
      signed_amount_def demo_fix party_name_def json_or_def strip_of_def first_of_def join_of_def booking_date_of_def)

theorem fetched_item_imported_witness:
  "\<exists>v. item_for_saga demo_bank_tx = Some v \<and>
     (\<exists>it. item_of_json (JInt 2) (JStr ''Konto'') v = Inr it \<and> cd_amount it = 12550 \<and> cd_type it = Expense \<and>
       cd_description it = Some ''Netto'' \<and> bi_external_id it = Some ''ref-1'')"
proof -
  obtain v where v: "item_for_saga demo_bank_tx = Some v"
    by (simp add: item_for_saga_def demo_bank_tx_def json_or_def demo_fix del: dec_str.simps)
  have x: "of_nat 12550 * scale10 (- 2) = (251 / 2 :: rat)" by (simp add: scale10_def)
  have b: "import_bounds 2 ''Konto'' (251 / 2) demo_bank_tx '' ref-1 '' ''DKK''"
    by (simp add: import_bounds_def demo_bank_tx_def demo_facts AMOUNT_MIN_def AMOUNT_MAX_def whole_cents_def)
  have "item_of_json (JInt 2) (JStr ''Konto'') v = Inr \<lparr>cd_account_id = 2, cd_account_name = ''Konto'', cd_category_id = None,
      cd_category_name = None, cd_amount = 12550, cd_type = Expense, cd_description = Some ''Netto'', cd_date = Date 2026 7 1,
      cd_subcategory_id = None, cd_tier = None, cd_confidence = None, bi_external_id = Some ''ref-1'', bi_currency = ''DKK''\<rparr>"
    using fetched_item_imported [OF demo_parse v, of True 12550 "- 2" "'' ref-1 ''" "''DKK''" 2 "''Konto''"] b
    unfolding x by (simp add: demo_bank_tx_def demo_facts)
  then show ?thesis using v by simp
qed

section \<open>Pages\<close>

text \<open>The pages a fetch sees when it follows the continuation keys, at most \<open>n\<close> of them.\<close>

fun page_chain :: "bank_api \<Rightarrow> nat \<Rightarrow> json \<Rightarrow> json list" where
  "page_chain api 0 key = []"
| "page_chain api (Suc n) key =
     (case api key of
        None \<Rightarrow> []
      | Some data \<Rightarrow>
          data # (case read_page data of
                    Inl _ \<Rightarrow> []
                  | Inr (_, _, key') \<Rightarrow> if truthy key' then page_chain api n key' else []))"

definition page_transactions :: "json \<Rightarrow> bank_transaction list" where
  "page_transactions data = (case read_page data of Inl _ \<Rightarrow> [] | Inr (ts, _, _) \<Rightarrow> ts)"

definition page_skipped :: "json \<Rightarrow> nat" where
  "page_skipped data = (case read_page data of Inl _ \<Rightarrow> 0 | Inr (_, n, _) \<Rightarrow> n)"

lemma length_page_chain: "length (page_chain api n key) \<le> n"
  by (induction api n key rule: page_chain.induct) (auto split: option.splits sum.splits)

lemma get_pages_chain:
  assumes "get_pages api m p key ts sk = Inr (ts', sk')" and "p < m"
  shows "ts' = ts @ concat (map page_transactions (page_chain api (m - p) key)) \<and>
    sk' = sk + sum_list (map page_skipped (page_chain api (m - p) key))"
  using assms
proof (induction api m p key ts sk rule: get_pages.induct)
  case (1 api m p key ts sk)
  obtain n where n: "m - p = Suc n" using "1.prems"(2) by (cases "m - p") auto
  obtain data where data: "api key = Some data" using "1.prems"(1) by (subst (asm) get_pages.simps) (auto split: option.splits)
  obtain batch skipped key' where page: "read_page data = Inr (batch, skipped, key')"
    using "1.prems"(1) data by (subst (asm) get_pages.simps) (auto split: sum.splits)
  show ?case
  proof (cases "\<not> truthy key' \<or> p + 1 \<ge> m")
    case True
    then have "ts' = ts @ batch" "sk' = sk + skipped" "truthy key' \<Longrightarrow> n = 0"
      using "1.prems" data page n by (subst (asm) get_pages.simps, auto)+
    then show ?thesis using n data page by (auto simp: page_transactions_def page_skipped_def)
  next
    case False
    have "m - (p + 1) = n" using n by simp
    moreover have "get_pages api m (p + 1) key' (ts @ batch) (sk + skipped) = Inr (ts', sk')"
      using "1.prems"(1) data page False by (subst (asm) get_pages.simps) auto
    ultimately show ?thesis
      using "1.IH" [OF data page _ _ False] False n data page by (simp add: page_transactions_def page_skipped_def)
  qed
qed

end
