(* ===== verification/BankingProofs.thy ===== *)
theory BankingProofs
  imports BankWorkers
begin

text \<open>
  banking-service under interleaving: calls that start a synchronisation advance one transaction at a time, deliveries
  of the completing command overlap, and the other use cases come in between.  Shown are that a claim keeps every
  other synchronisation of its connection away, that a completion is announced once per saga step, and that the
  connections stay well formed.
\<close>

section \<open>The interleaved system\<close>

text \<open>
  The calls under way with where they stand, the completing commands that have read but not yet committed, and a log
  of the announced completions with the inbox key of the command that announced them.
\<close>

record bank_world =
  bw_db :: bank_db
  bw_calls :: "(sync_call \<times> sync_pc) list"
  bw_marks :: "(dict \<times> (json \<times> mark_read)) list"
  bw_log :: "(string option \<times> bank_event) list"

datatype bank_step =
    Arrive sync_call
  | Advance nat bank_env
  | Command bank_delivery "retry_header option" "json option"
  | MarkBegin dict
  | MarkEnd nat instant string
  | AccountEvent dict
  | StartConnect bank_env "bank_error + string" int int
  | CompleteConnect instant "string list" "bank_error + eb_session" string
  | Disconnect instant string int

fun is_completion :: "bank_event \<Rightarrow> bool" where
  "is_completion (BankSyncCompletedEvent _) = True"
| "is_completion _ = False"

definition completions :: "bank_db \<Rightarrow> bank_event list" where
  "completions db = filter is_completion (map ob_payload (bd_outbox db))"

definition announce :: "string option \<Rightarrow> bank_db \<Rightarrow> bank_world \<Rightarrow> bank_world" where
  "announce k db w =
     w\<lparr>bw_db := db,
       bw_log := bw_log w @ map (Pair k) (drop (length (completions (bw_db w))) (completions db))\<rparr>"

definition message_key :: "json option \<Rightarrow> string option" where
  "message_key msg = (case msg of Some (JObj body) \<Rightarrow> inbox_key_or_none body | _ \<Rightarrow> None)"

fun bank_apply :: "bank_step \<Rightarrow> bank_world \<Rightarrow> bank_world" where
  "bank_apply (Arrive call) w = w\<lparr>bw_calls := bw_calls w @ [(call, AtOpen)]\<rparr>"
| "bank_apply (Advance i env) w =
     (if i < length (bw_calls w)
      then (let (call, pc) = bw_calls w ! i; (pc', db') = sync_step env call pc (bw_db w)
            in w\<lparr>bw_db := db', bw_calls := (bw_calls w)[i := (call, pc')]\<rparr>)
      else w)"
| "bank_apply (Command dl hdr msg) w = announce (message_key msg) (snd (bank_saga_on_message dl hdr msg (bw_db w))) w"
| "bank_apply (MarkBegin body) w =
     (case mark_load body (bw_db w) of Inl _ \<Rightarrow> w | Inr loaded \<Rightarrow> w\<lparr>bw_marks := bw_marks w @ [(body, loaded)]\<rparr>)"
| "bank_apply (MarkEnd i now correlation_id) w =
     (if i < length (bw_marks w)
      then (let (body, loaded) = bw_marks w ! i
            in announce (inbox_key_or_none body) (snd (mark_commit now correlation_id body loaded (bw_db w)))
                 (w\<lparr>bw_marks := take i (bw_marks w) @ drop (Suc i) (bw_marks w)\<rparr>))
      else w)"
| "bank_apply (AccountEvent payload) w = w\<lparr>bw_db := snd (account_projection_handle payload (bw_db w))\<rparr>"
| "bank_apply (StartConnect env auth account_id user_id) w =
     (case start_connect env auth account_id user_id (bw_db w) of Inl _ \<Rightarrow> w | Inr db' \<Rightarrow> w\<lparr>bw_db := db'\<rparr>)"
| "bank_apply (CompleteConnect now drawn_ids session state) w =
     w\<lparr>bw_db := snd (complete_connect now drawn_ids session state (bw_db w))\<rparr>"
| "bank_apply (Disconnect now connection_id user_id) w =
     (case disconnect now connection_id user_id (bw_db w) of Inl _ \<Rightarrow> w | Inr (_, db') \<Rightarrow> w\<lparr>bw_db := db'\<rparr>)"

abbreviation bank_run :: "bank_step list \<Rightarrow> bank_world \<Rightarrow> bank_world" where
  "bank_run steps w \<equiv> fold bank_apply steps w"

section \<open>Claims\<close>

text \<open>The connection is claimed by a saga since a time.\<close>

definition claimed :: "string \<Rightarrow> string \<Rightarrow> instant \<Rightarrow> bank_db \<Rightarrow> bool" where
  "claimed cid s t0 db \<longleftrightarrow>
     conn_get cid db \<noteq> None \<and>
     list_all (\<lambda>c. bc_id c = cid \<longrightarrow> bc_sync_saga_id c = Some s \<and> bc_sync_started_at c = Some t0) (bd_connections db)"

fun starts_sync :: "string \<Rightarrow> bank_event \<Rightarrow> bool" where
  "starts_sync cid (BankSyncSagaStartEvent e) = (ss_connection_id e = cid)"
| "starts_sync cid _ = False"

definition sync_starts :: "string \<Rightarrow> bank_db \<Rightarrow> bank_event list" where
  "sync_starts cid db = filter (starts_sync cid) (map ob_payload (bd_outbox db))"

text \<open>A call on the connection that is still before its decision, with a clock before the limit; and one that ends with the saga.\<close>

fun undecided :: "instant \<Rightarrow> sync_pc \<Rightarrow> bool" where
  "undecided limit AtOpen = True"
| "undecided limit (AtClaim _ _ now) = (now \<le> limit)"
| "undecided limit (AtConflict _ _ now) = (now \<le> limit)"
| "undecided limit (AtRetry _ _ now) = (now \<le> limit)"
| "undecided limit _ = False"

fun joined :: "string \<Rightarrow> sync_pc \<Rightarrow> bool" where
  "joined s (AtWinner _) = True"
| "joined s (AtDefer w) = (w = s)"
| "joined s (Returned w already) = (w = s)"
| "joined s (Raised _) = True"
| "joined s _ = False"

text \<open>A pending completion that will release the connection's claim when it commits.\<close>

definition releases :: "string \<Rightarrow> dict \<times> (json \<times> mark_read) \<Rightarrow> bool" where
  "releases cid m =
     (case snd (snd m) of MarkLoaded _ i c \<Rightarrow> i = cid \<and> own_claim (fst m) c | _ \<Rightarrow> False)"

text \<open>
  A step that leaves the saga alone: the clock is before the limit, the status interface does not call the saga
  ended, and no command completes it.
\<close>

definition names_saga :: "string \<Rightarrow> dict \<Rightarrow> bool" where
  "names_saga s body \<longleftrightarrow> dget_or body ''saga_id'' (JStr []) = JStr s"

fun quiet :: "string \<Rightarrow> instant \<Rightarrow> bank_step \<Rightarrow> bool" where
  "quiet s limit (Advance i env) =
     (bv_now env \<le> limit \<and> (case bv_saga_status env s of None \<Rightarrow> True | Some st \<Rightarrow> st \<notin> set TERMINAL_SAGA_STATUSES))"
| "quiet s limit (Command dl hdr msg) =
     (case msg of
        Some (JObj body) \<Rightarrow> \<not> (dget_or body ''event_type'' (JStr []) = JStr ''saga.cmd.mark_sync_complete'' \<and> names_saga s body)
      | _ \<Rightarrow> True)"
| "quiet s limit (MarkBegin body) = (\<not> names_saga s body)"
| "quiet s limit _ = True"

lemma conn_get_None: "conn_get i db = None \<longleftrightarrow> i \<notin> bc_id ` set (bd_connections db)"
  by (auto simp: conn_get_def find_None_all)

lemma conn_get_Some: "conn_get i db = Some c \<Longrightarrow> c \<in> set (bd_connections db) \<and> bc_id c = i"
  unfolding conn_get_def by (drule find_Some_mem) auto

lemma claimed_get: "claimed cid s t0 db \<Longrightarrow> conn_get cid db = Some c \<Longrightarrow> bc_sync_saga_id c = Some s"
  by (auto simp: claimed_def list_all_iff dest: conn_get_Some)

lemma claimed_current: "claimed cid s t0 db \<Longrightarrow> current_claim cid db = Some s"
  by (auto simp: current_claim_def claimed_def list_all_iff split: option.splits dest: conn_get_Some)

lemma conn_update_simps [simp]:
  "bd_connections (snd (conn_update hit f db)) = update_where hit f (bd_connections db)"
  "bd_outbox (snd (conn_update hit f db)) = bd_outbox db" "bd_processed (snd (conn_update hit f db)) = bd_processed db"
  "fst (conn_update hit f db) = length (filter hit (bd_connections db))"
  by (simp_all add: conn_update_def)

lemma bank_outbox_add_simps [simp]:
  "bd_connections (bank_outbox_add now ev k a db) = bd_connections db" "bd_processed (bank_outbox_add now ev k a db) = bd_processed db"
  "map ob_payload (bd_outbox (bank_outbox_add now ev k a db)) = map ob_payload (bd_outbox db) @ [ev]"
  by (simp_all add: bank_outbox_add_def ob_add_def ob_build_def)

lemma sync_starts_add [simp]:
  "sync_starts cid (bank_outbox_add now ev k a db) = sync_starts cid db @ (if starts_sync cid ev then [ev] else [])"
  "sync_starts cid (snd (conn_update hit f db)) = sync_starts cid db"
  by (simp_all add: sync_starts_def)

lemma claimed_frame: "bd_connections db' = bd_connections db \<Longrightarrow> claimed cid s t0 db' \<longleftrightarrow> claimed cid s t0 db"
  by (simp add: claimed_def conn_get_def)

lemma claimed_outbox_add [simp]: "claimed cid s t0 (bank_outbox_add now ev k a db) \<longleftrightarrow> claimed cid s t0 db"
  by (rule claimed_frame) simp

text \<open>An update that keeps ids, and the claims of the connection where it touches it, keeps the claim.\<close>

lemma claimed_update:
  assumes "claimed cid s t0 db" and "\<And>c. hit c \<Longrightarrow> bc_id (f c) = bc_id c"
    and "\<And>c. c \<in> set (bd_connections db) \<Longrightarrow> hit c \<Longrightarrow> bc_id c = cid \<Longrightarrow>
      bc_sync_saga_id (f c) = bc_sync_saga_id c \<and> bc_sync_started_at (f c) = bc_sync_started_at c"
  shows "claimed cid s t0 (snd (conn_update hit f db))"
proof -
  have "map bc_id (update_where hit f (bd_connections db)) = map bc_id (bd_connections db)"
    by (rule map_update_where) (rule assms(2))
  then have "bc_id ` set (update_where hit f (bd_connections db)) = bc_id ` set (bd_connections db)"
    by (metis set_map)
  then show ?thesis
    using assms by (auto simp: claimed_def conn_get_None list_all_iff set_update_where)
qed

lemma set_claim_id [simp]: "bc_id (set_claim i now tr c) = bc_id c"
  by (simp add: set_claim_def)

text \<open>Nobody else's attempt on a claimed connection succeeds before the claim is old enough.\<close>

lemma try_claim_lost:
  assumes "claimed cid s t0 db" and "now \<le> t0 + SYNC_CLAIM_TTL_SECONDS"
  shows "\<not> fst (try_claim_sync cid i now SYNC_CLAIM_TTL_SECONDS tr db)"
proof -
  have "filter (\<lambda>c. bc_id c = cid \<and> claim_free now SYNC_CLAIM_TTL_SECONDS c) (bd_connections db) = []"
    using assms by (auto simp: filter_empty_conv claimed_def list_all_iff claim_free_def)
  then show ?thesis by (simp add: try_claim_sync_def case_prod_beta)
qed

lemma try_claim_other:
  assumes "claimed cid s t0 db" and "j \<noteq> cid"
  shows "claimed cid s t0 (snd (try_claim_sync j i now ttl tr db))"
  unfolding try_claim_sync_def case_prod_beta Let_def snd_conv by (rule claimed_update [OF assms(1)]) (use assms(2) in auto)

lemma steal_other:
  assumes "claimed cid s t0 db" and "j \<noteq> cid"
  shows "claimed cid s t0 (snd (steal_sync_claim j old i now tr db))"
  unfolding steal_sync_claim_def case_prod_beta Let_def snd_conv by (rule claimed_update [OF assms(1)]) (use assms(2) in auto)

lemma claimed_escalate: "claimed cid s t0 db \<Longrightarrow> claimed cid s t0 (snd (escalate_trigger_to_manual j w db))"
  unfolding escalate_trigger_to_manual_def case_prod_beta Let_def snd_conv by (rule claimed_update) auto

lemma attempt_starts [simp]:
  "sync_starts cid (snd (try_claim_sync j i now ttl tr db)) = sync_starts cid db"
  "sync_starts cid (snd (steal_sync_claim j old i now tr db)) = sync_starts cid db"
  "sync_starts cid (snd (escalate_trigger_to_manual j w db)) = sync_starts cid db"
  by (simp_all add: try_claim_sync_def steal_sync_claim_def escalate_trigger_to_manual_def case_prod_beta)

lemma resolve_account_name_frame:
  assumes "resolve_account_name env a db = Inr (nm, db')"
  obtains xs where "db' = db\<lparr>bd_accounts := xs\<rparr>"
proof (cases "get_projection a db")
  case None
  then show thesis using assms that by (auto simp: resolve_account_name_def account_upsert_def result_simps)
next
  case (Some p)
  then have "db' = db\<lparr>bd_accounts := bd_accounts db\<rparr>" using assms by (cases p) (simp add: resolve_account_name_def)
  then show thesis by (rule that)
qed

lemma open_sync_frame:
  assumes "open_sync env call db = Inr (c, nm, db')"
  obtains xs where "db' = db\<lparr>bd_accounts := xs\<rparr>"
proof -
  obtain c' where r: "(case resolve_account_name env (bc_account c') db of
      Inl (BankAccountNotOwned _) \<Rightarrow> Inl (ProjectionIntegrityError (bc_account c'))
    | Inl e \<Rightarrow> Inl e
    | Inr (account_name, db1) \<Rightarrow> Inr (c', account_name, db1)) = Inr (c, nm, db')"
    using assms unfolding open_sync_def bindE_eq_Inr by (elim exE conjE)
  show thesis
  proof (cases "resolve_account_name env (bc_account c') db")
    case (Inl e)
    then show thesis using r by (cases e) auto
  next
    case (Inr p)
    then have "resolve_account_name env (bc_account c') db = Inr (nm, db')" using r by (cases p) auto
    then show thesis using that by (rule resolve_account_name_frame)
  qed
qed

lemma open_sync_keeps:
  assumes "open_sync env call db = Inr (c, nm, db')"
  shows "claimed cid s t0 db' \<longleftrightarrow> claimed cid s t0 db" and "sync_starts cid db' = sync_starts cid db"
proof -
  obtain xs where db': "db' = db\<lparr>bd_accounts := xs\<rparr>" using assms by (rule open_sync_frame)
  show "claimed cid s t0 db' \<longleftrightarrow> claimed cid s t0 db" by (rule claimed_frame) (simp add: db')
  show "sync_starts cid db' = sync_starts cid db" by (simp add: db' sync_starts_def)
qed

section \<open>One transaction of a call\<close>

lemma sync_step_own:
  assumes "claimed cid s t0 db" and "s \<noteq> []" and "sc_connection_id call = cid"
    and "undecided (t0 + SYNC_CLAIM_TTL_SECONDS) pc \<or> joined s pc"
    and "quiet s (t0 + SYNC_CLAIM_TTL_SECONDS) (Advance i env)" and "sync_step env call pc db = (pc', db')"
  shows "claimed cid s t0 db' \<and> sync_starts cid db' = sync_starts cid db \<and>
    (undecided (t0 + SYNC_CLAIM_TTL_SECONDS) pc' \<or> joined s pc')"
proof (cases pc)
  case AtOpen
  then show ?thesis
    using assms by (auto split: sum.splits dest: open_sync_keeps)
next
  case (AtClaim c nm now)
  then show ?thesis using assms try_claim_lost [OF assms(1)] by (auto simp: claim_or_def)
next
  case (AtConflict c nm now)
  then show ?thesis
    using assms claimed_current [OF assms(1)] by (auto split: option.splits if_splits)
next
  case (AtRetry c nm now)
  then show ?thesis using assms try_claim_lost [OF assms(1)] by (auto simp: claim_or_def)
next
  case (AtWinner d)
  then show ?thesis using assms claimed_current [OF assms(1)] by auto
next
  case (AtDefer w)
  then show ?thesis using assms claimed_escalate [OF assms(1)] by (auto simp: defer_to_running_saga_def)
qed (use assms in auto)

lemma sync_step_other:
  assumes "claimed cid s t0 db" and "sc_connection_id call \<noteq> cid" and "sync_step env call pc db = (pc', db')"
  shows "claimed cid s t0 db' \<and> sync_starts cid db' = sync_starts cid db"
proof (cases pc)
  case AtOpen
  then show ?thesis using assms by (auto split: sum.splits dest: open_sync_keeps)
next
  case (AtConflict c nm now)
  then show ?thesis using assms by (auto split: option.splits if_splits)
qed (use assms try_claim_other [OF assms(1,2)] steal_other [OF assms(1,2)] claimed_escalate [OF assms(1)]
  in \<open>auto simp: claim_or_def add_sync_start_event_def defer_to_running_saga_def split: if_splits\<close>)

section \<open>The other transactions\<close>

text \<open>What the commit of a completion can do: nothing, or the effect of its command with the inbox row where it has a key.\<close>

lemma mark_commit_cases:
  obtains (same) "snd (mark_commit now k body loaded db) = db"
  | (effect) u tx i c ev where "loaded = (u, MarkLoaded tx i c)" and "completed_event body tx u c k = Inr ev"
      and "\<And>key. inbox_key_or_none body = Some key \<Longrightarrow> \<not> bank_is_duplicate BANK_QUEUE key db"
      and "snd (mark_commit now k body loaded db) = (mark_effect now tx i (own_claim body c) ev db)
        \<lparr>bd_processed := bd_processed db @ map (\<lambda>key. (key, BANK_QUEUE)) (case inbox_key_or_none body of None \<Rightarrow> [] | Some key \<Rightarrow> [key])\<rparr>"
proof -
  obtain u m where l: "loaded = (u, m)" by (cases loaded)
  show thesis
  proof (cases m)
    case (MarkLoaded tx i c)
    show thesis
    proof (cases "completed_event body tx u c k")
      case (Inl e)
      then show thesis using l MarkLoaded by (intro same) (simp add: mark_commit_def)
    next
      case ev: (Inr ev)
      show thesis
      proof (cases "inbox_key_or_none body")
        case None
        then show thesis using l MarkLoaded ev
          by (intro effect [of u tx i c ev]) (simp_all add: mark_commit_def mark_effect_def bank_outbox_add_def conn_update_def)
      next
        case (Some key)
        show thesis
        proof (cases "length key > 255 \<or> bank_is_duplicate BANK_QUEUE key db")
          case True
          then show thesis using l MarkLoaded ev Some by (intro same) (auto simp: mark_commit_def Let_def)
        next
          case False
          then show thesis using l MarkLoaded ev Some by (intro effect [of u tx i c ev]) (auto simp: mark_commit_def Let_def)
        qed
      qed
    qed
  qed (use l in \<open>auto intro!: same simp: mark_commit_def Let_def\<close>)
qed

lemma mark_effect_claimed:
  assumes "claimed cid s t0 db" and "i = cid \<Longrightarrow> \<not> own"
  shows "claimed cid s t0 (mark_effect now tx i own ev db)"
  unfolding mark_effect_def claimed_outbox_add
  by (rule claimed_update [OF assms(1)]) (use assms(2) in \<open>auto simp: mark_change_def release_claim_def Let_def\<close>)

lemma mark_commit_claimed:
  assumes "claimed cid s t0 db" and "\<not> releases cid (body, loaded)"
  shows "claimed cid s t0 (snd (mark_commit now k body loaded db))"
    and "sync_starts cid (snd (mark_commit now k body loaded db)) = sync_starts cid db"
proof -
  have "claimed cid s t0 (snd (mark_commit now k body loaded db)) \<and>
      sync_starts cid (snd (mark_commit now k body loaded db)) = sync_starts cid db"
  proof (cases rule: mark_commit_cases [of now k body loaded db])
    case same
    then show ?thesis using assms(1) by simp
  next
    case (effect u tx i c ev)
    then have "claimed cid s t0 (mark_effect now tx i (own_claim body c) ev db)"
      using assms by (intro mark_effect_claimed) (auto simp: releases_def)
    then have "claimed cid s t0 (snd (mark_commit now k body loaded db))"
      using claimed_frame [of "snd (mark_commit now k body loaded db)"] effect(4) by simp
    then show ?thesis by (simp add: effect(4) sync_starts_def mark_effect_def)
  qed
  then show "claimed cid s t0 (snd (mark_commit now k body loaded db))"
    "sync_starts cid (snd (mark_commit now k body loaded db)) = sync_starts cid db" by simp_all
qed

lemma load_connection_Inr:
  "load_connection v db = Inr m \<Longrightarrow> m = MarkNoConnection \<or> (\<exists>tx i c. m = MarkLoaded tx i c \<and> conn_get i db = Some c)"
  by (auto simp: load_connection_def result_simps split: option.splits)

lemma mark_load_not_releases:
  assumes "claimed cid s t0 db" and "mark_load body db = Inr loaded" and "\<not> names_saga s body"
  shows "\<not> releases cid (body, loaded)"
proof -
  obtain u m where l: "loaded = (u, m)" by (cases loaded)
  have "m = MarkDuplicate \<or> (\<exists>v. load_connection v db = Inr m)"
    using assms(2) l unfolding mark_load_def bindE_eq_Inr by (auto split: option.splits if_splits)
  then have "m = MarkDuplicate \<or> m = MarkNoConnection \<or> (\<exists>tx i c. m = MarkLoaded tx i c \<and> conn_get i db = Some c)"
    using load_connection_Inr by blast
  then show ?thesis
    using assms(1,3) l claimed_get [OF assms(1)]
    by (auto simp: releases_def own_claim_def names_saga_def split: json.splits)
qed

lemma message_claimed:
  assumes "claimed cid s t0 db" and "quiet s bound (Command dl hdr msg)"
  shows "claimed cid s t0 (snd (bank_saga_on_message dl hdr msg db))"
    and "sync_starts cid (snd (bank_saga_on_message dl hdr msg db)) = sync_starts cid db"
proof -
  let ?goal = "\<lambda>db'. claimed cid s t0 db' \<and> sync_starts cid db' = sync_starts cid db"
  have mark: "?goal (snd (handle_mark_sync_complete now k body db))" if "\<not> names_saga s body" for now k body
  proof (cases "mark_load body db")
    case (Inr loaded)
    then show ?thesis
      using mark_commit_claimed [OF assms(1) mark_load_not_releases [OF assms(1) Inr that]]
      by (simp add: handle_mark_sync_complete_def)
  qed (use assms(1) in \<open>simp add: handle_mark_sync_complete_def\<close>)
  have "?goal (snd (bank_saga_on_message dl hdr msg db))"
  proof (cases "\<exists>body. msg = Some (JObj body) \<and> dget_or body ''event_type'' (JStr []) = JStr ''saga.cmd.mark_sync_complete''")
    case True
    then obtain body where b: "msg = Some (JObj body)" "dget_or body ''event_type'' (JStr []) = JStr ''saga.cmd.mark_sync_complete''"
      by auto
    then show ?thesis using mark [of body] assms(2)
      by (auto simp: bank_saga_on_message_def case_prod_beta Let_def split: sum.splits)
  next
    case False
    then have "snd (bank_saga_on_message dl hdr msg db) = db"
      by (auto simp: bank_saga_on_message_def Let_def split: option.splits json.splits sum.splits)
    then show ?thesis using assms(1) by simp
  qed
  then show "claimed cid s t0 (snd (bank_saga_on_message dl hdr msg db))"
    "sync_starts cid (snd (bank_saga_on_message dl hdr msg db)) = sync_starts cid db" by simp_all
qed

lemma connect_account_claimed:
  assumes "claimed cid s t0 db" and "connect_account now a u ses d acc db = Inr (cn, db')"
  shows "claimed cid s t0 db' \<and> sync_starts cid db' = sync_starts cid db"
proof -
  obtain uid iban where acc: "acc = (uid, iban)" by (cases acc)
  obtain existing where e: "get_active_by_uid uid a db = Inr existing"
    using assms(2) acc by (auto simp: connect_account_def bindE_eq_Inr)
  show ?thesis
  proof (cases existing)
    case (Some c)
    then show ?thesis
      using assms acc e
      by (auto simp: connect_account_def result_simps update_consent_def update_status_def intro!: claimed_update)
  next
    case None
    then show ?thesis
      using assms acc e
      by (auto simp: connect_account_def result_simps Let_def conn_save_def sync_starts_def claimed_def conn_get_def find_append
          find_None_all split: option.splits)
  qed
qed

lemma connect_accounts_claimed:
  assumes "claimed cid s t0 db" and "connect_accounts now a u ses accs db = Inr (cns, db')"
  shows "claimed cid s t0 db' \<and> sync_starts cid db' = sync_starts cid db"
  using assms
proof (induction accs arbitrary: db cns)
  case (Cons x accs)
  obtain cn db1 cns' where "connect_account now a u ses (fst x) (snd x) db = Inr (cn, db1)"
    and "connect_accounts now a u ses accs db1 = Inr (cns', db')"
    using Cons.prems(2) by (cases x) (auto simp: result_simps)
  then show ?case using Cons.IH connect_account_claimed [OF Cons.prems(1)] by metis
qed simp

lemma complete_connect_claimed:
  assumes "claimed cid s t0 db"
  shows "claimed cid s t0 (snd (complete_connect now ids ses st db)) \<and>
    sync_starts cid (snd (complete_connect now ids ses st db)) = sync_starts cid db"
proof (cases "pending_consume now st (cleanup_expired now db)")
  case (Pair auth db1)
  then have db1: "bd_connections db1 = bd_connections db" "bd_outbox db1 = bd_outbox db"
    by (auto simp: pending_consume_def cleanup_expired_def)
  then have c1: "claimed cid s t0 db1" and s1: "sync_starts cid db1 = sync_starts cid db"
    using assms claimed_frame [OF db1(1)] by (simp_all add: sync_starts_def)
  show ?thesis
  proof (cases auth)
    case (Some p)
    then show ?thesis
      using Pair c1 s1 connect_accounts_claimed [OF c1]
      by (auto simp: complete_connect_def bindE_eq_Inr split: sum.splits prod.splits)
  qed (use Pair assms in \<open>simp add: complete_connect_def\<close>)
qed

lemma start_connect_frame:
  assumes "start_connect env auth a u db = Inr db'"
  shows "bd_connections db' = bd_connections db" and "bd_outbox db' = bd_outbox db" and "bd_processed db' = bd_processed db"
  using assms by (auto simp: start_connect_def pending_save_def result_simps)

lemma account_upsert_Inr: "account_upsert a u nm db = Inr db' \<Longrightarrow> \<exists>xs. db' = db\<lparr>bd_accounts := xs\<rparr>"
  by (auto simp: account_upsert_def result_simps)

lemma account_event_cases:
  obtains (same) "snd (account_projection_handle payload db) = db"
  | (stored) xs keys where "snd (account_projection_handle payload db) = db\<lparr>bd_accounts := xs, bd_processed := bd_processed db @ keys\<rparr>"
      and "\<And>k q. (k, q) \<in> set keys \<Longrightarrow> q = ACCOUNT_SYNC_QUEUE"
proof (cases "snd (account_projection_handle payload db) = db")
  case False
  let ?c = "case dget_or payload ''correlation_id'' (JStr []) of JStr s \<Rightarrow> s | _ \<Rightarrow> []"
  obtain a u nm where p: "account_of_payload payload = Some (a, u, nm)"
    using False by (cases "account_of_payload payload") (auto simp: account_projection_handle_def Let_def)
  obtain db' where up: "account_upsert a u nm db = Inr db'"
    using False p by (cases "account_upsert a u nm db") (auto simp: account_projection_handle_def Let_def)
  have e: "snd (account_projection_handle payload db) = db'\<lparr>bd_processed := bd_processed db' @
      (if ?c = [] then [] else [(?c, ACCOUNT_SYNC_QUEUE)])\<rparr>"
    using False p up by (simp add: account_projection_handle_def Let_def split: if_splits)
  obtain xs where "db' = db\<lparr>bd_accounts := xs\<rparr>" using account_upsert_Inr [OF up] ..
  then show thesis using e by (intro stored [of "if ?c = [] then [] else [(?c, ACCOUNT_SYNC_QUEUE)]" xs]) (auto split: if_splits)
qed

lemma account_event_frame:
  "bd_connections (snd (account_projection_handle payload db)) = bd_connections db"
  "bd_outbox (snd (account_projection_handle payload db)) = bd_outbox db"
  by (cases rule: account_event_cases [of payload db]; simp)+

lemma disconnect_claimed:
  assumes "claimed cid s t0 db" and "disconnect now j u db = Inr (b, db')"
  shows "claimed cid s t0 db' \<and> sync_starts cid db' = sync_starts cid db"
  using assms
  by (auto simp: disconnect_def update_status_def split: option.splits if_splits intro!: claimed_update)

section \<open>Nobody starts a second synchronisation\<close>

definition claim_kept :: "string \<Rightarrow> string \<Rightarrow> instant \<Rightarrow> bank_event list \<Rightarrow> bank_world \<Rightarrow> bool" where
  "claim_kept cid s t0 evs w \<longleftrightarrow>
     claimed cid s t0 (bw_db w) \<and> sync_starts cid (bw_db w) = evs \<and>
     list_all (\<lambda>(call, pc). sc_connection_id call = cid \<longrightarrow> undecided (t0 + SYNC_CLAIM_TTL_SECONDS) pc \<or> joined s pc) (bw_calls w) \<and>
     list_all (\<lambda>m. \<not> releases cid m) (bw_marks w)"

lemma claim_kept_db:
  assumes "claim_kept cid s t0 evs w" and "claimed cid s t0 db' \<and> sync_starts cid db' = sync_starts cid (bw_db w)"
  shows "claim_kept cid s t0 evs (w\<lparr>bw_db := db'\<rparr>)"
  using assms by (simp add: claim_kept_def)

lemma claim_kept_announce: "claim_kept cid s t0 evs (announce k db' w) \<longleftrightarrow> claim_kept cid s t0 evs (w\<lparr>bw_db := db'\<rparr>)"
  by (simp add: claim_kept_def announce_def)

lemma list_all_update: "list_all P xs \<Longrightarrow> P x \<Longrightarrow> list_all P (xs[i := x])"
  by (auto simp: list_all_iff dest!: subsetD [OF set_update_subset_insert])

lemma advance_keeps:
  assumes "claim_kept cid s t0 evs w" and "s \<noteq> []" and "quiet s (t0 + SYNC_CLAIM_TTL_SECONDS) (Advance i env)"
  shows "claim_kept cid s t0 evs (bank_apply (Advance i env) w)"
proof (cases "i < length (bw_calls w)")
  case True
  obtain call pc where c: "bw_calls w ! i = (call, pc)" by (cases "bw_calls w ! i")
  obtain pc' db' where st: "sync_step env call pc (bw_db w) = (pc', db')" by (cases "sync_step env call pc (bw_db w)")
  note kept = assms(1) [unfolded claim_kept_def]
  have here: "sc_connection_id call = cid \<longrightarrow> undecided (t0 + SYNC_CLAIM_TTL_SECONDS) pc \<or> joined s pc"
    using kept True c by (auto simp: list_all_length)
  have "claimed cid s t0 db' \<and> sync_starts cid db' = sync_starts cid (bw_db w) \<and>
      (sc_connection_id call = cid \<longrightarrow> undecided (t0 + SYNC_CLAIM_TTL_SECONDS) pc' \<or> joined s pc')"
  proof (cases "sc_connection_id call = cid")
    case True
    then show ?thesis using sync_step_own [OF _ assms(2) True _ assms(3) st] kept here by blast
  next
    case False
    then show ?thesis using sync_step_other [OF _ False st] kept by blast
  qed
  then show ?thesis
    using True c st kept by (auto simp: claim_kept_def intro!: list_all_update)
qed (use assms in simp)

lemma bank_apply_keeps:
  assumes "claim_kept cid s t0 evs w" and "s \<noteq> []" and "quiet s (t0 + SYNC_CLAIM_TTL_SECONDS) st"
  shows "claim_kept cid s t0 evs (bank_apply st w)"
proof -
  have cl: "claimed cid s t0 (bw_db w)" using assms(1) by (simp add: claim_kept_def)
  show ?thesis
  proof (cases st)
    case (Advance i env)
    then show ?thesis using advance_keeps [OF assms(1,2)] assms(3) by blast
  next
    case (Command dl hdr msg)
    then show ?thesis using claim_kept_db [OF assms(1)] message_claimed [OF cl] assms(3) by (simp add: claim_kept_announce)
  next
    case (MarkBegin body)
    then show ?thesis using assms mark_load_not_releases [OF cl]
      by (auto simp: claim_kept_def split: sum.splits)
  next
    case (MarkEnd i now k)
    show ?thesis
    proof (cases "i < length (bw_marks w)")
      case True
      obtain body loaded where m: "bw_marks w ! i = (body, loaded)" by (cases "bw_marks w ! i")
      then have "\<not> releases cid (body, loaded)" using assms(1) True by (auto simp: claim_kept_def list_all_length)
      then have "claim_kept cid s t0 evs (w\<lparr>bw_db := snd (mark_commit now k body loaded (bw_db w))\<rparr>)"
        using claim_kept_db [OF assms(1)] mark_commit_claimed [OF cl] by blast
      then show ?thesis using MarkEnd True m
        by (simp add: claim_kept_announce)
          (auto simp: claim_kept_def list_all_iff dest: in_set_takeD in_set_dropD)
    qed (use MarkEnd assms(1) in simp)
  next
    case (AccountEvent payload)
    have "claimed cid s t0 (snd (account_projection_handle payload (bw_db w)))"
      using cl claimed_frame [OF account_event_frame(1)] by simp
    then show ?thesis using AccountEvent claim_kept_db [OF assms(1)] by (simp add: sync_starts_def account_event_frame)
  next
    case (StartConnect env auth a u)
    show ?thesis
    proof (cases "start_connect env auth a u (bw_db w)")
      case (Inr db')
      then have "claimed cid s t0 db' \<and> sync_starts cid db' = sync_starts cid (bw_db w)"
        using cl claimed_frame [OF start_connect_frame(1) [OF Inr]] by (simp add: sync_starts_def start_connect_frame [OF Inr])
      then show ?thesis using StartConnect Inr claim_kept_db [OF assms(1)] by simp
    qed (use StartConnect assms(1) in simp)
  next
    case (CompleteConnect now ids ses state)
    then show ?thesis using claim_kept_db [OF assms(1) complete_connect_claimed [OF cl]] by simp
  next
    case (Disconnect now j u)
    then show ?thesis using assms(1) claim_kept_db [OF assms(1) disconnect_claimed [OF cl]]
      by (auto split: sum.splits)
  qed (use assms(1) in \<open>simp add: claim_kept_def\<close>)
qed

lemma bank_run_keeps:
  assumes "claim_kept cid s t0 evs w" and "s \<noteq> []" and "list_all (quiet s (t0 + SYNC_CLAIM_TTL_SECONDS)) steps"
  shows "claim_kept cid s t0 evs (bank_run steps w)"
  using assms(1,3) by (induction steps arbitrary: w) (auto intro: bank_apply_keeps [OF _ assms(2)])


definition quiet_world :: "bank_db \<Rightarrow> bank_world" where
  "quiet_world db = \<lparr>bw_db = db, bw_calls = [], bw_marks = [], bw_log = []\<rparr>"

definition demo_conn :: bank_connection where
  "demo_conn = \<lparr>bc_id = ''c1'', bc_account = 2, bc_user = 3, bc_session_id = ''eb'', bc_bank_name = ''Nordea'', bc_bank_country = ''DK'',
     bc_uid = ''uid'', bc_iban = None, bc_status = ''active'', bc_expires_at = Some 9000, bc_last_synced_at = None,
     bc_sync_saga_id = None, bc_sync_started_at = None, bc_sync_trigger = None, bc_created_at = 0\<rparr>"

definition demo_bank_db :: bank_db where
  "demo_bank_db = \<lparr>bd_connections = [demo_conn], bd_pending = [], bd_accounts = [(2, (3, ''Konto''))], bd_outbox = [], bd_processed = []\<rparr>"

definition demo_bank_env :: "instant \<Rightarrow> bank_env" where
  "demo_bank_env now = \<lparr>bv_now = now, bv_account_http = (\<lambda>_. None), bv_str = (\<lambda>_. []), bv_saga_status = (\<lambda>_. Some ''started'')\<rparr>"

definition demo_call :: "sync_trigger \<Rightarrow> string \<Rightarrow> sync_call" where
  "demo_call trigger saga_id =
     \<lparr>sc_connection_id = ''c1'', sc_user_id = 3, sc_date_from = None, sc_trigger = trigger, sc_saga_id = saga_id\<rparr>"

text \<open>Two calls race: the scheduler's claims, the user's finds the claim, joins and makes the sync a manual one.\<close>

definition demo_race :: bank_world where
  "demo_race = bank_run [Arrive (demo_call Scheduled ''saga-a''), Arrive (demo_call Manual ''saga-b''), Advance 0 (demo_bank_env 100),
     Advance 1 (demo_bank_env 101), Advance 0 (demo_bank_env 102)] (quiet_world demo_bank_db)"

definition demo_rest :: "bank_step list" where
  "demo_rest = replicate 3 (Advance 1 (demo_bank_env 103)) @ [Disconnect 104 ''c1'' 3]"

lemma demo_race_claimed: "claimed ''c1'' ''saga-a'' 100 (bw_db demo_race)"
  by code_simp

lemma demo_race_calls:
  "list_all (\<lambda>(call, pc). undecided (100 + SYNC_CLAIM_TTL_SECONDS) pc \<or> joined ''saga-a'' pc) (bw_calls demo_race)"
  "list_all (\<lambda>m. \<not> releases ''c1'' m) (bw_marks demo_race)"
  by code_simp+

lemma demo_rest_quiet: "list_all (quiet ''saga-a'' (100 + SYNC_CLAIM_TTL_SECONDS)) demo_rest"
  by code_simp


section \<open>A completion is announced once\<close>

text \<open>A database change that announces no completion and forgets no inbox row.\<close>

definition calm :: "bank_db \<Rightarrow> bank_db \<Rightarrow> bool" where
  "calm db db' \<longleftrightarrow> completions db' = completions db \<and> set (bd_processed db) \<subseteq> set (bd_processed db')"

lemma calm_refl [simp]: "calm db db"
  by (simp add: calm_def)

lemma calm_trans: "calm a b \<Longrightarrow> calm b c \<Longrightarrow> calm a c"
  by (auto simp: calm_def)

lemma calm_frame: "bd_outbox db' = bd_outbox db \<Longrightarrow> bd_processed db' = bd_processed db \<Longrightarrow> calm db db'"
  by (simp add: calm_def completions_def)

lemma completions_add [simp]:
  "completions (bank_outbox_add now ev k a db) = completions db @ (if is_completion ev then [ev] else [])"
  "completions (snd (conn_update hit f db)) = completions db"
  by (simp_all add: completions_def)

lemma calm_add: "\<not> is_completion ev \<Longrightarrow> calm db db1 \<Longrightarrow> calm db (bank_outbox_add now ev k a db1)"
  by (simp add: calm_def)

lemma calm_update [simp]: "calm db (snd (conn_update hit f db))"
  by (simp add: calm_def)

lemma calm_attempts [simp]:
  "calm db (snd (try_claim_sync j i now ttl tr db))" "calm db (snd (steal_sync_claim j old i now tr db))"
  "calm db (snd (escalate_trigger_to_manual j w db))"
  by (simp_all add: try_claim_sync_def steal_sync_claim_def escalate_trigger_to_manual_def case_prod_beta)

lemma calm_step: "calm db (snd (sync_step env call pc db))"
proof (cases pc)
  case AtOpen
  show ?thesis
  proof (cases "open_sync env call db")
    case (Inr p)
    obtain c nm db' where p: "p = (c, nm, db')" by (cases p)
    then obtain xs where "db' = db\<lparr>bd_accounts := xs\<rparr>" using Inr by (auto elim: open_sync_frame)
    then show ?thesis using AtOpen Inr p by (simp add: calm_frame)
  qed (use AtOpen in simp)
qed (auto simp: claim_or_def add_sync_start_event_def defer_to_running_saga_def calm_add split: option.splits)

lemma calm_connect: "connect_account now a u ses d acc db = Inr (cn, db') \<Longrightarrow> calm db db'"
proof -
  assume c: "connect_account now a u ses d acc db = Inr (cn, db')"
  obtain uid iban where acc: "acc = (uid, iban)" by (cases acc)
  obtain existing where e: "get_active_by_uid uid a db = Inr existing"
    using c acc by (auto simp: connect_account_def bindE_eq_Inr)
  show "calm db db'"
  proof (cases existing)
    case (Some x)
    have "calm db (update_consent i ses' ex (update_status j st db))" for i ses' ex j st
      unfolding update_consent_def by (rule calm_trans [of _ "update_status j st db"]) (simp_all add: update_status_def)
    then show ?thesis using c acc e Some by (auto simp: connect_account_def result_simps intro!: calm_add)
  next
    case None
    have "calm db db1" if "conn_save q db = Inr db1" for q db1
      using that by (auto simp: conn_save_def result_simps calm_frame)
    then show ?thesis using c acc e None by (auto simp: connect_account_def result_simps Let_def intro!: calm_add)
  qed
qed

lemma calm_connects: "connect_accounts now a u ses accs db = Inr (cns, db') \<Longrightarrow> calm db db'"
proof (induction accs arbitrary: db cns)
  case (Cons x accs)
  obtain cn db1 cns' where "connect_account now a u ses (fst x) (snd x) db = Inr (cn, db1)"
    and "connect_accounts now a u ses accs db1 = Inr (cns', db')"
    using Cons.prems by (cases x) (auto simp: result_simps)
  then show ?case using Cons.IH calm_connect calm_trans by metis
qed simp

lemma calm_complete_connect: "calm db (snd (complete_connect now ids ses st db))"
proof (cases "pending_consume now st (cleanup_expired now db)")
  case (Pair auth db1)
  then have c1: "calm db db1" by (intro calm_frame) (auto simp: pending_consume_def cleanup_expired_def)
  show ?thesis
  proof (cases auth)
    case (Some p)
    then show ?thesis
      using Pair c1 calm_connects calm_trans [OF c1]
      by (fastforce simp: complete_connect_def bindE_eq_Inr split: sum.splits prod.splits)
  qed (use Pair in \<open>simp add: complete_connect_def\<close>)
qed

lemma calm_account_event: "calm db (snd (account_projection_handle payload db))"
  by (cases rule: account_event_cases [of payload db]) (auto simp: calm_def completions_def)

lemma calm_disconnect: "disconnect now j u db = Inr (b, db') \<Longrightarrow> calm db db'"
  by (auto simp: disconnect_def update_status_def split: option.splits if_splits intro!: calm_add)

text \<open>The log names every announcement, and no key twice; the keys have their inbox rows.\<close>

definition log_ok :: "bank_event list \<Rightarrow> bank_world \<Rightarrow> bool" where
  "log_ok C w \<longleftrightarrow>
     completions (bw_db w) = C @ map snd (bw_log w) \<and> distinct (List.map_filter fst (bw_log w)) \<and>
     set (map (\<lambda>k. (k, BANK_QUEUE)) (List.map_filter fst (bw_log w))) \<subseteq> set (bd_processed (bw_db w))"

lemma log_ok_calm: "log_ok C w \<Longrightarrow> calm (bw_db w) db' \<Longrightarrow> log_ok C (w\<lparr>bw_db := db'\<rparr>)"
  by (auto simp: log_ok_def calm_def)

lemma map_filter_snoc: "List.map_filter f (xs @ [x]) = List.map_filter f xs @ (case f x of None \<Rightarrow> [] | Some y \<Rightarrow> [y])"
  by (induction xs) (simp_all add: map_filter_simps split: option.splits)

lemma log_ok_mark:
  assumes "log_ok C w" and "bw_db w' = bw_db w" and "bw_log w' = bw_log w"
  shows "log_ok C (announce (inbox_key_or_none body) (snd (mark_commit now k body loaded (bw_db w))) w')"
proof (cases rule: mark_commit_cases [of now k body loaded "bw_db w"])
  case same
  then show ?thesis using assms by (simp add: announce_def log_ok_def)
next
  case (effect u tx i c ev)
  let ?db' = "snd (mark_commit now k body loaded (bw_db w))"
  have c: "completions ?db' = completions (bw_db w) @ [BankSyncCompletedEvent ev]"
    unfolding effect(4) by (simp add: completions_def mark_effect_def)
  have p: "bd_processed ?db' = bd_processed (bw_db w) @ map (\<lambda>key. (key, BANK_QUEUE))
      (case inbox_key_or_none body of None \<Rightarrow> [] | Some key \<Rightarrow> [key])"
    unfolding effect(4) by simp
  have "distinct (List.map_filter fst (bw_log w @ [(inbox_key_or_none body, BankSyncCompletedEvent ev)]))"
    using assms(1) effect(3)
    by (auto simp: map_filter_snoc log_ok_def bank_is_duplicate_def split: option.splits)
  then show ?thesis
    using assms c p by (auto simp: log_ok_def announce_def map_filter_snoc split: option.splits)
qed

lemma log_ok_command:
  assumes "log_ok C w"
  shows "log_ok C (bank_apply (Command dl hdr msg) w)"
proof (cases "\<exists>body. msg = Some (JObj body) \<and> dget_or body ''event_type'' (JStr []) = JStr ''saga.cmd.mark_sync_complete''")
  case True
  then obtain body where b: "msg = Some (JObj body)" "dget_or body ''event_type'' (JStr []) = JStr ''saga.cmd.mark_sync_complete''"
    by auto
  have d: "snd (bank_saga_on_message dl hdr msg (bw_db w)) = snd (handle_mark_sync_complete (dl_now dl) (dl_correlation_id dl) body (bw_db w))"
    using b by (auto simp: bank_saga_on_message_def case_prod_beta Let_def split: sum.splits)
  have key: "message_key msg = inbox_key_or_none body" using b by (simp add: message_key_def)
  show ?thesis
  proof (cases "mark_load body (bw_db w)")
    case (Inl e)
    then show ?thesis using assms d by (simp add: handle_mark_sync_complete_def announce_def log_ok_def)
  next
    case (Inr loaded)
    then show ?thesis using d key log_ok_mark [OF assms] by (simp add: handle_mark_sync_complete_def)
  qed
next
  case False
  then have "snd (bank_saga_on_message dl hdr msg (bw_db w)) = bw_db w"
    by (auto simp: bank_saga_on_message_def Let_def split: option.splits json.splits sum.splits)
  then show ?thesis using assms by (simp add: announce_def log_ok_def)
qed

lemma log_ok_apply: "log_ok C w \<Longrightarrow> log_ok C (bank_apply st w)"
proof (cases st)
  case (Advance i env)
  assume w: "log_ok C w"
  obtain call pc where c: "bw_calls w ! i = (call, pc)" by (cases "bw_calls w ! i")
  have "log_ok C (w\<lparr>bw_db := snd (sync_step env call pc (bw_db w))\<rparr>)" by (rule log_ok_calm [OF w calm_step])
  then show ?thesis using Advance c w by (simp add: log_ok_def case_prod_beta)
next
  case (MarkBegin body)
  assume "log_ok C w"
  then show ?thesis using MarkBegin by (auto simp: log_ok_def split: sum.splits)
next
  case (MarkEnd i now k)
  assume w: "log_ok C w"
  show ?thesis using MarkEnd w log_ok_mark [OF w] by (cases "bw_marks w ! i") simp
next
  case (StartConnect env auth a u)
  assume w: "log_ok C w"
  show ?thesis
  proof (cases "start_connect env auth a u (bw_db w)")
    case (Inr db')
    then show ?thesis using StartConnect log_ok_calm [OF w calm_frame [OF start_connect_frame(2,3)]] by simp
  qed (use StartConnect w in simp)
next
  case (Disconnect now j u)
  assume w: "log_ok C w"
  show ?thesis
  proof (cases "disconnect now j u (bw_db w)")
    case (Inr p)
    then show ?thesis using Disconnect log_ok_calm [OF w calm_disconnect] by (cases p) simp
  qed (use Disconnect w in simp)
qed (auto simp: log_ok_calm calm_account_event calm_complete_connect log_ok_command simp del: bank_apply.simps(3), simp add: log_ok_def)

lemma log_ok_run: "log_ok C w \<Longrightarrow> log_ok C (bank_run steps w)"
  by (induction steps arbitrary: w) (simp_all add: log_ok_apply)

text \<open>
  C22. The end of a synchronisation is announced once per saga step.  In every run, with deliveries repeated and
  overlapping in any way, the completion events of the outbox are those of the log in their order, and no inbox key,
  which is the saga with its step, announces twice.
\<close>

theorem sync_completed_once:
  "completions (bw_db (bank_run steps (quiet_world db))) = completions db @ map snd (bw_log (bank_run steps (quiet_world db))) \<and>
   distinct (List.map_filter fst (bw_log (bank_run steps (quiet_world db))))"
proof -
  have "log_ok (completions db) (quiet_world db)" by (simp add: log_ok_def quiet_world_def map_filter_simps)
  then have "log_ok (completions db) (bank_run steps (quiet_world db))" by (rule log_ok_run)
  then show ?thesis by (simp add: log_ok_def)
qed

section \<open>A sweep reaches every due connection\<close>

lemma filter_by_id:
  assumes "distinct (map bc_id cs)" and "c \<in> set cs"
  shows "filter (\<lambda>q. bc_id q = bc_id c \<and> P q) cs = (if P c then [c] else [])"
  using assms by (induction cs) (auto simp: filter_empty_conv image_iff)

lemma conn_get_mem: "distinct (map bc_id (bd_connections db)) \<Longrightarrow> c \<in> set (bd_connections db) \<Longrightarrow> conn_get (bc_id c) db = Some c"
  unfolding conn_get_def by (rule find_distinct_key)

text \<open>What a call of the scheduler does on a connection that is not expired: it claims a free one and joins a busy one.\<close>

definition sweepable :: "instant \<Rightarrow> bank_db \<Rightarrow> bank_connection \<Rightarrow> bool" where
  "sweepable now db c \<longleftrightarrow>
     c \<in> set (bd_connections db) \<and> conn_is_active c \<and> get_projection (bc_account c) db \<noteq> None \<and>
     (claim_free now SYNC_CLAIM_TTL_SECONDS c \<or> bc_sync_saga_id c \<noteq> None)"

definition scheduled_call :: "string \<Rightarrow> bank_connection \<Rightarrow> sync_call" where
  "scheduled_call d c =
     \<lparr>sc_connection_id = bc_id c, sc_user_id = bc_user c, sc_date_from = None, sc_trigger = Scheduled, sc_saga_id = d\<rparr>"

lemma start_sync_saga_effect:
  assumes "distinct (map bc_id (bd_connections db))" and "sweepable (bv_now env) db c" and "\<not> is_expired_at (bv_now env) c"
    and "bv_saga_status env = (\<lambda>_. None)"
  shows "start_sync_saga env (scheduled_call d c) db =
    (if claim_free (bv_now env) SYNC_CLAIM_TTL_SECONDS c
     then (Inr (d, False), add_sync_start_event (bv_now env) (scheduled_call d c) c (snd (the (get_projection (bc_account c) db)))
             (snd (try_claim_sync (bc_id c) d (bv_now env) SYNC_CLAIM_TTL_SECONDS Scheduled db)))
     else (Inr (the (bc_sync_saga_id c), True), db))"
proof -
  have c: "conn_get (bc_id c) db = Some c" using assms(1,2) by (simp add: conn_get_mem sweepable_def)
  obtain u nm where p: "get_projection (bc_account c) db = Some (u, nm)" using assms(2) by (auto simp: sweepable_def)
  have opened: "open_sync env (scheduled_call d c) db = Inr (c, nm, db)"
    using assms(2,3) c p by (simp add: open_sync_def scheduled_call_def of_option_def guardE_def resolve_account_name_def sweepable_def)
  have won: "fst (try_claim_sync (bc_id c) d (bv_now env) SYNC_CLAIM_TTL_SECONDS Scheduled db) \<longleftrightarrow>
      claim_free (bv_now env) SYNC_CLAIM_TTL_SECONDS c"
    using filter_by_id [OF assms(1), of c] assms(2) by (simp add: try_claim_sync_def case_prod_beta sweepable_def)
  have current: "current_claim (bc_id c) db = bc_sync_saga_id c" by (simp add: current_claim_def c)
  have call: "sc_connection_id (scheduled_call d c) = bc_id c" "sc_saga_id (scheduled_call d c) = d"
    "sc_trigger (scheduled_call d c) = Scheduled" by (simp_all add: scheduled_call_def)
  show ?thesis
  proof (cases "claim_free (bv_now env) SYNC_CLAIM_TTL_SECONDS c")
    case True
    have "sync_from env (scheduled_call d c) AtOpen db = (Returned d False, add_sync_start_event (bv_now env) (scheduled_call d c) c nm
        (snd (try_claim_sync (bc_id c) d (bv_now env) SYNC_CLAIM_TTL_SECONDS Scheduled db)))"
      by (simp add: sync_from.simps [of _ _ AtOpen] sync_from.simps [of _ _ "AtClaim _ _ _"] sync_from.simps [of _ _ "Returned _ _"]
          opened claim_or_def won True call)
    then show ?thesis using True p by (simp add: start_sync_saga_def)
  next
    case False
    then obtain s where s: "bc_sync_saga_id c = Some s" using assms(2) by (auto simp: sweepable_def)
    have "sync_from env (scheduled_call d c) AtOpen db = (Returned s True, db)"
      by (simp add: sync_from.simps [of _ _ AtOpen] sync_from.simps [of _ _ "AtClaim _ _ _"] sync_from.simps [of _ _ "AtConflict _ _ _"]
          sync_from.simps [of _ _ "AtDefer _"] sync_from.simps [of _ _ "Returned _ _"] opened claim_or_def won False call current s
          assms(4) defer_to_running_saga_def)
    then show ?thesis using False s by (simp add: start_sync_saga_def)
  qed
qed

text \<open>One connection of the sweep: exactly one counter goes up, and only its own row changes.\<close>

definition handled_count :: "sync_counts \<Rightarrow> nat" where
  "handled_count n = sy_started n + sy_already_running n + sy_consent_expired n"

definition same_others :: "string \<Rightarrow> bank_db \<Rightarrow> bank_db \<Rightarrow> bool" where
  "same_others i db db' \<longleftrightarrow>
     bd_accounts db' = bd_accounts db \<and> (\<exists>hit f. bd_connections db' = update_where (\<lambda>q. bc_id q = i \<and> hit q) f (bd_connections db) \<and>
       (\<forall>q. bc_id (f q) = bc_id q \<and> bc_sync_saga_id (f q) \<noteq> None))"

lemma sweep_one_effect:
  assumes "distinct (map bc_id (bd_connections db))" and "sweepable (bv_now env) db c"
  obtains n' db' where "sweep_one env d c (n, db) = (n', db')" and "same_others (bc_id c) db db'"
    and "handled_count n' = Suc (handled_count n)" and "sy_failed n' = sy_failed n" and "sy_due n' = sy_due n"
    and "is_expired_at (bv_now env) c \<or> current_claim (bc_id c) db' \<noteq> None"
proof -
  have c: "c \<in> set (bd_connections db)" using assms(2) by (simp add: sweepable_def)
  have same: "same_others (bc_id c) db db"
    unfolding same_others_def by (rule conjI, simp, rule exI [of _ "\<lambda>_. False"], rule exI [of _ "set_claim [] 0 Manual"])
      (simp add: update_where_def set_claim_def)
  let ?env = "env\<lparr>bv_saga_status := \<lambda>_. None\<rparr>"
  let ?now = "bv_now env"
  consider (expired) "is_expired_at ?now c" | (free) "\<not> is_expired_at ?now c" "claim_free ?now SYNC_CLAIM_TTL_SECONDS c"
    | (busy) "\<not> is_expired_at ?now c" "\<not> claim_free ?now SYNC_CLAIM_TTL_SECONDS c" by blast
  then show thesis
  proof cases
    case expired
    then have "sweep_one env d c (n, db) = (n\<lparr>sy_consent_expired := sy_consent_expired n + 1\<rparr>, db)" by (simp add: sweep_one_def)
    then show thesis using same by (rule that) (use expired in \<open>simp_all add: handled_count_def\<close>)
  next
    case free
    let ?db' = "add_sync_start_event ?now (scheduled_call d c) c (snd (the (get_projection (bc_account c) db)))
      (snd (try_claim_sync (bc_id c) d ?now SYNC_CLAIM_TTL_SECONDS Scheduled db))"
    have one: "sweep_one env d c (n, db) = (n\<lparr>sy_started := sy_started n + 1\<rparr>, ?db')"
      using free start_sync_saga_effect [of db ?env c d] assms by (simp add: sweep_one_def scheduled_call_def)
    have rows: "bd_connections ?db' = update_where (\<lambda>q. bc_id q = bc_id c \<and> claim_free ?now SYNC_CLAIM_TTL_SECONDS q)
        (set_claim d ?now Scheduled) (bd_connections db)" "bd_accounts ?db' = bd_accounts db"
      by (simp_all add: add_sync_start_event_def try_claim_sync_def case_prod_beta bank_outbox_add_def conn_update_def)
    have others: "same_others (bc_id c) db ?db'"
      unfolding same_others_def rows by (intro conjI exI) (auto simp: set_claim_def)
    have "current_claim (bc_id c) ?db' \<noteq> None"
    proof -
      have "set_claim d ?now Scheduled c \<in> set (bd_connections ?db')" using c free by (auto simp: rows set_update_where)
      moreover have "distinct (map bc_id (bd_connections ?db'))" using assms(1) by (simp add: rows map_update_where)
      ultimately have "conn_get (bc_id c) ?db' = Some (set_claim d ?now Scheduled c)" using conn_get_mem by fastforce
      then show ?thesis by (simp add: current_claim_def set_claim_def)
    qed
    then show thesis by (intro that [OF one others]) (simp_all add: handled_count_def)
  next
    case busy
    have one: "sweep_one env d c (n, db) = (n\<lparr>sy_already_running := sy_already_running n + 1\<rparr>, db)"
      using busy start_sync_saga_effect [of db ?env c d] assms by (simp add: sweep_one_def scheduled_call_def)
    have "current_claim (bc_id c) db \<noteq> None"
      using busy assms c by (auto simp: current_claim_def conn_get_mem sweepable_def)
    then show thesis by (intro that [OF one same]) (simp_all add: handled_count_def)
  qed
qed

lemma find_update_where:
  assumes "\<And>q. bc_id (f q) = bc_id q"
  shows "List.find (\<lambda>q. bc_id q = j) (update_where hit f cs) =
    map_option (\<lambda>q. if hit q then f q else q) (List.find (\<lambda>q. bc_id q = j) cs)"
  using assms by (induction cs) auto

lemma same_others_keeps:
  assumes "same_others i db db'"
  shows "map bc_id (bd_connections db') = map bc_id (bd_connections db)"
    and "sweepable now db c \<Longrightarrow> bc_id c \<noteq> i \<Longrightarrow> sweepable now db' c"
    and "current_claim j db \<noteq> None \<Longrightarrow> current_claim j db' \<noteq> None"
proof -
  obtain hit f where cs: "bd_connections db' = update_where (\<lambda>q. bc_id q = i \<and> hit q) f (bd_connections db)"
    and f: "\<And>q. bc_id (f q) = bc_id q" "\<And>q. bc_sync_saga_id (f q) \<noteq> None"
    using assms by (auto simp: same_others_def)
  show "map bc_id (bd_connections db') = map bc_id (bd_connections db)" unfolding cs using f(1) by (simp add: map_update_where)
  show "sweepable now db' c" if "sweepable now db c" "bc_id c \<noteq> i"
    using that assms by (auto simp: sweepable_def same_others_def set_update_where get_projection_def image_iff)
  show "current_claim j db' \<noteq> None" if "current_claim j db \<noteq> None"
    using that f(2) unfolding current_claim_def conn_get_def cs find_update_where [OF f(1)] by (auto split: option.splits)
qed

lemma sweep_all:
  assumes "distinct (map bc_id (bd_connections db))" and "distinct (map (bc_id \<circ> snd) ps)"
    and "list_all (\<lambda>(d, c). sweepable (bv_now env) db c) ps"
  obtains n' db' where "fold (\<lambda>(d, c). sweep_one env d c) ps (n, db) = (n', db')" and "sy_failed n' = sy_failed n"
    and "sy_due n' = sy_due n" and "handled_count n' = handled_count n + length ps"
    and "list_all (\<lambda>(d, c). is_expired_at (bv_now env) c \<or> current_claim (bc_id c) db' \<noteq> None) ps"
    and "\<And>j. current_claim j db \<noteq> None \<Longrightarrow> current_claim j db' \<noteq> None"
  using assms
proof (induction ps arbitrary: n db thesis)
  case (Cons p ps)
  obtain d c where p: "p = (d, c)" by (cases p)
  have sw: "sweepable (bv_now env) db c" using Cons.prems(4) p by simp
  obtain n1 db1 where one: "sweep_one env d c (n, db) = (n1, db1)" and so: "same_others (bc_id c) db db1"
    and n1: "handled_count n1 = Suc (handled_count n)" "sy_failed n1 = sy_failed n" "sy_due n1 = sy_due n"
    and done1: "is_expired_at (bv_now env) c \<or> current_claim (bc_id c) db1 \<noteq> None"
    by (rule sweep_one_effect [OF Cons.prems(2) sw])
  have d1: "distinct (map bc_id (bd_connections db1))" using Cons.prems(2) same_others_keeps(1) [OF so] by simp
  have "sweepable (bv_now env) db1 x" if "(e, x) \<in> set ps" for e x
  proof (rule same_others_keeps(2) [OF so])
    show "sweepable (bv_now env) db x" using that Cons.prems(4) by (auto simp: list_all_iff)
    show "bc_id x \<noteq> bc_id c" using that Cons.prems(3) p by (force simp: image_iff)
  qed
  then have rest: "list_all (\<lambda>(d, c). sweepable (bv_now env) db1 c) ps" by (auto simp: list_all_iff)
  have dps: "distinct (map (bc_id \<circ> snd) ps)" using Cons.prems(3) by (simp add: comp_def)
  obtain n2 db2 where two: "fold (\<lambda>(d, c). sweep_one env d c) ps (n1, db1) = (n2, db2)" "sy_failed n2 = sy_failed n1"
    "sy_due n2 = sy_due n1" "handled_count n2 = handled_count n1 + length ps"
    "list_all (\<lambda>(d, c). is_expired_at (bv_now env) c \<or> current_claim (bc_id c) db2 \<noteq> None) ps"
    and keep: "\<And>j. current_claim j db1 \<noteq> None \<Longrightarrow> current_claim j db2 \<noteq> None"
    by (rule Cons.IH [where n = n1, OF _ d1 dps rest], rule that)
  have "is_expired_at (bv_now env) c \<or> current_claim (bc_id c) db2 \<noteq> None" using done1 keep by blast
  then have all: "list_all (\<lambda>(d, c). is_expired_at (bv_now env) c \<or> current_claim (bc_id c) db2 \<noteq> None) (p # ps)"
    using two(5) p by simp
  have "fold (\<lambda>(d, c). sweep_one env d c) (p # ps) (n, db) = (n2, db2)" using one two(1) p by simp
  then show ?case
    by (rule Cons.prems(1) [OF _ _ _ _ all]) (use two n1 keep same_others_keeps(3) [OF so] in simp_all)
qed simp

text \<open>
  A sweep of the scheduler reaches every due connection.  When the names of the due accounts are known, it never
  fails on one: each due connection whose consent is running ends up with a claim, its own or the one it joined, each
  expired one is counted, and the counters add up to the number of due connections.
\<close>

theorem sweep_reaches_every_due:
  fixes env :: bank_env and hours :: int and db :: bank_db
  defines "due \<equiv> filter (is_sync_due (bv_now env) hours) (list_active_synced_before (bv_now env - 3600 * hours) db)"
  assumes "distinct (map bc_id (bd_connections db))" and "length due \<le> length drawn_ids"
    and "list_all (sweepable (bv_now env) db) due"
  shows "\<exists>n db'. sync_run_once env hours drawn_ids db = (n, db') \<and> sy_failed n = 0 \<and> sy_due n = length due \<and>
    sy_started n + sy_already_running n + sy_consent_expired n = length due \<and>
    list_all (\<lambda>c. is_expired_at (bv_now env) c \<or> current_claim (bc_id c) db' \<noteq> None) due"
proof -
  let ?ps = "zip drawn_ids due"
  have snd_ps: "map snd ?ps = due" using assms(3) by (simp add: map_snd_zip_take)
  have "map (bc_id \<circ> snd) ?ps = map bc_id due" using snd_ps by (metis map_map)
  moreover have "distinct (map bc_id due)"
    unfolding due_def list_active_synced_before_def by (intro distinct_map_filter assms(2))
  ultimately have d: "distinct (map (bc_id \<circ> snd) ?ps)" by simp
  have l: "list_all (\<lambda>(d, c). sweepable (bv_now env) db c) ?ps"
    using assms(4) by (auto simp: list_all_iff dest: set_zip_rightD)
  let ?n = "\<lparr>sy_due = length due, sy_started = 0, sy_already_running = 0, sy_consent_expired = 0, sy_failed = 0\<rparr>"
  obtain n' db' where "fold (\<lambda>(d, c). sweep_one env d c) ?ps (?n, db) = (n', db')" and n': "sy_failed n' = 0" "sy_due n' = length due"
    "handled_count n' = length ?ps" and c: "list_all (\<lambda>(d, c). is_expired_at (bv_now env) c \<or> current_claim (bc_id c) db' \<noteq> None) ?ps"
    by (rule sweep_all [OF assms(2) d l, of ?n]) (simp add: handled_count_def)
  then have r: "sync_run_once env hours drawn_ids db = (n', db')" by (simp add: sync_run_once_def due_def)
  have "list_all (\<lambda>c. is_expired_at (bv_now env) c \<or> current_claim (bc_id c) db' \<noteq> None) (map snd ?ps)"
    using c by (simp add: list_all_iff case_prod_beta)
  then show ?thesis using r n' assms(3) unfolding snd_ps by (simp add: handled_count_def)
qed

theorem sweep_reaches_every_due_witness:
  "\<exists>n db'. sync_run_once (demo_bank_env 100) 24 [''saga-n''] demo_bank_db = (n, db') \<and> sy_failed n = 0 \<and> sy_due n = 1 \<and>
     current_claim ''c1'' db' \<noteq> None"
proof -
  have due: "filter (is_sync_due (bv_now (demo_bank_env 100)) 24)
      (list_active_synced_before (bv_now (demo_bank_env 100) - 3600 * 24) demo_bank_db) = [demo_conn]" by code_simp
  have ok: "list_all (sweepable (bv_now (demo_bank_env 100)) demo_bank_db) [demo_conn]"
    "\<not> is_expired_at (bv_now (demo_bank_env 100)) demo_conn" "bc_id demo_conn = ''c1''"
    "distinct (map bc_id (bd_connections demo_bank_db))" by code_simp+
  show ?thesis
    using sweep_reaches_every_due [of demo_bank_db "demo_bank_env 100" 24 "[''saga-n'']", unfolded due] ok by auto
qed

end
