(* ===== verification/RuleEngines.thy ===== *)
theory RuleEngines
  imports PyDecimal
begin

text \<open>
  categorization-service, the decision: the matching text (\<open>app/adapters/outbound/rule_engine.py\<close>,
  \<open>app/domain/merchant_normalization.py\<close>), the three rule engines with their longest-match and tier order, and the
  pipeline over rules, ML, LLM and fallback (\<open>app/application/categorization_service.py\<close>).

  Text is a list of Latin-1 code points, which hold every Danish letter; amounts are finite.
\<close>

section \<open>Value objects\<close>

datatype category_type = ExpenseCategory | IncomeCategory | TransferCategory

fun category_type_value :: "category_type \<Rightarrow> string" where
  "category_type_value ExpenseCategory = ''expense''"
| "category_type_value IncomeCategory = ''income''"
| "category_type_value TransferCategory = ''transfer''"

datatype cat_tier = TierRule | TierMl | TierLlm | TierManual | TierFallback

fun tier_value :: "cat_tier \<Rightarrow> string" where
  "tier_value TierRule = ''rule''"
| "tier_value TierMl = ''ml''"
| "tier_value TierLlm = ''llm''"
| "tier_value TierManual = ''manual''"
| "tier_value TierFallback = ''fallback''"

datatype confidence = HighConfidence | MediumConfidence | LowConfidence

fun confidence_value :: "confidence \<Rightarrow> string" where
  "confidence_value HighConfidence = ''high''"
| "confidence_value MediumConfidence = ''medium''"
| "confidence_value LowConfidence = ''low''"

datatype pattern_type = KeywordPattern | RegexPattern | MerchantPattern | AmountRangePattern

datatype tx_direction = IncomingTx | OutgoingTx

fun direction_value :: "tx_direction \<Rightarrow> string" where
  "direction_value IncomingTx = ''incoming''"
| "direction_value OutgoingTx = ''outgoing''"

record cz_result =
  cz_category_id :: int
  cz_subcategory_id :: int
  cz_merchant_id :: "int option"
  cz_tier :: cat_tier
  cz_confidence :: confidence

definition was_auto_categorized :: "cz_result \<Rightarrow> bool" where
  "was_auto_categorized r \<longleftrightarrow> cz_tier r \<noteq> TierManual"

definition needs_review :: "cz_result \<Rightarrow> bool" where
  "needs_review r \<longleftrightarrow> cz_confidence r = LowConfidence"

section \<open>Text\<close>

text \<open>\<open>str.lower\<close>, the transliteration of the Danish letters, and \<open>str.isalpha\<close>.\<close>

definition latin1_lower_char :: "char \<Rightarrow> char" where
  "latin1_lower_char c =
     (let n = of_char c :: nat
      in if 65 \<le> n \<and> n \<le> 90 \<or> 192 \<le> n \<and> n \<le> 222 \<and> n \<noteq> 215 then char_of (n + 32) else c)"

definition latin1_lower :: "string \<Rightarrow> string" where
  "latin1_lower s = map latin1_lower_char s"

definition transliterate :: "char \<Rightarrow> string" where
  "transliterate c =
     (let n = of_char c :: nat
      in if n = 248 then ''oe'' else if n = 230 then ''ae'' else if n = 229 then ''aa'' else [c])"

definition normalize_for_matching :: "string \<Rightarrow> string" where
  "normalize_for_matching s = concat (map transliterate (latin1_lower s))"

definition is_alpha :: "char \<Rightarrow> bool" where
  "is_alpha c \<longleftrightarrow>
     (let n = of_char c :: nat
      in 65 \<le> n \<and> n \<le> 90 \<or> 97 \<le> n \<and> n \<le> 122 \<or> n \<in> {170, 181, 186} \<or> 192 \<le> n \<and> n \<noteq> 215 \<and> n \<noteq> 247)"

text \<open>\<open>re.split(r"\s+", s)\<close>.\<close>

function split_space :: "string \<Rightarrow> string list" where
  "split_space s =
     (case dropWhile (\<lambda>c. \<not> is_space c) s of
        [] \<Rightarrow> [s]
      | r \<Rightarrow> takeWhile (\<lambda>c. \<not> is_space c) s # split_space (dropWhile is_space r))"
  by pat_completeness auto
termination
proof (relation "measure length")
  fix s x xs
  assume r: "dropWhile (\<lambda>c. \<not> is_space c) s = x # xs"
  then have "is_space x" by (metis dropWhile_eq_Cons_conv)
  moreover have "length (x # xs) \<le> length s" using r by (metis length_dropWhile_le)
  ultimately show "(dropWhile is_space (x # xs), s) \<in> measure length"
    using length_dropWhile_le [of is_space xs] by simp
qed simp

declare split_space.simps [simp del]

definition join_space :: "string list \<Rightarrow> string" where
  "join_space ws = (case ws of [] \<Rightarrow> [] | w # vs \<Rightarrow> w @ concat (map (\<lambda>v. CHR '' '' # v) vs))"

definition MAX_PATTERN_LENGTH :: nat where "MAX_PATTERN_LENGTH = 200"

definition normalize_merchant_pattern :: "string \<Rightarrow> string" where
  "normalize_merchant_pattern description =
     strip (take MAX_PATTERN_LENGTH
       (join_space (filter (list_ex is_alpha) (split_space (normalize_for_matching description)))))"

section \<open>The direction of a transaction\<close>

text \<open>\<open>None\<close> is the \<open>ValueError\<close>.\<close>

definition direction_from_transaction_type :: "json \<Rightarrow> tx_direction option" where
  "direction_from_transaction_type v =
     (case v of
        JStr s \<Rightarrow>
          if latin1_lower s = ''income'' then Some IncomingTx
          else if latin1_lower s = ''expense'' then Some OutgoingTx
          else None
      | _ \<Rightarrow> None)"

section \<open>The rule engines\<close>

record categorize_request =
  rq_description :: string
  rq_amount :: rat
  rq_direction :: tx_direction
  rq_merchant :: "string option"
  rq_counterparty :: "string option"
  rq_provider :: "string option"
  rq_country :: "string option"

record seed_rule =
  sr_target_subcategory_id :: int
  sr_target_category_id :: int
  sr_match_field :: string
  sr_operator :: string
  sr_direction :: string
  sr_confidence :: confidence
  sr_pattern :: string
  sr_aliases :: "string list"
  sr_provider :: "string option"
  sr_country :: "string option"
  sr_minimum_amount :: "rat option"
  sr_maximum_amount :: "rat option"
  sr_merchant_id :: "int option"

type_synonym sub_lookup = "(string \<times> int \<times> int) list"

text \<open>The engine classes; the keywords and rules are kept in the order of their constructors.\<close>

datatype engine =
    KeywordEngine "(string \<times> string) list" sub_lookup
  | TieredEngine "engine list"
  | ConstrainedEngine "seed_rule list"

definition rule_engine :: "(string \<times> string) list \<Rightarrow> sub_lookup \<Rightarrow> engine" where
  "rule_engine keyword_mappings lookup =
     KeywordEngine
       (sort_key (\<lambda>kv. - int (length (fst kv)))
         (map (\<lambda>(keyword, subcategory_name). (normalize_for_matching keyword, subcategory_name)) keyword_mappings))
       lookup"

definition seed_rule_length :: "seed_rule \<Rightarrow> nat" where
  "seed_rule_length r = (case sr_aliases r of [] \<Rightarrow> length (sr_pattern r) | as \<Rightarrow> Max (length ` set as))"

definition constrained_engine :: "seed_rule list \<Rightarrow> engine" where
  "constrained_engine rules = ConstrainedEngine (sort_key (\<lambda>r. - int (seed_rule_length r)) rules)"

definition keyword_result :: "int \<times> int \<Rightarrow> cz_result" where
  "keyword_result ids =
     \<lparr>cz_category_id = snd ids, cz_subcategory_id = fst ids, cz_merchant_id = None, cz_tier = TierRule,
      cz_confidence = HighConfidence\<rparr>"

fun match_keywords :: "(string \<times> string) list \<Rightarrow> sub_lookup \<Rightarrow> string \<Rightarrow> cz_result option" where
  "match_keywords [] lookup desc = None"
| "match_keywords ((keyword, subcategory_name) # kws) lookup desc =
     (if \<not> contains keyword desc then match_keywords kws lookup desc
      else (case map_of lookup subcategory_name of
              None \<Rightarrow> match_keywords kws lookup desc
            | Some ids \<Rightarrow> Some (keyword_result ids)))"

definition evidence_of :: "categorize_request \<Rightarrow> string \<Rightarrow> string option" where
  "evidence_of rq field =
     (if field = ''description'' then Some (rq_description rq)
      else if field = ''merchant'' then rq_merchant rq
      else if field = ''counterparty'' then rq_counterparty rq
      else None)"

definition matches_operator :: "string \<Rightarrow> string \<Rightarrow> string \<Rightarrow> bool" where
  "matches_operator val pattern operator =
     (if operator = ''equals'' then val = pattern
      else if operator = ''prefix'' then prefix pattern val
      else contains pattern val)"

definition opt_excludes :: "'a option \<Rightarrow> 'a option \<Rightarrow> bool" where
  "opt_excludes required given \<longleftrightarrow> required \<noteq> None \<and> required \<noteq> given"

definition seed_rule_applies :: "categorize_request \<Rightarrow> seed_rule \<Rightarrow> bool" where
  "seed_rule_applies rq rule \<longleftrightarrow>
     (let absolute_amount = repr_decimal \<bar>rq_amount rq\<bar> in
      case evidence_of rq (sr_match_field rule) of
        None \<Rightarrow> False
      | Some raw \<Rightarrow>
          \<not> (sr_direction rule \<noteq> ''any'' \<and> sr_direction rule \<noteq> direction_value (rq_direction rq)) \<and>
          \<not> opt_excludes (sr_provider rule) (rq_provider rq) \<and>
          \<not> opt_excludes (sr_country rule) (rq_country rq) \<and>
          \<not> (case sr_minimum_amount rule of None \<Rightarrow> False | Some m \<Rightarrow> absolute_amount < m) \<and>
          \<not> (case sr_maximum_amount rule of None \<Rightarrow> False | Some m \<Rightarrow> absolute_amount > m) \<and>
          list_ex (\<lambda>v. matches_operator (normalize_for_matching raw) (normalize_for_matching v) (sr_operator rule))
            (case sr_aliases rule of [] \<Rightarrow> [sr_pattern rule] | as \<Rightarrow> as))"

definition seed_result :: "seed_rule \<Rightarrow> cz_result" where
  "seed_result rule =
     \<lparr>cz_category_id = sr_target_category_id rule, cz_subcategory_id = sr_target_subcategory_id rule,
      cz_merchant_id = sr_merchant_id rule, cz_tier = TierRule, cz_confidence = sr_confidence rule\<rparr>"

definition match_constrained :: "seed_rule list \<Rightarrow> categorize_request \<Rightarrow> cz_result option" where
  "match_constrained rules rq = map_option seed_result (List.find (seed_rule_applies rq) rules)"

fun engine_match :: "engine \<Rightarrow> categorize_request \<Rightarrow> cz_result option" and
    engines_match :: "engine list \<Rightarrow> categorize_request \<Rightarrow> cz_result option" where
  "engine_match (KeywordEngine kws lookup) rq = match_keywords kws lookup (normalize_for_matching (rq_description rq))"
| "engine_match (TieredEngine engines) rq = engines_match engines rq"
| "engine_match (ConstrainedEngine rules) rq = match_constrained rules rq"
| "engines_match [] rq = None"
| "engines_match (e # es) rq = (case engine_match e rq of None \<Rightarrow> engines_match es rq | r \<Rightarrow> r)"

section \<open>The pipeline\<close>

text \<open>The ML and LLM categorizers are optional collaborators outside the repository; \<open>Inl\<close> is an exception.\<close>

type_synonym tier_outcome = "unit + cz_result option"

record categorizer =
  cs_engine :: engine
  cs_fallback_subcategory_id :: int
  cs_fallback_category_id :: int
  cs_ml :: "(string \<Rightarrow> tier_outcome) option"
  cs_llm :: "(string \<Rightarrow> rat \<Rightarrow> tier_outcome) option"

definition try_tier :: "tier_outcome \<Rightarrow> cz_result option" where
  "try_tier m = (case m of Inl _ \<Rightarrow> None | Inr r \<Rightarrow> r)"

definition absolute_fallback :: "categorizer \<Rightarrow> cz_result" where
  "absolute_fallback cs =
     \<lparr>cz_category_id = cs_fallback_category_id cs, cz_subcategory_id = cs_fallback_subcategory_id cs,
      cz_merchant_id = None, cz_tier = TierFallback, cz_confidence = LowConfidence\<rparr>"

definition no_evidence :: "categorize_request \<Rightarrow> categorize_request" where
  "no_evidence rq = rq\<lparr>rq_merchant := None, rq_counterparty := None, rq_provider := None, rq_country := None\<rparr>"

definition has_evidence :: "categorize_request \<Rightarrow> bool" where
  "has_evidence rq \<longleftrightarrow>
     rq_merchant rq \<noteq> None \<or> rq_counterparty rq \<noteq> None \<or> rq_provider rq \<noteq> None \<or> rq_country rq \<noteq> None"

definition run_pipeline :: "categorizer \<Rightarrow> categorize_request \<Rightarrow> cz_result" where
  "run_pipeline cs rq =
     (case try_tier (Inr (engine_match (cs_engine cs) (if has_evidence rq then rq else no_evidence rq))) of
        Some r \<Rightarrow> r
      | None \<Rightarrow>
          (case (case cs_ml cs of None \<Rightarrow> None | Some ml \<Rightarrow> try_tier (ml (rq_description rq))) of
             Some r \<Rightarrow> r
           | None \<Rightarrow>
               (case (case cs_llm cs of None \<Rightarrow> None | Some llm \<Rightarrow> try_tier (llm (rq_description rq) (rq_amount rq))) of
                  Some r \<Rightarrow> r
                | None \<Rightarrow> absolute_fallback cs)))"

record categorize_response =
  rs_category_id :: int
  rs_subcategory_id :: int
  rs_merchant_id :: "int option"
  rs_tier :: string
  rs_confidence :: string
  rs_needs_review :: bool
  rs_target_key :: "string option"

definition to_categorize_response :: "cz_result \<Rightarrow> categorize_response" where
  "to_categorize_response r =
     \<lparr>rs_category_id = cz_category_id r, rs_subcategory_id = cz_subcategory_id r, rs_merchant_id = cz_merchant_id r,
      rs_tier = tier_value (cz_tier r), rs_confidence = confidence_value (cz_confidence r),
      rs_needs_review = needs_review r, rs_target_key = None\<rparr>"

definition categorize :: "categorizer \<Rightarrow> categorize_request \<Rightarrow> categorize_response" where
  "categorize cs rq = to_categorize_response (run_pipeline cs rq)"

definition categorize_batch :: "categorizer \<Rightarrow> categorize_request list \<Rightarrow> categorize_response list" where
  "categorize_batch cs rqs = map (categorize cs) rqs"

end
