(* ===== verification/Taxonomy.thy ===== *)
theory Taxonomy
  imports RuleEngines Projections Outbox
begin

text \<open>
  categorization-service, its database: the taxonomy of categories and subcategories, the merchants, the rules and
  the audit trail (\<open>app/models.py\<close>, \<open>app/adapters/outbound/\<close>), with the administration of the taxonomy
  (\<open>app/application/category_service.py\<close>) and of a user's rules (\<open>app/application/rule_service.py\<close>).

  The columns no operation reads (descriptions, versions, provenance, time stamps) are left out.  Foreign keys
  restrict deletion and the unique indexes are those of the migrations; what they refuse is \<open>CatIntegrityError\<close>.
\<close>

section \<open>Rows\<close>

record category_row =
  ct_id :: int
  ct_name :: string
  ct_type :: category_type
  ct_display_order :: int
  ct_public_id :: "string option"
  ct_semantic_key :: "string option"
  ct_lifecycle :: string

record subcategory_row =
  sb_id :: int
  sb_name :: string
  sb_category_id :: int
  sb_is_default :: bool
  sb_public_id :: "string option"
  sb_semantic_key :: "string option"
  sb_lifecycle :: string

record merchant_row =
  me_id :: int
  me_normalized_name :: string
  me_display_name :: string
  me_subcategory_id :: "int option"
  me_transaction_count :: int
  me_is_user_confirmed :: bool

record alias_row =
  al_merchant_id :: int
  al_normalized_value :: string

text \<open>The last fields are set on the seeded rules only.\<close>

record rule_row =
  ru_id :: int
  ru_user_id :: "int option"
  ru_priority :: int
  ru_pattern_type :: pattern_type
  ru_pattern_value :: string
  ru_subcategory_id :: int
  ru_active :: bool
  ru_rule_key :: "string option"
  ru_merchant_id :: "int option"
  ru_match_field :: "string option"
  ru_match_operator :: "string option"
  ru_direction :: "string option"
  ru_provider :: "string option"
  ru_country :: "string option"
  ru_minimum_amount :: "rat option"
  ru_maximum_amount :: "rat option"
  ru_confidence :: "string option"

record result_row =
  re_transaction_id :: int
  re_category_id :: int
  re_subcategory_id :: int
  re_merchant_id :: "int option"
  re_tier :: cat_tier
  re_confidence :: confidence
  re_model_version :: string

record processed_row =
  pe_message_id :: string
  pe_consumer_name :: string
  pe_event_type :: string
  pe_processed_at :: instant

datatype cat_event =
    CategoryEvent snapshot_kind category_event
  | SubCategoryEvent snapshot_kind subcategory_event
  | CategorizedEvent tx_categorized_event "int option" string

fun cat_event_type :: "cat_event \<Rightarrow> string" where
  "cat_event_type (CategoryEvent SnapCreated _) = ''category.created''"
| "cat_event_type (CategoryEvent SnapUpdated _) = ''category.updated''"
| "cat_event_type (CategoryEvent SnapDeleted _) = ''category.deleted''"
| "cat_event_type (SubCategoryEvent SnapCreated _) = ''subcategory.created''"
| "cat_event_type (SubCategoryEvent SnapUpdated _) = ''subcategory.updated''"
| "cat_event_type (SubCategoryEvent SnapDeleted _) = ''subcategory.deleted''"
| "cat_event_type (CategorizedEvent _ _ _) = ''transaction.categorized''"

record cat_db =
  cg_categories :: "category_row list"
  cg_next_category :: int
  cg_subcategories :: "subcategory_row list"
  cg_next_subcategory :: int
  cg_merchants :: "merchant_row list"
  cg_aliases :: "alias_row list"
  cg_rules :: "rule_row list"
  cg_next_rule :: int
  cg_results :: "result_row list"
  cg_outbox :: "cat_event outbox"
  cg_processed :: "processed_row list"

datatype cat_error =
    CategoryNotFound int
  | SubCategoryNotFound int
  | DuplicateCategoryName string
  | DuplicateSubCategoryName string
  | InvalidCategoryType string
  | CategoryHasSubcategories int nat
  | SubCategoryInUse int string
  | RuleNotFound int
  | DuplicateRule string
  | CatIntegrityError
  | CatDataError
  | CatMultipleResults
  | CatAttributeError
  | CatValueError

section \<open>Queries\<close>

abbreviation ct_active :: "category_row \<Rightarrow> bool" where "ct_active c \<equiv> ct_lifecycle c = ''active''"
abbreviation sb_active :: "subcategory_row \<Rightarrow> bool" where "sb_active s \<equiv> sb_lifecycle s = ''active''"

text \<open>\<open>scalar_one_or_none\<close>.\<close>

fun at_most_one :: "'a list \<Rightarrow> cat_error + 'a option" where
  "at_most_one [] = Inr None"
| "at_most_one [x] = Inr (Some x)"
| "at_most_one (x # y # zs) = Inl CatMultipleResults"

definition category_by_id :: "int \<Rightarrow> cat_db \<Rightarrow> category_row option" where
  "category_by_id i db = List.find (\<lambda>c. ct_id c = i) (cg_categories db)"

definition category_by_name :: "string \<Rightarrow> cat_db \<Rightarrow> cat_error + category_row option" where
  "category_by_name nm db = at_most_one (filter (\<lambda>c. ct_name c = nm \<and> ct_active c) (cg_categories db))"

text \<open>\<open>ORDER BY display_order, name\<close>: the collation of the database ranks the names.\<close>

definition find_all_categories :: "(string \<Rightarrow> int) \<Rightarrow> cat_db \<Rightarrow> category_row list" where
  "find_all_categories coll db =
     sort_key ct_display_order (sort_key (\<lambda>c. coll (ct_name c)) (filter ct_active (cg_categories db)))"

definition subcategory_by_id :: "int \<Rightarrow> cat_db \<Rightarrow> subcategory_row option" where
  "subcategory_by_id i db = List.find (\<lambda>s. sb_id s = i) (cg_subcategories db)"

definition subcategory_by_name_and_category :: "string \<Rightarrow> int \<Rightarrow> cat_db \<Rightarrow> cat_error + subcategory_row option" where
  "subcategory_by_name_and_category nm c db =
     at_most_one (filter (\<lambda>s. sb_name s = nm \<and> sb_category_id s = c \<and> sb_active s) (cg_subcategories db))"

definition subcategories_of :: "int \<Rightarrow> cat_db \<Rightarrow> subcategory_row list" where
  "subcategories_of c db = filter (\<lambda>s. sb_category_id s = c \<and> sb_active s) (cg_subcategories db)"

definition find_all_subcategories :: "(string \<Rightarrow> int) \<Rightarrow> cat_db \<Rightarrow> subcategory_row list" where
  "find_all_subcategories coll db = sort_key (\<lambda>s. coll (sb_name s)) (filter sb_active (cg_subcategories db))"

definition merchants_of_subcategory :: "int \<Rightarrow> cat_db \<Rightarrow> merchant_row list" where
  "merchants_of_subcategory s db = filter (\<lambda>m. me_subcategory_id m = Some s) (cg_merchants db)"

definition rules_of_subcategory :: "int \<Rightarrow> cat_db \<Rightarrow> rule_row list" where
  "rules_of_subcategory s db = filter (\<lambda>r. ru_subcategory_id r = s) (cg_rules db)"

section \<open>Writes\<close>

text \<open>The partial unique index \<open>uq_categories_active_name\<close>.\<close>

definition active_name_free :: "int \<Rightarrow> string \<Rightarrow> cat_db \<Rightarrow> bool" where
  "active_name_free i nm db \<longleftrightarrow>
     list_all (\<lambda>c. ct_id c = i \<or> \<not> (ct_active c \<and> ct_name c = nm)) (cg_categories db)"

definition insert_category :: "string \<Rightarrow> category_type \<Rightarrow> int \<Rightarrow> cat_db \<Rightarrow> cat_error + (category_row \<times> cat_db)" where
  "insert_category nm ty order db =
     (let c = \<lparr>ct_id = cg_next_category db, ct_name = nm, ct_type = ty, ct_display_order = order, ct_public_id = None,
               ct_semantic_key = None, ct_lifecycle = ''active''\<rparr> in
      bindE (guardE (length nm \<le> 45) CatDataError) (\<lambda>_.
      bindE (guardE (active_name_free (ct_id c) nm db) CatIntegrityError) (\<lambda>_.
      Inr (c, db\<lparr>cg_categories := cg_categories db @ [c], cg_next_category := cg_next_category db + 1\<rparr>))))"

definition put_category :: "category_row \<Rightarrow> cat_db \<Rightarrow> cat_error + cat_db" where
  "put_category c db =
     bindE (guardE (length (ct_name c) \<le> 45) CatDataError) (\<lambda>_.
     bindE (guardE (ct_active c \<longrightarrow> active_name_free (ct_id c) (ct_name c) db) CatIntegrityError) (\<lambda>_.
     Inr (db\<lparr>cg_categories := update_where (\<lambda>r. ct_id r = ct_id c) (\<lambda>_. c) (cg_categories db)\<rparr>)))"

definition remove_category :: "int \<Rightarrow> cat_db \<Rightarrow> cat_error + cat_db" where
  "remove_category i db =
     bindE (guardE (list_all (\<lambda>s. sb_category_id s \<noteq> i) (cg_subcategories db)) CatIntegrityError) (\<lambda>_.
     Inr (db\<lparr>cg_categories := filter (\<lambda>c. ct_id c \<noteq> i) (cg_categories db)\<rparr>))"

definition category_exists :: "int \<Rightarrow> cat_db \<Rightarrow> bool" where
  "category_exists i db \<longleftrightarrow> list_ex (\<lambda>c. ct_id c = i) (cg_categories db)"

definition insert_subcategory :: "string \<Rightarrow> int \<Rightarrow> bool \<Rightarrow> cat_db \<Rightarrow> cat_error + (subcategory_row \<times> cat_db)" where
  "insert_subcategory nm c is_default db =
     (let s = \<lparr>sb_id = cg_next_subcategory db, sb_name = nm, sb_category_id = c, sb_is_default = is_default,
               sb_public_id = None, sb_semantic_key = None, sb_lifecycle = ''active''\<rparr> in
      bindE (guardE (length nm \<le> 100) CatDataError) (\<lambda>_.
      bindE (guardE (category_exists c db) CatIntegrityError) (\<lambda>_.
      Inr (s, db\<lparr>cg_subcategories := cg_subcategories db @ [s], cg_next_subcategory := cg_next_subcategory db + 1\<rparr>))))"

definition put_subcategory :: "subcategory_row \<Rightarrow> cat_db \<Rightarrow> cat_error + cat_db" where
  "put_subcategory s db =
     bindE (guardE (length (sb_name s) \<le> 100) CatDataError) (\<lambda>_.
     bindE (guardE (category_exists (sb_category_id s) db) CatIntegrityError) (\<lambda>_.
     Inr (db\<lparr>cg_subcategories := update_where (\<lambda>r. sb_id r = sb_id s) (\<lambda>_. s) (cg_subcategories db)\<rparr>)))"

definition remove_subcategory :: "int \<Rightarrow> cat_db \<Rightarrow> cat_error + cat_db" where
  "remove_subcategory i db =
     bindE (guardE (merchants_of_subcategory i db = [] \<and> rules_of_subcategory i db = []) CatIntegrityError) (\<lambda>_.
     Inr (db\<lparr>cg_subcategories := filter (\<lambda>s. sb_id s \<noteq> i) (cg_subcategories db)\<rparr>))"

definition cat_outbox_add :: "instant \<Rightarrow> cat_event \<Rightarrow> string \<Rightarrow> int \<Rightarrow> cat_db \<Rightarrow> cat_db" where
  "cat_outbox_add now ev aggregate_type i db =
     db\<lparr>cg_outbox := ob_add now (cat_event_type ev) ev None aggregate_type (show_int i) (cg_outbox db)\<rparr>"

section \<open>Categories\<close>

record category_dto =
  cdt_name :: string
  cdt_type :: string
  cdt_display_order :: int

definition parse_category_type :: "string \<Rightarrow> cat_error + category_type" where
  "parse_category_type v =
     of_option (InvalidCategoryType v)
       (List.find (\<lambda>t. category_type_value t = v) [ExpenseCategory, IncomeCategory, TransferCategory])"

text \<open>The events of the runtime are version 2: the identity fields keep their default, null.\<close>

definition category_event_of :: "category_row \<Rightarrow> category_event" where
  "category_event_of c =
     \<lparr>ts_public_id = None, ts_semantic_key = None, ts_taxonomy_version = None, ts_lifecycle = None,
      ts_deprecated_in_version = None, ts_replaced_by_public_id = None, ts_description = None,
      ts_name = ct_name c, ts_category_id = ct_id c,
      ce_category_type = category_type_value (ct_type c), ce_display_order = ct_display_order c\<rparr>"

definition create_category :: "instant \<Rightarrow> category_dto \<Rightarrow> cat_db \<Rightarrow> cat_error + (category_row \<times> cat_db)" where
  "create_category now dto db =
     bindE (parse_category_type (cdt_type dto)) (\<lambda>ty.
     bindE (category_by_name (cdt_name dto) db) (\<lambda>existing.
     bindE (guardE (existing = None) (DuplicateCategoryName (cdt_name dto))) (\<lambda>_.
     bindE (insert_category (cdt_name dto) ty (cdt_display_order dto) db) (\<lambda>(c, db1).
     Inr (c, cat_outbox_add now (CategoryEvent SnapCreated (category_event_of c)) ''category'' (ct_id c) db1)))))"

definition list_categories :: "(string \<Rightarrow> int) \<Rightarrow> cat_db \<Rightarrow> category_row list" where
  "list_categories coll db = find_all_categories coll db"

definition get_category :: "int \<Rightarrow> cat_db \<Rightarrow> cat_error + category_row" where
  "get_category i db = of_option (CategoryNotFound i) (category_by_id i db)"

record category_patch =
  cpa_name :: "string option"
  cpa_type :: "string option"
  cpa_display_order :: "int option"

definition option_or :: "'a option \<Rightarrow> 'a \<Rightarrow> 'a" where
  "option_or x d = (case x of None \<Rightarrow> d | Some v \<Rightarrow> v)"

definition update_category :: "instant \<Rightarrow> int \<Rightarrow> category_patch \<Rightarrow> cat_db \<Rightarrow> cat_error + (category_row \<times> cat_db)" where
  "update_category now i p db =
     bindE (get_category i db) (\<lambda>existing.
     bindE (case cpa_type p of None \<Rightarrow> Inr None | Some v \<Rightarrow> bindE (parse_category_type v) (\<lambda>t. Inr (Some t))) (\<lambda>ty.
     if cpa_name p = None \<and> ty = None \<and> cpa_display_order p = None then Inr (existing, db)
     else
       bindE (case cpa_name p of
                None \<Rightarrow> Inr ()
              | Some nm \<Rightarrow>
                  if nm = ct_name existing then Inr ()
                  else bindE (category_by_name nm db) (\<lambda>dup. guardE (dup = None) (DuplicateCategoryName nm))) (\<lambda>_.
       (let c = existing\<lparr>ct_name := option_or (cpa_name p) (ct_name existing), ct_type := option_or ty (ct_type existing),
                         ct_display_order := option_or (cpa_display_order p) (ct_display_order existing)\<rparr> in
        bindE (put_category c db) (\<lambda>db1.
        Inr (c, cat_outbox_add now (CategoryEvent SnapUpdated (category_event_of c)) ''category'' (ct_id c) db1))))))"

definition delete_category :: "instant \<Rightarrow> int \<Rightarrow> cat_db \<Rightarrow> cat_error + cat_db" where
  "delete_category now i db =
     bindE (get_category i db) (\<lambda>existing.
     bindE (guardE (subcategories_of i db = []) (CategoryHasSubcategories i (length (subcategories_of i db)))) (\<lambda>_.
     bindE (remove_category i db) (\<lambda>db1.
     Inr (cat_outbox_add now (CategoryEvent SnapDeleted (category_event_of existing)) ''category'' (ct_id existing) db1))))"

section \<open>Subcategories\<close>

definition FALLBACK_SUBCATEGORY_NAME :: string where "FALLBACK_SUBCATEGORY_NAME = ''Anden''"

definition subcategory_event_of :: "subcategory_row \<Rightarrow> subcategory_event" where
  "subcategory_event_of s =
     \<lparr>ts_public_id = None, ts_semantic_key = None, ts_taxonomy_version = None, ts_lifecycle = None,
      ts_deprecated_in_version = None, ts_replaced_by_public_id = None, ts_description = None,
      ts_name = sb_name s, ts_category_id = sb_category_id s,
      se_subcategory_id = sb_id s, se_is_default = sb_is_default s, se_parent_public_id = None, se_is_fallback = None\<rparr>"

definition list_subcategories :: "(string \<Rightarrow> int) \<Rightarrow> int \<Rightarrow> cat_db \<Rightarrow> cat_error + subcategory_row list" where
  "list_subcategories coll c db =
     bindE (get_category c db) (\<lambda>_. Inr (sort_key (\<lambda>s. coll (sb_name s)) (subcategories_of c db)))"

definition list_all_subcategories :: "(string \<Rightarrow> int) \<Rightarrow> cat_db \<Rightarrow> subcategory_row list" where
  "list_all_subcategories coll db = find_all_subcategories coll db"

definition create_subcategory :: "instant \<Rightarrow> int \<Rightarrow> string \<Rightarrow> cat_db \<Rightarrow> cat_error + (subcategory_row \<times> cat_db)" where
  "create_subcategory now c nm db =
     bindE (get_category c db) (\<lambda>_.
     bindE (subcategory_by_name_and_category nm c db) (\<lambda>dup.
     bindE (guardE (dup = None) (DuplicateSubCategoryName nm)) (\<lambda>_.
     bindE (insert_subcategory nm c False db) (\<lambda>(s, db1).
     Inr (s, cat_outbox_add now (SubCategoryEvent SnapCreated (subcategory_event_of s)) ''subcategory'' (sb_id s) db1)))))"

definition update_subcategory ::
  "instant \<Rightarrow> int \<Rightarrow> string option \<Rightarrow> int option \<Rightarrow> cat_db \<Rightarrow> cat_error + (subcategory_row \<times> cat_db)" where
  "update_subcategory now i new_name new_category db =
     bindE (of_option (SubCategoryNotFound i) (subcategory_by_id i db)) (\<lambda>existing.
     (let target_category = option_or new_category (sb_category_id existing);
          target_name = option_or new_name (sb_name existing) in
      bindE (if target_category = sb_category_id existing then Inr ()
             else bindE (get_category target_category db) (\<lambda>_. Inr ())) (\<lambda>_.
      if new_name = None \<and> new_category = None then Inr (existing, db)
      else
        bindE (if target_name = sb_name existing \<and> target_category = sb_category_id existing then Inr ()
               else bindE (subcategory_by_name_and_category target_name target_category db) (\<lambda>dup.
                 guardE (case dup of None \<Rightarrow> True | Some d \<Rightarrow> sb_id d = i) (DuplicateSubCategoryName target_name))) (\<lambda>_.
        (let s = existing\<lparr>sb_name := target_name, sb_category_id := target_category\<rparr> in
         bindE (put_subcategory s db) (\<lambda>db1.
         Inr (s, cat_outbox_add now (SubCategoryEvent SnapUpdated (subcategory_event_of s)) ''subcategory'' (sb_id s) db1)))))))"

definition subcategory_unused :: "subcategory_row \<Rightarrow> cat_db \<Rightarrow> cat_error + unit" where
  "subcategory_unused s db =
     (let ms = merchants_of_subcategory (sb_id s) db; rs = rules_of_subcategory (sb_id s) db in
      bindE (guardE (sb_name s \<noteq> FALLBACK_SUBCATEGORY_NAME)
               (SubCategoryInUse (sb_id s) ''it is the rule engine's fallback subcategory'')) (\<lambda>_.
      bindE (guardE (ms = []) (SubCategoryInUse (sb_id s) (show_nat (length ms) @ '' merchant mappings reference it''))) (\<lambda>_.
      guardE (rs = []) (SubCategoryInUse (sb_id s) (show_nat (length rs) @ '' categorization rules reference it'')))))"

definition delete_subcategory :: "instant \<Rightarrow> int \<Rightarrow> cat_db \<Rightarrow> cat_error + cat_db" where
  "delete_subcategory now i db =
     bindE (of_option (SubCategoryNotFound i) (subcategory_by_id i db)) (\<lambda>existing.
     bindE (subcategory_unused existing db) (\<lambda>_.
     bindE (remove_subcategory i db) (\<lambda>db1.
     Inr (cat_outbox_add now (SubCategoryEvent SnapDeleted (subcategory_event_of existing)) ''subcategory'' (sb_id existing) db1))))"

section \<open>The rules of a user\<close>

definition rule_key_of :: "rule_row \<Rightarrow> (int \<times> pattern_type \<times> string) option" where
  "rule_key_of r = map_option (\<lambda>u. (u, ru_pattern_type r, ru_pattern_value r)) (ru_user_id r)"

text \<open>The partial unique index \<open>uq_rules_user_pattern\<close> and the reference to the subcategory.\<close>

definition rule_allowed :: "rule_row \<Rightarrow> cat_db \<Rightarrow> bool" where
  "rule_allowed r db \<longleftrightarrow>
     subcategory_by_id (ru_subcategory_id r) db \<noteq> None \<and>
     (ru_user_id r = None \<or> list_all (\<lambda>x. ru_id x = ru_id r \<or> rule_key_of x \<noteq> rule_key_of r) (cg_rules db))"

definition rule_by_id :: "int \<Rightarrow> cat_db \<Rightarrow> rule_row option" where
  "rule_by_id i db = List.find (\<lambda>r. ru_id r = i) (cg_rules db)"

text \<open>\<open>ORDER BY priority, length(pattern_value) DESC, id\<close>.\<close>

definition rule_order :: "rule_row list \<Rightarrow> rule_row list" where
  "rule_order rs = sort_key ru_priority (sort_key (\<lambda>r. - int (length (ru_pattern_value r))) (sort_key ru_id rs))"

definition find_by_user :: "int \<Rightarrow> cat_db \<Rightarrow> rule_row list" where
  "find_by_user u db = rule_order (filter (\<lambda>r. ru_user_id r = Some u) (cg_rules db))"

definition find_active_rules :: "int option \<Rightarrow> cat_db \<Rightarrow> rule_row list" where
  "find_active_rules u db =
     rule_order (filter (\<lambda>r. ru_active r \<and> (ru_user_id r = None \<or> u \<noteq> None \<and> ru_user_id r = u)) (cg_rules db))"

definition find_by_user_and_pattern :: "int \<Rightarrow> pattern_type \<Rightarrow> string \<Rightarrow> cat_db \<Rightarrow> cat_error + rule_row option" where
  "find_by_user_and_pattern u ty pat db =
     at_most_one (filter (\<lambda>r. ru_user_id r = Some u \<and> ru_pattern_type r = ty \<and> ru_pattern_value r = pat) (cg_rules db))"

definition insert_rule ::
  "int option \<Rightarrow> int \<Rightarrow> pattern_type \<Rightarrow> string \<Rightarrow> int \<Rightarrow> bool \<Rightarrow> cat_db \<Rightarrow> cat_error + (rule_row \<times> cat_db)" where
  "insert_rule u prio ty pat sub act db =
     (let r = \<lparr>ru_id = cg_next_rule db, ru_user_id = u, ru_priority = prio, ru_pattern_type = ty, ru_pattern_value = pat,
               ru_subcategory_id = sub, ru_active = act, ru_rule_key = None, ru_merchant_id = None, ru_match_field = None,
               ru_match_operator = None, ru_direction = None, ru_provider = None, ru_country = None,
               ru_minimum_amount = None, ru_maximum_amount = None, ru_confidence = None\<rparr> in
      bindE (guardE (rule_allowed r db) CatIntegrityError) (\<lambda>_.
      Inr (r, db\<lparr>cg_rules := cg_rules db @ [r], cg_next_rule := cg_next_rule db + 1\<rparr>)))"

definition put_rule :: "rule_row \<Rightarrow> cat_db \<Rightarrow> cat_error + cat_db" where
  "put_rule r db =
     bindE (guardE (rule_allowed r db) CatIntegrityError) (\<lambda>_.
     Inr (db\<lparr>cg_rules := update_where (\<lambda>x. ru_id x = ru_id r) (\<lambda>_. r) (cg_rules db)\<rparr>))"

record rule_dto =
  rd_pattern_value :: string
  rd_subcategory_id :: int
  rd_priority :: int
  rd_active :: bool

text \<open>What the request validation lets through.\<close>

definition rule_dto_ok :: "rule_dto \<Rightarrow> bool" where
  "rule_dto_ok d \<longleftrightarrow>
     2 \<le> length (rd_pattern_value d) \<and> length (rd_pattern_value d) \<le> 200 \<and> 0 < rd_subcategory_id d \<and>
     20 \<le> rd_priority d \<and> rd_priority d \<le> 90"

text \<open>The subcategory's name, its category and the category's name, for the active taxonomy.\<close>

definition taxonomy_name :: "int \<Rightarrow> cat_db \<Rightarrow> (string \<times> int option \<times> string)" where
  "taxonomy_name i db =
     (case List.find (\<lambda>s. sb_id s = i \<and> sb_active s) (cg_subcategories db) of
        None \<Rightarrow> ([], None, [])
      | Some s \<Rightarrow>
          (sb_name s, Some (sb_category_id s),
           (case List.find (\<lambda>c. ct_id c = sb_category_id s \<and> ct_active c) (cg_categories db) of
              None \<Rightarrow> [] | Some c \<Rightarrow> ct_name c)))"

record rule_response =
  rp_rule :: rule_row
  rp_names :: "string \<times> int option \<times> string"
  rp_is_learned :: bool

definition to_rule_response :: "cat_db \<Rightarrow> rule_row \<Rightarrow> rule_response" where
  "to_rule_response db r =
     \<lparr>rp_rule = r, rp_names = taxonomy_name (ru_subcategory_id r) db, rp_is_learned = (ru_pattern_type r = MerchantPattern)\<rparr>"

definition list_rules :: "int \<Rightarrow> cat_db \<Rightarrow> rule_response list" where
  "list_rules u db = map (to_rule_response db) (find_by_user u db)"

definition as_duplicate :: "string \<Rightarrow> cat_error + 'a \<Rightarrow> cat_error + 'a" where
  "as_duplicate pat m = (case m of Inl CatIntegrityError \<Rightarrow> Inl (DuplicateRule pat) | _ \<Rightarrow> m)"

definition create_rule :: "int \<Rightarrow> rule_dto \<Rightarrow> cat_db \<Rightarrow> cat_error + (rule_response \<times> cat_db)" where
  "create_rule u d db =
     (let pat = strip (rd_pattern_value d) in
      bindE (of_option (SubCategoryNotFound (rd_subcategory_id d)) (subcategory_by_id (rd_subcategory_id d) db)) (\<lambda>_.
      bindE (as_duplicate pat
               (insert_rule (Some u) (rd_priority d) KeywordPattern pat (rd_subcategory_id d) (rd_active d) db)) (\<lambda>(r, db').
      Inr (to_rule_response db' r, db'))))"

definition get_owned_rule :: "int \<Rightarrow> int \<Rightarrow> cat_db \<Rightarrow> cat_error + rule_row" where
  "get_owned_rule i u db =
     (case rule_by_id i db of
        None \<Rightarrow> Inl (RuleNotFound i)
      | Some r \<Rightarrow> if ru_user_id r \<noteq> Some u then Inl (RuleNotFound i) else Inr r)"

text \<open>A field of an update: absent, or set to a value or to null.\<close>

record rule_patch =
  rpa_pattern_value :: "string option option"
  rpa_subcategory_id :: "int option option"
  rpa_priority :: "int option option"
  rpa_active :: "bool option option"

definition rule_patch_ok :: "rule_patch \<Rightarrow> bool" where
  "rule_patch_ok p \<longleftrightarrow>
     (case rpa_pattern_value p of Some (Some v) \<Rightarrow> 2 \<le> length v \<and> length v \<le> 200 | _ \<Rightarrow> True) \<and>
     (case rpa_subcategory_id p of Some (Some s) \<Rightarrow> 0 < s | _ \<Rightarrow> True) \<and>
     (case rpa_priority p of Some (Some n) \<Rightarrow> 20 \<le> n \<and> n \<le> 90 | _ \<Rightarrow> True)"

text \<open>
  \<open>None.strip()\<close> is an \<open>AttributeError\<close>; a null priority or activity violates a NOT NULL constraint, which is
  reported as a duplicate; a null subcategory sets an attribute the table does not have.
\<close>

definition update_rule :: "int \<Rightarrow> int \<Rightarrow> rule_patch \<Rightarrow> cat_db \<Rightarrow> cat_error + (rule_response \<times> cat_db)" where
  "update_rule u i p db =
     bindE (case rpa_pattern_value p of
              None \<Rightarrow> Inr None | Some None \<Rightarrow> Inl CatAttributeError | Some (Some v) \<Rightarrow> Inr (Some (strip v))) (\<lambda>pat.
     bindE (get_owned_rule i u db) (\<lambda>r.
     bindE (case rpa_subcategory_id p of
              Some (Some s) \<Rightarrow> bindE (of_option (SubCategoryNotFound s) (subcategory_by_id s db)) (\<lambda>_. Inr s)
            | _ \<Rightarrow> Inr (ru_subcategory_id r)) (\<lambda>sub.
     (let shown = option_or pat [];
          r' = r\<lparr>ru_pattern_value := option_or pat (ru_pattern_value r), ru_subcategory_id := sub,
                 ru_priority := (case rpa_priority p of Some (Some n) \<Rightarrow> n | _ \<Rightarrow> ru_priority r),
                 ru_active := (case rpa_active p of Some (Some b) \<Rightarrow> b | _ \<Rightarrow> ru_active r)\<rparr> in
      bindE (guardE (rpa_priority p \<noteq> Some None \<and> rpa_active p \<noteq> Some None) (DuplicateRule shown)) (\<lambda>_.
      bindE (as_duplicate shown (put_rule r' db)) (\<lambda>db'.
      Inr (to_rule_response db' r', db')))))))"

definition delete_rule :: "int \<Rightarrow> int \<Rightarrow> cat_db \<Rightarrow> cat_error + cat_db" where
  "delete_rule u i db =
     bindE (get_owned_rule i u db) (\<lambda>_. Inr (db\<lparr>cg_rules := filter (\<lambda>r. ru_id r \<noteq> i) (cg_rules db)\<rparr>))"

end
