(* ===== verification/CategorizationWorkers.thy ===== *)
theory CategorizationWorkers
  imports Taxonomy TransactionWorkers
begin

text \<open>
  categorization-service at run time: the provider that caches the rule engines (\<open>app/rule_engine_provider.py\<close>), the
  consumer that categorizes new transactions (\<open>app/workers/transaction_consumer.py\<close>), the one that learns from
  corrections (\<open>app/workers/category_corrected_consumer.py\<close>) and the synchronous endpoint
  (\<open>app/adapters/inbound/categorize_api.py\<close>).

  The provider reads the database at one instant, and a table scan without an order returns the rows in the order of
  the model's lists.  Each consumer is split where it writes: what it read before may be older than what it commits to.
\<close>

section \<open>The provider of rule engines\<close>

definition PROVIDER_TTL :: int where "PROVIDER_TTL = usec 60"
definition MAX_USER_CACHE :: nat where "MAX_USER_CACHE = 512"

record provider =
  pv_engine :: "engine option"
  pv_loaded_at :: "instant option"
  pv_fallback_subcategory_id :: int
  pv_fallback_category_id :: int
  pv_lookup :: sub_lookup
  pv_name_by_id :: "(int \<times> string) list"
  pv_key_by_id :: "(int \<times> string) list"
  pv_user_engines :: "(int \<times> engine list \<times> instant) list"

definition new_provider :: provider where
  "new_provider =
     \<lparr>pv_engine = None, pv_loaded_at = None, pv_fallback_subcategory_id = 0, pv_fallback_category_id = 0,
      pv_lookup = [], pv_name_by_id = [], pv_key_by_id = [], pv_user_engines = []\<rparr>"

definition semantic_key_for :: "int \<Rightarrow> provider \<Rightarrow> string option" where
  "semantic_key_for i pv = map_of (pv_key_by_id pv) i"

text \<open>A later subcategory of the same name replaces an earlier one.\<close>

definition subcategory_lookup :: "cat_db \<Rightarrow> sub_lookup" where
  "subcategory_lookup db =
     fold (\<lambda>s m. if category_exists (sb_category_id s) db then AList.update (sb_name s) (sb_id s, sb_category_id s) m else m)
       (cg_subcategories db) []"

definition subcategory_names :: "cat_db \<Rightarrow> (int \<times> string) list" where
  "subcategory_names db = map (\<lambda>s. (sb_id s, sb_name s)) (cg_subcategories db)"

definition subcategory_keys :: "cat_db \<Rightarrow> (int \<times> string) list" where
  "subcategory_keys db =
     List.map_filter (\<lambda>s. map_option (Pair (sb_id s)) (sb_semantic_key s)) (cg_subcategories db)"

definition text_or :: "string option \<Rightarrow> string \<Rightarrow> string" where
  "text_or v d = (case v of None \<Rightarrow> d | Some s \<Rightarrow> if s = [] then d else s)"

definition parse_confidence :: "string \<Rightarrow> cat_error + confidence" where
  "parse_confidence v =
     of_option CatValueError
       (List.find (\<lambda>c. confidence_value c = v) [HighConfidence, MediumConfidence, LowConfidence])"

definition aliases_of :: "int option \<Rightarrow> cat_db \<Rightarrow> string list" where
  "aliases_of merchant db =
     map al_normalized_value (filter (\<lambda>a. al_merchant_id a = option_or merchant 0) (cg_aliases db))"

definition persisted_seed_rule :: "cat_db \<Rightarrow> rule_row \<Rightarrow> int \<Rightarrow> cat_error + seed_rule" where
  "persisted_seed_rule db r category =
     bindE (parse_confidence (text_or (ru_confidence r) ''medium'')) (\<lambda>conf.
     Inr \<lparr>sr_target_subcategory_id = ru_subcategory_id r, sr_target_category_id = category,
          sr_match_field = text_or (ru_match_field r) ''description'',
          sr_operator = text_or (ru_match_operator r) ''contains'', sr_direction = text_or (ru_direction r) ''any'',
          sr_confidence = conf, sr_pattern = ru_pattern_value r, sr_aliases = aliases_of (ru_merchant_id r) db,
          sr_provider = ru_provider r, sr_country = ru_country r, sr_minimum_amount = ru_minimum_amount r,
          sr_maximum_amount = ru_maximum_amount r, sr_merchant_id = ru_merchant_id r\<rparr>)"

definition global_rules :: "cat_db \<Rightarrow> rule_row list" where
  "global_rules db = filter (\<lambda>r. ru_user_id r = None \<and> ru_active r \<and> ru_rule_key r \<noteq> None) (cg_rules db)"

fun persisted_seed_rules :: "cat_db \<Rightarrow> rule_row list \<Rightarrow> cat_error + seed_rule list" where
  "persisted_seed_rules db [] = Inr []"
| "persisted_seed_rules db (r # rs) =
     (case subcategory_by_id (ru_subcategory_id r) db of
        None \<Rightarrow> persisted_seed_rules db rs
      | Some s \<Rightarrow>
          bindE (persisted_seed_rule db r (sb_category_id s)) (\<lambda>p.
          bindE (persisted_seed_rules db rs) (\<lambda>ps. Inr (p # ps))))"

definition fallback_subcategory :: "cat_db \<Rightarrow> subcategory_row option" where
  "fallback_subcategory db =
     (case List.find (\<lambda>s. sb_semantic_key s = Some ''shopping_unspecified'') (cg_subcategories db) of
        None \<Rightarrow> List.find (\<lambda>s. sb_name s = ''Anden'') (cg_subcategories db)
      | s \<Rightarrow> s)"

definition reload :: "instant \<Rightarrow> cat_db \<Rightarrow> cat_error + provider" where
  "reload now db =
     bindE (persisted_seed_rules db (global_rules db)) (\<lambda>rules.
     Inr \<lparr>pv_engine = Some (constrained_engine rules), pv_loaded_at = Some now,
          pv_fallback_subcategory_id = (case fallback_subcategory db of None \<Rightarrow> 0 | Some s \<Rightarrow> sb_id s),
          pv_fallback_category_id = (case fallback_subcategory db of None \<Rightarrow> 0 | Some s \<Rightarrow> sb_category_id s),
          pv_lookup = subcategory_lookup db, pv_name_by_id = subcategory_names db, pv_key_by_id = subcategory_keys db,
          pv_user_engines = []\<rparr>)"

definition get_global :: "instant \<Rightarrow> cat_db \<Rightarrow> provider \<Rightarrow> cat_error + (engine \<times> provider)" where
  "get_global now db pv =
     (case (pv_engine pv, pv_loaded_at pv) of
        (Some e, Some t) \<Rightarrow>
          if now - t < PROVIDER_TTL then Inr (e, pv)
          else bindE (reload now db) (\<lambda>pv'. Inr (the (pv_engine pv'), pv'))
      | _ \<Rightarrow> bindE (reload now db) (\<lambda>pv'. Inr (the (pv_engine pv'), pv')))"

text \<open>\<open>itertools.groupby\<close>: runs of equal keys.\<close>

function group_runs :: "('a \<Rightarrow> 'k) \<Rightarrow> 'a list \<Rightarrow> 'a list list" where
  "group_runs f [] = []"
| "group_runs f (x # xs) =
     (x # takeWhile (\<lambda>y. f y = f x) xs) # group_runs f (dropWhile (\<lambda>y. f y = f x) xs)"
  by pat_completeness auto
termination
  by (relation "measure (length \<circ> snd)") (auto simp: le_imp_less_Suc length_dropWhile_le)

definition matchable :: "provider \<Rightarrow> rule_row \<Rightarrow> bool" where
  "matchable pv r \<longleftrightarrow>
     ru_active r \<and> ru_pattern_type r \<in> {KeywordPattern, MerchantPattern} \<and>
     map_of (pv_name_by_id pv) (ru_subcategory_id r) \<noteq> None"

definition rule_mapping :: "provider \<Rightarrow> rule_row \<Rightarrow> string \<times> string" where
  "rule_mapping pv r = (ru_pattern_value r, the (map_of (pv_name_by_id pv) (ru_subcategory_id r)))"

definition load_user_engines :: "int \<Rightarrow> cat_db \<Rightarrow> provider \<Rightarrow> engine list" where
  "load_user_engines u db pv =
     map (\<lambda>group. rule_engine (map (rule_mapping pv) group) (pv_lookup pv))
       (group_runs ru_priority (filter (matchable pv) (find_by_user u db)))"

text \<open>\<open>min(d, key=...)\<close>: the first of the oldest entries.\<close>

fun oldest_user :: "(int \<times> engine list \<times> instant) list \<Rightarrow> int option" where
  "oldest_user [] = None"
| "oldest_user ((u, es, t) # xs) = Some (if list_all (\<lambda>(_, _, t'). t \<le> t') xs then u else the (oldest_user xs))"

definition cache_user :: "int \<Rightarrow> engine list \<Rightarrow> instant \<Rightarrow> provider \<Rightarrow> provider" where
  "cache_user u es now pv =
     (let cache = pv_user_engines pv;
          room = (if MAX_USER_CACHE \<le> length cache
                  then (case oldest_user cache of None \<Rightarrow> cache | Some v \<Rightarrow> AList.delete v cache) else cache)
      in pv\<lparr>pv_user_engines := AList.update u (es, now) room\<rparr>)"

definition get_user_engines :: "int \<Rightarrow> instant \<Rightarrow> cat_db \<Rightarrow> provider \<Rightarrow> engine list \<times> provider" where
  "get_user_engines u now db pv =
     (let es = load_user_engines u db pv in
      case map_of (pv_user_engines pv) u of
        Some (cached, t) \<Rightarrow> if now - t < PROVIDER_TTL then (cached, pv) else (es, cache_user u es now pv)
      | None \<Rightarrow> (es, cache_user u es now pv))"

definition provider_get :: "int option \<Rightarrow> instant \<Rightarrow> cat_db \<Rightarrow> provider \<Rightarrow> cat_error + (engine \<times> provider)" where
  "provider_get user_id now db pv =
     bindE (get_global now db pv) (\<lambda>(global_engine, pv1).
     case user_id of
       None \<Rightarrow> Inr (global_engine, pv1)
     | Some u \<Rightarrow>
         (let (user_engines, pv2) = get_user_engines u now db pv1
          in Inr (if user_engines = [] then global_engine else TieredEngine (user_engines @ [global_engine]), pv2)))"

definition invalidate_user :: "int \<Rightarrow> provider \<Rightarrow> provider" where
  "invalidate_user u pv = pv\<lparr>pv_user_engines := AList.delete u (pv_user_engines pv)\<rparr>"

section \<open>The synchronous endpoint\<close>

definition MAX_BATCH_ITEMS :: nat where "MAX_BATCH_ITEMS = 500"

definition build_categorizer :: "engine \<Rightarrow> provider \<Rightarrow> categorizer" where
  "build_categorizer e pv =
     \<lparr>cs_engine = e, cs_fallback_subcategory_id = pv_fallback_subcategory_id pv,
      cs_fallback_category_id = pv_fallback_category_id pv, cs_ml = None, cs_llm = None\<rparr>"

definition with_target_key :: "provider \<Rightarrow> categorize_response \<Rightarrow> categorize_response" where
  "with_target_key pv r = r\<lparr>rs_target_key := semantic_key_for (rs_subcategory_id r) pv\<rparr>"

definition categorize_single ::
  "instant \<Rightarrow> categorize_request \<Rightarrow> cat_db \<Rightarrow> provider \<Rightarrow> cat_error + (categorize_response \<times> provider)" where
  "categorize_single now rq db pv =
     bindE (provider_get None now db pv) (\<lambda>(e, pv').
     Inr (with_target_key pv' (categorize (build_categorizer e pv') rq), pv'))"

text \<open>The length of a batch is checked by the request validation.\<close>

definition categorize_many ::
  "instant \<Rightarrow> categorize_request list \<Rightarrow> cat_db \<Rightarrow> provider \<Rightarrow> cat_error + (categorize_response list \<times> provider)" where
  "categorize_many now rqs db pv =
     bindE (guardE (rqs \<noteq> [] \<and> length rqs \<le> MAX_BATCH_ITEMS) CatValueError) (\<lambda>_.
     bindE (provider_get None now db pv) (\<lambda>(e, pv').
     Inr (map (with_target_key pv') (categorize_batch (build_categorizer e pv') rqs), pv')))"

section \<open>The inbox\<close>

definition CREATED_QUEUE :: string where "CREATED_QUEUE = ''categorization.transaction_created''"
definition CORRECTED_QUEUE :: string where "CORRECTED_QUEUE = ''categorization.category_corrected''"

definition cat_is_duplicate :: "string \<Rightarrow> string \<Rightarrow> cat_db \<Rightarrow> bool" where
  "cat_is_duplicate queue message_id db \<longleftrightarrow>
     list_ex (\<lambda>p. pe_message_id p = message_id \<and> pe_consumer_name p = queue) (cg_processed db)"

text \<open>An event without an id, or with an empty or null one, is not deduplicated; another type fails in the query.\<close>

definition message_id_of :: "dict \<Rightarrow> string option" where
  "message_id_of body =
     (case dget_or body ''correlation_id'' (JStr []) of
        JStr m \<Rightarrow> Some m | v \<Rightarrow> if truthy v then None else Some [])"

definition event_type_of :: "dict \<Rightarrow> string option" where
  "event_type_of body = (case dget_or body ''event_type'' (JStr []) of JStr t \<Rightarrow> Some t | _ \<Rightarrow> None)"

text \<open>\<open>None\<close>: the columns refuse the row.\<close>

definition cat_inbox_row :: "instant \<Rightarrow> string \<Rightarrow> dict \<Rightarrow> processed_row option" where
  "cat_inbox_row now queue body =
     (case (message_id_of body, event_type_of body) of
        (Some m, Some t) \<Rightarrow>
          if length m \<le> 36 \<and> length t \<le> 100
          then Some \<lparr>pe_message_id = m, pe_consumer_name = queue, pe_event_type = t, pe_processed_at = now\<rparr> else None
      | _ \<Rightarrow> None)"

text \<open>
  The commit: an integrity error that names the inbox table, a duplicate or a null event type, is taken for a
  duplicate, rolled back and acknowledged.
\<close>

definition cat_commit :: "instant \<Rightarrow> string \<Rightarrow> dict \<Rightarrow> cat_db \<Rightarrow> cat_db \<Rightarrow> handler_result \<times> cat_db" where
  "cat_commit now queue body db db' =
     (case message_id_of body of
        None \<Rightarrow> (HandlerError, db)
      | Some m \<Rightarrow>
          if m = [] then (Handled, db')
          else if dget_or body ''event_type'' (JStr []) = JNull then (Handled, db)
          else
            (case cat_inbox_row now queue body of
               None \<Rightarrow> (HandlerError, db)
             | Some p \<Rightarrow>
                 if cat_is_duplicate queue m db then (Handled, db)
                 else (Handled, db'\<lparr>cg_processed := cg_processed db' @ [p]\<rparr>)))"

definition CLEANUP_DAYS :: int where "CLEANUP_DAYS = 30"

text \<open>The sweep of the inbox at the start of the consumer, with its guard on the share of the rows.\<close>

definition cleanup_inbox :: "instant \<Rightarrow> cat_db \<Rightarrow> cat_db" where
  "cleanup_inbox now db =
     (let old = (\<lambda>p. pe_processed_at p < now - usec (CLEANUP_DAYS * 86400));
          total = length (cg_processed db); to_delete = length (filter old (cg_processed db))
      in if 0 < total \<and> 0 < to_delete \<and> fl (9 / 10) < fdiv (of_nat to_delete) (of_nat total) then db
         else db\<lparr>cg_processed := filter (\<lambda>p. \<not> old p) (cg_processed db)\<rparr>)"

section \<open>The consumer of created transactions\<close>

definition MODEL_VERSION :: string where "MODEL_VERSION = ''rules-keyword-v1''"

record created_fields =
  cf_transaction_id :: int
  cf_description :: string
  cf_amount :: rat
  cf_user_id :: "int option"
  cf_direction :: tx_direction

text \<open>\<open>float(v)\<close> on a number or a numeral.\<close>

definition py_float :: "json \<Rightarrow> rat option" where
  "py_float v = (case v of JStr s \<Rightarrow> map_option fl (parse_decimal s) | _ \<Rightarrow> map_option (\<lambda>n. fl (of_int n)) (py_int v))"

text \<open>\<open>None\<close>: a conversion, the request validation or a column refuses the payload, which raises.\<close>

definition created_fields_of :: "dict \<Rightarrow> created_fields option" where
  "created_fields_of body =
     (case (py_int (dget_or body ''transaction_id'' JNull), dget_or body ''description'' (JStr []),
            py_float (dget_or body ''amount'' (JStr ''0'')), dget_or body ''user_id'' JNull,
            direction_from_transaction_type (dget_or body ''transaction_type'' JNull)) of
        (Some i, JStr desc, Some a, user_id, Some dir) \<Rightarrow>
          (let made = (\<lambda>u. \<lparr>cf_transaction_id = i, cf_description = desc, cf_amount = a, cf_user_id = u, cf_direction = dir\<rparr>)
           in if user_id = JNull then Some (made None) else map_option (\<lambda>u. made (Some u)) (py_int user_id))
      | _ \<Rightarrow> None)"

definition created_request :: "created_fields \<Rightarrow> categorize_request" where
  "created_request f =
     \<lparr>rq_description = cf_description f, rq_amount = cf_amount f, rq_direction = cf_direction f, rq_merchant = None,
      rq_counterparty = None, rq_provider = None, rq_country = None\<rparr>"

text \<open>The response is turned back into a result; its tier and confidence are values of the enums.\<close>

definition result_of_response :: "categorize_response \<Rightarrow> cat_error + cz_result" where
  "result_of_response rs =
     bindE (of_option CatValueError
       (List.find (\<lambda>t. tier_value t = rs_tier rs) [TierRule, TierMl, TierLlm, TierManual, TierFallback])) (\<lambda>t.
     bindE (parse_confidence (rs_confidence rs)) (\<lambda>c.
     Inr \<lparr>cz_category_id = rs_category_id rs, cz_subcategory_id = rs_subcategory_id rs, cz_merchant_id = rs_merchant_id rs,
          cz_tier = t, cz_confidence = c\<rparr>))"

definition categorize_created ::
  "instant \<Rightarrow> created_fields \<Rightarrow> cat_db \<Rightarrow> provider \<Rightarrow> cat_error + (cz_result \<times> provider)" where
  "categorize_created now f db pv =
     bindE (provider_get (cf_user_id f) now db pv) (\<lambda>(e, pv').
     bindE (result_of_response (categorize (build_categorizer e pv') (created_request f))) (\<lambda>r.
     Inr (r, pv')))"

text \<open>The name of an id, empty for the id zero and for an unknown one.\<close>

definition subcategory_name_of :: "int \<Rightarrow> cat_db \<Rightarrow> string" where
  "subcategory_name_of i db = (if i = 0 then [] else (case subcategory_by_id i db of None \<Rightarrow> [] | Some s \<Rightarrow> sb_name s))"

definition category_name_of :: "int \<Rightarrow> cat_db \<Rightarrow> string" where
  "category_name_of i db = (if i = 0 then [] else (case category_by_id i db of None \<Rightarrow> [] | Some c \<Rightarrow> ct_name c))"

definition result_record :: "int \<Rightarrow> cz_result \<Rightarrow> result_row" where
  "result_record i r =
     \<lparr>re_transaction_id = i, re_category_id = cz_category_id r, re_subcategory_id = cz_subcategory_id r,
      re_merchant_id = cz_merchant_id r, re_tier = cz_tier r, re_confidence = cz_confidence r, re_model_version = MODEL_VERSION\<rparr>"

definition categorized_event :: "int \<Rightarrow> cz_result \<Rightarrow> cat_db \<Rightarrow> cat_event" where
  "categorized_event i r db =
     CategorizedEvent
       \<lparr>tc_transaction_id = i, tc_category_id = cz_category_id r, tc_category_name = category_name_of (cz_category_id r) db,
        tc_subcategory_id = cz_subcategory_id r, tc_subcategory_name = subcategory_name_of (cz_subcategory_id r) db,
        tc_tier = tier_value (cz_tier r), tc_confidence = confidence_value (cz_confidence r)\<rparr>
       (cz_merchant_id r) MODEL_VERSION"

definition save_result :: "instant \<Rightarrow> result_row \<Rightarrow> cat_event \<Rightarrow> cat_db \<Rightarrow> cat_db" where
  "save_result now r ev db =
     cat_outbox_add now ev ''transaction'' (re_transaction_id r) (db\<lparr>cg_results := cg_results db @ [r]\<rparr>)"

text \<open>The reading part: the audit row and the event a delivery is going to write.\<close>

definition created_work :: "instant \<Rightarrow> dict \<Rightarrow> cat_db \<Rightarrow> provider \<Rightarrow> (result_row \<times> cat_event \<times> provider) option" where
  "created_work now body db pv =
     (case created_fields_of body of
        None \<Rightarrow> None
      | Some f \<Rightarrow>
          (case categorize_created now f db pv of
             Inl _ \<Rightarrow> None
           | Inr (r, pv') \<Rightarrow>
               Some (result_record (cf_transaction_id f) r, categorized_event (cf_transaction_id f) r db, pv')))"

definition created_commit :: "instant \<Rightarrow> dict \<Rightarrow> result_row \<Rightarrow> cat_event \<Rightarrow> cat_db \<Rightarrow> handler_result \<times> cat_db" where
  "created_commit now body r ev db = cat_commit now CREATED_QUEUE body db (save_result now r ev db)"

definition created_handle :: "bool \<Rightarrow> instant \<Rightarrow> dict \<Rightarrow> cat_db \<Rightarrow> provider \<Rightarrow> handler_result \<times> cat_db \<times> provider" where
  "created_handle up now body db pv =
     (case message_id_of body of
        None \<Rightarrow> (HandlerError, db, pv)
      | Some m \<Rightarrow>
          if \<not> up then (HandlerError, db, pv)
          else if m \<noteq> [] \<and> cat_is_duplicate CREATED_QUEUE m db then (Handled, db, pv)
          else
            (case created_work now body db pv of
               None \<Rightarrow> (HandlerError, db, pv)
             | Some (r, ev, pv') \<Rightarrow> (let (res, db') = created_commit now body r ev db in (res, db', pv'))))"

section \<open>The consumer of corrections\<close>

definition LEARNED_RULE_PRIORITY :: int where "LEARNED_RULE_PRIORITY = 10"

datatype learn_plan =
    Unlearnable
  | CreateLearned int string int
  | RetargetLearned int int

text \<open>The reading part; \<open>None\<close> is an exception.\<close>

definition learn_plan_of :: "dict \<Rightarrow> cat_db \<Rightarrow> learn_plan option" where
  "learn_plan_of body db =
     (let user_id = dget_or body ''user_id'' JNull; subcategory_id = dget_or body ''subcategory_id'' JNull;
          description = dget_or body ''description'' (JStr []) in
      case (if truthy description then (case description of JStr d \<Rightarrow> Some d | _ \<Rightarrow> None) else Some []) of
        None \<Rightarrow> None
      | Some d \<Rightarrow>
          (let pat = normalize_merchant_pattern d in
           if \<not> truthy user_id \<or> pat = [] \<or> \<not> truthy subcategory_id then Some Unlearnable
           else
             (case (py_int user_id, py_int subcategory_id) of
                (Some u, Some s) \<Rightarrow>
                  if subcategory_by_id s db = None then Some Unlearnable
                  else
                    (case find_by_user_and_pattern u MerchantPattern pat db of
                       Inl _ \<Rightarrow> None
                     | Inr None \<Rightarrow> Some (CreateLearned u pat s)
                     | Inr (Some r) \<Rightarrow> Some (RetargetLearned (ru_id r) s))
              | _ \<Rightarrow> None)))"

fun learn :: "learn_plan \<Rightarrow> cat_db \<Rightarrow> cat_error + cat_db" where
  "learn Unlearnable db = Inr db"
| "learn (CreateLearned u pat s) db =
     bindE (insert_rule (Some u) LEARNED_RULE_PRIORITY MerchantPattern pat s True db) (\<lambda>(r, db'). Inr db')"
| "learn (RetargetLearned i s) db =
     (case rule_by_id i db of
        None \<Rightarrow> Inl CatValueError
      | Some r \<Rightarrow> put_rule (r\<lparr>ru_subcategory_id := s, ru_active := True\<rparr>) db)"

definition corrected_commit :: "instant \<Rightarrow> dict \<Rightarrow> learn_plan \<Rightarrow> cat_db \<Rightarrow> handler_result \<times> cat_db" where
  "corrected_commit now body plan db =
     (case learn plan db of
        Inl _ \<Rightarrow> (HandlerError, db)
      | Inr db' \<Rightarrow> cat_commit now CORRECTED_QUEUE body db db')"

definition corrected_handle :: "bool \<Rightarrow> instant \<Rightarrow> dict \<Rightarrow> cat_db \<Rightarrow> handler_result \<times> cat_db" where
  "corrected_handle up now body db =
     (case message_id_of body of
        None \<Rightarrow> (HandlerError, db)
      | Some m \<Rightarrow>
          if \<not> up then (HandlerError, db)
          else if m \<noteq> [] \<and> cat_is_duplicate CORRECTED_QUEUE m db then (Handled, db)
          else (case learn_plan_of body db of None \<Rightarrow> (HandlerError, db) | Some plan \<Rightarrow> corrected_commit now body plan db))"

end
