(* ===== verification/RuleProofs.thy ===== *)
theory RuleProofs
  imports CategorizationWorkers
begin

text \<open>
  What the rule engines decide and how fresh they are: longest match within an engine, the tiers of a user's rules,
  the age of what the provider hands out, and the path from a correction to the next categorization.
\<close>

section \<open>Stable sorting and the longest match\<close>

lemma find_filter: "List.find P xs = (case filter P xs of [] \<Rightarrow> None | x # _ \<Rightarrow> Some x)"
  by (induction xs) auto

lemma find_eq_hd_filter: "List.find P xs = (if filter P xs = [] then None else Some (hd (filter P xs)))"
  by (simp add: find_filter split: list.splits)

lemma hd_insort_key: "hd (insort_key f x ys) = (if ys = [] \<or> f x \<le> f (hd ys) then x else hd ys)"
  by (cases ys) auto

text \<open>The head of a stably sorted list is the first minimal element.\<close>

lemma hd_sort_key:
  "zs \<noteq> [] \<Longrightarrow> List.find (\<lambda>x. list_all (\<lambda>y. f x \<le> f y) zs) zs = Some (hd (sort_key f zs))"
proof (induction zs)
  case (Cons z zs)
  show ?case
  proof (cases "zs = []")
    case False
    let ?m = "hd (sort_key f zs)"
    have m: "List.find (\<lambda>x. list_all (\<lambda>y. f x \<le> f y) zs) zs = Some ?m" using Cons.IH False by simp
    then have min: "list_all (\<lambda>y. f ?m \<le> f y) zs" and mem: "?m \<in> set zs" by (auto dest: find_Some_mem)
    have nonempty: "sort_key f zs \<noteq> []" using False by (metis length_0_conv length_sort)
    show ?thesis
    proof (cases "f z \<le> f ?m")
      case True
      then have "list_all (\<lambda>y. f z \<le> f y) zs" using min by (auto simp: list_all_iff intro: order_trans)
      then show ?thesis using True nonempty by (simp add: hd_insort_key)
    next
      case not_le: False
      have "\<not> list_all (\<lambda>y. f z \<le> f y) zs" using not_le mem by (auto simp: list_all_iff)
      moreover have "List.find (\<lambda>x. f x \<le> f z \<and> list_all (\<lambda>y. f x \<le> f y) zs) zs =
          List.find (\<lambda>x. list_all (\<lambda>y. f x \<le> f y) zs) zs"
      proof (rule find_cong [OF refl])
        fix x assume "x \<in> set zs"
        show "(f x \<le> f z \<and> list_all (\<lambda>y. f x \<le> f y) zs) = list_all (\<lambda>y. f x \<le> f y) zs"
          using not_le mem by (auto simp: list_all_iff intro: order_trans [of "f x" "f ?m"])
      qed
      ultimately show ?thesis using m not_le nonempty by (simp add: hd_insort_key)
    qed
  qed simp
qed simp

lemma find_sort_key:
  "List.find P (sort_key f xs) =
     List.find (\<lambda>x. list_all (\<lambda>y. f x \<le> f y) (filter P xs)) (filter P xs)"
proof (cases "filter P xs = []")
  case True
  then show ?thesis by (simp add: find_eq_hd_filter filter_sort)
next
  case False
  then have "sort_key f (filter P xs) \<noteq> []" by (metis length_0_conv length_sort)
  then show ?thesis using hd_sort_key [OF False, of f] by (simp add: find_eq_hd_filter filter_sort)
qed

section \<open>The keyword engine\<close>

definition keyword_hit :: "sub_lookup \<Rightarrow> string \<Rightarrow> string \<times> string \<Rightarrow> bool" where
  "keyword_hit lookup desc kv \<longleftrightarrow> contains (fst kv) desc \<and> map_of lookup (snd kv) \<noteq> None"

definition hit_result :: "sub_lookup \<Rightarrow> string \<times> string \<Rightarrow> cz_result" where
  "hit_result lookup kv = keyword_result (the (map_of lookup (snd kv)))"

lemma match_keywords_find:
  "match_keywords kws lookup desc = map_option (hit_result lookup) (List.find (keyword_hit lookup desc) kws)"
  by (induction kws lookup desc rule: match_keywords.induct)
    (auto simp: keyword_hit_def hit_result_def split: option.splits)

text \<open>
  Longest match first: of the keywords that occur in the normalised description and name a known subcategory, the
  keyword engine follows a longest one, and among equally long ones the one given first; without such a keyword
  it gives no result.
\<close>

theorem longest_keyword_wins:
  "engine_match (rule_engine keyword_mappings lookup) rq =
     (let hits = filter (keyword_hit lookup (normalize_for_matching (rq_description rq)))
                   (map (\<lambda>(k, n). (normalize_for_matching k, n)) keyword_mappings)
      in map_option (hit_result lookup)
           (List.find (\<lambda>kv. list_all (\<lambda>kv'. length (fst kv') \<le> length (fst kv)) hits) hits))"
  by (simp add: rule_engine_def match_keywords_find find_sort_key Let_def)

section \<open>The age of the engines\<close>

text \<open>
  \<open>H t\<close> is the content of the database at time \<open>t\<close>.  A run of the provider is a sequence of calls in the order of
  time; a reload that raises leaves it as it was.
\<close>

inductive provider_run :: "(instant \<Rightarrow> cat_db) \<Rightarrow> instant \<Rightarrow> provider \<Rightarrow> bool" for H where
  started: "provider_run H t new_provider"
| asked: "provider_run H t pv \<Longrightarrow> t \<le> now \<Longrightarrow> provider_get user_id now (H now) pv = Inr (e, pv') \<Longrightarrow> provider_run H now pv'"
| invalidated: "provider_run H t pv \<Longrightarrow> t \<le> now \<Longrightarrow> provider_run H now (invalidate_user u pv)"

text \<open>The engine a provider without a cache would build: the global one from \<open>pv0\<close>, the user's rules from \<open>db\<close>.\<close>

definition layered_engine :: "int option \<Rightarrow> provider \<Rightarrow> cat_db \<Rightarrow> engine" where
  "layered_engine user_id pv0 db =
     (let g = the (pv_engine pv0) in
      case user_id of
        None \<Rightarrow> g
      | Some u \<Rightarrow> (let es = load_user_engines u db pv0 in if es = [] then g else TieredEngine (es @ [g])))"

definition same_taxonomy :: "provider \<Rightarrow> provider \<Rightarrow> bool" where
  "same_taxonomy pv pv0 \<longleftrightarrow> pv_user_engines pv0 = [] \<and> pv\<lparr>pv_user_engines := []\<rparr> = pv0"

definition cache_fresh :: "(instant \<Rightarrow> cat_db) \<Rightarrow> instant \<Rightarrow> provider \<Rightarrow> bool" where
  "cache_fresh H t pv \<longleftrightarrow>
     (pv = new_provider \<or>
      (\<exists>tl pv0. tl \<le> t \<and> reload tl (H tl) = Inr pv0 \<and> same_taxonomy pv pv0 \<and>
         (\<forall>u es tu. map_of (pv_user_engines pv) u = Some (es, tu) \<longrightarrow>
            tl \<le> tu \<and> tu \<le> t \<and> es = load_user_engines u (H tu) pv0)))"

lemma load_user_engines_same: "same_taxonomy pv pv0 \<Longrightarrow> load_user_engines u db pv = load_user_engines u db pv0"
proof -
  assume s: "same_taxonomy pv pv0"
  have eq: "pv_name_by_id pv = pv_name_by_id pv0" "pv_lookup pv = pv_lookup pv0"
    using s by (auto simp: same_taxonomy_def)
  have "matchable pv = matchable pv0" "rule_mapping pv = rule_mapping pv0"
    by (simp_all add: matchable_def rule_mapping_def eq fun_eq_iff)
  then show ?thesis by (simp add: load_user_engines_def eq)
qed

lemma same_taxonomy_engines:
  "same_taxonomy pv pv0 \<Longrightarrow> pv_engine pv = pv_engine pv0 \<and> pv_loaded_at pv = pv_loaded_at pv0"
  by (auto simp: same_taxonomy_def)

lemma reload_shape:
  "reload t db = Inr pv0 \<Longrightarrow> pv_loaded_at pv0 = Some t \<and> pv_user_engines pv0 = [] \<and> (\<exists>g. pv_engine pv0 = Some g)"
  by (auto simp: reload_def bindE_eq_Inr)

text \<open>The eviction and the update of the cache keep only entries that were there before, and the new one.\<close>

lemma map_of_delete_Some: "map_of (AList.delete v m) u = Some x \<Longrightarrow> map_of m u = Some x"
  by (metis delete_conv' fun_upd_apply option.distinct(1))

lemma cache_user_Some:
  "map_of (pv_user_engines (cache_user u es now pv)) v = Some x \<Longrightarrow>
     v = u \<and> x = (es, now) \<or> map_of (pv_user_engines pv) v = Some x"
  by (auto simp: cache_user_def Let_def update_conv' split: if_splits option.splits dest: map_of_delete_Some)

lemma cache_user_same: "same_taxonomy pv pv0 \<Longrightarrow> same_taxonomy (cache_user u es now pv) pv0"
  by (simp add: same_taxonomy_def cache_user_def Let_def)

lemma invalidate_user_same: "same_taxonomy pv pv0 \<Longrightarrow> same_taxonomy (invalidate_user u pv) pv0"
  by (simp add: same_taxonomy_def invalidate_user_def)

text \<open>The global engine comes from a state of the last minute.\<close>

lemma get_global_fresh:
  assumes f: "cache_fresh H t pv" and le: "t \<le> now" and g: "get_global now (H now) pv = Inr (e, pv1)"
  obtains tl pv0 where "now - PROVIDER_TTL < tl" "tl \<le> now" "reload tl (H tl) = Inr pv0" "same_taxonomy pv1 pv0"
    "e = the (pv_engine pv0)" "cache_fresh H now pv1"
    "\<forall>u es tu. map_of (pv_user_engines pv1) u = Some (es, tu) \<longrightarrow>
       tl \<le> tu \<and> tu \<le> now \<and> es = load_user_engines u (H tu) pv0"
proof -
  have ttl: "0 < PROVIDER_TTL" by (simp add: PROVIDER_TTL_def)
  note result = that
  have reloaded: thesis if r: "reload now (H now) = Inr pv1" "e = the (pv_engine pv1)"
  proof (rule result)
    show same: "same_taxonomy pv1 pv1" using reload_shape [OF r(1)] by (simp add: same_taxonomy_def)
    show "cache_fresh H now pv1"
      using r same reload_shape [OF r(1)] unfolding cache_fresh_def by (intro disjI2 exI [of _ now] exI [of _ pv1]) simp
    show "\<forall>u es tu. map_of (pv_user_engines pv1) u = Some (es, tu) \<longrightarrow>
        now \<le> tu \<and> tu \<le> now \<and> es = load_user_engines u (H tu) pv1"
      using reload_shape [OF r(1)] by simp
  qed (use r ttl reload_shape [OF r(1)] in auto)
  show ?thesis
  proof (cases "pv_engine pv")
    case None
    then show ?thesis using g reloaded by (auto simp: get_global_def bindE_eq_Inr)
  next
    case (Some e0)
    then have "pv \<noteq> new_provider" by (auto simp: new_provider_def)
    then obtain tl pv0 where w: "tl \<le> t" "reload tl (H tl) = Inr pv0" "same_taxonomy pv pv0"
      "\<And>u es tu. map_of (pv_user_engines pv) u = Some (es, tu) \<Longrightarrow> tl \<le> tu \<and> tu \<le> t \<and> es = load_user_engines u (H tu) pv0"
      using f unfolding cache_fresh_def by blast
    have loaded: "pv_loaded_at pv = Some tl"
      using same_taxonomy_engines [OF w(3)] reload_shape [OF w(2)] by simp
    show ?thesis
    proof (cases "now - tl < PROVIDER_TTL")
      case True
      then have e: "e = e0" "pv1 = pv" using g Some loaded by (auto simp: get_global_def)
      show ?thesis
      proof (rule result)
        show "same_taxonomy pv1 pv0" using w e by simp
        show "e = the (pv_engine pv0)" using same_taxonomy_engines [OF w(3)] Some e by (metis option.sel)
        show "cache_fresh H now pv1"
          unfolding cache_fresh_def e using w le by (intro disjI2 exI [of _ tl] exI [of _ pv0]) force
        show "\<forall>u es tu. map_of (pv_user_engines pv1) u = Some (es, tu) \<longrightarrow>
            tl \<le> tu \<and> tu \<le> now \<and> es = load_user_engines u (H tu) pv0"
          using w(4) e le by force
      qed (use True w le in auto)
    next
      case False
      then show ?thesis using g Some loaded reloaded by (auto simp: get_global_def bindE_eq_Inr)
    qed
  qed
qed

lemma provider_get_fresh:
  assumes f: "cache_fresh H t pv" and le: "t \<le> now" and g: "provider_get user_id now (H now) pv = Inr (e, pv')"
  shows "cache_fresh H now pv'"
    and "\<exists>tl tu pv0. now - PROVIDER_TTL < tl \<and> tl \<le> tu \<and> tu \<le> now \<and> reload tl (H tl) = Inr pv0 \<and>
       e = layered_engine user_id pv0 (H tu)"
proof -
  have both: "cache_fresh H now pv' \<and> (\<exists>tl tu pv0. now - PROVIDER_TTL < tl \<and> tl \<le> tu \<and> tu \<le> now \<and>
       reload tl (H tl) = Inr pv0 \<and> e = layered_engine user_id pv0 (H tu))"
  proof -
    obtain ge pv1 where gg: "get_global now (H now) pv = Inr (ge, pv1)" using g by (auto simp: provider_get_def bindE_eq_Inr)
    obtain tl pv0 where w: "now - PROVIDER_TTL < tl" "tl \<le> now" "reload tl (H tl) = Inr pv0" "same_taxonomy pv1 pv0"
      "ge = the (pv_engine pv0)" "cache_fresh H now pv1"
      "\<forall>u es tu. map_of (pv_user_engines pv1) u = Some (es, tu) \<longrightarrow> tl \<le> tu \<and> tu \<le> now \<and> es = load_user_engines u (H tu) pv0"
      by (rule get_global_fresh [OF f le gg])
    show ?thesis
    proof (cases user_id)
      case None
      then have "e = ge" "pv' = pv1" using g gg by (auto simp: provider_get_def)
      then show ?thesis using w None by (force simp: layered_engine_def)
    next
      case (Some u)
      obtain es pv2 where us: "get_user_engines u now (H now) pv1 = (es, pv2)" by fastforce
      have e: "e = (if es = [] then ge else TieredEngine (es @ [ge]))" "pv' = pv2"
        using g gg us Some by (auto simp: provider_get_def)
      have load: "load_user_engines u (H now) pv1 = load_user_engines u (H now) pv0"
        by (rule load_user_engines_same [OF w(4)])
      have fresh2: "cache_fresh H now (cache_user u (load_user_engines u (H now) pv1) now pv1)"
        unfolding cache_fresh_def
      proof (intro disjI2 exI [of _ tl] exI [of _ pv0] conjI allI impI)
        fix v es' tu assume "map_of (pv_user_engines (cache_user u (load_user_engines u (H now) pv1) now pv1)) v = Some (es', tu)"
        then consider "v = u" "es' = load_user_engines u (H now) pv0" "tu = now"
          | "map_of (pv_user_engines pv1) v = Some (es', tu)"
          using cache_user_Some [of u _ now pv1 v "(es', tu)"] load by fastforce
        then have "tl \<le> tu \<and> tu \<le> now \<and> es' = load_user_engines v (H tu) pv0"
        proof cases
          case 1
          then show ?thesis using w(2) by simp
        next
          case 2
          then show ?thesis using w(7) by blast
        qed
        then show "tl \<le> tu" "tu \<le> now" "es' = load_user_engines v (H tu) pv0" by simp_all
      qed (use w(2, 3) cache_user_same [OF w(4)] in simp_all)
      have "(\<exists>tu. map_of (pv_user_engines pv1) u = Some (es, tu)) \<and> pv2 = pv1 \<or>
          es = load_user_engines u (H now) pv1 \<and> pv2 = cache_user u es now pv1"
        using us unfolding get_user_engines_def Let_def
        by (cases "map_of (pv_user_engines pv1) u") (auto split: if_splits)
      then consider tu where "map_of (pv_user_engines pv1) u = Some (es, tu)" "pv2 = pv1"
        | "es = load_user_engines u (H now) pv1" "pv2 = cache_user u es now pv1" by blast
      then show ?thesis
      proof cases
        case 1
        then have x: "tl \<le> tu" "tu \<le> now" "es = load_user_engines u (H tu) pv0" using w(7) by blast+
        have "layered_engine user_id pv0 (H tu) = e"
          by (simp only: layered_engine_def Some option.case Let_def x(3) [symmetric] w(5) [symmetric] e(1))
        with x have "tl \<le> tu" "tu \<le> now" "e = layered_engine user_id pv0 (H tu)" by blast+
        then show ?thesis using w 1 e by blast
      next
        case 2
        then have "e = layered_engine user_id pv0 (H now)" using e load w(5) Some by (simp add: layered_engine_def)
        then show ?thesis using w 2 e fresh2 by blast
      qed
    qed
  qed
  then show "cache_fresh H now pv'"
    and "\<exists>tl tu pv0. now - PROVIDER_TTL < tl \<and> tl \<le> tu \<and> tu \<le> now \<and> reload tl (H tl) = Inr pv0 \<and>
       e = layered_engine user_id pv0 (H tu)" by blast+
qed

lemma cache_fresh_invalidate: "cache_fresh H t pv \<Longrightarrow> t \<le> now \<Longrightarrow> cache_fresh H now (invalidate_user u pv)"
proof -
  assume f: "cache_fresh H t pv" and le: "t \<le> now"
  show ?thesis
  proof (cases "pv = new_provider")
    case True
    then show ?thesis by (simp add: cache_fresh_def invalidate_user_def new_provider_def)
  next
    case False
    then obtain tl pv0 where w: "tl \<le> t" "reload tl (H tl) = Inr pv0" "same_taxonomy pv pv0"
      "\<And>u es tu. map_of (pv_user_engines pv) u = Some (es, tu) \<Longrightarrow> tl \<le> tu \<and> tu \<le> t \<and> es = load_user_engines u (H tu) pv0"
      using f unfolding cache_fresh_def by blast
    show ?thesis
      unfolding cache_fresh_def
    proof (intro disjI2 exI [of _ tl] exI [of _ pv0] conjI allI impI)
      fix v es tu assume "map_of (pv_user_engines (invalidate_user u pv)) v = Some (es, tu)"
      then have "map_of (pv_user_engines pv) v = Some (es, tu)"
        by (auto simp: invalidate_user_def dest: map_of_delete_Some)
      then show "tl \<le> tu" "tu \<le> now" "es = load_user_engines v (H tu) pv0" using w(4) [of v es tu] le by auto
    qed (use w le invalidate_user_same in auto)
  qed
qed

lemma provider_run_fresh: "provider_run H t pv \<Longrightarrow> cache_fresh H t pv"
proof (induction rule: provider_run.induct)
  case (started t)
  then show ?case by (simp add: cache_fresh_def)
next
  case (asked t pv now user_id e pv')
  then show ?case by (metis provider_get_fresh(1))
next
  case (invalidated t pv now u)
  then show ?case by (simp add: cache_fresh_invalidate)
qed

text \<open>
  C34. The caches are less than a minute old: whatever calls came before, the engine the provider hands out is the one
  it would build without any cache from the taxonomy and global rules of a moment within the last sixty seconds
  and from the user's rules of a moment between that one and now.
\<close>

theorem engines_at_most_a_minute_old:
  assumes "provider_run H t pv" and "t \<le> now" and "provider_get user_id now (H now) pv = Inr (e, pv')"
  shows "\<exists>tl tu pv0. now - usec 60 < tl \<and> tl \<le> tu \<and> tu \<le> now \<and> reload tl (H tl) = Inr pv0 \<and>
    e = layered_engine user_id pv0 (H tu)"
  using provider_get_fresh(2) [OF provider_run_fresh [OF assms(1)] assms(2, 3)] by (simp add: PROVIDER_TTL_def)

section \<open>Normal text\<close>

definition plain_char :: "char \<Rightarrow> bool" where
  "plain_char c \<longleftrightarrow> transliterate (latin1_lower_char c) = [c]"

lemma lower_lower [simp]: "latin1_lower_char (latin1_lower_char c) = latin1_lower_char c"
  by (simp add: latin1_lower_char_def Let_def take_bit_eq_mod)

lemma plain_transliterated: "list_all plain_char (transliterate (latin1_lower_char c))"
proof -
  let ?d = "latin1_lower_char c"
  have "transliterate ?d = [?d] \<or> transliterate ?d \<in> {''oe'', ''ae'', ''aa''}"
    unfolding transliterate_def Let_def by (split if_split)+ simp
  then consider "transliterate ?d = [?d]" | "transliterate ?d \<in> {''oe'', ''ae'', ''aa''}" by blast
  then show ?thesis
  proof cases
    case 1
    then show ?thesis by (simp add: plain_char_def)
  next
    case 2
    then show ?thesis by (auto simp: plain_char_def transliterate_def latin1_lower_char_def)
  qed
qed

lemma plain_normalized: "list_all plain_char (normalize_for_matching s)"
  using plain_transliterated by (auto simp: normalize_for_matching_def latin1_lower_def list_all_iff)

lemma normalize_plain: "list_all plain_char s \<Longrightarrow> normalize_for_matching s = s"
  by (induction s) (auto simp: normalize_for_matching_def latin1_lower_def plain_char_def)

lemma normalize_idem [simp]: "normalize_for_matching (normalize_for_matching s) = normalize_for_matching s"
  by (rule normalize_plain [OF plain_normalized])

lemma contains_length: "contains k s \<Longrightarrow> length k \<le> length s \<and> (length k = length s \<longrightarrow> k = s)"
  by (auto simp: contains_iff)

lemma find_longest:
  assumes "h \<in> set hits" and "\<And>kv. kv \<in> set hits \<Longrightarrow> length (fst kv) \<le> length (fst h)"
    and sole: "\<And>kv. kv \<in> set hits \<Longrightarrow> length (fst h) \<le> length (fst kv) \<Longrightarrow> kv = h"
  shows "List.find (\<lambda>kv. list_all (\<lambda>kv'. length (fst kv') \<le> length (fst kv)) hits) hits = Some h"
proof -
  let ?L = "\<lambda>kv. list_all (\<lambda>kv'. length (fst kv') \<le> length (fst kv)) hits"
  have "?L h" using assms(2) by (simp add: list_all_iff)
  then obtain kv where kv: "List.find ?L hits = Some kv"
    using assms(1) by (cases "List.find ?L hits") (auto simp only: find_None_all)
  then have "kv \<in> set hits" "length (fst h) \<le> length (fst kv)"
    using assms(1) by (auto dest!: find_Some_mem simp: list_all_iff)
  then show ?thesis using sole kv by blast
qed

section \<open>The tiers of a user\<close>

lemma takeWhile_sorted:
  "sorted (map f (x # xs)) \<Longrightarrow> takeWhile (\<lambda>y. f y = f x) xs = filter (\<lambda>y. f y = (f x :: 'k :: linorder)) xs"
proof (induction xs)
  case (Cons y ys)
  show ?case
  proof (cases "f y = f x")
    case True
    then show ?thesis using Cons by simp
  next
    case False
    then have "f z \<noteq> f x" if "z \<in> set ys" for z using Cons.prems that by (auto dest: order_antisym)
    then show ?thesis using False by simp
  qed
qed simp

lemma group_runs_first:
  assumes "sorted (map f xs)" and "x \<in> set xs" and "\<And>y. y \<in> set xs \<Longrightarrow> f x \<le> (f y :: 'k :: linorder)"
  obtains gs where "group_runs f xs = filter (\<lambda>y. f y = f x) xs # gs"
proof -
  obtain y ys where xs: "xs = y # ys" using assms(2) by (cases xs) auto
  have fy: "f y = f x" using assms unfolding xs by (auto intro: order_antisym)
  have "group_runs f xs = filter (\<lambda>z. f z = f x) xs # group_runs f (dropWhile (\<lambda>z. f z = f y) ys)"
    using takeWhile_sorted [of f y ys] assms(1) fy by (simp add: xs)
  then show ?thesis by (rule that)
qed

lemma set_find_by_user [simp]: "set (find_by_user u db) = {r \<in> set (cg_rules db). ru_user_id r = Some u}"
  by (auto simp: find_by_user_def rule_order_def)

lemma sorted_find_by_user: "sorted (map ru_priority (filter P (find_by_user u db)))"
  unfolding find_by_user_def rule_order_def by (rule sorted_filter) (rule sorted_sort_key)

section \<open>The lookup of subcategories by name\<close>

lemma lookup_find:
  "map_of (fold (\<lambda>s m. if Q (sb_category_id s) then AList.update (sb_name s) (sb_id s, sb_category_id s) m else m) xs m0) nm =
     (case List.find (\<lambda>s. Q (sb_category_id s) \<and> sb_name s = nm) (rev xs) of
        None \<Rightarrow> map_of m0 nm | Some s \<Rightarrow> Some (sb_id s, sb_category_id s))"
proof (induction xs rule: rev_induct)
  case (snoc s xs)
  then show ?case by (simp add: update_conv')
qed simp

text \<open>The name of a subcategory means it alone: no other one under an existing category bears it.\<close>

definition unambiguous :: "subcategory_row \<Rightarrow> cat_db \<Rightarrow> bool" where
  "unambiguous s db \<longleftrightarrow>
     s \<in> set (cg_subcategories db) \<and> category_exists (sb_category_id s) db \<and>
     (\<forall>x \<in> set (cg_subcategories db). sb_name x = sb_name s \<and> category_exists (sb_category_id x) db \<longrightarrow> x = s)"

lemma lookup_unambiguous:
  assumes "unambiguous s db"
  shows "map_of (subcategory_lookup db) (sb_name s) = Some (sb_id s, sb_category_id s)"
proof -
  let ?P = "\<lambda>x. category_exists (sb_category_id x) db \<and> sb_name x = sb_name s"
  obtain x where x: "List.find ?P (rev (cg_subcategories db)) = Some x"
    using assms by (cases "List.find ?P (rev (cg_subcategories db))") (auto simp: find_None_all unambiguous_def)
  then have "x = s" using assms by (auto dest!: find_Some_mem simp: unambiguous_def)
  then show ?thesis using x by (simp add: subcategory_lookup_def lookup_find [where Q = "\<lambda>c. category_exists c db"])
qed

lemma names_unique:
  assumes "distinct (map sb_id (cg_subcategories db))" and "s \<in> set (cg_subcategories db)"
  shows "map_of (subcategory_names db) (sb_id s) = Some (sb_name s)"
  unfolding subcategory_names_def using assms by (intro map_of_is_SomeI) (auto simp: o_def)

section \<open>Learned rules come first\<close>

text \<open>The learned rules of the user are as the consumer made them, the rules the user wrote rank after them.\<close>

definition learned_unedited :: "int \<Rightarrow> cat_db \<Rightarrow> bool" where
  "learned_unedited u db \<longleftrightarrow>
     (\<forall>r \<in> set (cg_rules db). ru_user_id r = Some u \<longrightarrow>
        (if ru_pattern_type r = MerchantPattern
         then ru_priority r = LEARNED_RULE_PRIORITY \<and> list_all plain_char (ru_pattern_value r)
         else LEARNED_RULE_PRIORITY < ru_priority r))"

definition rule_keys_unique :: "cat_db \<Rightarrow> bool" where
  "rule_keys_unique db \<longleftrightarrow>
     (\<forall>r \<in> set (cg_rules db). \<forall>x \<in> set (cg_rules db). rule_key_of r \<noteq> None \<and> rule_key_of x = rule_key_of r \<longrightarrow> x = r)"

definition rules_keyed :: "cat_db \<Rightarrow> bool" where
  "rules_keyed db \<longleftrightarrow>
     distinct (map ru_id (cg_rules db)) \<and> (\<forall>r \<in> set (cg_rules db). ru_id r < cg_next_rule db) \<and> rule_keys_unique db"

definition learned_rule :: "int \<Rightarrow> string \<Rightarrow> int \<Rightarrow> cat_db \<Rightarrow> bool" where
  "learned_rule u pat sub db \<longleftrightarrow>
     (\<exists>r \<in> set (cg_rules db). ru_user_id r = Some u \<and> ru_pattern_type r = MerchantPattern \<and> ru_pattern_value r = pat \<and>
        ru_subcategory_id r = sub \<and> ru_active r \<and> ru_priority r = LEARNED_RULE_PRIORITY)"

text \<open>A learned rule that covers the whole description decides, whatever other rules the user has.\<close>

lemma learned_rule_decides:
  assumes learned: "learned_rule u pat (sb_id s) db"
    and unedited: "learned_unedited u db" and keyed: "rule_keys_unique db"
    and ids: "distinct (map sb_id (cg_subcategories tdb))" and un: "unambiguous s tdb"
    and pv0: "reload t0 tdb = Inr pv0"
    and desc: "normalize_for_matching (rq_description rq) = pat"
  shows "engine_match (layered_engine (Some u) pv0 db) rq = Some (keyword_result (sb_id s, sb_category_id s))"
proof -
  obtain r where r: "r \<in> set (cg_rules db)" "ru_user_id r = Some u" "ru_pattern_type r = MerchantPattern"
    "ru_pattern_value r = pat" "ru_subcategory_id r = sb_id s" "ru_active r" "ru_priority r = LEARNED_RULE_PRIORITY"
    using learned unfolding learned_rule_def by auto
  have maps: "pv_name_by_id pv0 = subcategory_names tdb" "pv_lookup pv0 = subcategory_lookup tdb"
    using pv0 by (auto simp: reload_def bindE_eq_Inr)
  have name: "map_of (pv_name_by_id pv0) (sb_id s) = Some (sb_name s)"
    using names_unique [OF ids] un by (simp add: maps unambiguous_def)
  have look: "map_of (pv_lookup pv0) (sb_name s) = Some (sb_id s, sb_category_id s)"
    using lookup_unambiguous [OF un] by (simp add: maps)
  let ?rs = "filter (matchable pv0) (find_by_user u db)"
  let ?G = "filter (\<lambda>y. ru_priority y = ru_priority r) ?rs"
  have mem: "r \<in> set ?rs" using r name by (simp add: matchable_def)
  have low: "ru_priority r \<le> ru_priority y" if "y \<in> set ?rs" for y
    using unedited that r by (auto simp: learned_unedited_def split: if_splits)
  obtain gs where gs: "group_runs ru_priority ?rs = ?G # gs"
    using group_runs_first [OF sorted_find_by_user mem low] .
  let ?km = "map (rule_mapping pv0) ?G"
  have kmr: "rule_mapping pv0 r = (pat, sb_name s)" using r name by (simp add: rule_mapping_def)
  have first: "layered_engine (Some u) pv0 db =
      TieredEngine (rule_engine ?km (pv_lookup pv0) #
        map (\<lambda>g. rule_engine (map (rule_mapping pv0) g) (pv_lookup pv0)) gs @ [the (pv_engine pv0)])"
    using gs by (simp add: layered_engine_def load_user_engines_def Let_def)
  have pat: "normalize_for_matching pat = pat" using desc by (metis normalize_idem)
  let ?hits = "filter (keyword_hit (pv_lookup pv0) pat) (map (\<lambda>(k, n). (normalize_for_matching k, n)) ?km)"
  have inG: "r \<in> set ?G" using mem by simp
  have hit: "(pat, sb_name s) \<in> set ?hits"
  proof -
    have "(pat, sb_name s) = (\<lambda>(k, n). (normalize_for_matching k, n)) (rule_mapping pv0 r)" by (simp add: kmr pat)
    then have "(pat, sb_name s) \<in> set (map (\<lambda>(k, n). (normalize_for_matching k, n)) ?km)"
      using inG by (metis (no_types, lifting) image_eqI list.set_map)
    moreover have "keyword_hit (pv_lookup pv0) pat (pat, sb_name s)" using look by (simp add: keyword_hit_def)
    ultimately show ?thesis by simp
  qed
  have sole: "kv = (pat, sb_name s)" if kv: "kv \<in> set ?hits" "length pat \<le> length (fst kv)" for kv
  proof -
    obtain y where y: "y \<in> set ?G" "kv = (normalize_for_matching (fst (rule_mapping pv0 y)), snd (rule_mapping pv0 y))"
    proof -
      have "kv \<in> (\<lambda>(k, n). (normalize_for_matching k, n)) ` rule_mapping pv0 ` set ?G"
        using kv(1) by (simp only: set_filter set_map mem_Collect_eq)
      then show ?thesis using that by (auto simp only: image_iff case_prod_beta)
    qed
    have "contains (fst kv) pat" using kv(1) by (auto simp: keyword_hit_def)
    then have "fst kv = pat" using contains_length [of "fst kv" pat] kv(2) by auto
    moreover have "ru_pattern_type y = MerchantPattern" "list_all plain_char (ru_pattern_value y)"
      using unedited y(1) r(7) by (auto simp: learned_unedited_def split: if_splits)
    ultimately have "ru_pattern_value y = pat"
      using y normalize_plain [of "ru_pattern_value y"] by (simp add: rule_mapping_def)
    then have "rule_key_of y = rule_key_of r"
      using y(1) r \<open>ru_pattern_type y = MerchantPattern\<close> by (simp add: rule_key_of_def)
    then have "y = r" using keyed y(1) r by (auto simp: rule_keys_unique_def rule_key_of_def)
    then show ?thesis using y(2) kmr pat by simp
  qed
  have "length (fst kv) \<le> length pat" if "kv \<in> set ?hits" for kv
    using that by (auto simp: keyword_hit_def dest: contains_length)
  then have "List.find (\<lambda>kv. list_all (\<lambda>kv'. length (fst kv') \<le> length (fst kv)) ?hits) ?hits = Some (pat, sb_name s)"
    using sole by (intro find_longest [OF hit]) simp_all
  then have "engine_match (rule_engine ?km (pv_lookup pv0)) rq = Some (keyword_result (sb_id s, sb_category_id s))"
    using look by (simp only: longest_keyword_wins desc Let_def) (simp add: hit_result_def)
  then show ?thesis by (simp add: first)
qed

section \<open>Writing rules\<close>

lemma insert_rule_shape:
  assumes "insert_rule u prio ty pat sub act db = Inr (r, db')"
  shows "ru_id r = cg_next_rule db" "ru_user_id r = u" "ru_priority r = prio" "ru_pattern_type r = ty"
    "ru_pattern_value r = pat" "ru_subcategory_id r = sub" "ru_active r = act" "rule_allowed r db"
    "db' = db\<lparr>cg_rules := cg_rules db @ [r], cg_next_rule := cg_next_rule db + 1\<rparr>"
  using assms by (auto simp: insert_rule_def Let_def bindE_eq_Inr)

lemma rules_keyed_insert:
  assumes keyed: "rules_keyed db" and ins: "insert_rule u prio ty pat sub act db = Inr (r, db')"
  shows "rules_keyed db'"
proof -
  note sh = insert_rule_shape [OF ins]
  have below: "\<forall>x \<in> set (cg_rules db). ru_id x < cg_next_rule db" using keyed by (simp add: rules_keyed_def)
  have key: "rule_key_of r = None \<or> (\<forall>x \<in> set (cg_rules db). rule_key_of x \<noteq> rule_key_of r)"
    using sh(1, 8) below by (force simp: rule_allowed_def list_all_iff rule_key_of_def)
  have "rule_keys_unique db'"
    using keyed key unfolding sh(9) rules_keyed_def rule_keys_unique_def by auto
  moreover have "distinct (map ru_id (cg_rules db'))" "\<forall>x \<in> set (cg_rules db'). ru_id x < cg_next_rule db'"
    using keyed below sh(1) unfolding sh(9) rules_keyed_def by auto
  ultimately show ?thesis by (simp add: rules_keyed_def)
qed

lemma put_rule_shape:
  "put_rule r db = Inr db' \<Longrightarrow> rule_allowed r db \<and>
     db' = db\<lparr>cg_rules := update_where (\<lambda>x. ru_id x = ru_id r) (\<lambda>_. r) (cg_rules db)\<rparr>"
  by (auto simp: put_rule_def bindE_eq_Inr)

lemma put_rule_mem:
  assumes "rules_keyed db" and "r0 \<in> set (cg_rules db)" and "ru_id r = ru_id r0" and "put_rule r db = Inr db'"
  shows "x \<in> set (cg_rules db') \<longleftrightarrow> x = r \<or> x \<in> set (cg_rules db) \<and> ru_id x \<noteq> ru_id r"
  using put_rule_shape [OF assms(4)] update_where_key_mem [of ru_id "cg_rules db" r0 x "\<lambda>_. r"] assms
  by (simp add: rules_keyed_def)

lemma rules_keyed_put:
  assumes keyed: "rules_keyed db" and r0: "r0 \<in> set (cg_rules db)" "ru_id r = ru_id r0" and put: "put_rule r db = Inr db'"
  shows "rules_keyed db'"
proof -
  note mem = put_rule_mem [OF keyed r0 put] and sh = put_rule_shape [OF put]
  have "rule_key_of r = None \<or> (\<forall>x \<in> set (cg_rules db). ru_id x = ru_id r \<or> rule_key_of x \<noteq> rule_key_of r)"
    using sh by (auto simp: rule_allowed_def list_all_iff rule_key_of_def)
  then have "rule_keys_unique db'"
    using keyed unfolding rules_keyed_def rule_keys_unique_def Ball_def mem by metis
  moreover have "map ru_id (cg_rules db') = map ru_id (cg_rules db)"
    using sh by (auto intro!: map_update_where)
  moreover have "\<forall>x \<in> set (cg_rules db'). ru_id x < cg_next_rule db'"
    using keyed sh r0 unfolding Ball_def mem by (auto simp: rules_keyed_def)
  ultimately show ?thesis using keyed by (simp add: rules_keyed_def)
qed

lemma find_learned:
  assumes "rules_keyed db" and "find_by_user_and_pattern u ty pat db = Inr x"
  shows "case x of
      None \<Rightarrow> \<forall>r \<in> set (cg_rules db). rule_key_of r \<noteq> Some (u, ty, pat)
    | Some r \<Rightarrow> r \<in> set (cg_rules db) \<and> rule_key_of r = Some (u, ty, pat)"
proof -
  let ?P = "\<lambda>r. ru_user_id r = Some u \<and> ru_pattern_type r = ty \<and> ru_pattern_value r = pat"
  have x: "at_most_one (filter ?P (cg_rules db)) = Inr x" using assms(2) by (simp add: find_by_user_and_pattern_def)
  have P: "?P r \<longleftrightarrow> rule_key_of r = Some (u, ty, pat)" for r by (auto simp: rule_key_of_def)
  consider "filter ?P (cg_rules db) = []" "x = None" | r where "filter ?P (cg_rules db) = [r]" "x = Some r"
    using x by (cases "filter ?P (cg_rules db)" rule: at_most_one.cases) auto
  then show ?thesis
  proof cases
    case 1
    then show ?thesis using P by (auto simp: filter_empty_conv)
  next
    case (2 r)
    then have "r \<in> set (filter ?P (cg_rules db))" by simp
    then show ?thesis using 2 P by auto
  qed
qed

text \<open>The plan of a learnable correction, and what carrying it out leaves in the table.\<close>

lemma learned_pattern_shape:
  assumes "learn_plan_of body db = Some plan" and "dget body ''user_id'' = Some (JInt u)" "u \<noteq> 0"
    "dget body ''subcategory_id'' = Some (JInt i)" "i \<noteq> 0" "dget body ''description'' = Some (JStr d)"
    "normalize_merchant_pattern d \<noteq> []" "subcategory_by_id i db \<noteq> None"
  shows "\<exists>x. find_by_user_and_pattern u MerchantPattern (normalize_merchant_pattern d) db = Inr x \<and>
    plan = (case x of None \<Rightarrow> CreateLearned u (normalize_merchant_pattern d) i | Some r \<Rightarrow> RetargetLearned (ru_id r) i)"
proof -
  have d: "d \<noteq> []" using assms(7) by (auto simp: normalize_merchant_pattern_def normalize_for_matching_def
        latin1_lower_def split_space.simps join_space_def strip_def)
  show ?thesis
    using assms d by (auto simp: learn_plan_of_def dget_or_def Let_def split: sum.splits option.splits)
qed

lemma learn_effect:
  assumes keyed: "rules_keyed db" and un: "learned_unedited u db" and plain: "list_all plain_char pat"
    and x: "find_by_user_and_pattern u MerchantPattern pat db = Inr x"
    and l: "learn (case x of None \<Rightarrow> CreateLearned u pat i | Some r \<Rightarrow> RetargetLearned (ru_id r) i) db = Inr db'"
  shows "learned_rule u pat i db' \<and> learned_unedited u db' \<and> rules_keyed db'"
proof (cases x)
  case None
  then obtain r where ins: "insert_rule (Some u) LEARNED_RULE_PRIORITY MerchantPattern pat i True db = Inr (r, db')"
    using l by (auto simp: bindE_eq_Inr)
  note sh = insert_rule_shape [OF ins]
  have "learned_rule u pat i db'" using sh by (auto simp: learned_rule_def)
  moreover have "learned_unedited u db'" using un sh plain by (auto simp: learned_unedited_def)
  ultimately show ?thesis using rules_keyed_insert [OF keyed ins] by blast
next
  case (Some r)
  have r: "r \<in> set (cg_rules db)" "ru_user_id r = Some u" "ru_pattern_type r = MerchantPattern" "ru_pattern_value r = pat"
    using find_learned [OF keyed x] Some by (auto simp: rule_key_of_def)
  let ?r = "r\<lparr>ru_subcategory_id := i, ru_active := True\<rparr>"
  have "rule_by_id (ru_id r) db = Some r"
    unfolding rule_by_id_def using keyed r(1) by (intro find_distinct_key) (simp_all add: rules_keyed_def)
  then have put: "put_rule ?r db = Inr db'" using l Some by simp
  note mem = put_rule_mem [OF keyed r(1) _ put, simplified]
  have prio: "ru_priority r = LEARNED_RULE_PRIORITY" using un r by (auto simp: learned_unedited_def split: if_splits)
  have "learned_rule u pat i db'" unfolding learned_rule_def by (rule bexI [of _ ?r]) (use r prio mem in simp_all)
  moreover have "learned_unedited u db'"
    unfolding learned_unedited_def Ball_def mem using un r prio plain by (auto simp: learned_unedited_def)
  ultimately show ?thesis using rules_keyed_put [OF keyed r(1) _ put] by simp
qed

text \<open>A handled correction that is no duplicate has carried out its plan.\<close>

lemma corrected_handle_learns:
  assumes ok: "corrected_handle True c body db = (Handled, db')"
    and m: "message_id_of body = Some m" "\<not> cat_is_duplicate CORRECTED_QUEUE m db"
    and ty: "dget body ''event_type'' = Some (JStr ty)"
  obtains plan db1 where "learn_plan_of body db = Some plan" "learn plan db = Inr db1" "cg_rules db' = cg_rules db1"
    "cg_next_rule db' = cg_next_rule db1"
proof -
  obtain plan where plan: "learn_plan_of body db = Some plan" "corrected_commit c body plan db = (Handled, db')"
    using ok m by (auto simp: corrected_handle_def split: option.splits if_splits)
  obtain db1 where db1: "learn plan db = Inr db1" "cat_commit c CORRECTED_QUEUE body db db1 = (Handled, db')"
    using plan(2) by (auto simp: corrected_commit_def split: sum.splits)
  have "cg_rules db' = cg_rules db1 \<and> cg_next_rule db' = cg_next_rule db1"
    using db1(2) m ty by (auto simp: cat_commit_def dget_or_def split: option.splits if_splits)
  then show ?thesis using that plan(1) db1(1) by blast
qed

text \<open>The fields of a correction of the user \<open>u\<close> that chose the subcategory \<open>i\<close> for the text \<open>d\<close>.\<close>

definition correction_of :: "int \<Rightarrow> int \<Rightarrow> string \<Rightarrow> dict \<Rightarrow> bool" where
  "correction_of u i d body \<longleftrightarrow>
     dget body ''user_id'' = Some (JInt u) \<and> u \<noteq> 0 \<and> dget body ''subcategory_id'' = Some (JInt i) \<and> i \<noteq> 0 \<and>
     dget body ''description'' = Some (JStr d) \<and> (\<exists>ty. dget body ''event_type'' = Some (JStr ty))"

lemma correction_recorded:
  assumes c: "correction_of u i d body" and m: "message_id_of body = Some m" "\<not> cat_is_duplicate CORRECTED_QUEUE m db"
    and whole: "normalize_merchant_pattern d = normalize_for_matching d" "normalize_merchant_pattern d \<noteq> []"
    and keyed: "rules_keyed db" and un: "learned_unedited u db" and known: "subcategory_by_id i db \<noteq> None"
    and ok: "corrected_handle True now body db = (Handled, db')"
  shows "learned_rule u (normalize_for_matching d) i db'"
proof -
  obtain ty where ty: "dget body ''event_type'' = Some (JStr ty)" using c by (auto simp: correction_of_def)
  obtain plan db1 where p: "learn_plan_of body db = Some plan" "learn plan db = Inr db1" "cg_rules db' = cg_rules db1"
    using corrected_handle_learns [OF ok m ty] by metis
  obtain x where x: "find_by_user_and_pattern u MerchantPattern (normalize_merchant_pattern d) db = Inr x"
    "plan = (case x of None \<Rightarrow> CreateLearned u (normalize_merchant_pattern d) i | Some r \<Rightarrow> RetargetLearned (ru_id r) i)"
    using learned_pattern_shape [OF p(1)] c whole(2) known unfolding correction_of_def by blast
  have "learned_rule u (normalize_merchant_pattern d) i db1"
    using learn_effect [OF keyed un _ x(1), of i db1] p(2) x(2) plain_normalized [of d] whole(1) by simp
  then show ?thesis using p(3) whole(1) by (simp add: learned_rule_def)
qed


text \<open>A small taxonomy with the correction of one purchase.\<close>

definition demo_cat_db :: cat_db where
  "demo_cat_db =
     \<lparr>cg_categories = [\<lparr>ct_id = 1, ct_name = ''Mad'', ct_type = ExpenseCategory, ct_display_order = 1, ct_public_id = None,
        ct_semantic_key = None, ct_lifecycle = ''active''\<rparr>],
      cg_next_category = 2,
      cg_subcategories = [\<lparr>sb_id = 5, sb_name = ''Kiosk'', sb_category_id = 1, sb_is_default = True, sb_public_id = None,
        sb_semantic_key = None, sb_lifecycle = ''active''\<rparr>],
      cg_next_subcategory = 6, cg_merchants = [], cg_aliases = [], cg_rules = [], cg_next_rule = 1, cg_results = [],
      cg_outbox = [], cg_processed = []\<rparr>"

definition demo_correction :: dict where
  "demo_correction =
     [(''event_type'', JStr ''transaction.category_corrected''), (''correlation_id'', JStr ''m1''), (''user_id'', JInt 7),
      (''subcategory_id'', JInt 5), (''description'', JStr ''Netto Oest'')]"

definition demo_cat_db' :: cat_db where
  "demo_cat_db' = snd (corrected_handle True 0 demo_correction demo_cat_db)"

definition demo_cat_history :: "instant \<Rightarrow> cat_db" where
  "demo_cat_history t = (if t \<le> 0 then demo_cat_db else demo_cat_db')"

definition demo_request :: categorize_request where
  "demo_request =
     \<lparr>rq_description = ''NETTO OEST'', rq_amount = 42, rq_direction = OutgoingTx, rq_merchant = None, rq_counterparty = None,
      rq_provider = None, rq_country = None\<rparr>"

lemma demo_correction_handled:
  "corrected_handle True 0 demo_correction (demo_cat_history 0) = (Handled, demo_cat_db')"
  by code_simp

lemma demo_correction_of: "correction_of 7 5 ''Netto Oest'' demo_correction"
  by (simp add: correction_of_def demo_correction_def)

lemma demo_before:
  "message_id_of demo_correction = Some ''m1''" "\<not> cat_is_duplicate CORRECTED_QUEUE ''m1'' (demo_cat_history 0)"
  "normalize_merchant_pattern ''Netto Oest'' = normalize_for_matching ''Netto Oest''"
  "normalize_merchant_pattern ''Netto Oest'' \<noteq> []" "rules_keyed (demo_cat_history 0)"
  "learned_unedited 7 (demo_cat_history 0)" "subcategory_by_id 5 (demo_cat_history 0) \<noteq> None"
  by (code_simp, code_simp, code_simp, code_simp, code_simp, code_simp, code_simp)

lemma demo_after:
  "rule_keys_unique demo_cat_db'" "learned_unedited 7 demo_cat_db'" "distinct (map sb_id (cg_subcategories demo_cat_db'))"
  "unambiguous (hd (cg_subcategories demo_cat_db')) demo_cat_db'"
  by (code_simp, code_simp, code_simp, code_simp)

lemma demo_subcategory: "sb_id (hd (cg_subcategories demo_cat_db')) = 5" "sb_category_id (hd (cg_subcategories demo_cat_db')) = 1"
  by (code_simp, code_simp)

lemma demo_get:
  "\<exists>e pv'. provider_get (Some 7) 60000000 (demo_cat_history 60000000) new_provider = Inr (e, pv')"
proof -
  have "case provider_get (Some 7) 60000000 (demo_cat_history 60000000) new_provider of Inr _ \<Rightarrow> True | Inl _ \<Rightarrow> False"
    by code_simp
  then show ?thesis by (auto split: sum.splits)
qed


theorem engines_at_most_a_minute_old_witness:
  "\<exists>e pv'. provider_get (Some 7) 60000000 (demo_cat_history 60000000) new_provider = Inr (e, pv') \<and>
     (\<exists>t0 tu pv0. 0 < t0 \<and> t0 \<le> tu \<and> tu \<le> 60000000 \<and> reload t0 (demo_cat_history t0) = Inr pv0 \<and>
        e = layered_engine (Some 7) pv0 (demo_cat_history tu))"
proof -
  obtain e pv' where e: "provider_get (Some 7) 60000000 (demo_cat_history 60000000) new_provider = Inr (e, pv')"
    using demo_get by blast
  show ?thesis
    using e engines_at_most_a_minute_old [OF provider_run.started [of demo_cat_history 0] _ e] by simp
qed

text \<open>
  The limits of learning.  A word without letters inside the text makes the learned pattern miss the very transaction
  it was learned from; a blank keyword, which the length check lets through, matches every transaction; and a rule
  for one of two subcategories of the same name leads to the other.
\<close>

lemma learned_pattern_misses:
  "\<not> contains (normalize_merchant_pattern ''Netto 1234 Oest'') (normalize_for_matching ''Netto 1234 Oest'')"
  by code_simp

lemma blank_keyword_matches_all: "keyword_hit [(''Kiosk'', 5, 1)] desc (normalize_for_matching (strip ''   ''), ''Kiosk'')"
proof -
  have "strip ''   '' = []" by code_simp
  moreover have "contains [] desc" by (cases desc) auto
  ultimately show ?thesis by (simp add: keyword_hit_def normalize_for_matching_def latin1_lower_def)
qed

end
