(* ===== verification/TaxonomyProofs.thy ===== *)
theory TaxonomyProofs
  imports RuleProofs
begin

text \<open>
  The state of categorization-service over all its operations: the invariant of the taxonomy and its rules, the copy
  of the taxonomy that transaction-service builds from the events, and the audit trail of the categorizations.
\<close>

section \<open>Operations\<close>

text \<open>
  Everything that writes to the database.  A consumer may have read an older state: a created transaction commits the
  result it computed and the names of the state it saw, a correction the plan it made.
\<close>

datatype cat_op =
    CreateCategory category_dto
  | UpdateCategory int category_patch
  | DeleteCategory int
  | CreateSubcategory int string
  | UpdateSubcategory int "string option" "int option"
  | DeleteSubcategory int
  | CreateRule int rule_dto
  | UpdateRule int int rule_patch
  | DeleteRule int int
  | CommitCreated dict int cz_result cat_db
  | CommitCorrected dict learn_plan
  | CleanupInbox

definition keep_on_error :: "cat_db \<Rightarrow> cat_error + cat_db \<Rightarrow> cat_db" where
  "keep_on_error db m = (case m of Inl _ \<Rightarrow> db | Inr db' \<Rightarrow> db')"

definition keep_second :: "cat_db \<Rightarrow> cat_error + ('a \<times> cat_db) \<Rightarrow> cat_db" where
  "keep_second db m = (case m of Inl _ \<Rightarrow> db | Inr (x, db') \<Rightarrow> db')"

fun apply_cat_op :: "instant \<Rightarrow> cat_op \<Rightarrow> cat_db \<Rightarrow> cat_db" where
  "apply_cat_op now (CreateCategory dto) db = keep_second db (create_category now dto db)"
| "apply_cat_op now (UpdateCategory i p) db = keep_second db (update_category now i p db)"
| "apply_cat_op now (DeleteCategory i) db = keep_on_error db (delete_category now i db)"
| "apply_cat_op now (CreateSubcategory c nm) db = keep_second db (create_subcategory now c nm db)"
| "apply_cat_op now (UpdateSubcategory i nm c) db = keep_second db (update_subcategory now i nm c db)"
| "apply_cat_op now (DeleteSubcategory i) db = keep_on_error db (delete_subcategory now i db)"
| "apply_cat_op now (CreateRule u d) db = keep_second db (create_rule u d db)"
| "apply_cat_op now (UpdateRule u i p) db = keep_second db (update_rule u i p db)"
| "apply_cat_op now (DeleteRule u i) db = keep_on_error db (delete_rule u i db)"
| "apply_cat_op now (CommitCreated body i r seen) db =
     snd (created_commit now body (result_record i r) (categorized_event i r seen) db)"
| "apply_cat_op now (CommitCorrected body plan) db = snd (corrected_commit now body plan db)"
| "apply_cat_op now CleanupInbox db = cleanup_inbox now db"

definition run_cat_ops :: "(instant \<times> cat_op) list \<Rightarrow> cat_db \<Rightarrow> cat_db" where
  "run_cat_ops ops db = fold (\<lambda>(now, op) d. apply_cat_op now op d) ops db"

section \<open>The invariant\<close>

definition active_names_unique :: "category_row set \<Rightarrow> bool" where
  "active_names_unique C \<longleftrightarrow>
     (\<forall>c \<in> C. \<forall>d \<in> C. ct_active c \<and> ct_active d \<and> ct_name c = ct_name d \<longrightarrow> ct_id c = ct_id d)"

definition categories_ok :: "cat_db \<Rightarrow> bool" where
  "categories_ok db \<longleftrightarrow>
     distinct (map ct_id (cg_categories db)) \<and>
     (\<forall>c \<in> set (cg_categories db). ct_id c < cg_next_category db \<and> length (ct_name c) \<le> 45) \<and>
     active_names_unique (set (cg_categories db))"

definition subcategories_ok :: "cat_db \<Rightarrow> bool" where
  "subcategories_ok db \<longleftrightarrow>
     distinct (map sb_id (cg_subcategories db)) \<and>
     (\<forall>s \<in> set (cg_subcategories db). sb_id s < cg_next_subcategory db \<and> length (sb_name s) \<le> 100 \<and>
        category_exists (sb_category_id s) db)"

definition references_ok :: "cat_db \<Rightarrow> bool" where
  "references_ok db \<longleftrightarrow>
     (\<forall>r \<in> set (cg_rules db). subcategory_by_id (ru_subcategory_id r) db \<noteq> None) \<and>
     (\<forall>m \<in> set (cg_merchants db). \<forall>i. me_subcategory_id m = Some i \<longrightarrow> subcategory_by_id i db \<noteq> None)"

definition taxonomy_ok :: "cat_db \<Rightarrow> bool" where
  "taxonomy_ok db \<longleftrightarrow> categories_ok db \<and> subcategories_ok db \<and> references_ok db \<and> rules_keyed db"

lemmas taxonomy_ok_defs = taxonomy_ok_def categories_ok_def subcategories_ok_def references_ok_def

text \<open>The invariant reads five tables and three counters.\<close>

definition same_taxonomy_tables :: "cat_db \<Rightarrow> cat_db \<Rightarrow> bool" where
  "same_taxonomy_tables db db' \<longleftrightarrow>
     cg_categories db' = cg_categories db \<and> cg_next_category db' = cg_next_category db \<and>
     cg_subcategories db' = cg_subcategories db \<and> cg_next_subcategory db' = cg_next_subcategory db \<and>
     cg_merchants db' = cg_merchants db"

definition same_rules :: "cat_db \<Rightarrow> cat_db \<Rightarrow> bool" where
  "same_rules db db' \<longleftrightarrow> cg_rules db' = cg_rules db \<and> cg_next_rule db' = cg_next_rule db"

lemma taxonomy_ok_cong:
  "same_taxonomy_tables db db' \<Longrightarrow> same_rules db db' \<Longrightarrow> taxonomy_ok db' = taxonomy_ok db"
  unfolding taxonomy_ok_defs rules_keyed_def rule_keys_unique_def same_taxonomy_tables_def same_rules_def
    category_exists_def subcategory_by_id_def by simp

lemma cat_outbox_add_tables [simp]:
  "same_taxonomy_tables db (cat_outbox_add now ev ty i db)" "same_rules db (cat_outbox_add now ev ty i db)"
  by (simp_all add: cat_outbox_add_def same_taxonomy_tables_def same_rules_def)

lemma taxonomy_ok_outbox [simp]: "taxonomy_ok (cat_outbox_add now ev ty i db) = taxonomy_ok db"
  by (rule taxonomy_ok_cong) simp_all

lemma category_exists_iff: "category_exists i db \<longleftrightarrow> i \<in> ct_id ` set (cg_categories db)"
  by (auto simp: category_exists_def list_ex_iff)

lemma subcategory_by_id_iff: "subcategory_by_id i db \<noteq> None \<longleftrightarrow> i \<in> sb_id ` set (cg_subcategories db)"
  by (auto simp: subcategory_by_id_def find_None_all)

lemma category_by_id_Some: "category_by_id i db = Some c \<Longrightarrow> c \<in> set (cg_categories db) \<and> ct_id c = i"
  by (auto simp: category_by_id_def dest: find_Some_mem)

lemma subcategory_by_id_Some: "subcategory_by_id i db = Some s \<Longrightarrow> s \<in> set (cg_subcategories db) \<and> sb_id s = i"
  by (auto simp: subcategory_by_id_def dest: find_Some_mem)

lemma references_ok_cong:
  "cg_rules db' = cg_rules db \<Longrightarrow> cg_merchants db' = cg_merchants db \<Longrightarrow>
     sb_id ` set (cg_subcategories db) \<subseteq> sb_id ` set (cg_subcategories db') \<Longrightarrow> references_ok db \<Longrightarrow> references_ok db'"
  unfolding references_ok_def subcategory_by_id_iff by auto

lemma rules_keyed_cong: "same_rules db db' \<Longrightarrow> rules_keyed db' = rules_keyed db"
  by (simp add: rules_keyed_def rule_keys_unique_def same_rules_def)

lemma active_names_mono: "active_names_unique C \<Longrightarrow> D \<subseteq> C \<Longrightarrow> active_names_unique D"
  unfolding active_names_unique_def by blast

lemma active_names_insert:
  "active_names_unique C \<Longrightarrow> (\<And>x. x \<in> C \<Longrightarrow> ct_active c \<Longrightarrow> ct_active x \<Longrightarrow> ct_name x = ct_name c \<Longrightarrow> ct_id x = ct_id c) \<Longrightarrow>
     active_names_unique (insert c C)"
  unfolding active_names_unique_def by (metis insert_iff)

section \<open>Writes keep the invariant\<close>

lemma insert_category_ok [inv_intros]:
  assumes ok: "taxonomy_ok db" and ins: "insert_category nm ty order db = Inr (c, db')"
  shows "taxonomy_ok db'"
proof -
  have c: "ct_id c = cg_next_category db" "ct_name c = nm" "length nm \<le> 45" "active_name_free (cg_next_category db) nm db"
    and db': "db' = db\<lparr>cg_categories := cg_categories db @ [c], cg_next_category := cg_next_category db + 1\<rparr>"
    using ins by (auto simp: insert_category_def Let_def bindE_eq_Inr)
  have "active_names_unique (set (cg_categories db'))"
  proof -
    have "active_names_unique (insert c (set (cg_categories db)))"
      using ok c by (intro active_names_insert) (auto simp: taxonomy_ok_def categories_ok_def active_name_free_def list_all_iff)
    then show ?thesis by (simp add: db')
  qed
  then have "categories_ok db'"
    using ok c unfolding taxonomy_ok_def categories_ok_def by (force simp: db')
  moreover have "subcategories_ok db'"
    using ok unfolding taxonomy_ok_def subcategories_ok_def db' category_exists_iff by auto
  moreover have "references_ok db'" using ok references_ok_cong [of db' db] by (simp add: db' taxonomy_ok_def)
  moreover have "rules_keyed db'" using ok rules_keyed_cong [of db db'] by (simp add: db' same_rules_def taxonomy_ok_def)
  ultimately show ?thesis by (simp add: taxonomy_ok_def)
qed

lemma put_category_ok [inv_intros]:
  assumes ok: "taxonomy_ok db" and mem: "c0 \<in> set (cg_categories db)" "ct_id c = ct_id c0" and put: "put_category c db = Inr db'"
  shows "taxonomy_ok db'"
proof -
  have c: "length (ct_name c) \<le> 45" "ct_active c \<Longrightarrow> active_name_free (ct_id c) (ct_name c) db"
    and db': "db' = db\<lparr>cg_categories := update_where (\<lambda>r. ct_id r = ct_id c) (\<lambda>_. c) (cg_categories db)\<rparr>"
    using put by (auto simp: put_category_def bindE_eq_Inr)
  have d: "distinct (map ct_id (cg_categories db))" using ok by (simp add: taxonomy_ok_def categories_ok_def)
  have in': "x \<in> set (cg_categories db') \<longleftrightarrow> x = c \<or> x \<in> set (cg_categories db) \<and> ct_id x \<noteq> ct_id c" for x
    using update_where_key_mem [OF d mem(1), of x "\<lambda>_. c"] mem(2) by (simp add: db')
  have ids: "map ct_id (cg_categories db') = map ct_id (cg_categories db)"
    unfolding db' by (simp, rule map_update_where) simp
  have "categories_ok db'"
  proof -
    have "\<forall>x \<in> set (cg_categories db'). ct_id x < cg_next_category db' \<and> length (ct_name x) \<le> 45"
      using ok c(1) mem unfolding Ball_def in' by (auto simp: db' taxonomy_ok_def categories_ok_def)
    moreover have "active_names_unique (set (cg_categories db'))"
    proof (rule active_names_mono)
      show "active_names_unique (insert c (set (cg_categories db)))"
        using ok c(2) by (intro active_names_insert) (auto simp: taxonomy_ok_def categories_ok_def active_name_free_def list_all_iff)
      show "set (cg_categories db') \<subseteq> insert c (set (cg_categories db))" using in' by blast
    qed
    ultimately show ?thesis using d ids by (simp add: categories_ok_def)
  qed
  moreover have "subcategories_ok db'"
  proof -
    have "category_exists i db' = category_exists i db" for i
      unfolding category_exists_iff using ids by (metis list.set_map)
    then show ?thesis using ok by (simp add: taxonomy_ok_def subcategories_ok_def db')
  qed
  moreover have "references_ok db'" using ok references_ok_cong [of db' db] by (simp add: db' taxonomy_ok_def)
  moreover have "rules_keyed db'" using ok rules_keyed_cong [of db db'] by (simp add: db' same_rules_def taxonomy_ok_def)
  ultimately show ?thesis by (simp add: taxonomy_ok_def)
qed

lemma remove_category_ok [inv_intros]:
  assumes ok: "taxonomy_ok db" and rm: "remove_category i db = Inr db'"
  shows "taxonomy_ok db'"
proof -
  have free: "\<forall>s \<in> set (cg_subcategories db). sb_category_id s \<noteq> i"
    and db': "db' = db\<lparr>cg_categories := filter (\<lambda>c. ct_id c \<noteq> i) (cg_categories db)\<rparr>"
    using rm by (auto simp: remove_category_def bindE_eq_Inr list_all_iff)
  have "active_names_unique (set (cg_categories db'))"
    by (rule active_names_mono [of "set (cg_categories db)"]) (use ok in \<open>auto simp: taxonomy_ok_def categories_ok_def db'\<close>)
  then have "categories_ok db'" using ok by (auto simp: taxonomy_ok_def categories_ok_def db' distinct_map_filter)
  moreover have "subcategories_ok db'"
    using ok free by (force simp: taxonomy_ok_def subcategories_ok_def db' category_exists_iff)
  moreover have "references_ok db'" using ok references_ok_cong [of db' db] by (simp add: db' taxonomy_ok_def)
  moreover have "rules_keyed db'" using ok rules_keyed_cong [of db db'] by (simp add: db' same_rules_def taxonomy_ok_def)
  ultimately show ?thesis by (simp add: taxonomy_ok_def)
qed

lemma insert_subcategory_ok [inv_intros]:
  assumes ok: "taxonomy_ok db" and ins: "insert_subcategory nm c dflt db = Inr (s, db')"
  shows "taxonomy_ok db'"
proof -
  have s: "sb_id s = cg_next_subcategory db" "sb_name s = nm" "sb_category_id s = c" "length nm \<le> 100" "category_exists c db"
    and db': "db' = db\<lparr>cg_subcategories := cg_subcategories db @ [s], cg_next_subcategory := cg_next_subcategory db + 1\<rparr>"
    using ins by (auto simp: insert_subcategory_def Let_def bindE_eq_Inr)
  have "categories_ok db'" using ok by (simp add: taxonomy_ok_def categories_ok_def db')
  moreover have "subcategories_ok db'"
    using ok s unfolding taxonomy_ok_def subcategories_ok_def category_exists_iff db' by force
  moreover have "references_ok db'" using ok references_ok_cong [of db' db] by (auto simp: db' taxonomy_ok_def)
  moreover have "rules_keyed db'" using ok rules_keyed_cong [of db db'] by (simp add: db' same_rules_def taxonomy_ok_def)
  ultimately show ?thesis by (simp add: taxonomy_ok_def)
qed

lemma put_subcategory_ok [inv_intros]:
  assumes ok: "taxonomy_ok db" and mem: "s0 \<in> set (cg_subcategories db)" "sb_id s = sb_id s0" and put: "put_subcategory s db = Inr db'"
  shows "taxonomy_ok db'"
proof -
  have s: "length (sb_name s) \<le> 100" "category_exists (sb_category_id s) db"
    and db': "db' = db\<lparr>cg_subcategories := update_where (\<lambda>r. sb_id r = sb_id s) (\<lambda>_. s) (cg_subcategories db)\<rparr>"
    using put by (auto simp: put_subcategory_def bindE_eq_Inr)
  have d: "distinct (map sb_id (cg_subcategories db))" using ok by (simp add: taxonomy_ok_def subcategories_ok_def)
  have in': "x \<in> set (cg_subcategories db') \<longleftrightarrow> x = s \<or> x \<in> set (cg_subcategories db) \<and> sb_id x \<noteq> sb_id s" for x
    using update_where_key_mem [OF d mem(1), of x "\<lambda>_. s"] mem(2) by (simp add: db')
  have ids: "map sb_id (cg_subcategories db') = map sb_id (cg_subcategories db)"
    unfolding db' by (simp, rule map_update_where) simp
  have "subcategories_ok db'"
  proof -
    have "\<forall>x \<in> set (cg_subcategories db'). sb_id x < cg_next_subcategory db' \<and> length (sb_name x) \<le> 100 \<and>
        category_exists (sb_category_id x) db'"
      using ok s mem unfolding Ball_def in' by (auto simp: db' taxonomy_ok_def subcategories_ok_def category_exists_def)
    then show ?thesis using d ids by (simp add: subcategories_ok_def)
  qed
  moreover have "categories_ok db'" using ok by (simp add: taxonomy_ok_def categories_ok_def db')
  moreover have "sb_id ` set (cg_subcategories db') = sb_id ` set (cg_subcategories db)" using ids by (metis list.set_map)
  then have "references_ok db'" using ok references_ok_cong [of db' db] by (simp add: db' taxonomy_ok_def)
  moreover have "rules_keyed db'" using ok rules_keyed_cong [of db db'] by (simp add: db' same_rules_def taxonomy_ok_def)
  ultimately show ?thesis by (simp add: taxonomy_ok_def)
qed

lemma remove_subcategory_ok [inv_intros]:
  assumes ok: "taxonomy_ok db" and rm: "remove_subcategory i db = Inr db'"
  shows "taxonomy_ok db'"
proof -
  have free: "\<forall>m \<in> set (cg_merchants db). me_subcategory_id m \<noteq> Some i" "\<forall>r \<in> set (cg_rules db). ru_subcategory_id r \<noteq> i"
    and db': "db' = db\<lparr>cg_subcategories := filter (\<lambda>s. sb_id s \<noteq> i) (cg_subcategories db)\<rparr>"
    using rm by (auto simp: remove_subcategory_def bindE_eq_Inr merchants_of_subcategory_def rules_of_subcategory_def filter_empty_conv)
  have "categories_ok db'" using ok by (simp add: taxonomy_ok_def categories_ok_def db')
  moreover have "subcategories_ok db'"
    using ok by (auto simp: taxonomy_ok_def subcategories_ok_def db' distinct_map_filter category_exists_def)
  moreover have "references_ok db'"
    using ok free unfolding taxonomy_ok_def references_ok_def subcategory_by_id_iff by (force simp: db')
  moreover have "rules_keyed db'" using ok rules_keyed_cong [of db db'] by (simp add: db' same_rules_def taxonomy_ok_def)
  ultimately show ?thesis by (simp add: taxonomy_ok_def)
qed

text \<open>Rules: the tables of the taxonomy stay as they are.\<close>

lemma rules_changed_ok:
  assumes ok: "taxonomy_ok db" and same: "same_taxonomy_tables db db'" and keyed: "rules_keyed db'"
    and refs: "\<And>r. r \<in> set (cg_rules db') \<Longrightarrow> subcategory_by_id (ru_subcategory_id r) db \<noteq> None"
  shows "taxonomy_ok db'"
  using assms
  unfolding taxonomy_ok_defs same_taxonomy_tables_def category_exists_def subcategory_by_id_def by simp

lemma insert_rule_ok [inv_intros]:
  assumes ok: "taxonomy_ok db" and ins: "insert_rule u prio ty pat sub act db = Inr (r, db')"
  shows "taxonomy_ok db'"
proof (rule rules_changed_ok [OF ok])
  note sh = insert_rule_shape [OF ins]
  show "same_taxonomy_tables db db'" by (simp add: sh(9) same_taxonomy_tables_def)
  show "rules_keyed db'" using rules_keyed_insert [OF _ ins] ok by (simp add: taxonomy_ok_def)
  show "subcategory_by_id (ru_subcategory_id x) db \<noteq> None" if "x \<in> set (cg_rules db')" for x
    using that sh(8) ok unfolding sh(9) rule_allowed_def taxonomy_ok_def references_ok_def by auto
qed

lemma put_rule_ok [inv_intros]:
  assumes ok: "taxonomy_ok db" and mem: "r0 \<in> set (cg_rules db)" "ru_id r = ru_id r0" and put: "put_rule r db = Inr db'"
  shows "taxonomy_ok db'"
proof (rule rules_changed_ok [OF ok])
  have keyed: "rules_keyed db" using ok by (simp add: taxonomy_ok_def)
  note sh = put_rule_shape [OF put]
  show "same_taxonomy_tables db db'" using sh by (simp add: same_taxonomy_tables_def)
  show "rules_keyed db'" by (rule rules_keyed_put [OF keyed mem put])
  show "subcategory_by_id (ru_subcategory_id x) db \<noteq> None" if "x \<in> set (cg_rules db')" for x
    using that sh ok unfolding put_rule_mem [OF keyed mem put] rule_allowed_def taxonomy_ok_def references_ok_def by auto
qed

lemma remove_rule_ok:
  assumes ok: "taxonomy_ok db"
  shows "taxonomy_ok (db\<lparr>cg_rules := filter (\<lambda>r. ru_id r \<noteq> i) (cg_rules db)\<rparr>)"
  by (rule rules_changed_ok [OF ok])
    (use ok in \<open>auto simp: same_taxonomy_tables_def taxonomy_ok_def references_ok_def rules_keyed_def rule_keys_unique_def
      distinct_map_filter\<close>)

section \<open>Every operation keeps the invariant\<close>

lemma keep_on_error_ok: "taxonomy_ok db \<Longrightarrow> (\<And>db'. m = Inr db' \<Longrightarrow> taxonomy_ok db') \<Longrightarrow> taxonomy_ok (keep_on_error db m)"
  by (auto simp: keep_on_error_def split: sum.splits)

lemma keep_second_ok: "taxonomy_ok db \<Longrightarrow> (\<And>x db'. m = Inr (x, db') \<Longrightarrow> taxonomy_ok db') \<Longrightarrow> taxonomy_ok (keep_second db m)"
  by (auto simp: keep_second_def split: sum.splits)

lemma create_category_ok: "taxonomy_ok db \<Longrightarrow> create_category now dto db = Inr (c, db') \<Longrightarrow> taxonomy_ok db'"
  by (auto simp: create_category_def bindE_eq_Inr intro: insert_category_ok)

lemma update_category_shape:
  "update_category now i p db = Inr (c, db') \<Longrightarrow>
     db' = db \<or>
     (\<exists>c0 db1. category_by_id i db = Some c0 \<and> ct_id c = ct_id c0 \<and> put_category c db = Inr db1 \<and>
        db' = cat_outbox_add now (CategoryEvent SnapUpdated (category_event_of c)) ''category'' (ct_id c) db1)"
  unfolding update_category_def get_category_def Let_def by (auto simp: bindE_eq_Inr split: if_splits)

lemma update_category_ok: "taxonomy_ok db \<Longrightarrow> update_category now i p db = Inr (c, db') \<Longrightarrow> taxonomy_ok db'"
  by (drule update_category_shape) (auto dest!: category_by_id_Some intro: put_category_ok)

lemma delete_category_ok: "taxonomy_ok db \<Longrightarrow> delete_category now i db = Inr db' \<Longrightarrow> taxonomy_ok db'"
  by (auto simp: delete_category_def bindE_eq_Inr intro: remove_category_ok)

lemma create_subcategory_ok: "taxonomy_ok db \<Longrightarrow> create_subcategory now c nm db = Inr (x, db') \<Longrightarrow> taxonomy_ok db'"
  by (auto simp: create_subcategory_def bindE_eq_Inr intro: insert_subcategory_ok)

lemma update_subcategory_shape:
  "update_subcategory now i nm c db = Inr (s, db') \<Longrightarrow>
     db' = db \<or>
     (\<exists>s0 db1. subcategory_by_id i db = Some s0 \<and> sb_id s = sb_id s0 \<and> put_subcategory s db = Inr db1 \<and>
        db' = cat_outbox_add now (SubCategoryEvent SnapUpdated (subcategory_event_of s)) ''subcategory'' (sb_id s) db1)"
  unfolding update_subcategory_def Let_def by (auto simp: bindE_eq_Inr split: if_splits)

lemma update_subcategory_ok: "taxonomy_ok db \<Longrightarrow> update_subcategory now i nm c db = Inr (x, db') \<Longrightarrow> taxonomy_ok db'"
  by (drule update_subcategory_shape) (auto dest!: subcategory_by_id_Some intro: put_subcategory_ok)

lemma delete_subcategory_ok: "taxonomy_ok db \<Longrightarrow> delete_subcategory now i db = Inr db' \<Longrightarrow> taxonomy_ok db'"
  by (auto simp: delete_subcategory_def bindE_eq_Inr intro: remove_subcategory_ok)

lemma as_duplicate_Inr [simp]: "as_duplicate pat m = Inr x \<longleftrightarrow> m = Inr x"
  by (cases m) (auto simp: as_duplicate_def split: cat_error.splits)

lemma create_rule_ok: "taxonomy_ok db \<Longrightarrow> create_rule u d db = Inr (x, db') \<Longrightarrow> taxonomy_ok db'"
  by (auto simp: create_rule_def Let_def bindE_eq_Inr intro: insert_rule_ok)

lemma get_owned_rule_mem: "get_owned_rule i u db = Inr r \<Longrightarrow> r \<in> set (cg_rules db) \<and> ru_id r = i \<and> ru_user_id r = Some u"
  by (auto simp: get_owned_rule_def rule_by_id_def dest: find_Some_mem split: option.splits if_splits)

lemma update_rule_ok:
  assumes ok: "taxonomy_ok db" and up: "update_rule u i p db = Inr (x, db')"
  shows "taxonomy_ok db'"
proof -
  obtain r r' where r: "get_owned_rule i u db = Inr r" "put_rule r' db = Inr db'" "ru_id r' = ru_id r"
    using up unfolding update_rule_def Let_def by (fastforce simp: bindE_eq_Inr)
  then show ?thesis using put_rule_ok [OF ok _ r(3, 2)] get_owned_rule_mem by blast
qed

lemma delete_rule_ok: "taxonomy_ok db \<Longrightarrow> delete_rule u i db = Inr db' \<Longrightarrow> taxonomy_ok db'"
  by (auto simp: delete_rule_def bindE_eq_Inr intro: remove_rule_ok)

lemma cat_commit_cases:
  "snd (cat_commit now queue body db db1) \<in> {db, db1} \<or>
     (\<exists>p. snd (cat_commit now queue body db db1) = db1\<lparr>cg_processed := cg_processed db1 @ [p]\<rparr>)"
  by (auto simp: cat_commit_def split: option.splits)

lemma taxonomy_ok_processed [simp]: "taxonomy_ok (db\<lparr>cg_processed := ps\<rparr>) = taxonomy_ok db"
  by (rule taxonomy_ok_cong) (simp_all add: same_taxonomy_tables_def same_rules_def)

lemma taxonomy_ok_results [simp]: "taxonomy_ok (db\<lparr>cg_results := rs\<rparr>) = taxonomy_ok db"
  by (rule taxonomy_ok_cong) (simp_all add: same_taxonomy_tables_def same_rules_def)

lemma cat_commit_ok: "taxonomy_ok db \<Longrightarrow> taxonomy_ok db1 \<Longrightarrow> taxonomy_ok (snd (cat_commit now queue body db db1))"
  using cat_commit_cases [of now queue body db db1] by auto

lemma learn_ok: "taxonomy_ok db \<Longrightarrow> learn plan db = Inr db' \<Longrightarrow> taxonomy_ok db'"
proof (cases plan)
  case (RetargetLearned i j)
  assume ok: "taxonomy_ok db" and l: "learn plan db = Inr db'"
  obtain r where r: "rule_by_id i db = Some r" "put_rule (r\<lparr>ru_subcategory_id := j, ru_active := True\<rparr>) db = Inr db'"
    using l RetargetLearned by (auto split: option.splits)
  then show ?thesis using put_rule_ok [OF ok _ _ r(2), of r] by (auto simp: rule_by_id_def dest: find_Some_mem)
qed (auto simp: bindE_eq_Inr intro: insert_rule_ok)

lemma apply_cat_op_ok: "taxonomy_ok db \<Longrightarrow> taxonomy_ok (apply_cat_op now op db)"
proof (cases op)
  case (CommitCreated body i r seen)
  assume "taxonomy_ok db"
  then show ?thesis by (simp add: CommitCreated created_commit_def cat_commit_ok save_result_def)
next
  case (CommitCorrected body plan)
  assume "taxonomy_ok db"
  then show ?thesis
    by (auto simp: CommitCorrected corrected_commit_def intro: cat_commit_ok learn_ok split: sum.splits)
next
  case CleanupInbox
  assume "taxonomy_ok db"
  then show ?thesis by (simp add: CleanupInbox cleanup_inbox_def Let_def)
qed (auto intro!: keep_on_error_ok keep_second_ok intro: create_category_ok update_category_ok delete_category_ok
    create_subcategory_ok update_subcategory_ok delete_subcategory_ok create_rule_ok update_rule_ok delete_rule_ok)



end
