(* ===== verification/CategorizationFlow.thy ===== *)
theory CategorizationFlow
  imports TaxonomyProofs TransactionProofs
begin

text \<open>
  categorization-service and transaction-service together: the events of the taxonomy keep the copy of
  transaction-service in step with the table, and a categorization reaches the transaction it was made for, once.
\<close>

section \<open>Tables by key\<close>

lemma find_key_append:
  "List.find (\<lambda>x. key x = i) (rows @ [r]) =
     (case List.find (\<lambda>x. key x = i) rows of None \<Rightarrow> if key r = i then Some r else None | x \<Rightarrow> x)"
  by (induction rows) auto

lemma find_key_update:
  "key r = k \<Longrightarrow> List.find (\<lambda>x. key x = i) (update_where (\<lambda>x. key x = k) (\<lambda>_. r) rows) =
     (if i = k then map_option (\<lambda>_. r) (List.find (\<lambda>x. key x = k) rows) else List.find (\<lambda>x. key x = i) rows)"
  by (induction rows) auto

lemma find_key_filter:
  "List.find (\<lambda>x. key x = i) (filter (\<lambda>x. key x \<noteq> k) rows) = (if i = k then None else List.find (\<lambda>x. key x = i) rows)"
  by (induction rows) auto

section \<open>The taxonomy as a function\<close>

text \<open>What the other services read of the taxonomy: name and type of a category, name, category and origin of a
  subcategory.\<close>

type_synonym taxonomy_view = "(int \<rightharpoonup> string \<times> string) \<times> (int \<rightharpoonup> string \<times> int \<times> bool)"

definition category_entry :: "category_row \<Rightarrow> string \<times> string" where
  "category_entry c = (ct_name c, category_type_value (ct_type c))"

definition subcategory_entry :: "subcategory_row \<Rightarrow> string \<times> int \<times> bool" where
  "subcategory_entry s = (sb_name s, sb_category_id s, sb_is_default s)"

definition taxonomy_of :: "cat_db \<Rightarrow> taxonomy_view" where
  "taxonomy_of db =
     (\<lambda>i. map_option category_entry (category_by_id i db), \<lambda>i. map_option subcategory_entry (subcategory_by_id i db))"

definition taxonomy_copy :: "tx_db \<Rightarrow> taxonomy_view" where
  "taxonomy_copy tdb =
     (\<lambda>i. map_option (\<lambda>k. (cc_name k, cc_type k)) (map_of (td_categories tdb) i),
      \<lambda>i. map_option (\<lambda>k. (sc_name k, sc_category_id k, sc_is_default k)) (map_of (td_subcategories tdb) i))"

text \<open>The abstract effect of an event on a reader's view.\<close>

fun apply_view :: "cat_event \<Rightarrow> taxonomy_view \<Rightarrow> taxonomy_view" where
  "apply_view (CategoryEvent k e) (cats, subs) =
     (cats(ts_category_id e := (if k = SnapDeleted then None else Some (ts_name e, ce_category_type e))), subs)"
| "apply_view (SubCategoryEvent k e) (cats, subs) =
     (cats, subs(se_subcategory_id e := (if k = SnapDeleted then None else Some (ts_name e, ts_category_id e, se_is_default e))))"
| "apply_view (CategorizedEvent e m v) view = view"

section \<open>The service announces every change\<close>

definition payloads :: "cat_db \<Rightarrow> cat_event list" where
  "payloads db = map ob_payload (cg_outbox db)"

text \<open>The values fit the columns of the reader.\<close>

fun event_fits :: "cat_event \<Rightarrow> bool" where
  "event_fits (CategoryEvent k e) \<longleftrightarrow> length (ts_name e) \<le> 45 \<and> length (ce_category_type e) \<le> 20"
| "event_fits (SubCategoryEvent k e) \<longleftrightarrow> length (ts_name e) \<le> 100"
| "event_fits (CategorizedEvent e m v) \<longleftrightarrow> True"

text \<open>The events of the runtime carry no identity.\<close>

fun runtime_event :: "cat_event \<Rightarrow> bool" where
  "runtime_event (CategoryEvent k e) \<longleftrightarrow> (\<exists>c. e = category_event_of c)"
| "runtime_event (SubCategoryEvent k e) \<longleftrightarrow> (\<exists>s. e = subcategory_event_of s)"
| "runtime_event (CategorizedEvent e m v) \<longleftrightarrow> True"

definition announced :: "cat_db \<Rightarrow> cat_db \<Rightarrow> cat_event list \<Rightarrow> bool" where
  "announced db db' evs \<longleftrightarrow>
     payloads db' = payloads db @ evs \<and> taxonomy_of db' = fold apply_view evs (taxonomy_of db) \<and>
     list_all (\<lambda>ev. event_fits ev \<and> runtime_event ev) evs"

lemma payloads_add [simp]: "payloads (cat_outbox_add now ev ty i db) = payloads db @ [ev]"
  by (simp add: payloads_def cat_outbox_add_def ob_add_def ob_build_def)

lemma taxonomy_of_add [simp]: "taxonomy_of (cat_outbox_add now ev ty i db) = taxonomy_of db"
  by (simp add: taxonomy_of_def cat_outbox_add_def category_by_id_def subcategory_by_id_def)

lemma announced_none: "payloads db' = payloads db \<Longrightarrow> taxonomy_of db' = taxonomy_of db \<Longrightarrow> announced db db' []"
  by (simp add: announced_def)

lemma announced_one:
  "payloads db1 = payloads db \<Longrightarrow> taxonomy_of db1 = apply_view ev (taxonomy_of db) \<Longrightarrow> event_fits ev \<Longrightarrow> runtime_event ev \<Longrightarrow>
     announced db (cat_outbox_add now ev ty i db1) [ev]"
  by (simp add: announced_def)

lemma length_category_type_value [simp]: "length (category_type_value ty) \<le> 20"
  by (cases ty) simp_all

lemma category_by_id_simps:
  "category_by_id i (db\<lparr>cg_subcategories := ss, cg_next_subcategory := n\<rparr>) = category_by_id i db"
  "category_by_id i (db\<lparr>cg_subcategories := ss\<rparr>) = category_by_id i db"
  "subcategory_by_id i (db\<lparr>cg_categories := cs, cg_next_category := n\<rparr>) = subcategory_by_id i db"
  "subcategory_by_id i (db\<lparr>cg_categories := cs\<rparr>) = subcategory_by_id i db"
  by (simp_all add: category_by_id_def subcategory_by_id_def)

lemma insert_category_view:
  assumes "taxonomy_ok db" and "insert_category nm ty order db = Inr (c, db')"
  shows "payloads db' = payloads db" "taxonomy_of db' = apply_view (CategoryEvent SnapCreated (category_event_of c)) (taxonomy_of db)"
    "event_fits (CategoryEvent SnapCreated (category_event_of c))"
proof -
  have c: "ct_id c = cg_next_category db" "length (ct_name c) \<le> 45"
    and db': "db' = db\<lparr>cg_categories := cg_categories db @ [c], cg_next_category := cg_next_category db + 1\<rparr>"
    using assms(2) by (auto simp: insert_category_def Let_def bindE_eq_Inr)
  have "category_by_id (ct_id c) db = None"
    using assms(1) c(1) by (force simp: category_by_id_def find_None_all taxonomy_ok_def categories_ok_def)
  then have "category_by_id i db' = (if i = ct_id c then Some c else category_by_id i db)" for i
    by (simp add: category_by_id_def db' find_key_append split: option.splits)
  then show "taxonomy_of db' = apply_view (CategoryEvent SnapCreated (category_event_of c)) (taxonomy_of db)"
    by (auto simp: taxonomy_of_def category_event_of_def category_entry_def fun_eq_iff db' category_by_id_simps)
  show "payloads db' = payloads db" by (simp add: db' payloads_def)
  show "event_fits (CategoryEvent SnapCreated (category_event_of c))" using c(2) by (simp add: category_event_of_def)
qed

lemma put_category_view:
  assumes "category_by_id (ct_id c) db = Some c0" and "put_category c db = Inr db'"
  shows "payloads db' = payloads db" "taxonomy_of db' = apply_view (CategoryEvent SnapUpdated (category_event_of c)) (taxonomy_of db)"
    "event_fits (CategoryEvent SnapUpdated (category_event_of c))"
proof -
  have c: "length (ct_name c) \<le> 45"
    and db': "db' = db\<lparr>cg_categories := update_where (\<lambda>r. ct_id r = ct_id c) (\<lambda>_. c) (cg_categories db)\<rparr>"
    using assms(2) by (auto simp: put_category_def bindE_eq_Inr)
  have "category_by_id i db' = (if i = ct_id c then Some c else category_by_id i db)" for i
    using assms(1) by (simp add: category_by_id_def db' find_key_update [where key = ct_id])
  then show "taxonomy_of db' = apply_view (CategoryEvent SnapUpdated (category_event_of c)) (taxonomy_of db)"
    by (auto simp: taxonomy_of_def category_event_of_def category_entry_def fun_eq_iff db' category_by_id_simps)
  show "payloads db' = payloads db" by (simp add: db' payloads_def)
  show "event_fits (CategoryEvent SnapUpdated (category_event_of c))" using c by (simp add: category_event_of_def)
qed

lemma remove_category_view:
  assumes "taxonomy_ok db" and "category_by_id i db = Some c" and "remove_category i db = Inr db'"
  shows "payloads db' = payloads db" "taxonomy_of db' = apply_view (CategoryEvent SnapDeleted (category_event_of c)) (taxonomy_of db)"
    "event_fits (CategoryEvent SnapDeleted (category_event_of c))"
proof -
  have c: "c \<in> set (cg_categories db)" "ct_id c = i" using category_by_id_Some [OF assms(2)] by simp_all
  have db': "db' = db\<lparr>cg_categories := filter (\<lambda>c. ct_id c \<noteq> i) (cg_categories db)\<rparr>"
    using assms(3) by (auto simp: remove_category_def bindE_eq_Inr)
  have "category_by_id j db' = (if j = i then None else category_by_id j db)" for j
    by (simp add: category_by_id_def db' find_key_filter)
  then show "taxonomy_of db' = apply_view (CategoryEvent SnapDeleted (category_event_of c)) (taxonomy_of db)"
    using c by (auto simp: taxonomy_of_def category_event_of_def fun_eq_iff db' category_by_id_simps)
  show "payloads db' = payloads db" by (simp add: db' payloads_def)
  show "event_fits (CategoryEvent SnapDeleted (category_event_of c))"
    using c assms(1) by (simp add: category_event_of_def taxonomy_ok_def categories_ok_def)
qed

lemma insert_subcategory_view:
  assumes "taxonomy_ok db" and "insert_subcategory nm c dflt db = Inr (s, db')"
  shows "payloads db' = payloads db"
    "taxonomy_of db' = apply_view (SubCategoryEvent SnapCreated (subcategory_event_of s)) (taxonomy_of db)"
    "event_fits (SubCategoryEvent SnapCreated (subcategory_event_of s))"
proof -
  have s: "sb_id s = cg_next_subcategory db" "length (sb_name s) \<le> 100"
    and db': "db' = db\<lparr>cg_subcategories := cg_subcategories db @ [s], cg_next_subcategory := cg_next_subcategory db + 1\<rparr>"
    using assms(2) by (auto simp: insert_subcategory_def Let_def bindE_eq_Inr)
  have "subcategory_by_id (sb_id s) db = None"
    using assms(1) s(1) by (force simp: subcategory_by_id_def find_None_all taxonomy_ok_def subcategories_ok_def)
  then have "subcategory_by_id i db' = (if i = sb_id s then Some s else subcategory_by_id i db)" for i
    by (simp add: subcategory_by_id_def db' find_key_append split: option.splits)
  then show "taxonomy_of db' = apply_view (SubCategoryEvent SnapCreated (subcategory_event_of s)) (taxonomy_of db)"
    by (auto simp: taxonomy_of_def subcategory_event_of_def subcategory_entry_def fun_eq_iff db' category_by_id_simps)
  show "payloads db' = payloads db" by (simp add: db' payloads_def)
  show "event_fits (SubCategoryEvent SnapCreated (subcategory_event_of s))" using s(2) by (simp add: subcategory_event_of_def)
qed

lemma put_subcategory_view:
  assumes "subcategory_by_id (sb_id s) db = Some s0" and "put_subcategory s db = Inr db'"
  shows "payloads db' = payloads db"
    "taxonomy_of db' = apply_view (SubCategoryEvent SnapUpdated (subcategory_event_of s)) (taxonomy_of db)"
    "event_fits (SubCategoryEvent SnapUpdated (subcategory_event_of s))"
proof -
  have s: "length (sb_name s) \<le> 100"
    and db': "db' = db\<lparr>cg_subcategories := update_where (\<lambda>r. sb_id r = sb_id s) (\<lambda>_. s) (cg_subcategories db)\<rparr>"
    using assms(2) by (auto simp: put_subcategory_def bindE_eq_Inr)
  have "subcategory_by_id i db' = (if i = sb_id s then Some s else subcategory_by_id i db)" for i
    using assms(1) by (simp add: subcategory_by_id_def db' find_key_update [where key = sb_id])
  then show "taxonomy_of db' = apply_view (SubCategoryEvent SnapUpdated (subcategory_event_of s)) (taxonomy_of db)"
    by (auto simp: taxonomy_of_def subcategory_event_of_def subcategory_entry_def fun_eq_iff db' category_by_id_simps)
  show "payloads db' = payloads db" by (simp add: db' payloads_def)
  show "event_fits (SubCategoryEvent SnapUpdated (subcategory_event_of s))" using s by (simp add: subcategory_event_of_def)
qed

lemma remove_subcategory_view:
  assumes "taxonomy_ok db" and "subcategory_by_id i db = Some s" and "remove_subcategory i db = Inr db'"
  shows "payloads db' = payloads db"
    "taxonomy_of db' = apply_view (SubCategoryEvent SnapDeleted (subcategory_event_of s)) (taxonomy_of db)"
    "event_fits (SubCategoryEvent SnapDeleted (subcategory_event_of s))"
proof -
  have s: "s \<in> set (cg_subcategories db)" "sb_id s = i" using subcategory_by_id_Some [OF assms(2)] by simp_all
  have db': "db' = db\<lparr>cg_subcategories := filter (\<lambda>s. sb_id s \<noteq> i) (cg_subcategories db)\<rparr>"
    using assms(3) by (auto simp: remove_subcategory_def bindE_eq_Inr)
  have "subcategory_by_id j db' = (if j = i then None else subcategory_by_id j db)" for j
    by (simp add: subcategory_by_id_def db' find_key_filter)
  then show "taxonomy_of db' = apply_view (SubCategoryEvent SnapDeleted (subcategory_event_of s)) (taxonomy_of db)"
    using s by (auto simp: taxonomy_of_def subcategory_event_of_def fun_eq_iff db' category_by_id_simps)
  show "payloads db' = payloads db" by (simp add: db' payloads_def)
  show "event_fits (SubCategoryEvent SnapDeleted (subcategory_event_of s))"
    using s assms(1) by (simp add: subcategory_event_of_def taxonomy_ok_def subcategories_ok_def)
qed

lemma announced_same_tables:
  "same_taxonomy_tables db db' \<Longrightarrow> cg_outbox db' = cg_outbox db \<Longrightarrow> announced db db' []"
  by (rule announced_none)
    (simp_all add: payloads_def taxonomy_of_def same_taxonomy_tables_def category_by_id_def subcategory_by_id_def)

lemma announced_refl: "announced db db []"
  by (simp add: announced_none)

lemma announced_keep_second:
  "(\<And>x db'. m = Inr (x, db') \<Longrightarrow> \<exists>evs. announced db db' evs) \<Longrightarrow> \<exists>evs. announced db (keep_second db m) evs"
  using announced_refl by (auto simp: keep_second_def split: sum.splits)

lemma announced_keep_on_error:
  "(\<And>db'. m = Inr db' \<Longrightarrow> \<exists>evs. announced db db' evs) \<Longrightarrow> \<exists>evs. announced db (keep_on_error db m) evs"
  using announced_refl by (auto simp: keep_on_error_def split: sum.splits)

lemma create_category_announced:
  assumes "taxonomy_ok db" and "create_category now dto db = Inr (c, db')"
  shows "\<exists>evs. announced db db' evs"
proof -
  obtain nm ty order db1 where "insert_category nm ty order db = Inr (c, db1)"
    "db' = cat_outbox_add now (CategoryEvent SnapCreated (category_event_of c)) ''category'' (ct_id c) db1"
    using assms(2) by (auto simp: create_category_def bindE_eq_Inr)
  then show ?thesis using announced_one [OF insert_category_view [OF assms(1)]] by fastforce
qed

lemma update_category_announced:
  assumes "update_category now i p db = Inr (c, db')"
  shows "\<exists>evs. announced db db' evs"
  using update_category_shape [OF assms]
proof (elim disjE exE conjE)
  fix c0 db1
  assume "category_by_id i db = Some c0" "ct_id c = ct_id c0" "put_category c db = Inr db1"
    and db': "db' = cat_outbox_add now (CategoryEvent SnapUpdated (category_event_of c)) ''category'' (ct_id c) db1"
  then have "category_by_id (ct_id c) db = Some c0" using category_by_id_Some by metis
  then show ?thesis
    using announced_one [OF put_category_view] \<open>put_category c db = Inr db1\<close> unfolding db' by fastforce
qed (use announced_refl in auto)

lemma delete_category_announced:
  assumes "taxonomy_ok db" and "delete_category now i db = Inr db'"
  shows "\<exists>evs. announced db db' evs"
proof -
  obtain c db1 where "category_by_id i db = Some c" "remove_category i db = Inr db1"
    "db' = cat_outbox_add now (CategoryEvent SnapDeleted (category_event_of c)) ''category'' (ct_id c) db1"
    using assms(2) by (auto simp: delete_category_def get_category_def bindE_eq_Inr)
  then show ?thesis using announced_one [OF remove_category_view [OF assms(1)]] by fastforce
qed

lemma create_subcategory_announced:
  assumes "taxonomy_ok db" and "create_subcategory now c nm db = Inr (s, db')"
  shows "\<exists>evs. announced db db' evs"
proof -
  obtain db1 where "insert_subcategory nm c False db = Inr (s, db1)"
    "db' = cat_outbox_add now (SubCategoryEvent SnapCreated (subcategory_event_of s)) ''subcategory'' (sb_id s) db1"
    using assms(2) by (auto simp: create_subcategory_def bindE_eq_Inr)
  then show ?thesis using announced_one [OF insert_subcategory_view [OF assms(1)]] by fastforce
qed

lemma update_subcategory_announced:
  assumes "update_subcategory now i nm c db = Inr (s, db')"
  shows "\<exists>evs. announced db db' evs"
  using update_subcategory_shape [OF assms]
proof (elim disjE exE conjE)
  fix s0 db1
  assume "subcategory_by_id i db = Some s0" "sb_id s = sb_id s0" "put_subcategory s db = Inr db1"
    and db': "db' = cat_outbox_add now (SubCategoryEvent SnapUpdated (subcategory_event_of s)) ''subcategory'' (sb_id s) db1"
  then have "subcategory_by_id (sb_id s) db = Some s0" using subcategory_by_id_Some by metis
  then show ?thesis
    using announced_one [OF put_subcategory_view] \<open>put_subcategory s db = Inr db1\<close> unfolding db' by fastforce
qed (use announced_refl in auto)

lemma delete_subcategory_announced:
  assumes "taxonomy_ok db" and "delete_subcategory now i db = Inr db'"
  shows "\<exists>evs. announced db db' evs"
proof -
  obtain s db1 where "subcategory_by_id i db = Some s" "remove_subcategory i db = Inr db1"
    "db' = cat_outbox_add now (SubCategoryEvent SnapDeleted (subcategory_event_of s)) ''subcategory'' (sb_id s) db1"
    using assms(2) by (auto simp: delete_subcategory_def bindE_eq_Inr)
  then show ?thesis using announced_one [OF remove_subcategory_view [OF assms(1)]] by fastforce
qed

text \<open>Rules, results and the inbox do not touch the taxonomy.\<close>

lemma insert_rule_tables:
  "insert_rule u prio ty pat sub act db = Inr (r, db') \<Longrightarrow> same_taxonomy_tables db db' \<and> cg_outbox db' = cg_outbox db"
  using insert_rule_shape(9) [of u prio ty pat sub act db r db'] by (simp add: same_taxonomy_tables_def)

lemma put_rule_tables: "put_rule r db = Inr db' \<Longrightarrow> same_taxonomy_tables db db' \<and> cg_outbox db' = cg_outbox db"
  using put_rule_shape [of r db db'] by (simp add: same_taxonomy_tables_def)

lemma learn_tables: "learn plan db = Inr db' \<Longrightarrow> same_taxonomy_tables db db' \<and> cg_outbox db' = cg_outbox db"
  using put_rule_tables
  by (cases plan) (auto simp: bindE_eq_Inr same_taxonomy_tables_def dest: insert_rule_tables split: option.splits)

lemma update_rule_tables:
  "update_rule u i p db = Inr (x, db') \<Longrightarrow> same_taxonomy_tables db db' \<and> cg_outbox db' = cg_outbox db"
  unfolding update_rule_def Let_def using put_rule_tables by (fastforce simp: bindE_eq_Inr)

lemma announced_processed: "announced db (db'\<lparr>cg_processed := ps\<rparr>) evs = announced db db' evs"
  by (simp add: announced_def payloads_def taxonomy_of_def category_by_id_def subcategory_by_id_def)

lemma announced_commit:
  "announced db db1 evs \<Longrightarrow> \<exists>evs. announced db (snd (cat_commit now queue body db db1)) evs"
  using cat_commit_cases [of now queue body db db1] announced_refl announced_processed by (metis insert_iff singletonD)

lemma apply_cat_op_announced: "taxonomy_ok db \<Longrightarrow> \<exists>evs. announced db (apply_cat_op now op db) evs"
proof (cases op)
  case (CommitCreated body i r seen)
  have "announced db (save_result now (result_record i r) (categorized_event i r seen) db) [categorized_event i r seen]"
    unfolding save_result_def
    by (rule announced_one)
      (simp_all add: payloads_def categorized_event_def taxonomy_of_def category_by_id_def subcategory_by_id_def)
  then show ?thesis by (simp add: CommitCreated created_commit_def announced_commit)
next
  case (CommitCorrected body plan)
  show ?thesis
  proof (cases "learn plan db")
    case (Inr db1)
    then have "announced db db1 []" using learn_tables announced_same_tables by blast
    then show ?thesis using announced_commit Inr by (simp add: CommitCorrected corrected_commit_def)
  qed (use announced_refl in \<open>auto simp: CommitCorrected corrected_commit_def\<close>)
next
  case CleanupInbox
  show ?thesis using announced_refl announced_processed by (auto simp: CleanupInbox cleanup_inbox_def Let_def)
next
  case (CreateRule u d)
  show ?thesis
    unfolding CreateRule apply_cat_op.simps
    by (rule announced_keep_second)
      (auto simp: create_rule_def Let_def bindE_eq_Inr intro!: exI announced_same_tables dest: insert_rule_tables)
next
  case (UpdateRule u i p)
  show ?thesis
    unfolding UpdateRule apply_cat_op.simps
    by (rule announced_keep_second) (blast dest: update_rule_tables intro: announced_same_tables)
next
  case (DeleteRule u i)
  show ?thesis
    unfolding DeleteRule apply_cat_op.simps
    by (rule announced_keep_on_error)
      (auto simp: delete_rule_def bindE_eq_Inr same_taxonomy_tables_def intro!: exI announced_same_tables)
qed (auto intro!: announced_keep_second announced_keep_on_error intro: create_category_announced update_category_announced
    delete_category_announced create_subcategory_announced update_subcategory_announced delete_subcategory_announced)

lemma run_cat_ops_announced: "taxonomy_ok db \<Longrightarrow> \<exists>evs. announced db (run_cat_ops ops db) evs"
proof (induction ops arbitrary: db)
  case Nil
  then show ?case using announced_refl by (auto simp: run_cat_ops_def)
next
  case (Cons x ops)
  obtain now op where x: "x = (now, op)" by fastforce
  let ?db1 = "apply_cat_op now op db"
  obtain evs where evs: "announced db ?db1 evs" using apply_cat_op_announced Cons.prems by blast
  obtain evs' where evs': "announced ?db1 (run_cat_ops ops ?db1) evs'"
    using Cons.IH apply_cat_op_ok Cons.prems by blast
  have "announced db (run_cat_ops ops ?db1) (evs @ evs')" using evs evs' by (simp add: announced_def)
  then show ?case by (auto simp: x run_cat_ops_def)
qed

section \<open>The copy follows\<close>

definition json_opt :: "('a \<Rightarrow> json) \<Rightarrow> 'a option \<Rightarrow> json" where
  "json_opt f x = (case x of None \<Rightarrow> JNull | Some y \<Rightarrow> f y)"

text \<open>\<open>model_dump_json\<close>: every field is written, an absent one as null.\<close>

definition snapshot_fields :: "'a taxonomy_snapshot_scheme \<Rightarrow> dict" where
  "snapshot_fields e =
     [(''public_id'', json_opt JStr (ts_public_id e)), (''semantic_key'', json_opt JStr (ts_semantic_key e)),
      (''taxonomy_version'', json_opt JInt (ts_taxonomy_version e)), (''lifecycle'', json_opt JStr (ts_lifecycle e)),
      (''deprecated_in_version'', json_opt JInt (ts_deprecated_in_version e)),
      (''replaced_by_public_id'', json_opt JStr (ts_replaced_by_public_id e)),
      (''name'', JStr (ts_name e)), (''category_id'', JInt (ts_category_id e))]"

fun event_body :: "cat_event \<Rightarrow> dict" where
  "event_body (CategoryEvent k e) =
     snapshot_fields e @ [(''category_type'', JStr (ce_category_type e)), (''display_order'', JInt (ce_display_order e))]"
| "event_body (SubCategoryEvent k e) =
     snapshot_fields e @
       [(''subcategory_id'', JInt (se_subcategory_id e)), (''is_default'', JBool (se_is_default e)),
        (''parent_public_id'', json_opt JStr (se_parent_public_id e)), (''is_fallback'', json_opt JBool (se_is_fallback e))]"
| "event_body (CategorizedEvent e m v) = []"

fun is_taxonomy_event :: "cat_event \<Rightarrow> bool" where
  "is_taxonomy_event (CategorizedEvent e m v) = False"
| "is_taxonomy_event ev = True"

text \<open>The consumer's queue is bound to the events of the taxonomy; they arrive in the order of the outbox.\<close>

fun deliver_taxonomy :: "(string \<times> cat_event) list \<Rightarrow> tx_db \<Rightarrow> bool \<times> tx_db" where
  "deliver_taxonomy [] tdb = (True, tdb)"
| "deliver_taxonomy ((m, ev) # rest) tdb =
     (case taxonomy_handle m (cat_event_type ev) (event_body ev) tdb of
        (Handled, tdb') \<Rightarrow> deliver_taxonomy rest tdb'
      | (_, tdb') \<Rightarrow> (False, tdb'))"

lemma apply_identity_null:
  "dget_or (apply_identity (event_body (CategoryEvent k (category_event_of c))) ident) ''public_id'' JNull = JNull"
  "dget_or (apply_identity (event_body (CategoryEvent k (category_event_of c))) ident) ''semantic_key'' JNull = JNull"
  "dget_or (apply_identity (event_body (SubCategoryEvent k (subcategory_event_of s))) ident) ''public_id'' JNull = JNull"
  "dget_or (apply_identity (event_body (SubCategoryEvent k (subcategory_event_of s))) ident) ''semantic_key'' JNull = JNull"
  by (simp_all add: apply_identity_def identity_names_def snapshot_fields_def category_event_of_def subcategory_event_of_def json_opt_def)

lemma fresh_identity_null:
  "dget_or (fresh_identity (event_body (CategoryEvent k (category_event_of c)))) ''public_id'' JNull = JNull"
  "dget_or (fresh_identity (event_body (CategoryEvent k (category_event_of c)))) ''semantic_key'' JNull = JNull"
  "dget_or (fresh_identity (event_body (SubCategoryEvent k (subcategory_event_of s)))) ''public_id'' JNull = JNull"
  "dget_or (fresh_identity (event_body (SubCategoryEvent k (subcategory_event_of s)))) ''semantic_key'' JNull = JNull"
  by (simp_all add: fresh_identity_def identity_names_def snapshot_fields_def category_event_of_def subcategory_event_of_def
      json_opt_def dget_or_def)

lemma null_identity_unique:
  "dget_or ident ''public_id'' JNull = JNull \<Longrightarrow> dget_or ident ''semantic_key'' JNull = JNull \<Longrightarrow> identity_unique i ident others"
  by (simp add: identity_unique_def)

definition same_inbox :: "tx_db \<Rightarrow> tx_db \<Rightarrow> bool" where
  "same_inbox tdb tdb' \<longleftrightarrow> td_processed tdb' = td_processed tdb"

lemma upsert_category_effect:
  assumes fits: "event_fits (CategoryEvent k (category_event_of c))"
  shows "\<exists>tdb'. upsert_category_copy (event_body (CategoryEvent k (category_event_of c))) tdb = Inr tdb' \<and> same_inbox tdb tdb' \<and>
    taxonomy_copy tdb' = ((fst (taxonomy_copy tdb))(ct_id c \<mapsto> category_entry c), snd (taxonomy_copy tdb))"
proof -
  let ?b = "event_body (CategoryEvent k (category_event_of c))"
  let ?ident = "case map_of (td_categories tdb) (ct_id c) of None \<Rightarrow> fresh_identity ?b | Some x \<Rightarrow> apply_identity ?b (cc_identity x)"
  have unique: "identity_unique (ct_id c) ?ident others" for others
    by (rule null_identity_unique) (simp_all only: apply_identity_null fresh_identity_null split: option.split, simp_all)
  have fields: "dget ?b ''category_id'' = Some (JInt (ct_id c))" "dget ?b ''name'' = Some (JStr (ct_name c))"
    "dget ?b ''category_type'' = Some (JStr (category_type_value (ct_type c)))"
    by (simp_all add: snapshot_fields_def category_event_of_def)
  have len: "length (ct_name c) \<le> 45" using fits by (simp add: category_event_of_def)
  have "upsert_category_copy ?b tdb =
      Inr (tdb\<lparr>td_categories := AList.update (ct_id c)
        \<lparr>cc_name = ct_name c, cc_type = category_type_value (ct_type c), cc_identity = ?ident\<rparr> (td_categories tdb)\<rparr>)"
    using unique len unfolding upsert_category_copy_def tx_req_def fields
    by (simp add: of_option_def short_text_def guardE_def)
  then show ?thesis by (auto simp: same_inbox_def taxonomy_copy_def update_conv' category_entry_def fun_eq_iff)
qed

lemma upsert_subcategory_effect:
  assumes fits: "event_fits (SubCategoryEvent k (subcategory_event_of s))"
  shows "\<exists>tdb'. upsert_subcategory_copy (event_body (SubCategoryEvent k (subcategory_event_of s))) tdb = Inr tdb' \<and> same_inbox tdb tdb' \<and>
    taxonomy_copy tdb' = (fst (taxonomy_copy tdb), (snd (taxonomy_copy tdb))(sb_id s \<mapsto> subcategory_entry s))"
proof -
  let ?b = "event_body (SubCategoryEvent k (subcategory_event_of s))"
  let ?old = "map_of (td_subcategories tdb) (sb_id s)"
  let ?ident = "case ?old of None \<Rightarrow> fresh_identity ?b | Some x \<Rightarrow> apply_identity ?b (sc_identity x)"
  have unique: "identity_unique (sb_id s) ?ident others" for others
    by (rule null_identity_unique) (simp_all only: apply_identity_null fresh_identity_null split: option.split, simp_all)
  have fields: "dget ?b ''subcategory_id'' = Some (JInt (sb_id s))" "dget ?b ''name'' = Some (JStr (sb_name s))"
    "dget ?b ''category_id'' = Some (JInt (sb_category_id s))" "dget_or ?b ''is_default'' (JBool True) = JBool (sb_is_default s)"
    by (simp_all add: snapshot_fields_def subcategory_event_of_def dget_or_def)
  have len: "length (sb_name s) \<le> 100" using fits by (simp add: subcategory_event_of_def)
  have "upsert_subcategory_copy ?b tdb =
      Inr (tdb\<lparr>td_subcategories := AList.update (sb_id s)
        \<lparr>sc_name = sb_name s, sc_category_id = sb_category_id s, sc_is_default = sb_is_default s,
         sc_parent_public_id = dget_or ?b ''parent_public_id'' (case ?old of None \<Rightarrow> JNull | Some k \<Rightarrow> sc_parent_public_id k),
         sc_is_fallback = dget_or ?b ''is_fallback'' (case ?old of None \<Rightarrow> JNull | Some k \<Rightarrow> sc_is_fallback k),
         sc_identity = ?ident\<rparr> (td_subcategories tdb)\<rparr>)"
    using unique len unfolding upsert_subcategory_copy_def tx_req_def fields
    by (simp add: of_option_def short_text_def guardE_def Let_def)
  then show ?thesis by (auto simp: same_inbox_def taxonomy_copy_def update_conv' subcategory_entry_def fun_eq_iff)
qed

lemma delete_copies_effect:
  "\<exists>tdb'. delete_category_copy (event_body (CategoryEvent k (category_event_of c))) tdb = Inr tdb' \<and> same_inbox tdb tdb' \<and>
     taxonomy_copy tdb' = ((fst (taxonomy_copy tdb))(ct_id c := None), snd (taxonomy_copy tdb))"
  "\<exists>tdb'. delete_subcategory_copy (event_body (SubCategoryEvent k (subcategory_event_of s))) tdb = Inr tdb' \<and> same_inbox tdb tdb' \<and>
     taxonomy_copy tdb' = (fst (taxonomy_copy tdb), (snd (taxonomy_copy tdb))(sb_id s := None))"
proof -
  have "dget (event_body (CategoryEvent k (category_event_of c))) ''category_id'' = Some (JInt (ct_id c))"
    by (simp add: snapshot_fields_def category_event_of_def)
  then show "\<exists>tdb'. delete_category_copy (event_body (CategoryEvent k (category_event_of c))) tdb = Inr tdb' \<and> same_inbox tdb tdb' \<and>
     taxonomy_copy tdb' = ((fst (taxonomy_copy tdb))(ct_id c := None), snd (taxonomy_copy tdb))"
    by (auto simp: delete_category_copy_def tx_req_def of_option_def same_inbox_def taxonomy_copy_def delete_conv' fun_eq_iff)
  have "dget (event_body (SubCategoryEvent k (subcategory_event_of s))) ''subcategory_id'' = Some (JInt (sb_id s))"
    by (simp add: snapshot_fields_def subcategory_event_of_def)
  then show "\<exists>tdb'. delete_subcategory_copy (event_body (SubCategoryEvent k (subcategory_event_of s))) tdb = Inr tdb' \<and> same_inbox tdb tdb' \<and>
     taxonomy_copy tdb' = (fst (taxonomy_copy tdb), (snd (taxonomy_copy tdb))(sb_id s := None))"
    by (auto simp: delete_subcategory_copy_def tx_req_def of_option_def same_inbox_def taxonomy_copy_def delete_conv' fun_eq_iff)
qed

text \<open>One event, in the abstract and in the consumer.\<close>

lemma dispatch_effect:
  assumes tax: "is_taxonomy_event ev" and fits: "event_fits ev" and rt: "runtime_event ev"
  shows "\<exists>tdb'. taxonomy_dispatch (cat_event_type ev) (event_body ev) tdb = Some (Inr tdb') \<and> same_inbox tdb tdb' \<and>
    taxonomy_copy tdb' = apply_view ev (taxonomy_copy tdb)"
proof (cases ev)
  case (CategoryEvent k e)
  then obtain c where c: "e = category_event_of c" using rt by auto
  have view: "apply_view ev (taxonomy_copy tdb) =
      ((fst (taxonomy_copy tdb))(ct_id c := (if k = SnapDeleted then None else Some (category_entry c))), snd (taxonomy_copy tdb))"
    by (cases "taxonomy_copy tdb") (simp add: CategoryEvent c category_event_of_def category_entry_def)
  show ?thesis
    using upsert_category_effect [of k c tdb] delete_copies_effect(1) [of k c tdb] fits
    unfolding view unfolding CategoryEvent c by (cases k) (auto simp: taxonomy_dispatch_def simp del: event_body.simps)
next
  case (SubCategoryEvent k e)
  then obtain s where s: "e = subcategory_event_of s" using rt by auto
  have view: "apply_view ev (taxonomy_copy tdb) =
      (fst (taxonomy_copy tdb), (snd (taxonomy_copy tdb))(sb_id s := (if k = SnapDeleted then None else Some (subcategory_entry s))))"
    by (cases "taxonomy_copy tdb") (simp add: SubCategoryEvent s subcategory_event_of_def subcategory_entry_def)
  show ?thesis
    using upsert_subcategory_effect [of k s tdb] delete_copies_effect(2) [of k s tdb] fits
    unfolding view unfolding SubCategoryEvent s by (cases k) (auto simp: taxonomy_dispatch_def simp del: event_body.simps)
qed (use tax in simp)

lemma taxonomy_copy_processed [simp]: "taxonomy_copy (tdb\<lparr>td_processed := ps\<rparr>) = taxonomy_copy tdb"
  by (simp add: taxonomy_copy_def)

lemma deliver_effect:
  assumes "list_all (\<lambda>ev. is_taxonomy_event ev \<and> event_fits ev \<and> runtime_event ev) evs" and "length ms = length evs"
    and "distinct ms" and "\<And>m. m \<in> set ms \<Longrightarrow> m \<noteq> [] \<and> length m \<le> 36 \<and> \<not> tx_is_duplicate TAXONOMY_QUEUE m tdb"
  shows "\<exists>tdb'. deliver_taxonomy (zip ms evs) tdb = (True, tdb') \<and> taxonomy_copy tdb' = fold apply_view evs (taxonomy_copy tdb)"
  using assms
proof (induction evs arbitrary: ms tdb)
  case (Cons ev evs)
  obtain m ms' where ms: "ms = m # ms'" using Cons.prems(2) by (cases ms) auto
  obtain t1 where t1: "taxonomy_dispatch (cat_event_type ev) (event_body ev) tdb = Some (Inr t1)" "same_inbox tdb t1"
    "taxonomy_copy t1 = apply_view ev (taxonomy_copy tdb)"
    using dispatch_effect Cons.prems(1) by auto
  let ?t = "t1\<lparr>td_processed := td_processed t1 @ [(m, TAXONOMY_QUEUE)]\<rparr>"
  have h: "taxonomy_handle m (cat_event_type ev) (event_body ev) tdb = (Handled, ?t)"
    using t1(1) Cons.prems(4) [of m] by (simp add: taxonomy_handle_def ms)
  have "\<exists>tdb'. deliver_taxonomy (zip ms' evs) ?t = (True, tdb') \<and> taxonomy_copy tdb' = fold apply_view evs (taxonomy_copy ?t)"
  proof (rule Cons.IH)
    show "x \<noteq> [] \<and> length x \<le> 36 \<and> \<not> tx_is_duplicate TAXONOMY_QUEUE x ?t" if "x \<in> set ms'" for x
      using Cons.prems(4) [of x] Cons.prems(3) that t1(2) by (auto simp: ms tx_is_duplicate_def same_inbox_def)
  qed (use Cons.prems ms in auto)
  then show ?case using h t1(3) by (simp add: ms)
qed simp

definition new_taxonomy_events :: "cat_db \<Rightarrow> cat_db \<Rightarrow> cat_event list" where
  "new_taxonomy_events db db' = filter is_taxonomy_event (drop (length (cg_outbox db)) (payloads db'))"

lemma fold_apply_view_filter: "fold apply_view (filter is_taxonomy_event evs) v = fold apply_view evs v"
proof (induction evs arbitrary: v)
  case (Cons ev evs)
  then show ?case by (cases ev; cases v) auto
qed simp


text \<open>What the copy loses: the events of the runtime write nulls over the identity of a seeded category.\<close>

lemma taxonomy_edit_erases_identity:
  assumes "event_fits (CategoryEvent SnapUpdated (category_event_of c))" and "map_of (td_categories tdb) (ct_id c) = Some k"
    and "taxonomy_handle m ''category.updated'' (event_body (CategoryEvent SnapUpdated (category_event_of c))) tdb = (Handled, tdb')"
    and "\<not> tx_is_duplicate TAXONOMY_QUEUE m tdb"
  shows "\<exists>k'. map_of (td_categories tdb') (ct_id c) = Some k' \<and> dget (cc_identity k') ''public_id'' = Some JNull"
proof -
  let ?b = "event_body (CategoryEvent SnapUpdated (category_event_of c))"
  have fields: "dget ?b ''category_id'' = Some (JInt (ct_id c))" "dget ?b ''name'' = Some (JStr (ct_name c))"
    "dget ?b ''category_type'' = Some (JStr (category_type_value (ct_type c)))"
    by (simp_all add: snapshot_fields_def category_event_of_def)
  obtain t1 where t1: "upsert_category_copy ?b tdb = Inr t1" "td_categories tdb' = td_categories t1"
    using assms(3, 4) by (auto simp: taxonomy_handle_def taxonomy_dispatch_def split: if_splits sum.splits)
  have null: "dget (apply_identity ?b ident) ''public_id'' = Some JNull" for ident
    by (simp add: apply_identity_def identity_names_def snapshot_fields_def category_event_of_def json_opt_def)
  show ?thesis
    using t1 assms(1, 2) null unfolding upsert_category_copy_def tx_req_def fields
    by (auto simp: of_option_def short_text_def Let_def bindE_eq_Inr update_conv' simp del: event_body.simps)
qed

text \<open>A run over the small taxonomy and its copy.\<close>

definition demo_copy :: tx_db where
  "demo_copy =
     \<lparr>td_rows = [], td_next = 1, td_planned = [], td_next_planned = 1,
      td_categories = [(1, \<lparr>cc_name = ''Mad'', cc_type = ''expense'', cc_identity = []\<rparr>)],
      td_subcategories = [(5, \<lparr>sc_name = ''Kiosk'', sc_category_id = 1, sc_is_default = True, sc_parent_public_id = JNull,
        sc_is_fallback = JNull, sc_identity = []\<rparr>)],
      td_outbox = [], td_processed = []\<rparr>"

definition demo_cat_ops :: "(instant \<times> cat_op) list" where
  "demo_cat_ops =
     [(1, CreateCategory \<lparr>cdt_name = ''Bolig'', cdt_type = ''expense'', cdt_display_order = 2\<rparr>), (2, CreateSubcategory 2 ''Husleje''),
      (3, DeleteCategory 2), (4, UpdateSubcategory 5 (Some ''Bager'') (Some 2))]"

lemma demo_taxonomy_ok: "taxonomy_ok demo_cat_db"
  by (simp add: taxonomy_ok_defs active_names_unique_def demo_cat_db_def category_exists_def rules_keyed_def rule_keys_unique_def)


section \<open>Each event is categorized once\<close>

text \<open>The log of a run: when a delivery wrote a result, and the id of its message.\<close>

definition logged :: "instant \<Rightarrow> cat_op \<Rightarrow> cat_db \<Rightarrow> cat_db \<Rightarrow> (instant \<times> string) list" where
  "logged now op db db' =
     (if cg_results db' = cg_results db then []
      else (case op of CommitCreated body _ _ _ \<Rightarrow> [(now, option_or (message_id_of body) [])] | _ \<Rightarrow> []))"

inductive cat_run :: "cat_db \<Rightarrow> instant \<Rightarrow> cat_db \<Rightarrow> (instant \<times> string) list \<Rightarrow> bool" for db0 where
  begun: "cat_run db0 t db0 []"
| stepped: "cat_run db0 t db ws \<Longrightarrow> t \<le> now \<Longrightarrow> db' = apply_cat_op now op db \<Longrightarrow> cat_run db0 now db' (ws @ logged now op db db')"

definition thirty_days :: int where "thirty_days = usec (CLEANUP_DAYS * 86400)"

definition remembered :: "instant \<Rightarrow> cat_db \<Rightarrow> instant \<times> string \<Rightarrow> bool" where
  "remembered now db w \<longleftrightarrow>
     snd w = [] \<or> fst w + thirty_days < now \<or>
     (\<exists>p \<in> set (cg_processed db). pe_message_id p = snd w \<and> pe_consumer_name p = CREATED_QUEUE \<and> fst w \<le> pe_processed_at p)"

definition apart :: "instant \<times> string \<Rightarrow> instant \<times> string \<Rightarrow> bool" where
  "apart w v \<longleftrightarrow> snd w = snd v \<and> snd w \<noteq> [] \<longrightarrow> fst w + thirty_days < fst v"

lemma remembered_later: "remembered t db w \<Longrightarrow> t \<le> now \<Longrightarrow> set (cg_processed db) \<subseteq> set (cg_processed db') \<Longrightarrow> remembered now db' w"
  by (auto simp: remembered_def)

lemma remembered_cleanup: "remembered t db w \<Longrightarrow> t \<le> now \<Longrightarrow> remembered now (cleanup_inbox now db) w"
  by (auto simp: remembered_def cleanup_inbox_def Let_def thirty_days_def not_less)

lemma same_results_tables:
  "insert_rule u prio ty pat sub act db = Inr (r, db') \<Longrightarrow> cg_results db' = cg_results db \<and> cg_processed db' = cg_processed db"
  "put_rule r db = Inr db' \<Longrightarrow> cg_results db' = cg_results db \<and> cg_processed db' = cg_processed db"
  using insert_rule_shape(9) [of u prio ty pat sub act db r db'] put_rule_shape [of r db db'] by simp_all

lemma learn_results: "learn plan db = Inr db' \<Longrightarrow> cg_results db' = cg_results db \<and> cg_processed db' = cg_processed db"
  by (cases plan) (auto simp: bindE_eq_Inr dest: same_results_tables split: option.splits)

text \<open>What the operations other than a categorization do to the results and to the inbox.\<close>

lemma cat_commit_results:
  "cg_results (snd (cat_commit now queue body db db1)) \<in> {cg_results db, cg_results db1}"
  "set (cg_processed db) \<subseteq> set (cg_processed db1) \<Longrightarrow> set (cg_processed db) \<subseteq> set (cg_processed (snd (cat_commit now queue body db db1)))"
  using cat_commit_cases [of now queue body db db1] by auto

lemma keep_results:
  "(\<And>x db'. m = Inr (x, db') \<Longrightarrow> cg_results db' = cg_results db \<and> cg_processed db' = cg_processed db) \<Longrightarrow>
     cg_results (keep_second db m) = cg_results db \<and> cg_processed (keep_second db m) = cg_processed db"
  "(\<And>db'. e = Inr db' \<Longrightarrow> cg_results db' = cg_results db \<and> cg_processed db' = cg_processed db) \<Longrightarrow>
     cg_results (keep_on_error db e) = cg_results db \<and> cg_processed (keep_on_error db e) = cg_processed db"
  by (auto simp: keep_second_def keep_on_error_def split: sum.splits)

lemma cat_outbox_add_results [simp]:
  "cg_results (cat_outbox_add now ev ty i db) = cg_results db" "cg_processed (cat_outbox_add now ev ty i db) = cg_processed db"
  by (simp_all add: cat_outbox_add_def)

lemma taxonomy_writes_results:
  "insert_category nm ty order db = Inr (c, db') \<Longrightarrow> cg_results db' = cg_results db \<and> cg_processed db' = cg_processed db"
  "put_category c db = Inr db' \<Longrightarrow> cg_results db' = cg_results db \<and> cg_processed db' = cg_processed db"
  "remove_category i db = Inr db' \<Longrightarrow> cg_results db' = cg_results db \<and> cg_processed db' = cg_processed db"
  "insert_subcategory nm i dflt db = Inr (s, db') \<Longrightarrow> cg_results db' = cg_results db \<and> cg_processed db' = cg_processed db"
  "put_subcategory s db = Inr db' \<Longrightarrow> cg_results db' = cg_results db \<and> cg_processed db' = cg_processed db"
  "remove_subcategory i db = Inr db' \<Longrightarrow> cg_results db' = cg_results db \<and> cg_processed db' = cg_processed db"
  by (auto simp: insert_category_def put_category_def remove_category_def insert_subcategory_def put_subcategory_def
      remove_subcategory_def Let_def bindE_eq_Inr)

lemma admin_results:
  assumes "\<And>body i r seen. op \<noteq> CommitCreated body i r seen" and "\<And>body plan. op \<noteq> CommitCorrected body plan" and "op \<noteq> CleanupInbox"
  shows "cg_results (apply_cat_op now op db) = cg_results db \<and> cg_processed (apply_cat_op now op db) = cg_processed db"
proof (cases op)
  case (UpdateCategory i p)
  then show ?thesis by (auto intro!: keep_results dest!: update_category_shape taxonomy_writes_results)
next
  case (UpdateSubcategory i nm c)
  then show ?thesis by (auto intro!: keep_results dest!: update_subcategory_shape taxonomy_writes_results)
next
  case (UpdateRule u i p)
  show ?thesis
    unfolding UpdateRule apply_cat_op.simps update_rule_def Let_def
    by (rule keep_results) (use same_results_tables(2) in \<open>fastforce simp: bindE_eq_Inr\<close>)
qed (use assms in \<open>auto intro!: keep_results simp: create_category_def delete_category_def create_subcategory_def
    delete_subcategory_def create_rule_def delete_rule_def Let_def bindE_eq_Inr
    dest!: taxonomy_writes_results same_results_tables\<close>)

text \<open>A commit that wrote a result met no inbox row of its message and left one.\<close>

lemma created_commit_written:
  assumes "cg_results (snd (created_commit now body r ev db)) \<noteq> cg_results db" and "message_id_of body = Some m" and "m \<noteq> []"
  shows "\<not> cat_is_duplicate CREATED_QUEUE m db"
    and "\<exists>p. cg_processed (snd (created_commit now body r ev db)) = cg_processed db @ [p] \<and>
      pe_message_id p = m \<and> pe_consumer_name p = CREATED_QUEUE \<and> pe_processed_at p = now"
  using assms
  by (auto simp: created_commit_def cat_commit_def save_result_def cat_outbox_add_def cat_inbox_row_def
      split: if_splits option.splits)

lemma created_commit_grows:
  "set (cg_processed db) \<subseteq> set (cg_processed (snd (created_commit now body r ev db)))"
  unfolding created_commit_def by (rule cat_commit_results(2)) (simp add: save_result_def)

lemma cat_run_log:
  "cat_run db0 t db ws \<Longrightarrow> sorted_wrt apart ws \<and> list_all (\<lambda>w. fst w \<le> t \<and> remembered t db w) ws"
proof (induction rule: cat_run.induct)
  case (stepped t db ws now db' op)
  have old: "list_all (\<lambda>w. fst w \<le> now \<and> remembered now db' w) ws"
  proof -
    have "remembered now db' w" if w: "remembered t db w" for w
    proof (cases op)
      case (CommitCreated body i r seen)
      then show ?thesis using remembered_later [OF w] stepped.hyps created_commit_grows by simp
    next
      case (CommitCorrected body plan)
      have "set (cg_processed db) \<subseteq> set (cg_processed (apply_cat_op now op db))"
      proof (cases "learn plan db")
        case (Inr db1)
        then have "set (cg_processed db) \<subseteq> set (cg_processed db1)" using learn_results by force
        then show ?thesis using cat_commit_results(2) Inr by (simp add: CommitCorrected corrected_commit_def)
      qed (simp add: CommitCorrected corrected_commit_def)
      then show ?thesis using remembered_later [OF w] stepped.hyps by simp
    next
      case CleanupInbox
      then show ?thesis using remembered_cleanup [OF w] stepped.hyps by simp
    qed (use remembered_later [OF w] stepped.hyps admin_results [of op now db] in auto)
    then show ?thesis using stepped by (auto simp: list_all_iff)
  qed
  consider "logged now op db db' = []"
    | body i r seen where "op = CommitCreated body i r seen" "cg_results db' \<noteq> cg_results db"
      "logged now op db db' = [(now, option_or (message_id_of body) [])]"
    by (cases "cg_results db' = cg_results db"; cases op) (simp_all add: logged_def)
  then show ?case
  proof cases
    case 1
    then show ?thesis using stepped.IH old by simp
  next
    case 2
    let ?m = "option_or (message_id_of body) []"
    have new: "remembered now db' (now, ?m) \<and> (\<forall>w \<in> set ws. apart w (now, ?m))"
    proof (cases "?m = []")
      case True
      then show ?thesis by (simp add: remembered_def apart_def)
    next
      case False
      then have m: "message_id_of body = Some ?m" by (auto simp: option_or_def split: option.splits)
      have wrote: "cg_results (snd (created_commit now body (result_record i r) (categorized_event i r seen) db)) \<noteq> cg_results db"
        using 2 stepped.hyps(3) by simp
      note w = created_commit_written [OF wrote m False]
      have "remembered now db' (now, ?m)" using w(2) 2 stepped.hyps(3) by (auto simp: remembered_def)
      moreover have "apart v (now, ?m)" if "v \<in> set ws" for v
        using w(1) that stepped.IH stepped.hyps(2) by (auto simp: apart_def remembered_def list_all_iff cat_is_duplicate_def list_ex_iff)
      ultimately show ?thesis by blast
    qed
    then show ?thesis using 2 stepped.IH old by (simp add: sorted_wrt_append)
  qed
qed simp

text \<open>
  C19. A transaction event is categorized once: in any interleaving of deliveries, whose reading parts may be arbitrarily
  old, with administration, learned corrections and clean-ups of the inbox, two deliveries of one message that both
  write a result are more than thirty days apart.
\<close>

theorem categorized_once:
  assumes "cat_run db0 t db ws" and "i < j" and "j < length ws" and "ws ! i = (t1, m)" and "ws ! j = (t2, m)" and "m \<noteq> []"
  shows "t1 + usec (30 * 86400) < t2"
  using cat_run_log [OF assms(1)] assms(2-6) sorted_wrt_nth_less [of apart ws i j]
  by (auto simp: apart_def thirty_days_def CLEANUP_DAYS_def)

text \<open>Two deliveries of one event, the second after its inbox row was cleaned up, with a fresh row beside it.\<close>

definition demo_created :: "string \<Rightarrow> dict" where
  "demo_created m =
     [(''event_type'', JStr ''transaction.created''), (''correlation_id'', JStr m), (''transaction_id'', JInt 3),
      (''description'', JStr ''Netto''), (''amount'', JStr ''12.50''), (''transaction_type'', JStr ''expense''), (''user_id'', JInt 7)]"

definition demo_cz :: cz_result where
  "demo_cz = \<lparr>cz_category_id = 1, cz_subcategory_id = 5, cz_merchant_id = None, cz_tier = TierRule, cz_confidence = HighConfidence\<rparr>"

definition demo_commits :: "(instant \<times> cat_op) list" where
  "demo_commits =
     [(0, CommitCreated (demo_created ''m'') 3 demo_cz demo_cat_db), (usec 2592001, CommitCreated (demo_created ''n'') 4 demo_cz demo_cat_db),
      (usec 2592002, CleanupInbox), (usec 2592003, CommitCreated (demo_created ''m'') 3 demo_cz demo_cat_db)]"

fun cat_log :: "(instant \<times> cat_op) list \<Rightarrow> cat_db \<Rightarrow> (instant \<times> string) list" where
  "cat_log [] db = []"
| "cat_log ((now, op) # ops) db = logged now op db (apply_cat_op now op db) @ cat_log ops (apply_cat_op now op db)"

lemma cat_run_ops:
  "cat_run db0 t db ws \<Longrightarrow> sorted (t # map fst ops) \<Longrightarrow> cat_run db0 (last (t # map fst ops)) (run_cat_ops ops db) (ws @ cat_log ops db)"
proof (induction ops arbitrary: t db ws)
  case (Cons x ops)
  obtain now op where x: "x = (now, op)" by fastforce
  have "cat_run db0 now (apply_cat_op now op db) (ws @ logged now op db (apply_cat_op now op db))"
    using stepped [OF Cons.prems(1) _ refl] Cons.prems(2) x by simp
  from Cons.IH [OF this] Cons.prems(2)
  have "cat_run db0 (last (now # map fst ops)) (run_cat_ops ops (apply_cat_op now op db))
      ((ws @ logged now op db (apply_cat_op now op db)) @ cat_log ops (apply_cat_op now op db))"
    by (simp add: x)
  then show ?case by (simp add: x run_cat_ops_def)
qed (simp add: run_cat_ops_def)

lemma demo_log: "cat_log demo_commits demo_cat_db = [(0, ''m''), (usec 2592001, ''n''), (usec 2592003, ''m'')]"
  by code_simp

theorem categorized_once_witness: "(0 :: int) + usec (30 * 86400) < usec 2592003"
proof -
  have "sorted (0 # map fst demo_commits)" by (simp add: demo_commits_def)
  from cat_run_ops [OF begun [of demo_cat_db 0] this]
  have run: "cat_run demo_cat_db (last (0 # map fst demo_commits)) (run_cat_ops demo_commits demo_cat_db)
      [(0, ''m''), (usec 2592001, ''n''), (usec 2592003, ''m'')]"
    by (simp only: demo_log append_Nil)
  show ?thesis by (rule categorized_once [OF run, of 0 2 _ "''m''"]) simp_all
qed

section \<open>From the event to the transaction\<close>

text \<open>The event as transaction-service reads it: an id of zero counts as absent.\<close>

definition nonzero :: "int \<Rightarrow> int option" where
  "nonzero i = (if i = 0 then None else Some i)"

definition categorized_payload_of :: "string \<Rightarrow> tx_categorized_event \<Rightarrow> categorized_payload" where
  "categorized_payload_of m e =
     \<lparr>cp_message_id = m, cp_transaction_id = nonzero (tc_transaction_id e), cp_category_id = nonzero (tc_category_id e),
      cp_category_name = tc_category_name e, cp_subcategory_id = nonzero (tc_subcategory_id e),
      cp_subcategory_name = tc_subcategory_name e, cp_tier = tc_tier e, cp_confidence = tc_confidence e\<rparr>"

lemma result_of_response_inverse: "result_of_response (to_categorize_response r) = Inr r"
  by (cases r; cases "cz_tier r"; cases "cz_confidence r")
    (auto simp: result_of_response_def to_categorize_response_def parse_confidence_def of_option_def)

text \<open>A delivery that is no duplicate commits the pipeline's result and its event.\<close>

lemma created_handle_writes:
  assumes ok: "created_handle True now body db pv = (Handled, db', pv')"
    and m: "message_id_of body = Some m" "\<not> (m \<noteq> [] \<and> cat_is_duplicate CREATED_QUEUE m db)"
    and ty: "dget body ''event_type'' = Some (JStr ty)"
  obtains f e r where "created_fields_of body = Some f" "provider_get (cf_user_id f) now db pv = Inr (e, pv')"
    "r = run_pipeline (build_categorizer e pv') (created_request f)"
    "cg_results db' = cg_results db @ [result_record (cf_transaction_id f) r]"
    "payloads db' = payloads db @ [categorized_event (cf_transaction_id f) r db]"
proof -
  obtain row ev where w: "created_work now body db pv = Some (row, ev, pv')" "created_commit now body row ev db = (Handled, db')"
    using ok m by (auto simp: created_handle_def split: option.splits if_splits prod.splits)
  obtain f r where fr: "created_fields_of body = Some f" "categorize_created now f db pv = Inr (r, pv')"
    "row = result_record (cf_transaction_id f) r" "ev = categorized_event (cf_transaction_id f) r db"
    using w(1) by (auto simp: created_work_def split: option.splits sum.splits)
  obtain e where e: "provider_get (cf_user_id f) now db pv = Inr (e, pv')"
    "r = run_pipeline (build_categorizer e pv') (created_request f)"
    using fr(2) by (auto simp: categorize_created_def bindE_eq_Inr categorize_def result_of_response_inverse)
  have "cg_results db' = cg_results db @ [row] \<and> payloads db' = payloads db @ [ev]"
    using w(2) m ty
    by (auto simp: created_commit_def cat_commit_def save_result_def payloads_def cat_outbox_add_def ob_add_def ob_build_def
        dget_or_def split: option.splits if_splits)
  then show ?thesis using that fr e by blast
qed

definition copy_names_fit :: "tx_db \<Rightarrow> bool" where
  "copy_names_fit tdb \<longleftrightarrow> (\<forall>i k. map_of (td_categories tdb) i = Some k \<longrightarrow> length (cc_name k) \<le> 100)"

text \<open>The fields a categorization may change.\<close>

definition same_otherwise :: "tx_row \<Rightarrow> tx_row \<Rightarrow> bool" where
  "same_otherwise tx tx' \<longleftrightarrow>
     tx'\<lparr>tx_category_id := tx_category_id tx, tx_category_name := tx_category_name tx, tx_subcategory_id := tx_subcategory_id tx,
        tx_subcategory_name := tx_subcategory_name tx, tx_tier := tx_tier tx, tx_confidence := tx_confidence tx\<rparr> = tx"

definition took_result :: "cat_db \<Rightarrow> cz_result \<Rightarrow> tx_row \<Rightarrow> bool" where
  "took_result db r tx' \<longleftrightarrow>
     tx_subcategory_id tx' = nonzero (cz_subcategory_id r) \<and>
     (cz_category_id r \<noteq> 0 \<longrightarrow> tx_category_id tx' = Some (cz_category_id r)) \<and>
     tx_tier tx' = Some (tier_value (cz_tier r)) \<and> tx_confidence tx' = Some (confidence_value (cz_confidence r)) \<and>
     (category_name_of (cz_category_id r) db \<noteq> [] \<longrightarrow> tx_category_name tx' = Some (category_name_of (cz_category_id r) db)) \<and>
     (subcategory_name_of (cz_subcategory_id r) db \<noteq> [] \<longrightarrow>
        tx_subcategory_name tx' = Some (subcategory_name_of (cz_subcategory_id r) db))"

lemma non_empty_Some: "s \<noteq> [] \<Longrightarrow> non_empty (Some s) = Some s"
  by (cases s) (simp_all add: non_empty_def)

lemma non_empty_Nil [simp]: "non_empty (Some []) = None"
  by (simp add: non_empty_def)

lemma categorized_row_took:
  assumes "tx_tier tx \<noteq> Some ''manual''" and "categorized_event i r db = CategorizedEvent ev mid v"
    and "parent = (case non_empty (Some (tc_category_name ev)) of None \<Rightarrow> p | n \<Rightarrow> n)"
  shows "took_result db r (categorized_row (categorized_payload_of m ev) parent tx)"
    "same_otherwise tx (categorized_row (categorized_payload_of m ev) parent tx)"
proof -
  have ev: "ev = \<lparr>tc_transaction_id = i, tc_category_id = cz_category_id r, tc_category_name = category_name_of (cz_category_id r) db,
      tc_subcategory_id = cz_subcategory_id r, tc_subcategory_name = subcategory_name_of (cz_subcategory_id r) db,
      tc_tier = tier_value (cz_tier r), tc_confidence = confidence_value (cz_confidence r)\<rparr>"
    using assms(2) by (simp add: categorized_event_def)
  show "took_result db r (categorized_row (categorized_payload_of m ev) parent tx)"
    using assms(1)
    by (cases "category_name_of (cz_category_id r) db = []"; cases "subcategory_name_of (cz_subcategory_id r) db = []")
      (auto simp: took_result_def categorized_row_def categorized_payload_of_def assms(3) ev nonzero_def non_empty_Some Let_def)
  show "same_otherwise tx (categorized_row (categorized_payload_of m ev) parent tx)"
    by (simp add: same_otherwise_def categorized_row_def Let_def)
qed

lemma tier_confidence_short: "length (tier_value t) \<le> 20" "length (confidence_value c) \<le> 10"
  by (cases t; simp) (cases c; simp)

lemma names_short:
  assumes "taxonomy_ok db"
  shows "length (category_name_of i db) \<le> 45" "length (subcategory_name_of j db) \<le> 100"
  using assms
  by (auto simp: category_name_of_def subcategory_name_of_def taxonomy_ok_def categories_ok_def subcategories_ok_def
      dest!: category_by_id_Some subcategory_by_id_Some split: option.splits)

lemma opt_len_non_empty: "length s \<le> n \<Longrightarrow> opt_len n (non_empty (Some s))"
  by (cases s) (simp_all add: opt_len_def non_empty_def)

lemma opt_len_or: "opt_len n a \<Longrightarrow> opt_len n b \<Longrightarrow> opt_len n (case a of None \<Rightarrow> b | Some x \<Rightarrow> Some x)"
  by (cases a) simp_all

lemma opt_len_again: "opt_len n a \<Longrightarrow> opt_len n (non_empty a)"
  by (auto simp: opt_len_def non_empty_def split: option.splits list.splits)

lemma categorized_row_fits:
  assumes "columns_fit tx" and "opt_len 100 parent" and "length (cp_subcategory_name p) \<le> 100" and "length (cp_tier p) \<le> 20"
    and "length (cp_confidence p) \<le> 10"
  shows "columns_fit (categorized_row p parent tx)"
proof -
  have "opt_len 100 (case non_empty parent of None \<Rightarrow> tx_category_name tx | Some n \<Rightarrow> Some n)"
    "opt_len 100 (case non_empty (Some (cp_subcategory_name p)) of None \<Rightarrow> tx_subcategory_name tx | Some n \<Rightarrow> Some n)"
    using assms(1-3) by (auto simp: columns_fit_def intro!: opt_len_or opt_len_again opt_len_non_empty)
  moreover have "opt_len 20 (Some (cp_tier p))" "opt_len 10 (Some (cp_confidence p))" "opt_len 20 (Some ''manual'')"
    using assms(4, 5) by (simp_all add: opt_len_def)
  ultimately show ?thesis using assms(1) by (simp add: columns_fit_def categorized_row_def Let_def)
qed

lemma event_names_short:
  assumes "taxonomy_ok db" and "categorized_event i r db = CategorizedEvent ev mid v"
  shows "length (tc_category_name ev) \<le> 100" "length (tc_subcategory_name ev) \<le> 100" "length (tc_tier ev) \<le> 20"
    "length (tc_confidence ev) \<le> 10"
  using assms(2) order_trans [OF names_short(1) [OF assms(1), of "cz_category_id r"], of 100]
    names_short(2) [OF assms(1), of "cz_subcategory_id r"] tier_confidence_short
  by (auto simp: categorized_event_def)

lemma parent_name_short:
  assumes "copy_names_fit tdb" and "length s \<le> 100"
  shows "opt_len 100 (case non_empty (Some s) of None \<Rightarrow> lookup_parent_name tdb i | Some n \<Rightarrow> Some n)"
  using assms
  by (intro opt_len_or opt_len_non_empty) (auto simp: lookup_parent_name_def copy_names_fit_def opt_len_def split: option.splits)

text \<open>
  C16. A categorization reaches its transaction: when the consumer has handled a transaction's event, the audit row holds
  the pipeline's result, and delivering the event it announced to transaction-service, under any fresh message id, gives
  a live transaction that was not categorized by hand exactly that subcategory, category, tier, confidence and
  their names, and changes nothing else of it.
\<close>

theorem categorization_reaches_transaction:
  assumes "created_handle True now body db pv = (Handled, db', pv')"
    and "message_id_of body = Some m" and "\<not> (m \<noteq> [] \<and> cat_is_duplicate CREATED_QUEUE m db)"
    and "dget body ''event_type'' = Some (JStr ty)" and "created_fields_of body = Some f" and "taxonomy_ok db"
    and "payloads db' = payloads db @ [CategorizedEvent ev mid v]"
    and "distinct (map tx_id (td_rows tdb))" and "tx \<in> set (td_rows tdb)" and "tx_id tx = cf_transaction_id f" and "tx_id tx \<noteq> 0"
    and "tx_deleted_at tx = None" and "tx_tier tx \<noteq> Some ''manual''" and "columns_fit tx" and "copy_names_fit tdb"
    and "m' \<noteq> []" and "length m' \<le> 36" and "\<not> tx_is_duplicate CATEGORIZED_QUEUE m' tdb"
  shows "\<exists>e r tdb' tx'. provider_get (cf_user_id f) now db pv = Inr (e, pv') \<and>
     r = run_pipeline (build_categorizer e pv') (created_request f) \<and>
     cg_results db' = cg_results db @ [result_record (tx_id tx) r] \<and>
     categorized_handle True (categorized_payload_of m' ev) tdb = (Handled, tdb') \<and>
     tx_id tx' = tx_id tx \<and> tx' \<in> set (td_rows tdb') \<and> took_result db r tx' \<and> same_otherwise tx tx'"
proof -
  obtain e r where er: "provider_get (cf_user_id f) now db pv = Inr (e, pv')"
    "r = run_pipeline (build_categorizer e pv') (created_request f)"
    "cg_results db' = cg_results db @ [result_record (cf_transaction_id f) r]"
    "payloads db' = payloads db @ [categorized_event (cf_transaction_id f) r db]"
    using created_handle_writes [OF assms(1-4)] assms(5) by (metis option.inject)
  have ev: "categorized_event (cf_transaction_id f) r db = CategorizedEvent ev mid v" using er(4) assms(7) by simp
  have i: "tc_transaction_id ev = tx_id tx" using ev assms(10) by (auto simp: categorized_event_def)
  let ?p = "categorized_payload_of m' ev"
  have payload: "cp_transaction_id ?p = Some (tx_id tx)" "cp_message_id ?p = m'" "cp_category_name ?p = tc_category_name ev"
    "cp_subcategory_name ?p = tc_subcategory_name ev" "cp_tier ?p = tc_tier ev" "cp_confidence ?p = tc_confidence ev"
    using i assms(11) by (simp_all add: categorized_payload_of_def nonzero_def)
  define parent where "parent = (case non_empty (Some (tc_category_name ev)) of
      None \<Rightarrow> lookup_parent_name tdb (cp_category_id ?p) | n \<Rightarrow> n)"
  let ?tx = "categorized_row ?p parent tx"
  let ?tdb = "tdb\<lparr>td_rows := update_where (\<lambda>r. tx_id r = tx_id tx) (\<lambda>_. ?tx) (td_rows tdb),
      td_processed := td_processed tdb @ [(m', CATEGORIZED_QUEUE)]\<rparr>"
  have find: "List.find (\<lambda>x. tx_id x = tx_id tx) (td_rows tdb) = Some tx"
    by (rule find_distinct_key) (use assms in simp_all)
  have fits: "columns_fit ?tx"
    by (rule categorized_row_fits [OF assms(14)])
      (simp_all only: payload event_names_short [OF assms(6) ev] parent_def parent_name_short [OF assms(15) event_names_short(1) [OF assms(6) ev]])
  have "categorized_handle True ?p tdb = (Handled, ?tdb)"
    using find fits assms(12, 16-18) payload
    by (simp add: categorized_handle_def parent_def [symmetric] Let_def)
  moreover have "tx_id ?tx = tx_id tx" by (simp add: categorized_row_def Let_def)
  moreover have "?tx \<in> set (td_rows ?tdb)"
    using update_where_key_mem [OF assms(8, 9), of ?tx "\<lambda>_. ?tx"] by simp
  ultimately show ?thesis
    using er assms(10) categorized_row_took [OF assms(13) ev parent_def] by metis
qed

text \<open>A user's own rule decides a purchase.\<close>

definition demo_rule_op :: "(instant \<times> cat_op) list" where
  "demo_rule_op = [(0, CreateRule 7 \<lparr>rd_pattern_value = ''netto'', rd_subcategory_id = 5, rd_priority = 50, rd_active = True\<rparr>)]"

definition demo_ruled_db :: cat_db where
  "demo_ruled_db = run_cat_ops demo_rule_op demo_cat_db"

definition demo_delivery :: "handler_result \<times> cat_db \<times> provider" where
  "demo_delivery = created_handle True 60000000 (demo_created ''m'') demo_ruled_db new_provider"

definition demo_event :: tx_categorized_event where
  "demo_event = \<lparr>tc_transaction_id = 3, tc_category_id = 1, tc_category_name = ''Mad'', tc_subcategory_id = 5,
     tc_subcategory_name = ''Kiosk'', tc_tier = ''rule'', tc_confidence = ''high''\<rparr>"

definition demo_fields :: created_fields where
  "demo_fields = \<lparr>cf_transaction_id = 3, cf_description = ''Netto'', cf_amount = fl (25 / 2), cf_user_id = Some 7, cf_direction = OutgoingTx\<rparr>"

definition demo_bought :: tx_row where
  "demo_bought = (item_row 0 7 demo_bulk)\<lparr>tx_id := 3\<rparr>"

definition demo_purchases :: tx_db where
  "demo_purchases = empty_tx_db\<lparr>td_rows := [demo_bought], td_next := 4\<rparr>"

lemma demo_created_fields: "created_fields_of (demo_created ''m'') = Some demo_fields"
proof -
  have "direction_from_transaction_type (JStr ''expense'') = Some OutgoingTx" by code_simp
  then show ?thesis
    using demo_amount_read
    by (simp add: created_fields_of_def demo_created_def demo_fields_def dget_or_def py_float_def)
qed

lemmas demo_delivery_unfold = demo_delivery_def created_handle_def created_work_def demo_created_fields option.case

lemma demo_result_row: "map re_subcategory_id (cg_results (fst (snd demo_delivery))) = map re_subcategory_id (cg_results demo_ruled_db) @ [5]"
  unfolding demo_delivery_unfold by code_simp

lemma demo_delivered:
  "fst demo_delivery = Handled" "payloads (fst (snd demo_delivery)) = payloads demo_ruled_db @ [CategorizedEvent demo_event None MODEL_VERSION]"
  "message_id_of (demo_created ''m'') = Some ''m''" "\<not> cat_is_duplicate CREATED_QUEUE ''m'' demo_ruled_db"
  "dget (demo_created ''m'') ''event_type'' = Some (JStr ''transaction.created'')"
  unfolding demo_delivery_unfold by (code_simp, code_simp, code_simp, code_simp, code_simp)

lemma demo_purchase_row:
  "distinct (map tx_id (td_rows demo_purchases))" "demo_bought \<in> set (td_rows demo_purchases)"
  "tx_id demo_bought = cf_transaction_id demo_fields" "tx_id demo_bought \<noteq> 0" "tx_deleted_at demo_bought = None"
  "tx_tier demo_bought \<noteq> Some ''manual''" "columns_fit demo_bought" "copy_names_fit demo_purchases"
  "\<not> tx_is_duplicate CATEGORIZED_QUEUE ''c'' demo_purchases"
  by (simp_all add: demo_purchases_def demo_bought_def demo_fields_def item_row_def draft_row_def demo_bulk_def empty_tx_db_def
      columns_fit_def opt_len_def copy_names_fit_def tx_is_duplicate_def)

theorem categorization_reaches_transaction_witness:
  "\<exists>tdb' tx'. categorized_handle True (categorized_payload_of ''c'' demo_event) demo_purchases = (Handled, tdb') \<and>
     tx' \<in> set (td_rows tdb') \<and> tx_subcategory_id tx' = Some 5"
proof -
  have delivered: "created_handle True 60000000 (demo_created ''m'') demo_ruled_db new_provider
      = (Handled, fst (snd demo_delivery), snd (snd demo_delivery))"
    using demo_delivered(1) by (metis demo_delivery_def prod.collapse)
  have ok: "taxonomy_ok demo_ruled_db"
    unfolding demo_ruled_db_def demo_rule_op_def run_cat_ops_def
    by (simp del: apply_cat_op.simps add: apply_cat_op_ok demo_taxonomy_ok)
  have fresh: "\<not> (''m'' \<noteq> [] \<and> cat_is_duplicate CREATED_QUEUE ''m'' demo_ruled_db)" using demo_delivered(4) by simp
  have id: "''c'' \<noteq> []" "length ''c'' \<le> 36" by simp_all
  obtain r tdb' tx' where reached: "categorized_handle True (categorized_payload_of ''c'' demo_event) demo_purchases = (Handled, tdb')"
    "tx' \<in> set (td_rows tdb')" "took_result demo_ruled_db r tx'"
    and stored: "cg_results (fst (snd demo_delivery)) = cg_results demo_ruled_db @ [result_record (tx_id demo_bought) r]"
    using categorization_reaches_transaction [OF delivered demo_delivered(3) fresh demo_delivered(5) demo_created_fields ok demo_delivered(2)
        demo_purchase_row(1-8) id demo_purchase_row(9)] by blast
  have "cz_subcategory_id r = 5" using demo_result_row stored by (simp add: result_record_def)
  with reached show ?thesis by (auto simp: took_result_def nonzero_def)
qed

end
