(* ===== verification/CsvImport.thy ===== *)
theory CsvImport
  imports BankClient
begin

text \<open>
  The import of bank statements in transaction-service: Python's CSV reader as the parsers use it, the three parsers
  (\<open>app/application/csv_parsers\<close>) and the use case \<open>import_csv\<close> of \<open>app/application/service.py\<close>.

  An upload is a list of bytes.  A text is a list of the first 256 code points; a code point beyond them is read as
  a question mark, which like it is no blank, digit or separator.  The rows of a parser carry the decimals as they
  were written; the column rounds them to cents when they are stored.
\<close>

section \<open>Decoding\<close>

definition continuation :: "nat \<Rightarrow> bool" where
  "continuation b \<longleftrightarrow> 128 \<le> b \<and> b < 192"

text \<open>Strict UTF-8: no overlong form, no surrogate, nothing beyond the last plane.\<close>

fun utf8_decode :: "nat list \<Rightarrow> nat list option" where
  "utf8_decode [] = Some []"
| "utf8_decode (a # bs) =
     (if a < 128 then map_option ((#) a) (utf8_decode bs)
      else if 194 \<le> a \<and> a < 224 then
        (case bs of
           b # r \<Rightarrow>
             if continuation b then map_option ((#) ((a - 192) * 64 + (b - 128))) (utf8_decode r) else None
         | _ \<Rightarrow> None)
      else if 224 \<le> a \<and> a < 240 then
        (case bs of
           b # c # r \<Rightarrow>
             if continuation b \<and> continuation c \<and> (a = 224 \<longrightarrow> 160 \<le> b) \<and> (a = 237 \<longrightarrow> b < 160)
             then map_option ((#) ((a - 224) * 4096 + (b - 128) * 64 + (c - 128))) (utf8_decode r) else None
         | _ \<Rightarrow> None)
      else if 240 \<le> a \<and> a < 245 then
        (case bs of
           b # c # d # r \<Rightarrow>
             if continuation b \<and> continuation c \<and> continuation d \<and> (a = 240 \<longrightarrow> 144 \<le> b) \<and> (a = 244 \<longrightarrow> b < 144)
             then map_option ((#) ((a - 240) * 262144 + (b - 128) * 4096 + (c - 128) * 64 + (d - 128))) (utf8_decode r)
             else None
         | _ \<Rightarrow> None)
      else None)"

definition char_of_code :: "nat \<Rightarrow> char" where
  "char_of_code n = (if n < 256 then char_of n else CHR ''?'')"

definition decode_utf8 :: "nat list \<Rightarrow> string option" where
  "decode_utf8 bs = map_option (map char_of_code) (utf8_decode bs)"

definition decode_utf8_sig :: "nat list \<Rightarrow> string option" where
  "decode_utf8_sig bs = decode_utf8 (if take 3 bs = [239, 187, 191] then drop 3 bs else bs)"

text \<open>Windows-1252 leaves five bytes undefined; the others between 128 and 159 are beyond Latin-1.\<close>

definition decode_cp1252 :: "nat list \<Rightarrow> string option" where
  "decode_cp1252 bs =
     (if list_ex (\<lambda>b. b \<in> {129, 141, 143, 144, 157}) bs then None
      else Some (map (\<lambda>b. if 128 \<le> b \<and> b < 160 then CHR ''?'' else char_of b) bs))"

definition decode_bank :: "nat list \<Rightarrow> string option" where
  "decode_bank bs = (case decode_utf8_sig bs of None \<Rightarrow> decode_cp1252 bs | t \<Rightarrow> t)"

section \<open>The reader of the standard library\<close>

abbreviation newline :: char where "newline \<equiv> CHR 0x0A"
abbreviation carriage_return :: char where "carriage_return \<equiv> CHR 0x0D"
abbreviation quote :: char where "quote \<equiv> CHR 0x22"

fun csv_lines :: "string \<Rightarrow> string list" where
  "csv_lines [] = []"
| "csv_lines (c # cs) =
     (if c = newline then [c] # csv_lines cs
      else (case csv_lines cs of [] \<Rightarrow> [[c]] | l # ls \<Rightarrow> (c # l) # ls))"

datatype csv_mode = StartRecord | StartField | InField | InQuotedField | QuoteInQuotedField | EatCrnl

record csv_state =
  cs_mode :: csv_mode
  cs_field :: string
  cs_fields :: "string list"

definition fresh_record :: csv_state where
  "fresh_record = \<lparr>cs_mode = StartRecord, cs_field = [], cs_fields = []\<rparr>"

definition save_field :: "csv_mode \<Rightarrow> csv_state \<Rightarrow> csv_state" where
  "save_field md st = \<lparr>cs_mode = md, cs_field = [], cs_fields = cs_fields st @ [cs_field st]\<rparr>"

definition CSV_FIELD_LIMIT :: int where "CSV_FIELD_LIMIT = 131072"

text \<open>\<open>None\<close> is \<open>csv.Error\<close>.\<close>

definition add_char :: "csv_mode \<Rightarrow> char \<Rightarrow> csv_state \<Rightarrow> csv_state option" where
  "add_char md c st =
     (if CSV_FIELD_LIMIT \<le> int (length (cs_field st)) then None
      else Some (st\<lparr>cs_mode := md, cs_field := cs_field st @ [c]\<rparr>))"

definition csv_start_field :: "char \<Rightarrow> csv_state \<Rightarrow> char \<Rightarrow> csv_state option" where
  "csv_start_field delimiter st c =
     (if c = newline \<or> c = carriage_return then Some (save_field EatCrnl st)
      else if c = quote then Some (st\<lparr>cs_mode := InQuotedField\<rparr>)
      else if c = delimiter then Some (save_field StartField st)
      else add_char InField c st)"

definition csv_char :: "char \<Rightarrow> csv_state \<Rightarrow> char \<Rightarrow> csv_state option" where
  "csv_char delimiter st c =
     (case cs_mode st of
        StartRecord \<Rightarrow>
          if c = newline \<or> c = carriage_return then Some (st\<lparr>cs_mode := EatCrnl\<rparr>) else csv_start_field delimiter st c
      | StartField \<Rightarrow> csv_start_field delimiter st c
      | InField \<Rightarrow>
          if c = newline \<or> c = carriage_return then Some (save_field EatCrnl st)
          else if c = delimiter then Some (save_field StartField st)
          else add_char InField c st
      | InQuotedField \<Rightarrow> if c = quote then Some (st\<lparr>cs_mode := QuoteInQuotedField\<rparr>) else add_char InQuotedField c st
      | QuoteInQuotedField \<Rightarrow>
          if c = quote then add_char InQuotedField c st
          else if c = delimiter then Some (save_field StartField st)
          else if c = newline \<or> c = carriage_return then Some (save_field EatCrnl st)
          else add_char InField c st
      | EatCrnl \<Rightarrow> if c = newline \<or> c = carriage_return then Some st else None)"

text \<open>The end of a line: a quoted field goes on in the next one.\<close>

definition csv_eol :: "csv_state \<Rightarrow> csv_state" where
  "csv_eol st =
     (case cs_mode st of
        StartRecord \<Rightarrow> st
      | InQuotedField \<Rightarrow> st
      | EatCrnl \<Rightarrow> st\<lparr>cs_mode := StartRecord\<rparr>
      | _ \<Rightarrow> save_field StartRecord st)"

fun csv_feed :: "char \<Rightarrow> csv_state \<Rightarrow> string \<Rightarrow> csv_state option" where
  "csv_feed delimiter st [] = Some (csv_eol st)"
| "csv_feed delimiter st (c # cs) =
     (case csv_char delimiter st c of None \<Rightarrow> None | Some st' \<Rightarrow> csv_feed delimiter st' cs)"

text \<open>The rows the reader yields, and whether it then raises \<open>csv.Error\<close>.\<close>

fun csv_records :: "char \<Rightarrow> csv_state \<Rightarrow> string list \<Rightarrow> string list list \<times> bool" where
  "csv_records delimiter st [] =
     (if cs_field st \<noteq> [] \<or> cs_mode st = InQuotedField then ([cs_fields st @ [cs_field st]], False) else ([], False))"
| "csv_records delimiter st (l # ls) =
     (case csv_feed delimiter st l of
        None \<Rightarrow> ([], True)
      | Some st' \<Rightarrow>
          if cs_mode st' = StartRecord
          then (let (rows, failed) = csv_records delimiter fresh_record ls in (cs_fields st' # rows, failed))
          else csv_records delimiter st' ls)"

definition csv_read :: "char \<Rightarrow> string \<Rightarrow> string list list \<times> bool" where
  "csv_read delimiter t = csv_records delimiter fresh_record (csv_lines t)"

text \<open>
  \<open>csv.DictReader\<close>: the first row names the columns, empty rows are left out, a short row is filled with nulls and
  the surplus of a long one is kept beside the columns.  A later column of the same name wins.
\<close>

record dict_row =
  dr_cells :: "(string \<times> string option) list"
  dr_surplus :: "string list"

definition dict_row :: "string list \<Rightarrow> string list \<Rightarrow> dict_row" where
  "dict_row names row =
     \<lparr>dr_cells = zip names (map Some row) @ map (\<lambda>k. (k, None)) (drop (length row) names),
      dr_surplus = drop (length names) row\<rparr>"

definition cell :: "string \<Rightarrow> dict_row \<Rightarrow> string option option" where
  "cell k r = map_of (rev (dr_cells r)) k"

definition dict_rows :: "string list \<Rightarrow> string list list \<Rightarrow> dict_row list" where
  "dict_rows names rows = map (dict_row names) (filter (\<lambda>r. r \<noteq> []) rows)"

section \<open>The rows of a statement\<close>

record csv_row =
  cv_account_id :: int
  cv_account_name :: string
  cv_category_id :: "int option"
  cv_category_name :: "string option"
  cv_amount :: py_dec
  cv_type :: transaction_type
  cv_description :: "string option"
  cv_date :: date

text \<open>
  Why a row is skipped; \<open>RowCrash\<close> is an \<open>AttributeError\<close> or \<open>TypeError\<close> on a null or on the surplus cells, which
  the loop does not catch.
\<close>

datatype csv_fault =
    MissingKey string
  | InvalidDate string
  | BadNumber
  | BadDate
  | EmptyAmount
  | BadDecimal
  | ZeroAmount
  | NotPositive
  | InvalidType string
  | RowCrash

datatype csv_error =
    AccountRequired
  | UnknownFormat string
  | CsvUndecodable
  | CsvNoHeaders
  | CsvMissingColumns "string list"
  | CsvTooManyRows
  | CsvReaderError
  | CsvRowCrash
  | CsvStoreError tx_error

record parsed_csv =
  pc_rows :: "csv_row list"
  pc_errors :: "(nat \<times> csv_fault) list"
  pc_skipped :: nat

definition CSV_MAX_ROWS :: int where "CSV_MAX_ROWS = 50000"

definition add_row :: "csv_row \<Rightarrow> parsed_csv \<Rightarrow> csv_error + parsed_csv" where
  "add_row r p =
     (if CSV_MAX_ROWS \<le> int (length (pc_rows p)) then Inl CsvTooManyRows else Inr (p\<lparr>pc_rows := pc_rows p @ [r]\<rparr>))"

text \<open>\<open>row[k].strip()\<close> and \<open>(row.get(k) or "").strip()\<close>.\<close>

definition need_cell :: "string \<Rightarrow> dict_row \<Rightarrow> csv_fault + string" where
  "need_cell k r =
     (case cell k r of None \<Rightarrow> Inl (MissingKey k) | Some None \<Rightarrow> Inl RowCrash | Some (Some s) \<Rightarrow> Inr (strip s))"

definition cell_or_empty :: "string \<Rightarrow> dict_row \<Rightarrow> string" where
  "cell_or_empty k r = (case cell k r of Some (Some s) \<Rightarrow> strip s | _ \<Rightarrow> [])"

text \<open>\<open>any(v and v.strip() for v in row.values())\<close>: the surplus, a list, comes last and has no \<open>strip\<close>.\<close>

definition has_text :: "dict_row \<Rightarrow> bool" where
  "has_text r \<longleftrightarrow> list_ex (\<lambda>k. case cell k r of Some (Some s) \<Rightarrow> strip s \<noteq> [] | _ \<Rightarrow> False) (map fst (dr_cells r))"

definition row_present :: "dict_row \<Rightarrow> csv_fault + bool" where
  "row_present r = (if has_text r then Inr True else if dr_surplus r \<noteq> [] then Inl RowCrash else Inr False)"

definition parse_danish_amount :: "string \<Rightarrow> csv_fault + py_dec" where
  "parse_danish_amount raw =
     (let cleaned = strip raw; has_dot = CHR ''.'' \<in> set cleaned; has_comma = CHR '','' \<in> set cleaned;
          comma_to_dot = map (\<lambda>c. if c = CHR '','' then CHR ''.'' else c) in
      if cleaned = [] then Inl EmptyAmount
      else of_option BadDecimal (parse_dec
        (if has_dot \<and> has_comma then comma_to_dot (filter (\<lambda>c. c \<noteq> CHR ''.'') cleaned)
         else if has_comma then comma_to_dot cleaned else cleaned)))"

fun dec_is_zero :: "py_dec \<Rightarrow> bool" where
  "dec_is_zero (DFin neg c e) \<longleftrightarrow> c = 0"
| "dec_is_zero _ \<longleftrightarrow> False"

text \<open>The signed amount of a bank's statement; comparing a NaN raises \<open>InvalidOperation\<close>.\<close>

definition signed_row_amount :: "string \<Rightarrow> csv_fault + (transaction_type \<times> py_dec)" where
  "signed_row_amount raw =
     bindE (parse_danish_amount raw) (\<lambda>a.
     bindE (guardE (\<not> dec_is_zero a) ZeroAmount) (\<lambda>_.
     case (dec_nonneg a, dec_abs a) of
       (Some nonneg, Some m) \<Rightarrow> Inr (if nonneg then Income else Expense, m)
     | _ \<Rightarrow> Inl BadDecimal))"

definition three_ints :: "string list \<Rightarrow> (int \<times> int \<times> int) option" where
  "three_ints parts =
     (case map int_of_text parts of [Some a, Some b, Some c] \<Rightarrow> Some (a, b, c) | _ \<Rightarrow> None)"

definition csv_date :: "char \<Rightarrow> (int \<times> int \<times> int \<Rightarrow> int \<times> int \<times> int) \<Rightarrow> string \<Rightarrow> csv_fault + date" where
  "csv_date separator ymd stripped =
     (let parts = split_on separator stripped in
      if length parts \<noteq> 3 then Inl (InvalidDate stripped)
      else
        (case three_ints parts of
           None \<Rightarrow> Inl BadNumber
         | Some t \<Rightarrow> (let (y, m, d) = ymd t in case make_date y m d of Inl _ \<Rightarrow> Inl BadDate | Inr x \<Rightarrow> Inr x)))"

definition nordea_date :: "string \<Rightarrow> csv_fault + date" where
  "nordea_date = csv_date CHR ''/'' (\<lambda>t. t)"

definition danske_date :: "string \<Rightarrow> csv_fault + date" where
  "danske_date = csv_date CHR ''.'' (\<lambda>(d, m, y). (y, m, d))"

definition no_description :: string where "no_description = ''(no description)''"

text \<open>The names of the columns, with the Danish letter at its code point.\<close>

definition belob :: string where "belob = ''Bel'' @ [CHR 0xF8] @ ''b''"
definition bogforingsdato :: string where "bogforingsdato = ''Bogf'' @ [CHR 0xF8] @ ''ringsdato''"

definition nordea_description :: "dict_row \<Rightarrow> string" where
  "nordea_description r =
     (let b = cell_or_empty ''Beskrivelse'' r; n = cell_or_empty ''Navn'' r
      in if b \<noteq> [] then b else if n \<noteq> [] then n else no_description)"

definition danske_description :: "dict_row \<Rightarrow> string" where
  "danske_description r = (let t = cell_or_empty ''Tekst'' r in if t = [] then no_description else t)"

definition bank_row ::
  "string \<Rightarrow> (string \<Rightarrow> csv_fault + date) \<Rightarrow> (dict_row \<Rightarrow> string) \<Rightarrow> int \<Rightarrow> string \<Rightarrow> dict_row \<Rightarrow> csv_fault + csv_row" where
  "bank_row date_column parse_date describe account_id account_name r =
     bindE (need_cell date_column r) (\<lambda>ds.
     bindE (parse_date ds) (\<lambda>dt.
     bindE (need_cell belob r) (\<lambda>raw.
     bindE (signed_row_amount raw) (\<lambda>(ty, a).
     Inr \<lparr>cv_account_id = account_id, cv_account_name = account_name, cv_category_id = None, cv_category_name = None,
          cv_amount = a, cv_type = ty, cv_description = Some (describe r), cv_date = dt\<rparr>))))"

text \<open>The rows of a bank's statement: blank ones are passed over.  \<open>None\<close> in the answer passes a row over.\<close>

definition present_row :: "(dict_row \<Rightarrow> csv_fault + csv_row) \<Rightarrow> dict_row \<Rightarrow> csv_fault + csv_row option" where
  "present_row f r =
     bindE (row_present r) (\<lambda>b. if b then bindE (f r) (\<lambda>x. Inr (Some x)) else Inr None)"

definition nordea_row :: "int \<Rightarrow> string \<Rightarrow> dict_row \<Rightarrow> csv_fault + csv_row option" where
  "nordea_row account_id account_name =
     present_row (bank_row bogforingsdato nordea_date nordea_description account_id account_name)"

definition danske_row :: "int \<Rightarrow> string \<Rightarrow> dict_row \<Rightarrow> csv_fault + csv_row option" where
  "danske_row account_id account_name =
     present_row (bank_row ''Dato'' danske_date danske_description account_id account_name)"

text \<open>
  The internal format carries the account of each row.  \<open>int(row[k])\<close> and \<open>Decimal(row[k])\<close> raise a \<open>TypeError\<close>
  on a null, and \<open>row.get(k, "")\<close> gives the null itself.
\<close>

definition raw_cell :: "string \<Rightarrow> dict_row \<Rightarrow> csv_fault + string" where
  "raw_cell k r = (case cell k r of None \<Rightarrow> Inl (MissingKey k) | Some None \<Rightarrow> Inl RowCrash | Some (Some s) \<Rightarrow> Inr s)"

definition optional_text :: "string \<Rightarrow> dict_row \<Rightarrow> csv_fault + string option" where
  "optional_text k r =
     (case cell k r of
        Some None \<Rightarrow> Inl RowCrash
      | Some (Some s) \<Rightarrow> Inr (if strip s = [] then None else Some (strip s))
      | None \<Rightarrow> Inr None)"

definition optional_int :: "string \<Rightarrow> dict_row \<Rightarrow> csv_fault + int option" where
  "optional_int k r =
     (case cell k r of
        Some (Some s) \<Rightarrow> if s = [] then Inr None else bindE (of_option BadNumber (int_of_text s)) (\<lambda>n. Inr (Some n))
      | _ \<Rightarrow> Inr None)"

definition positive_amount :: "string \<Rightarrow> csv_fault + py_dec" where
  "positive_amount s =
     bindE (of_option BadDecimal (parse_dec s)) (\<lambda>a.
     bindE (of_option BadDecimal (dec_nonneg a)) (\<lambda>nonneg.
     bindE (guardE (nonneg \<and> \<not> dec_is_zero a) NotPositive) (\<lambda>_. Inr a)))"

definition csv_type :: "string \<Rightarrow> csv_fault + transaction_type" where
  "csv_type s =
     (if s = ''income'' then Inr Income else if s = ''expense'' then Inr Expense else Inl (InvalidType s))"

definition internal_row :: "dict_row \<Rightarrow> csv_fault + csv_row option" where
  "internal_row r =
     bindE (raw_cell ''amount'' r) (\<lambda>raw.
     bindE (positive_amount raw) (\<lambda>a.
     bindE (need_cell ''transaction_type'' r) (\<lambda>ts.
     bindE (csv_type (lower ts)) (\<lambda>ty.
     bindE (raw_cell ''account_id'' r) (\<lambda>acc.
     bindE (of_option BadNumber (int_of_text acc)) (\<lambda>account_id.
     bindE (need_cell ''account_name'' r) (\<lambda>account_name.
     bindE (optional_int ''category_id'' r) (\<lambda>category_id.
     bindE (optional_text ''category_name'' r) (\<lambda>category_name.
     bindE (optional_text ''description'' r) (\<lambda>description.
     bindE (need_cell ''date'' r) (\<lambda>ds.
     bindE (of_option BadDate (date_fromisoformat ds)) (\<lambda>dt.
     Inr (Some \<lparr>cv_account_id = account_id, cv_account_name = account_name, cv_category_id = category_id,
                cv_category_name = category_name, cv_amount = a, cv_type = ty, cv_description = description,
                cv_date = dt\<rparr>)))))))))))))"

section \<open>The parsers\<close>

text \<open>The loop over the numbered rows; the first data row is number two.\<close>

fun parse_rows ::
  "(dict_row \<Rightarrow> csv_fault + csv_row option) \<Rightarrow> nat \<Rightarrow> dict_row list \<Rightarrow> parsed_csv \<Rightarrow> csv_error + parsed_csv" where
  "parse_rows f n [] p = Inr p"
| "parse_rows f n (r # rs) p =
     (case f r of
        Inr None \<Rightarrow> parse_rows f (Suc n) rs p
      | Inr (Some x) \<Rightarrow> bindE (add_row x p) (\<lambda>p'. parse_rows f (Suc n) rs p')
      | Inl RowCrash \<Rightarrow> Inl CsvRowCrash
      | Inl e \<Rightarrow> parse_rows f (Suc n) rs (p\<lparr>pc_errors := pc_errors p @ [(n, e)], pc_skipped := pc_skipped p + 1\<rparr>))"

definition empty_parsed :: parsed_csv where
  "empty_parsed = \<lparr>pc_rows = [], pc_errors = [], pc_skipped = 0\<rparr>"

text \<open>The reader is read as the loop goes, so its error comes after the rows before it.\<close>

definition parse_table ::
  "char \<Rightarrow> (string list \<Rightarrow> string list) \<Rightarrow> (dict_row \<Rightarrow> csv_fault + csv_row option) \<Rightarrow> string \<Rightarrow> csv_error + parsed_csv" where
  "parse_table delimiter missing f t =
     (case csv_read delimiter t of
        ([], failed) \<Rightarrow> Inl (if failed then CsvReaderError else CsvNoHeaders)
      | (names # rows, failed) \<Rightarrow>
          bindE (guardE (missing names = []) (CsvMissingColumns (missing names))) (\<lambda>_.
          bindE (parse_rows f 2 (dict_rows names rows) empty_parsed) (\<lambda>p.
          bindE (guardE (\<not> failed) CsvReaderError) (\<lambda>_. Inr p))))"

text \<open>The bank formats compare stripped names, the internal one the names as they are.\<close>

definition bank_missing :: "string list \<Rightarrow> string list \<Rightarrow> string list" where
  "bank_missing required names = filter (\<lambda>k. k \<notin> set (filter (\<lambda>h. h \<noteq> []) (map strip names))) required"

definition internal_missing :: "string list \<Rightarrow> string list" where
  "internal_missing names =
     filter (\<lambda>k. k \<notin> set names) [''account_id'', ''account_name'', ''amount'', ''date'', ''transaction_type'']"

datatype csv_parser = InternalParser | NordeaParser | DanskeParser

definition get_parser :: "string \<Rightarrow> csv_error + csv_parser" where
  "get_parser bank_format =
     (if bank_format = ''internal'' then Inr InternalParser
      else if bank_format = ''nordea'' then Inr NordeaParser
      else if bank_format = ''danske_bank'' then Inr DanskeParser
      else Inl (UnknownFormat bank_format))"

definition parse_internal :: "nat list \<Rightarrow> csv_error + parsed_csv" where
  "parse_internal content =
     bindE (of_option CsvUndecodable (decode_utf8 content)) (parse_table CHR '','' internal_missing internal_row)"

definition parse_nordea :: "nat list \<Rightarrow> int \<Rightarrow> string \<Rightarrow> csv_error + parsed_csv" where
  "parse_nordea content account_id account_name =
     bindE (of_option CsvUndecodable (decode_bank content))
       (parse_table CHR '';'' (bank_missing [belob, ''Beskrivelse'', bogforingsdato]) (nordea_row account_id account_name))"

definition parse_danske :: "nat list \<Rightarrow> int \<Rightarrow> string \<Rightarrow> csv_error + parsed_csv" where
  "parse_danske content account_id account_name =
     bindE (of_option CsvUndecodable (decode_bank content))
       (parse_table CHR '';'' (bank_missing [belob, ''Dato'', ''Tekst'']) (danske_row account_id account_name))"

fun parse_csv :: "csv_parser \<Rightarrow> nat list \<Rightarrow> int \<Rightarrow> string \<Rightarrow> csv_error + parsed_csv" where
  "parse_csv InternalParser content account_id account_name = parse_internal content"
| "parse_csv NordeaParser content account_id account_name = parse_nordea content account_id account_name"
| "parse_csv DanskeParser content account_id account_name = parse_danske content account_id account_name"

section \<open>The import\<close>

text \<open>The key compares decimals by value; an infinite amount has none and is equal to itself only.\<close>

type_synonym csv_key = "int \<times> date \<times> rat option \<times> string option"

definition csv_key :: "csv_row \<Rightarrow> csv_key" where
  "csv_key r = (cv_account_id r, cv_date r, dec_val (cv_amount r), cv_description r)"

text \<open>The stored amounts are whole cents, so only a key of whole cents can be found.\<close>

fun stored_key :: "csv_key \<Rightarrow> dedup_key option" where
  "stored_key (a, d, Some x, ds) = (if whole_cents x then Some (a, d, \<lfloor>x * 100\<rfloor>, ds) else None)"
| "stored_key (a, d, None, ds) = None"

definition csv_key_exists :: "int \<Rightarrow> csv_row list \<Rightarrow> tx_db \<Rightarrow> csv_key \<Rightarrow> bool" where
  "csv_key_exists user_id rows db k \<longleftrightarrow>
     (case stored_key k of
        None \<Rightarrow> False
      | Some k' \<Rightarrow> k' \<in> find_existing_dedup_keys user_id (List.map_filter (\<lambda>r. stored_key (csv_key r)) rows) False db)"

fun csv_fresh :: "(csv_key \<Rightarrow> bool) \<Rightarrow> csv_row list \<Rightarrow> csv_key set \<Rightarrow> csv_row list \<times> nat" where
  "csv_fresh existing [] seen = ([], 0)"
| "csv_fresh existing (r # rs) seen =
     (if existing (csv_key r) \<or> csv_key r \<in> seen
      then (let (rows, n) = csv_fresh existing rs seen in (rows, n + 1))
      else (let (rows, n) = csv_fresh existing rs (insert (csv_key r) seen) in (r # rows, n)))"

text \<open>The column rounds half away from zero; a statement's amounts are positive.\<close>

definition column_cents :: "rat \<Rightarrow> int" where
  "column_cents x = \<lfloor>x * 100 + 1 / 2\<rfloor>"

definition csv_tx_row :: "instant \<Rightarrow> int \<Rightarrow> csv_row \<Rightarrow> tx_error + tx_row" where
  "csv_tx_row now user_id r =
     (case dec_val (cv_amount r) of
        None \<Rightarrow> Inl TxDataError
      | Some x \<Rightarrow>
          Inr \<lparr>tx_id = 0, tx_user = user_id, tx_account = cv_account_id r, tx_account_name = cv_account_name r,
               tx_category_id = cv_category_id r, tx_category_name = cv_category_name r, tx_amount = column_cents x,
               tx_type = cv_type r, tx_description = cv_description r, tx_date = cv_date r, tx_external_id = None,
               tx_currency = ''DKK'', tx_subcategory_id = None, tx_subcategory_name = None, tx_tier = None,
               tx_confidence = None, tx_deleted_at = None, tx_created_at = now\<rparr>)"

record csv_result =
  ci_imported :: nat
  ci_skipped :: nat
  ci_duplicates :: nat
  ci_errors :: "(nat \<times> csv_fault) list"

definition store_csv :: "instant \<Rightarrow> int \<Rightarrow> csv_row list \<Rightarrow> tx_db \<Rightarrow> csv_error + (nat \<times> tx_db)" where
  "store_csv now user_id rows db =
     (case bindE (mapE_tx (csv_tx_row now user_id) rows) (\<lambda>txs. bulk_create txs db) of
        Inl e \<Rightarrow> Inl (CsvStoreError e)
      | Inr (created, db') \<Rightarrow> Inr (length created, tx_outbox_add_batch now created db'))"

definition import_parsed :: "instant \<Rightarrow> int \<Rightarrow> parsed_csv \<Rightarrow> tx_db \<Rightarrow> csv_error + (csv_result \<times> tx_db)" where
  "import_parsed now user_id p db =
     (let (rows, duplicates) = csv_fresh (csv_key_exists user_id (pc_rows p) db) (pc_rows p) {};
          result = (\<lambda>n. \<lparr>ci_imported = n, ci_skipped = pc_skipped p, ci_duplicates = duplicates, ci_errors = pc_errors p\<rparr>) in
      if rows = [] then Inr (result 0, db)
      else bindE (store_csv now user_id rows db) (\<lambda>(n, db'). Inr (result n, db')))"

definition import_csv ::
  "instant \<Rightarrow> int \<Rightarrow> nat list \<Rightarrow> string \<Rightarrow> int option \<Rightarrow> string option \<Rightarrow> tx_db \<Rightarrow> csv_error + (csv_result \<times> tx_db)" where
  "import_csv now user_id content bank_format account_id account_name db =
     bindE (guardE (bank_format = ''internal'' \<or> account_id \<noteq> None \<and> or_empty account_name \<noteq> []) AccountRequired) (\<lambda>_.
     bindE (get_parser bank_format) (\<lambda>parser.
     bindE (parse_csv parser content (case account_id of None \<Rightarrow> 0 | Some a \<Rightarrow> a) (or_empty account_name)) (\<lambda>p.
     import_parsed now user_id p db)))"

text \<open>The endpoint's guard against an upload that is no statement, before its bytes are read.\<close>

definition CSV_MAX_BYTES :: int where "CSV_MAX_BYTES = 10 * 1024 * 1024"

datatype upload_refusal = UnsupportedMediaType | ContentTooLarge

definition ALLOWED_CSV_CONTENT_TYPES :: "string list" where
  "ALLOWED_CSV_CONTENT_TYPES =
     [''text/csv'', ''application/csv'', ''text/plain'', ''application/vnd.ms-excel'', ''application/octet-stream'']"

definition reject_unimportable_upload :: "string option \<Rightarrow> int option \<Rightarrow> upload_refusal + unit" where
  "reject_unimportable_upload content_type upload_size =
     (let media_type = lower (strip (hd (split_on CHR '';'' (or_empty content_type)))) in
      bindE (guardE (media_type = [] \<or> media_type \<in> set ALLOWED_CSV_CONTENT_TYPES) UnsupportedMediaType) (\<lambda>_.
      guardE (case upload_size of None \<Rightarrow> True | Some n \<Rightarrow> n \<le> CSV_MAX_BYTES) ContentTooLarge))"

end
