(* ===== verification/CsvProofs.thy ===== *)
theory CsvProofs
  imports CsvImport TransactionProofs BankClientProofs
begin

text \<open>
  The import of bank statements: the reader gives back the cells a writer quoted, Danish amounts are read exactly, a
  statement of Danske Bank becomes one row per line, and a statement that was imported is recognised when it comes
  again.
\<close>

section \<open>Quoted cells\<close>

definition escape :: "string \<Rightarrow> string" where
  "escape s = concat (map (\<lambda>c. if c = quote then [quote, quote] else [c]) s)"

definition write_field :: "string \<Rightarrow> string" where
  "write_field s = quote # escape s @ [quote]"

fun write_fields :: "char \<Rightarrow> string list \<Rightarrow> string" where
  "write_fields d [] = [carriage_return, newline]"
| "write_fields d [f] = write_field f @ [carriage_return, newline]"
| "write_fields d (f # g # fs) = write_field f @ d # write_fields d (g # fs)"

definition write_rows :: "char \<Rightarrow> string list list \<Rightarrow> string" where
  "write_rows d rows = concat (map (write_fields d) rows)"

lemma escape_simps [simp]:
  "escape [] = []" "escape (c # s) = (if c = quote then [quote, quote] else [c]) @ escape s"
  by (simp_all add: escape_def)

lemma csv_lines_eq_Nil [simp]: "csv_lines t = [] \<longleftrightarrow> t = []"
  by (cases t) (auto split: list.splits)

text \<open>The reader goes through a text character by character; only a newline inside quotes crosses a line.\<close>

lemma records_char:
  assumes "c \<noteq> newline" and "t \<noteq> []" and "csv_char d st c = Some st'"
  shows "csv_records d st (csv_lines (c # t)) = csv_records d st' (csv_lines t)"
proof -
  obtain l ls where "csv_lines t = l # ls" using assms(2) by (cases "csv_lines t") auto
  then show ?thesis using assms(1, 3) by simp
qed

lemma records_newline:
  assumes "csv_char d st newline = Some st'" and "cs_mode st' = InQuotedField"
  shows "csv_records d st (csv_lines (newline # t)) = csv_records d st' (csv_lines t)"
  using assms by (simp add: csv_eol_def)

lemma records_quoted:
  assumes "cs_mode st = InQuotedField" and "c \<noteq> quote" and "int (length (cs_field st)) < CSV_FIELD_LIMIT" and "t \<noteq> []"
  shows "csv_records d st (csv_lines (c # t)) = csv_records d (st\<lparr>cs_field := cs_field st @ [c]\<rparr>) (csv_lines t)"
proof -
  have step: "csv_char d st c = Some (st\<lparr>cs_field := cs_field st @ [c]\<rparr>)"
    using assms by (simp add: csv_char_def add_char_def)
  show ?thesis
  proof (cases "c = newline")
    case True
    then show ?thesis using records_newline [of d st] step assms(1) by (simp del: csv_lines.simps)
  next
    case False
    then show ?thesis by (rule records_char [OF _ assms(4) step])
  qed
qed

lemma records_two_quotes:
  assumes "cs_mode st = InQuotedField" and "int (length (cs_field st)) < CSV_FIELD_LIMIT" and "t \<noteq> []"
  shows "csv_records d st (csv_lines (quote # quote # t)) = csv_records d (st\<lparr>cs_field := cs_field st @ [quote]\<rparr>) (csv_lines t)"
proof -
  have "csv_char d st quote = Some (st\<lparr>cs_mode := QuoteInQuotedField\<rparr>)" using assms(1) by (simp add: csv_char_def)
  moreover have "csv_char d (st\<lparr>cs_mode := QuoteInQuotedField\<rparr>) quote = Some (st\<lparr>cs_field := cs_field st @ [quote]\<rparr>)"
    using assms(1, 2) by (simp add: csv_char_def add_char_def)
  ultimately show ?thesis using assms(3) by (simp add: records_char del: csv_lines.simps)
qed

lemma records_escaped:
  assumes "cs_mode st = InQuotedField" and "int (length (cs_field st) + length s) \<le> CSV_FIELD_LIMIT" and "t \<noteq> []"
  shows "csv_records d st (csv_lines (escape s @ t)) = csv_records d (st\<lparr>cs_field := cs_field st @ s\<rparr>) (csv_lines t)"
  using assms(1, 2)
proof (induction s arbitrary: st)
  case (Cons c s)
  let ?st = "st\<lparr>cs_field := cs_field st @ [c]\<rparr>"
  have limit: "int (length (cs_field st)) < CSV_FIELD_LIMIT" using Cons.prems(2) by simp
  have rest: "escape s @ t \<noteq> []" using assms(3) by simp
  have "csv_records d st (csv_lines (escape (c # s) @ t)) = csv_records d ?st (csv_lines (escape s @ t))"
    using records_two_quotes [OF Cons.prems(1) limit rest] records_quoted [OF Cons.prems(1) _ limit rest]
    by (simp del: csv_lines.simps)
  also have "\<dots> = csv_records d (?st\<lparr>cs_field := cs_field ?st @ s\<rparr>) (csv_lines t)"
    by (rule Cons.IH) (use Cons.prems in simp_all)
  finally show ?case by simp
qed simp

text \<open>A quoted cell leaves its text behind, whatever follows it.\<close>

lemma records_field:
  assumes "cs_mode st = StartRecord \<or> cs_mode st = StartField" and "cs_field st = []" and "int (length s) \<le> CSV_FIELD_LIMIT"
    and "t \<noteq> []"
  shows "csv_records d st (csv_lines (write_field s @ t)) =
     csv_records d (st\<lparr>cs_mode := QuoteInQuotedField, cs_field := s\<rparr>) (csv_lines t)"
proof -
  let ?st = "st\<lparr>cs_mode := InQuotedField\<rparr>"
  have "csv_records d st (csv_lines (write_field s @ t)) = csv_records d ?st (csv_lines (escape s @ quote # t))"
    unfolding write_field_def using assms(1)
    by (simp del: csv_lines.simps) (rule records_char, auto simp: csv_char_def csv_start_field_def)
  also have "\<dots> = csv_records d (?st\<lparr>cs_field := cs_field ?st @ s\<rparr>) (csv_lines (quote # t))"
    by (rule records_escaped) (use assms in simp_all)
  also have "\<dots> = csv_records d (st\<lparr>cs_mode := QuoteInQuotedField, cs_field := s\<rparr>) (csv_lines t)"
    by (rule records_char) (use assms(2, 4) in \<open>simp_all add: csv_char_def\<close>)
  finally show ?thesis .
qed

definition separator :: "char \<Rightarrow> bool" where
  "separator d \<longleftrightarrow> d \<notin> {quote, newline, carriage_return}"

definition cells_fit :: "string list \<Rightarrow> bool" where
  "cells_fit fs \<longleftrightarrow> fs \<noteq> [] \<and> (\<forall>f \<in> set fs. int (length f) \<le> CSV_FIELD_LIMIT)"

lemma records_row:
  assumes "separator d" and "cells_fit fs" and "cs_mode st = StartRecord \<or> cs_mode st = StartField" and "cs_field st = []"
  shows "csv_records d st (csv_lines (write_fields d fs @ t)) =
     (let (rows, failed) = csv_records d fresh_record (csv_lines t) in ((cs_fields st @ fs) # rows, failed))"
  using assms(2-4)
proof (induction fs arbitrary: st rule: induct_list012)
  case (2 f)
  let ?st = "st\<lparr>cs_mode := QuoteInQuotedField, cs_field := f\<rparr>"
  let ?saved = "save_field EatCrnl ?st"
  have "csv_records d st (csv_lines (write_fields d [f] @ t)) = csv_records d ?st (csv_lines (carriage_return # newline # t))"
    using records_field [OF 2(2, 3), of f "carriage_return # newline # t"] 2(1)
    by (simp add: cells_fit_def del: csv_lines.simps)
  also have "\<dots> = csv_records d ?saved (csv_lines (newline # t))"
    by (rule records_char) (use assms(1) in \<open>auto simp: csv_char_def separator_def\<close>)
  also have "\<dots> = (let (rows, failed) = csv_records d fresh_record (csv_lines t) in ((cs_fields st @ [f]) # rows, failed))"
    by (simp add: csv_char_def save_field_def csv_eol_def)
  finally show ?case .
next
  case (3 f g fs)
  let ?st = "st\<lparr>cs_mode := QuoteInQuotedField, cs_field := f\<rparr>"
  let ?after = "save_field StartField ?st"
  have more: "write_fields d (g # fs) @ t \<noteq> []" by (cases fs) simp_all
  have "csv_records d st (csv_lines (write_fields d (f # g # fs) @ t)) =
      csv_records d ?st (csv_lines (d # write_fields d (g # fs) @ t))"
    using records_field [OF 3(4, 5), of f "d # write_fields d (g # fs) @ t"] 3(3)
    by (simp add: cells_fit_def del: csv_lines.simps)
  also have "\<dots> = csv_records d ?after (csv_lines (write_fields d (g # fs) @ t))"
    by (rule records_char [OF _ more]) (use assms(1) in \<open>simp_all add: csv_char_def separator_def\<close>)
  also have "\<dots> = (let (rows, failed) = csv_records d fresh_record (csv_lines t) in ((cs_fields ?after @ g # fs) # rows, failed))"
    by (rule 3(2)) (use 3(3) in \<open>simp_all add: cells_fit_def save_field_def\<close>)
  finally show ?case by (simp add: save_field_def)
qed (simp add: cells_fit_def)

lemma csv_read_write:
  assumes "separator d" and "list_all cells_fit rows"
  shows "csv_read d (write_rows d rows) = (rows, False)"
  using assms(2)
proof (induction rows)
  case Nil
  then show ?case by (simp add: csv_read_def write_rows_def fresh_record_def)
next
  case (Cons r rows)
  then show ?case
    using records_row [OF assms(1), of r fresh_record "write_rows d rows"]
    by (simp add: csv_read_def write_rows_def fresh_record_def)
qed

section \<open>Danish amounts\<close>

text \<open>An amount as a bank writes it: groups of three digits, a comma, two decimals.\<close>

function thousands :: "nat \<Rightarrow> string" where
  "thousands n = (if n < 1000 then show_nat n else thousands (n div 1000) @ CHR ''.'' # pad 3 (n mod 1000))"
  by pat_completeness auto
termination by (relation "measure id") auto

declare thousands.simps [simp del]

definition show_danish :: "int \<Rightarrow> string" where
  "show_danish c =
     (if c < 0 then ''-'' else []) @ thousands (nat \<bar>c\<bar> div 100) @ CHR '','' # pad 2 (nat \<bar>c\<bar> mod 100)"

lemma pad_snoc: "pad (Suc (Suc w)) n = pad (Suc w) (n div 10) @ [char_of (48 + n mod 10)]"
proof (cases "n < 10")
  case True
  have "char_of (48 :: nat) = CHR ''0''" by code_simp
  then show ?thesis using True by (simp add: pad_def show_nat_single replicate_append_same)
next
  case False
  then show ?thesis by (simp add: pad_def show_nat_snoc [OF False])
qed

lemma show_nat_pad_1: "n < 10 \<Longrightarrow> pad (Suc 0) n = [char_of (48 + n)]"
  by (simp add: pad_def show_nat_single)

lemma show_nat_group:
  assumes "\<not> n < 1000"
  shows "show_nat n = show_nat (n div 1000) @ pad 3 (n mod 1000)"
proof -
  have d: "n div 10 div 10 = n div 100" "n div 100 div 10 = n div 1000" "\<not> n < 10" "\<not> n div 10 < 10" "\<not> n div 100 < 10"
    using assms by (simp_all add: div_mult2_eq [symmetric])
  have low: "n mod 1000 = 10 * (n div 10 mod 100) + n mod 10" "n div 10 mod 100 = 10 * (n div 100 mod 10) + n div 10 mod 10"
    using mod_mult2_eq [of n 10 100] mod_mult2_eq [of "n div 10" 10 10] d(1) by simp_all
  have split: "(10 * x + y) div 10 = x" "(10 * x + y) mod 10 = y" if "y < 10" for x y :: nat using that by simp_all
  have high: "n mod 1000 div 10 = n div 10 mod 100" "n mod 1000 mod 10 = n mod 10"
    "n div 10 mod 100 div 10 = n div 100 mod 10" "n div 10 mod 100 mod 10 = n div 10 mod 10"
    unfolding low(1) by (rule split, simp) (rule split, simp, unfold low(2), rule split, simp, rule split, simp)
  then have m: "n mod 1000 div 10 div 10 = n div 100 mod 10" "n mod 1000 div 10 mod 10 = n div 10 mod 10"
    "n mod 1000 mod 10 = n mod 10" "n div 100 mod 10 < 10"
    by (simp_all only: mod_less_divisor zero_less_numeral)
  have "show_nat n = show_nat (n div 1000) @ [char_of (48 + n div 100 mod 10), char_of (48 + n div 10 mod 10), char_of (48 + n mod 10)]"
    using show_nat_snoc [OF d(3)] show_nat_snoc [OF d(4)] show_nat_snoc [OF d(5)] unfolding d(1,2) by simp
  then show ?thesis
    using pad_snoc [of 1 "n mod 1000"] pad_snoc [of 0 "n mod 1000 div 10"] show_nat_pad_1 [OF m(4)]
    unfolding numeral_3_eq_3 by (simp only: m One_nat_def append.simps)
qed

lemma digits_not_dot: "list_all is_digit s \<Longrightarrow> CHR ''.'' \<notin> set s \<and> CHR '','' \<notin> set s"
  by (auto simp: list_all_iff is_digit_def)

lemma thousands_plain:
  "filter (\<lambda>c. c \<noteq> CHR ''.'') (thousands n) = show_nat n" "CHR '','' \<notin> set (thousands n)"
  "CHR ''.'' \<in> set (thousands n) \<longleftrightarrow> \<not> n < 1000"
proof (induction n rule: thousands.induct)
  case (1 n)
  {
    case 1
    have "filter (\<lambda>c. c \<noteq> CHR ''.'') (pad 3 (n mod 1000)) = pad 3 (n mod 1000)"
      using digits_not_dot [OF pad_all_digits] by (intro filter_True) auto
    moreover have "filter (\<lambda>c. c \<noteq> CHR ''.'') (show_nat n) = show_nat n"
      using digits_not_dot [OF show_nat_all_digits] by (intro filter_True) auto
    ultimately show ?case using "1.IH"(1) show_nat_group [of n] by (subst thousands.simps) simp
  next
    case 2
    show ?case
      using "1.IH"(2) digits_not_dot [OF show_nat_all_digits [of n]] digits_not_dot [OF pad_all_digits [of 3 "n mod 1000"]]
      by (subst thousands.simps) simp
  next
    case 3
    show ?case using digits_not_dot [OF show_nat_all_digits [of n]] by (subst thousands.simps) simp
  }
qed

lemma parse_dec_show_cents: "parse_dec (show_cents c) = Some (DFin (c < 0) (nat \<bar>c\<bar>) (- 2))"
proof -
  let ?n = "nat \<bar>c\<bar>"
  have s: "filter (\<lambda>c. c \<noteq> CHR ''_'') (strip (show_cents c)) = show_cents c"
    using numeral_chars [of _ c] by (subst strip_id) (auto intro: filter_True)
  have dot: "\<not> is_digit CHR ''.''" by (simp add: is_digit_def)
  have len: "length (pad 2 (?n mod 100)) = 2" by (rule length_pad) auto
  have val: "digits_val (show_nat (?n div 100) @ pad 2 (?n mod 100)) = ?n" by (simp add: digits_val_append len)
  show ?thesis
    using len
    by (simp add: parse_dec_def s split_sign_show_cents takeWhile_digits [OF show_nat_all_digits dot]
        all_digits_while [OF pad_all_digits] val parse_exponent_def)
qed

lemma parse_danish_show: "parse_danish_amount (show_danish c) = Inr (DFin (c < 0) (nat \<bar>c\<bar>) (- 2))"
proof -
  let ?n = "nat \<bar>c\<bar> div 100" and ?comma = "map (\<lambda>c. if c = CHR '','' then CHR ''.'' else c)"
  have same: "?comma s = s" if "list_all is_digit s" for s
    using that digits_not_dot by (intro map_idI) auto
  have nodot: "filter (\<lambda>c. c \<noteq> CHR ''.'') (pad 2 m) = pad 2 m" for m
    using digits_not_dot [OF pad_all_digits [of 2 m]] by (intro filter_True) auto
  have space: "\<not> is_space c'" if "c' \<in> set (show_danish c)" for c'
  proof -
    have "c' \<in> set (show_nat ?n) \<or> c' = CHR ''.''" if "c' \<in> set (thousands ?n)"
      using that arg_cong [OF thousands_plain(1) [of ?n], of set] by auto
    with that have "is_digit c' \<or> c' \<in> {CHR ''.'', CHR '','', CHR ''-''}"
      using show_nat_all_digits [of ?n] pad_all_digits [of 2 "nat \<bar>c\<bar> mod 100"]
      by (auto simp: show_danish_def list_all_iff split: if_splits)
    then show ?thesis by (auto simp: is_digit_def is_space_def)
  qed
  have cleaned: "strip (show_danish c) = show_danish c" by (rule strip_id) (rule space)
  have plain: "?comma (filter (\<lambda>c. c \<noteq> CHR ''.'') (show_danish c)) = show_cents c"
    by (simp add: show_danish_def show_cents_def thousands_plain(1) nodot same show_nat_all_digits pad_all_digits)
  have "filter (\<lambda>c. c \<noteq> CHR ''.'') (show_danish c) = show_danish c" if "CHR ''.'' \<notin> set (show_danish c)"
    using that by (intro filter_True) auto
  moreover have "show_danish c \<noteq> []" "CHR '','' \<in> set (show_danish c)" by (simp_all add: show_danish_def)
  ultimately show ?thesis
    using plain by (auto simp: parse_danish_amount_def cleaned Let_def parse_dec_show_cents of_option_def)
qed

section \<open>Bytes\<close>

definition utf8_encode :: "string \<Rightarrow> nat list" where
  "utf8_encode t =
     concat (map (\<lambda>c. let n = of_char c in if n < 128 then [n] else [192 + n div 64, 128 + n mod 64]) t)"

lemma utf8_decode_encode: "utf8_decode (utf8_encode t) = Some (map of_char t)"
proof (induction t)
  case (Cons c t)
  have n: "(of_char c :: nat) < 256" by simp
  show ?case
  proof (cases "(of_char c :: nat) < 128")
    case True
    then show ?thesis using Cons by (simp add: utf8_encode_def)
  next
    case False
    have "of_char c div (64 :: nat) < 32" by (rule less_mult_imp_div_less) (use n in linarith)
    moreover have "2 \<le> of_char c div (64 :: nat)" using False by simp
    moreover have "of_char c div 64 * 64 + of_char c mod 64 = (of_char c :: nat)" by simp
    ultimately show ?thesis using False Cons by (simp add: utf8_encode_def continuation_def Let_def)
  qed
qed (simp add: utf8_encode_def)

lemma char_of_code_of_char [simp]: "char_of_code (of_char c) = c"
  by (simp add: char_of_code_def)

lemma decode_bank_encode:
  assumes "t \<noteq> []" and "(of_char (hd t) :: nat) < 128"
  shows "decode_bank (utf8_encode t) = Some t"
proof -
  obtain c u where t: "t = c # u" using assms(1) by (cases t) auto
  have "take 3 (utf8_encode t) \<noteq> [239, 187, 191]" using assms(2) by (simp add: t utf8_encode_def)
  then show ?thesis by (simp add: decode_bank_def decode_utf8_sig_def decode_utf8_def utf8_decode_encode comp_def)
qed

section \<open>A statement of Danske Bank\<close>

record statement_line =
  sl_date :: date
  sl_category :: string
  sl_subcategory :: string
  sl_text :: string
  sl_amount :: int
  sl_balance :: int
  sl_status :: string
  sl_reconciled :: string

definition danish_date :: "date \<Rightarrow> string" where
  "danish_date d = pad 2 (nat (day d)) @ CHR ''.'' # pad 2 (nat (month d)) @ CHR ''.'' # pad 4 (nat (year d))"

definition danske_header :: "string list" where
  "danske_header = [''Dato'', ''Kategori'', ''Underkategori'', ''Tekst'', belob, ''Saldo'', ''Status'', ''Afstemt'']"

definition danske_cells :: "statement_line \<Rightarrow> string list" where
  "danske_cells l =
     [danish_date (sl_date l), sl_category l, sl_subcategory l, sl_text l, show_danish (sl_amount l), show_danish (sl_balance l),
      sl_status l, sl_reconciled l]"

definition danske_file :: "statement_line list \<Rightarrow> nat list" where
  "danske_file ls = utf8_encode (write_rows CHR '';'' (danske_header # map danske_cells ls))"

definition line_ok :: "statement_line \<Rightarrow> bool" where
  "line_ok l \<longleftrightarrow> valid_date (sl_date l) \<and> sl_amount l \<noteq> 0 \<and> \<bar>sl_amount l\<bar> < 10 ^ 28 \<and> cells_fit (danske_cells l)"

text \<open>What a line says: the magnitude and its direction, the stripped text, the date.\<close>

definition line_row :: "int \<Rightarrow> string \<Rightarrow> statement_line \<Rightarrow> csv_row" where
  "line_row a nm l =
     \<lparr>cv_account_id = a, cv_account_name = nm, cv_category_id = None, cv_category_name = None,
      cv_amount = DFin False (nat \<bar>sl_amount l\<bar>) (- 2), cv_type = (if sl_amount l < 0 then Expense else Income),
      cv_description = Some (if strip (sl_text l) = [] then no_description else strip (sl_text l)), cv_date = sl_date l\<rparr>"

lemma csv_split_on_append: "c \<notin> set xs \<Longrightarrow> split_on c (xs @ c # ys) = xs # split_on c ys"
  by (induction xs) auto

lemma split_on_single: "c \<notin> set xs \<Longrightarrow> split_on c xs = [xs]"
  by (induction xs) auto

lemma digit_chars: "list_all is_digit s \<Longrightarrow> c \<in> set s \<Longrightarrow> \<not> is_space c \<and> c \<noteq> CHR ''_'' \<and> c \<noteq> CHR ''.''"
  by (auto simp: list_all_iff is_digit_def is_space_def)

lemma int_of_text_pad:
  assumes "0 < w"
  shows "int_of_text (pad w n) = Some (int n)"
proof -
  have d: "list_all is_digit (pad w n)" by (rule pad_all_digits)
  have ne: "pad w n \<noteq> []" using assms by (simp add: pad_def)
  have "strip (pad w n) = pad w n" using digit_chars [OF d] by (intro strip_id) blast
  moreover have "split_sign (pad w n) = (False, pad w n)" using split_sign_digits [OF d ne, of "[]"] by simp
  moreover have "split_on CHR ''_'' (pad w n) = [pad w n]" using digit_chars [OF d] by (intro split_on_single) blast
  ultimately show ?thesis using d ne by (simp add: int_of_text_def)
qed

lemma strip_danish_date: "strip (danish_date d) = danish_date d"
  using digit_chars [OF pad_all_digits] by (intro strip_id) (auto simp: danish_date_def is_space_def)

lemma danske_date_read:
  assumes "valid_date d"
  shows "danske_date (danish_date d) = Inr d"
proof -
  have nodot: "CHR ''.'' \<notin> set (pad w n)" for w n using digits_not_dot [OF pad_all_digits [of w n]] by simp
  have "split_on CHR ''.'' (danish_date d) = [pad 2 (nat (day d)), pad 2 (nat (month d)), pad 4 (nat (year d))]"
    by (simp add: danish_date_def csv_split_on_append split_on_single nodot)
  moreover have "0 \<le> day d" "0 \<le> month d" "0 \<le> year d" using assms by (auto simp: valid_date_def)
  ultimately show ?thesis
    using assms by (cases d) (simp add: danske_date_def csv_date_def three_ints_def int_of_text_pad make_date_def)
qed

lemma belob_distinct [simp]:
  "belob \<noteq> ''Dato''" "belob \<noteq> ''Tekst''" "belob \<noteq> ''Kategori''" "belob \<noteq> ''Underkategori''" "belob \<noteq> ''Saldo''"
  "belob \<noteq> ''Status''" "belob \<noteq> ''Afstemt''" "''Dato'' \<noteq> belob" "''Tekst'' \<noteq> belob"
  by (simp_all add: belob_def)

lemma danske_cell:
  "cell ''Dato'' (dict_row danske_header (danske_cells l)) = Some (Some (danish_date (sl_date l)))"
  "cell ''Tekst'' (dict_row danske_header (danske_cells l)) = Some (Some (sl_text l))"
  "cell belob (dict_row danske_header (danske_cells l)) = Some (Some (show_danish (sl_amount l)))"
  by (simp_all add: cell_def dict_row_def danske_header_def danske_cells_def)

lemma danske_row_read:
  assumes "line_ok l"
  shows "danske_row a nm (dict_row danske_header (danske_cells l)) = Inr (Some (line_row a nm l))"
proof -
  let ?r = "dict_row danske_header (danske_cells l)"
  have ok: "valid_date (sl_date l)" "sl_amount l \<noteq> 0" "nat \<bar>sl_amount l\<bar> < 10 ^ 28" using assms by (auto simp: line_ok_def)
  have "danish_date (sl_date l) \<noteq> []" by (simp add: danish_date_def)
  then have "has_text ?r"
    using danske_cell(1) [of l] by (simp add: has_text_def strip_danish_date dict_row_def danske_header_def danske_cells_def)
  then have present: "row_present ?r = Inr True" by (simp add: row_present_def)
  have "signed_row_amount (strip (show_danish (sl_amount l))) =
      Inr (if sl_amount l < 0 then Expense else Income, DFin False (nat \<bar>sl_amount l\<bar>) (- 2))"
    using ok(2,3) parse_danish_show [of "sl_amount l"]
    by (auto simp: signed_row_amount_def dec_fix_small parse_danish_amount_def guardE_def)
  then show ?thesis
    using ok(1)
    by (simp add: danske_row_def present_row_def present bank_row_def need_cell_def danske_cell strip_danish_date danske_date_read
        line_row_def danske_description_def cell_or_empty_def)
qed

lemma parse_rows_all:
  assumes "\<And>x. x \<in> set xs \<Longrightarrow> f (h x) = Inr (Some (g x))" and "int (length (pc_rows p) + length xs) \<le> CSV_MAX_ROWS"
  shows "parse_rows f n (map h xs) p = Inr (p\<lparr>pc_rows := pc_rows p @ map g xs\<rparr>)"
  using assms
proof (induction xs arbitrary: n p)
  case (Cons x xs)
  then show ?case by (simp add: add_row_def)
qed simp

lemma danske_file_parsed:
  assumes "list_all line_ok ls" and "int (length ls) \<le> CSV_MAX_ROWS"
  shows "parse_csv DanskeParser (danske_file ls) a nm = Inr \<lparr>pc_rows = map (line_row a nm) ls, pc_errors = [], pc_skipped = 0\<rparr>"
proof -
  let ?rows = "danske_header # map danske_cells ls" and ?f = "danske_row a nm"
  have fit: "list_all cells_fit ?rows"
    using assms(1) by (auto simp: list_all_iff line_ok_def cells_fit_def danske_header_def belob_def CSV_FIELD_LIMIT_def)
  have "write_rows CHR '';'' ?rows \<noteq> []" "hd (write_rows CHR '';'' ?rows) = quote"
    by (simp_all add: write_rows_def danske_header_def write_field_def)
  then have decoded: "decode_bank (danske_file ls) = Some (write_rows CHR '';'' ?rows)"
    unfolding danske_file_def by (intro decode_bank_encode) simp_all
  have table: "csv_read CHR '';'' (write_rows CHR '';'' ?rows) = (?rows, False)"
    by (rule csv_read_write [OF _ fit]) (simp add: separator_def)
  have names: "bank_missing [belob, ''Dato'', ''Tekst''] danske_header = []" by code_simp
  have "filter (\<lambda>r. r \<noteq> []) (map danske_cells ls) = map danske_cells ls"
    by (intro filter_True) (auto simp: danske_cells_def)
  then have dicts: "dict_rows danske_header (map danske_cells ls) = map (\<lambda>l. dict_row danske_header (danske_cells l)) ls"
    by (simp add: dict_rows_def comp_def)
  have "parse_rows ?f 2 (map (\<lambda>l. dict_row danske_header (danske_cells l)) ls) empty_parsed
      = Inr (empty_parsed\<lparr>pc_rows := pc_rows empty_parsed @ map (line_row a nm) ls\<rparr>)"
    by (rule parse_rows_all) (use assms danske_row_read in \<open>simp_all add: list_all_iff empty_parsed_def\<close>)
  then show ?thesis
    by (simp add: parse_danske_def decoded parse_table_def table names dicts empty_parsed_def guardE_def of_option_def)
qed

section \<open>Importing a statement again\<close>

lemma csv_fresh_Cons:
  "csv_fresh E (r # rs) seen =
     (if E (csv_key r) \<or> csv_key r \<in> seen then (fst (csv_fresh E rs seen), snd (csv_fresh E rs seen) + 1)
      else (r # fst (csv_fresh E rs (insert (csv_key r) seen)), snd (csv_fresh E rs (insert (csv_key r) seen))))"
  by (simp add: case_prod_unfold Let_def)

lemma csv_fresh_facts:
  shows "length (fst (csv_fresh E rs seen)) + snd (csv_fresh E rs seen) = length rs"
    "set (fst (csv_fresh E rs seen)) \<subseteq> set rs"
    "r \<in> set rs \<Longrightarrow> E (csv_key r) \<or> csv_key r \<in> seen \<or> csv_key r \<in> csv_key ` set (fst (csv_fresh E rs seen))"
proof (induction rs arbitrary: seen)
  case (Cons x rs)
  {
    case 1
    show ?case using Cons(1) by (simp add: csv_fresh_Cons del: csv_fresh.simps)
  next
    case 2
    show ?case using Cons(2) by (auto simp: csv_fresh_Cons simp del: csv_fresh.simps)
  next
    case 3
    then show ?case using Cons(3) [of seen] Cons(3) [of "insert (csv_key x) seen"]
      by (auto simp: csv_fresh_Cons simp del: csv_fresh.simps)
  }
qed simp_all

lemma csv_fresh_all_known: "(\<And>r. r \<in> set rs \<Longrightarrow> E (csv_key r)) \<Longrightarrow> csv_fresh E rs seen = ([], length rs)"
  by (induction rs arbitrary: seen) auto

lemma in_map_filter: "y \<in> set (List.map_filter f xs) \<longleftrightarrow> (\<exists>x \<in> set xs. f x = Some y)"
  by (induction xs) (auto simp: List.map_filter_simps split: option.splits)

lemma csv_key_exists_iff:
  assumes "r \<in> set rows" and "stored_key (csv_key r) = Some k"
  shows "csv_key_exists u rows db (csv_key r) \<longleftrightarrow> k \<in> keys_of u db"
proof -
  have "k \<in> set (List.map_filter (\<lambda>r. stored_key (csv_key r)) rows)" using assms unfolding in_map_filter by blast
  then show ?thesis by (simp add: csv_key_exists_def find_existing_dedup_keys_eq assms(2))
qed

definition exact_amount :: "csv_row \<Rightarrow> bool" where
  "exact_amount r \<longleftrightarrow> (case dec_val (cv_amount r) of None \<Rightarrow> False | Some x \<Rightarrow> whole_cents x)"

lemma column_cents_exact: "whole_cents x \<Longrightarrow> column_cents x = \<lfloor>x * 100\<rfloor>"
  unfolding whole_cents_def column_cents_def by (rule floor_unique) linarith+

lemma csv_tx_row_key:
  assumes "csv_tx_row now u r = Inr tx" and "exact_amount r"
  shows "stored_key (csv_key r) = Some (row_key tx)" "tx_user tx = u" "tx_live tx"
  using assms
  by (auto simp: csv_tx_row_def exact_amount_def csv_key_def row_key_def tx_live_def column_cents_exact split: option.splits)

text \<open>What storing rows adds to the table.\<close>

lemma mapE_tx_all: "mapE_tx f xs = Inr ys \<Longrightarrow> list_all2 (\<lambda>x y. f x = Inr y) xs ys"
  by (induction xs arbitrary: ys) (auto simp: result_simps)

lemma store_csv_keys:
  assumes "store_csv now u rows db = Inr (n, db')" and "list_all exact_amount rows"
  shows "n = length rows" "keys_of u db' = keys_of u db \<union> {k. \<exists>r \<in> set rows. stored_key (csv_key r) = Some k}"
proof -
  obtain txs created db1 where txs: "mapE_tx (csv_tx_row now u) rows = Inr txs" and c: "bulk_create txs db = Inr (created, db1)"
    and n: "n = length created" and db': "db' = tx_outbox_add_batch now created db1"
    using assms(1) by (auto simp: store_csv_def result_simps split: sum.splits)
  note all = mapE_tx_all [OF txs] and created = bulk_create_Inr [OF c]
  show "n = length rows" using all created n by (auto simp: list_all2_lengthD)
  have ident: "tx_ident ` set created = tx_ident ` set txs"
    using created arg_cong [OF number_rows_ident [of "td_next db" txs], of set] by simp
  have one: "stored_key (csv_key r) = Some (row_key tx) \<and> tx_user tx = u \<and> tx_live tx"
    if "r \<in> set rows" "csv_tx_row now u r = Inr tx" for r tx
    using csv_tx_row_key [OF that(2)] assms(2) that(1) by (simp add: list_all_iff)
  have "row_key ` {t \<in> set created. tx_user t = u \<and> tx_live t} = row_key ` {t \<in> set txs. tx_user t = u \<and> tx_live t}"
    using ident by (auto simp: tx_ident_def tx_live_def image_iff set_eq_iff) metis+
  also have "\<dots> = {k. \<exists>r \<in> set rows. stored_key (csv_key r) = Some k}"
    using all one by (auto simp: list_all2_conv_all_nth in_set_conv_nth image_iff) (metis nth_mem option.inject)+
  finally show "keys_of u db' = keys_of u db \<union> {k. \<exists>r \<in> set rows. stored_key (csv_key r) = Some k}"
    using created by (auto simp: db' keys_of_def tx_outbox_add_batch_def)
qed

text \<open>The number of rows an import parsed, and what its answer says of them.\<close>

lemma import_parsed_facts:
  assumes "import_parsed now u p db = Inr (res, db')" and "list_all exact_amount (pc_rows p)"
  shows "ci_imported res + ci_duplicates res = length (pc_rows p)" "ci_skipped res = pc_skipped p" "ci_errors res = pc_errors p"
    "r \<in> set (pc_rows p) \<Longrightarrow> \<exists>k. stored_key (csv_key r) = Some k \<and> k \<in> keys_of u db'"
proof -
  let ?E = "csv_key_exists u (pc_rows p) db"
  define rows n where "rows = fst (csv_fresh ?E (pc_rows p) {})" and "n = snd (csv_fresh ?E (pc_rows p) {})"
  note facts = csv_fresh_facts [where E = ?E and rs = "pc_rows p" and seen = "{}", folded rows_def n_def]
  have exact: "list_all exact_amount rows" using assms(2) facts(2) by (auto simp: list_all_iff)
  have key: "\<exists>k. stored_key (csv_key r) = Some k" if "exact_amount r" for r
    using that by (auto simp: exact_amount_def csv_key_def split: option.splits)
  have stored: "ci_imported res = length rows \<and> ci_duplicates res = n \<and> ci_skipped res = pc_skipped p \<and> ci_errors res = pc_errors p \<and>
      keys_of u db' = keys_of u db \<union> {k. \<exists>r \<in> set rows. stored_key (csv_key r) = Some k}"
    using assms(1) store_csv_keys [OF _ exact, of now u]
    by (auto simp: import_parsed_def case_prod_unfold Let_def rows_def [symmetric] n_def [symmetric] result_simps split: if_splits)
  then show "ci_imported res + ci_duplicates res = length (pc_rows p)" "ci_skipped res = pc_skipped p" "ci_errors res = pc_errors p"
    using facts(1) by simp_all
  show "\<exists>k. stored_key (csv_key r) = Some k \<and> k \<in> keys_of u db'" if "r \<in> set (pc_rows p)"
  proof -
    have "exact_amount r" using assms(2) that by (simp add: list_all_iff)
    then obtain k where k: "stored_key (csv_key r) = Some k" using key by blast
    then show ?thesis using facts(3) [OF that] csv_key_exists_iff [OF that k, of u db] stored by auto
  qed
qed

lemma import_parsed_again:
  assumes "import_parsed now u p db = Inr (res, db')" and "list_all exact_amount (pc_rows p)"
  shows "import_parsed now' u p db' =
     Inr (res\<lparr>ci_imported := 0, ci_duplicates := ci_imported res + ci_duplicates res\<rparr>, db')"
proof -
  have "csv_key_exists u (pc_rows p) db' (csv_key r)" if "r \<in> set (pc_rows p)" for r
    using import_parsed_facts(4) [OF assms that] csv_key_exists_iff [OF that] by blast
  then have "csv_fresh (csv_key_exists u (pc_rows p) db') (pc_rows p) {} = ([], length (pc_rows p))"
    by (rule csv_fresh_all_known)
  then show ?thesis using import_parsed_facts(1-3) [OF assms] by (simp add: import_parsed_def)
qed


text \<open>For whole cents the import is the one over rows of cents, about which the properties of the table speak.\<close>

definition csv_item :: "csv_row \<Rightarrow> bulk_item" where
  "csv_item r =
     \<lparr>cd_account_id = cv_account_id r, cd_account_name = cv_account_name r, cd_category_id = cv_category_id r,
      cd_category_name = cv_category_name r, cd_amount = column_cents (the (dec_val (cv_amount r))), cd_type = cv_type r,
      cd_description = cv_description r, cd_date = cv_date r, cd_subcategory_id = None, cd_tier = None, cd_confidence = None,
      bi_external_id = None, bi_currency = ''DKK''\<rparr>"

lemma exact_item:
  assumes "exact_amount r"
  shows "csv_tx_row now u r = Inr (item_row now u (csv_item r))" "stored_key (csv_key r) = Some (item_key (csv_item r))"
    "csv_key r = (\<lambda>(a, d, c, ds). (a, d, Some (of_int c / 100), ds)) (item_key (csv_item r))"
proof -
  obtain x where x: "dec_val (cv_amount r) = Some x" "whole_cents x" using assms by (auto simp: exact_amount_def split: option.splits)
  have exact: "of_int \<lfloor>x * 100\<rfloor> / 100 = x" by (subst x(2) [unfolded whole_cents_def]) simp
  have "item_key (csv_item r) = (cv_account_id r, cv_date r, \<lfloor>x * 100\<rfloor>, cv_description r)"
    by (simp add: x(1) csv_item_def item_key_def column_cents_exact [OF x(2)])
  then show "csv_key r = (\<lambda>(a, d, c, ds). (a, d, Some (of_int c / 100), ds)) (item_key (csv_item r))"
    by (simp only: csv_key_def x(1) prod.case exact)
  show "csv_tx_row now u r = Inr (item_row now u (csv_item r))" "stored_key (csv_key r) = Some (item_key (csv_item r))"
    using x by (simp_all add: csv_tx_row_def csv_item_def item_row_def draft_row_def csv_key_def item_key_def column_cents_exact)
qed

lemma exact_keys_eq:
  assumes "exact_amount r" and "exact_amount q"
  shows "csv_key r = csv_key q \<longleftrightarrow> item_key (csv_item r) = item_key (csv_item q)"
  using exact_item(2,3) [OF assms(1)] exact_item(2,3) [OF assms(2)] by (metis option.inject)

lemma csv_fresh_dedup:
  assumes "list_all exact_amount rs" and "\<And>r. r \<in> set rs \<Longrightarrow> E (csv_key r) \<longleftrightarrow> item_key (csv_item r) \<in> existing"
    and "\<And>r. r \<in> set rs \<Longrightarrow> csv_key r \<in> seen \<longleftrightarrow> item_key (csv_item r) \<in> seen'"
  shows "csv_dedup existing (map csv_item rs) seen' = (map csv_item (fst (csv_fresh E rs seen)), snd (csv_fresh E rs seen))"
  using assms
proof (induction rs arbitrary: seen seen')
  case (Cons r rs)
  have same: "csv_key q \<in> insert (csv_key r) seen \<longleftrightarrow> item_key (csv_item q) \<in> insert (item_key (csv_item r)) seen'"
    if "q \<in> set rs" for q
    using Cons.prems(1) Cons.prems(3) [of q] exact_keys_eq [of q r] that by (auto simp: list_all_iff)
  show ?case
    using Cons.IH [of seen seen'] Cons.IH [of "insert (csv_key r) seen" "insert (item_key (csv_item r)) seen'"] Cons.prems same
    by (simp add: csv_fresh_Cons case_prod_unfold Let_def del: csv_fresh.simps)
qed simp

lemma mapE_tx_map: "(\<And>x. x \<in> set xs \<Longrightarrow> f x = Inr (g x)) \<Longrightarrow> mapE_tx f xs = Inr (map g xs)"
  by (induction xs) auto

lemma import_parsed_exact:
  assumes "list_all exact_amount (pc_rows p)"
  shows "import_parsed now u p db =
     (case import_csv_rows now u (map csv_item (pc_rows p)) db of
        Inl e \<Rightarrow> Inl (CsvStoreError e)
      | Inr ((n, d), db') \<Rightarrow>
          Inr (\<lparr>ci_imported = n, ci_skipped = pc_skipped p, ci_duplicates = d, ci_errors = pc_errors p\<rparr>, db'))"
proof -
  let ?rows = "pc_rows p" and ?E = "csv_key_exists u (pc_rows p) db"
  let ?existing = "find_existing_dedup_keys u (map item_key (map csv_item ?rows)) False db" and ?F = "csv_fresh ?E ?rows {}"
  have ex: "exact_amount r" if "r \<in> set ?rows" for r using assms that by (simp add: list_all_iff)
  have "?E (csv_key r) \<longleftrightarrow> item_key (csv_item r) \<in> ?existing" if "r \<in> set ?rows" for r
    using csv_key_exists_iff [OF that exact_item(2) [OF ex [OF that]]] that by (auto simp: find_existing_dedup_keys_eq)
  then have dedup: "csv_dedup ?existing (map csv_item ?rows) {} = (map csv_item (fst ?F), snd ?F)"
    by (intro csv_fresh_dedup [OF assms]) auto
  have stored: "mapE_tx (csv_tx_row now u) (fst ?F) = Inr (map (item_row now u) (map csv_item (fst ?F)))"
    using csv_fresh_facts(2) [where E = ?E and rs = ?rows and seen = "{}"] ex exact_item(1) by (subst mapE_tx_map) auto
  then show ?thesis
    by (cases "?rows = []"; cases "fst ?F = []")
      (auto simp: import_parsed_def import_csv_rows_def Let_def case_prod_unfold dedup stored store_csv_def result_simps
        split: sum.splits simp del: csv_fresh.simps(2) map_map)
qed

section \<open>A statement reaches the table\<close>

definition line_text :: "statement_line \<Rightarrow> string" where
  "line_text l = (if strip (sl_text l) = [] then no_description else strip (sl_text l))"

definition line_fits :: "statement_line \<Rightarrow> bool" where
  "line_fits l \<longleftrightarrow> \<bar>sl_amount l\<bar> < 10 ^ 12 \<and> length (line_text l) \<le> 500"

definition holds_line :: "int \<Rightarrow> int \<Rightarrow> statement_line \<Rightarrow> tx_row \<Rightarrow> bool" where
  "holds_line u a l tx \<longleftrightarrow>
     tx_user tx = u \<and> tx_live tx \<and> tx_account tx = a \<and> tx_date tx = sl_date l \<and> tx_amount tx = \<bar>sl_amount l\<bar> \<and>
     tx_description tx = Some (line_text l)"

lemma line_cents: "dec_val (DFin False (nat \<bar>c\<bar>) (- 2)) = Some (of_int \<bar>c\<bar> / 100)"
  by (simp add: scale10_def)

lemma line_row_exact: "exact_amount (line_row a nm l)"
  by (simp add: exact_amount_def line_row_def whole_cents_def scale10_def)

lemma line_row_key: "stored_key (csv_key (line_row a nm l)) = Some (a, sl_date l, \<bar>sl_amount l\<bar>, Some (line_text l))"
  by (simp add: csv_key_def line_row_def whole_cents_def scale10_def line_text_def of_int_abs [symmetric] del: of_int_abs)

lemma csv_bulk_create_ok:
  "(\<And>r. r \<in> set rs \<Longrightarrow> columns_fit r \<and> tx_external_id r = None) \<Longrightarrow> \<exists>created db'. bulk_create rs db = Inr (created, db')"
proof (induction rs arbitrary: db)
  case (Cons r rs)
  have "columns_fit (r\<lparr>tx_id := td_next db\<rparr>)" "ext_key (r\<lparr>tx_id := td_next db\<rparr>) = None"
    using Cons.prems [of r] by (auto simp: columns_fit_def ext_key_def tx_live_def)
  then obtain r' db1 where "tx_insert r db = Inr (r', db1)" by (simp add: tx_insert_def ext_taken_def guardE_def Let_def)
  moreover obtain created db2 where "bulk_create rs db1 = Inr (created, db2)" using Cons by force
  ultimately show ?case by simp
qed simp

lemma csv_tx_rows_fit:
  assumes "list_all line_fits ls" and "length nm \<le> 100" and "set rows \<subseteq> line_row a nm ` set ls"
  shows "\<exists>txs. mapE_tx (csv_tx_row now u) rows = Inr txs \<and> (\<forall>t \<in> set txs. columns_fit t \<and> tx_external_id t = None)"
  using assms(3)
proof (induction rows)
  case (Cons r rows)
  then obtain l where l: "l \<in> set ls" "r = line_row a nm l" by auto
  have cents: "column_cents (of_int \<bar>sl_amount l\<bar> / 100) = \<bar>sl_amount l\<bar>"
    by (subst column_cents_exact) (simp_all add: whole_cents_def of_int_abs [symmetric] del: of_int_abs)
  have amount: "dec_val (cv_amount r) = Some (of_int \<bar>sl_amount l\<bar> / 100)" unfolding l(2) line_row_def csv_row.simps by (rule line_cents)
  have "line_fits l" using assms(1) l(1) by (simp add: list_all_iff)
  then have "\<bar>sl_amount l\<bar> < 10 ^ 12" "cv_description r = Some (line_text l)" "length (line_text l) \<le> 500" "cv_account_name r = nm"
    "cv_category_name r = None"
    by (simp_all add: line_fits_def l(2) line_row_def line_text_def)
  then have "\<exists>t. csv_tx_row now u r = Inr t \<and> columns_fit t \<and> tx_external_id t = None"
    using assms(2) by (simp add: csv_tx_row_def amount cents columns_fit_def opt_len_def del: of_int_abs)
  then show ?case using Cons by auto
qed simp

lemma danske_stored:
  assumes "list_all line_fits ls" and "length nm \<le> 100"
  shows "\<exists>res db'. import_parsed now u \<lparr>pc_rows = map (line_row a nm) ls, pc_errors = [], pc_skipped = 0\<rparr> db = Inr (res, db')"
proof -
  let ?p = "\<lparr>pc_rows = map (line_row a nm) ls, pc_errors = [], pc_skipped = 0\<rparr>"
  let ?rows = "fst (csv_fresh (csv_key_exists u (pc_rows ?p) db) (pc_rows ?p) {})"
  have "set ?rows \<subseteq> line_row a nm ` set ls"
    using csv_fresh_facts(2) [where E = "csv_key_exists u (pc_rows ?p) db" and rs = "pc_rows ?p" and seen = "{}"] by simp
  then obtain txs where "mapE_tx (csv_tx_row now u) ?rows = Inr txs" "\<forall>t \<in> set txs. columns_fit t \<and> tx_external_id t = None"
    using csv_tx_rows_fit [OF assms] by blast
  moreover from this(2) obtain created db1 where "bulk_create txs db = Inr (created, db1)" using csv_bulk_create_ok by blast
  ultimately have "\<exists>n db'. store_csv now u ?rows db = Inr (n, db')" by (simp add: store_csv_def)
  then show ?thesis unfolding import_parsed_def case_prod_unfold Let_def by (auto simp del: csv_fresh.simps)
qed

lemma danske_import:
  assumes "list_all line_ok ls" and "int (length ls) \<le> CSV_MAX_ROWS" and "nm \<noteq> []"
  shows "import_csv now u (danske_file ls) ''danske_bank'' (Some a) (Some nm) db =
     import_parsed now u \<lparr>pc_rows = map (line_row a nm) ls, pc_errors = [], pc_skipped = 0\<rparr> db"
  using danske_file_parsed [OF assms(1, 2)] assms(3) by (simp add: import_csv_def get_parser_def or_empty_def guardE_def)

lemma line_rows_exact: "list_all exact_amount (pc_rows \<lparr>pc_rows = map (line_row a nm) ls, pc_errors = es, pc_skipped = n\<rparr>)"
  by (simp add: list_all_iff line_row_exact)


text \<open>A text with a separator, a quote and a line break, and an amount of more than a thousand.\<close>

definition demo_line :: statement_line where
  "demo_line = \<lparr>sl_date = Date 2024 5 6, sl_category = ''Bolig'', sl_subcategory = [], sl_text = ''Leje; '' @ [quote, newline] @ ''maj'',
     sl_amount = - 123456, sl_balance = 500, sl_status = ''OK'', sl_reconciled = ''Nej''\<rparr>"

lemma demo_line_ok: "list_all line_ok [demo_line]" "list_all line_fits [demo_line]"
proof -
  have "length (show_danish (- 123456)) = 9" "length (show_danish 500) = 4" "length (danish_date (Date 2024 5 6)) = 10"
    by (simp_all add: show_danish_def thousands.simps [of 1234] thousands.simps [of "Suc 0"] thousands.simps [of 5] length_pad
        show_nat_single danish_date_def)
  then have "cells_fit (danske_cells demo_line)" by (simp add: cells_fit_def CSV_FIELD_LIMIT_def danske_cells_def demo_line_def)
  then show "list_all line_ok [demo_line]"
    by (simp add: line_ok_def) (simp add: demo_line_def valid_date_def days_in_month_def)
  have "length (line_text demo_line) = 11" by code_simp
  then show "list_all line_fits [demo_line]" by (simp add: line_fits_def) (simp add: demo_line_def)
qed



text \<open>
  Where the loop gives up: a row that ends before the amount, and a blank row with one separator too many, raise an
  exception that nothing catches; and an amount of a fraction of a cent is stored rounded, so its row is never
  recognised again.
\<close>

lemma short_row_crashes: "danske_row 1 ''A'' (dict_row danske_header [''06.05.2024'']) = Inl RowCrash"
  by code_simp

lemma long_blank_row_crashes: "danske_row 1 ''A'' (dict_row danske_header (replicate 9 [])) = Inl RowCrash"
  by code_simp

lemma fraction_of_a_cent_never_recognised: "\<not> exact_amount r \<Longrightarrow> \<not> csv_key_exists u rows db (csv_key r)"
  by (auto simp: exact_amount_def csv_key_def csv_key_exists_def split: option.splits)

end
