(* ===== verification/Users.thy ===== *)
theory Users
  imports Outbox TransactionWorkers
begin

text \<open>
  user-service: the table of users with its repository (\<open>app/adapters/outbound/postgres_user_repository.py\<close>), the use
  cases (\<open>app/application/service.py\<close>), passwords and tokens (\<open>app/auth.py\<close>), the routes
  (\<open>app/adapters/inbound/rest_api.py\<close>) with the status codes of \<open>app/main.py\<close>, and the reading of a token in every
  service (\<open>shared/auth/auth\<close>).

  A text is a list of the first 256 code points.  bcrypt, the token library and the validation of an email address are
  parameters.  A use case that checks and then writes is split there: another request can commit in between.
\<close>

section \<open>Rows and errors\<close>

record user_row =
  ur_id :: int
  ur_username :: string
  ur_email :: string
  ur_password_hash :: string
  ur_created_at :: instant
  ur_updated_at :: "instant option"

record user_event =
  ue_user_id :: int
  ue_email :: string
  ue_username :: string

text \<open>The counter \<open>ud_next\<close> is the sequence of the primary key: a failed insert uses a number up.\<close>

record user_db =
  ud_users :: "user_row list"
  ud_next :: int
  ud_outbox :: "user_event outbox"

datatype user_error =
    UserNotFound int
  | UserAlreadyExists string string
  | InvalidCredentials
  | CurrentPasswordIncorrect
  | UserIntegrity string \<comment> \<open>the message of the violated constraint\<close>
  | UserDataError
  | UserMultipleResults
  | UserPyError py_error

record user_dto =
  uo_id :: int
  uo_username :: string
  uo_email :: string
  uo_created_at :: instant

definition user_dto_of :: "user_row \<Rightarrow> user_dto" where
  "user_dto_of r = \<lparr>uo_id = ur_id r, uo_username = ur_username r, uo_email = ur_email r, uo_created_at = ur_created_at r\<rparr>"

section \<open>The repository\<close>

text \<open>\<open>scalar_one_or_none\<close> raises when several rows match.\<close>

definition find_user :: "(user_row \<Rightarrow> bool) \<Rightarrow> user_db \<Rightarrow> user_error + user_row option" where
  "find_user P db =
     (case filter P (ud_users db) of
        [] \<Rightarrow> Inr None
      | [r] \<Rightarrow> Inr (Some r)
      | _ \<Rightarrow> Inl UserMultipleResults)"

definition find_by_email :: "string \<Rightarrow> user_db \<Rightarrow> user_error + user_row option" where
  "find_by_email email = find_user (\<lambda>r. ur_email r = email)"

definition find_by_username :: "string \<Rightarrow> user_db \<Rightarrow> user_error + user_row option" where
  "find_by_username username = find_user (\<lambda>r. ur_username r = username)"

definition find_user_by_id :: "int \<Rightarrow> user_db \<Rightarrow> user_error + user_row option" where
  "find_user_by_id user_id = find_user (\<lambda>r. ur_id r = user_id)"

text \<open>The message PostgreSQL gives for a violated unique index; the one on the username is checked first.\<close>

definition unique_violation :: "string \<Rightarrow> string \<Rightarrow> string \<Rightarrow> string" where
  "unique_violation index_name column v =
     ''duplicate key value violates unique constraint \"'' @ index_name @ ''\" DETAIL:  Key ('' @ column @ '')=('' @ v @
     '') already exists.''"

definition user_create ::
  "instant \<Rightarrow> string \<Rightarrow> string \<Rightarrow> string \<Rightarrow> user_db \<Rightarrow> (user_error + user_row) \<times> user_db" where
  "user_create now username email password_hash db =
     (let used = db\<lparr>ud_next := ud_next db + 1\<rparr>;
          r = \<lparr>ur_id = ud_next db, ur_username = username, ur_email = email, ur_password_hash = password_hash,
               ur_created_at = now, ur_updated_at = None\<rparr>
      in if length username > 50 \<or> length email > 255 \<or> length password_hash > 255 then (Inl UserDataError, used)
         else if username \<in> ur_username ` set (ud_users db)
         then (Inl (UserIntegrity (unique_violation ''ix_users_username'' ''username'' username)), used)
         else if email \<in> ur_email ` set (ud_users db)
         then (Inl (UserIntegrity (unique_violation ''ix_users_email'' ''email'' email)), used)
         else (Inr r, used\<lparr>ud_users := ud_users db @ [r]\<rparr>))"

text \<open>\<open>_update\<close>: no row with the id is an error, so that a change that did not happen is not reported as one.\<close>

definition user_update :: "int \<Rightarrow> (user_row \<Rightarrow> user_row) \<Rightarrow> user_db \<Rightarrow> user_error + user_db" where
  "user_update user_id change db =
     (if user_id \<notin> ur_id ` set (ud_users db) then Inl (UserNotFound user_id)
      else Inr (db\<lparr>ud_users := update_where (\<lambda>r. ur_id r = user_id) change (ud_users db)\<rparr>))"

definition update_password :: "instant \<Rightarrow> int \<Rightarrow> string \<Rightarrow> user_db \<Rightarrow> user_error + user_db" where
  "update_password now user_id password_hash db =
     bindE (guardE (length password_hash \<le> 255) UserDataError) (\<lambda>_.
     user_update user_id (\<lambda>r. r\<lparr>ur_password_hash := password_hash, ur_updated_at := Some now\<rparr>) db)"

definition update_username :: "instant \<Rightarrow> int \<Rightarrow> string \<Rightarrow> user_db \<Rightarrow> user_error + (user_row \<times> user_db)" where
  "update_username now user_id username db =
     bindE (guardE (length username \<le> 50) UserDataError) (\<lambda>_.
     bindE (guardE (\<not> (\<exists>r\<in>set (ud_users db). ur_id r = user_id) \<or>
                    \<not> (\<exists>r\<in>set (ud_users db). ur_id r \<noteq> user_id \<and> ur_username r = username))
             (UserIntegrity (unique_violation ''ix_users_username'' ''username'' username))) (\<lambda>_.
     bindE (user_update user_id (\<lambda>r. r\<lparr>ur_username := username, ur_updated_at := Some now\<rparr>) db) (\<lambda>db'.
     bindE (find_user_by_id user_id db') (\<lambda>found.
     bindE (of_option (UserNotFound user_id) found) (\<lambda>r. Inr (r, db'))))))"

section \<open>Passwords and tokens\<close>

text \<open>\<open>str.encode("utf-8")\<close>.\<close>

definition utf8_char :: "char \<Rightarrow> nat list" where
  "utf8_char c =
     (let n = of_char c :: nat in if n < 128 then [n] else [192 + n div 64, 128 + n mod 64])"

definition utf8_text :: "string \<Rightarrow> nat list" where
  "utf8_text s = concat (map utf8_char s)"

text \<open>
  bcrypt: \<open>hashpw\<close> takes the password and the salt \<open>gensalt\<close> drew, \<open>checkpw\<close> the password and the hash; \<open>None\<close> is
  the \<open>ValueError\<close> the library raises.  A hash is ASCII, so decoding and encoding it changes nothing.
\<close>

record bcrypt_lib =
  bl_hashpw :: "nat list \<Rightarrow> string \<Rightarrow> string option"
  bl_checkpw :: "nat list \<Rightarrow> string \<Rightarrow> bool option"

definition BCRYPT_MAX_BYTES :: nat where "BCRYPT_MAX_BYTES = 72"

definition hash_password :: "bcrypt_lib \<Rightarrow> string \<Rightarrow> string \<Rightarrow> user_error + string" where
  "hash_password bl salt password =
     of_option (UserPyError ValueError) (bl_hashpw bl (utf8_text (take BCRYPT_MAX_BYTES password)) salt)"

definition verify_password :: "bcrypt_lib \<Rightarrow> string \<Rightarrow> string \<Rightarrow> user_error + bool" where
  "verify_password bl plain hashed =
     of_option (UserPyError ValueError) (bl_checkpw bl (utf8_text (take BCRYPT_MAX_BYTES plain)) hashed)"

text \<open>
  The token library: \<open>jl_encode\<close> takes the claims, the secret and the algorithm; \<open>jl_decode\<close> the time, the token, the
  secret, the accepted algorithms and whether an expiry is required, and gives \<open>None\<close> for a \<open>JWTError\<close>.
\<close>

record jwt_lib =
  jl_encode :: "dict \<Rightarrow> string \<Rightarrow> string \<Rightarrow> string"
  jl_decode :: "instant \<Rightarrow> string \<Rightarrow> string \<Rightarrow> string list \<Rightarrow> bool \<Rightarrow> dict option"

definition JWT_ALGORITHM :: string where "JWT_ALGORITHM = ''HS256''"
definition JWT_EXPIRE_MINUTES :: int where "JWT_EXPIRE_MINUTES = 60"

text \<open>The library writes a datetime as whole seconds.\<close>

definition token_claims :: "instant \<Rightarrow> int \<Rightarrow> string \<Rightarrow> string \<Rightarrow> dict" where
  "token_claims now user_id username email =
     [(''sub'', JStr (show_int user_id)), (''user_id'', JInt user_id), (''username'', JStr username),
      (''email'', JStr email), (''exp'', JInt ((now + usec (60 * JWT_EXPIRE_MINUTES)) div 1000000))]"

definition create_access_token ::
  "jwt_lib \<Rightarrow> string \<Rightarrow> instant \<Rightarrow> int \<Rightarrow> string \<Rightarrow> string \<Rightarrow> string" where
  "create_access_token jl secret now user_id username email =
     jl_encode jl (token_claims now user_id username email) secret JWT_ALGORITHM"

text \<open>\<open>decode_token\<close>; \<open>None\<close> is \<open>InvalidTokenError\<close>.\<close>

definition claim_int :: "json \<Rightarrow> int option" where
  "claim_int v = (case v of JStr s \<Rightarrow> int_of_text s | _ \<Rightarrow> py_int v)"

definition decode_token ::
  "jwt_lib \<Rightarrow> instant \<Rightarrow> string \<Rightarrow> string \<Rightarrow> string list \<Rightarrow> bool \<Rightarrow> dict option" where
  "decode_token jl now token secret algorithms require_exp =
     (case jl_decode jl now token secret algorithms require_exp of
        None \<Rightarrow> None
      | Some claims \<Rightarrow>
          (let raw = (case dget_or claims ''user_id'' JNull of
                        JNull \<Rightarrow> dget_or claims ''sub'' JNull
                      | v \<Rightarrow> v)
           in map_option (\<lambda>i. dset claims ''user_id'' (JInt i)) (claim_int raw)))"

text \<open>\<open>str.split()\<close>: the words between blanks.\<close>

function py_words :: "string \<Rightarrow> string list" where
  "py_words s =
     (case dropWhile is_space s of
        [] \<Rightarrow> []
      | c # t \<Rightarrow> (c # takeWhile (\<lambda>x. \<not> is_space x) t) # py_words (dropWhile (\<lambda>x. \<not> is_space x) t))"
  by pat_completeness auto
termination
proof (relation "measure length", goal_cases)
  case (2 s c t)
  have "length (dropWhile (\<lambda>x. \<not> is_space x) t) \<le> length t" by (rule length_dropWhile_le)
  also have "length t < length (dropWhile is_space s)" using 2 by simp
  also have "\<dots> \<le> length s" by (rule length_dropWhile_le)
  finally show ?case by simp
qed simp

declare py_words.simps [simp del]

text \<open>The dependency every service builds with \<open>make_current_user_dependency\<close>; \<open>None\<close> is status 401.\<close>

definition get_current_user_id :: "jwt_lib \<Rightarrow> string \<Rightarrow> instant \<Rightarrow> string option \<Rightarrow> int option" where
  "get_current_user_id jl secret now authorization =
     (case authorization of
        None \<Rightarrow> None
      | Some header \<Rightarrow>
          (case py_words header of
             [scheme, token] \<Rightarrow>
               if lower scheme \<noteq> ''bearer'' then None
               else
                 (case decode_token jl now token secret [JWT_ALGORITHM] True of
                    None \<Rightarrow> None
                  | Some claims \<Rightarrow> (case dget claims ''user_id'' of Some (JInt i) \<Rightarrow> Some i | _ \<Rightarrow> None))
           | _ \<Rightarrow> None))"

section \<open>Use cases\<close>

text \<open>
  The surroundings of a call: the clock, the libraries, the salt drawn, \<open>EmailStr\<close> (the normalised address, if it is
  one), and the settings.
\<close>

record user_env =
  uv_now :: instant
  uv_bcrypt :: bcrypt_lib
  uv_salt :: string
  uv_jwt :: jwt_lib
  uv_email :: "string \<Rightarrow> string option"
  uv_secret :: string
  uv_internal_key :: "string option"

record register_dto =
  rg_username :: string
  rg_email :: string
  rg_password :: string

definition register_check :: "register_dto \<Rightarrow> user_db \<Rightarrow> user_error + unit" where
  "register_check d db =
     bindE (find_by_email (rg_email d) db) (\<lambda>u.
     bindE (guardE (u = None) (UserAlreadyExists ''email'' (rg_email d))) (\<lambda>_.
     bindE (find_by_username (rg_username d) db) (\<lambda>u.
     guardE (u = None) (UserAlreadyExists ''username'' (rg_username d)))))"

definition register_write ::
  "user_env \<Rightarrow> register_dto \<Rightarrow> user_db \<Rightarrow> (user_error + user_dto) \<times> user_db" where
  "register_write env d db =
     (case hash_password (uv_bcrypt env) (uv_salt env) (rg_password d) of
        Inl e \<Rightarrow> (Inl e, db)
      | Inr password_hash \<Rightarrow>
          (case user_create (uv_now env) (rg_username d) (rg_email d) password_hash db of
             (Inl (UserIntegrity message), db') \<Rightarrow>
               (Inl (if contains ''username'' (lower message) then UserAlreadyExists ''username'' (rg_username d)
                     else UserAlreadyExists ''email'' (rg_email d)), db')
           | (Inl e, db') \<Rightarrow> (Inl e, db')
           | (Inr r, db') \<Rightarrow>
               (Inr (user_dto_of r),
                db'\<lparr>ud_outbox :=
                  ob_add (uv_now env) ''user.created''
                    \<lparr>ue_user_id = ur_id r, ue_email = ur_email r, ue_username = ur_username r\<rparr> None ''user''
                    (show_int (ur_id r)) (ud_outbox db')\<rparr>)))"

definition register ::
  "user_env \<Rightarrow> register_dto \<Rightarrow> user_db \<Rightarrow> (user_error + user_dto) \<times> user_db" where
  "register env d db =
     (case register_check d db of Inl e \<Rightarrow> (Inl e, db) | Inr _ \<Rightarrow> register_write env d db)"

record token_response =
  tr_access_token :: string
  tr_user_id :: int
  tr_username :: string

definition login :: "user_env \<Rightarrow> string \<Rightarrow> string \<Rightarrow> user_db \<Rightarrow> user_error + token_response" where
  "login env identifier password db =
     bindE (if CHR ''@'' \<in> set identifier then find_by_email identifier db else find_by_username identifier db) (\<lambda>found.
     bindE (of_option InvalidCredentials found) (\<lambda>u.
     bindE (verify_password (uv_bcrypt env) password (ur_password_hash u)) (\<lambda>password_ok.
     bindE (guardE password_ok InvalidCredentials) (\<lambda>_.
     Inr \<lparr>tr_access_token = create_access_token (uv_jwt env) (uv_secret env) (uv_now env) (ur_id u) (ur_username u) (ur_email u),
          tr_user_id = ur_id u, tr_username = ur_username u\<rparr>))))"

definition get_user :: "int \<Rightarrow> user_db \<Rightarrow> user_error + user_dto" where
  "get_user user_id db =
     bindE (find_user_by_id user_id db) (\<lambda>found.
     bindE (of_option (UserNotFound user_id) found) (\<lambda>u. Inr (user_dto_of u)))"

definition change_password_check :: "user_env \<Rightarrow> int \<Rightarrow> string \<Rightarrow> user_db \<Rightarrow> user_error + unit" where
  "change_password_check env user_id current_password db =
     bindE (find_user_by_id user_id db) (\<lambda>found.
     bindE (of_option (UserNotFound user_id) found) (\<lambda>u.
     bindE (verify_password (uv_bcrypt env) current_password (ur_password_hash u)) (\<lambda>current_ok.
     guardE current_ok CurrentPasswordIncorrect)))"

definition change_password_write :: "user_env \<Rightarrow> int \<Rightarrow> string \<Rightarrow> user_db \<Rightarrow> user_error + user_db" where
  "change_password_write env user_id new_password db =
     bindE (hash_password (uv_bcrypt env) (uv_salt env) new_password) (\<lambda>password_hash.
     update_password (uv_now env) user_id password_hash db)"

definition change_password ::
  "user_env \<Rightarrow> int \<Rightarrow> string \<Rightarrow> string \<Rightarrow> user_db \<Rightarrow> user_error + user_db" where
  "change_password env user_id current_password new_password db =
     bindE (change_password_check env user_id current_password db) (\<lambda>_.
     change_password_write env user_id new_password db)"

text \<open>\<open>Some\<close>: the answer when nothing is to be changed.\<close>

definition change_username_check :: "int \<Rightarrow> string \<Rightarrow> user_db \<Rightarrow> user_error + user_dto option" where
  "change_username_check user_id username db =
     bindE (find_user_by_id user_id db) (\<lambda>found.
     bindE (of_option (UserNotFound user_id) found) (\<lambda>u.
     if ur_username u = username then Inr (Some (user_dto_of u))
     else
       bindE (find_by_username username db) (\<lambda>taken.
       bindE (guardE (taken = None) (UserAlreadyExists ''username'' username)) (\<lambda>_. Inr None))))"

definition change_username_write :: "user_env \<Rightarrow> int \<Rightarrow> string \<Rightarrow> user_db \<Rightarrow> user_error + (user_dto \<times> user_db)" where
  "change_username_write env user_id username db =
     (case update_username (uv_now env) user_id username db of
        Inl (UserIntegrity _) \<Rightarrow> Inl (UserAlreadyExists ''username'' username)
      | Inl e \<Rightarrow> Inl e
      | Inr (r, db') \<Rightarrow> Inr (user_dto_of r, db'))"

definition change_username :: "user_env \<Rightarrow> int \<Rightarrow> string \<Rightarrow> user_db \<Rightarrow> user_error + (user_dto \<times> user_db)" where
  "change_username env user_id username db =
     bindE (change_username_check user_id username db) (\<lambda>unchanged.
     (case unchanged of
        Some d \<Rightarrow> Inr (d, db)
      | None \<Rightarrow> change_username_write env user_id username db))"

section \<open>Routes\<close>

definition USERNAME_MIN :: nat where "USERNAME_MIN = 3"
definition USERNAME_MAX :: nat where "USERNAME_MAX = 50"
definition EMAIL_MAX :: nat where "EMAIL_MAX = 255"
definition PASSWORD_MIN :: nat where "PASSWORD_MIN = 8"
definition PASSWORD_MAX :: nat where "PASSWORD_MAX = 128"

definition username_valid :: "string \<Rightarrow> bool" where
  "username_valid s \<longleftrightarrow> USERNAME_MIN \<le> length s \<and> length s \<le> USERNAME_MAX"

definition new_password_valid :: "string \<Rightarrow> bool" where
  "new_password_valid s \<longleftrightarrow> PASSWORD_MIN \<le> length s \<and> length s \<le> PASSWORD_MAX"

datatype user_request =
    RegisterRequest string string string \<comment> \<open>username, email, password\<close>
  | LoginRequest string string
  | MeRequest "string option" \<comment> \<open>the \<open>Authorization\<close> header\<close>
  | PasswordRequest "string option" string string
  | UsernameRequest "string option" string
  | LookupRequest "string option" int \<comment> \<open>the \<open>X-Internal-API-Key\<close> header\<close>

datatype user_answer = UserAnswer int user_dto | TokenAnswer token_response | NoContent | ErrorAnswer int

fun user_error_status :: "user_error \<Rightarrow> int" where
  "user_error_status (UserNotFound _) = 404"
| "user_error_status (UserAlreadyExists _ _) = 409"
| "user_error_status InvalidCredentials = 401"
| "user_error_status CurrentPasswordIncorrect = 403"
| "user_error_status _ = 500"

definition answer_with :: "('a \<Rightarrow> user_answer) \<Rightarrow> user_error + 'a \<Rightarrow> user_answer" where
  "answer_with f r = (case r of Inl e \<Rightarrow> ErrorAnswer (user_error_status e) | Inr x \<Rightarrow> f x)"

text \<open>The status of a refused internal call; \<open>compare_digest\<close> raises on a text that is not ASCII.\<close>

definition require_internal_api_key :: "string option \<Rightarrow> string option \<Rightarrow> int option" where
  "require_internal_api_key configured given =
     (case configured of
        None \<Rightarrow> Some 503
      | Some key \<Rightarrow>
          if key = [] then Some 503
          else
            (case given of
               None \<Rightarrow> Some 401
             | Some x \<Rightarrow>
                 if x = [] then Some 401
                 else if list_ex (\<lambda>c. 128 \<le> (of_char c :: nat)) (x @ key) then Some 500
                 else if x = key then None else Some 401))"

definition signed_in ::
  "user_env \<Rightarrow> string option \<Rightarrow> user_db \<Rightarrow> (int \<Rightarrow> user_answer \<times> user_db) \<Rightarrow> user_answer \<times> user_db" where
  "signed_in env authorization db f =
     (case get_current_user_id (uv_jwt env) (uv_secret env) (uv_now env) authorization of
        None \<Rightarrow> (ErrorAnswer 401, db)
      | Some user_id \<Rightarrow> f user_id)"

fun user_http :: "user_env \<Rightarrow> user_request \<Rightarrow> user_db \<Rightarrow> user_answer \<times> user_db" where
  "user_http env (RegisterRequest username email password) db =
     (case uv_email env email of
        None \<Rightarrow> (ErrorAnswer 422, db)
      | Some address \<Rightarrow>
          if username_valid username \<and> new_password_valid password
          then
            (let (r, db') = register env \<lparr>rg_username = username, rg_email = address, rg_password = password\<rparr> db
             in (answer_with (UserAnswer 201) r, db'))
          else (ErrorAnswer 422, db))"
| "user_http env (LoginRequest identifier password) db =
     (if 1 \<le> length identifier \<and> length identifier \<le> EMAIL_MAX
      then (answer_with TokenAnswer (login env identifier password db), db)
      else (ErrorAnswer 422, db))"
| "user_http env (MeRequest authorization) db =
     signed_in env authorization db (\<lambda>user_id. (answer_with (UserAnswer 200) (get_user user_id db), db))"
| "user_http env (PasswordRequest authorization current_password new_password) db =
     signed_in env authorization db (\<lambda>user_id.
       if 1 \<le> length current_password \<and> length current_password \<le> PASSWORD_MAX \<and> new_password_valid new_password
       then
         (case change_password env user_id current_password new_password db of
            Inl e \<Rightarrow> (ErrorAnswer (user_error_status e), db)
          | Inr db' \<Rightarrow> (NoContent, db'))
       else (ErrorAnswer 422, db))"
| "user_http env (UsernameRequest authorization username) db =
     signed_in env authorization db (\<lambda>user_id.
       if username_valid username
       then
         (case change_username env user_id username db of
            Inl e \<Rightarrow> (ErrorAnswer (user_error_status e), db)
          | Inr (d, db') \<Rightarrow> (UserAnswer 200 d, db'))
       else (ErrorAnswer 422, db))"
| "user_http env (LookupRequest key user_id) db =
     (case require_internal_api_key (uv_internal_key env) key of
        Some status_code \<Rightarrow> (ErrorAnswer status_code, db)
      | None \<Rightarrow> (answer_with (UserAnswer 200) (get_user user_id db), db))"

end
