(* ===== verification/UserProofs.thy ===== *)
theory UserProofs
  imports Users "HOL-Library.Countable"
begin

text \<open>
  user-service under any interleaving of its requests: names and addresses stay unique and every user is announced
  once, a login succeeds exactly with the password set last, and the token it hands out is the user's session in
  every service for an hour.
\<close>

section \<open>What is relied on\<close>

text \<open>bcrypt 5: a password of up to 72 bytes has a hash that accepts it and no other; a longer one raises.\<close>

definition bytes_upto :: "nat \<Rightarrow> nat list \<Rightarrow> bool" where
  "bytes_upto n p \<longleftrightarrow> length p \<le> n \<and> list_all (\<lambda>b. b < 256) p"

definition bcrypt_laws :: "bcrypt_lib \<Rightarrow> bool" where
  "bcrypt_laws bl \<longleftrightarrow>
     (\<forall>p salt. bytes_upto 72 p \<longrightarrow>
        (\<exists>h. bl_hashpw bl p salt = Some h \<and> length h \<le> 255 \<and>
             (\<forall>q. bytes_upto 72 q \<longrightarrow> bl_checkpw bl q h = Some (q = p)))) \<and>
     (\<forall>p salt. 72 < length p \<longrightarrow> bl_hashpw bl p salt = None) \<and>
     (\<forall>p h. 72 < length p \<longrightarrow> bl_checkpw bl p h = None)"

text \<open>
  A token decodes with its own secret until its expiry and not otherwise, provided its subject is a text, and it is
  one word.
\<close>

definition jwt_laws :: "jwt_lib \<Rightarrow> bool" where
  "jwt_laws jl \<longleftrightarrow>
     (\<forall>claims secret now s algorithms require_exp e t a.
        dget claims ''exp'' = Some (JInt e) \<and> dget claims ''sub'' = Some (JStr t) \<and> a \<in> set algorithms \<longrightarrow>
        jl_decode jl now (jl_encode jl claims secret a) s algorithms require_exp =
          (if s = secret \<and> now div 1000000 \<le> e then Some claims else None)) \<and>
     (\<forall>claims secret a. jl_encode jl claims secret a \<noteq> [] \<and> list_all (\<lambda>c. \<not> is_space c) (jl_encode jl claims secret a))"

section \<open>Texts and passwords\<close>

lemma utf8_char_split: "utf8_char c @ xs = utf8_char d @ ys \<Longrightarrow> c = d \<and> xs = ys"
proof -
  assume e: "utf8_char c @ xs = utf8_char d @ ys"
  let ?n = "of_char c :: nat" and ?m = "of_char d :: nat"
  have "?n = ?m \<and> xs = ys"
  proof (cases "?n < 128"; cases "?m < 128")
    assume "\<not> ?n < 128" "\<not> ?m < 128"
    then have "?n div 64 = ?m div 64" "?n mod 64 = ?m mod 64" "xs = ys" using e by (simp_all add: utf8_char_def Let_def)
    then show ?thesis by (metis div_mult_mod_eq)
  qed (use e in \<open>auto simp: utf8_char_def Let_def\<close>)
  then show ?thesis by simp
qed

lemma utf8_char_not_Nil [simp]: "utf8_char c \<noteq> []"
  by (simp add: utf8_char_def Let_def)

lemma utf8_text_inject [simp]: "utf8_text s = utf8_text t \<longleftrightarrow> s = t"
proof (induction s arbitrary: t)
  case Nil
  then show ?case by (cases t) (auto simp: utf8_text_def)
next
  case (Cons c s)
  show ?case
  proof (cases t)
    case Nil
    then show ?thesis by (simp add: utf8_text_def)
  next
    case (Cons d u)
    have "utf8_text (c # s) = utf8_char c @ utf8_text s" "utf8_text (d # u) = utf8_char d @ utf8_text u"
      by (simp_all add: utf8_text_def)
    then show ?thesis using Cons.IH [of u] utf8_char_split [of c "utf8_text s" d "utf8_text u"] Cons by auto
  qed
qed

lemma utf8_text_bytes: "list_all (\<lambda>b. b < 256) (utf8_text s)"
proof -
  have "b < 256" if "b \<in> set (utf8_char c)" for b c
  proof -
    have "(of_char c :: nat) < 4 * 64" by simp
    then have "(of_char c :: nat) div 64 < 4" by (rule less_mult_imp_div_less)
    moreover have "(of_char c :: nat) mod 64 < 64" by simp
    ultimately show ?thesis using that unfolding utf8_char_def Let_def by (auto simp del: nat_of_char_less_256 split: if_splits)
  qed
  then show ?thesis by (auto simp: utf8_text_def list_all_iff)
qed

text \<open>What of a password reaches bcrypt, and the hash of a password.\<close>

definition significant :: "string \<Rightarrow> string" where
  "significant password = take BCRYPT_MAX_BYTES password"

definition hash_of :: "bcrypt_lib \<Rightarrow> string \<Rightarrow> string \<Rightarrow> bool" where
  "hash_of bl password h \<longleftrightarrow>
     (\<forall>q. bytes_upto 72 q \<longrightarrow> bl_checkpw bl q h = Some (q = utf8_text (significant password)))"

lemma hash_password_Inr:
  assumes laws: "bcrypt_laws bl" and h: "hash_password bl salt password = Inr h"
  shows "hash_of bl password h"
proof -
  let ?p = "utf8_text (significant password)"
  have hp: "bl_hashpw bl ?p salt = Some h" using h by (simp add: hash_password_def significant_def)
  then have "length ?p \<le> 72" using laws by (cases "length ?p \<le> 72") (auto simp: bcrypt_laws_def)
  then have "bytes_upto 72 ?p" by (simp add: bytes_upto_def utf8_text_bytes)
  then obtain h' where "bl_hashpw bl ?p salt = Some h'" "\<forall>q. bytes_upto 72 q \<longrightarrow> bl_checkpw bl q h' = Some (q = ?p)"
    using laws unfolding bcrypt_laws_def by blast
  then show ?thesis using hp by (simp add: hash_of_def)
qed

lemma verify_password_eq:
  "hash_of bl p h \<Longrightarrow> length (utf8_text (significant q)) \<le> 72 \<Longrightarrow>
   verify_password bl q h = Inr (significant q = significant p)"
  by (simp add: hash_of_def bytes_upto_def utf8_text_bytes verify_password_def significant_def of_option_def)

section \<open>Requests in any order\<close>

text \<open>
  The commits of user-service.  A request that checked an older state can be at its write at any time, so the writes
  come in any order with any arguments.  The second component remembers the password each user set last.
\<close>

datatype user_write =
    WriteUser register_dto
  | WritePassword int string
  | WriteUsername int string

type_synonym user_state = "user_db \<times> (int \<rightharpoonup> string)"

fun apply_user_write :: "user_env \<Rightarrow> user_write \<Rightarrow> user_state \<Rightarrow> user_state" where
  "apply_user_write env (WriteUser d) (db, pw) =
     (case register_write env d db of
        (Inl e, db') \<Rightarrow> (db', pw)
      | (Inr u, db') \<Rightarrow> (db', pw(uo_id u \<mapsto> rg_password d)))"
| "apply_user_write env (WritePassword user_id new_password) (db, pw) =
     (case change_password_write env user_id new_password db of
        Inl e \<Rightarrow> (db, pw)
      | Inr db' \<Rightarrow> (db', pw(user_id \<mapsto> new_password)))"
| "apply_user_write env (WriteUsername user_id username) (db, pw) =
     (case change_username_write env user_id username db of
        Inl e \<Rightarrow> (db, pw)
      | Inr (u, db') \<Rightarrow> (db', pw))"

fun run_user_writes :: "user_env \<Rightarrow> (instant \<times> string \<times> user_write) list \<Rightarrow> user_state \<Rightarrow> user_state" where
  "run_user_writes env [] st = st"
| "run_user_writes env ((now, salt, w) # ws) st =
     run_user_writes env ws (apply_user_write (env\<lparr>uv_now := now, uv_salt := salt\<rparr>) w st)"

definition empty_user_db :: user_db where
  "empty_user_db = \<lparr>ud_users = [], ud_next = 1, ud_outbox = []\<rparr>"

definition announced_users :: "user_db \<Rightarrow> (int \<times> string) list" where
  "announced_users db = map (\<lambda>o'. (ue_user_id (ob_payload o'), ue_email (ob_payload o'))) (ud_outbox db)"

definition users_ok :: "user_db \<Rightarrow> bool" where
  "users_ok db \<longleftrightarrow>
     distinct (map ur_username (ud_users db)) \<and> distinct (map ur_email (ud_users db)) \<and>
     distinct (map ur_id (ud_users db)) \<and> 0 < ud_next db \<and>
     list_all (\<lambda>r. 0 < ur_id r \<and> ur_id r < ud_next db) (ud_users db) \<and>
     announced_users db = map (\<lambda>r. (ur_id r, ur_email r)) (ud_users db)"

definition passwords_ok :: "bcrypt_lib \<Rightarrow> user_state \<Rightarrow> bool" where
  "passwords_ok bl st \<longleftrightarrow>
     list_all (\<lambda>r. \<exists>p. snd st (ur_id r) = Some p \<and> hash_of bl p (ur_password_hash r)) (ud_users (fst st))"

text \<open>The two ways a row comes to be or changes.\<close>

lemma register_write_cases:
  assumes "register_write env d db = (r, db')"
  obtains (failed) e k where "r = Inl e" "db' = db\<lparr>ud_next := k\<rparr>" "ud_next db \<le> k"
  | (stored) h row where "hash_password (uv_bcrypt env) (uv_salt env) (rg_password d) = Inr h"
      "row = \<lparr>ur_id = ud_next db, ur_username = rg_username d, ur_email = rg_email d, ur_password_hash = h,
              ur_created_at = uv_now env, ur_updated_at = None\<rparr>"
      "rg_username d \<notin> ur_username ` set (ud_users db)" "rg_email d \<notin> ur_email ` set (ud_users db)"
      "r = Inr (user_dto_of row)" "ud_users db' = ud_users db @ [row]" "ud_next db' = ud_next db + 1"
      "announced_users db' = announced_users db @ [(ud_next db, rg_email d)]"
proof (cases "hash_password (uv_bcrypt env) (uv_salt env) (rg_password d)")
  case (Inl e)
  then show thesis using assms by (auto intro!: failed [of e "ud_next db"] simp: register_write_def)
next
  case (Inr h)
  show thesis
  proof (cases "fst (user_create (uv_now env) (rg_username d) (rg_email d) h db)")
    case (Inl e)
    then show thesis
      using assms Inr that(1) [of _ "ud_next db + 1"]
      by (auto simp: register_write_def user_create_def Let_def split: if_splits user_error.splits)
  next
    case created: (Inr row)
    show thesis
      by (rule stored [OF Inr refl])
        (use assms Inr created in \<open>auto simp: register_write_def user_create_def Let_def announced_users_def
            ob_add_def ob_build_def user_dto_of_def split: if_splits\<close>)
  qed
qed

lemma user_update_Inr:
  "user_update i f db = Inr db' \<longleftrightarrow>
   i \<in> ur_id ` set (ud_users db) \<and> db' = db\<lparr>ud_users := update_where (\<lambda>r. ur_id r = i) f (ud_users db)\<rparr>"
  by (auto simp: user_update_def)

lemma change_password_write_Inr:
  assumes "change_password_write env i p db = Inr db'"
  obtains h where "hash_password (uv_bcrypt env) (uv_salt env) p = Inr h"
    "db' = db\<lparr>ud_users := update_where (\<lambda>r. ur_id r = i)
       (\<lambda>r. r\<lparr>ur_password_hash := h, ur_updated_at := Some (uv_now env)\<rparr>) (ud_users db)\<rparr>"
  using assms by (auto simp: change_password_write_def update_password_def bindE_eq_Inr user_update_Inr)

lemma change_username_write_Inr:
  assumes "change_username_write env i s db = Inr (u, db')"
  shows "db' = db\<lparr>ud_users := update_where (\<lambda>r. ur_id r = i)
       (\<lambda>r. r\<lparr>ur_username := s, ur_updated_at := Some (uv_now env)\<rparr>) (ud_users db)\<rparr>"
    and "\<And>r. r \<in> set (ud_users db) \<Longrightarrow> ur_id r \<noteq> i \<Longrightarrow> ur_username r \<noteq> s"
  using assms
  by (auto simp: change_username_write_def update_username_def bindE_eq_Inr user_update_Inr
      split: sum.splits user_error.splits)

lemma announced_users_rows [simp]: "announced_users (db\<lparr>ud_users := rows\<rparr>) = announced_users db"
  "announced_users (db\<lparr>ud_next := k\<rparr>) = announced_users db"
  by (simp_all add: announced_users_def)

lemma distinct_rename:
  assumes "distinct (map ur_username rows)" and "distinct (map ur_id rows)"
    and "\<And>r. r \<in> set rows \<Longrightarrow> ur_id r \<noteq> i \<Longrightarrow> ur_username r \<noteq> s"
    and f: "\<And>r. ur_username (f r) = s"
  shows "distinct (map ur_username (update_where (\<lambda>r. ur_id r = i) f rows))"
  using assms(1-3)
proof (induction rows)
  case (Cons r rows)
  have rest: "distinct (map ur_username (update_where (\<lambda>r. ur_id r = i) f rows))" using Cons by auto
  have other: "ur_username (if ur_id r = i then f r else r) \<noteq> ur_username (if ur_id x = i then f x else x)"
    if x: "x \<in> set rows" for x
  proof -
    have "ur_username x \<noteq> ur_username r" "ur_id x \<noteq> ur_id r" using Cons.prems(1, 2) x by (auto simp: image_iff)
    then show ?thesis using Cons.prems(3) [of x] Cons.prems(3) [of r] x by (auto simp: f)
  qed
  then have "ur_username (if ur_id r = i then f r else r) \<notin> ur_username ` set (update_where (\<lambda>r. ur_id r = i) f rows)"
    unfolding set_update_where image_image image_iff by metis
  then show ?case using rest by simp
qed simp

lemma apply_user_write_ok:
  assumes "users_ok db" and "apply_user_write env w (db, pw) = (db', pw')"
  shows "users_ok db'"
proof (cases w)
  case (WriteUser d)
  obtain r where r: "register_write env d db = (r, db')" using assms(2) WriteUser by (auto split: prod.splits sum.splits)
  show ?thesis
    using r
  proof (cases rule: register_write_cases)
    case failed
    then show ?thesis using assms(1) by (auto simp: users_ok_def list_all_iff)
  next
    case (stored h row)
    then show ?thesis using assms(1) by (auto simp: users_ok_def list_all_iff)
  qed
next
  case (WritePassword i p)
  show ?thesis
  proof (cases "change_password_write env i p db")
    case (Inr db1)
    from this obtain h where "db1 = db\<lparr>ud_users := update_where (\<lambda>r. ur_id r = i)
       (\<lambda>r. r\<lparr>ur_password_hash := h, ur_updated_at := Some (uv_now env)\<rparr>) (ud_users db)\<rparr>"
      by (rule change_password_write_Inr)
    then show ?thesis
      using assms WritePassword Inr
      by (auto simp: users_ok_def map_update_where list_all_iff set_update_where)
  qed (use assms WritePassword in auto)
next
  case (WriteUsername i s)
  show ?thesis
  proof (cases "change_username_write env i s db")
    case (Inr x)
    obtain u db1 where x: "x = (u, db1)" by (cases x)
    note w = change_username_write_Inr [OF Inr [unfolded x]]
    show ?thesis
      using assms WriteUsername Inr x w distinct_rename [of "ud_users db" i s]
      by (auto simp: users_ok_def map_update_where list_all_iff set_update_where)
  qed (use assms WriteUsername in auto)
qed

lemma apply_user_write_passwords:
  assumes laws: "bcrypt_laws (uv_bcrypt env)" and "users_ok db" and "passwords_ok (uv_bcrypt env) (db, pw)"
    and "apply_user_write env w (db, pw) = (db', pw')"
  shows "passwords_ok (uv_bcrypt env) (db', pw')"
proof (cases w)
  case (WriteUser d)
  obtain r where r: "register_write env d db = (r, db')" using assms(4) WriteUser by (auto split: prod.splits sum.splits)
  show ?thesis
    using r
  proof (cases rule: register_write_cases)
    case failed
    then show ?thesis using assms(3, 4) WriteUser r by (auto simp: passwords_ok_def)
  next
    case (stored h row)
    have pw': "pw' = pw(ud_next db \<mapsto> rg_password d)"
      using assms(4) WriteUser r stored by (auto simp: user_dto_of_def)
    have "hash_of (uv_bcrypt env) (rg_password d) h" using hash_password_Inr [OF laws stored(1)] .
    moreover have "ur_id x \<noteq> ud_next db" if "x \<in> set (ud_users db)" for x
      using assms(2) that by (auto simp: users_ok_def list_all_iff)
    ultimately show ?thesis using assms(3) stored pw' by (auto simp: passwords_ok_def list_all_iff)
  qed
next
  case (WritePassword i p)
  show ?thesis
  proof (cases "change_password_write env i p db")
    case (Inr db1)
    from this obtain h where h: "hash_password (uv_bcrypt env) (uv_salt env) p = Inr h"
      "db1 = db\<lparr>ud_users := update_where (\<lambda>r. ur_id r = i)
         (\<lambda>r. r\<lparr>ur_password_hash := h, ur_updated_at := Some (uv_now env)\<rparr>) (ud_users db)\<rparr>"
      by (rule change_password_write_Inr)
    show ?thesis
      using assms(3, 4) WritePassword Inr h hash_password_Inr [OF laws h(1)]
      by (auto simp: passwords_ok_def list_all_iff set_update_where)
  qed (use assms WritePassword in auto)
next
  case (WriteUsername i s)
  show ?thesis
  proof (cases "change_username_write env i s db")
    case (Inr x)
    obtain u db1 where x: "x = (u, db1)" by (cases x)
    show ?thesis
      using assms(3, 4) WriteUsername Inr x change_username_write_Inr(1) [OF Inr [unfolded x]]
      by (auto simp: passwords_ok_def list_all_iff set_update_where)
  qed (use assms WriteUsername in auto)
qed

lemma run_user_writes_passwords:
  "bcrypt_laws (uv_bcrypt env) \<Longrightarrow> users_ok (fst st) \<Longrightarrow> passwords_ok (uv_bcrypt env) st \<Longrightarrow>
   passwords_ok (uv_bcrypt env) (run_user_writes env ws st)"
proof (induction env ws st rule: run_user_writes.induct)
  case (2 env now salt w ws st)
  let ?env = "env\<lparr>uv_now := now, uv_salt := salt\<rparr>"
  obtain db pw where st: "st = (db, pw)" by (cases st)
  obtain db' pw' where a: "apply_user_write ?env w (db, pw) = (db', pw')" by (cases "apply_user_write ?env w (db, pw)")
  have "passwords_ok (uv_bcrypt env) (db', pw')"
    using apply_user_write_passwords [OF _ _ _ a] 2(2-4) by (simp add: st)
  then show ?case using 2(1) [OF 2(2)] apply_user_write_ok [OF _ a] 2(3) by (simp add: st a)
qed simp

lemma run_user_writes_ok:
  "users_ok (fst st) \<Longrightarrow> users_ok (fst (run_user_writes env ws st))"
proof (induction env ws st rule: run_user_writes.induct)
  case (2 env now salt w ws st)
  obtain db pw where st: "st = (db, pw)" by (cases st)
  obtain db' pw' where a: "apply_user_write (env\<lparr>uv_now := now, uv_salt := salt\<rparr>) w (db, pw) = (db', pw')"
    by (cases "apply_user_write (env\<lparr>uv_now := now, uv_salt := salt\<rparr>) w (db, pw)")
  show ?case using 2 apply_user_write_ok [OF _ a] by (simp add: st a)
qed simp

lemma users_ok_empty [simp]: "users_ok empty_user_db"
  by (simp add: users_ok_def empty_user_db_def announced_users_def)

text \<open>
  C37. Names, addresses and ids of users are unique after any interleaving of registrations, renamings and changes of
  passwords, the ones that checked an outdated state included, and the outbox announces exactly the registered
  users, each once, in the order of their registration.
\<close>

theorem users_unique_and_announced:
  assumes "db = fst (run_user_writes env ws (empty_user_db, Map.empty))"
  shows "distinct (map ur_username (ud_users db)) \<and> distinct (map ur_email (ud_users db)) \<and>
    distinct (map ur_id (ud_users db)) \<and>
    map (\<lambda>r. (ue_user_id (ob_payload r), ue_email (ob_payload r))) (ud_outbox db) =
      map (\<lambda>r. (ur_id r, ur_email r)) (ud_users db)"
proof -
  have "users_ok db" using run_user_writes_ok [of "(empty_user_db, Map.empty)"] assms by simp
  then show ?thesis by (auto simp: users_ok_def announced_users_def)
qed

section \<open>Logging in\<close>

lemma filter_distinct_key:
  "distinct (map f rows) \<Longrightarrow>
   filter (\<lambda>r. f r = k) rows = (case List.find (\<lambda>r. f r = k) rows of None \<Rightarrow> [] | Some r \<Rightarrow> [r])"
proof (induction rows)
  case (Cons a rows)
  show ?case
  proof (cases "f a = k")
    case True
    then have "filter (\<lambda>r. f r = k) rows = []" using Cons.prems unfolding filter_empty_conv by (auto intro: rev_image_eqI)
    then show ?thesis using True by simp
  qed (use Cons in simp)
qed simp

lemma find_user_distinct:
  "distinct (map f (ud_users db)) \<Longrightarrow> find_user (\<lambda>r. f r = k) db = Inr (List.find (\<lambda>r. f r = k) (ud_users db))"
  by (simp add: find_user_def filter_distinct_key split: option.splits)

definition identified_by :: "string \<Rightarrow> user_row \<Rightarrow> bool" where
  "identified_by identifier r \<longleftrightarrow>
     (if CHR ''@'' \<in> set identifier then ur_email r = identifier else ur_username r = identifier)"


section \<open>Sessions\<close>

lemma py_words_word:
  assumes "list_all (\<lambda>c. \<not> is_space c) w" and "w \<noteq> []"
  shows "py_words w = [w]" and "is_space c \<Longrightarrow> py_words (w @ c # t) = w # py_words (c # t)"
proof -
  obtain x v where w: "w = x # v" "\<not> is_space x" "list_all (\<lambda>c. \<not> is_space c) v" using assms by (cases w) auto
  have tw: "takeWhile (\<lambda>y. \<not> is_space y) v = v" "dropWhile (\<lambda>y. \<not> is_space y) v = []"
    using w(3) by (auto simp: list_all_iff takeWhile_eq_all_conv dropWhile_eq_Nil_conv)
  show "py_words w = [w]" by (subst py_words.simps) (simp add: w(1, 2) tw, subst py_words.simps, simp)
  assume c: "is_space c"
  have "takeWhile (\<lambda>y. \<not> is_space y) (v @ c # t) = v" "dropWhile (\<lambda>y. \<not> is_space y) (v @ c # t) = c # t"
    using w(3) c by (auto simp: list_all_iff takeWhile_append2 dropWhile_append2)
  then show "py_words (w @ c # t) = w # py_words (c # t)" by (subst py_words.simps) (simp add: w(1, 2))
qed

lemma py_words_space: "is_space c \<Longrightarrow> py_words (c # t) = py_words t"
  by (subst (1 2) py_words.simps) simp

lemma bearer_words:
  assumes "list_all (\<lambda>c. \<not> is_space c) token" and "token \<noteq> []"
  shows "py_words (''Bearer '' @ token) = [''Bearer'', token]"
proof -
  have "py_words (''Bearer'' @ CHR '' '' # token) = ''Bearer'' # py_words (CHR '' '' # token)"
    by (rule py_words_word) (simp_all add: is_space_def)
  also have "py_words (CHR '' '' # token) = [token]"
    using py_words_word(1) [OF assms] by (simp add: py_words_space is_space_def)
  finally show ?thesis by simp
qed

lemma token_read:
  assumes "jwt_laws jl"
  shows "get_current_user_id jl secret later (Some (''Bearer '' @ create_access_token jl key now u username email)) =
    (if secret = key \<and> later div 1000000 \<le> now div 1000000 + 3600 then Some u else None)"
proof -
  let ?c = "token_claims now u username email"
  let ?tok = "jl_encode jl ?c key JWT_ALGORITHM"
  have e: "(now + usec (60 * JWT_EXPIRE_MINUTES)) div 1000000 = now div 1000000 + 3600"
    by (simp add: JWT_EXPIRE_MINUTES_def)
  have decoded: "jl_decode jl later ?tok secret [JWT_ALGORITHM] True =
    (if secret = key \<and> later div 1000000 \<le> now div 1000000 + 3600 then Some ?c else None)"
    using assms unfolding jwt_laws_def e [symmetric] by (simp add: token_claims_def)
  have words: "py_words (''Bearer '' @ ?tok) = [''Bearer'', ?tok]"
    using assms by (intro bearer_words) (auto simp: jwt_laws_def)
  have bearer: "lower ''Bearer'' = ''bearer''" by code_simp
  show ?thesis
    unfolding get_current_user_id_def create_access_token_def option.case words list.case bearer decode_token_def decoded
    by (simp add: token_claims_def dget_or_def claim_int_def)
qed


section \<open>Witnesses\<close>

text \<open>A run of registrations that race for a name, a renaming and a change of password.\<close>

definition demo_bcrypt :: bcrypt_lib where
  "demo_bcrypt =
     \<lparr>bl_hashpw = \<lambda>p salt. if length p \<le> 72 then Some (CHR ''$'' # map char_of p) else None,
      bl_checkpw = \<lambda>p h. if length p \<le> 72 then Some (h = CHR ''$'' # map char_of p) else None\<rparr>"

lemma demo_bcrypt_laws: "bcrypt_laws demo_bcrypt"
proof -
  have "map char_of p = (map char_of q :: string) \<longleftrightarrow> p = q"
    if "list_all (\<lambda>b. b < (256::nat)) p" "list_all (\<lambda>b. b < (256::nat)) q" for p q
    using that by (auto simp: list_all_iff intro!: map_inj_on [of char_of p q] inj_on_subset [OF inj_on_char_of_nat])
  then show ?thesis by (auto simp: bcrypt_laws_def demo_bcrypt_def bytes_upto_def)
qed

text \<open>Tokens as numerals of the numbers that encode claims, secret and algorithm.\<close>

instance json :: countable by countable_datatype

definition demo_jwt :: jwt_lib where
  "demo_jwt =
     \<lparr>jl_encode = \<lambda>claims secret a. show_nat (to_nat (claims, secret, a)),
      jl_decode = \<lambda>now token s algorithms require_exp.
        (case parse_nat token of
           None \<Rightarrow> None
         | Some n \<Rightarrow>
             (case from_nat n :: dict \<times> string \<times> string of
                (claims, secret, a) \<Rightarrow>
                  (case dget claims ''exp'' of
                     Some (JInt e) \<Rightarrow>
                       if s = secret \<and> now div 1000000 \<le> e \<and> a \<in> set algorithms then Some claims else None
                   | _ \<Rightarrow> None)))\<rparr>"

lemma demo_jwt_laws: "jwt_laws demo_jwt"
proof -
  have "list_all (\<lambda>c. \<not> is_space c) (show_nat n)" for n
    using show_nat_all_digits [of n] by (auto simp: list_all_iff is_digit_def is_space_def)
  moreover have "parse_nat (show_nat n) = Some n" for n
    using show_nat_all_digits [of n] by (simp add: parse_nat_def digits_val_show_nat)
  ultimately show ?thesis by (auto simp: jwt_laws_def demo_jwt_def)
qed

definition demo_user_env :: user_env where
  "demo_user_env =
     \<lparr>uv_now = 0, uv_bcrypt = demo_bcrypt, uv_salt = ''s'', uv_jwt = demo_jwt, uv_email = Some, uv_secret = ''k'',
      uv_internal_key = Some ''i''\<rparr>"

definition demo_user_writes :: "(instant \<times> string \<times> user_write) list" where
  "demo_user_writes =
     [(1, ''s'', WriteUser \<lparr>rg_username = ''ida'', rg_email = ''ida@x.dk'', rg_password = ''password1''\<rparr>),
      (2, ''s'', WriteUser \<lparr>rg_username = ''ida'', rg_email = ''bo@x.dk'', rg_password = ''password2''\<rparr>),
      (3, ''s'', WriteUser \<lparr>rg_username = ''bo'', rg_email = ''bo@x.dk'', rg_password = ''password3''\<rparr>),
      (4, ''s'', WriteUsername 3 ''ida''), (5, ''s'', WriteUsername 3 ''bodil''), (6, ''s'', WritePassword 1 ''password4'')]"

definition demo_users :: user_db where
  "demo_users = fst (run_user_writes demo_user_env demo_user_writes (empty_user_db, Map.empty))"

theorem users_unique_and_announced_witness:
  "distinct (map ur_username (ud_users demo_users)) \<and> length (ud_users demo_users) = 2 \<and>
   map (\<lambda>r. (ue_user_id (ob_payload r), ue_email (ob_payload r))) (ud_outbox demo_users) =
     map (\<lambda>r. (ur_id r, ur_email r)) (ud_users demo_users)"
proof -
  have "length (ud_users demo_users) = 2" by code_simp
  then show ?thesis using users_unique_and_announced [OF demo_users_def] by blast
qed

lemma demo_users_rows:
  "List.find (identified_by ''ida@x.dk'') (ud_users demo_users) =
     Some \<lparr>ur_id = 1, ur_username = ''ida'', ur_email = ''ida@x.dk'', ur_password_hash = ''$password4'', ur_created_at = 1,
       ur_updated_at = Some 6\<rparr>"
  "List.find (identified_by ''bo'') (ud_users demo_users) = None"
  "snd (run_user_writes demo_user_env demo_user_writes (empty_user_db, Map.empty)) 1 = Some ''password4''"
  by code_simp+

lemma demo_significant:
  "significant ''password4'' = ''password4''" "length (utf8_text (significant ''password4'')) \<le> 72"
  "significant ''password1'' = ''password1''" "length (utf8_text (significant ''password1'')) \<le> 72"
  by code_simp+


definition demo_login :: token_response where
  "demo_login =
     \<lparr>tr_access_token = create_access_token demo_jwt ''k'' 0 1 ''ida'' ''ida@x.dk'', tr_user_id = 1, tr_username = ''ida''\<rparr>"

lemma demo_login_succeeds: "login demo_user_env ''ida@x.dk'' ''password4'' demo_users = Inr demo_login"
proof -
  have "find_by_email ''ida@x.dk'' demo_users =
    Inr (Some \<lparr>ur_id = 1, ur_username = ''ida'', ur_email = ''ida@x.dk'', ur_password_hash = ''$password4'', ur_created_at = 1,
       ur_updated_at = Some 6\<rparr>)" "verify_password demo_bcrypt ''password4'' ''$password4'' = Inr True"
    by code_simp+
  then show ?thesis by (simp add: login_def demo_login_def demo_user_env_def of_option_def guardE_def)
qed


section \<open>What the routes refuse\<close>

text \<open>
  A password is cut to 72 characters, bcrypt takes 72 bytes: a valid password of forty letters that need two bytes
  makes the library raise.
\<close>

lemma accented_password_crashes:
  assumes "bcrypt_laws bl" and "password = replicate 40 (char_of (230 :: nat))"
  shows "new_password_valid password \<and> hash_password bl salt password = Inl (UserPyError ValueError)"
proof -
  have "new_password_valid password" "72 < length (utf8_text (take BCRYPT_MAX_BYTES password))"
    unfolding assms(2) by code_simp+
  then show ?thesis using assms(1) by (simp add: bcrypt_laws_def hash_password_def of_option_def)
qed

text \<open>
  An identifier with an at sign is looked up among the addresses only, in the form they were stored: a name with an
  at sign is no way to log in, nor is an address that the validation changed.
\<close>

lemma unknown_address_refused:
  assumes "users_ok db" and "CHR ''@'' \<in> set identifier" and "identifier \<notin> ur_email ` set (ud_users db)"
  shows "login env identifier password db = Inl InvalidCredentials"
proof -
  have "List.find (\<lambda>r. ur_email r = identifier) (ud_users db) = None" using assms(3) by (auto simp: find_None_all)
  then show ?thesis
    using assms(1, 2) by (simp add: login_def find_by_email_def find_user_distinct users_ok_def of_option_def)
qed

text \<open>A lost race for an address that contains the word is reported as a taken name.\<close>

lemma address_reported_as_name:
  "fst (register_write demo_user_env \<lparr>rg_username = ''eva'', rg_email = ''username@x.dk'', rg_password = ''password5''\<rparr>
     (snd (register_write demo_user_env \<lparr>rg_username = ''eve'', rg_email = ''username@x.dk'', rg_password = ''password6''\<rparr>
        empty_user_db))) = Inl (UserAlreadyExists ''username'' ''eva'')"
  by code_simp

end
