(* ===== verification/Accounts.thy ===== *)
theory Accounts
  imports Users Goals
begin

text \<open>
  account-service: the accounts and account groups with their repositories
  (\<open>app/adapters/outbound/postgresql_account_repository.py\<close>, \<open>postgresql_account_group_repository.py\<close>), the lookup of
  users (\<open>user_adapter.py\<close>), the use cases (\<open>app/application/service.py\<close>), the consumer that opens the first account
  of a new user (\<open>app/consumers/account_creation_consumer.py\<close>) and the routes (\<open>app/adapters/inbound\<close>).

  A balance is a finite float in a request and an integer number of cents in its \<open>DECIMAL(15, 2)\<close> column.  The answers
  of user-service are a parameter: \<open>None\<close> where the request fails, else the status and the body.
\<close>

section \<open>Rows and errors\<close>

record account_row =
  ac_id :: int
  ac_name :: string
  ac_saldo :: int
  ac_user_id :: int
  ac_start_day :: int

record group_row =
  gr_id :: int
  gr_name :: string
  gr_max_users :: int

record acct_db =
  ad_accounts :: "account_row list"
  ad_next :: int
  ad_groups :: "group_row list"
  ad_next_group :: int
  ad_members :: "(int \<times> int) list"
  ad_outbox :: "dict outbox"

datatype acct_error =
    UserNotFoundForAccount int
  | UserServiceUnavailable
  | InvalidUserInGroup
  | AcctIntegrity string \<comment> \<open>the message of the violated constraint\<close>
  | AcctDataError
  | AcctValidation
  | AcctRequestError
  | AcctPyError py_error

record account_env =
  av_now :: instant
  av_user_http :: "int \<Rightarrow> (int \<times> dict) option"
  av_isoformat :: "instant \<Rightarrow> string"
  av_jwt :: jwt_lib
  av_secret :: string
  av_internal_key :: "string option"

section \<open>Balances\<close>

definition saldo_limit :: int where "saldo_limit = 10 ^ 15"
definition int4_limit :: int where "int4_limit = 2 ^ 31"

text \<open>A float reaches the column as its shortest text, which PostgreSQL rounds to cents.\<close>

definition saldo_cents :: "rat \<Rightarrow> int" where
  "saldo_cents v = numeric_cents (repr_decimal v)"

definition saldo_float :: "int \<Rightarrow> rat" where
  "saldo_float c = fl (of_int c / 100)"

text \<open>\<open>str\<close> of the float a column with two decimals is read as: its shortest text has at most those two.\<close>

definition saldo_text :: "int \<Rightarrow> string" where
  "saldo_text c =
     (let d = nat \<bar>c\<bar> mod 100
      in (if c < 0 then ''-'' else []) @ show_nat (nat \<bar>c\<bar> div 100) @ ''.'' @
         (if d mod 10 = 0 then show_nat (d div 10) else pad 2 d))"

section \<open>The repository of accounts\<close>

text \<open>Every row read becomes an \<open>Account\<close>, whose \<open>__post_init__\<close> checks it and clamps the day.\<close>

definition account_entity :: "account_row \<Rightarrow> acct_error + account_row" where
  "account_entity r =
     bindE (guardE (ac_name r \<noteq> [] \<and> ac_user_id r \<noteq> 0) (AcctPyError ValueError)) (\<lambda>_.
     Inr (r\<lparr>ac_start_day := max 1 (min 28 (if ac_start_day r = 0 then 1 else ac_start_day r))\<rparr>))"

fun account_entities :: "account_row list \<Rightarrow> acct_error + account_row list" where
  "account_entities [] = Inr []"
| "account_entities (r # rs) =
     bindE (account_entity r) (\<lambda>a. bindE (account_entities rs) (\<lambda>as. Inr (a # as)))"

definition account_get_by_id :: "int \<Rightarrow> acct_db \<Rightarrow> acct_error + account_row option" where
  "account_get_by_id account_id db =
     (case List.find (\<lambda>r. ac_id r = account_id) (ad_accounts db) of
        None \<Rightarrow> Inr None
      | Some r \<Rightarrow> bindE (account_entity r) (\<lambda>a. Inr (Some a)))"

definition account_get_all :: "int \<Rightarrow> acct_db \<Rightarrow> acct_error + account_row list" where
  "account_get_all user_id db = account_entities (filter (\<lambda>r. ac_user_id r = user_id) (ad_accounts db))"

definition DEFAULT_ACCOUNT :: string where "DEFAULT_ACCOUNT = ''Default Account''"

definition default_taken :: "account_row \<Rightarrow> acct_db \<Rightarrow> bool" where
  "default_taken r db \<longleftrightarrow>
     ac_name r = DEFAULT_ACCOUNT \<and>
     (\<exists>x\<in>set (ad_accounts db). ac_id x \<noteq> ac_id r \<and> ac_user_id x = ac_user_id r \<and> ac_name x = DEFAULT_ACCOUNT)"

definition default_violation :: "int \<Rightarrow> string" where
  "default_violation user_id = unique_violation ''one_default_per_user'' ''\"User_idUser\"'' (show_int user_id)"

definition account_fits :: "account_row \<Rightarrow> bool" where
  "account_fits r \<longleftrightarrow>
     length (ac_name r) \<le> 45 \<and> \<bar>ac_saldo r\<bar> < saldo_limit \<and> - int4_limit \<le> ac_user_id r \<and> ac_user_id r < int4_limit"

text \<open>The statements with what the columns and the partial unique index refuse; a refused insert uses its id up.\<close>

definition account_insert :: "account_row \<Rightarrow> acct_db \<Rightarrow> (acct_error + account_row) \<times> acct_db" where
  "account_insert a db =
     (let r = a\<lparr>ac_id := ad_next db\<rparr>; used = db\<lparr>ad_next := ad_next db + 1\<rparr>
      in if \<not> account_fits r then (Inl AcctDataError, used)
         else if default_taken r db then (Inl (AcctIntegrity (default_violation (ac_user_id r))), used)
         else (account_entity r, used\<lparr>ad_accounts := ad_accounts db @ [r]\<rparr>))"

text \<open>The owner is not among the columns an update writes.\<close>

definition account_put :: "account_row \<Rightarrow> acct_db \<Rightarrow> acct_error + (account_row \<times> acct_db)" where
  "account_put a db =
     (case List.find (\<lambda>r. ac_id r = ac_id a) (ad_accounts db) of
        None \<Rightarrow> Inl (AcctPyError TypeError)
      | Some old \<Rightarrow>
          (let r = old\<lparr>ac_name := ac_name a, ac_saldo := ac_saldo a, ac_start_day := ac_start_day a\<rparr> in
           bindE (guardE (account_fits r) AcctDataError) (\<lambda>_.
           bindE (guardE (\<not> default_taken r db) (AcctIntegrity (default_violation (ac_user_id r)))) (\<lambda>_.
           bindE (account_entity r) (\<lambda>e.
           Inr (e, db\<lparr>ad_accounts := update_where (\<lambda>x. ac_id x = ac_id a) (\<lambda>_. r) (ad_accounts db)\<rparr>))))))"

definition account_delete :: "int \<Rightarrow> acct_db \<Rightarrow> bool \<times> acct_db" where
  "account_delete account_id db =
     (if account_id \<in> ac_id ` set (ad_accounts db)
      then (True, db\<lparr>ad_accounts := filter (\<lambda>r. ac_id r \<noteq> account_id) (ad_accounts db)\<rparr>)
      else (False, db))"

section \<open>The users\<close>

definition user_exists :: "account_env \<Rightarrow> int \<Rightarrow> acct_error + bool" where
  "user_exists env user_id =
     (case av_user_http env user_id of
        None \<Rightarrow> Inl UserServiceUnavailable
      | Some (status_code, _) \<Rightarrow>
          if status_code = 200 then Inr True
          else if status_code = 404 then Inr False
          else Inl UserServiceUnavailable)"

definition named_user :: "dict \<Rightarrow> acct_error + (int \<times> json) option" where
  "named_user user =
     (case dget_or user ''idUser'' (dget_or user ''id'' JNull) of
        JNull \<Rightarrow> Inr None
      | v \<Rightarrow>
          bindE (of_option (AcctPyError (case v of JStr _ \<Rightarrow> ValueError | _ \<Rightarrow> TypeError)) (claim_int v)) (\<lambda>i.
          bindE (of_option (AcctPyError (KeyError ''username'')) (dget user ''username'')) (\<lambda>nm. Inr (Some (i, nm)))))"

fun get_users_by_ids :: "account_env \<Rightarrow> int list \<Rightarrow> acct_error + (int \<times> json) list" where
  "get_users_by_ids env [] = Inr []"
| "get_users_by_ids env (i # is) =
     (case av_user_http env i of
        None \<Rightarrow> Inl AcctRequestError
      | Some (status_code, user) \<Rightarrow>
          bindE (if status_code = 200 then named_user user else Inr None) (\<lambda>u.
          bindE (get_users_by_ids env is) (\<lambda>us.
          Inr (case u of None \<Rightarrow> us | Some x \<Rightarrow> x # us))))"

section \<open>Requests and answers\<close>

text \<open>\<open>AccountBase\<close>: the length is that of the text as sent, the name is stripped afterwards, the balance rounded.\<close>

definition ACCOUNT_NAME_MAX :: nat where "ACCOUNT_NAME_MAX = 30"

definition valid_name :: "string \<Rightarrow> string option" where
  "valid_name s =
     (if 1 \<le> length s \<and> length s \<le> ACCOUNT_NAME_MAX \<and> strip s \<noteq> [] then Some (strip s) else None)"

record account_dto =
  ao_id :: int
  ao_name :: string
  ao_saldo :: rat
  ao_user_id :: int
  ao_start_day :: int

definition account_base :: "string \<Rightarrow> rat \<Rightarrow> int \<Rightarrow> (string \<times> rat \<times> int) option" where
  "account_base name saldo start_day =
     (case valid_name name of
        None \<Rightarrow> None
      | Some n \<Rightarrow> if 1 \<le> start_day \<and> start_day \<le> 28 then Some (n, round2 saldo, start_day) else None)"

definition account_to_dto :: "account_row \<Rightarrow> acct_error + account_dto" where
  "account_to_dto a =
     (case account_base (ac_name a) (saldo_float (ac_saldo a)) (ac_start_day a) of
        None \<Rightarrow> Inl AcctValidation
      | Some (name, saldo, start_day) \<Rightarrow>
          Inr \<lparr>ao_id = ac_id a, ao_name = name, ao_saldo = saldo, ao_user_id = ac_user_id a, ao_start_day = start_day\<rparr>)"

fun accounts_to_dtos :: "account_row list \<Rightarrow> acct_error + account_dto list" where
  "accounts_to_dtos [] = Inr []"
| "accounts_to_dtos (a # as) =
     bindE (account_to_dto a) (\<lambda>d. bindE (accounts_to_dtos as) (\<lambda>ds. Inr (d # ds)))"

section \<open>Use cases of accounts\<close>

definition account_payload :: "account_env \<Rightarrow> bool \<Rightarrow> account_row \<Rightarrow> dict" where
  "account_payload env created a =
     [(''event_type'', JStr (if created then ''account.created'' else ''account.updated'')), (''event_version'', JInt 1),
      (''account_id'', JInt (ac_id a)), (''user_id'', JInt (ac_user_id a)),
      (if created then ''account_name'' else ''name'', JStr (ac_name a)), (''saldo'', JStr (saldo_text (ac_saldo a))),
      (''budget_start_day'', JInt (ac_start_day a)), (''timestamp'', JStr (av_isoformat env (av_now env)))]"

definition account_announce :: "account_env \<Rightarrow> bool \<Rightarrow> account_row \<Rightarrow> acct_db \<Rightarrow> acct_db" where
  "account_announce env created a db =
     db\<lparr>ad_outbox := ob_add (av_now env) (if created then ''account.created'' else ''account.updated'')
       (account_payload env created a) None ''account'' (show_int (ac_id a)) (ad_outbox db)\<rparr>"

definition get_account :: "int \<Rightarrow> acct_db \<Rightarrow> acct_error + account_dto option" where
  "get_account account_id db =
     bindE (account_get_by_id account_id db) (\<lambda>found.
     (case found of None \<Rightarrow> Inr None | Some a \<Rightarrow> bindE (account_to_dto a) (\<lambda>d. Inr (Some d))))"

definition list_accounts :: "int \<Rightarrow> acct_db \<Rightarrow> acct_error + account_dto list" where
  "list_accounts user_id db = bindE (account_get_all user_id db) accounts_to_dtos"

text \<open>
  An exception before the commit rolls the tables back and leaves the sequence; the answer is built after the commit.
\<close>

definition create_account ::
  "account_env \<Rightarrow> string \<Rightarrow> rat \<Rightarrow> int \<Rightarrow> int \<Rightarrow> acct_db \<Rightarrow> (acct_error + account_dto) \<times> acct_db" where
  "create_account env name saldo start_day user_id db =
     (case bindE (user_exists env user_id) (\<lambda>exists.
           bindE (guardE exists (UserNotFoundForAccount user_id)) (\<lambda>_.
           account_entity \<lparr>ac_id = 0, ac_name = name, ac_saldo = saldo_cents saldo, ac_user_id = user_id,
             ac_start_day = start_day\<rparr>)) of
        Inl e \<Rightarrow> (Inl e, db)
      | Inr a \<Rightarrow>
          (case account_insert a db of
             (Inl e, db') \<Rightarrow> (Inl e, db\<lparr>ad_next := ad_next db'\<rparr>)
           | (Inr r, db') \<Rightarrow> (account_to_dto r, account_announce env True r db')))"

definition update_account ::
  "account_env \<Rightarrow> int \<Rightarrow> string \<Rightarrow> rat \<Rightarrow> int \<Rightarrow> acct_db \<Rightarrow> (acct_error + account_dto option) \<times> acct_db" where
  "update_account env account_id name saldo start_day db =
     (case account_get_by_id account_id db of
        Inl e \<Rightarrow> (Inl e, db)
      | Inr None \<Rightarrow> (Inr None, db)
      | Inr (Some existing) \<Rightarrow>
          (case bindE (account_entity \<lparr>ac_id = account_id, ac_name = name, ac_saldo = saldo_cents saldo,
                  ac_user_id = ac_user_id existing, ac_start_day = start_day\<rparr>) (\<lambda>a. account_put a db) of
             Inl e \<Rightarrow> (Inl e, db)
           | Inr (r, db') \<Rightarrow>
               (bindE (account_to_dto r) (\<lambda>d. Inr (Some d)), account_announce env False r db')))"

section \<open>Use cases of groups\<close>

definition GROUP_MAX_USERS :: int where "GROUP_MAX_USERS = 20"

record group_dto =
  go_id :: int
  go_name :: string
  go_max_users :: int
  go_users :: "(int \<times> string) list"

text \<open>\<open>AccountGroupsCreate\<close>: the number of ids may not exceed the bound of the group.\<close>

definition group_base :: "string \<Rightarrow> int \<Rightarrow> int list \<Rightarrow> (string \<times> int \<times> int list) option" where
  "group_base name max_users user_ids =
     (case valid_name name of
        None \<Rightarrow> None
      | Some n \<Rightarrow>
          if 1 \<le> max_users \<and> max_users \<le> GROUP_MAX_USERS \<and> int (length user_ids) \<le> max_users
          then Some (n, max_users, user_ids) else None)"

fun group_users :: "(int \<times> json) list \<Rightarrow> acct_error + (int \<times> string) list" where
  "group_users [] = Inr []"
| "group_users ((i, v) # us) =
     (case v of
        JStr s \<Rightarrow> bindE (group_users us) (\<lambda>rest. Inr ((i, s) # rest))
      | _ \<Rightarrow> Inl AcctValidation)"

definition members_of :: "int \<Rightarrow> acct_db \<Rightarrow> int list" where
  "members_of group_id db = map snd (filter (\<lambda>m. fst m = group_id) (ad_members db))"

text \<open>\<open>_to_entity\<close> asks user-service for every member; the answer of a route is validated again.\<close>

definition group_entity :: "account_env \<Rightarrow> group_row \<Rightarrow> acct_db \<Rightarrow> acct_error + (group_row \<times> (int \<times> json) list)" where
  "group_entity env g db =
     bindE (get_users_by_ids env (members_of (gr_id g) db)) (\<lambda>us.
     bindE (guardE (gr_name g \<noteq> [] \<and> 1 \<le> gr_max_users g) (AcctPyError ValueError)) (\<lambda>_. Inr (g, us)))"

definition group_to_dto :: "group_row \<times> (int \<times> json) list \<Rightarrow> acct_error + group_dto" where
  "group_to_dto e =
     bindE (of_option AcctValidation (group_base (gr_name (fst e)) (gr_max_users (fst e)) [])) (\<lambda>(n, k, _).
     bindE (group_users (snd e)) (\<lambda>users.
     Inr \<lparr>go_id = gr_id (fst e), go_name = n, go_max_users = k, go_users = users\<rparr>))"

definition group_answer :: "account_env \<Rightarrow> group_row \<Rightarrow> acct_db \<Rightarrow> acct_error + group_dto" where
  "group_answer env g db = bindE (group_entity env g db) group_to_dto"

definition group_row_of :: "int \<Rightarrow> acct_db \<Rightarrow> group_row option" where
  "group_row_of group_id db = List.find (\<lambda>g. gr_id g = group_id) (ad_groups db)"

definition get_group :: "account_env \<Rightarrow> int \<Rightarrow> acct_db \<Rightarrow> acct_error + group_dto option" where
  "get_group env group_id db =
     (case group_row_of group_id db of
        None \<Rightarrow> Inr None
      | Some g \<Rightarrow> bindE (group_answer env g db) (\<lambda>d. Inr (Some d)))"

fun group_answers :: "account_env \<Rightarrow> acct_db \<Rightarrow> group_row list \<Rightarrow> acct_error + group_dto list" where
  "group_answers env db [] = Inr []"
| "group_answers env db (g # gs) =
     bindE (group_answer env g db) (\<lambda>d. bindE (group_answers env db gs) (\<lambda>ds. Inr (d # ds)))"

definition list_groups :: "account_env \<Rightarrow> int \<Rightarrow> int \<Rightarrow> acct_db \<Rightarrow> acct_error + group_dto list" where
  "list_groups env skip limit db =
     bindE (guardE (0 \<le> skip \<and> 0 \<le> limit) AcctDataError) (\<lambda>_.
     group_answers env db (take (nat limit) (drop (nat skip) (ad_groups db))))"

text \<open>\<open>list(dict.fromkeys(user_ids))\<close>: the first occurrences, in order.\<close>

definition first_occurrences :: "int list \<Rightarrow> int list" where
  "first_occurrences is = rev (remdups (rev is))"

definition replace_users :: "int \<Rightarrow> int list \<Rightarrow> acct_db \<Rightarrow> acct_error + acct_db" where
  "replace_users group_id user_ids db =
     bindE (guardE (list_all (\<lambda>i. - int4_limit \<le> i \<and> i < int4_limit) user_ids) AcctDataError) (\<lambda>_.
     Inr (db\<lparr>ad_members := filter (\<lambda>m. fst m \<noteq> group_id) (ad_members db) @ map (Pair group_id) (first_occurrences user_ids)\<rparr>))"

definition check_group_users :: "account_env \<Rightarrow> int list \<Rightarrow> acct_error + unit" where
  "check_group_users env user_ids =
     bindE (get_users_by_ids env user_ids) (\<lambda>valid. guardE (length valid = length user_ids) InvalidUserInGroup)"

definition create_group ::
  "account_env \<Rightarrow> string \<Rightarrow> int \<Rightarrow> int list \<Rightarrow> acct_db \<Rightarrow> (acct_error + group_dto) \<times> acct_db" where
  "create_group env name max_users user_ids db =
     (case check_group_users env user_ids of
        Inl e \<Rightarrow> (Inl e, db)
      | Inr _ \<Rightarrow>
          (let g = \<lparr>gr_id = ad_next_group db, gr_name = name, gr_max_users = max_users\<rparr>;
               used = db\<lparr>ad_next_group := ad_next_group db + 1\<rparr>
           in case replace_users (gr_id g) user_ids (used\<lparr>ad_groups := ad_groups db @ [g]\<rparr>) of
                Inl e \<Rightarrow> (Inl e, used)
              | Inr db' \<Rightarrow> (group_answer env g db', db')))"

definition update_group ::
  "account_env \<Rightarrow> int \<Rightarrow> string \<Rightarrow> int \<Rightarrow> int list \<Rightarrow> acct_db \<Rightarrow> (acct_error + group_dto option) \<times> acct_db" where
  "update_group env group_id name max_users user_ids db =
     (case group_row_of group_id db of
        None \<Rightarrow> (Inr None, db)
      | Some existing \<Rightarrow>
          (case bindE (group_entity env existing db) (\<lambda>_. check_group_users env user_ids) of
             Inl e \<Rightarrow> (Inl e, db)
           | Inr _ \<Rightarrow>
               (let g = \<lparr>gr_id = group_id, gr_name = name, gr_max_users = max_users\<rparr>
                in case replace_users group_id user_ids
                          (db\<lparr>ad_groups := update_where (\<lambda>x. gr_id x = group_id) (\<lambda>_. g) (ad_groups db)\<rparr>) of
                     Inl e \<Rightarrow> (Inl e, db)
                   | Inr db' \<Rightarrow> (bindE (group_answer env g db') (\<lambda>d. Inr (Some d)), db'))))"

section \<open>The consumer of new users\<close>

text \<open>The texts of the other exceptions contain neither word.\<close>

definition mentions_unique :: "acct_error \<Rightarrow> bool" where
  "mentions_unique e =
     (case e of
        AcctIntegrity message \<Rightarrow> contains ''unique'' (lower message) \<or> contains ''duplicate'' (lower message)
      | _ \<Rightarrow> False)"

definition user_of_payload :: "dict \<Rightarrow> int option" where
  "user_of_payload payload = (case dget payload ''user_id'' of None \<Rightarrow> None | Some v \<Rightarrow> claim_int v)"

text \<open>The handler reads whether the user has an account, and opens one later: another delivery can come in between.\<close>

definition has_accounts :: "int \<Rightarrow> acct_db \<Rightarrow> acct_error + bool" where
  "has_accounts user_id db = bindE (account_get_all user_id db) (\<lambda>existing. Inr (existing \<noteq> []))"

definition open_default_account :: "account_env \<Rightarrow> int \<Rightarrow> acct_db \<Rightarrow> handler_result \<times> acct_db" where
  "open_default_account env user_id db =
     (case create_account env DEFAULT_ACCOUNT 0 1 user_id db of
        (Inr _, db') \<Rightarrow> (Handled, db')
      | (Inl e, db') \<Rightarrow> (if mentions_unique e then Handled else HandlerError, db'))"

definition user_created_handle :: "account_env \<Rightarrow> dict \<Rightarrow> acct_db \<Rightarrow> handler_result \<times> acct_db" where
  "user_created_handle env payload db =
     (case user_of_payload payload of
        None \<Rightarrow> (Poison, db)
      | Some user_id \<Rightarrow>
          (case has_accounts user_id db of
             Inl e \<Rightarrow> (HandlerError, db)
           | Inr existing \<Rightarrow> if existing then (Handled, db) else open_default_account env user_id db))"

section \<open>Routes\<close>

datatype acct_request =
    ListAccounts "string option"
  | GetAccount "string option" int
  | CreateAccount "string option" string rat int
  | UpdateAccount "string option" int string rat int
  | ListGroups "string option" int int
  | GetGroup "string option" int
  | CreateGroup "string option" string int "int list"
  | UpdateGroup "string option" int string int "int list"
  | AccountExists "string option" int
  | AccountOwner "string option" int

datatype acct_answer =
    AccountsAnswer "account_dto list"
  | AccountAnswer int account_dto
  | GroupsAnswer "group_dto list"
  | GroupAnswer int group_dto
  | ExistsAnswer bool
  | OwnerAnswer int string
  | AcctRefused int

definition acct_user ::
  "account_env \<Rightarrow> string option \<Rightarrow> acct_db \<Rightarrow> (int \<Rightarrow> acct_answer \<times> acct_db) \<Rightarrow> acct_answer \<times> acct_db" where
  "acct_user env authorization db f =
     (case get_current_user_id (av_jwt env) (av_secret env) (av_now env) authorization of
        None \<Rightarrow> (AcctRefused 401, db)
      | Some user_id \<Rightarrow> f user_id)"

text \<open>A missing header is refused by the validation, before the comparison.\<close>

definition verify_internal_key :: "string option \<Rightarrow> string option \<Rightarrow> int option" where
  "verify_internal_key configured given =
     (case given of
        None \<Rightarrow> Some 422
      | Some x \<Rightarrow>
          (case configured of
             None \<Rightarrow> Some 403
           | Some key \<Rightarrow> if key = [] then Some 403 else if x \<noteq> key then Some 403 else None))"

definition acct_result :: "('a \<Rightarrow> acct_answer) \<Rightarrow> acct_error + 'a \<Rightarrow> acct_answer" where
  "acct_result f r = (case r of Inl e \<Rightarrow> AcctRefused (if e = InvalidUserInGroup then 400 else 500) | Inr x \<Rightarrow> f x)"

fun create_status :: "acct_error \<Rightarrow> int" where
  "create_status (UserNotFoundForAccount _) = 400"
| "create_status UserServiceUnavailable = 503"
| "create_status _ = 500"

fun acct_http :: "account_env \<Rightarrow> acct_request \<Rightarrow> acct_db \<Rightarrow> acct_answer \<times> acct_db" where
  "acct_http env (ListAccounts authorization) db =
     acct_user env authorization db (\<lambda>user_id. (acct_result AccountsAnswer (list_accounts user_id db), db))"
| "acct_http env (GetAccount authorization account_id) db =
     acct_user env authorization db (\<lambda>user_id.
       (acct_result (\<lambda>found.
          case found of
            None \<Rightarrow> AcctRefused 404
          | Some d \<Rightarrow> if ao_user_id d \<noteq> user_id then AcctRefused 403 else AccountAnswer 200 d) (get_account account_id db), db))"
| "acct_http env (CreateAccount authorization name saldo start_day) db =
     acct_user env authorization db (\<lambda>user_id.
       (case account_base name saldo start_day of
          None \<Rightarrow> (AcctRefused 422, db)
        | Some (n, v, start) \<Rightarrow>
            (case create_account env n v start user_id db of
               (Inl e, db') \<Rightarrow> (AcctRefused (create_status e), db')
             | (Inr d, db') \<Rightarrow> (AccountAnswer 201 d, db'))))"
| "acct_http env (UpdateAccount authorization account_id name saldo start_day) db =
     acct_user env authorization db (\<lambda>user_id.
       (case account_base name saldo start_day of
          None \<Rightarrow> (AcctRefused 422, db)
        | Some (n, v, start) \<Rightarrow>
            (case get_account account_id db of
               Inl e \<Rightarrow> (AcctRefused 500, db)
             | Inr None \<Rightarrow> (AcctRefused 404, db)
             | Inr (Some existing) \<Rightarrow>
                 if ao_user_id existing \<noteq> user_id then (AcctRefused 403, db)
                 else
                   (case update_account env account_id n v start db of
                      (Inr (Some d), db') \<Rightarrow> (AccountAnswer 200 d, db')
                    | (_, db') \<Rightarrow> (AcctRefused 500, db')))))"
| "acct_http env (ListGroups authorization skip limit) db =
     acct_user env authorization db (\<lambda>_. (acct_result GroupsAnswer (list_groups env skip limit db), db))"
| "acct_http env (GetGroup authorization group_id) db =
     acct_user env authorization db (\<lambda>_.
       (acct_result (\<lambda>found. case found of None \<Rightarrow> AcctRefused 404 | Some d \<Rightarrow> GroupAnswer 200 d) (get_group env group_id db), db))"
| "acct_http env (CreateGroup authorization name max_users user_ids) db =
     acct_user env authorization db (\<lambda>_.
       (case group_base name max_users user_ids of
          None \<Rightarrow> (AcctRefused 422, db)
        | Some (n, k, is) \<Rightarrow>
            (let (r, db') = create_group env n k is db in (acct_result (GroupAnswer 201) r, db'))))"
| "acct_http env (UpdateGroup authorization group_id name max_users user_ids) db =
     acct_user env authorization db (\<lambda>_.
       (case group_base name max_users user_ids of
          None \<Rightarrow> (AcctRefused 422, db)
        | Some (n, k, is) \<Rightarrow>
            (let (r, db') = update_group env group_id n k is db
             in (acct_result (\<lambda>found. case found of None \<Rightarrow> AcctRefused 404 | Some d \<Rightarrow> GroupAnswer 200 d) r, db'))))"
| "acct_http env (AccountExists key account_id) db =
     (case verify_internal_key (av_internal_key env) key of
        Some status_code \<Rightarrow> (AcctRefused status_code, db)
      | None \<Rightarrow> (acct_result (\<lambda>found. ExistsAnswer (found \<noteq> None)) (account_get_by_id account_id db), db))"
| "acct_http env (AccountOwner key account_id) db =
     (case verify_internal_key (av_internal_key env) key of
        Some status_code \<Rightarrow> (AcctRefused status_code, db)
      | None \<Rightarrow>
          (acct_result (\<lambda>found.
             case found of None \<Rightarrow> AcctRefused 404 | Some a \<Rightarrow> OwnerAnswer (ac_user_id a) (ac_name a))
             (account_get_by_id account_id db), db))"

end
