(* ===== verification/AccountProofs.thy ===== *)
theory AccountProofs
  imports Accounts UserProofs BankClientProofs BankWorkers
begin

text \<open>
  account-service over any sequence of its requests and deliveries: the tables stay well formed, a new user gets one
  first account however often and concurrently the event is delivered, a user reaches only the own accounts, groups
  keep their bound, and the copy banking-service keeps follows the table.
\<close>

section \<open>The invariant\<close>

definition stored_name :: "string \<Rightarrow> bool" where
  "stored_name s \<longleftrightarrow> s \<noteq> [] \<and> length s \<le> 30 \<and> strip s = s"

definition account_valid :: "account_row \<Rightarrow> bool" where
  "account_valid r \<longleftrightarrow>
     stored_name (ac_name r) \<and> ac_user_id r \<noteq> 0 \<and> 1 \<le> ac_start_day r \<and> ac_start_day r \<le> 28 \<and> account_fits r"

definition one_default_per_user :: "account_row list \<Rightarrow> bool" where
  "one_default_per_user rows \<longleftrightarrow>
     (\<forall>x\<in>set rows. \<forall>y\<in>set rows.
        ac_user_id x = ac_user_id y \<and> ac_name x = DEFAULT_ACCOUNT \<and> ac_name y = DEFAULT_ACCOUNT \<longrightarrow> ac_id x = ac_id y)"

definition accounts_ok :: "acct_db \<Rightarrow> bool" where
  "accounts_ok db \<longleftrightarrow>
     distinct (map ac_id (ad_accounts db)) \<and> list_all (\<lambda>r. ac_id r < ad_next db) (ad_accounts db) \<and>
     list_all account_valid (ad_accounts db) \<and> one_default_per_user (ad_accounts db)"

lemma account_entity_valid: "account_valid r \<Longrightarrow> account_entity r = Inr r"
  by (cases r) (auto simp: account_entity_def account_valid_def stored_name_def guardE_def max_def min_def)

lemma account_entities_valid: "list_all account_valid rs \<Longrightarrow> account_entities rs = Inr rs"
  by (induction rs) (simp_all add: account_entity_valid)

lemma stored_name_default: "stored_name DEFAULT_ACCOUNT"
  by code_simp

lemma strip_strip_id: "strip (strip s) = strip s"
  by (rule strip_strip)

lemma length_strip: "length (strip s) \<le> length s"
  using length_dropWhile_le [of is_space s] length_dropWhile_le [of is_space "rev (dropWhile is_space s)"]
  by (simp add: strip_def)

lemma account_base_Some:
  "account_base name saldo start = Some (n, v, d) \<Longrightarrow> stored_name n \<and> 1 \<le> d \<and> d \<le> 28"
  using length_strip [of name]
  by (auto simp: account_base_def valid_name_def stored_name_def ACCOUNT_NAME_MAX_def strip_strip_id split: if_splits)

text \<open>What a write does to the tables and the outbox.\<close>

definition added :: "account_env \<Rightarrow> account_row \<Rightarrow> acct_db \<Rightarrow> acct_db \<Rightarrow> bool" where
  "added env r db db' \<longleftrightarrow>
     ac_id r = ad_next db \<and> account_valid r \<and> \<not> default_taken r db \<and> ad_accounts db' = ad_accounts db @ [r] \<and>
     ad_next db' = ad_next db + 1 \<and> map ob_payload (ad_outbox db') = map ob_payload (ad_outbox db) @ [account_payload env True r]"

definition replaced :: "account_env \<Rightarrow> account_row \<Rightarrow> acct_db \<Rightarrow> acct_db \<Rightarrow> bool" where
  "replaced env r db db' \<longleftrightarrow>
     (\<exists>old\<in>set (ad_accounts db). ac_id old = ac_id r) \<and>
     (\<forall>old\<in>set (ad_accounts db). ac_id old = ac_id r \<longrightarrow> ac_user_id old = ac_user_id r) \<and> account_valid r \<and> \<not> default_taken r db \<and>
     ad_accounts db' = update_where (\<lambda>x. ac_id x = ac_id r) (\<lambda>_. r) (ad_accounts db) \<and> ad_next db' = ad_next db \<and>
     map ob_payload (ad_outbox db') = map ob_payload (ad_outbox db) @ [account_payload env False r]"

definition untouched :: "acct_db \<Rightarrow> acct_db \<Rightarrow> bool" where
  "untouched db db' \<longleftrightarrow> ad_accounts db' = ad_accounts db \<and> ad_next db \<le> ad_next db' \<and> ad_outbox db' = ad_outbox db"

definition account_write :: "account_env \<Rightarrow> acct_db \<Rightarrow> acct_db \<Rightarrow> bool" where
  "account_write env db db' \<longleftrightarrow> untouched db db' \<or> (\<exists>r. added env r db db') \<or> (\<exists>r. replaced env r db db')"

lemma untouched_refl [simp]: "untouched db db"
  by (simp add: untouched_def)

lemma account_write_refl [simp]: "account_write env db db"
  by (simp add: account_write_def)

lemma account_payload_announce:
  "ad_accounts (account_announce env b r db) = ad_accounts db" "ad_next (account_announce env b r db) = ad_next db"
  "map ob_payload (ad_outbox (account_announce env b r db)) = map ob_payload (ad_outbox db) @ [account_payload env b r]"
  by (simp_all add: account_announce_def ob_add_def ob_build_def)

lemma create_account_cases:
  assumes "create_account env name saldo start u db = (r, db')" and "stored_name name" and "1 \<le> start" and "start \<le> 28"
  obtains (kept) e where "r = Inl e" "untouched db db'" "e = AcctIntegrity (default_violation u) \<Longrightarrow>
      \<exists>x\<in>set (ad_accounts db). ac_user_id x = u \<and> ac_name x = DEFAULT_ACCOUNT"
      "\<And>m. e = AcctIntegrity m \<Longrightarrow> m = default_violation u"
  | (added) a where "added env a db db'" "ac_user_id a = u" "ac_name a = name" "r = account_to_dto a"
proof -
  let ?a = "\<lparr>ac_id = 0, ac_name = name, ac_saldo = saldo_cents saldo, ac_user_id = u, ac_start_day = start\<rparr>"
  let ?r = "?a\<lparr>ac_id := ad_next db\<rparr>"
  show thesis
  proof (cases "user_exists env u = Inr True \<and> u \<noteq> 0")
    case False
    then have "\<exists>e. r = Inl e \<and> db' = db \<and> (\<forall>m. e \<noteq> AcctIntegrity m)"
      using assms(1)
      by (auto simp: create_account_def bindE_def guardE_def account_entity_def user_exists_def
          split: option.splits if_splits sum.splits)
    then show thesis by (auto intro: kept)
  next
    case True
    have e: "account_entity x = Inr x" if "x = ?a \<or> x = ?r" for x
      using that assms(2-4) True by (auto simp: account_entity_def stored_name_def guardE_def max_def min_def)
    have v: "account_valid ?r \<longleftrightarrow> account_fits ?r"
      using assms(2-4) True by (simp add: account_valid_def)
    have start: "bindE (user_exists env u) (\<lambda>exists. bindE (guardE exists (UserNotFoundForAccount u)) (\<lambda>_. account_entity ?a)) = Inr ?a"
      using True e by (simp add: guardE_def)
    note created = assms(1) [unfolded create_account_def start sum.case]
    show thesis
    proof (cases "account_fits ?r \<and> \<not> default_taken ?r db")
      case fine: True
      have ins: "account_insert ?a db = (Inr ?r, db\<lparr>ad_next := ad_next db + 1, ad_accounts := ad_accounts db @ [?r]\<rparr>)"
        using fine e [of ?r] unfolding account_insert_def Let_def by simp
      show thesis
        by (rule added [of ?r])
          (use created fine v in \<open>auto simp: ins added_def account_payload_announce\<close>)
    next
      case refused: False
      then have "\<exists>e. account_insert ?a db = (Inl e, db\<lparr>ad_next := ad_next db + 1\<rparr>) \<and>
        (e = AcctDataError \<or> e = AcctIntegrity (default_violation u) \<and> default_taken ?r db)"
        unfolding account_insert_def Let_def by auto
      then show thesis using created by (auto intro!: kept simp: untouched_def default_taken_def)
    qed
  qed
qed

lemma accounts_ok_find:
  "accounts_ok db \<Longrightarrow> List.find (\<lambda>r. ac_id r = i) (ad_accounts db) = Some r \<Longrightarrow>
   r \<in> set (ad_accounts db) \<and> ac_id r = i \<and> account_valid r"
  by (auto simp: accounts_ok_def list_all_iff dest: find_Some_mem)

lemma account_get_ok:
  "accounts_ok db \<Longrightarrow> account_get_by_id i db = Inr (List.find (\<lambda>r. ac_id r = i) (ad_accounts db))"
  by (auto simp: account_get_by_id_def account_entity_valid dest: accounts_ok_find split: option.splits)

lemma account_all_ok:
  "accounts_ok db \<Longrightarrow> account_get_all u db = Inr (filter (\<lambda>r. ac_user_id r = u) (ad_accounts db))"
  unfolding account_get_all_def by (rule account_entities_valid) (auto simp: accounts_ok_def list_all_iff)

lemma account_put_cases:
  assumes "accounts_ok db" and "stored_name (ac_name a)" and "1 \<le> ac_start_day a" and "ac_start_day a \<le> 28"
    and "account_put a db = Inr (r, db')"
  shows "r \<in> {x. ac_id x = ac_id a} \<and> account_valid r \<and> \<not> default_taken r db \<and>
    (\<exists>old\<in>set (ad_accounts db). ac_id old = ac_id r) \<and>
    (\<forall>old\<in>set (ad_accounts db). ac_id old = ac_id r \<longrightarrow> ac_user_id old = ac_user_id r) \<and>
    db' = db\<lparr>ad_accounts := update_where (\<lambda>x. ac_id x = ac_id a) (\<lambda>_. r) (ad_accounts db)\<rparr>"
proof -
  obtain old where old: "List.find (\<lambda>r. ac_id r = ac_id a) (ad_accounts db) = Some old"
    using assms(5) by (auto simp: account_put_def split: option.splits)
  let ?r = "old\<lparr>ac_name := ac_name a, ac_saldo := ac_saldo a, ac_start_day := ac_start_day a\<rparr>"
  note o = accounts_ok_find [OF assms(1) old]
  have fits: "account_fits ?r" "\<not> default_taken ?r db"
    using assms(5) by (auto simp: account_put_def old Let_def bindE_eq_Inr)
  have valid: "account_valid ?r" using o fits(1) assms(2-4) by (simp add: account_valid_def)
  have req: "r = ?r" and db': "db' = db\<lparr>ad_accounts := update_where (\<lambda>x. ac_id x = ac_id a) (\<lambda>_. ?r) (ad_accounts db)\<rparr>"
    using assms(5) account_entity_valid [OF valid] by (auto simp: account_put_def old Let_def bindE_eq_Inr)
  have same: "ac_user_id x = ac_user_id old" if "x \<in> set (ad_accounts db)" "ac_id x = ac_id a" for x
    using assms(1) that o unfolding accounts_ok_def distinct_map inj_on_def by metis
  have ids: "ac_id r = ac_id a" unfolding req using o by simp
  have "account_valid r" "\<not> default_taken r db" unfolding req by (fact valid, fact fits(2))
  moreover have "\<exists>old\<in>set (ad_accounts db). ac_id old = ac_id r" using o ids by auto
  moreover have "\<forall>x\<in>set (ad_accounts db). ac_id x = ac_id r \<longrightarrow> ac_user_id x = ac_user_id r"
    using same ids by (simp add: req)
  moreover have "db' = db\<lparr>ad_accounts := update_where (\<lambda>x. ac_id x = ac_id a) (\<lambda>_. r) (ad_accounts db)\<rparr>"
    unfolding req by (rule db')
  ultimately show ?thesis using ids by blast
qed

lemma update_account_cases:
  assumes "accounts_ok db" and "stored_name name" and "1 \<le> start" and "start \<le> 28"
    and "update_account env i name saldo start db = (r, db')"
  shows "db' = db \<and> (\<forall>d. r \<noteq> Inr (Some d)) \<or>
    (\<exists>a. replaced env a db db' \<and> ac_id a = i \<and> r = bindE (account_to_dto a) (\<lambda>d. Inr (Some d)))"
proof (cases "List.find (\<lambda>r. ac_id r = i) (ad_accounts db)")
  case None
  then show ?thesis using assms(5) by (auto simp: update_account_def account_get_ok [OF assms(1)])
next
  case (Some existing)
  let ?a = "\<lparr>ac_id = i, ac_name = name, ac_saldo = saldo_cents saldo, ac_user_id = ac_user_id existing, ac_start_day = start\<rparr>"
  have e: "account_entity ?a = Inr ?a"
    using assms(2-4) accounts_ok_find [OF assms(1) Some]
    by (auto simp: account_entity_def account_valid_def stored_name_def guardE_def max_def min_def)
  show ?thesis
  proof (cases "account_put ?a db")
    case (Inl x)
    then show ?thesis using assms(5) by (auto simp: update_account_def account_get_ok [OF assms(1)] Some e)
  next
    case (Inr x)
    obtain q db1 where x: "x = (q, db1)" by (cases x)
    have put: "ac_id q = i" "account_valid q" "\<not> default_taken q db"
      "\<exists>old\<in>set (ad_accounts db). ac_id old = ac_id q"
      "\<forall>old\<in>set (ad_accounts db). ac_id old = ac_id q \<longrightarrow> ac_user_id old = ac_user_id q"
      "db1 = db\<lparr>ad_accounts := update_where (\<lambda>x. ac_id x = i) (\<lambda>_. q) (ad_accounts db)\<rparr>"
      using account_put_cases [OF assms(1) _ _ _ Inr [unfolded x]] assms(2-4) by auto
    have "db' = account_announce env False q db1" and r: "r = bindE (account_to_dto q) (\<lambda>d. Inr (Some d))"
      using assms(5) by (auto simp: update_account_def account_get_ok [OF assms(1)] Some e Inr x)
    then have "replaced env q db db'" using put by (auto simp: replaced_def account_payload_announce)
    then show ?thesis using put(1) r by blast
  qed
qed

lemma replace_users_frame:
  "replace_users g us db = Inr db' \<Longrightarrow> ad_accounts db' = ad_accounts db \<and> ad_next db' = ad_next db \<and> ad_outbox db' = ad_outbox db"
  by (auto simp: replace_users_def bindE_eq_Inr)

lemma group_writes_untouched:
  "create_group env name k us db = (r, db') \<Longrightarrow> untouched db db'"
  "update_group env g name k us db = (r', db') \<Longrightarrow> untouched db db'"
  by (auto simp: create_group_def update_group_def untouched_def Let_def dest!: replace_users_frame
      split: sum.splits option.splits)

lemma acct_user_cases:
  assumes "acct_user env authorization db f = (a, db')"
  obtains (refused) "db' = db" "a = AcctRefused 401"
      "get_current_user_id (av_jwt env) (av_secret env) (av_now env) authorization = None"
  | (known) u where "get_current_user_id (av_jwt env) (av_secret env) (av_now env) authorization = Some u" "f u = (a, db')"
  using assms by (auto simp: acct_user_def split: option.splits)

lemma open_default_write:
  "open_default_account env u db = (h, db') \<Longrightarrow> account_write env db db'"
proof -
  assume o: "open_default_account env u db = (h, db')"
  obtain r db1 where c: "create_account env DEFAULT_ACCOUNT 0 1 u db = (r, db1)" by fastforce
  have "db' = db1" using o c by (auto simp: open_default_account_def split: sum.splits)
  moreover have "account_write env db db1"
    using c stored_name_default by (cases rule: create_account_cases) (auto simp: account_write_def)
  ultimately show ?thesis by simp
qed

lemma acct_http_write:
  assumes ok: "accounts_ok db" and http: "acct_http env q db = (a, db')"
  shows "account_write env db db'"
proof -
  have same: "account_write env db db" by (simp add: account_write_def)
  show ?thesis
  proof (cases q)
    case (CreateAccount authorization name saldo start)
    note h = http [unfolded CreateAccount acct_http.simps]
    show ?thesis
      using h
    proof (cases rule: acct_user_cases)
      case (known u)
      show ?thesis
      proof (cases "account_base name saldo start")
        case (Some b)
        obtain n v d where b: "b = (n, v, d)" by (cases b)
        obtain r db1 where c: "create_account env n v d u db = (r, db1)" by fastforce
        have "db' = db1" using known(2) Some b c by (auto split: sum.splits)
        moreover have "stored_name n" "1 \<le> d" "d \<le> 28" using account_base_Some [OF Some [unfolded b]] by auto
        with c have "account_write env db db1"
          by (cases rule: create_account_cases) (auto simp: account_write_def)
        ultimately show ?thesis by simp
      qed (use known(2) same in auto)
    qed (use same in simp)
  next
    case (UpdateAccount authorization i name saldo start)
    note h = http [unfolded UpdateAccount acct_http.simps]
    show ?thesis
      using h
    proof (cases rule: acct_user_cases)
      case (known u)
      show ?thesis
      proof (cases "account_base name saldo start")
        case (Some b)
        obtain n v d where b: "b = (n, v, d)" by (cases b)
        obtain r db1 where c: "update_account env i n v d db = (r, db1)" by fastforce
        have "db' = db \<or> db' = db1" using known(2) Some b c by (auto split: sum.splits option.splits if_splits)
        moreover have "db1 = db \<or> (\<exists>a. replaced env a db db1 \<and> ac_id a = i)"
          using update_account_cases [OF ok _ _ _ c] account_base_Some [OF Some [unfolded b]] by blast
        ultimately show ?thesis using same by (auto simp: account_write_def)
      qed (use known(2) same in auto)
    qed (use same in simp)
  qed (use http same in \<open>auto simp: acct_user_def account_write_def dest: group_writes_untouched
      split: option.splits prod.splits\<close>)
qed

lemma one_default_with:
  assumes "one_default_per_user (ad_accounts db)" and "\<not> default_taken r db"
    and "set rows \<subseteq> insert r (set (ad_accounts db))"
  shows "one_default_per_user rows"
proof -
  have "ac_id x = ac_id y"
    if xy: "x \<in> set rows" "y \<in> set rows" "ac_user_id x = ac_user_id y" "ac_name x = DEFAULT_ACCOUNT" "ac_name y = DEFAULT_ACCOUNT" for x y
  proof -
    have free: "ac_id z = ac_id r"
      if "z \<in> set (ad_accounts db)" "ac_user_id z = ac_user_id r" "ac_name z = DEFAULT_ACCOUNT" "ac_name r = DEFAULT_ACCOUNT" for z
      using assms(2) that unfolding default_taken_def by blast
    consider "x = r" | "y = r" | "x \<in> set (ad_accounts db)" "y \<in> set (ad_accounts db)" using xy(1, 2) assms(3) by blast
    then show ?thesis
    proof cases
      case 1
      then show ?thesis using xy free [of y] assms(3) by auto
    next
      case 2
      then show ?thesis using xy free [of x] assms(3) by auto
    next
      case 3
      then show ?thesis using assms(1) xy unfolding one_default_per_user_def by blast
    qed
  qed
  then show ?thesis unfolding one_default_per_user_def by blast
qed

lemma set_update_where_const: "set (update_where P (\<lambda>_. r) rows) \<subseteq> insert r (set rows)"
  by (auto simp: set_update_where)

lemma account_write_ok:
  assumes "accounts_ok db" and "account_write env db db'"
  shows "accounts_ok db'"
  using assms(2) unfolding account_write_def
proof (elim disjE exE)
  assume "untouched db db'"
  then show ?thesis using assms(1) by (auto simp: untouched_def accounts_ok_def list_all_iff)
next
  fix r assume r: "added env r db db'"
  then have "one_default_per_user (ad_accounts db @ [r])"
    using assms(1) one_default_with [of db r] by (auto simp: added_def accounts_ok_def)
  then show ?thesis using assms(1) r by (auto simp: added_def accounts_ok_def list_all_iff)
next
  fix r assume r: "replaced env r db db'"
  then have "one_default_per_user (update_where (\<lambda>x. ac_id x = ac_id r) (\<lambda>_. r) (ad_accounts db))"
    using assms(1) one_default_with [of db r, OF _ _ set_update_where_const] by (auto simp: replaced_def accounts_ok_def)
  moreover have "map ac_id (update_where (\<lambda>x. ac_id x = ac_id r) (\<lambda>_. r) (ad_accounts db)) = map ac_id (ad_accounts db)"
    by (auto simp: update_where_def)
  ultimately show ?thesis using assms(1) r by (auto simp: replaced_def accounts_ok_def list_all_iff set_update_where)
qed

section \<open>The first account\<close>

text \<open>
  Requests and deliveries in any order.  \<open>OpenDefault\<close> is the second half of a delivery that saw an older state, so
  overlapping deliveries of one event are sequences of these steps.
\<close>

datatype acct_op = AcctRequest acct_request | UserCreated dict | OpenDefault int

fun acct_apply :: "account_env \<Rightarrow> acct_op \<Rightarrow> acct_db \<Rightarrow> acct_db" where
  "acct_apply env (AcctRequest q) db = snd (acct_http env q db)"
| "acct_apply env (UserCreated payload) db = snd (user_created_handle env payload db)"
| "acct_apply env (OpenDefault user_id) db = snd (open_default_account env user_id db)"

fun run_acct_ops :: "(account_env \<times> acct_op) list \<Rightarrow> acct_db \<Rightarrow> acct_db" where
  "run_acct_ops [] db = db"
| "run_acct_ops ((env, op) # ops) db = run_acct_ops ops (acct_apply env op db)"

definition empty_acct_db :: acct_db where
  "empty_acct_db =
     \<lparr>ad_accounts = [], ad_next = 1, ad_groups = [], ad_next_group = 1, ad_members = [], ad_outbox = []\<rparr>"

lemma accounts_ok_empty [simp]: "accounts_ok empty_acct_db"
  by (simp add: accounts_ok_def empty_acct_db_def one_default_per_user_def)

lemma has_accounts_ok:
  "accounts_ok db \<Longrightarrow> has_accounts u db = Inr (\<exists>r\<in>set (ad_accounts db). ac_user_id r = u)"
  by (auto simp: has_accounts_def account_all_ok filter_empty_conv)

lemma acct_apply_write:
  assumes "accounts_ok db"
  shows "account_write env db (acct_apply env op db)"
proof (cases op)
  case (AcctRequest q)
  then show ?thesis using acct_http_write [OF assms] by (metis acct_apply.simps(1) prod.collapse)
next
  case (UserCreated payload)
  obtain h db' where h: "user_created_handle env payload db = (h, db')" by fastforce
  then have "db' = db \<or> (\<exists>u h'. open_default_account env u db = (h', db'))"
    by (auto simp: user_created_handle_def split: option.splits sum.splits if_splits)
  then show ?thesis using UserCreated h by (auto intro: open_default_write)
next
  case (OpenDefault u)
  then show ?thesis using open_default_write by (metis acct_apply.simps(3) prod.collapse)
qed

lemma run_acct_ops_ok: "accounts_ok db \<Longrightarrow> accounts_ok (run_acct_ops ops db)"
  by (induction ops db rule: run_acct_ops.induct) (auto intro: account_write_ok acct_apply_write)

definition has_account :: "int \<Rightarrow> acct_db \<Rightarrow> bool" where
  "has_account u db \<longleftrightarrow> (\<exists>r\<in>set (ad_accounts db). ac_user_id r = u)"

lemma account_write_keeps:
  assumes "account_write env db db'" and "has_account u db"
  shows "has_account u db'"
  using assms(1) unfolding account_write_def
proof (elim disjE exE)
  fix r assume r: "replaced env r db db'"
  obtain x where x: "x \<in> set (ad_accounts db)" "ac_user_id x = u" using assms(2) by (auto simp: has_account_def)
  have "(if ac_id x = ac_id r then r else x) \<in> set (ad_accounts db')" using r x by (auto simp: replaced_def set_update_where)
  moreover have "ac_user_id (if ac_id x = ac_id r then r else x) = u" using r x by (auto simp: replaced_def)
  ultimately show ?thesis unfolding has_account_def by blast
qed (use assms(2) in \<open>auto simp: untouched_def added_def has_account_def\<close>)

lemma run_acct_ops_keeps: "accounts_ok db \<Longrightarrow> has_account u db \<Longrightarrow> has_account u (run_acct_ops ops db)"
  by (induction ops db rule: run_acct_ops.induct)
    (auto intro: account_write_ok acct_apply_write account_write_keeps)

lemma open_default_handled:
  assumes "open_default_account env u db = (Handled, db')"
  shows "has_account u db'"
proof -
  obtain r db1 where c: "create_account env DEFAULT_ACCOUNT 0 1 u db = (r, db1)" by fastforce
  have db1: "db' = db1" using assms c by (auto simp: open_default_account_def split: sum.splits)
  have "(1::int) \<le> 1" "(1::int) \<le> 28" by simp_all
  with c stored_name_default show ?thesis
  proof (cases rule: create_account_cases)
    case (kept e)
    then have "mentions_unique e" using assms c by (auto simp: open_default_account_def split: if_splits)
    then obtain m where "e = AcctIntegrity m" by (cases e) (auto simp: mentions_unique_def)
    then show ?thesis using kept db1 by (auto simp: has_account_def untouched_def)
  next
    case (added a)
    then show ?thesis using db1 by (auto simp: has_account_def added_def)
  qed
qed

lemma length_one_key:
  assumes "distinct (map f xs)" and "\<And>x y. x \<in> set xs \<Longrightarrow> y \<in> set xs \<Longrightarrow> f x = f y"
  shows "length xs \<le> 1"
proof (rule ccontr)
  assume "\<not> length xs \<le> 1"
  then obtain x y zs where "xs = x # y # zs" by (cases xs; cases "tl xs") auto
  then show False using assms(1) assms(2) [of x y] by simp
qed

lemma one_default_length:
  assumes "accounts_ok db"
  shows "length (filter (\<lambda>r. ac_user_id r = u \<and> ac_name r = DEFAULT_ACCOUNT) (ad_accounts db)) \<le> 1"
proof -
  let ?d = "filter (\<lambda>r. ac_user_id r = u \<and> ac_name r = DEFAULT_ACCOUNT) (ad_accounts db)"
  have "distinct (map ac_id ?d)" using assms by (simp add: accounts_ok_def distinct_map_filter)
  moreover have "ac_id x = ac_id y" if "x \<in> set ?d" "y \<in> set ?d" for x y
  proof -
    have "one_default_per_user (ad_accounts db)" using assms by (simp add: accounts_ok_def)
    then show ?thesis using that unfolding one_default_per_user_def by simp
  qed
  ultimately show ?thesis by (rule length_one_key)
qed

text \<open>
  C38. A new user has an account as soon as one delivery of the registration was handled, and keeps one; however often
  and concurrently the event is delivered again, beside any requests, no user ever has two default accounts, and a
  later delivery changes nothing.
\<close>

theorem first_account_once:
  assumes "db = run_acct_ops ops empty_acct_db" and "user_of_payload payload = Some u"
    and "user_created_handle env payload db = (Handled, db1)" and "db2 = run_acct_ops later db1"
  shows "(\<exists>r\<in>set (ad_accounts db2). ac_user_id r = u) \<and>
    (\<forall>v. length (filter (\<lambda>r. ac_user_id r = v \<and> ac_name r = DEFAULT_ACCOUNT) (ad_accounts db2)) \<le> 1) \<and>
    user_created_handle env2 payload db2 = (Handled, db2)"
proof -
  have ok: "accounts_ok db" using assms(1) run_acct_ops_ok by simp
  have ok1: "accounts_ok db1"
    using account_write_ok [OF ok acct_apply_write [OF ok, of env "UserCreated payload"]] assms(3) by simp
  have "has_account u db1"
    using assms(2, 3) ok open_default_handled [of env u db db1]
    by (auto simp: user_created_handle_def has_accounts_ok has_account_def split: if_splits)
  then have has: "has_account u db2" using run_acct_ops_keeps [OF ok1] assms(4) by simp
  have ok2: "accounts_ok db2" using run_acct_ops_ok [OF ok1] assms(4) by simp
  show ?thesis
    using has one_default_length [OF ok2] assms(2)
    by (simp add: has_account_def user_created_handle_def has_accounts_ok [OF ok2])
qed

section \<open>From the registration to the first account\<close>

text \<open>user-service as account-service reaches it, and the event of a registration as it is on the wire.\<close>

definition user_port :: "user_env \<Rightarrow> string option \<Rightarrow> user_db \<Rightarrow> int \<Rightarrow> (int \<times> dict) option" where
  "user_port uenv key udb user_id =
     (case fst (user_http uenv (LookupRequest key user_id) udb) of
        UserAnswer status_code d \<Rightarrow>
          Some (status_code, [(''id'', JInt (uo_id d)), (''username'', JStr (uo_username d)), (''email'', JStr (uo_email d))])
      | ErrorAnswer status_code \<Rightarrow> Some (status_code, [])
      | _ \<Rightarrow> None)"

definition user_event_body :: "string \<Rightarrow> string \<Rightarrow> user_event \<Rightarrow> dict" where
  "user_event_body correlation_id timestamp e =
     [(''event_type'', JStr ''user.created''), (''event_version'', JInt 1), (''correlation_id'', JStr correlation_id),
      (''timestamp'', JStr timestamp), (''user_id'', JInt (ue_user_id e)), (''email'', JStr (ue_email e)),
      (''username'', JStr (ue_username e))]"

definition internal_key_ok :: "string \<Rightarrow> bool" where
  "internal_key_ok key \<longleftrightarrow> key \<noteq> [] \<and> list_all (\<lambda>c. (of_char c :: nat) < 128) key"

lemma user_port_registered:
  assumes "users_ok udb" and "uv_internal_key uenv = Some key" and "internal_key_ok key" and "u \<in> set (ud_users udb)"
  shows "\<exists>d. user_port uenv (Some key) udb (ur_id u) = Some (200, d)"
proof -
  have "List.find (\<lambda>r. ur_id r = ur_id u) (ud_users udb) \<noteq> None" using assms(4) by (auto simp: find_None_all)
  then obtain r where "find_user_by_id (ur_id u) udb = Inr (Some r)"
    using assms(1) by (auto simp: find_user_by_id_def find_user_distinct users_ok_def)
  moreover have "require_internal_api_key (Some key) (Some key) = None"
    using assms(3) by (auto simp: require_internal_api_key_def internal_key_ok_def list_all_iff list_ex_iff not_le)
  ultimately show ?thesis using assms(2) by (simp add: user_port_def get_user_def answer_with_def of_option_def)
qed

lemma open_default_succeeds:
  assumes "user_exists env u = Inr True" and "0 < u" and "u < int4_limit"
  shows "fst (open_default_account env u db) = Handled"
proof -
  have zero: "saldo_cents 0 = 0" "saldo_float 0 = 0" "round2 0 = 0"
    by code_simp+
  have nm: "valid_name DEFAULT_ACCOUNT = Some DEFAULT_ACCOUNT" "length DEFAULT_ACCOUNT \<le> 45" "DEFAULT_ACCOUNT \<noteq> []"
    by code_simp+
  let ?a = "\<lparr>ac_id = 0, ac_name = DEFAULT_ACCOUNT, ac_saldo = 0, ac_user_id = u, ac_start_day = 1\<rparr>"
  have e: "account_entity (?a\<lparr>ac_id := i\<rparr>) = Inr (?a\<lparr>ac_id := i\<rparr>)" for i
    using assms(2) nm(3) by (simp add: account_entity_def guardE_def)
  have fits: "account_fits (?a\<lparr>ac_id := i\<rparr>)" for i
    using assms(2, 3) nm(2) by (simp add: account_fits_def saldo_limit_def int4_limit_def)
  have dto: "\<exists>d. account_to_dto (?a\<lparr>ac_id := i\<rparr>) = Inr d" for i
    by (simp add: account_to_dto_def account_base_def nm(1) zero)
  have unique: "mentions_unique (AcctIntegrity (default_violation u))"
  proof -
    have "contains ''unique'' (lower (default_violation u))"
      unfolding contains_iff default_violation_def unique_violation_def
      by (rule exI [of _ "''duplicate key value violates ''"], rule exI, simp add: lower_char_def)
    then show ?thesis by (simp add: mentions_unique_def)
  qed
  show ?thesis
    using e [of 0] e [of "ad_next db"] fits [of "ad_next db"] dto [of "ad_next db"] unique
    by (auto simp: open_default_account_def create_account_def assms(1) zero guardE_def account_insert_def Let_def)
qed


section \<open>Whose accounts\<close>

text \<open>The user a request acts for, and the accounts an answer shows; the internal routes give no account away.\<close>

fun authorization_of :: "acct_request \<Rightarrow> string option" where
  "authorization_of (ListAccounts h) = h"
| "authorization_of (GetAccount h _) = h"
| "authorization_of (CreateAccount h _ _ _) = h"
| "authorization_of (UpdateAccount h _ _ _ _) = h"
| "authorization_of (ListGroups h _ _) = h"
| "authorization_of (GetGroup h _) = h"
| "authorization_of (CreateGroup h _ _ _) = h"
| "authorization_of (UpdateGroup h _ _ _ _) = h"
| "authorization_of _ = None"

definition request_user :: "account_env \<Rightarrow> acct_request \<Rightarrow> int option" where
  "request_user env q = get_current_user_id (av_jwt env) (av_secret env) (av_now env) (authorization_of q)"

fun answer_accounts :: "acct_answer \<Rightarrow> account_dto list" where
  "answer_accounts (AccountsAnswer ds) = ds"
| "answer_accounts (AccountAnswer _ d) = [d]"
| "answer_accounts _ = []"

lemma account_to_dto_user: "account_to_dto a = Inr d \<Longrightarrow> ao_user_id d = ac_user_id a"
  by (auto simp: account_to_dto_def split: option.splits prod.splits)

lemma accounts_to_dtos_user:
  "accounts_to_dtos as = Inr ds \<Longrightarrow> list_all (\<lambda>a. ac_user_id a = u) as \<Longrightarrow> list_all (\<lambda>d. ao_user_id d = u) ds"
  by (induction as arbitrary: ds) (auto simp: bindE_eq_Inr account_to_dto_user)

lemma own_accounts_user:
  "accounts_to_dtos (filter (\<lambda>r. ac_user_id r = u) rows) = Inr ds \<Longrightarrow> list_all (\<lambda>d. ao_user_id d = u) ds"
  by (rule accounts_to_dtos_user) (auto simp: list_all_iff)

lemma filter_replaced:
  assumes "replaced env r db db'" and "ac_user_id r = u"
  shows "filter (\<lambda>x. ac_user_id x \<noteq> u) (ad_accounts db') = filter (\<lambda>x. ac_user_id x \<noteq> u) (ad_accounts db)"
proof -
  have "filter (\<lambda>x. ac_user_id x \<noteq> u) (update_where (\<lambda>x. ac_id x = ac_id r) (\<lambda>_. r) rows) =
      filter (\<lambda>x. ac_user_id x \<noteq> u) rows"
    if "\<forall>x\<in>set rows. ac_id x = ac_id r \<longrightarrow> ac_user_id x = u" for rows
    using that assms(2) by (induction rows) auto
  then show ?thesis using assms by (simp add: replaced_def)
qed

definition only_own :: "int \<Rightarrow> acct_db \<Rightarrow> acct_answer \<Rightarrow> acct_db \<Rightarrow> bool" where
  "only_own u db a db' \<longleftrightarrow>
     filter (\<lambda>r. ac_user_id r \<noteq> u) (ad_accounts db') = filter (\<lambda>r. ac_user_id r \<noteq> u) (ad_accounts db) \<and>
     list_all (\<lambda>d. ao_user_id d = u) (answer_accounts a)"

lemma create_request_own:
  assumes "request_user env q = Some u" and "q = CreateAccount h name saldo start" and "acct_http env q db = (a, db')"
  shows "only_own u db a db'"
proof (cases "account_base name saldo start")
  case (Some b)
  obtain n v d where b: "b = (n, v, d)" by (cases b)
  obtain r db1 where c: "create_account env n v d u db = (r, db1)" by fastforce
  have http: "db' = db1" "a = (case r of Inl e \<Rightarrow> AcctRefused (create_status e) | Inr x \<Rightarrow> AccountAnswer 201 x)"
    using assms Some b c by (auto simp: request_user_def acct_user_def split: sum.splits)
  have "stored_name n" "1 \<le> d" "d \<le> 28" using account_base_Some [OF Some [unfolded b]] by auto
  with c show ?thesis
    by (cases rule: create_account_cases)
      (use http in \<open>auto simp: only_own_def untouched_def added_def dest: account_to_dto_user split: sum.splits\<close>)
qed (use assms in \<open>auto simp: only_own_def request_user_def acct_user_def\<close>)

lemma get_account_own:
  assumes "accounts_ok db" and "get_account i db = Inr (Some x)"
  shows "\<exists>e\<in>set (ad_accounts db). ac_id e = i \<and> ac_user_id e = ao_user_id x"
  using assms(2) by (auto simp: get_account_def account_get_ok [OF assms(1)] bindE_eq_Inr account_to_dto_user
      split: option.splits dest!: find_Some_mem)

lemma update_request_own:
  assumes ok: "accounts_ok db" and user: "request_user env q = Some u" and q: "q = UpdateAccount h i name saldo start"
    and http: "acct_http env q db = (a, db')"
  shows "only_own u db a db'"
proof (cases "\<exists>b x. account_base name saldo start = Some b \<and> get_account i db = Inr (Some x) \<and> ao_user_id x = u")
  case True
  then obtain n v d x where b: "account_base name saldo start = Some (n, v, d)"
    and x: "get_account i db = Inr (Some x)" "ao_user_id x = u" by (metis prod_cases3)
  obtain r db1 where c: "update_account env i n v d db = (r, db1)" by fastforce
  have res: "db' = db1" "a = (case r of Inr (Some y) \<Rightarrow> AccountAnswer 200 y | _ \<Rightarrow> AcctRefused 500)"
    using user q http b x c by (auto simp: request_user_def acct_user_def split: sum.splits option.splits)
  have "stored_name n" "1 \<le> d" "d \<le> 28" using account_base_Some [OF b] by auto
  from update_account_cases [OF ok this c] show ?thesis
  proof (elim disjE exE conjE)
    fix k assume k: "replaced env k db db1" "ac_id k = i" "r = bindE (account_to_dto k) (\<lambda>d. Inr (Some d))"
    have "ac_user_id k = u" using k get_account_own [OF ok x(1)] x(2) by (auto simp: replaced_def)
    then show ?thesis
      using res k filter_replaced [OF k(1)]
      by (cases "account_to_dto k") (auto simp: only_own_def dest: account_to_dto_user)
  qed (use res in \<open>auto simp: only_own_def split: sum.splits option.splits\<close>)
qed (use user q http in \<open>auto simp: only_own_def request_user_def acct_user_def split: option.splits sum.splits if_splits\<close>)

lemma other_requests_own:
  assumes ok: "accounts_ok db" and user: "request_user env q = Some u" and http: "acct_http env q db = (a, db')"
    and "\<And>h n v d. q \<noteq> CreateAccount h n v d" and "\<And>h i n v d. q \<noteq> UpdateAccount h i n v d"
  shows "only_own u db a db'"
proof (cases q)
  case (ListAccounts h)
  then show ?thesis
    using user http by (auto simp: only_own_def request_user_def acct_user_def acct_result_def list_accounts_def account_all_ok [OF ok]
        split: option.splits sum.splits dest: own_accounts_user)
next
  case (GetAccount h i)
  then show ?thesis
    using user http by (auto simp: only_own_def request_user_def acct_user_def acct_result_def split: option.splits sum.splits if_splits)
qed (use assms in \<open>auto simp: only_own_def request_user_def acct_user_def acct_result_def untouched_def
    get_current_user_id_def dest: group_writes_untouched split: option.splits prod.splits sum.splits\<close>)

lemma unsigned_request:
  "request_user env q = None \<Longrightarrow> acct_http env q db = (a, db') \<Longrightarrow> db' = db \<and> answer_accounts a = []"
  by (cases q) (auto simp: request_user_def acct_user_def acct_result_def split: option.splits sum.splits)


section \<open>The copy of banking-service\<close>

definition account_map :: "acct_db \<Rightarrow> int \<rightharpoonup> int \<times> string" where
  "account_map db i =
     map_option (\<lambda>r. (ac_user_id r, ac_name r)) (List.find (\<lambda>r. ac_id r = i) (ad_accounts db))"

fun deliver_accounts :: "dict list \<Rightarrow> bank_db \<Rightarrow> bool \<times> bank_db" where
  "deliver_accounts [] bdb = (True, bdb)"
| "deliver_accounts (p # ps) bdb =
     (case account_projection_handle p bdb of
        (Handled, bdb') \<Rightarrow> deliver_accounts ps bdb'
      | (_, bdb') \<Rightarrow> (False, bdb'))"

definition account_events :: "acct_db \<Rightarrow> acct_db \<Rightarrow> dict list" where
  "account_events db db' = drop (length (ad_outbox db)) (map ob_payload (ad_outbox db'))"

lemma account_event_handled:
  assumes "account_valid r"
  shows "account_projection_handle (account_payload env created r) bdb =
    (Handled, bdb\<lparr>bd_accounts := AList.update (ac_id r) (ac_user_id r, ac_name r) (bd_accounts bdb)\<rparr>)"
proof -
  have "ac_name r \<noteq> []" "length (ac_name r) \<le> 200" using assms by (auto simp: account_valid_def stored_name_def)
  then show ?thesis
    by (simp add: account_projection_handle_def account_of_payload_def account_payload_def dget_or_def json_or_def
        account_upsert_def guardE_def)
qed

lemma find_update_where_id:
  assumes "\<exists>x\<in>set rows. ac_id x = ac_id r"
  shows "List.find (\<lambda>x. ac_id x = i) (update_where (\<lambda>x. ac_id x = ac_id r) (\<lambda>_. r) rows) =
    (if i = ac_id r then Some r else List.find (\<lambda>x. ac_id x = i) rows)"
proof (cases "i = ac_id r")
  case True
  have "List.find (\<lambda>x. ac_id x = ac_id r) (update_where (\<lambda>x. ac_id x = ac_id r) (\<lambda>_. r) rows) = Some r"
    using assms by (induction rows) auto
  then show ?thesis using True by simp
next
  case False
  have "List.find (\<lambda>x. ac_id x = i) (update_where (\<lambda>x. ac_id x = ac_id r) (\<lambda>_. r) rows) = List.find (\<lambda>x. ac_id x = i) rows"
    using False by (induction rows) auto
  then show ?thesis using False by simp
qed

lemma account_write_map:
  assumes "accounts_ok db" and "account_write env db db'"
  shows "map ob_payload (ad_outbox db') = map ob_payload (ad_outbox db) \<and> account_map db' = account_map db \<or>
    (\<exists>r c. account_valid r \<and> map ob_payload (ad_outbox db') = map ob_payload (ad_outbox db) @ [account_payload env c r] \<and>
       account_map db' = (account_map db)(ac_id r \<mapsto> (ac_user_id r, ac_name r)))"
  using assms(2) unfolding account_write_def
proof (elim disjE exE)
  assume "untouched db db'"
  then show ?thesis by (simp add: untouched_def account_map_def fun_eq_iff)
next
  fix r assume r: "added env r db db'"
  have "List.find (\<lambda>x. ac_id x = ac_id r) (ad_accounts db) = None"
    using assms(1) r by (auto simp: find_None_all added_def accounts_ok_def list_all_iff)
  then have "account_map db' = (account_map db)(ac_id r \<mapsto> (ac_user_id r, ac_name r))"
    using r by (auto simp: account_map_def added_def fun_eq_iff find_append split: option.splits)
  then show ?thesis using r by (auto simp: added_def)
next
  fix r assume r: "replaced env r db db'"
  then have "account_map db' = (account_map db)(ac_id r \<mapsto> (ac_user_id r, ac_name r))"
    by (simp add: account_map_def replaced_def fun_eq_iff find_update_where_id)
  then show ?thesis using r by (auto simp: replaced_def)
qed

lemma run_acct_ops_copied:
  "accounts_ok db \<Longrightarrow>
   \<exists>ps. map ob_payload (ad_outbox (run_acct_ops ops db)) = map ob_payload (ad_outbox db) @ ps \<and>
     (\<forall>bdb. map_of (bd_accounts bdb) = account_map db \<longrightarrow>
        (\<exists>bdb'. deliver_accounts ps bdb = (True, bdb') \<and> map_of (bd_accounts bdb') = account_map (run_acct_ops ops db)))"
proof (induction ops db rule: run_acct_ops.induct)
  case (2 env op ops db)
  let ?db1 = "acct_apply env op db"
  have w: "account_write env db ?db1" using acct_apply_write [OF 2(2)] .
  obtain ps where ps: "map ob_payload (ad_outbox (run_acct_ops ops ?db1)) = map ob_payload (ad_outbox ?db1) @ ps"
    "\<And>bdb. map_of (bd_accounts bdb) = account_map ?db1 \<Longrightarrow>
      \<exists>bdb'. deliver_accounts ps bdb = (True, bdb') \<and> map_of (bd_accounts bdb') = account_map (run_acct_ops ops ?db1)"
    using 2(1) [OF account_write_ok [OF 2(2) w]] by blast
  from account_write_map [OF 2(2) w] show ?case
  proof (elim disjE exE conjE)
    assume "map ob_payload (ad_outbox ?db1) = map ob_payload (ad_outbox db)" "account_map ?db1 = account_map db"
    then show ?thesis using ps by auto
  next
    fix r c assume r: "account_valid r" "map ob_payload (ad_outbox ?db1) = map ob_payload (ad_outbox db) @ [account_payload env c r]"
      "account_map ?db1 = (account_map db)(ac_id r \<mapsto> (ac_user_id r, ac_name r))"
    show ?thesis
      by (rule exI [of _ "account_payload env c r # ps"])
        (use ps r in \<open>simp add: account_event_handled update_conv'\<close>)
  qed
qed (auto intro!: exI [of _ "[]"])

text \<open>
  C39. The copy of the accounts in banking-service follows the table: whatever requests and deliveries account-service
  executes, the events it put in its outbox, delivered in their order, are all handled and leave the copy with the
  owner and the name of exactly the accounts of the table.
\<close>

theorem account_copy_follows:
  assumes "db = run_acct_ops before empty_acct_db" and "db' = run_acct_ops ops db"
    and "map_of (bd_accounts bdb) = account_map db"
  shows "\<exists>bdb'. deliver_accounts (account_events db db') bdb = (True, bdb') \<and> map_of (bd_accounts bdb') = account_map db'"
proof -
  have "accounts_ok db" using assms(1) run_acct_ops_ok by simp
  then obtain ps where ps: "map ob_payload (ad_outbox db') = map ob_payload (ad_outbox db) @ ps"
    "\<exists>bdb'. deliver_accounts ps bdb = (True, bdb') \<and> map_of (bd_accounts bdb') = account_map db'"
    using run_acct_ops_copied [of db ops] assms(2, 3) by blast
  have "account_events db db' = ps" by (simp add: account_events_def ps(1))
  then show ?thesis using ps(2) by simp
qed

text \<open>The events carry no correlation id, so the inbox of the copy never recognises one: an old event that comes again
  after a newer one takes the copy back.\<close>

lemma old_account_event_wins:
  assumes "account_valid r" and "account_valid r'" and "ac_id r' = ac_id r" and "bdb' = snd (account_projection_handle (account_payload env False r') bdb)"
  shows "map_of (bd_accounts (snd (account_projection_handle (account_payload env True r) bdb'))) (ac_id r) = Some (ac_user_id r, ac_name r)"
  by (simp add: account_event_handled [OF assms(1)] update_conv')

section \<open>Groups\<close>

definition groups_ok :: "acct_db \<Rightarrow> bool" where
  "groups_ok db \<longleftrightarrow>
     distinct (map gr_id (ad_groups db)) \<and> list_all (\<lambda>g. gr_id g < ad_next_group db) (ad_groups db) \<and>
     list_all (\<lambda>m. fst m < ad_next_group db) (ad_members db) \<and>
     list_all (\<lambda>g. distinct (members_of (gr_id g) db) \<and> int (length (members_of (gr_id g) db)) \<le> gr_max_users g \<and>
       gr_max_users g \<le> GROUP_MAX_USERS) (ad_groups db)"

lemma members_of_replaced:
  assumes "replace_users g us db = Inr db'"
  shows "members_of i db' = (if i = g then first_occurrences us else members_of i db)"
proof -
  have db': "ad_members db' = filter (\<lambda>m. fst m \<noteq> g) (ad_members db) @ map (Pair g) (first_occurrences us)"
    using assms by (auto simp: replace_users_def bindE_eq_Inr)
  have "filter (\<lambda>m. fst m = i) (map (Pair g) us') = (if i = g then map (Pair g) us' else [])" for us' :: "int list"
    by (induction us') auto
  moreover have "filter (\<lambda>m. fst m \<noteq> g \<and> fst m = i) (ad_members db) = (if i = g then [] else filter (\<lambda>m. fst m = i) (ad_members db))"
    by (auto intro: filter_cong simp: filter_empty_conv)
  ultimately show ?thesis by (simp add: members_of_def db' o_def)
qed

lemma first_occurrences_facts: "distinct (first_occurrences us)" "length (first_occurrences us) \<le> length us"
  using length_remdups_leq [of "rev us"] by (simp_all add: first_occurrences_def)

lemma replace_users_groups:
  "replace_users g us db = Inr db' \<Longrightarrow> ad_groups db' = ad_groups db \<and> ad_next_group db' = ad_next_group db \<and>
   ad_members db' = filter (\<lambda>m. fst m \<noteq> g) (ad_members db) @ map (Pair g) (first_occurrences us)"
  by (auto simp: replace_users_def bindE_eq_Inr)

lemma members_of_groups [simp]: "members_of i (db\<lparr>ad_groups := gs\<rparr>) = members_of i db"
  "members_of i (db\<lparr>ad_next_group := k\<rparr>) = members_of i db"
  by (simp_all add: members_of_def)

lemma replaced_group_ok:
  assumes ok: "groups_ok db" and "replace_users i us (db\<lparr>ad_next_group := k, ad_groups := gs\<rparr>) = Inr db'"
    and "distinct (map gr_id gs)" and "i < k" and "ad_next_group db \<le> k"
    and "\<And>g. g \<in> set gs \<Longrightarrow> gr_id g \<noteq> i \<Longrightarrow> g \<in> set (ad_groups db)"
    and "\<And>g. g \<in> set gs \<Longrightarrow> gr_id g = i \<Longrightarrow> int (length us) \<le> gr_max_users g \<and> gr_max_users g \<le> GROUP_MAX_USERS"
  shows "groups_ok db'"
proof -
  note r = replace_users_groups [OF assms(2)] members_of_replaced [OF assms(2)]
  have "gr_id g < k \<and> distinct (members_of (gr_id g) db') \<and> int (length (members_of (gr_id g) db')) \<le> gr_max_users g \<and>
      gr_max_users g \<le> GROUP_MAX_USERS" if g: "g \<in> set gs" for g
  proof (cases "gr_id g = i")
    case True
    then show ?thesis using assms(4, 7) g r(2) first_occurrences_facts [of us] by force
  next
    case False
    then have "g \<in> set (ad_groups db)" using assms(6) g by blast
    then show ?thesis using ok assms(5) False r(2) by (auto simp: groups_ok_def list_all_iff)
  qed
  then show ?thesis
    using ok r(1) assms(3-5) by (auto simp: groups_ok_def list_all_iff)
qed

lemma create_group_ok:
  assumes ok: "groups_ok db" and "int (length us) \<le> k" and "k \<le> GROUP_MAX_USERS" and "create_group env name k us db = (r, db')"
  shows "groups_ok db'"
proof (cases "check_group_users env us")
  case (Inr v)
  let ?g = "\<lparr>gr_id = ad_next_group db, gr_name = name, gr_max_users = k\<rparr>"
  let ?mid = "db\<lparr>ad_next_group := ad_next_group db + 1, ad_groups := ad_groups db @ [?g]\<rparr>"
  show ?thesis
  proof (cases "replace_users (ad_next_group db) us ?mid")
    case (Inl e)
    then have "db' = db\<lparr>ad_next_group := ad_next_group db + 1\<rparr>"
      using assms(4) Inr by (simp add: create_group_def Let_def)
    then show ?thesis using ok by (auto simp: groups_ok_def list_all_iff)
  next
    case (Inr db1)
    have "db' = db1" using assms(4) \<open>check_group_users env us = Inr v\<close> Inr by (simp add: create_group_def Let_def)
    moreover have "groups_ok db1"
      by (rule replaced_group_ok [OF ok Inr]) (use ok assms(2, 3) in \<open>auto simp: groups_ok_def list_all_iff\<close>)
    ultimately show ?thesis by simp
  qed
qed (use assms in \<open>simp add: create_group_def\<close>)

lemma update_group_ok:
  assumes ok: "groups_ok db" and "int (length us) \<le> k" and "k \<le> GROUP_MAX_USERS" and "update_group env i name k us db = (r, db')"
  shows "groups_ok db'"
proof (cases "\<exists>x v db1. group_row_of i db = Some x \<and> bindE (group_entity env x db) (\<lambda>_. check_group_users env us) = Inr v \<and>
    replace_users i us (db\<lparr>ad_groups := update_where (\<lambda>x. gr_id x = i)
      (\<lambda>_. \<lparr>gr_id = i, gr_name = name, gr_max_users = k\<rparr>) (ad_groups db)\<rparr>) = Inr db1")
  case True
  then obtain x v db1 where t: "group_row_of i db = Some x" "bindE (group_entity env x db) (\<lambda>_. check_group_users env us) = Inr v"
    "replace_users i us (db\<lparr>ad_groups := update_where (\<lambda>x. gr_id x = i)
      (\<lambda>_. \<lparr>gr_id = i, gr_name = name, gr_max_users = k\<rparr>) (ad_groups db)\<rparr>) = Inr db1" by blast
  have old: "\<exists>g\<in>set (ad_groups db). gr_id g = i"
    using t(1) by (auto simp: group_row_of_def dest: find_Some_mem)
  have ids: "map gr_id (update_where (\<lambda>x. gr_id x = i) (\<lambda>_. \<lparr>gr_id = i, gr_name = name, gr_max_users = k\<rparr>) (ad_groups db)) =
      map gr_id (ad_groups db)"
    by (auto simp: update_where_def)
  have db1: "db' = db1" using assms(4) t by (simp add: update_group_def Let_def)
  have rep: "replace_users i us (db\<lparr>ad_next_group := ad_next_group db, ad_groups := update_where (\<lambda>x. gr_id x = i)
      (\<lambda>_. \<lparr>gr_id = i, gr_name = name, gr_max_users = k\<rparr>) (ad_groups db)\<rparr>) = Inr db1"
    using t(3) by simp
  have bound: "gr_max_users g = k"
    if g: "g \<in> set (update_where (\<lambda>x. gr_id x = i) (\<lambda>_. \<lparr>gr_id = i, gr_name = name, gr_max_users = k\<rparr>) (ad_groups db))"
      and gi: "gr_id g = i" for g
  proof -
    obtain x where "g = (if gr_id x = i then \<lparr>gr_id = i, gr_name = name, gr_max_users = k\<rparr> else x)"
      using g unfolding set_update_where by blast
    then show ?thesis using gi by (cases "gr_id x = i") auto
  qed
  have "groups_ok db1"
  proof (rule replaced_group_ok [OF ok rep])
    show "i < ad_next_group db" using old ok by (auto simp: groups_ok_def list_all_iff)
  qed (use bound assms(2, 3) ok in \<open>auto simp: ids groups_ok_def set_update_where\<close>)
  then show ?thesis using db1 by simp
qed (use assms in \<open>auto simp: update_group_def Let_def split: sum.splits option.splits\<close>)

lemma group_base_Some:
  "group_base name k us = Some (n, k', us') \<Longrightarrow> k' = k \<and> us' = us \<and> int (length us) \<le> k \<and> k \<le> GROUP_MAX_USERS"
  by (auto simp: group_base_def split: option.splits if_splits)

lemma create_account_groups:
  "create_account env n v d u db = (r, db') \<Longrightarrow>
   ad_groups db' = ad_groups db \<and> ad_next_group db' = ad_next_group db \<and> ad_members db' = ad_members db"
  by (auto simp: create_account_def account_insert_def account_announce_def Let_def split: sum.splits prod.splits if_splits)

lemma update_account_groups:
  "update_account env i n v d db = (r, db') \<Longrightarrow>
   ad_groups db' = ad_groups db \<and> ad_next_group db' = ad_next_group db \<and> ad_members db' = ad_members db"
  by (auto simp: update_account_def account_put_def account_announce_def Let_def bindE_eq_Inr
      split: sum.splits prod.splits option.splits)

lemma groups_ok_same:
  "groups_ok db \<Longrightarrow> ad_groups db' = ad_groups db \<and> ad_next_group db' = ad_next_group db \<and> ad_members db' = ad_members db \<Longrightarrow>
   groups_ok db'"
  by (simp add: groups_ok_def members_of_def)

lemma open_default_groups:
  assumes "groups_ok db"
  shows "groups_ok (snd (open_default_account env u db))"
proof -
  obtain r db1 where c: "create_account env DEFAULT_ACCOUNT 0 1 u db = (r, db1)" by fastforce
  have "snd (open_default_account env u db) = db1" by (simp add: open_default_account_def c split: sum.splits)
  then show ?thesis using groups_ok_same [OF assms create_account_groups [OF c]] by simp
qed

lemma acct_http_groups:
  assumes ok: "groups_ok db" and http: "acct_http env q db = (a, db')"
  shows "groups_ok db'"
proof (cases q)
  case (CreateAccount h n v d)
  then show ?thesis
    using http groups_ok_same [OF ok create_account_groups] ok
    by (auto simp: acct_user_def split: option.splits prod.splits sum.splits)
next
  case (UpdateAccount h i n v d)
  then show ?thesis
    using http groups_ok_same [OF ok update_account_groups] ok
    by (auto simp: acct_user_def split: option.splits prod.splits sum.splits if_splits)
next
  case (CreateGroup h n k us)
  then show ?thesis
    using http create_group_ok [OF ok] ok
    by (auto simp: acct_user_def split: option.splits prod.splits dest!: group_base_Some)
next
  case (UpdateGroup h i n k us)
  then show ?thesis
    using http update_group_ok [OF ok] ok
    by (auto simp: acct_user_def split: option.splits prod.splits dest!: group_base_Some)
qed (use http ok in \<open>auto simp: acct_user_def split: option.splits\<close>)

lemma run_acct_ops_groups: "groups_ok db \<Longrightarrow> groups_ok (run_acct_ops ops db)"
proof (induction ops db rule: run_acct_ops.induct)
  case (2 env op ops db)
  have "groups_ok (acct_apply env op db)"
  proof (cases op)
    case (AcctRequest q)
    then show ?thesis using acct_http_groups [OF 2(2)] by (metis acct_apply.simps(1) prod.collapse)
  next
    case (UserCreated payload)
    then show ?thesis
      using open_default_groups [OF 2(2)] 2(2) by (auto simp: user_created_handle_def split: option.splits sum.splits)
  next
    case (OpenDefault u)
    then show ?thesis using open_default_groups [OF 2(2)] by simp
  qed
  then show ?case using 2(1) by simp
qed simp

text \<open>
  No group outgrows its bound: after any sequence of requests every group has at most as many members as it
  allows, at most twenty, and none of them twice, also when ids are repeated in a request.
\<close>

theorem group_members_bounded:
  assumes "db = run_acct_ops ops empty_acct_db" and "g \<in> set (ad_groups db)"
  shows "distinct (members_of (gr_id g) db) \<and> int (length (members_of (gr_id g) db)) \<le> gr_max_users g \<and>
    gr_max_users g \<le> 20"
proof -
  have "groups_ok empty_acct_db" by (simp add: groups_ok_def empty_acct_db_def)
  then have "groups_ok db" using assms(1) run_acct_ops_groups by simp
  then show ?thesis using assms(2) by (auto simp: groups_ok_def list_all_iff GROUP_MAX_USERS_def)
qed

section \<open>Witnesses\<close>

text \<open>A user-service that knows every user, and requests of users 7 and 8 between two deliveries of one event.\<close>

definition demo_header :: "int \<Rightarrow> string option" where
  "demo_header u = Some (''Bearer '' @ create_access_token demo_jwt ''k'' 0 u ''n'' ''e'')"

definition demo_account_env :: account_env where
  "demo_account_env =
     \<lparr>av_now = 1, av_user_http = \<lambda>u. Some (200, [(''id'', JInt u), (''username'', JStr ''n'')]), av_isoformat = \<lambda>_. ''t'',
      av_jwt = demo_jwt, av_secret = ''k'', av_internal_key = Some ''i''\<rparr>"

definition demo_user_created :: dict where
  "demo_user_created = [(''event_type'', JStr ''user.created''), (''user_id'', JInt 7)]"

definition demo_acct_db :: acct_db where
  "demo_acct_db = run_acct_ops [(demo_account_env, UserCreated demo_user_created)] empty_acct_db"

lemma demo_acct_facts:
  "user_of_payload demo_user_created = Some 7"
  "fst (user_created_handle demo_account_env demo_user_created empty_acct_db) = Handled"
  "map (\<lambda>r. (ac_id r, ac_name r, ac_user_id r)) (ad_accounts demo_acct_db) = [(1, ''Default Account'', 7)]"
  by code_simp+

lemma demo_account_env_simps:
  "av_jwt demo_account_env = demo_jwt" "av_secret demo_account_env = ''k''" "av_now demo_account_env = 1"
  by (simp_all add: demo_account_env_def)

lemma demo_signed: "get_current_user_id demo_jwt ''k'' 1 (demo_header u) = Some u"
  using token_read [OF demo_jwt_laws, of "''k''" 1 "''k''" 0 u "''n''" "''e''"] by (simp add: demo_header_def)

lemma demo_acct_user: "acct_user demo_account_env (demo_header u) db f = f u"
  by (simp add: acct_user_def demo_account_env_simps demo_signed)

definition demo_later :: "(account_env \<times> acct_op) list" where
  "demo_later =
     [(demo_account_env, OpenDefault 7), (demo_account_env, OpenDefault 8), (demo_account_env, UserCreated demo_user_created)]"

lemma demo_handled: "user_created_handle demo_account_env demo_user_created (run_acct_ops [] empty_acct_db) = (Handled, demo_acct_db)"
  using demo_acct_facts(2) by (simp add: demo_acct_db_def prod_eq_iff)

theorem first_account_once_witness:
  "length (filter (\<lambda>r. ac_user_id r = 7 \<and> ac_name r = DEFAULT_ACCOUNT) (ad_accounts (run_acct_ops demo_later demo_acct_db))) \<le> 1 \<and>
   user_created_handle demo_account_env demo_user_created (run_acct_ops demo_later demo_acct_db) =
     (Handled, run_acct_ops demo_later demo_acct_db)"
  using first_account_once [OF refl demo_acct_facts(1) demo_handled refl] by blast


definition demo_linked_env :: account_env where
  "demo_linked_env = demo_account_env\<lparr>av_user_http := user_port demo_user_env (Some ''i'') demo_users\<rparr>"

lemma demo_first_event:
  "hd (ud_outbox demo_users) \<in> set (ud_outbox demo_users)" "ue_user_id (ob_payload (hd (ud_outbox demo_users))) = 1"
proof -
  have "length (ud_outbox demo_users) = 2" by code_simp
  then show "hd (ud_outbox demo_users) \<in> set (ud_outbox demo_users)" by (cases "ud_outbox demo_users") auto
  show "ue_user_id (ob_payload (hd (ud_outbox demo_users))) = 1" by code_simp
qed


definition demo_account_copy :: bank_db where
  "demo_account_copy = \<lparr>bd_connections = [], bd_pending = [], bd_accounts = [], bd_outbox = [], bd_processed = []\<rparr>"

theorem account_copy_follows_witness:
  "\<exists>bdb'. deliver_accounts (account_events empty_acct_db (run_acct_ops demo_later empty_acct_db)) demo_account_copy = (True, bdb') \<and>
     map_of (bd_accounts bdb') = account_map (run_acct_ops demo_later empty_acct_db)"
proof (rule account_copy_follows)
  show "empty_acct_db = run_acct_ops [] empty_acct_db" by simp
  show "map_of (bd_accounts demo_account_copy) = account_map empty_acct_db"
    by (simp add: demo_account_copy_def account_map_def empty_acct_db_def fun_eq_iff)
qed simp

definition demo_group :: group_row where
  "demo_group = \<lparr>gr_id = 1, gr_name = ''Familie'', gr_max_users = 3\<rparr>"

definition demo_group_ops :: "(account_env \<times> acct_op) list" where
  "demo_group_ops = [(demo_account_env, AcctRequest (CreateGroup (demo_header 7) ''Familie'' 3 [7, 8, 7]))]"

lemma demo_group_created:
  "snd (create_group demo_account_env ''Familie'' 3 [7, 8, 7] empty_acct_db) =
     empty_acct_db\<lparr>ad_groups := [demo_group], ad_next_group := 2, ad_members := [(1, 7), (1, 8)]\<rparr>"
  "group_base ''Familie'' 3 [7, 8, 7] = Some (''Familie'', 3, [7, 8, 7])"
  by code_simp+

lemma demo_group_run:
  "run_acct_ops demo_group_ops empty_acct_db =
     empty_acct_db\<lparr>ad_groups := [demo_group], ad_next_group := 2, ad_members := [(1, 7), (1, 8)]\<rparr>"
  using demo_group_created by (simp add: demo_group_ops_def demo_acct_user Let_def case_prod_beta)

theorem group_members_bounded_witness:
  "distinct (members_of 1 (run_acct_ops demo_group_ops empty_acct_db)) \<and>
   members_of 1 (run_acct_ops demo_group_ops empty_acct_db) = [7, 8]"
proof -
  have "demo_group \<in> set (ad_groups (run_acct_ops demo_group_ops empty_acct_db))" by (simp add: demo_group_run)
  from group_members_bounded [OF refl this] show ?thesis by (simp add: demo_group_run demo_group_def members_of_def)
qed

section \<open>What the routes let through and what they break on\<close>

text \<open>A second account of the reserved name violates the partial index, which the route does not translate.\<close>

lemma second_default_fails:
  "fst (acct_http demo_account_env (CreateAccount (demo_header 7) ''Default Account'' 0 1) demo_acct_db) = AcctRefused 500"
proof -
  have "fst (create_account demo_account_env ''Default Account'' 0 1 7 demo_acct_db) =
      Inl (AcctIntegrity (default_violation 7))"
    "account_base ''Default Account'' 0 1 = Some (''Default Account'', 0, 1)"
    by code_simp+
  then show ?thesis by (cases "create_account demo_account_env ''Default Account'' 0 1 7 demo_acct_db") (simp add: demo_acct_user)
qed

text \<open>The routes of groups ask for a signed-in user only: user 9 takes over the group of users 7 and 8.\<close>

lemma stranger_takes_group:
  "members_of 1 (snd (acct_http demo_account_env (UpdateGroup (demo_header 9) 1 ''Min'' 3 [9])
     (run_acct_ops demo_group_ops empty_acct_db))) = [9]"
proof -
  have "members_of 1 (snd (update_group demo_account_env 1 ''Min'' 3 [9]
      (empty_acct_db\<lparr>ad_groups := [demo_group], ad_next_group := 2, ad_members := [(1, 7), (1, 8)]\<rparr>))) = [9]"
    "group_base ''Min'' 3 [9] = Some (''Min'', 3, [9])"
    by code_simp+
  then show ?thesis by (simp add: demo_acct_user demo_group_run Let_def case_prod_beta)
qed

end
