(* ===== verification/Spec2Isabelle.thy ===== *)
theory Spec2Isabelle
  imports BudgetPeriod OutboxWorkers SagaProperties GoalProofs Embedding MonthlyBudgetProofs NotificationProofs
    BankSyncFlow TransactionTable BankClientProofs BankingProofs CategorizationFlow CsvProofs UserProofs AccountProofs
begin

text \<open>
  Verification of Finance Tracker.

  The program.  Finance Tracker is a personal finance application built of Python services under \<open>src/services\<close>.
  Each service owns a PostgreSQL database (analytics-service an Elasticsearch index) and talks to the others over
  RabbitMQ.  A service writes the events it announces into an outbox table in the same database transaction as the
  change itself; a worker publishes the rows; the consumers of the other services receive every message at least
  once, possibly again and out of order.  Money enters through bank synchronisations, which saga-service
  coordinates (fetch in banking-service, import in transaction-service, completion in banking-service, roll back of
  the import when the last step fails), through uploaded statements and by hand.  categorization-service assigns a
  subcategory to each transaction; analytics-service, goal-service, budget-service and notification-service build
  their own views from the events.

  How the code becomes definitions.  A table is the list of its rows, a row a record whose fields have a prefix of two
  letters; a service's database is a record of its tables and of the counters its primary keys come from.  An
  operation is a function from the database to a result (\<open>Inl\<close> an exception, \<open>Inr\<close> a value) and the new database;
  an exception that leaves a use case rolls the database back.  A message body is a value of \<open>json\<close>, a dictionary
  the association list in insertion order.  What lies outside the code is an argument: the clock, random ids, the
  answers of HTTP calls, failures of the broker or of a database statement, the embedding and language models.
  Where a use case commits more than once, or reads before it writes, it is split at that point and the steps of
  several callers are interleaved by an inductive relation or a list of steps.

  Shared ground.  \<open>Prelude\<close> has the error monad, json values, strings and row updates, with the collections
  \<open>result_simps\<close> and \<open>inv_intros\<close>.  \<open>Calendar\<close> is \<open>datetime.date\<close>, \<open>PyFloat\<close> Python's binary floats as the rationals
  they denote, \<open>PyDecimal\<close> decimal numerals, money texts and ISO dates.

  Theories and sources (under \<open>src/services\<close>).

  \<open>Outbox\<close>, \<open>OutboxWorkers\<close>: \<open>shared/messaging/messaging/outbox.py\<close> and \<open>worker.py\<close>.  The repository, the batches of the
  publisher, and any number of concurrent publishers with crashes: a row marked published is on the broker, and
  without crashes nothing is published twice.

  \<open>Consumer\<close>: \<open>shared/messaging/messaging/consumer.py\<close>.  One delivery and the retry ladder, which ends; the locale
  \<open>idempotent_consumer\<close> is the contract of a handler that dedupes on a key, interpreted by the services that do.

  \<open>BudgetPeriod\<close>: \<open>shared/domain/domain/budget_period.py\<close>.  Budget months partition the calendar.

  \<open>Saga\<close>, \<open>BankSyncSaga\<close>, \<open>SagaContract\<close>, \<open>SagaProofs\<close>, \<open>SagaProperties\<close>: saga-service.  The orchestrator with its
  consumers and the timeout worker for an arbitrary registry of definitions, the locale of what the engine needs of a
  definition, its interpretation on the bank synchronisation, and over all reachable databases: the shape of the
  rows, the commands emitted, one start per correlation id, a bound on the number of changes and termination of
  abandoned sagas.

  \<open>Transactions\<close>, \<open>TransactionWorkers\<close>, \<open>TransactionProofs\<close>, \<open>TransactionTable\<close>: transaction-service.  Use cases, repository
  and the three workers; imports that are interrupted and retried act as one, the outbox replays the table, a
  category the user chose stays, the table stays well formed.  \<open>CsvImport\<close>, \<open>CsvProofs\<close>: uploaded statements, from the
  bytes to the rows, with Python's CSV reader as a state machine.

  \<open>Banking\<close>, \<open>BankWorkers\<close>, \<open>BankClient\<close>, \<open>BankingProofs\<close>, \<open>BankClientProofs\<close>: banking-service.  Connections, claims,
  the scheduler and the workers; the reading of what the bank answers.  A claim excludes a second synchronisation
  under every interleaving, a completion is announced once, a fetched transaction arrives as it was.
  \<open>BankSyncFlow\<close> composes the services: a synchronisation that fails after its import leaves no transaction behind.

  \<open>RuleEngines\<close>, \<open>Taxonomy\<close>, \<open>CategorizationWorkers\<close>, \<open>RuleProofs\<close>, \<open>TaxonomyProofs\<close>, \<open>CategorizationFlow\<close>:
  categorization-service.  The matching text and the three rule engines, the taxonomy and the rules of users, the
  provider with its caches and both consumers; which rule wins and how old it may be, the invariant of the tables,
  and composed with transaction-service: the copy of the taxonomy follows its master, a categorization reaches its
  transaction, a correction takes effect.

  \<open>Users\<close>, \<open>UserProofs\<close>: user-service with \<open>shared/auth/auth\<close>.  Registration, login and the changes of name and
  password; bcrypt and the token library are parameters, and what is relied on of them are the hypotheses
  \<open>bcrypt_laws\<close> and \<open>jwt_laws\<close>.  Names stay unique in any race, a login follows the password set last, its token is the
  user's session for an hour.

  \<open>Accounts\<close>, \<open>AccountProofs\<close>: account-service.  Accounts and groups, the consumer that opens the first account of a new
  user, and the routes.  With user-service as the answer of its lookups every registration leads to an account, never
  to two default ones; a user reaches only the own accounts; the copy banking-service keeps follows the table.

  \<open>Goals\<close>, \<open>GoalProofs\<close>: goal-service; each closed month is credited once and an account has at most one default goal.
  \<open>MonthlyBudget\<close>, \<open>MonthlyBudgetProofs\<close>: the monthly budgets of budget-service with alerts and schedulers; a month is
  closed once.  \<open>Notifications\<close>, \<open>NotificationProofs\<close>: notification-service; each event gives one row of the feed.
  \<open>Projections\<close>, \<open>ProjectionProofs\<close>, \<open>Embedding\<close>: analytics-service; the stores refine last-writer-wins registers, so
  they converge under any order of delivery, and documents stay well typed.

  Bounds and fuel.  \<open>ladder\<close> recurs on the retries that are left and \<open>csv_records\<close> on the lines of the text, both with
  a termination proof.  The reading of bank pages has the code's own bound on the number of pages.  A batch of the
  outbox worker has the code's batch size as fuel, so no result depends on a number chosen here.  Columns have their
  widths: a text or an amount that does not fit raises.  Serial primary keys are not bounded.

  Not modelled.  The reclassification runs, taxonomy migrations, seed catalogue, backfills and
  command-line tools: one-off maintenance over several databases.  The queries of analytics-service are aggregations that
  Elasticsearch evaluates.  The single budgets of budget-service are the older interface beside the monthly ones.
  gateway-service forwards reads; ai-service prompts a language model; the optional ML and language-model tiers of the
  categorizer are parameters.  Apart from the routes of user-service and account-service, HTTP routing is left out, as
  are request decoding, broker connections, logging and the frontend: libraries, input and output.
\<close>

end
